(* ===== verification/LiS_Prelude.thy ===== *)
theory LiS_Prelude
  imports Main "HOL-Library.Word" "HOL-Library.Monad_Syntax"
begin

text \<open>
  Shared vocabulary of the CSLiS development: addresses, the conversions of C between integer
  widths, the option monad in which a fault (a dereference of an unallocated address, an endless
  loop) is \<^term>\<open>None\<close>, and the generic theory of the singly and doubly linked lists which the
  STREAMS code threads through its structures.
\<close>

unbundle bit_operations_syntax

subsection \<open>Addresses and C integers\<close>

text \<open>Addresses are natural numbers; 0 is the null pointer.\<close>

type_synonym ptr = nat

abbreviation (input) NULL :: ptr where "NULL \<equiv> 0"

type_synonym u8 = "8 word"
type_synonym u16 = "16 word"
type_synonym u32 = "32 word"
type_synonym u64 = "64 word"

lemma unat_u8_less: "unat (w :: u8) < 256"
  using unsigned_less[of w] by simp

text \<open>Conversion of a wider signed value to the 32-bit \<open>int\<close> of C (modulo \<open>2 ^ 32\<close>).\<close>

definition c_int :: "int \<Rightarrow> int" where
  "c_int x = (x + 2 ^ 31) mod 2 ^ 32 - 2 ^ 31"

text \<open>The difference of two \<open>unsigned char *\<close> pointers, assigned to an \<open>int\<close>.\<close>

definition ptrdiff :: "ptr \<Rightarrow> ptr \<Rightarrow> int" where
  "ptrdiff a b = c_int (int a - int b)"

lemma c_int_id: "- (2 ^ 31) \<le> x \<Longrightarrow> x < 2 ^ 31 \<Longrightarrow> c_int x = x"
  by (simp add: c_int_def)

lemma c_int_range: "- (2 ^ 31) \<le> c_int x" "c_int x < 2 ^ 31"
  by (simp_all add: c_int_def)

lemma c_int_add: "c_int (c_int x + y) = c_int (x + y)"
proof -
  have "(x + 2 ^ 31) mod 2 ^ 32 - 2 ^ 31 + y + 2 ^ 31 = (x + 2 ^ 31) mod 2 ^ 32 + y"
    by simp
  then show ?thesis by (simp add: c_int_def mod_simps algebra_simps)
qed

lemma c_int_0 [simp]: "c_int 0 = 0"
  by (simp add: c_int_def)

text \<open>A pointer displaced by a signed C offset (never below 0 in the code).\<close>

definition ptr_add :: "ptr \<Rightarrow> int \<Rightarrow> ptr" where
  "ptr_add p n = nat (int p + n)"

lemma ptr_add_0 [simp]: "ptr_add p 0 = p"
  by (simp add: ptr_add_def)

lemma ptr_add_nonneg: "0 \<le> n \<Longrightarrow> ptr_add p n = p + nat n"
  by (simp add: ptr_add_def nat_add_distrib)

text \<open>The usual C test of a flag bit: \<open>F_ISSET(f, v)\<close>.\<close>

definition F_ISSET :: "'a::len word \<Rightarrow> 'a word \<Rightarrow> bool" where
  "F_ISSET f v \<longleftrightarrow> f AND v \<noteq> 0"

lemma F_ISSET_or: "F_ISSET (a OR b) c \<longleftrightarrow> F_ISSET a c \<or> F_ISSET b c"
  by (auto simp: F_ISSET_def bit_eq_iff bit_simps)

lemma F_ISSET_keep: "NOT b AND c = c \<Longrightarrow> F_ISSET (a AND NOT b) c = F_ISSET a c"
  by (simp add: F_ISSET_def and.assoc)

lemma F_ISSET_cleared: "NOT b AND c = 0 \<Longrightarrow> \<not> F_ISSET (a AND NOT b) c"
  by (simp add: F_ISSET_def and.assoc)

subsection \<open>The option monad\<close>

named_theorems lis_simps \<open>symbolic execution of heap reads and writes\<close>
named_theorems flag_simps \<open>tests of one flag after another was changed\<close>

lemma bind_Some_iff: "(x \<bind> f = Some y) \<longleftrightarrow> (\<exists>z. x = Some z \<and> f z = Some y)"
  by (cases x) auto

lemma bind_SomeE:
  assumes "x \<bind> f = Some y"
  obtains z where "x = Some z" and "f z = Some y"
  using assms by (cases x) auto

subsection \<open>Singly linked lists\<close>

text \<open>
  \<open>sseg nx p xs e\<close>: following the partial link function \<open>nx\<close> from \<open>p\<close> visits exactly \<open>xs\<close> and
  ends at \<open>e\<close>.  A null-terminated list is \<open>sseg nx p xs NULL\<close>.
\<close>

fun sseg :: "(ptr \<Rightarrow> ptr option) \<Rightarrow> ptr \<Rightarrow> ptr list \<Rightarrow> ptr \<Rightarrow> bool" where
  "sseg nx p [] e \<longleftrightarrow> p = e"
| "sseg nx p (x # xs) e \<longleftrightarrow> p = x \<and> x \<noteq> NULL \<and> (\<exists>n. nx x = Some n \<and> sseg nx n xs e)"

lemma sseg_append: "sseg nx p (xs @ ys) e \<longleftrightarrow> (\<exists>m. sseg nx p xs m \<and> sseg nx m ys e)"
  by (induction xs arbitrary: p) auto

lemma sseg_upd [simp]: "u \<notin> set xs \<Longrightarrow> sseg (nx(u := v)) p xs e = sseg nx p xs e"
  by (induction xs arbitrary: p) auto

lemma sseg_null [simp]: "sseg nx NULL xs e \<longleftrightarrow> xs = [] \<and> e = NULL"
  by (cases xs) auto

lemma sseg_notnull: "sseg nx p xs NULL \<Longrightarrow> p \<noteq> NULL \<Longrightarrow>
    \<exists>n ys. xs = p # ys \<and> nx p = Some n \<and> sseg nx n ys NULL"
  by (cases xs) auto

lemma sseg_unique: "sseg nx p xs NULL \<Longrightarrow> sseg nx p ys NULL \<Longrightarrow> xs = ys"
proof (induction xs arbitrary: p ys)
  case Nil
  then show ?case by simp
next
  case (Cons x xs)
  then obtain n where n: "nx x = Some n" "sseg nx n xs NULL" "p = x" "x \<noteq> NULL" by auto
  with Cons.prems(2) obtain zs where "ys = x # zs" "sseg nx n zs NULL"
    by (auto dest: sseg_notnull)
  with Cons.IH n show ?case by blast
qed

lemma sseg_nonzero: "sseg nx p xs e \<Longrightarrow> x \<in> set xs \<Longrightarrow> x \<noteq> NULL"
  by (induction xs arbitrary: p) auto

lemma sseg_dom: "sseg nx p xs e \<Longrightarrow> x \<in> set xs \<Longrightarrow> \<exists>n. nx x = Some n"
  by (induction xs arbitrary: p) auto

lemma sseg_cong: "(\<And>x. x \<in> set xs \<Longrightarrow> nx x = nx' x) \<Longrightarrow> sseg nx p xs e = sseg nx' p xs e"
  by (induction xs arbitrary: p) auto

lemma sseg_distinct: "sseg nx p xs NULL \<Longrightarrow> distinct xs"
proof (induction xs arbitrary: p)
  case Nil
  then show ?case by simp
next
  case (Cons x xs)
  then obtain n where n: "nx x = Some n" "sseg nx n xs NULL" by auto
  have "x \<notin> set xs"
  proof
    assume "x \<in> set xs"
    then obtain as bs where xs: "xs = as @ x # bs" by (auto simp: in_set_conv_decomp)
    with n have "sseg nx n bs NULL" by (auto simp: sseg_append)
    with n have "bs = xs" by (auto dest: sseg_unique)
    with xs show False by simp
  qed
  with Cons n show ?case by auto
qed

subsection \<open>Doubly linked lists\<close>

text \<open>
  \<open>dl L pv p xs lst nx\<close>: the cells \<open>xs\<close> are linked forward from \<open>p\<close> to \<open>nx\<close> and backward to \<open>pv\<close>,
  the last cell being \<open>lst\<close>.  \<open>L\<close> gives the pair of the next and the previous link of a cell.
\<close>

fun dl :: "(ptr \<Rightarrow> (ptr \<times> ptr) option) \<Rightarrow> ptr \<Rightarrow> ptr \<Rightarrow> ptr list \<Rightarrow> ptr \<Rightarrow> ptr \<Rightarrow> bool" where
  "dl L pv p [] lst nx \<longleftrightarrow> p = nx \<and> lst = pv"
| "dl L pv p (x # xs) lst nx \<longleftrightarrow>
     p = x \<and> x \<noteq> NULL \<and> (\<exists>n. L x = Some (n, pv) \<and> dl L x n xs lst nx)"

lemma dl_append:
  "dl L pv p (xs @ ys) lst nx \<longleftrightarrow> (\<exists>m k. dl L pv p xs m k \<and> dl L m k ys lst nx)"
  by (induction xs arbitrary: pv p) auto

lemma dl_upd [simp]: "u \<notin> set xs \<Longrightarrow> dl (L(u := v)) pv p xs lst nx = dl L pv p xs lst nx"
  by (induction xs arbitrary: pv p) auto

lemma dl_sseg: "dl L pv p xs lst nx \<Longrightarrow> sseg (\<lambda>x. map_option fst (L x)) p xs nx"
  by (induction xs arbitrary: pv p) auto

lemma dl_distinct: "dl L pv p xs lst NULL \<Longrightarrow> distinct xs"
  using dl_sseg sseg_distinct by blast

lemma dl_nonzero: "dl L pv p xs lst nx \<Longrightarrow> x \<in> set xs \<Longrightarrow> x \<noteq> NULL"
  by (induction xs arbitrary: pv p) auto

lemma dl_dom: "dl L pv p xs lst nx \<Longrightarrow> x \<in> set xs \<Longrightarrow> \<exists>y. L x = Some y"
  by (induction xs arbitrary: pv p) auto

lemma dl_first: "dl L pv p xs lst NULL \<Longrightarrow> p = (if xs = [] then NULL else hd xs)"
  by (cases xs) auto

lemma dl_first_null: "dl L pv p xs lst NULL \<Longrightarrow> p = NULL \<longleftrightarrow> xs = []"
  by (cases xs) auto

lemma dl_last: "dl L pv p xs lst nx \<Longrightarrow> xs \<noteq> [] \<Longrightarrow> lst = last xs"
  by (induction xs arbitrary: pv p) auto

lemma dl_last_null: "dl L NULL p xs lst nx \<Longrightarrow> lst = NULL \<longleftrightarrow> xs = []"
  by (cases xs rule: rev_cases) (auto simp: dl_append)

lemma dl_cong:
  "(\<And>x. x \<in> set xs \<Longrightarrow> L x = L' x) \<Longrightarrow> dl L pv p xs lst nx = dl L' pv p xs lst nx"
  by (induction xs arbitrary: pv p) auto

lemma dl_snoc:
  "dl L pv p (xs @ [x]) lst nx \<longleftrightarrow> lst = x \<and> x \<noteq> NULL \<and> (\<exists>m. dl L pv p xs m x \<and> L x = Some (nx, m))"
  by (auto simp: dl_append)

lemma dl_mid:
  "dl L pv p (xs @ x # ys) lst nx \<longleftrightarrow>
     x \<noteq> NULL \<and> (\<exists>m n. dl L pv p xs m x \<and> L x = Some (n, m) \<and> dl L x n ys lst nx)"
  by (auto simp: dl_append)

subsection \<open>Lists split at a predicate\<close>

text \<open>The head of a list as a pointer, null for the empty list.\<close>

fun hd0 :: "ptr list \<Rightarrow> ptr" where
  "hd0 [] = NULL"
| "hd0 (x # xs) = x"

lemma hd0_null: "NULL \<notin> set xs \<Longrightarrow> hd0 xs = NULL \<longleftrightarrow> xs = []"
  by (cases xs) auto

lemma takeWhile_dropWhile_cong:
  "(\<And>x. x \<in> set xs \<Longrightarrow> P x = Q x) \<Longrightarrow> takeWhile P xs = takeWhile Q xs \<and> dropWhile P xs = dropWhile Q xs"
  by (induction xs) auto

lemma sum_list_mod_word: "word_of_int (sum_list (map f xs)) = (\<Sum>x\<leftarrow>xs. word_of_int (f x) :: u64)"
  by (induction xs) auto

end
