(* ===== verification/LiS_EventOps.thy ===== *)
theory LiS_EventOps
  imports LiS_Prelude
begin

text \<open>
  The lists of processes that asked for signals, \<open>head/events.c\<close>: a circular doubly linked list with
  a dummy head, sorted by process, one node for each process.
\<close>

unbundle bit_operations_syntax

subsection \<open>The structures and operations\<close>

record strevent =
  se_next :: ptr
  se_prev :: ptr
  se_pid :: int
  se_evs :: u16

text \<open>The nodes, the answers of the allocator to come, and the nodes given back to it.\<close>

record evst =
  ev_heap :: "ptr \<Rightarrow> strevent option"
  ev_mem :: "ptr list"
  ev_freed :: "ptr list"

abbreviation (input) ENOMEM_ev :: int where "ENOMEM_ev \<equiv> 12"

definition upd_ev :: "ptr \<Rightarrow> (strevent \<Rightarrow> strevent) \<Rightarrow> evst \<Rightarrow> evst option" where
  "upd_ev p f s = do { e \<leftarrow> ev_heap s p; Some (s\<lparr>ev_heap := (ev_heap s)(p \<mapsto> f e)\<rparr>) }"

text \<open>\<open>ALLOCF\<close>: the new node's contents are indeterminate; every field is written before it is read.\<close>

definition ev_alloc :: "evst \<Rightarrow> ptr \<times> evst" where
  "ev_alloc s = (case ev_mem s of
     [] \<Rightarrow> (NULL, s)
   | p # ps \<Rightarrow> if p = NULL then (NULL, s\<lparr>ev_mem := ps\<rparr>)
       else (p, s\<lparr>ev_mem := ps,
         ev_heap := (ev_heap s)(p \<mapsto> \<lparr>se_next = NULL, se_prev = NULL, se_pid = 0, se_evs = 0\<rparr>)\<rparr>))"

definition ev_free :: "ptr \<Rightarrow> evst \<Rightarrow> evst" where
  "ev_free p s = s\<lparr>ev_heap := (ev_heap s)(p := None), ev_freed := p # ev_freed s\<rparr>"

text \<open>The search loop that the three operations share.\<close>

partial_function (option) elist_find :: "ptr \<Rightarrow> int \<Rightarrow> ptr \<Rightarrow> evst \<Rightarrow> ptr option" where
  "elist_find list pid ev s =
     (if ev = list then Some ev
      else do {
        e \<leftarrow> ev_heap s ev;
        if se_pid e < pid then elist_find list pid (se_next e) s else Some ev })"

definition lis_get_elist_ent :: "ptr \<Rightarrow> int \<Rightarrow> evst \<Rightarrow> u16 option" where
  "lis_get_elist_ent list pid s =
     (if list = NULL then Some 0
      else do {
        h \<leftarrow> ev_heap s list;
        ev \<leftarrow> elist_find list pid (se_next h) s;
        if ev = list then Some 0
        else do { e \<leftarrow> ev_heap s ev; Some (if se_pid e = pid then se_evs e else 0) } })"

text \<open>Linking a new node before \<open>ev\<close>, the common part of both insertions.\<close>

definition elist_link :: "ptr \<Rightarrow> ptr \<Rightarrow> int \<Rightarrow> evst \<Rightarrow> evst option" where
  "elist_link new ev pid s = do {
     e \<leftarrow> ev_heap s ev;
     s \<leftarrow> upd_ev new (\<lambda>n. n\<lparr>se_prev := se_prev e, se_next := ev\<rparr>) s;
     s \<leftarrow> upd_ev (se_prev e) (\<lambda>n. n\<lparr>se_next := new\<rparr>) s;
     s \<leftarrow> upd_ev ev (\<lambda>n. n\<lparr>se_prev := new\<rparr>) s;
     upd_ev new (\<lambda>n. n\<lparr>se_pid := pid, se_evs := 0\<rparr>) s }"

text \<open>The result is the return code, the value of \<open>*list\<close> afterwards, and the state.\<close>

definition lis_add_to_elist :: "ptr \<Rightarrow> int \<Rightarrow> u16 \<Rightarrow> evst \<Rightarrow> (int \<times> ptr \<times> evst) option" where
  "lis_add_to_elist list pid events s = do {
     ev \<leftarrow> (if list \<noteq> NULL
           then do { h \<leftarrow> ev_heap s list; elist_find list pid (se_next h) s }
           else Some NULL);
     if ev = NULL \<or> ev = list
     then do {
       let (new, s) = ev_alloc s;
       if new = NULL then Some (- ENOMEM_ev, list, s)
       else do {
         let (hd, s) = (if list = NULL then ev_alloc s else (list, s));
         if hd = NULL then Some (- ENOMEM_ev, list, ev_free new s)
         else do {
           s \<leftarrow> (if list = NULL
                then upd_ev hd (\<lambda>n. n\<lparr>se_pid := 0, se_next := hd, se_prev := hd\<rparr>) s
                else Some s);
           s \<leftarrow> elist_link new hd pid s;
           s \<leftarrow> upd_ev new (\<lambda>n. n\<lparr>se_evs := se_evs n OR events\<rparr>) s;
           Some (0, hd, s) } } }
     else do {
       e \<leftarrow> ev_heap s ev;
       if se_pid e \<noteq> pid
       then do {
         let (new, s) = ev_alloc s;
         if new = NULL then Some (- ENOMEM_ev, list, s)
         else do {
           s \<leftarrow> elist_link new ev pid s;
           s \<leftarrow> upd_ev new (\<lambda>n. n\<lparr>se_evs := se_evs n OR events\<rparr>) s;
           Some (0, list, s) } }
       else do {
         s \<leftarrow> upd_ev ev (\<lambda>n. n\<lparr>se_evs := se_evs n OR events\<rparr>) s;
         Some (0, list, s) } } }"

definition lis_del_from_elist :: "ptr \<Rightarrow> int \<Rightarrow> u16 \<Rightarrow> evst \<Rightarrow> (int \<times> evst) option" where
  "lis_del_from_elist list pid events s = do {
     ev \<leftarrow> (if list \<noteq> NULL
           then do { h \<leftarrow> ev_heap s list; elist_find list pid (se_next h) s }
           else Some NULL);
     if ev = NULL \<or> ev = list then Some (1, s)
     else do {
       e \<leftarrow> ev_heap s ev;
       if se_pid e \<noteq> pid then Some (1, s)
       else do {
         s \<leftarrow> upd_ev ev (\<lambda>n. n\<lparr>se_evs := se_evs n AND NOT events\<rparr>) s;
         e \<leftarrow> ev_heap s ev;
         if se_evs e = 0
         then do {
           s \<leftarrow> (if se_next e \<noteq> NULL then upd_ev (se_next e) (\<lambda>n. n\<lparr>se_prev := se_prev e\<rparr>) s else Some s);
           e \<leftarrow> ev_heap s ev;
           s \<leftarrow> (if se_prev e \<noteq> NULL then upd_ev (se_prev e) (\<lambda>n. n\<lparr>se_next := se_next e\<rparr>) s else Some s);
           Some (0, ev_free ev s) }
         else Some (0, s) } } }"

partial_function (option) free_elist_loop :: "ptr \<Rightarrow> ptr \<Rightarrow> evst \<Rightarrow> evst option" where
  "free_elist_loop list ev s =
     (if ev = NULL then Some s
      else do {
        e \<leftarrow> ev_heap s ev;
        let s = ev_free ev s;
        if se_next e = list then Some s else free_elist_loop list (se_next e) s })"

text \<open>The value of \<open>*list\<close> afterwards is null.\<close>

definition lis_free_elist :: "ptr \<Rightarrow> evst \<Rightarrow> (ptr \<times> evst) option" where
  "lis_free_elist list s = do { s \<leftarrow> free_elist_loop list list s; Some (NULL, s) }"

end
