(* ===== verification/LiS_Mod.thy ===== *)
theory LiS_Mod
  imports LiS_Prelude
begin

text \<open>
  The tables of modules and drivers and the autopush configuration, \<open>head/mod.c\<close> with its structures
  of \<open>mod.h\<close> and \<open>sad.h\<close>.  The configuration tables (the generated file \<open>modconf.inc\<close>), the loading of
  kernel modules, the registration of character devices and what other processors do during a delay
  are the argument \<open>menv\<close>.  An access outside a table has no result.  Assertions and log messages are
  left out.
\<close>

unbundle bit_operations_syntax

subsection \<open>Constants and structures\<close>

definition MAX_STRDEV :: nat where "MAX_STRDEV = 1024"
definition MAX_STRMOD :: nat where "MAX_STRMOD = 256"
definition MAXAPUSH :: nat where "MAXAPUSH = 8"
definition LIS_NAMESZ :: nat where "LIS_NAMESZ = 64"
definition FMNAMESZ :: nat where "FMNAMESZ = 8"

abbreviation (input) LIS_NULL_MID :: nat where "LIS_NULL_MID \<equiv> 0"

abbreviation (input) SAP_CLEAR :: nat where "SAP_CLEAR \<equiv> 0"
abbreviation (input) SAP_ONE :: nat where "SAP_ONE \<equiv> 1"
abbreviation (input) SAP_RANGE :: nat where "SAP_RANGE \<equiv> 2"
abbreviation (input) SAP_ALL :: nat where "SAP_ALL \<equiv> 3"

definition MODSTATE_MASK :: u32 where "MODSTATE_MASK = 0x0FF"
definition MODSTATE_LINKED :: u32 where "MODSTATE_LINKED = 0"
definition MODSTATE_UNLOADED :: u32 where "MODSTATE_UNLOADED = 1"
definition MODSTATE_LOADING :: u32 where "MODSTATE_LOADING = 2"
definition MODSTATE_LOADED :: u32 where "MODSTATE_LOADED = 3"
definition MODSTATE_UNKNOWN :: u32 where "MODSTATE_UNKNOWN = 4"
definition MODSTATE_INITED :: u32 where "MODSTATE_INITED = 0x100"

lemmas modstate_defs = MODSTATE_MASK_def MODSTATE_LINKED_def MODSTATE_UNLOADED_def MODSTATE_LOADING_def
  MODSTATE_LOADED_def MODSTATE_UNKNOWN_def MODSTATE_INITED_def

abbreviation (input) eINTR :: int where "eINTR \<equiv> 4"
abbreviation (input) eIO :: int where "eIO \<equiv> 5"
abbreviation (input) eBUSY :: int where "eBUSY \<equiv> 16"
abbreviation (input) eEXIST :: int where "eEXIST \<equiv> 17"
abbreviation (input) eNODEV :: int where "eNODEV \<equiv> 19"
abbreviation (input) eINVAL :: int where "eINVAL \<equiv> 22"
abbreviation (input) eRANGE :: int where "eRANGE \<equiv> 34"
abbreviation (input) eNOSTR :: int where "eNOSTR \<equiv> 60"
abbreviation (input) eNOSR :: int where "eNOSR \<equiv> 63"

text \<open>A semaphore: whether it is initialised, and its count.\<close>

record sem =
  sem_ok :: bool
  sem_cnt :: int

record fmodsw =
  f_str :: ptr
  f_count :: u16
  f_name :: string
  f_objname :: string
  f_state :: u32
  f_sem :: sem
  f_qlock :: int

text \<open>An autopush entry; \<open>push.npush\<close> is the length of \<open>ap_push\<close>.\<close>

record autopush =
  ap_addr :: ptr
  ap_cmd :: nat
  ap_minor :: nat
  ap_lastminor :: nat
  ap_push :: "nat list"

text \<open>
  \<open>apush_chain\<close> is the table \<open>apush\<close> of chains of entries, \<open>mod_sig\<close> tells whether a signal ends the
  next wait for a semaphore, \<open>ap_mem\<close> are the answers of the allocator to come, \<open>ap_freed\<close> the entries
  given back.
\<close>

record modst =
  fstr_sw :: "nat \<Rightarrow> fmodsw"
  fmod_sw :: "nat \<Rightarrow> fmodsw"
  mod_reg :: sem
  mod_initialized :: bool
  fmodcnt :: nat
  apush_chain :: "nat \<Rightarrow> autopush list"
  apush_nref :: "nat \<Rightarrow> int"
  mod_sig :: bool
  ap_mem :: "ptr list"
  ap_freed :: "ptr list"

record module_config =
  mc_name :: string
  mc_str :: ptr
  mc_objname :: string
  mc_qlock :: int

record driver_config =
  dc_name :: string
  dc_str :: ptr
  dc_majors :: "nat list"
  dc_nminors :: nat
  dc_init :: "(modst \<Rightarrow> modst option) option"
  dc_term :: "(modst \<Rightarrow> modst option) option"
  dc_qlock :: int

record driver_obj_name =
  dn_majors :: "nat list"
  dn_objname :: string

record autopush_init =
  ai_major :: nat
  ai_minor :: int
  ai_lastminor :: int
  ai_mods :: "string list"

text \<open>
  The environment: the configuration tables, \<open>request_module\<close>, \<open>__register_chrdev\<close> (its result for a
  major), and the steps of other processors during one \<open>udelay\<close>.
\<close>

record menv =
  me_modules :: "module_config list"
  me_drivers :: "driver_config list"
  me_objnames :: "driver_obj_name list"
  me_apush :: "autopush_init list"
  me_request :: "string \<Rightarrow> modst \<Rightarrow> (int \<times> modst) option"
  me_chrdev :: "nat \<Rightarrow> modst \<Rightarrow> int"
  me_delay :: "modst \<Rightarrow> modst"

subsection \<open>Semaphores and tables\<close>

text \<open>
  \<open>lis_down\<close>: an error for a semaphore that is not initialised or when a signal ends the wait; waiting
  for another task has no result.
\<close>

definition sem_down :: "bool \<Rightarrow> sem \<Rightarrow> (int \<times> sem) option" where
  "sem_down sig m =
     (if \<not> sem_ok m then Some (- eINVAL, m)
      else if sem_cnt m > 0 then Some (0, m\<lparr>sem_cnt := sem_cnt m - 1\<rparr>)
      else if sig then Some (- eINTR, m)
      else None)"

definition sem_up :: "sem \<Rightarrow> sem" where
  "sem_up m = m\<lparr>sem_cnt := sem_cnt m + 1\<rparr>"

definition sem_init :: "int \<Rightarrow> sem" where
  "sem_init n = \<lparr>sem_ok = True, sem_cnt = n\<rparr>"

definition sem_none :: sem where
  "sem_none = \<lparr>sem_ok = False, sem_cnt = 0\<rparr>"

definition reg_down :: "modst \<Rightarrow> (int \<times> modst) option" where
  "reg_down s = do { (r, m) \<leftarrow> sem_down (mod_sig s) (mod_reg s); Some (r, s\<lparr>mod_reg := m\<rparr>) }"

definition reg_up :: "modst \<Rightarrow> modst" where
  "reg_up s = s\<lparr>mod_reg := sem_up (mod_reg s)\<rparr>"

definition get_mod :: "nat \<Rightarrow> modst \<Rightarrow> fmodsw option" where
  "get_mod i s = (if i < MAX_STRMOD then Some (fmod_sw s i) else None)"

definition upd_mod :: "nat \<Rightarrow> (fmodsw \<Rightarrow> fmodsw) \<Rightarrow> modst \<Rightarrow> modst option" where
  "upd_mod i f s = (if i < MAX_STRMOD then Some (s\<lparr>fmod_sw := (fmod_sw s)(i := f (fmod_sw s i))\<rparr>) else None)"

definition get_dev :: "nat \<Rightarrow> modst \<Rightarrow> fmodsw option" where
  "get_dev i s = (if i < MAX_STRDEV then Some (fstr_sw s i) else None)"

definition upd_dev :: "nat \<Rightarrow> (fmodsw \<Rightarrow> fmodsw) \<Rightarrow> modst \<Rightarrow> modst option" where
  "upd_dev i f s = (if i < MAX_STRDEV then Some (s\<lparr>fstr_sw := (fstr_sw s)(i := f (fstr_sw s i))\<rparr>) else None)"

definition mod_down :: "nat \<Rightarrow> modst \<Rightarrow> (int \<times> modst) option" where
  "mod_down i s = do {
     m \<leftarrow> get_mod i s;
     (r, x) \<leftarrow> sem_down (mod_sig s) (f_sem m);
     s \<leftarrow> upd_mod i (\<lambda>m. m\<lparr>f_sem := x\<rparr>) s;
     Some (r, s) }"

definition mod_up :: "nat \<Rightarrow> modst \<Rightarrow> modst option" where
  "mod_up i s = upd_mod i (\<lambda>m. m\<lparr>f_sem := sem_up (f_sem m)\<rparr>) s"

text \<open>A result of type \<open>modID_t\<close>, an unsigned short.\<close>

definition modID :: "int \<Rightarrow> nat" where
  "modID r = nat (r mod 65536)"

subsection \<open>The module table\<close>

text \<open>The loop from index \<open>i\<close> to \<open>lis_fmodcnt\<close>, \<open>n\<close> rounds to go.\<close>

fun find_mod_loop :: "nat \<Rightarrow> nat \<Rightarrow> string \<Rightarrow> modst \<Rightarrow> int option" where
  "find_mod_loop 0 i name s = Some (- 1)"
| "find_mod_loop (Suc n) i name s = do {
     m \<leftarrow> get_mod i s;
     if name = f_name m then Some (int i) else find_mod_loop n (i + 1) name s }"

definition find_mod :: "string \<Rightarrow> modst \<Rightarrow> int option" where
  "find_mod name s = find_mod_loop (fmodcnt s) 1 name s"

fun objname_loop :: "int \<Rightarrow> nat \<Rightarrow> driver_obj_name list \<Rightarrow> int" where
  "objname_loop i major [] = - 1"
| "objname_loop i major (d # ds) = (if major \<in> set (dn_majors d) then i else objname_loop (i + 1) major ds)"

definition find_drv_objname :: "menv \<Rightarrow> nat \<Rightarrow> int" where
  "find_drv_objname e major = objname_loop 0 major (me_objnames e)"

definition initialize_module :: "nat \<Rightarrow> string \<Rightarrow> u32 \<Rightarrow> modst \<Rightarrow> modst option" where
  "initialize_module i name st s = do {
     s \<leftarrow> upd_mod i (\<lambda>m. m\<lparr>f_state := st\<rparr>) s;
     m \<leftarrow> get_mod i s;
     if f_state m AND MODSTATE_INITED = 0
     then upd_mod i (\<lambda>m. m\<lparr>f_count := 0, f_name := take LIS_NAMESZ name, f_sem := sem_init 1,
       f_state := f_state m OR MODSTATE_INITED\<rparr>) s
     else Some s }"

definition deinitialize_module :: "nat \<Rightarrow> modst \<Rightarrow> modst option" where
  "deinitialize_module i s = do {
     m \<leftarrow> get_mod i s;
     s \<leftarrow> (if f_state m AND MODSTATE_INITED \<noteq> 0 then upd_mod i (\<lambda>m. m\<lparr>f_sem := sem_none\<rparr>) s else Some s);
     upd_mod i (\<lambda>m. m\<lparr>f_state := MODSTATE_UNKNOWN, f_count := 0, f_name := []\<rparr>) s }"

fun empty_mod_loop :: "nat \<Rightarrow> nat \<Rightarrow> modst \<Rightarrow> nat option" where
  "empty_mod_loop 0 i s = Some i"
| "empty_mod_loop (Suc n) i s = do {
     m \<leftarrow> get_mod i s;
     if f_name m = [] then Some i else empty_mod_loop n (i + 1) s }"

definition find_empty_mod_index :: "string \<Rightarrow> modst \<Rightarrow> (nat \<times> modst) option" where
  "find_empty_mod_index name s = do {
     i \<leftarrow> empty_mod_loop (fmodcnt s - 1) 1 s;
     if i < fmodcnt s
     then do { s \<leftarrow> initialize_module i name MODSTATE_UNKNOWN s; Some (i, s) }
     else if i = fmodcnt s
     then (if i = MAX_STRMOD then Some (LIS_NULL_MID, s)
           else do {
             s \<leftarrow> initialize_module i name MODSTATE_UNKNOWN s;
             Some (i, s\<lparr>fmodcnt := fmodcnt s + 1\<rparr>) })
     else Some (i, s) }"

subsection \<open>Autopush\<close>

fun nref_dec :: "nat list \<Rightarrow> (nat \<Rightarrow> int) \<Rightarrow> (nat \<Rightarrow> int)" where
  "nref_dec [] c = c"
| "nref_dec (m # ms) c = nref_dec ms (c(m := c m - 1))"

fun nref_inc :: "nat list \<Rightarrow> (nat \<Rightarrow> int) \<Rightarrow> (nat \<Rightarrow> int)" where
  "nref_inc [] c = c"
| "nref_inc (m # ms) c = nref_inc ms (c(m := c m + 1))"

definition ap_free :: "ptr \<Rightarrow> modst \<Rightarrow> modst" where
  "ap_free p s = s\<lparr>ap_freed := p # ap_freed s\<rparr>"

text \<open>The module numbers in an entry index \<open>apush_nref\<close>.\<close>

definition nref_ok :: "autopush \<Rightarrow> bool" where
  "nref_ok a \<longleftrightarrow> (\<forall>m\<in>set (ap_push a). m < MAX_STRMOD)"

definition apush_free :: "autopush \<Rightarrow> modst \<Rightarrow> modst option" where
  "apush_free a s =
     (if nref_ok a then Some (ap_free (ap_addr a) (s\<lparr>apush_nref := nref_dec (ap_push a) (apush_nref s)\<rparr>)) else None)"

fun apush_free_list :: "autopush list \<Rightarrow> modst \<Rightarrow> modst option" where
  "apush_free_list [] s = Some s"
| "apush_free_list (a # as) s = do { s \<leftarrow> apush_free a s; apush_free_list as s }"

definition set_chain :: "nat \<Rightarrow> autopush list \<Rightarrow> modst \<Rightarrow> modst" where
  "set_chain i as s = s\<lparr>apush_chain := (apush_chain s)(i := as)\<rparr>"

definition apush_free_major :: "nat \<Rightarrow> modst \<Rightarrow> modst option" where
  "apush_free_major major s =
     (if major < MAX_STRDEV then apush_free_list (apush_chain s major) (set_chain major [] s) else None)"

fun apush_free_majors :: "nat list \<Rightarrow> modst \<Rightarrow> modst option" where
  "apush_free_majors [] s = Some s"
| "apush_free_majors (i # is) s = do { s \<leftarrow> apush_free_major i s; apush_free_majors is s }"

definition apush_free_all :: "modst \<Rightarrow> modst option" where
  "apush_free_all s = apush_free_majors [0..<MAX_STRDEV] s"

text \<open>
  Dropping a module: the loops over the list of one entry, the chain of one major and the majors.
  Each stops when the reference count \<open>c\<close> of the module reaches 0.
\<close>

fun drop_list :: "nat \<Rightarrow> int \<Rightarrow> nat list \<Rightarrow> bool \<times> int \<times> nat list" where
  "drop_list md c [] = (False, c, [])"
| "drop_list md c (m # ms) =
     (if m = md
      then (if c - 1 = 0 then (True, 0, ms) else drop_list md (c - 1) ms)
      else let (stop, c, r) = drop_list md c ms in (stop, c, m # r))"

fun drop_chain :: "nat \<Rightarrow> int \<Rightarrow> autopush list \<Rightarrow> bool \<times> int \<times> autopush list" where
  "drop_chain md c [] = (False, c, [])"
| "drop_chain md c (a # as) =
     (let (stop, c, ms) = drop_list md c (ap_push a); a = a\<lparr>ap_push := ms\<rparr> in
      if stop then (True, c, a # as)
      else let (stop, c, r) = drop_chain md c as in (stop, c, a # r))"

fun drop_majors :: "nat \<Rightarrow> nat list \<Rightarrow> modst \<Rightarrow> modst" where
  "drop_majors md [] s = s"
| "drop_majors md (i # is) s =
     (let (stop, c, r) = drop_chain md (apush_nref s md) (apush_chain s i);
          s = (set_chain i r s)\<lparr>apush_nref := (apush_nref s)(md := c)\<rparr> in
      if stop then s else drop_majors md is s)"

definition apush_drop_mod :: "nat \<Rightarrow> modst \<Rightarrow> modst" where
  "apush_drop_mod md s = (if apush_nref s md = 0 then s else drop_majors md [0..<MAX_STRDEV] s)"

fun apush_validate_loop :: "nat list \<Rightarrow> modst \<Rightarrow> int option" where
  "apush_validate_loop [] s = Some 0"
| "apush_validate_loop (md # ms) s = do {
     m \<leftarrow> get_mod md s;
     if f_state m AND MODSTATE_INITED \<noteq> 0 then apush_validate_loop ms s else Some (- 1) }"

definition apush_validate :: "nat list \<Rightarrow> modst \<Rightarrow> int option" where
  "apush_validate ms s = (if length ms > MAXAPUSH then Some (- 1) else apush_validate_loop ms s)"

text \<open>
  The loops of \<open>apush_conf\<close> over the chain of a major: \<open>SAP_CLEAR\<close> gives the entry taken out and the
  rest, the others the chain with the new entry, or nothing for a conflict.
\<close>

fun clear_chain :: "nat \<Rightarrow> autopush list \<Rightarrow> (autopush \<times> autopush list) option" where
  "clear_chain minor [] = None"
| "clear_chain minor (ar # rest) =
     (if ap_minor ar > minor then None
      else if ap_minor ar = minor then Some (ar, rest)
      else map_option (\<lambda>(a, r). (a, ar # r)) (clear_chain minor rest))"

fun ins_one :: "autopush \<Rightarrow> autopush list \<Rightarrow> autopush list option" where
  "ins_one a [] = Some [a]"
| "ins_one a (ar # rest) =
     (if ap_minor ar > ap_minor a then Some (a # ar # rest)
      else if (if ap_cmd ar = SAP_ONE then ap_minor ar = ap_minor a else ap_minor a \<le> ap_lastminor ar) then None
      else map_option (Cons ar) (ins_one a rest))"

fun ins_range :: "autopush \<Rightarrow> autopush list \<Rightarrow> autopush list option" where
  "ins_range a [] = Some [a]"
| "ins_range a (ar # rest) =
     (if ap_minor ar > ap_lastminor a then Some (a # ar # rest)
      else if ap_minor ar \<ge> ap_minor a then None
      else if ap_cmd ar \<noteq> SAP_ONE \<and> (ap_lastminor ar \<le> ap_lastminor a \<or> ap_lastminor ar \<ge> ap_minor a) then None
      else map_option (Cons ar) (ins_range a rest))"

definition starts_all :: "autopush list \<Rightarrow> bool" where
  "starts_all as = (case as of [] \<Rightarrow> False | ar # _ \<Rightarrow> ap_cmd ar = SAP_ALL)"

text \<open>The result code and the chain for the commands that add an entry.\<close>

definition conf_add :: "autopush \<Rightarrow> autopush list \<Rightarrow> int + autopush list" where
  "conf_add a as =
     (if ap_cmd a = SAP_ONE
      then (if starts_all as then Inl (- eEXIST)
            else case ins_one a as of None \<Rightarrow> Inl (- eEXIST) | Some r \<Rightarrow> Inr r)
      else if ap_cmd a = SAP_RANGE
      then (if ap_minor a \<ge> ap_lastminor a then Inl (- eRANGE)
            else if starts_all as then Inl (- eEXIST)
            else case ins_range a as of None \<Rightarrow> Inl (- eEXIST) | Some r \<Rightarrow> Inr r)
      else if ap_cmd a = SAP_ALL
      then (if as \<noteq> [] then Inl (- eEXIST) else Inr [a])
      else Inl (- eINVAL))"

definition apush_conf :: "menv \<Rightarrow> nat \<Rightarrow> autopush \<Rightarrow> modst \<Rightarrow> (int \<times> modst) option" where
  "apush_conf e major a s =
     (if major \<ge> MAX_STRDEV then Some (- eNODEV, s)
      else if f_str (fstr_sw s major) = NULL \<and> find_drv_objname e major < 0 then Some (- eNODEV, s)
      else if ap_cmd a = SAP_CLEAR
      then (case apush_chain s major of
          [] \<Rightarrow> Some (- eNODEV, s)
        | ar # rest \<Rightarrow>
            if ap_minor a = 0 \<and> ap_cmd ar = SAP_ALL
            then do { s \<leftarrow> apush_free ar (set_chain major rest s); Some (0, ap_free (ap_addr a) s) }
            else (case clear_chain (ap_minor a) (ar # rest) of
                None \<Rightarrow> Some (- eRANGE, s)
              | Some (x, r) \<Rightarrow>
                  do { s \<leftarrow> apush_free x (set_chain major r s); Some (0, ap_free (ap_addr a) s) }))
      else (case conf_add a (apush_chain s major) of
          Inl r \<Rightarrow> Some (r, s)
        | Inr r \<Rightarrow>
            if nref_ok a
            then Some (0, (set_chain major r s)\<lparr>apush_nref := nref_inc (ap_push a) (apush_nref s)\<rparr>)
            else None))"

fun find_entry :: "nat \<Rightarrow> autopush list \<Rightarrow> autopush option" where
  "find_entry minor [] = None"
| "find_entry minor (a # as) =
     (if ap_cmd a = SAP_ALL then Some a
      else if ap_minor a > minor then None
      else if ap_minor a = minor then Some a
      else if ap_cmd a = SAP_RANGE \<and> ap_lastminor a \<le> minor then Some a
      else find_entry minor as)"

definition find_apush_entry :: "nat \<Rightarrow> nat \<Rightarrow> modst \<Rightarrow> autopush option" where
  "find_apush_entry major minor s = find_entry minor (apush_chain s major)"

end
