(* ===== verification/LiS_State.thy ===== *)
theory LiS_State
  imports LiS_EventOps LiS_Mod
begin

text \<open>
  The data model: one record per C structure of \<open>include/sys/LiS\<close>, the message types of
  \<open>include/sys/strmsg.h\<close>, the queue flags of \<open>include/sys/LiS/queue.h\<close>, the state of the
  subsystem (one typed heap per structure, the globals of \<open>head/*.c\<close>), the faulting reads and
  writes of that heap, and the statistics counters of \<open>head/stats.c\<close>.  The model is the
  production build for 64-bit Linux (\<open>USE_KMEM_CACHE\<close>, no \<open>CONFIG_DEV\<close>, every \<open>LIS_DEBUG_*\<close>
  switch off): \<open>ulong\<close> is a 64-bit word, \<open>unsigned char\<close> an 8-bit word.
\<close>

unbundle bit_operations_syntax

subsection \<open>Message types\<close>

abbreviation (input) QPCTL :: u8 where "QPCTL \<equiv> 0x0a"
abbreviation (input) M_DATA :: u8 where "M_DATA \<equiv> 0x00"
abbreviation (input) M_PROTO :: u8 where "M_PROTO \<equiv> 0x01"
abbreviation (input) M_DELAY :: u8 where "M_DELAY \<equiv> 0x04"
abbreviation (input) M_PASSFP :: u8 where "M_PASSFP \<equiv> 0x06"
abbreviation (input) M_FLUSH :: u8 where "M_FLUSH \<equiv> 0x0d"
abbreviation (input) M_PCPROTO :: u8 where "M_PCPROTO \<equiv> 0x12"

text \<open>\<open>lis_hipri\<close> of \<open>strmsg.h\<close> and \<open>lis_datamsg\<close> of \<open>msgutl.h\<close>.\<close>

definition lis_hipri :: "u8 \<Rightarrow> bool" where
  "lis_hipri t \<longleftrightarrow> t \<ge> QPCTL"

definition lis_datamsg :: "u8 \<Rightarrow> bool" where
  "lis_datamsg t \<longleftrightarrow> t = M_DATA \<or> t = M_PROTO \<or> t = M_PCPROTO \<or> t = M_DELAY"

subsection \<open>Queue flags\<close>

definition QENAB :: u64 where "QENAB = 0x000001"
definition QWANTR :: u64 where "QWANTR = 0x000002"
definition QWANTW :: u64 where "QWANTW = 0x000004"
definition QFULL :: u64 where "QFULL = 0x000008"
definition QREADR :: u64 where "QREADR = 0x000010"
definition QUSE :: u64 where "QUSE = 0x000020"
definition QNOENB :: u64 where "QNOENB = 0x000040"
definition QBACK :: u64 where "QBACK = 0x000080"
definition QSCAN :: u64 where "QSCAN = 0x000200"
definition QCLOSING :: u64 where "QCLOSING = 0x000400"
definition QWASFULL :: u64 where "QWASFULL = 0x000800"
definition QCLOSEWT :: u64 where "QCLOSEWT = 0x001000"
definition QPROCSOFF :: u64 where "QPROCSOFF = 0x002000"
definition QRUNNING :: u64 where "QRUNNING = 0x004000"
definition QWAITING :: u64 where "QWAITING = 0x008000"
definition QREADING :: u64 where "QREADING = 0x010000"
definition QWANTENAB :: u64 where "QWANTENAB = 0x020000"
definition QOPENING :: u64 where "QOPENING = 0x040000"
definition QDEFERRING :: u64 where "QDEFERRING = 0x080000"
definition QFROZEN :: u64 where "QFROZEN = 0x100000"

definition Q_INH_ENABLE :: u64 where
  "Q_INH_ENABLE = QENAB OR QPROCSOFF OR QCLOSING OR QRUNNING OR QOPENING OR QFROZEN"

definition Q_DEFER_ENABLE :: u64 where
  "Q_DEFER_ENABLE = QENAB OR QPROCSOFF OR QRUNNING OR QOPENING OR QFROZEN"

definition QB_FULL :: u64 where "QB_FULL = 0x000001"
definition QB_WANTW :: u64 where "QB_WANTW = 0x000002"
definition QB_WASFULL :: u64 where "QB_WASFULL = 0x000008"

lemmas q_flag_defs = QENAB_def QWANTR_def QWANTW_def QFULL_def QREADR_def QUSE_def QNOENB_def
  QBACK_def QSCAN_def QCLOSING_def QWASFULL_def QCLOSEWT_def QPROCSOFF_def QRUNNING_def
  QWAITING_def QREADING_def QWANTENAB_def QOPENING_def QDEFERRING_def QFROZEN_def
  Q_INH_ENABLE_def Q_DEFER_ENABLE_def QB_FULL_def QB_WANTW_def QB_WASFULL_def

text \<open>\<open>sizeof(queue_t)\<close>, and the magic number made of it.\<close>

definition QUEUE_SZ :: nat where "QUEUE_SZ = 0x108"
definition Q_MAGIC :: u64 where "Q_MAGIC = 0x93390000 OR of_nat QUEUE_SZ"
definition STDATA_MAGIC :: int where "STDATA_MAGIC = 0x11110458"

abbreviation (input) LIS_MAX_BAND :: nat where "LIS_MAX_BAND \<equiv> 255"
abbreviation (input) FLUSHALL :: int where "FLUSHALL \<equiv> 1"
abbreviation (input) FLUSHDATA :: int where "FLUSHDATA \<equiv> 0"

text \<open>
  Sizes of the embedded headers on LP64: \<open>struct mbinfo\<close> is 72 bytes and \<open>struct dbinfo\<close> 48, so
  that 8 bytes of the 128-byte header are left for small data.
\<close>

definition HDRSZ :: nat where "HDRSZ = 72 + 48"
definition FASTBUF :: nat where "FASTBUF = 128 - HDRSZ"

lemma FASTBUF_8: "FASTBUF = 8"
  by (simp add: FASTBUF_def HDRSZ_def)

subsection \<open>The structures\<close>

text \<open>\<open>struct msgb\<close> (a message block) and \<open>struct datab\<close> (a data block) of \<open>msg.h\<close>.\<close>

record mblk =
  b_next :: ptr
  b_prev :: ptr
  b_cont :: ptr
  b_rptr :: ptr
  b_wptr :: ptr
  b_datap :: ptr
  b_band :: u8
  b_flag :: u16

record frtn =
  free_func :: nat
  free_arg :: nat

text \<open>
  \<open>db_frtn\<close> joins the pointer \<open>frtnp\<close> (null or the address of the block's own \<open>db_rtn\<close>) with the
  structure \<open>db_rtn\<close> it can point to.  Every \<open>datab\<close> is embedded in a \<open>struct mdbblock\<close>; its
  address is represented by the address of that header, so that the conversions between the two
  (\<open>&((struct mdbblock *)bp)->datblk\<close> and \<open>((struct mbinfo *)dp) - 1\<close>) are the identity.
\<close>

record datab =
  db_frtn :: "frtn option"
  db_base :: ptr
  db_lim :: ptr
  db_ref :: u8
  db_type :: u8
  db_size :: nat

text \<open>
  \<open>struct qinit\<close> with the limits of its \<open>module_info\<close>; procedures are numbered, 0 is null.
  \<open>mi_idname\<close> is the name of the module, if it has one.
\<close>

record qinit =
  qi_putp :: nat
  qi_srvp :: nat
  mi_minpsz :: int
  mi_maxpsz :: int
  mi_hiwat :: u64
  mi_lowat :: u64
  qi_qopen :: nat
  qi_qclose :: nat
  mi_idname :: "string option"

text \<open>\<open>struct streamtab\<close>.\<close>

record streamtab =
  st_rdinit :: "qinit option"
  st_wrinit :: "qinit option"
  st_muxrinit :: "qinit option"
  st_muxwinit :: "qinit option"

text \<open>\<open>struct queue\<close>, \<open>struct qband\<close> and \<open>lis_q_sync_t\<close> of \<open>queue.h\<close>.\<close>

record queue =
  q_qinfo :: "qinit option"
  q_first :: ptr
  q_last :: ptr
  q_next :: ptr
  q_link :: ptr
  q_count :: u64
  q_flag :: u64
  q_minpsz :: int
  q_maxpsz :: int
  q_hiwat :: u64
  q_lowat :: u64
  q_bandp :: ptr
  q_other :: ptr
  q_str :: ptr
  q_scnxt :: ptr
  q_magic :: u64
  q_qsp :: ptr
  q_qlock_option :: int
  q_wakeup_sem :: ptr
  q_contention_cnt :: u64
  q_defer_head :: ptr
  q_defer_tail :: ptr

record qband =
  qb_next :: ptr
  qb_count :: u64
  qb_first :: ptr
  qb_last :: ptr
  qb_hiwat :: u64
  qb_lowat :: u64
  qb_flag :: u64

record q_sync =
  qs_taskp :: ptr
  qs_nest :: int
  qs_sem :: int

text \<open>\<open>bcinfo_t\<close> and \<open>bclist_t\<close> of \<open>buffcall.h\<close>: a pending \<open>bufcall\<close> and a list of them.\<close>

record bcinfo =
  bc_next :: ptr
  bc_prev :: ptr
  bc_size :: u32
  bc_usr_f :: nat
  bc_usr_arg :: int
  bc_id :: int
  bc_state :: int

record bclist =
  bl_first :: ptr
  bl_last :: ptr
  bl_n_elts :: int

text \<open>
  The part of \<open>struct stdata\<close> (the stream head) that the modelled code uses, and the \<open>struct stmux\<close>
  embedded in it.  Of its semaphores the counts are kept (\<open>sd_wwrite\<close> to \<open>sd_wiocing\<close>); \<open>sd_polling\<close>
  tells whether tasks wait on \<open>sd_task_list\<close>.
\<close>

record stmux =
  mx_cmd :: int
  mx_index :: int
  mx_hd :: ptr
  mx_next :: ptr

record stdata =
  sd_magic :: int
  sd_refcnt :: int
  sd_wq :: ptr
  sd_rq :: ptr
  sd_flag :: u64
  sd_rput_hd :: ptr
  sd_rput_tl :: ptr
  sd_wmsg :: ptr
  sd_sigflags :: u32
  sd_rdopt :: u32
  sd_wropt :: u32
  sd_rerror :: int
  sd_werror :: int
  sd_maxpsz :: int
  sd_minpsz :: int
  sd_wroff :: u16
  sd_rdcnt :: int
  sd_rdsemcnt :: int
  sd_wrcnt :: int
  sd_wwrite :: int
  sd_write_sem :: int
  sd_wread :: int
  sd_read_sem :: int
  sd_close_wt :: int
  sd_wioc :: int
  sd_wiocing :: int
  sd_next :: ptr
  sd_prev :: ptr
  sd_iocblk :: ptr
  sd_scantimer :: int
  sd_iocseq :: int
  sd_pgrp :: int
  sd_siglist :: ptr
  sd_polling :: bool
  sd_opencnt :: int
  sd_closing :: int
  sd_closetime :: int
  sd_close_timer :: int
  sd_peer :: ptr
  sd_rfdcnt :: u16
  sd_mux :: stmux
  sd_strtab :: "streamtab option"
  sd_inode :: ptr
  sd_from :: ptr
  sd_mount :: ptr
  sd_open_flags :: int
  sd_maxpushcnt :: int
  sd_opening :: int
  sd_linkcnt :: u16
  sd_pushcnt :: u16
  sd_dev :: nat

text \<open>
  What the stream head works on besides queues and messages: the lists of processes to signal
  (\<open>events.c\<close>), the user's memory \<open>umem\<close> with the answers of the accesses to come (\<open>uacc\<close>: whether an
  access succeeds; an exhausted sequence refuses), the signals sent to processes and process groups,
  the stream heads whose pollers were woken or that were handed to \<open>lis_fdetach_stream\<close>, the timers
  cancelled, those of stream heads that were started, oldest first, the handles that the timers to come
  will have, the globals \<open>lis_stdata_head\<close>, \<open>lis_stdata_cnt\<close>, \<open>muxid\<close>, \<open>lis_strhold\<close> and
  \<open>lis_iocseq\<close>, the stream heads whose ioctl timer runs, the reference counts of inodes,
  the dentries and mounts that were put, the streams of files and inodes, the tables of modules and drivers
  (\<open>mod.c\<close>), \<open>lis_debug_mask\<close>, \<open>lis_debug_mask2\<close>, \<open>lis_max_mem\<close>, the counts of spin locks taken and
  waited for, the file descriptors \<open>get_unused_fd\<close> will give (an exhausted sequence refuses) and the
  files installed under descriptors, oldest first.
\<close>

record hdst =
  evl :: evst
  umem :: "ptr \<Rightarrow> u8"
  uacc :: "bool list"
  sigs :: "(int \<times> int) list"
  pgsigs :: "(int \<times> int) list"
  polled :: "ptr list"
  fdetached :: "ptr list"
  untimed :: "int list"
  timed :: "ptr list"
  handles :: "int list"
  stdata_head :: ptr
  stdata_cnt :: int
  muxid :: int
  strhold :: int
  iocseq :: int
  iotimers :: "ptr list"
  inodes :: "ptr \<Rightarrow> int"
  dputs :: "ptr list"
  file_str :: "ptr \<Rightarrow> ptr"
  inode_str :: "ptr \<Rightarrow> ptr"
  mods :: modst
  debug_mask :: u64
  debug_mask2 :: u64
  max_mem :: int
  lock_count :: int
  contention_count :: int
  free_fds :: "int list"
  installed :: "(int \<times> ptr) list"

text \<open>
  The state.  \<open>mb\<close>, \<open>db\<close>, \<open>qs\<close>, \<open>qbands\<close>, \<open>sds\<close> and \<open>qsyncs\<close> are the typed heaps, \<open>mem\<close> the bytes
  of the data buffers.  \<open>kmem\<close> is the sequence of answers the kernel's allocators will give (a
  null pointer is a refusal; an exhausted sequence refuses), \<open>kfreed\<close> the addresses handed back to
  it, newest first, \<open>esb_calls\<close> the calls made to the free routines of \<open>esballoc\<close> users, oldest
  first.  The rest are the globals of the same name: \<open>lis_strcount\<close>, \<open>lis_max_msg_mem\<close>,
  \<open>lis_strstats\<close>, \<open>lis_negstat\<close>, the scheduling lists, the number of requests to the queue runner,
  and the number of wake-up requests made to it by \<open>lis_setqsched\<close>; \<open>sems\<close> holds the counts of
  the free-standing semaphores, \<open>torn_down\<close> the stream heads handed to \<open>lis_tear_down_stream\<close>,
  \<open>hds\<close> the part of the stream heads described above,
  \<open>bcs\<close>, \<open>bchash\<close> and \<open>bcfreel\<close> the structures of \<open>buffcall.c\<close>, \<open>bc_tmouts\<close> the number of
  times its timer was started, \<open>contention_tab\<close> the slots of \<open>lis_queue_contention_table\<close>.
\<close>

record lis =
  mb :: "ptr \<Rightarrow> mblk option"
  db :: "ptr \<Rightarrow> datab option"
  qs :: "ptr \<Rightarrow> queue option"
  qbands :: "ptr \<Rightarrow> qband option"
  sds :: "ptr \<Rightarrow> stdata option"
  qsyncs :: "ptr \<Rightarrow> q_sync option"
  mem :: "ptr \<Rightarrow> u8"
  kmem :: "ptr list"
  kfreed :: "ptr list"
  esb_calls :: "frtn list"
  strcount :: int
  max_msg_mem :: int
  strstats :: "nat \<Rightarrow> nat \<Rightarrow> int"
  negstat :: int
  msgb_cnt :: int
  qband_cnt :: int
  queue_cnt :: int
  qsync_cnt :: int
  sems :: "ptr \<Rightarrow> int"
  torn_down :: "ptr list"
  strbcflag :: int
  strbctimer :: int
  bcs :: "ptr \<Rightarrow> bcinfo option"
  bchash :: "nat \<Rightarrow> bclist"
  bcfreel :: ptr
  bc_cnt :: int
  bc_id_num :: int
  bc_tmouts :: nat
  contention_tab :: "ptr list"
  qhead :: ptr
  qtail :: ptr
  scanqhead :: ptr
  scanqtail :: ptr
  runq_req_cnt :: int
  setqsched_calls :: nat
  hds :: hdst

subsection \<open>Faulting writes\<close>

text \<open>
  Reads are applications of the typed heaps (\<open>mb s p\<close>, \<open>None\<close> for a fault); the writes below
  fault in the same way.
\<close>

definition upd_mb :: "ptr \<Rightarrow> (mblk \<Rightarrow> mblk) \<Rightarrow> lis \<Rightarrow> lis option" where
  "upd_mb p f s = do { m \<leftarrow> mb s p; Some (s\<lparr>mb := (mb s)(p \<mapsto> f m)\<rparr>) }"

definition upd_db :: "ptr \<Rightarrow> (datab \<Rightarrow> datab) \<Rightarrow> lis \<Rightarrow> lis option" where
  "upd_db p f s = do { d \<leftarrow> db s p; Some (s\<lparr>db := (db s)(p \<mapsto> f d)\<rparr>) }"

definition upd_q :: "ptr \<Rightarrow> (queue \<Rightarrow> queue) \<Rightarrow> lis \<Rightarrow> lis option" where
  "upd_q p f s = do { q \<leftarrow> qs s p; Some (s\<lparr>qs := (qs s)(p \<mapsto> f q)\<rparr>) }"

definition upd_qb :: "ptr \<Rightarrow> (qband \<Rightarrow> qband) \<Rightarrow> lis \<Rightarrow> lis option" where
  "upd_qb p f s = do { b \<leftarrow> qbands s p; Some (s\<lparr>qbands := (qbands s)(p \<mapsto> f b)\<rparr>) }"

definition upd_sd :: "ptr \<Rightarrow> (stdata \<Rightarrow> stdata) \<Rightarrow> lis \<Rightarrow> lis option" where
  "upd_sd p f s = do { h \<leftarrow> sds s p; Some (s\<lparr>sds := (sds s)(p \<mapsto> f h)\<rparr>) }"

lemma upd_mb_Some [lis_simps]: "mb s p = Some m \<Longrightarrow> upd_mb p f s = Some (s\<lparr>mb := (mb s)(p \<mapsto> f m)\<rparr>)"
  by (simp add: upd_mb_def)

lemma upd_db_Some [lis_simps]: "db s p = Some m \<Longrightarrow> upd_db p f s = Some (s\<lparr>db := (db s)(p \<mapsto> f m)\<rparr>)"
  by (simp add: upd_db_def)

lemma upd_q_Some [lis_simps]: "qs s p = Some m \<Longrightarrow> upd_q p f s = Some (s\<lparr>qs := (qs s)(p \<mapsto> f m)\<rparr>)"
  by (simp add: upd_q_def)

lemma upd_qb_Some [lis_simps]:
  "qbands s p = Some m \<Longrightarrow> upd_qb p f s = Some (s\<lparr>qbands := (qbands s)(p \<mapsto> f m)\<rparr>)"
  by (simp add: upd_qb_def)

lemma upd_sd_Some [lis_simps]: "sds s p = Some m \<Longrightarrow> upd_sd p f s = Some (s\<lparr>sds := (sds s)(p \<mapsto> f m)\<rparr>)"
  by (simp add: upd_sd_def)

subsection \<open>The kernel's allocators\<close>

definition kalloc :: "lis \<Rightarrow> ptr \<times> lis" where
  "kalloc s = (case kmem s of [] \<Rightarrow> (NULL, s) | p # ps \<Rightarrow> (p, s\<lparr>kmem := ps\<rparr>))"

definition kfree :: "ptr \<Rightarrow> lis \<Rightarrow> lis" where
  "kfree p s = s\<lparr>kfreed := p # kfreed s\<rparr>"

subsection \<open>Statistics (\<open>head/stats.c\<close>, \<open>stats.h\<close>)\<close>

abbreviation (input) HEADERS :: nat where "HEADERS \<equiv> 0"
abbreviation (input) DATABS :: nat where "DATABS \<equiv> 2"
abbreviation (input) DBLKMEM :: nat where "DBLKMEM \<equiv> 6"
abbreviation (input) MSGSQD :: nat where "MSGSQD \<equiv> 7"
abbreviation (input) MSGQDSTRHD :: nat where "MSGQDSTRHD \<equiv> 8"
abbreviation (input) QUEUES :: nat where "QUEUES \<equiv> 9"
abbreviation (input) CANPUTS :: nat where "CANPUTS \<equiv> 10"
abbreviation (input) QSCHEDS :: nat where "QSCHEDS \<equiv> 11"
abbreviation (input) BUFCALLS :: nat where "BUFCALLS \<equiv> 12"

abbreviation (input) CURRENT :: nat where "CURRENT \<equiv> 0"
abbreviation (input) TOTAL :: nat where "TOTAL \<equiv> 1"
abbreviation (input) MAXIMUM :: nat where "MAXIMUM \<equiv> 2"
abbreviation (input) FAILURES :: nat where "FAILURES \<equiv> 3"

definition LisUpCounter :: "nat \<Rightarrow> int \<Rightarrow> lis \<Rightarrow> lis" where
  "LisUpCounter item n s =
     (let r = strstats s item;
          r = r(TOTAL := r TOTAL + n);
          r = r(CURRENT := r CURRENT + n);
          c = r CURRENT;
          r = (if c > r MAXIMUM then r(MAXIMUM := c) else r)
      in s\<lparr>strstats := (strstats s)(item := r)\<rparr>)"

definition LisSetCounter :: "nat \<Rightarrow> int \<Rightarrow> lis \<Rightarrow> lis" where
  "LisSetCounter item val s =
     (let r = strstats s item;
          r = r(TOTAL := r TOTAL + val);
          r = r(CURRENT := val);
          c = r CURRENT;
          r = (if c > r MAXIMUM then r(MAXIMUM := c) else r)
      in s\<lparr>strstats := (strstats s)(item := r)\<rparr>)"

definition LisUpCount :: "nat \<Rightarrow> lis \<Rightarrow> lis" where
  "LisUpCount item s = LisUpCounter item 1 s"

definition LisUpFailCount :: "nat \<Rightarrow> lis \<Rightarrow> lis" where
  "LisUpFailCount item s =
     s\<lparr>strstats := (strstats s)(item := (strstats s item)(FAILURES := strstats s item FAILURES + 1))\<rparr>"

definition lis_stat_neg :: "lis \<Rightarrow> lis" where
  "lis_stat_neg s = s\<lparr>negstat := negstat s + 1\<rparr>"

definition LisDownCounter :: "nat \<Rightarrow> int \<Rightarrow> lis \<Rightarrow> lis" where
  "LisDownCounter item n s =
     (if strstats s item CURRENT \<ge> n
      then s\<lparr>strstats := (strstats s)(item := (strstats s item)(CURRENT := strstats s item CURRENT - n))\<rparr>
      else lis_stat_neg s)"

definition LisDownCount :: "nat \<Rightarrow> lis \<Rightarrow> lis" where
  "LisDownCount item s =
     (if strstats s item CURRENT \<noteq> 0
      then s\<lparr>strstats := (strstats s)(item := (strstats s item)(CURRENT := strstats s item CURRENT - 1))\<rparr>
      else lis_stat_neg s)"

text \<open>
  The counters are observations: no operation branches on them but the accounting itself.  Each
  operation above is an update of the two statistics fields, which is all a proof about the rest
  of the state needs to know of it.
\<close>

definition stats_set :: "(lis \<Rightarrow> lis) \<Rightarrow> lis \<Rightarrow> lis" where
  "stats_set op s = s\<lparr>strstats := strstats (op s), negstat := negstat (op s)\<rparr>"

lemma stats_set_eq:
  "LisUpCounter i n s = stats_set (LisUpCounter i n) s"
  "LisUpCount i s = stats_set (LisUpCount i) s"
  "LisUpFailCount i s = stats_set (LisUpFailCount i) s"
  "LisDownCounter i n s = stats_set (LisDownCounter i n) s"
  "LisDownCount i s = stats_set (LisDownCount i) s"
  by (simp_all add: stats_set_def LisUpCounter_def LisUpFailCount_def LisDownCounter_def
      LisDownCount_def LisUpCount_def lis_stat_neg_def Let_def)

lemma stats_set_fields [simp]:
  "mb (stats_set f s) = mb s" "db (stats_set f s) = db s" "qs (stats_set f s) = qs s"
  "qbands (stats_set f s) = qbands s" "sds (stats_set f s) = sds s"
  "qsyncs (stats_set f s) = qsyncs s" "mem (stats_set f s) = mem s"
  "kmem (stats_set f s) = kmem s" "kfreed (stats_set f s) = kfreed s"
  "esb_calls (stats_set f s) = esb_calls s" "strcount (stats_set f s) = strcount s"
  "max_msg_mem (stats_set f s) = max_msg_mem s" "msgb_cnt (stats_set f s) = msgb_cnt s"
  "qband_cnt (stats_set f s) = qband_cnt s" "queue_cnt (stats_set f s) = queue_cnt s"
  "qsync_cnt (stats_set f s) = qsync_cnt s" "sems (stats_set f s) = sems s"
  "torn_down (stats_set f s) = torn_down s" "strbcflag (stats_set f s) = strbcflag s"
  "strbctimer (stats_set f s) = strbctimer s" "bcs (stats_set f s) = bcs s"
  "bchash (stats_set f s) = bchash s" "bcfreel (stats_set f s) = bcfreel s"
  "bc_cnt (stats_set f s) = bc_cnt s" "bc_id_num (stats_set f s) = bc_id_num s"
  "bc_tmouts (stats_set f s) = bc_tmouts s"
  "contention_tab (stats_set f s) = contention_tab s"
  "qhead (stats_set f s) = qhead s"
  "qtail (stats_set f s) = qtail s" "scanqhead (stats_set f s) = scanqhead s"
  "scanqtail (stats_set f s) = scanqtail s" "runq_req_cnt (stats_set f s) = runq_req_cnt s"
  "setqsched_calls (stats_set f s) = setqsched_calls s" "hds (stats_set f s) = hds s"
  by (simp_all add: stats_set_def)

lemma stats_fields [simp]:
  "mb (LisUpCount i s) = mb s" "db (LisUpCount i s) = db s" "qs (LisUpCount i s) = qs s"
  "qbands (LisUpCount i s) = qbands s" "kmem (LisUpCount i s) = kmem s" "sds (LisUpCount i s) = sds s"
  "mb (LisDownCount i s) = mb s" "db (LisDownCount i s) = db s" "qs (LisDownCount i s) = qs s"
  "qbands (LisDownCount i s) = qbands s" "kmem (LisDownCount i s) = kmem s"
  "sds (LisDownCount i s) = sds s"
  "mb (LisUpFailCount i s) = mb s" "db (LisUpFailCount i s) = db s" "qs (LisUpFailCount i s) = qs s"
  "qbands (LisUpFailCount i s) = qbands s" "kmem (LisUpFailCount i s) = kmem s"
  "sds (LisUpFailCount i s) = sds s"
  by (subst stats_set_eq, simp)+

text \<open>A counter never falls below zero by \<open>LisDownCount\<close>, and its maximum bounds it.\<close>

lemma LisUpCounter_max: "strstats (LisUpCounter i n s) i CURRENT \<le> strstats (LisUpCounter i n s) i MAXIMUM"
  by (simp add: LisUpCounter_def Let_def)

lemma LisDownCounter_nonneg:
  "0 \<le> strstats s i CURRENT \<Longrightarrow> 0 \<le> n \<Longrightarrow> 0 \<le> strstats (LisDownCounter i n s) i CURRENT"
  by (simp add: LisDownCounter_def lis_stat_neg_def)

text \<open>A structure fresh from \<open>LIS_HEAD_ALLOC\<close> and \<open>memset\<close>.\<close>

definition stdata_zero :: stdata where
  "stdata_zero = \<lparr>sd_magic = 0, sd_refcnt = 0, sd_wq = NULL, sd_rq = NULL, sd_flag = 0, sd_rput_hd = NULL,
     sd_rput_tl = NULL, sd_wmsg = NULL, sd_sigflags = 0, sd_rdopt = 0, sd_wropt = 0, sd_rerror = 0,
     sd_werror = 0, sd_maxpsz = 0, sd_minpsz = 0, sd_wroff = 0, sd_rdcnt = 0, sd_rdsemcnt = 0, sd_wrcnt = 0, sd_wwrite = 0, sd_write_sem = 0, sd_wread = 0,
     sd_read_sem = 0, sd_close_wt = 0, sd_wioc = 0, sd_wiocing = 0, sd_next = NULL, sd_prev = NULL,
     sd_iocblk = NULL, sd_scantimer = 0, sd_iocseq = 0, sd_pgrp = 0, sd_siglist = NULL, sd_polling = False, sd_opencnt = 0,
     sd_closing = 0, sd_closetime = 0, sd_close_timer = 0, sd_peer = NULL,
     sd_rfdcnt = 0, sd_mux = \<lparr>mx_cmd = 0, mx_index = 0, mx_hd = NULL, mx_next = NULL\<rparr>,
     sd_strtab = None, sd_inode = NULL, sd_from = NULL, sd_mount = NULL, sd_open_flags = 0, sd_maxpushcnt = 0, sd_opening = 0, sd_linkcnt = 0,
     sd_pushcnt = 0, sd_dev = 0\<rparr>"

end
