(* ===== verification/LiS_Msg.thy ===== *)
theory LiS_Msg
  imports LiS_State
begin

text \<open>
  Message allocation and freeing, \<open>head/msg.c\<close>, with the header cache of \<open>head/linux-mdep.c\<close>
  (\<open>USE_KMEM_CACHE\<close>).  A header carries its own data block; a data block is shared by the
  messages that \<open>lis_dupb\<close> made of one another, counted by the one-byte \<open>db_ref\<close>.
\<close>

unbundle bit_operations_syntax

subsection \<open>Headers and data buffers\<close>

text \<open>The contents of a header fresh from the kernel: overwritten by \<open>initb\<close> before any use.\<close>

definition mblk_zero :: mblk where
  "mblk_zero = \<lparr>b_next = NULL, b_prev = NULL, b_cont = NULL, b_rptr = NULL, b_wptr = NULL,
     b_datap = NULL, b_band = 0, b_flag = 0\<rparr>"

definition datab_zero :: datab where
  "datab_zero = \<lparr>db_frtn = None, db_base = NULL, db_lim = NULL, db_ref = 0, db_type = 0, db_size = 0\<rparr>"

definition allochdr :: "lis \<Rightarrow> ptr \<times> lis" where
  "allochdr s =
     (if max_msg_mem s = 0 \<or> strcount s < max_msg_mem s
      then (case kalloc s of (md, s) \<Rightarrow>
              if md \<noteq> NULL
              then (let s = LisUpCount HEADERS s;
                        s = s\<lparr>msgb_cnt := msgb_cnt s + 1\<rparr>
                    in (md, s\<lparr>mb := (mb s)(md \<mapsto> mblk_zero\<lparr>b_next := NULL\<rparr>),
                              db := (db s)(md \<mapsto> datab_zero)\<rparr>))
              else (NULL, LisUpFailCount HEADERS s))
      else (NULL, LisUpFailCount HEADERS s))"

definition freehdr :: "ptr \<Rightarrow> lis \<Rightarrow> lis option" where
  "freehdr bp s = do {
     m \<leftarrow> mb s bp;
     let s = LisDownCount HEADERS s;
     let s = s\<lparr>msgb_cnt := msgb_cnt s - 1\<rparr>;
     Some (kfree bp (s\<lparr>mb := (mb s)(bp := None), db := (db s)(bp := None)\<rparr>)) }"

definition allocdb :: "int \<Rightarrow> lis \<Rightarrow> ptr \<times> lis" where
  "allocdb sz s =
     (if max_msg_mem s \<noteq> 0 \<and> strcount s \<ge> max_msg_mem s
      then (NULL, LisUpFailCount DATABS s)
      else (case kalloc s of (rtn, s) \<Rightarrow>
              if rtn = NULL then (NULL, LisUpFailCount DATABS s)
              else (let s = s\<lparr>strcount := strcount s + sz\<rparr>;
                        s = LisUpCount DATABS s;
                        s = LisUpCounter DBLKMEM sz s
                    in (rtn, s))))"

text \<open>The address of the small buffer inside a header.\<close>

definition databuf :: "ptr \<Rightarrow> ptr" where
  "databuf blk = blk + HDRSZ"

definition initb :: "ptr \<Rightarrow> ptr \<Rightarrow> int \<Rightarrow> frtn option \<Rightarrow> lis \<Rightarrow> lis option" where
  "initb blk buff sz fr s = do {
     s \<leftarrow> upd_mb blk (\<lambda>_. mblk_zero\<lparr>b_rptr := buff, b_wptr := buff, b_datap := blk\<rparr>) s;
     s \<leftarrow> upd_db blk (\<lambda>d. d\<lparr>db_frtn := fr, db_base := buff\<rparr>) s;
     s \<leftarrow> (if buff \<noteq> databuf blk
          then upd_db blk (\<lambda>d. d\<lparr>db_lim := ptr_add buff sz, db_size := nat (sz mod 2 ^ 32)\<rparr>) s
          else upd_db blk (\<lambda>d. d\<lparr>db_lim := buff + FASTBUF, db_size := FASTBUF\<rparr>) s);
     upd_db blk (\<lambda>d. d\<lparr>db_ref := 1, db_type := M_DATA\<rparr>) s }"

subsection \<open>\<open>lis_allocb\<close>, \<open>lis_esballoc\<close>, \<open>lis_testb\<close>\<close>

text \<open>
  The comparison of the \<open>int\<close> size with \<open>FASTBUF\<close>, a \<open>size_t\<close>, is unsigned, so a negative size
  takes the branch of the external buffer.
\<close>

definition size_gt_fastbuf :: "int \<Rightarrow> bool" where
  "size_gt_fastbuf sz \<longleftrightarrow> (word_of_int sz :: u64) > of_nat FASTBUF"

definition lis_allocb :: "int \<Rightarrow> lis \<Rightarrow> (ptr \<times> lis) option" where
  "lis_allocb sz s =
     (case allochdr s of (rtn, s) \<Rightarrow>
        if rtn = NULL then Some (NULL, s)
        else do {
          s \<leftarrow> upd_mb rtn (\<lambda>m. m\<lparr>b_datap := NULL\<rparr>) s;
          if size_gt_fastbuf sz
          then (case allocdb sz s of (buff, s) \<Rightarrow>
                  if buff = NULL then do { s \<leftarrow> freehdr rtn s; Some (NULL, s) }
                  else do { s \<leftarrow> initb rtn buff sz None s; Some (rtn, s) })
          else do { s \<leftarrow> initb rtn (databuf rtn) sz None s; Some (rtn, s) } })"

definition lis_esballoc :: "ptr \<Rightarrow> int \<Rightarrow> frtn option \<Rightarrow> lis \<Rightarrow> (ptr \<times> lis) option" where
  "lis_esballoc base sz freeinfo s =
     (if base \<noteq> NULL \<and> freeinfo \<noteq> None
      then (case allochdr s of (rtn, s) \<Rightarrow>
              if rtn \<noteq> NULL
              then do { s \<leftarrow> initb rtn base sz freeinfo s; Some (rtn, s) }
              else Some (NULL, s))
      else Some (NULL, s))"

subsection \<open>\<open>lis_freedb\<close>\<close>

text \<open>The body for the last reference to the data block (\<open>--dp->db_ref == 0\<close>).\<close>

definition freedb_last :: "ptr \<Rightarrow> ptr \<Rightarrow> bool \<Rightarrow> lis \<Rightarrow> lis option" where
  "freedb_last bp dp free_hdr s = do {
     let mydp = bp;
     d \<leftarrow> db s dp;
     s \<leftarrow> (case db_frtn d of
            None \<Rightarrow> Some s
          | Some fr \<Rightarrow> upd_db dp (\<lambda>d. d\<lparr>db_size := 0\<rparr>) (s\<lparr>esb_calls := esb_calls s @ [fr]\<rparr>));
     d \<leftarrow> db s dp;
     (area, s) \<leftarrow>
       (if db_size d > FASTBUF
        then do {
          let s = s\<lparr>strcount := strcount s - int (db_size d)\<rparr>;
          let s = LisDownCount DATABS s;
          let s = LisDownCounter DBLKMEM (int (db_size d)) s;
          s \<leftarrow> upd_db dp (\<lambda>d. d\<lparr>db_base := NULL\<rparr>) s;
          Some (db_base d, s) }
        else Some (NULL, s));
     s \<leftarrow>
       (if dp = mydp
        then (if \<not> free_hdr then upd_db dp (\<lambda>d. d\<lparr>db_ref := db_ref d + 1\<rparr>) s else Some s)
        else do {
          s \<leftarrow> freehdr dp s;
          s \<leftarrow> upd_mb bp (\<lambda>m. m\<lparr>b_datap := mydp\<rparr>) s;
          my \<leftarrow> db s mydp;
          if free_hdr \<and> db_ref my > 0
          then upd_db mydp (\<lambda>d. d\<lparr>db_ref := db_ref d - 1\<rparr>) s
          else Some s });
     my \<leftarrow> db s mydp;
     s \<leftarrow> (if free_hdr \<and> db_ref my = 0 then freehdr bp s else Some s);
     Some (if area \<noteq> NULL then kfree area s else s) }"

text \<open>The body for a data block that other messages still reference.\<close>

definition freedb_shared :: "ptr \<Rightarrow> ptr \<Rightarrow> bool \<Rightarrow> lis \<Rightarrow> lis option" where
  "freedb_shared bp dp free_hdr s = do {
     let mydp = bp;
     my \<leftarrow> db s mydp;
     if free_hdr \<and> dp \<noteq> mydp \<and> db_ref my > 0
     then do {
       s \<leftarrow> upd_db mydp (\<lambda>d. d\<lparr>db_ref := db_ref d - 1\<rparr>) s;
       my \<leftarrow> db s mydp;
       if db_ref my = 0 then freehdr bp s else Some s }
     else if \<not> free_hdr \<and> dp = mydp
     then upd_db dp (\<lambda>d. d\<lparr>db_ref := db_ref d + 1\<rparr>) s
     else Some s }"

definition lis_freedb :: "ptr \<Rightarrow> bool \<Rightarrow> lis \<Rightarrow> lis option" where
  "lis_freedb bp free_hdr s =
     (if bp = NULL then Some s
      else do {
        m \<leftarrow> mb s bp;
        let dp = b_datap m;
        let mydp = bp;
        if dp \<noteq> NULL
        then do {
          d \<leftarrow> db s dp;
          if db_ref d = 0 then Some s
          else do {
            s \<leftarrow> upd_db dp (\<lambda>d. d\<lparr>db_ref := db_ref d - 1\<rparr>) s;
            d \<leftarrow> db s dp;
            if db_ref d = 0 then freedb_last bp dp free_hdr s
            else freedb_shared bp dp free_hdr s } }
        else do {
          my \<leftarrow> db s mydp;
          if free_hdr \<and> db_ref my = 1
          then do {
            s \<leftarrow> upd_db mydp (\<lambda>d. d\<lparr>db_ref := db_ref d - 1\<rparr>) s;
            freehdr bp s }
          else Some s } })"

definition lis_freeb :: "ptr \<Rightarrow> lis \<Rightarrow> lis option" where
  "lis_freeb bp s = lis_freedb bp True s"

partial_function (option) lis_freemsg :: "ptr \<Rightarrow> lis \<Rightarrow> lis option" where
  "lis_freemsg mp s =
     (if mp = NULL then Some s
      else do {
        m \<leftarrow> mb s mp;
        s \<leftarrow> lis_freedb mp True s;
        lis_freemsg (b_cont m) s })"

definition lis_testb :: "int \<Rightarrow> lis \<Rightarrow> (bool \<times> lis) option" where
  "lis_testb sz s = do {
     (bp, s) \<leftarrow> lis_allocb sz s;
     if bp \<noteq> NULL then do { s \<leftarrow> lis_freeb bp s; Some (True, s) } else Some (False, s) }"

text \<open>\<open>lis_getint\<close> and \<open>lis_putbyte\<close>; the \<open>int\<close> is read in the little-endian order of x86.\<close>

definition lis_getint :: "ptr \<Rightarrow> lis \<Rightarrow> int \<times> ptr" where
  "lis_getint p s =
     (c_int (uint (mem s p) + 2 ^ 8 * uint (mem s (p + 1)) + 2 ^ 16 * uint (mem s (p + 2))
             + 2 ^ 24 * uint (mem s (p + 3))), p + 4)"

definition lis_putbyte :: "ptr \<Rightarrow> u8 \<Rightarrow> lis \<Rightarrow> ptr \<times> lis" where
  "lis_putbyte p byte s = (p + 1, s\<lparr>mem := (mem s)(p := byte)\<rparr>)"

end
