(* ===== verification/LiS_MsgInv.thy ===== *)
theory LiS_MsgInv
  imports LiS_Msg
begin

text \<open>
  The reference-count discipline of \<open>head/msg.c\<close>.  \<open>L\<close> is the set of message blocks that clients
  hold; the invariant says that every allocated header is accounted for by exactly its \<open>db_ref\<close>.
\<close>

unbundle bit_operations_syntax

subsection \<open>The invariant\<close>

definition datap :: "lis \<Rightarrow> ptr \<Rightarrow> ptr" where
  "datap s m = (case mb s m of None \<Rightarrow> NULL | Some M \<Rightarrow> b_datap M)"

text \<open>
  The references to the data block of header \<open>h\<close>: the live messages that point to it and, if \<open>h\<close>
  itself is a live message whose data are elsewhere, the use of its header.
\<close>

definition refs :: "ptr set \<Rightarrow> lis \<Rightarrow> ptr \<Rightarrow> nat" where
  "refs L s h = card {m \<in> L. datap s m = h} + (if h \<in> L \<and> datap s h \<noteq> h then 1 else 0)"

definition msg_inv :: "ptr set \<Rightarrow> lis \<Rightarrow> bool" where
  "msg_inv L s \<longleftrightarrow>
     finite L \<and> dom (mb s) = dom (db s) \<and> NULL \<notin> dom (db s) \<and> L \<subseteq> dom (mb s) \<and>
     (\<forall>m\<in>L. datap s m \<in> dom (db s)) \<and>
     (\<forall>h d. db s h = Some d \<longrightarrow> 0 < unat (db_ref d) \<and> unat (db_ref d) = refs L s h)"

lemma msg_inv_live:
  assumes "msg_inv L s" "m \<in> L"
  obtains M d my where "mb s m = Some M" "b_datap M \<noteq> NULL" "datap s m = b_datap M" "m \<noteq> NULL"
    "db s (b_datap M) = Some d" "db s m = Some my"
    "unat (db_ref d) = refs L s (b_datap M)" "unat (db_ref my) = refs L s m"
    "0 < unat (db_ref d)" "0 < unat (db_ref my)"
proof -
  from assms obtain M where M: "mb s m = Some M" by (auto simp: msg_inv_def)
  then have dp: "datap s m = b_datap M" by (simp add: datap_def)
  from assms obtain d where d: "db s (datap s m) = Some d" unfolding msg_inv_def by blast
  from assms M obtain my where my: "db s m = Some my" unfolding msg_inv_def by blast
  have "datap s m \<noteq> NULL" "m \<noteq> NULL" using assms d my unfolding msg_inv_def by (metis domI)+
  moreover have "0 < unat (db_ref d)" "unat (db_ref d) = refs L s (b_datap M)"
    "0 < unat (db_ref my)" "unat (db_ref my) = refs L s m"
    using assms d my dp unfolding msg_inv_def by metis+
  ultimately show ?thesis using that[of M d my] M dp d my by simp
qed

lemma msg_inv_cnt:
  "msg_inv L s \<Longrightarrow> db s h = Some d \<Longrightarrow> 0 < unat (db_ref d) \<and> unat (db_ref d) = refs L s h"
  unfolding msg_inv_def by blast

subsection \<open>How the count changes with the set of live messages\<close>

lemma refs_cong: "(\<And>m. m \<in> L \<Longrightarrow> datap s' m = datap s m) \<Longrightarrow> refs L s' h = refs L s h"
proof -
  assume dk: "\<And>m. m \<in> L \<Longrightarrow> datap s' m = datap s m"
  then have "{m \<in> L. datap s' m = h} = {m \<in> L. datap s m = h}" by auto
  with dk show ?thesis by (auto simp: refs_def)
qed

lemma refs_remove:
  assumes "finite L" "m \<in> L"
  shows "refs (L - {m}) s h + (if datap s m = h then 1 else 0) + (if h = m \<and> datap s m \<noteq> m then 1 else 0)
         = refs L s h"
proof -
  have "card {x \<in> L. datap s x = h} =
        card {x \<in> L - {m}. datap s x = h} + (if datap s m = h then 1 else 0)"
  proof (cases "datap s m = h")
    case True
    then have "{x \<in> L. datap s x = h} = insert m {x \<in> L - {m}. datap s x = h}" using assms by auto
    moreover have "finite {x \<in> L - {m}. datap s x = h}" using assms by auto
    ultimately show ?thesis using True by simp
  next
    case False
    then have "{x \<in> L. datap s x = h} = {x \<in> L - {m}. datap s x = h}" by auto
    with False show ?thesis by simp
  qed
  with assms show ?thesis unfolding refs_def by auto
qed

lemma refs_pos_own: "msg_inv L s \<Longrightarrow> m \<in> L \<Longrightarrow> datap s m \<noteq> m \<Longrightarrow> 1 \<le> refs L s m"
  by (simp add: refs_def)

text \<open>What is left to show for a step that removes \<open>m\<close>: counts and allocation follow \<open>refs\<close>.\<close>

lemma msg_inv_removeI:
  assumes inv: "msg_inv L s"
    and doms: "dom (mb s') = dom (db s')"
    and sub: "dom (db s') \<subseteq> dom (db s)"
    and kept: "\<And>x. x \<in> L - {m} \<Longrightarrow> mb s' x = mb s x"
    and alloc: "\<And>h. h \<in> dom (db s) \<Longrightarrow> 0 < refs (L - {m}) s h \<Longrightarrow> h \<in> dom (db s')"
    and cnt: "\<And>h d. db s' h = Some d \<Longrightarrow> 0 < unat (db_ref d) \<and> unat (db_ref d) = refs (L - {m}) s h"
  shows "msg_inv (L - {m}) s'"
proof -
  have dk: "datap s' x = datap s x" if "x \<in> L - {m}" for x using kept[OF that] by (simp add: datap_def)
  then have rk: "refs (L - {m}) s' h = refs (L - {m}) s h" for h by (rule refs_cong)
  have fin: "finite L" using inv by (simp add: msg_inv_def)
  have "datap s' x \<in> dom (db s')" if x: "x \<in> L - {m}" for x
  proof (rule subst[OF dk[OF x, symmetric]], rule alloc)
    show "datap s x \<in> dom (db s)" using inv x by (auto simp: msg_inv_def)
    have "x \<in> {y \<in> L - {m}. datap s y = datap s x}" using x by simp
    then have "0 < card {y \<in> L - {m}. datap s y = datap s x}" using fin card_gt_0_iff by fastforce
    then show "0 < refs (L - {m}) s (datap s x)" by (simp add: refs_def)
  qed
  moreover have "L - {m} \<subseteq> dom (mb s')"
  proof
    fix x assume x: "x \<in> L - {m}"
    then have "x \<in> dom (mb s)" using inv by (auto simp: msg_inv_def)
    with kept[OF x] show "x \<in> dom (mb s')" by (simp add: domIff)
  qed
  moreover have "NULL \<notin> dom (db s')" using sub inv by (auto simp: msg_inv_def)
  moreover have "\<forall>h d. db s' h = Some d \<longrightarrow> 0 < unat (db_ref d) \<and> unat (db_ref d) = refs (L - {m}) s' h"
    using cnt unfolding rk by blast
  ultimately show ?thesis using doms fin unfolding msg_inv_def by blast
qed

subsection \<open>Symbolic execution of the freeing code\<close>

lemma freehdr_Some [lis_simps]:
  "mb s p = Some m \<Longrightarrow> \<exists>t. freehdr p s = Some t \<and> mb t = (mb s)(p := None) \<and> db t = (db s)(p := None)"
  by (simp add: freehdr_def kfree_def Let_def)

lemma freedb_last_own:
  assumes "mb s bp = Some M" "db s bp = Some d" "db_ref d = 0"
  shows "\<exists>t. freedb_last bp bp True s = Some t \<and> mb t = (mb s)(bp := None) \<and> db t = (db s)(bp := None)"
  using assms
  by (auto simp: freedb_last_def freehdr_def kfree_def Let_def lis_simps stats_set_eq(4,5)
      split: option.splits)

text \<open>The states reached from a data block held elsewhere, by what becomes of the two headers.\<close>

lemma freedb_last_ext:
  assumes "mb s bp = Some M" "db s bp = Some my" "0 < unat (db_ref my)"
    "mb s dp = Some N" "db s dp = Some d" "dp \<noteq> bp"
  shows "\<exists>t. freedb_last bp dp True s = Some t \<and>
     mb t = (if db_ref my = 1 then (mb s)(dp := None, bp := None)
             else (mb s)(dp := None, bp \<mapsto> M\<lparr>b_datap := bp\<rparr>)) \<and>
     db t = (if db_ref my = 1 then (db s)(dp := None, bp := None)
             else (db s)(dp := None, bp \<mapsto> my\<lparr>db_ref := db_ref my - 1\<rparr>))"
proof -
  have "0 < db_ref my" using assms(3) by (simp add: word_less_nat_alt)
  moreover have "db_ref my - 1 = 0 \<longleftrightarrow> db_ref my = 1" by simp
  ultimately show ?thesis
    using assms
    by (auto simp: freedb_last_def freehdr_def kfree_def Let_def lis_simps stats_set_eq(4,5)
        fun_upd_twist fun_upd_idem_iff split: option.splits)
qed

lemma freedb_shared_ext:
  assumes "mb s bp = Some M" "db s bp = Some my" "0 < unat (db_ref my)" "dp \<noteq> bp"
  shows "\<exists>t. freedb_shared bp dp True s = Some t \<and>
     mb t = (if db_ref my = 1 then (mb s)(bp := None) else mb s) \<and>
     db t = (if db_ref my = 1 then (db s)(bp := None)
             else (db s)(bp \<mapsto> my\<lparr>db_ref := db_ref my - 1\<rparr>))"
proof -
  have "0 < db_ref my" using assms(3) by (simp add: word_less_nat_alt)
  moreover have "db_ref my - 1 = 0 \<longleftrightarrow> db_ref my = 1" by simp
  ultimately show ?thesis
    using assms
    by (auto simp: freedb_shared_def freehdr_def kfree_def Let_def lis_simps stats_set_eq(4,5))
qed

text \<open>A one-byte count that is not zero, decremented.\<close>

lemma ref_dec: "0 < unat (r :: u8) \<Longrightarrow> unat (r - 1) = unat r - 1"
  by (metis unat_minus_one unat_eq_0 less_irrefl)

lemma unat_u8_1: "unat (r :: u8) = Suc 0 \<longleftrightarrow> r = 1"
  by (metis One_nat_def unsigned_1 unsigned_word_eqI)

lemma ref_dec_0: "(r :: u8) - 1 = 0 \<longleftrightarrow> unat r = 1"
  by (simp add: unat_u8_1)

text \<open>
  The effect of \<open>lis_freeb\<close> on the two heaps, in the four cases of the code: the data block is the
  message's own or not, and this was its last reference or not.
\<close>

definition dec_ref :: "datab \<Rightarrow> datab" where
  "dec_ref d = d\<lparr>db_ref := db_ref d - 1\<rparr>"

lemma unat_dec_ref: "0 < unat (db_ref d) \<Longrightarrow> unat (db_ref (dec_ref d)) = unat (db_ref d) - 1"
  by (simp add: dec_ref_def ref_dec)

lemma lis_freeb_own:
  assumes "mb s m = Some M" "b_datap M = m" "m \<noteq> NULL" "db s m = Some d" "0 < unat (db_ref d)"
  shows "\<exists>t. lis_freeb m s = Some t \<and>
     (if unat (db_ref d) = 1
      then mb t = (mb s)(m := None) \<and> db t = (db s)(m := None)
      else mb t = mb s \<and> db t = (db s)(m \<mapsto> dec_ref d))"
proof -
  let ?s = "s\<lparr>db := (db s)(m \<mapsto> dec_ref d)\<rparr>"
  have z: "db_ref d \<noteq> 0" using assms by auto
  have *: "lis_freeb m s = (if db_ref (dec_ref d) = 0 then freedb_last m m True ?s else freedb_shared m m True ?s)"
    using assms z by (simp add: lis_freeb_def lis_freedb_def Let_def lis_simps dec_ref_def)
  show ?thesis
  proof (cases "unat (db_ref d) = 1")
    case True
    then have "db_ref (dec_ref d) = 0" by (simp add: dec_ref_def unat_u8_1)
    with * True freedb_last_own[of ?s m M "dec_ref d"] assms show ?thesis by (auto simp: unat_u8_1)
  next
    case False
    then have "db_ref (dec_ref d) \<noteq> 0" by (simp add: dec_ref_def unat_u8_1)
    with * False assms show ?thesis by (simp add: freedb_shared_def Let_def unat_u8_1)
  qed
qed

lemma lis_freeb_ext:
  assumes "mb s m = Some M" "b_datap M \<noteq> m" "b_datap M \<noteq> NULL" "m \<noteq> NULL"
    "db s m = Some my" "0 < unat (db_ref my)" "mb s (b_datap M) = Some N"
    "db s (b_datap M) = Some d" "0 < unat (db_ref d)"
  shows "\<exists>t. lis_freeb m s = Some t \<and>
     (\<forall>x. x \<noteq> m \<and> x \<noteq> b_datap M \<longrightarrow> mb t x = mb s x \<and> db t x = db s x) \<and>
     (if unat (db_ref my) = 1 then mb t m = None \<and> db t m = None
      else mb t m \<noteq> None \<and> db t m = Some (dec_ref my)) \<and>
     (if unat (db_ref d) = 1 then mb t (b_datap M) = None \<and> db t (b_datap M) = None
      else mb t (b_datap M) = mb s (b_datap M) \<and> db t (b_datap M) = Some (dec_ref d))"
proof -
  let ?s = "s\<lparr>db := (db s)(b_datap M \<mapsto> dec_ref d)\<rparr>"
  have z: "db_ref d \<noteq> 0" using assms by auto
  have one: "db_ref my = 1 \<longleftrightarrow> unat (db_ref my) = 1" by (simp add: unat_u8_1)
  have *: "lis_freeb m s = (if db_ref (dec_ref d) = 0 then freedb_last m (b_datap M) True ?s
                            else freedb_shared m (b_datap M) True ?s)"
    using assms z by (simp add: lis_freeb_def lis_freedb_def Let_def lis_simps dec_ref_def)
  show ?thesis
  proof (cases "unat (db_ref d) = 1")
    case True
    then have "db_ref (dec_ref d) = 0" by (simp add: dec_ref_def unat_u8_1)
    with * True one freedb_last_ext[of ?s m M my "b_datap M" N "dec_ref d"] assms
    show ?thesis by (auto simp: dec_ref_def)
  next
    case False
    then have "db_ref (dec_ref d) \<noteq> 0" by (simp add: dec_ref_def unat_u8_1)
    with * False one freedb_shared_ext[of ?s m M my "b_datap M"] assms
    show ?thesis by (auto simp: dec_ref_def)
  qed
qed

subsection \<open>\<open>lis_freeb\<close> preserves the discipline\<close>

text \<open>The message and the data it points to are untouched but for the reference count.\<close>

definition same_data :: "lis \<Rightarrow> lis \<Rightarrow> ptr \<Rightarrow> bool" where
  "same_data s t x \<longleftrightarrow> mb t x = mb s x \<and>
     (\<exists>d d'. db s (datap s x) = Some d \<and> db t (datap s x) = Some d' \<and> d' = d\<lparr>db_ref := db_ref d'\<rparr>)"

lemma same_data_kept:
  "mb t x = mb s x \<Longrightarrow> db t (datap s x) = db s (datap s x) \<Longrightarrow> datap s x \<in> dom (db s) \<Longrightarrow> same_data s t x"
  unfolding same_data_def by force

lemma same_data_dec:
  "mb t x = mb s x \<Longrightarrow> db s (datap s x) = Some d \<Longrightarrow> db t (datap s x) = Some (dec_ref d) \<Longrightarrow> same_data s t x"
  by (simp add: same_data_def dec_ref_def)

lemma refs_pos_live:
  assumes "msg_inv L s" "x \<in> L"
  shows "0 < refs L s (datap s x)"
proof -
  have "finite {y \<in> L. datap s y = datap s x}" "x \<in> {y \<in> L. datap s y = datap s x}"
    using assms by (auto simp: msg_inv_def)
  then have "0 < card {y \<in> L. datap s y = datap s x}" using card_gt_0_iff by blast
  then show ?thesis by (simp add: refs_def)
qed

lemma refs_zero_unused:
  assumes "finite L" "refs L s h = 0" "x \<in> L"
  shows "datap s x \<noteq> h" and "x \<noteq> h"
proof -
  have "{y \<in> L. datap s y = h} = {}" using assms by (simp add: refs_def)
  then show 1: "datap s x \<noteq> h" using assms by auto
  show "x \<noteq> h"
  proof
    assume "x = h"
    with 1 have "datap s h \<noteq> h" by simp
    with assms \<open>x = h\<close> show False by (simp add: refs_def)
  qed
qed

lemma freeb_own_inv:
  assumes inv: "msg_inv L s" and m: "m \<in> L" and own: "datap s m = m"
  shows "\<exists>t. lis_freeb m s = Some t \<and> msg_inv (L - {m}) t \<and> (\<forall>x\<in>L - {m}. same_data s t x)"
proof -
  obtain M d where M: "mb s m = Some M" "b_datap M = m" "m \<noteq> NULL" "db s m = Some d"
    "unat (db_ref d) = refs L s m" "0 < unat (db_ref d)"
    using msg_inv_live[OF inv m] own by metis
  have fin: "finite L" using inv by (simp add: msg_inv_def)
  have dec: "refs (L - {m}) s h = (if h = m then refs L s m - 1 else refs L s h)" for h
    using refs_remove[OF fin m, of s h] own by (auto split: if_splits)
  obtain t where t: "lis_freeb m s = Some t"
    "if unat (db_ref d) = 1 then mb t = (mb s)(m := None) \<and> db t = (db s)(m := None)
     else mb t = mb s \<and> db t = (db s)(m \<mapsto> dec_ref d)"
    using lis_freeb_own[OF M(1-4) M(6)] by blast
  have kept: "x \<in> L - {m} \<Longrightarrow> mb t x = mb s x" for x using t(2) by (auto split: if_splits)
  have gone: "datap s x \<noteq> m" if "x \<in> L - {m}" "unat (db_ref d) = 1" for x
    using refs_zero_unused(1)[of "L - {m}" s m x] that dec[of m] M(5) fin by simp
  have "msg_inv (L - {m}) t"
  proof (rule msg_inv_removeI[OF inv])
    have dom: "dom (mb s) = dom (db s)" using inv by (simp add: msg_inv_def)
    then show "dom (mb t) = dom (db t)" using t(2) M(1,4) by (auto split: if_splits)
    show "dom (db t) \<subseteq> dom (db s)" using t(2) M(4) by (auto split: if_splits)
    show "x \<in> L - {m} \<Longrightarrow> mb t x = mb s x" for x by (rule kept)
    show "h \<in> dom (db t)" if "h \<in> dom (db s)" "0 < refs (L - {m}) s h" for h
      using that t(2) dec[of h] M(5) by (auto split: if_splits)
    show "0 < unat (db_ref d') \<and> unat (db_ref d') = refs (L - {m}) s h" if "db t h = Some d'" for h d'
    proof (cases "h = m")
      case True
      with that t(2) have "unat (db_ref d) \<noteq> 1" "d' = dec_ref d" by (auto split: if_splits)
      with True M dec[of m] show ?thesis by (simp add: unat_dec_ref)
    next
      case False
      with that t(2) have "db s h = Some d'" by (auto split: if_splits)
      from msg_inv_cnt[OF inv this] show ?thesis unfolding dec[of h] if_not_P[OF False] .
    qed
  qed
  moreover have "same_data s t x" if x: "x \<in> L - {m}" for x
  proof (cases "datap s x = m")
    case True
    then have "unat (db_ref d) \<noteq> 1" using gone[OF x] by blast
    with True t(2) M kept[OF x] show ?thesis by (intro same_data_dec) auto
  next
    case False
    moreover have "datap s x \<in> dom (db s)" using inv x by (auto simp: msg_inv_def)
    ultimately show ?thesis using t(2) kept[OF x] by (intro same_data_kept) (auto split: if_splits)
  qed
  ultimately show ?thesis using t(1) by blast
qed

lemma freeb_ext_inv:
  assumes inv: "msg_inv L s" and m: "m \<in> L" and ext: "datap s m \<noteq> m"
  shows "\<exists>t. lis_freeb m s = Some t \<and> msg_inv (L - {m}) t \<and> (\<forall>x\<in>L - {m}. same_data s t x)"
proof -
  define p where "p = datap s m"
  obtain M d my where M: "mb s m = Some M" "b_datap M = p" "p \<noteq> NULL" "m \<noteq> NULL" "db s p = Some d"
    "db s m = Some my" "unat (db_ref d) = refs L s p" "unat (db_ref my) = refs L s m"
    "0 < unat (db_ref d)" "0 < unat (db_ref my)"
    using msg_inv_live[OF inv m] unfolding p_def by metis
  have pm: "p \<noteq> m" using ext p_def by simp
  have fin: "finite L" and dom: "dom (mb s) = dom (db s)" using inv by (simp_all add: msg_inv_def)
  have "p \<in> dom (mb s)" using M(5) dom by blast
  then obtain N where N: "mb s p = Some N" by blast
  have dec: "refs (L - {m}) s h = (if h = m \<or> h = p then refs L s h - 1 else refs L s h)" for h
    using refs_remove[OF fin m, of s h] ext unfolding p_def by (auto split: if_splits)
  obtain t where t: "lis_freeb m s = Some t"
    and off: "\<And>x. x \<noteq> m \<Longrightarrow> x \<noteq> p \<Longrightarrow> mb t x = mb s x \<and> db t x = db s x"
    and tm: "if unat (db_ref my) = 1 then mb t m = None \<and> db t m = None
             else mb t m \<noteq> None \<and> db t m = Some (dec_ref my)"
    and tp: "if unat (db_ref d) = 1 then mb t p = None \<and> db t p = None
             else mb t p = mb s p \<and> db t p = Some (dec_ref d)"
    using lis_freeb_ext[of s m M my N d] M N pm by metis
  have gone: "x \<noteq> p \<and> datap s x \<noteq> p" if "x \<in> L - {m}" "unat (db_ref d) = 1" for x
  proof -
    have "refs (L - {m}) s p = 0" unfolding dec[of p] M(7)[symmetric] that(2) by simp
    then show ?thesis using refs_zero_unused[of "L - {m}" s p x] that(1) fin by blast
  qed
  have gonem: "datap s x \<noteq> m" if "x \<in> L - {m}" "unat (db_ref my) = 1" for x
  proof -
    have "refs (L - {m}) s m = 0" unfolding dec[of m] M(8)[symmetric] that(2) by simp
    then show ?thesis using refs_zero_unused[of "L - {m}" s m x] that(1) fin by blast
  qed
  have kept: "mb t x = mb s x" if x: "x \<in> L - {m}" for x
    using off[of x] tp gone[OF x] x by (cases "x = p") (auto split: if_splits)
  have "msg_inv (L - {m}) t"
  proof (rule msg_inv_removeI[OF inv])
    have "mb t h = None \<longleftrightarrow> db t h = None" for h
      using off[of h] tm tp N dom by (cases "h = m \<or> h = p") (auto split: if_splits)
    then show "dom (mb t) = dom (db t)" by (simp add: dom_def)
    have "db t h \<noteq> None \<Longrightarrow> db s h \<noteq> None" for h
      using off[of h] M(5,6) by (cases "h = m \<or> h = p") auto
    then show "dom (db t) \<subseteq> dom (db s)" by auto
    show "x \<in> L - {m} \<Longrightarrow> mb t x = mb s x" for x by (rule kept)
    show "h \<in> dom (db t)" if "h \<in> dom (db s)" "0 < refs (L - {m}) s h" for h
      using that off[of h] tm tp dec[of h] M(7,8) by (cases "h = m \<or> h = p") (auto split: if_splits)
    show "0 < unat (db_ref d') \<and> unat (db_ref d') = refs (L - {m}) s h" if "db t h = Some d'" for h d'
    proof (cases "h = m \<or> h = p")
      case True
      then show ?thesis
        using that tm tp dec[of h] M(7-10) pm by (auto simp: unat_dec_ref split: if_splits)
    next
      case False
      with that off[of h] have "db s h = Some d'" by simp
      from msg_inv_cnt[OF inv this] show ?thesis unfolding dec[of h] if_not_P[OF False] .
    qed
  qed
  moreover have "same_data s t x" if x: "x \<in> L - {m}" for x
  proof (cases "datap s x = m \<or> datap s x = p")
    case True
    then show ?thesis
      using tm tp gone[OF x] gonem[OF x] M(5,6) kept[OF x]
      by (elim disjE) (auto intro!: same_data_dec split: if_splits)
  next
    case False
    moreover have "datap s x \<in> dom (db s)" using inv x by (auto simp: msg_inv_def)
    ultimately show ?thesis using off kept[OF x] by (intro same_data_kept) auto
  qed
  ultimately show ?thesis using t by blast
qed

lemma freeb_inv:
  assumes "msg_inv L s" "m \<in> L"
  shows "\<exists>t. lis_freeb m s = Some t \<and> msg_inv (L - {m}) t \<and> (\<forall>x\<in>L - {m}. same_data s t x)"
  using freeb_own_inv[OF assms] freeb_ext_inv[OF assms] by blast

end
