(* ===== verification/LiS_MsgUtl.thy ===== *)
theory LiS_MsgUtl
  imports LiS_Msg
begin

text \<open>
  The message utilities of \<open>head/msgutl.c\<close>: sizes, trimming, copying, duplication, linking and
  the two pull-up routines.  A loop over a \<open>b_cont\<close> chain is a partial function in the option
  monad, so that a fault and an endless chain are both \<^term>\<open>None\<close>.
\<close>

unbundle bit_operations_syntax

text \<open>\<open>mp->b_wptr - mp->b_rptr\<close> as an \<open>int\<close>, and \<open>memcpy\<close>.\<close>

definition blen :: "mblk \<Rightarrow> int" where
  "blen m = ptrdiff (b_wptr m) (b_rptr m)"

definition memcpy :: "ptr \<Rightarrow> ptr \<Rightarrow> int \<Rightarrow> lis \<Rightarrow> lis" where
  "memcpy dst src n s =
     s\<lparr>mem := (\<lambda>a. if dst \<le> a \<and> a < dst + nat n then mem s (src + (a - dst)) else mem s a)\<rparr>"

subsection \<open>Sizes\<close>

partial_function (option) tmsgsize_loop :: "ptr \<Rightarrow> u8 \<Rightarrow> ptr \<Rightarrow> int \<Rightarrow> lis \<Rightarrow> (int \<times> ptr) option" where
  "tmsgsize_loop mp type first rtn s =
     (if mp = NULL then Some (rtn, first)
      else do {
        m \<leftarrow> mb s mp;
        d \<leftarrow> db s (b_datap m);
        if db_type d = type
        then tmsgsize_loop (b_cont m) type first (if blen m > 0 then c_int (rtn + blen m) else rtn) s
        else tmsgsize_loop (b_cont m) (db_type d) mp (blen m) s })"

definition tmsgsize :: "ptr \<Rightarrow> lis \<Rightarrow> (int \<times> ptr) option" where
  "tmsgsize mp s =
     (if mp = NULL then Some (0, NULL)
      else do { m \<leftarrow> mb s mp; d \<leftarrow> db s (b_datap m); tmsgsize_loop mp (db_type d) mp 0 s })"

partial_function (option) msgsize_loop :: "ptr \<Rightarrow> int \<Rightarrow> lis \<Rightarrow> int option" where
  "msgsize_loop mp rtn s =
     (if mp = NULL then Some rtn
      else do {
        m \<leftarrow> mb s mp;
        d \<leftarrow> db s (b_datap m);
        msgsize_loop (b_cont m) (c_int (rtn + (int (db_lim d) - int (db_base d)))) s })"

definition lis_msgsize :: "ptr \<Rightarrow> lis \<Rightarrow> int option" where
  "lis_msgsize mp s = msgsize_loop mp 0 s"

partial_function (option) msgdsize_loop :: "ptr \<Rightarrow> int \<Rightarrow> lis \<Rightarrow> int option" where
  "msgdsize_loop mp rtn s =
     (if mp = NULL then Some rtn
      else do {
        m \<leftarrow> mb s mp;
        d \<leftarrow> db s (b_datap m);
        msgdsize_loop (b_cont m) (if db_type d = M_DATA \<and> blen m > 0 then c_int (rtn + blen m) else rtn) s })"

definition lis_msgdsize :: "ptr \<Rightarrow> lis \<Rightarrow> int option" where
  "lis_msgdsize mp s = msgdsize_loop mp 0 s"

partial_function (option) xmsgsize_loop :: "ptr \<Rightarrow> u8 \<Rightarrow> int \<Rightarrow> lis \<Rightarrow> int option" where
  "xmsgsize_loop mp type rtn s =
     (if mp = NULL then Some rtn
      else do {
        m \<leftarrow> mb s mp;
        d \<leftarrow> db s (b_datap m);
        if db_type d = type
        then xmsgsize_loop (b_cont m) type (if blen m > 0 then c_int (rtn + blen m) else rtn) s
        else Some rtn })"

definition lis_xmsgsize :: "ptr \<Rightarrow> lis \<Rightarrow> int option" where
  "lis_xmsgsize mp s =
     (if mp = NULL then Some 0
      else do { m \<leftarrow> mb s mp; d \<leftarrow> db s (b_datap m); xmsgsize_loop mp (db_type d) 0 s })"

subsection \<open>\<open>lis_adjmsg\<close>\<close>

text \<open>The endless loop of the front trim; running off the message is a fault.\<close>

partial_function (option) adjmsg_front :: "ptr \<Rightarrow> int \<Rightarrow> lis \<Rightarrow> lis option" where
  "adjmsg_front bp len s = do {
     m \<leftarrow> mb s bp;
     let n = blen m;
     if n > len then upd_mb bp (\<lambda>m. m\<lparr>b_rptr := ptr_add (b_rptr m) len\<rparr>) s
     else if n \<ge> 0
     then do {
       s \<leftarrow> upd_mb bp (\<lambda>m. m\<lparr>b_rptr := ptr_add (b_rptr m) n\<rparr>) s;
       if len - n = 0 then Some s else adjmsg_front (b_cont m) (len - n) s }
     else adjmsg_front (b_cont m) len s }"

partial_function (option) adjmsg_tail :: "ptr \<Rightarrow> int \<Rightarrow> lis \<Rightarrow> lis option" where
  "adjmsg_tail mp2 len s =
     (if mp2 = NULL then Some s
      else do {
        m \<leftarrow> mb s mp2;
        let n = blen m;
        if len \<le> 0
        then do {
          s \<leftarrow> upd_mb mp2 (\<lambda>m. m\<lparr>b_rptr := b_wptr m\<rparr>) s;
          adjmsg_tail (b_cont m) len s }
        else if n > 0
        then do {
          s \<leftarrow> (if n > len then upd_mb mp2 (\<lambda>m. m\<lparr>b_wptr := ptr_add (b_rptr m) len\<rparr>) s else Some s);
          adjmsg_tail (b_cont m) (len - n) s }
        else adjmsg_tail (b_cont m) len s })"

definition lis_adjmsg :: "ptr \<Rightarrow> int \<Rightarrow> lis \<Rightarrow> (int \<times> lis) option" where
  "lis_adjmsg mp len s =
     (if mp = NULL then Some (0, s)
      else if len \<ge> 0
      then do {
        mlen \<leftarrow> lis_xmsgsize mp s;
        if len > mlen then Some (0, s)
        else do { s \<leftarrow> adjmsg_front mp len s; Some (1, s) } }
      else do {
        (mlen, mp2) \<leftarrow> tmsgsize mp s;
        let len = c_int (len + mlen);
        if len < 0 then Some (0, s)
        else do { s \<leftarrow> adjmsg_tail mp2 len s; Some (1, s) } })"

subsection \<open>Copying and duplicating\<close>

definition lis_copyb :: "ptr \<Rightarrow> lis \<Rightarrow> (ptr \<times> lis) option" where
  "lis_copyb mp s =
     (if mp = NULL then Some (NULL, s)
      else do {
        m \<leftarrow> mb s mp;
        d \<leftarrow> db s (b_datap m);
        let msgsize = ptrdiff (db_lim d) (db_base d);
        let msglen = blen m;
        if msgsize < 0 \<or> msglen < 0 then Some (NULL, s)
        else do {
          (bp, s) \<leftarrow> lis_allocb msgsize s;
          if bp = NULL then Some (NULL, s)
          else do {
            s \<leftarrow> upd_mb bp (\<lambda>b. b\<lparr>b_rptr := ptr_add (b_rptr b) (int (b_rptr m) - int (db_base d))\<rparr>) s;
            s \<leftarrow> upd_mb bp (\<lambda>b. b\<lparr>b_wptr := b_rptr b\<rparr>) s;
            b \<leftarrow> mb s bp;
            let s = memcpy (b_wptr b) (b_rptr m) msglen s;
            s \<leftarrow> upd_mb bp (\<lambda>b. b\<lparr>b_wptr := ptr_add (b_wptr b) msglen\<rparr>) s;
            s \<leftarrow> upd_db (b_datap b) (\<lambda>x. x\<lparr>db_type := db_type d\<rparr>) s;
            s \<leftarrow> upd_mb bp (\<lambda>b. b\<lparr>b_band := b_band m, b_flag := b_flag m\<rparr>) s;
            Some (bp, s) } } })"

partial_function (option) copymsg_loop :: "ptr \<Rightarrow> ptr \<Rightarrow> ptr \<Rightarrow> lis \<Rightarrow> (ptr \<times> lis) option" where
  "copymsg_loop mp bp rtn s = do {
     m \<leftarrow> mb s mp;
     if b_cont m \<noteq> NULL
     then do {
       (c, s) \<leftarrow> lis_copyb (b_cont m) s;
       s \<leftarrow> upd_mb bp (\<lambda>b. b\<lparr>b_cont := c\<rparr>) s;
       if c = NULL
       then do { s \<leftarrow> lis_freemsg rtn s; Some (NULL, s) }
       else copymsg_loop (b_cont m) c rtn s }
     else Some (rtn, s) }"

definition lis_copymsg :: "ptr \<Rightarrow> lis \<Rightarrow> (ptr \<times> lis) option" where
  "lis_copymsg mp s =
     (if mp = NULL then Some (NULL, s)
      else do {
        (rtn, s) \<leftarrow> lis_copyb mp s;
        if rtn = NULL then Some (NULL, s) else copymsg_loop mp rtn rtn s })"

definition lis_dupb :: "ptr \<Rightarrow> lis \<Rightarrow> (ptr \<times> lis) option" where
  "lis_dupb mp s =
     (if mp \<noteq> NULL
      then do {
        (bp, s) \<leftarrow> lis_allocb 0 s;
        if bp \<noteq> NULL
        then do {
          m \<leftarrow> mb s mp;
          s \<leftarrow> upd_mb bp (\<lambda>_. m) s;
          s \<leftarrow> upd_db (b_datap m) (\<lambda>d. d\<lparr>db_ref := db_ref d + 1\<rparr>) s;
          s \<leftarrow> upd_mb bp (\<lambda>b. b\<lparr>b_cont := NULL\<rparr>) s;
          Some (bp, s) }
        else Some (NULL, s) }
      else Some (NULL, s))"

partial_function (option) dupmsg_loop :: "ptr \<Rightarrow> ptr \<Rightarrow> ptr \<Rightarrow> lis \<Rightarrow> (ptr \<times> lis) option" where
  "dupmsg_loop mp bp rtn s = do {
     m \<leftarrow> mb s mp;
     if b_cont m \<noteq> NULL
     then do {
       (c, s) \<leftarrow> lis_dupb (b_cont m) s;
       s \<leftarrow> upd_mb bp (\<lambda>b. b\<lparr>b_cont := c\<rparr>) s;
       if c = NULL
       then do { s \<leftarrow> lis_freemsg rtn s; Some (NULL, s) }
       else dupmsg_loop (b_cont m) c rtn s }
     else Some (rtn, s) }"

definition lis_dupmsg :: "ptr \<Rightarrow> lis \<Rightarrow> (ptr \<times> lis) option" where
  "lis_dupmsg mp s = do {
     (rtn, s) \<leftarrow> lis_dupb mp s;
     if rtn = NULL then Some (NULL, s) else dupmsg_loop mp rtn rtn s }"

subsection \<open>Linking\<close>

partial_function (option) linkb_loop :: "ptr \<Rightarrow> ptr \<Rightarrow> lis \<Rightarrow> lis option" where
  "linkb_loop mp1 mp2 s = do {
     m \<leftarrow> mb s mp1;
     if b_cont m \<noteq> NULL then linkb_loop (b_cont m) mp2 s
     else upd_mb mp1 (\<lambda>m. m\<lparr>b_cont := mp2\<rparr>) s }"

definition lis_linkb :: "ptr \<Rightarrow> ptr \<Rightarrow> lis \<Rightarrow> lis option" where
  "lis_linkb mp1 mp2 s = (if mp1 \<noteq> NULL \<and> mp2 \<noteq> NULL then linkb_loop mp1 mp2 s else Some s)"

definition lis_unlinkb :: "ptr \<Rightarrow> lis \<Rightarrow> (ptr \<times> lis) option" where
  "lis_unlinkb mp s =
     (if mp = NULL then Some (NULL, s)
      else do {
        m \<leftarrow> mb s mp;
        s \<leftarrow> upd_mb mp (\<lambda>m. m\<lparr>b_cont := NULL\<rparr>) s;
        Some (b_cont m, s) })"

text \<open>\<open>lis_rmvb\<close>; \<open>(mblk_t * ) -1\<close> is the largest address.\<close>

definition MBLK_ERR :: ptr where "MBLK_ERR = 2 ^ 64 - 1"

partial_function (option) rmvb_loop :: "ptr \<Rightarrow> ptr \<Rightarrow> lis \<Rightarrow> (bool \<times> lis) option" where
  "rmvb_loop mp bp s =
     (if mp = NULL then Some (False, s)
      else do {
        m \<leftarrow> mb s mp;
        if b_cont m = bp
        then do {
          b \<leftarrow> mb s bp;
          s \<leftarrow> upd_mb mp (\<lambda>m. m\<lparr>b_cont := b_cont b\<rparr>) s;
          Some (True, s) }
        else rmvb_loop (b_cont m) bp s })"

definition lis_rmvb :: "ptr \<Rightarrow> ptr \<Rightarrow> lis \<Rightarrow> (ptr \<times> lis) option" where
  "lis_rmvb mp bp s =
     (if mp = NULL \<or> bp = NULL then Some (NULL, s)
      else if mp = bp
      then do {
        m \<leftarrow> mb s mp;
        s \<leftarrow> upd_mb bp (\<lambda>m. m\<lparr>b_cont := NULL\<rparr>) s;
        Some (b_cont m, s) }
      else do {
        (found, s) \<leftarrow> rmvb_loop mp bp s;
        if \<not> found then Some (MBLK_ERR, s)
        else do {
          s \<leftarrow> upd_mb bp (\<lambda>m. m\<lparr>b_cont := NULL\<rparr>) s;
          Some (mp, s) } })"

subsection \<open>\<open>lis_pullupmsg\<close>\<close>

partial_function (option) pullup_loop :: "ptr \<Rightarrow> ptr \<Rightarrow> ptr \<Rightarrow> int \<Rightarrow> lis \<Rightarrow> lis option" where
  "pullup_loop tmpbp prev newbp len s =
     (if len > 0 \<and> tmpbp \<noteq> NULL
      then do {
        m \<leftarrow> mb s tmpbp;
        d \<leftarrow> db s (b_datap m);
        nm \<leftarrow> mb s newbp;
        nd \<leftarrow> db s (b_datap nm);
        if db_type d \<noteq> db_type nd then Some s
        else do {
          let n = blen m;
          let nbytes = (if n > 0 then min n len else 0);
          s \<leftarrow> (if n > 0
               then do {
                 let s = memcpy (b_wptr nm) (b_rptr m) nbytes s;
                 s \<leftarrow> upd_mb tmpbp (\<lambda>m. m\<lparr>b_rptr := ptr_add (b_rptr m) nbytes\<rparr>) s;
                 upd_mb newbp (\<lambda>m. m\<lparr>b_wptr := ptr_add (b_wptr m) nbytes\<rparr>) s }
               else Some s);
          let len = len - nbytes;
          m \<leftarrow> mb s tmpbp;
          if prev \<noteq> NULL \<and> b_rptr m = b_wptr m
          then do {
            s \<leftarrow> upd_mb prev (\<lambda>p. p\<lparr>b_cont := b_cont m\<rparr>) s;
            s \<leftarrow> upd_mb tmpbp (\<lambda>m. m\<lparr>b_cont := NULL\<rparr>) s;
            s \<leftarrow> lis_freeb tmpbp s;
            p \<leftarrow> mb s prev;
            pullup_loop (b_cont p) prev newbp len s }
          else pullup_loop (b_cont m) tmpbp newbp len s } }
      else Some s)"

definition lis_pullupmsg :: "ptr \<Rightarrow> int \<Rightarrow> lis \<Rightarrow> (int \<times> lis) option" where
  "lis_pullupmsg mp len s =
     (if mp = NULL \<or> len < -1 then Some (0, s)
      else do {
        nbytes \<leftarrow> lis_xmsgsize mp s;
        let len = (if len = -1 then nbytes else len);
        if len = 0 then Some (1, s)
        else if len < 0 \<or> len > nbytes then Some (0, s)
        else do {
          m \<leftarrow> mb s mp;
          let n = blen m;
          if len \<le> n \<and> b_rptr m mod 8 = 0 then Some (1, s)
          else do {
            let len = (if len \<le> n then n else len);
            let nbytes = (if len \<le> int FASTBUF then int FASTBUF + 1 else len);
            (newbp, s) \<leftarrow> lis_allocb nbytes s;
            if newbp = NULL then Some (0, s)
            else do {
              m \<leftarrow> mb s mp;
              d \<leftarrow> db s (b_datap m);
              nm \<leftarrow> mb s newbp;
              s \<leftarrow> upd_db (b_datap nm) (\<lambda>x. x\<lparr>db_type := db_type d\<rparr>) s;
              s \<leftarrow> pullup_loop mp NULL newbp len s;
              s \<leftarrow> lis_freedb mp False s;
              nm \<leftarrow> mb s newbp;
              s \<leftarrow> upd_mb mp (\<lambda>m. m\<lparr>b_datap := b_datap nm, b_rptr := b_rptr nm, b_wptr := b_wptr nm\<rparr>) s;
              s \<leftarrow> upd_mb newbp (\<lambda>m. m\<lparr>b_datap := NULL, b_rptr := NULL, b_wptr := NULL\<rparr>) s;
              Some (1, s) } } } })"

subsection \<open>\<open>lis_msgpullup\<close>\<close>

partial_function (option) msgpullup_count :: "ptr \<Rightarrow> u8 \<Rightarrow> int \<Rightarrow> lis \<Rightarrow> int option" where
  "msgpullup_count bp msg_type len s =
     (if bp = NULL then Some len
      else do {
        m \<leftarrow> mb s bp;
        d \<leftarrow> db s (b_datap m);
        if db_type d = msg_type
        then msgpullup_count (b_cont m) msg_type
               (if b_rptr m < b_wptr m then c_int (len + (int (b_wptr m) - int (b_rptr m))) else len) s
        else Some len })"

text \<open>The copying loop: the flag is False when the leftover block could not be allocated.\<close>

partial_function (option) msgpullup_loop ::
  "ptr \<Rightarrow> u8 \<Rightarrow> ptr \<Rightarrow> int \<Rightarrow> lis \<Rightarrow> (bool \<times> ptr \<times> int \<times> lis) option" where
  "msgpullup_loop mp msg_type new_mp len s =
     (if len > 0 \<and> mp \<noteq> NULL
      then do {
        m \<leftarrow> mb s mp;
        d \<leftarrow> db s (b_datap m);
        if db_type d = msg_type
        then (let nbytes = blen m in
          if nbytes > 0
          then do {
            let cpbytes = min nbytes len;
            nm \<leftarrow> mb s new_mp;
            let s = memcpy (b_wptr nm) (b_rptr m) cpbytes s;
            s \<leftarrow> upd_mb new_mp (\<lambda>x. x\<lparr>b_wptr := ptr_add (b_wptr x) cpbytes\<rparr>) s;
            if cpbytes = len \<and> cpbytes < nbytes
            then do {
              (bp, s) \<leftarrow> lis_allocb (nbytes - cpbytes) s;
              if bp = NULL then Some (False, mp, len, s)
              else do {
                bm \<leftarrow> mb s bp;
                s \<leftarrow> upd_db (b_datap bm) (\<lambda>x. x\<lparr>db_type := msg_type\<rparr>) s;
                let s = memcpy (b_wptr bm) (ptr_add (b_rptr m) cpbytes) (nbytes - cpbytes) s;
                s \<leftarrow> upd_mb bp (\<lambda>x. x\<lparr>b_wptr := ptr_add (b_wptr x) (nbytes - cpbytes)\<rparr>) s;
                s \<leftarrow> upd_mb new_mp (\<lambda>x. x\<lparr>b_cont := bp\<rparr>) s;
                msgpullup_loop (b_cont m) msg_type new_mp (len - nbytes) s } }
            else msgpullup_loop (b_cont m) msg_type new_mp (len - nbytes) s }
          else msgpullup_loop (b_cont m) msg_type new_mp len s)
        else Some (True, mp, len, s) }
      else Some (True, mp, len, s))"

partial_function (option) last_cont :: "ptr \<Rightarrow> lis \<Rightarrow> ptr option" where
  "last_cont blast s = do {
     m \<leftarrow> mb s blast;
     if b_cont m \<noteq> NULL then last_cont (b_cont m) s else Some blast }"

definition lis_msgpullup :: "ptr \<Rightarrow> int \<Rightarrow> lis \<Rightarrow> (ptr \<times> lis) option" where
  "lis_msgpullup mp len s =
     (if mp = NULL then Some (NULL, s)
      else do {
        m \<leftarrow> mb s mp;
        d \<leftarrow> db s (b_datap m);
        let msg_type = db_type d;
        len \<leftarrow> (if len < 0 then msgpullup_count mp msg_type 0 s else Some len);
        (new_mp, s) \<leftarrow> lis_allocb len s;
        if new_mp = NULL then Some (NULL, s)
        else do {
          nm \<leftarrow> mb s new_mp;
          s \<leftarrow> upd_db (b_datap nm) (\<lambda>x. x\<lparr>db_type := msg_type\<rparr>) s;
          (ok, mp, len, s) \<leftarrow> msgpullup_loop mp msg_type new_mp len s;
          if \<not> ok \<or> len > 0
          then do { s \<leftarrow> lis_freemsg new_mp s; Some (NULL, s) }
          else if mp \<noteq> NULL
          then do {
            blast \<leftarrow> last_cont new_mp s;
            (bp, s) \<leftarrow> lis_copymsg mp s;
            if bp = NULL
            then do { s \<leftarrow> lis_freemsg new_mp s; Some (NULL, s) }
            else do {
              s \<leftarrow> upd_mb blast (\<lambda>x. x\<lparr>b_cont := bp\<rparr>) s;
              Some (new_mp, s) } }
          else Some (new_mp, s) } })"

end
