(* ===== verification/LiS_Chain.thy ===== *)
theory LiS_Chain
  imports LiS_MsgUtl
begin

text \<open>
  Messages as chains of blocks: the abstraction of a \<open>b_cont\<close> chain to the list of its blocks, and
  the value of the size functions of \<open>head/msgutl.c\<close> on it.
\<close>

unbundle bit_operations_syntax

definition mcont :: "lis \<Rightarrow> ptr \<Rightarrow> ptr option" where
  "mcont s p = map_option b_cont (mb s p)"

definition blk_db :: "lis \<Rightarrow> ptr \<Rightarrow> datab option" where
  "blk_db s p = do { m \<leftarrow> mb s p; db s (b_datap m) }"

definition mchain :: "lis \<Rightarrow> ptr \<Rightarrow> ptr list \<Rightarrow> bool" where
  "mchain s p cs \<longleftrightarrow> sseg (mcont s) p cs NULL \<and> (\<forall>c\<in>set cs. blk_db s c \<noteq> None)"

lemma mchain_null [simp]: "mchain s NULL cs \<longleftrightarrow> cs = []"
  by (auto simp: mchain_def)

lemma mchain_Nil [simp]: "mchain s p [] \<longleftrightarrow> p = NULL"
  by (simp add: mchain_def)

lemma mchain_Cons:
  "mchain s p (c # cs) \<longleftrightarrow>
     p = c \<and> c \<noteq> NULL \<and> (\<exists>m d. mb s c = Some m \<and> db s (b_datap m) = Some d \<and> mchain s (b_cont m) cs)"
  by (auto simp: mchain_def mcont_def blk_db_def bind_Some_iff)

lemma mchain_unique: "mchain s p cs \<Longrightarrow> mchain s p cs' \<Longrightarrow> cs = cs'"
  by (auto simp: mchain_def dest: sseg_unique)

lemma mchain_distinct: "mchain s p cs \<Longrightarrow> distinct cs"
  by (auto simp: mchain_def dest: sseg_distinct)

lemma mchain_append:
  "mchain s p (as @ b # bs) \<Longrightarrow> mchain s b (b # bs)"
  by (auto simp: mchain_def sseg_append)

text \<open>The lengths of the buffer and of the data of a block, as the code computes them.\<close>

definition buf_len :: "lis \<Rightarrow> ptr \<Rightarrow> int" where
  "buf_len s c = (case blk_db s c of None \<Rightarrow> 0 | Some d \<Rightarrow> int (db_lim d) - int (db_base d))"

definition dat_len :: "lis \<Rightarrow> ptr \<Rightarrow> int" where
  "dat_len s c = (case mb s c of None \<Rightarrow> 0 | Some m \<Rightarrow> blen m)"

definition blk_type :: "lis \<Rightarrow> ptr \<Rightarrow> u8" where
  "blk_type s c = (case blk_db s c of None \<Rightarrow> 0 | Some d \<Rightarrow> db_type d)"

lemma blk_db_Some: "mb s c = Some m \<Longrightarrow> blk_db s c = db s (b_datap m)"
  by (simp add: blk_db_def)

definition pos_len :: "lis \<Rightarrow> ptr \<Rightarrow> int" where
  "pos_len s c = max 0 (dat_len s c)"

text \<open>Sums of lengths, computed in the wrapping \<open>int\<close> of C.\<close>

definition c_sum :: "(ptr \<Rightarrow> int) \<Rightarrow> ptr list \<Rightarrow> int" where
  "c_sum f cs = c_int (sum_list (map f cs))"

lemma c_sum_id:
  assumes "\<And>c. c \<in> set cs \<Longrightarrow> 0 \<le> f c" "sum_list (map f cs) < 2 ^ 31"
  shows "c_sum f cs = sum_list (map f cs)"
proof -
  have "0 \<le> sum_list (map f cs)" by (rule sum_list_nonneg) (auto simp: assms(1))
  with assms(2) show ?thesis by (simp add: c_sum_def c_int_id)
qed

lemma msgsize_loop_chain:
  "mchain s p cs \<Longrightarrow> msgsize_loop p (c_int a) s = Some (c_int (a + sum_list (map (buf_len s) cs)))"
proof (induction cs arbitrary: p a)
  case Nil
  then show ?case by (simp add: msgsize_loop.simps)
next
  case (Cons c cs)
  then obtain m d where m: "p = c" "c \<noteq> NULL" "mb s c = Some m" "db s (b_datap m) = Some d"
    "mchain s (b_cont m) cs" by (auto simp: mchain_Cons)
  have "buf_len s c = int (db_lim d) - int (db_base d)" using m by (simp add: buf_len_def blk_db_Some)
  with m Cons.IH[OF m(5), of "a + buf_len s c"] show ?case
    by (simp add: msgsize_loop.simps[of c] c_int_add add.assoc)
qed

lemma lis_msgsize_chain: "mchain s p cs \<Longrightarrow> lis_msgsize p s = Some (c_sum (buf_len s) cs)"
  using msgsize_loop_chain[of s p cs 0] by (simp add: lis_msgsize_def c_sum_def)

lemma msgdsize_loop_chain:
  "mchain s p cs \<Longrightarrow> msgdsize_loop p (c_int a) s =
     Some (c_int (a + sum_list (map (pos_len s) (filter (\<lambda>c. blk_type s c = M_DATA) cs))))"
proof (induction cs arbitrary: p a)
  case Nil
  then show ?case by (simp add: msgdsize_loop.simps)
next
  case (Cons c cs)
  then obtain m d where m: "p = c" "c \<noteq> NULL" "mb s c = Some m" "db s (b_datap m) = Some d"
    "mchain s (b_cont m) cs" by (auto simp: mchain_Cons)
  have f: "blk_type s c = db_type d" "pos_len s c = max 0 (blen m)"
    using m by (simp_all add: blk_type_def blk_db_Some pos_len_def dat_len_def)
  show ?case
    using m f Cons.IH[OF m(5), of "a + blen m"] Cons.IH[OF m(5), of a]
    by (auto simp: msgdsize_loop.simps[of c] c_int_add add.assoc max_def)
qed

lemma lis_msgdsize_chain:
  "mchain s p cs \<Longrightarrow> lis_msgdsize p s =
     Some (c_sum (pos_len s) (filter (\<lambda>c. blk_type s c = M_DATA) cs))"
  using msgdsize_loop_chain[of s p cs 0] by (simp add: lis_msgdsize_def c_sum_def)

text \<open>The leading blocks of one type, which \<open>lis_xmsgsize\<close> counts.\<close>

definition same_type :: "lis \<Rightarrow> ptr list \<Rightarrow> ptr list" where
  "same_type s cs = takeWhile (\<lambda>c. blk_type s c = blk_type s (hd cs)) cs"

lemma xmsgsize_loop_chain:
  "mchain s p cs \<Longrightarrow> xmsgsize_loop p ty (c_int a) s =
     Some (c_int (a + sum_list (map (pos_len s) (takeWhile (\<lambda>c. blk_type s c = ty) cs))))"
proof (induction cs arbitrary: p a)
  case Nil
  then show ?case by (simp add: xmsgsize_loop.simps)
next
  case (Cons c cs)
  then obtain m d where m: "p = c" "c \<noteq> NULL" "mb s c = Some m" "db s (b_datap m) = Some d"
    "mchain s (b_cont m) cs" by (auto simp: mchain_Cons)
  have f: "blk_type s c = db_type d" "pos_len s c = max 0 (blen m)"
    using m by (simp_all add: blk_type_def blk_db_Some pos_len_def dat_len_def)
  show ?case
    using m f Cons.IH[OF m(5), of "a + blen m"] Cons.IH[OF m(5), of a]
    by (auto simp: xmsgsize_loop.simps[of c] c_int_add add.assoc max_def)
qed

lemma lis_xmsgsize_chain:
  assumes "mchain s p cs"
  shows "lis_xmsgsize p s = Some (c_sum (pos_len s) (same_type s cs))"
proof (cases cs)
  case Nil
  with assms show ?thesis by (simp add: lis_xmsgsize_def c_sum_def same_type_def)
next
  case (Cons c cs')
  with assms obtain m d where m: "p = c" "c \<noteq> NULL" "mb s c = Some m" "db s (b_datap m) = Some d"
    by (auto simp: mchain_Cons)
  then have ty: "blk_type s (hd cs) = db_type d" by (simp add: Cons blk_type_def blk_db_Some)
  from xmsgsize_loop_chain[OF assms, of "db_type d" 0] m show ?thesis
    by (simp add: lis_xmsgsize_def c_sum_def same_type_def ty)
qed

end
