(* ===== verification/LiS_QueueOps.thy ===== *)
theory LiS_QueueOps
  imports LiS_MsgUtl
begin

text \<open>
  The private operations on a queue, \<open>head/queue.c\<close>: the magic check, the partner queues of
  \<open>head/safe.c\<close>, scheduling (\<open>lis_qenable\<close>), the flow-control bands, the place of a message in
  the queue, insertion and removal.  The code runs them with the queue's interrupt lock held, so
  each is one step of the model.
\<close>

unbundle bit_operations_syntax

subsection \<open>Magic numbers and partner queues (\<open>queue.h\<close>, \<open>safe.c\<close>)\<close>

text \<open>\<open>LIS_CHECK_Q_MAGIC\<close>; \<open>lis_check_q_magic\<close>, called on failure, prints and returns 0.\<close>

definition q_magic_ok :: "ptr \<Rightarrow> lis \<Rightarrow> bool option" where
  "q_magic_ok q s = (if q = NULL then Some False else do { Q \<leftarrow> qs s q; Some (q_magic Q = Q_MAGIC) })"

definition lis_safe_noenable :: "ptr \<Rightarrow> lis \<Rightarrow> lis option" where
  "lis_safe_noenable q s = do {
     ok \<leftarrow> q_magic_ok q s;
     if \<not> ok then Some s else upd_q q (\<lambda>Q. Q\<lparr>q_flag := q_flag Q OR QNOENB\<rparr>) s }"

definition lis_safe_enableok :: "ptr \<Rightarrow> lis \<Rightarrow> lis option" where
  "lis_safe_enableok q s = do {
     ok \<leftarrow> q_magic_ok q s;
     if \<not> ok then Some s else upd_q q (\<lambda>Q. Q\<lparr>q_flag := q_flag Q AND NOT QNOENB\<rparr>) s }"

definition lis_safe_canenable :: "ptr \<Rightarrow> lis \<Rightarrow> bool option" where
  "lis_safe_canenable q s = do {
     ok \<leftarrow> q_magic_ok q s;
     if ok then do { Q \<leftarrow> qs s q; Some (\<not> F_ISSET (q_flag Q) QNOENB) } else Some False }"

definition lis_safe_OTHERQ :: "ptr \<Rightarrow> lis \<Rightarrow> ptr option" where
  "lis_safe_OTHERQ q s = do {
     ok \<leftarrow> q_magic_ok q s;
     if ok
     then do {
       Q \<leftarrow> qs s q;
       ok \<leftarrow> q_magic_ok (q_other Q) s;
       Some (if ok then q_other Q else NULL) }
     else Some NULL }"

definition lis_safe_RD :: "ptr \<Rightarrow> lis \<Rightarrow> ptr option" where
  "lis_safe_RD q s = do {
     ok \<leftarrow> q_magic_ok q s;
     if ok
     then do {
       Q \<leftarrow> qs s q;
       let oq = (if F_ISSET (q_flag Q) QREADR then q else q_other Q);
       ok \<leftarrow> q_magic_ok oq s;
       Some (if ok then oq else NULL) }
     else Some NULL }"

definition lis_safe_WR :: "ptr \<Rightarrow> lis \<Rightarrow> ptr option" where
  "lis_safe_WR q s = do {
     ok \<leftarrow> q_magic_ok q s;
     if ok
     then do {
       Q \<leftarrow> qs s q;
       let oq = (if F_ISSET (q_flag Q) QREADR then q_other Q else q);
       ok \<leftarrow> q_magic_ok oq s;
       Some (if ok then oq else NULL) }
     else Some NULL }"

definition lis_safe_SAMESTR :: "ptr \<Rightarrow> lis \<Rightarrow> bool option" where
  "lis_safe_SAMESTR q s = do {
     ok \<leftarrow> q_magic_ok q s;
     if \<not> ok then Some False
     else do {
       Q \<leftarrow> qs s q;
       ok \<leftarrow> q_magic_ok (q_next Q) s;
       if \<not> ok then Some False
       else do {
         N \<leftarrow> qs s (q_next Q);
         Some (q_flag Q AND QREADR = q_flag N AND QREADR) } } }"

subsection \<open>Scheduling a queue (\<open>queue.c\<close>, \<open>head.c\<close>)\<close>

text \<open>\<open>lis_head_get\<close> of an existing stream head.\<close>

definition lis_head_get :: "ptr \<Rightarrow> lis \<Rightarrow> lis option" where
  "lis_head_get hdp s = upd_sd hdp (\<lambda>h. h\<lparr>sd_refcnt := sd_refcnt h + 1\<rparr>) s"

definition lis_setqsched :: "lis \<Rightarrow> lis" where
  "lis_setqsched s = s\<lparr>setqsched_calls := setqsched_calls s + 1\<rparr>"

text \<open>The stream head of the queue is held while the queue waits to be run.\<close>

definition qenable_hold :: "ptr \<Rightarrow> ptr \<Rightarrow> lis \<Rightarrow> lis option" where
  "qenable_hold q hdp s =
     (if hdp = NULL then Some s
      else do {
        h \<leftarrow> sds s hdp;
        if sd_magic h = STDATA_MAGIC \<and> (sd_wq h = q \<or> sd_rq h = q)
        then lis_head_get hdp s
        else Some s })"

definition lis_qenable :: "ptr \<Rightarrow> lis \<Rightarrow> lis option" where
  "lis_qenable q s = do {
     ok \<leftarrow> q_magic_ok q s;
     if \<not> ok then Some s
     else do {
       Q \<leftarrow> qs s q;
       case q_qinfo Q of
         None \<Rightarrow> Some s
       | Some qi \<Rightarrow>
           if qi_srvp qi = 0 then Some s
           else if F_ISSET (q_flag Q) Q_INH_ENABLE
           then (if F_ISSET (q_flag Q) Q_DEFER_ENABLE
                 then upd_q q (\<lambda>Q. Q\<lparr>q_flag := q_flag Q OR QWANTENAB\<rparr>) s
                 else Some s)
           else do {
             s \<leftarrow> upd_q q (\<lambda>Q. Q\<lparr>q_flag := q_flag Q OR QENAB\<rparr>) s;
             s \<leftarrow> qenable_hold q (q_str Q) s;
             s \<leftarrow> upd_q q (\<lambda>Q. Q\<lparr>q_link := NULL\<rparr>) s;
             s \<leftarrow> (if qhead s = NULL then Some (s\<lparr>qhead := q\<rparr>)
                  else upd_q (qtail s) (\<lambda>Q. Q\<lparr>q_link := q\<rparr>) s);
             let s = s\<lparr>qtail := q, runq_req_cnt := runq_req_cnt s + 1\<rparr>;
             Some (lis_setqsched (LisUpCount QSCHEDS s)) } } }"

definition lis_retry_qenable :: "ptr \<Rightarrow> lis \<Rightarrow> lis option" where
  "lis_retry_qenable q s = do {
     Q \<leftarrow> qs s q;
     if F_ISSET (q_flag Q) QWANTENAB \<and> \<not> F_ISSET (q_flag Q) Q_INH_ENABLE
     then do {
       s \<leftarrow> upd_q q (\<lambda>Q. Q\<lparr>q_flag := q_flag Q AND NOT QWANTENAB\<rparr>) s;
       lis_qenable q s }
     else Some s }"

subsection \<open>Bands\<close>

partial_function (option) qband_find :: "ptr \<Rightarrow> u8 \<Rightarrow> lis \<Rightarrow> ptr option" where
  "qband_find qp msgclass s =
     (if qp = NULL then Some NULL
      else do {
        b \<leftarrow> qbands s qp;
        found \<leftarrow> (if qb_first b \<noteq> NULL
                 then do { m \<leftarrow> mb s (qb_first b); Some (b_band m = msgclass) }
                 else Some False);
        if found then Some qp else qband_find (qb_next b) msgclass s })"

partial_function (option) qband_unused :: "ptr \<Rightarrow> lis \<Rightarrow> ptr option" where
  "qband_unused qp s =
     (if qp = NULL then Some NULL
      else do {
        b \<leftarrow> qbands s qp;
        if qb_first b = NULL then Some qp else qband_unused (qb_next b) s })"

definition qband_zero :: qband where
  "qband_zero = \<lparr>qb_next = NULL, qb_count = 0, qb_first = NULL, qb_last = NULL, qb_hiwat = 0,
     qb_lowat = 0, qb_flag = 0\<rparr>"

text \<open>\<open>LIS_QBAND_ALLOC\<close>, a \<open>kmem_cache_alloc\<close> that is counted; the fields are set by the caller.\<close>

definition qband_alloc :: "lis \<Rightarrow> ptr \<times> lis" where
  "qband_alloc s =
     (case kalloc s of (p, s) \<Rightarrow>
        if p = NULL then (NULL, s)
        else (p, s\<lparr>qbands := (qbands s)(p \<mapsto> qband_zero), qband_cnt := qband_cnt s + 1\<rparr>))"

definition find_qband :: "ptr \<Rightarrow> int \<Rightarrow> lis \<Rightarrow> (ptr \<times> lis) option" where
  "find_qband q msg_class s =
     (let msgclass = (word_of_int msg_class :: u8) in
      if q = NULL \<or> msg_class > int LIS_MAX_BAND then Some (NULL, s)
      else do {
        Q \<leftarrow> qs s q;
        qp \<leftarrow> qband_find (q_bandp Q) msgclass s;
        qp \<leftarrow> (if qp = NULL then qband_unused (q_bandp Q) s else Some qp);
        (qp, s) \<leftarrow>
          (if qp = NULL
           then (case qband_alloc s of (p, s) \<Rightarrow>
                   if p = NULL then Some (NULL, s)
                   else do {
                     s \<leftarrow> upd_qb p (\<lambda>b. b\<lparr>qb_next := q_bandp Q\<rparr>) s;
                     s \<leftarrow> upd_q q (\<lambda>Q. Q\<lparr>q_bandp := p\<rparr>) s;
                     s \<leftarrow> upd_qb p (\<lambda>b. b\<lparr>qb_first := NULL, qb_last := NULL\<rparr>) s;
                     Some (p, s) })
           else Some (qp, s));
        if qp = NULL then Some (NULL, s)
        else do {
          b \<leftarrow> qbands s qp;
          s \<leftarrow> (if qb_first b = NULL
               then upd_qb qp (\<lambda>b. b\<lparr>qb_count := 0, qb_flag := 0, qb_hiwat := q_hiwat Q,
                                     qb_lowat := q_lowat Q\<rparr>) s
               else Some s);
          Some (qp, s) } })"

text \<open>The accounting of a new message in its queue or in its band.\<close>

definition count_in_queue :: "ptr \<Rightarrow> int \<Rightarrow> lis \<Rightarrow> lis option" where
  "count_in_queue q n s = do {
     s \<leftarrow> upd_q q (\<lambda>Q. Q\<lparr>q_count := q_count Q + word_of_int n\<rparr>) s;
     Q \<leftarrow> qs s q;
     if q_count Q > q_hiwat Q
     then upd_q q (\<lambda>Q. Q\<lparr>q_flag := q_flag Q OR (QFULL OR QWASFULL)\<rparr>) s
     else Some s }"

definition count_in_band :: "ptr \<Rightarrow> ptr \<Rightarrow> int \<Rightarrow> bool \<Rightarrow> lis \<Rightarrow> lis option" where
  "count_in_band qp mp n band_ptrs s = do {
     s \<leftarrow> upd_qb qp (\<lambda>b. b\<lparr>qb_count := qb_count b + word_of_int n\<rparr>) s;
     b \<leftarrow> qbands s qp;
     s \<leftarrow> (if qb_count b > qb_hiwat b
          then upd_qb qp (\<lambda>b. b\<lparr>qb_flag := qb_flag b OR (QB_FULL OR QB_WASFULL)\<rparr>) s
          else Some s);
     if band_ptrs
     then do {
       m \<leftarrow> mb s mp;
       s \<leftarrow> (if qb_first b = NULL \<or> b_next m = qb_first b
            then upd_qb qp (\<lambda>b. b\<lparr>qb_first := mp\<rparr>) s else Some s);
       if qb_last b = NULL \<or> b_prev m = qb_last b
       then upd_qb qp (\<lambda>b. b\<lparr>qb_last := mp\<rparr>) s else Some s }
     else Some s }"

definition updatequeue :: "ptr \<Rightarrow> ptr \<Rightarrow> bool \<Rightarrow> bool \<Rightarrow> lis \<Rightarrow> lis option" where
  "updatequeue q mp from_insq band_ptrs s = do {
     m \<leftarrow> mb s mp;
     d \<leftarrow> db s (b_datap m);
     let msg_class = b_band m;
     let msg_type = db_type d;
     s \<leftarrow>
       (if msg_type \<ge> QPCTL \<or> msg_class = 0
        then do { n \<leftarrow> lis_msgsize mp s; count_in_queue q n s }
        else do {
          (qp, s) \<leftarrow> find_qband q (uint msg_class) s;
          if qp \<noteq> NULL
          then do { n \<leftarrow> lis_msgsize mp s; count_in_band qp mp n band_ptrs s }
          else Some s });
     Q \<leftarrow> qs s q;
     if from_insq \<and> F_ISSET (q_flag Q) QNOENB then Some s
     else if msg_type \<ge> QPCTL \<or> (\<not> F_ISSET (q_flag Q) QNOENB \<and> F_ISSET (q_flag Q) QWANTR)
     then lis_qenable q s
     else Some s }"

subsection \<open>The place of a message in the queue\<close>

text \<open>The scans shared by \<open>find_q_spot_head\<close> and \<open>find_q_spot_tail\<close>.\<close>

partial_function (option) skip_hipri :: "ptr \<Rightarrow> lis \<Rightarrow> ptr option" where
  "skip_hipri p s =
     (if p = NULL then Some NULL
      else do {
        m \<leftarrow> mb s p;
        d \<leftarrow> db s (b_datap m);
        if db_type d \<ge> QPCTL then skip_hipri (b_next m) s else Some p })"

partial_function (option) skip_above :: "ptr \<Rightarrow> u8 \<Rightarrow> lis \<Rightarrow> ptr option" where
  "skip_above p cls s =
     (if p = NULL then Some NULL
      else do {
        m \<leftarrow> mb s p;
        if b_band m > cls then skip_above (b_next m) cls s else Some p })"

partial_function (option) skip_from :: "ptr \<Rightarrow> u8 \<Rightarrow> lis \<Rightarrow> ptr option" where
  "skip_from p cls s =
     (if p = NULL then Some NULL
      else do {
        m \<leftarrow> mb s p;
        if b_band m \<ge> cls then skip_from (b_next m) cls s else Some p })"

text \<open>A high-priority message loses its band (the band is read before that).\<close>

definition clear_band :: "ptr \<Rightarrow> u8 \<Rightarrow> lis \<Rightarrow> lis option" where
  "clear_band mp mp_type s = (if mp_type \<ge> QPCTL then upd_mb mp (\<lambda>m. m\<lparr>b_band := 0\<rparr>) s else Some s)"

definition find_q_spot_head :: "ptr \<Rightarrow> ptr \<Rightarrow> lis \<Rightarrow> (ptr \<times> lis) option" where
  "find_q_spot_head q mp s =
     (if q = NULL then Some (NULL, s)
      else do {
        Q \<leftarrow> qs s q;
        let firstp = q_first Q;
        if firstp = NULL then Some (NULL, s)
        else do {
          m \<leftarrow> mb s mp;
          d \<leftarrow> db s (b_datap m);
          let msg_class = b_band m;
          let mp_type = db_type d;
          s \<leftarrow> clear_band mp mp_type s;
          if mp_type \<ge> QPCTL then Some (firstp, s)
          else do {
            f \<leftarrow> mb s firstp;
            fd \<leftarrow> db s (b_datap f);
            if db_type fd < QPCTL \<and> msg_class \<ge> b_band f then Some (firstp, s)
            else do {
              p \<leftarrow> skip_hipri firstp s;
              p \<leftarrow> skip_above p msg_class s;
              Some (p, s) } } } })"

definition find_q_spot_tail :: "ptr \<Rightarrow> ptr \<Rightarrow> lis \<Rightarrow> (ptr \<times> lis) option" where
  "find_q_spot_tail q mp s =
     (if q = NULL then Some (NULL, s)
      else do {
        Q \<leftarrow> qs s q;
        let firstp = q_first Q;
        if firstp = NULL then Some (NULL, s)
        else do {
          m \<leftarrow> mb s mp;
          d \<leftarrow> db s (b_datap m);
          let msg_class = b_band m;
          let mp_type = db_type d;
          s \<leftarrow> clear_band mp mp_type s;
          l \<leftarrow> mb s (q_last Q);
          ld \<leftarrow> db s (b_datap l);
          if db_type ld \<ge> QPCTL then Some (NULL, s)
          else if mp_type < QPCTL \<and> msg_class \<le> b_band l then Some (NULL, s)
          else do {
            p \<leftarrow> skip_hipri firstp s;
            p \<leftarrow> (if mp_type < QPCTL then skip_from p msg_class s else Some p);
            Some (p, s) } } })"

subsection \<open>Insertion and removal\<close>

definition ins_before :: "ptr \<Rightarrow> ptr \<Rightarrow> ptr \<Rightarrow> lis \<Rightarrow> lis option" where
  "ins_before q before_msg mp s = do {
     let s = LisUpCount MSGSQD s;
     Q \<leftarrow> qs s q;
     if q_first Q = NULL
     then do {
       s \<leftarrow> upd_mb mp (\<lambda>m. m\<lparr>b_prev := NULL, b_next := NULL\<rparr>) s;
       upd_q q (\<lambda>Q. Q\<lparr>q_first := mp, q_last := mp\<rparr>) s }
     else if before_msg = NULL
     then do {
       s \<leftarrow> upd_mb (q_last Q) (\<lambda>m. m\<lparr>b_next := mp\<rparr>) s;
       s \<leftarrow> upd_mb mp (\<lambda>m. m\<lparr>b_prev := q_last Q\<rparr>) s;
       s \<leftarrow> upd_q q (\<lambda>Q. Q\<lparr>q_last := mp\<rparr>) s;
       upd_mb mp (\<lambda>m. m\<lparr>b_next := NULL\<rparr>) s }
     else do {
       s \<leftarrow> upd_mb mp (\<lambda>m. m\<lparr>b_next := before_msg\<rparr>) s;
       b \<leftarrow> mb s before_msg;
       s \<leftarrow> upd_mb mp (\<lambda>m. m\<lparr>b_prev := b_prev b\<rparr>) s;
       s \<leftarrow> (if b_prev b \<noteq> NULL
            then upd_mb (b_prev b) (\<lambda>m. m\<lparr>b_next := mp\<rparr>) s
            else upd_q q (\<lambda>Q. Q\<lparr>q_first := mp\<rparr>) s);
       upd_mb before_msg (\<lambda>m. m\<lparr>b_prev := mp\<rparr>) s } }"

definition chk_band :: "ptr \<Rightarrow> ptr \<Rightarrow> lis \<Rightarrow> lis option" where
  "chk_band q qp s = do {
     b \<leftarrow> qbands s qp;
     s \<leftarrow> (if qb_count b \<le> qb_hiwat b
          then upd_qb qp (\<lambda>b. b\<lparr>qb_flag := qb_flag b AND NOT QB_FULL\<rparr>) s else Some s);
     b \<leftarrow> qbands s qp;
     if F_ISSET (qb_flag b) QB_WASFULL \<and> qb_count b \<le> qb_lowat b
     then do {
       s \<leftarrow> upd_qb qp (\<lambda>b. b\<lparr>qb_flag := qb_flag b AND NOT QB_WASFULL\<rparr>) s;
       b \<leftarrow> qbands s qp;
       s \<leftarrow> (if F_ISSET (qb_flag b) QB_WANTW
            then do {
              s \<leftarrow> upd_qb qp (\<lambda>b. b\<lparr>qb_flag := qb_flag b AND NOT QB_WANTW\<rparr>) s;
              upd_q q (\<lambda>Q. Q\<lparr>q_flag := q_flag Q OR QWANTW\<rparr>) s }
            else Some s);
       upd_q q (\<lambda>Q. Q\<lparr>q_flag := q_flag Q OR QBACK\<rparr>) s }
     else Some s }"

text \<open>The two symmetric updates of the band's ends when \<open>mp\<close> leaves it.\<close>

definition band_drop_first :: "ptr \<Rightarrow> ptr \<Rightarrow> lis \<Rightarrow> lis option" where
  "band_drop_first qp mp s = do {
     b \<leftarrow> qbands s qp;
     if qb_first b = mp
     then do {
       m \<leftarrow> mb s mp;
       same \<leftarrow> (if b_next m \<noteq> NULL then do { n \<leftarrow> mb s (b_next m); Some (b_band n = b_band m) }
               else Some False);
       if same then upd_qb qp (\<lambda>b. b\<lparr>qb_first := b_next m\<rparr>) s
       else upd_qb qp (\<lambda>b. b\<lparr>qb_first := NULL, qb_last := NULL\<rparr>) s }
     else Some s }"

definition band_drop_last :: "ptr \<Rightarrow> ptr \<Rightarrow> lis \<Rightarrow> lis option" where
  "band_drop_last qp mp s = do {
     b \<leftarrow> qbands s qp;
     if qb_last b = mp
     then do {
       m \<leftarrow> mb s mp;
       same \<leftarrow> (if b_prev m \<noteq> NULL then do { n \<leftarrow> mb s (b_prev m); Some (b_band n = b_band m) }
               else Some False);
       if same then upd_qb qp (\<lambda>b. b\<lparr>qb_last := b_prev m\<rparr>) s
       else upd_qb qp (\<lambda>b. b\<lparr>qb_first := NULL, qb_last := NULL\<rparr>) s }
     else Some s }"

definition uncount_queue :: "ptr \<Rightarrow> int \<Rightarrow> lis \<Rightarrow> lis option" where
  "uncount_queue q n s = do {
     s \<leftarrow> upd_q q (\<lambda>Q. Q\<lparr>q_count := q_count Q - word_of_int n\<rparr>) s;
     Q \<leftarrow> qs s q;
     s \<leftarrow> (if q_count Q < q_hiwat Q then upd_q q (\<lambda>Q. Q\<lparr>q_flag := q_flag Q AND NOT QFULL\<rparr>) s
          else Some s);
     if F_ISSET (q_flag Q) QWASFULL \<and> q_count Q \<le> q_lowat Q
     then do {
       s \<leftarrow> upd_q q (\<lambda>Q. Q\<lparr>q_flag := q_flag Q OR QBACK\<rparr>) s;
       upd_q q (\<lambda>Q. Q\<lparr>q_flag := q_flag Q AND NOT QWASFULL\<rparr>) s }
     else Some s }"

definition adjust_q_count :: "ptr \<Rightarrow> ptr \<Rightarrow> bool \<Rightarrow> lis \<Rightarrow> lis option" where
  "adjust_q_count q mp band_ptrs s = do {
     s \<leftarrow> upd_q q (\<lambda>Q. Q\<lparr>q_flag := q_flag Q AND NOT QWANTR\<rparr>) s;
     m \<leftarrow> mb s mp;
     d \<leftarrow> db s (b_datap m);
     if db_type d < QPCTL \<and> b_band m > 0
     then do {
       (qp, s) \<leftarrow> find_qband q (uint (b_band m)) s;
       if qp \<noteq> NULL
       then do {
         n \<leftarrow> lis_msgsize mp s;
         s \<leftarrow> upd_qb qp (\<lambda>b. b\<lparr>qb_count := qb_count b - word_of_int n\<rparr>) s;
         s \<leftarrow> (if band_ptrs then band_drop_first qp mp s else Some s);
         s \<leftarrow> (if band_ptrs then band_drop_last qp mp s else Some s);
         chk_band q qp s }
       else Some s }
     else do { n \<leftarrow> lis_msgsize mp s; uncount_queue q n s } }"

text \<open>The unlinking of a message, the second half of \<open>rmv_msg\<close>.\<close>

definition unlink_msg :: "ptr \<Rightarrow> ptr \<Rightarrow> lis \<Rightarrow> lis option" where
  "unlink_msg q mp s = do {
     m \<leftarrow> mb s mp;
     s \<leftarrow> (if b_prev m \<noteq> NULL then upd_mb (b_prev m) (\<lambda>p. p\<lparr>b_next := b_next m\<rparr>) s
          else upd_q q (\<lambda>Q. Q\<lparr>q_first := b_next m\<rparr>) s);
     m \<leftarrow> mb s mp;
     s \<leftarrow> (if b_next m \<noteq> NULL then upd_mb (b_next m) (\<lambda>n. n\<lparr>b_prev := b_prev m\<rparr>) s
          else upd_q q (\<lambda>Q. Q\<lparr>q_last := b_prev m\<rparr>) s);
     s \<leftarrow> upd_mb mp (\<lambda>m. m\<lparr>b_prev := NULL, b_next := NULL\<rparr>) s;
     Some (LisDownCount MSGSQD s) }"

definition rmv_msg :: "ptr \<Rightarrow> ptr \<Rightarrow> lis \<Rightarrow> (ptr \<times> lis) option" where
  "rmv_msg q mp s =
     (if mp = NULL
      then do {
        s \<leftarrow> upd_q q (\<lambda>Q. Q\<lparr>q_flag := q_flag Q OR (QWANTR OR QBACK)\<rparr>) s;
        Some (NULL, s) }
      else do {
        s \<leftarrow> adjust_q_count q mp True s;
        s \<leftarrow> unlink_msg q mp s;
        Some (mp, s) })"

end
