(* ===== verification/LiS_Queue.thy ===== *)
theory LiS_Queue
  imports LiS_QueueOps
begin

text \<open>
  The queue operations that modules call, \<open>head/queue.c\<close>, and the delivery of messages to put
  procedures, \<open>head/safe.c\<close>.  The put and service procedures of modules and drivers are code of
  their own: an \<open>env\<close> passes them, with the running task and the disposal of a passed file
  descriptor (\<open>lis_free_passfp\<close>, which works on the kernel's file table), to the operations that
  call them.
\<close>

unbundle bit_operations_syntax

record env =
  e_putp :: "nat \<Rightarrow> ptr \<Rightarrow> ptr \<Rightarrow> lis \<Rightarrow> lis option"
  e_srvp :: "nat \<Rightarrow> ptr \<Rightarrow> lis \<Rightarrow> lis option"
  e_bcfn :: "nat \<Rightarrow> int \<Rightarrow> lis \<Rightarrow> lis option"
  e_free_passfp :: "ptr \<Rightarrow> lis \<Rightarrow> lis option"
  e_cur :: ptr

abbreviation (input) EPERM :: int where "EPERM \<equiv> 1"
abbreviation (input) ENOMEM :: int where "ENOMEM \<equiv> 12"
abbreviation (input) EINVAL :: int where "EINVAL \<equiv> 22"

subsection \<open>The queue lock\<close>

text \<open>
  Executed by one task \<open>cur\<close>: a \<open>down\<close> that would have to wait for another task has no result.
\<close>

definition lis_lockq :: "ptr \<Rightarrow> ptr \<Rightarrow> lis \<Rightarrow> (int \<times> lis) option" where
  "lis_lockq cur q s =
     (if q = NULL then Some (- EINVAL, s)
      else do {
        Q \<leftarrow> qs s q;
        if F_ISSET (q_flag Q) QOPENING \<or> q_qsp Q = NULL then Some (0, s)
        else do {
          y \<leftarrow> qsyncs s (q_qsp Q);
          if qs_taskp y = cur
          then Some (0, s\<lparr>qsyncs := (qsyncs s)(q_qsp Q \<mapsto> y\<lparr>qs_nest := qs_nest y + 1\<rparr>)\<rparr>)
          else if qs_sem y > 0
          then Some (0, s\<lparr>qsyncs := (qsyncs s)(q_qsp Q \<mapsto>
                     y\<lparr>qs_sem := qs_sem y - 1, qs_nest := qs_nest y + 1, qs_taskp := cur\<rparr>)\<rparr>)
          else None } })"

definition lis_unlockq :: "ptr \<Rightarrow> ptr \<Rightarrow> lis \<Rightarrow> lis option" where
  "lis_unlockq cur q s = do {
     Q \<leftarrow> qs s q;
     if q_qsp Q = NULL then Some s
     else do {
       y \<leftarrow> qsyncs s (q_qsp Q);
       let y = (if qs_taskp y = cur then y\<lparr>qs_nest := qs_nest y - 1\<rparr> else y);
       let y = (if qs_nest y = 0 then y\<lparr>qs_taskp := NULL, qs_sem := qs_sem y + 1\<rparr> else y);
       Some (s\<lparr>qsyncs := (qsyncs s)(q_qsp Q \<mapsto> y)\<rparr>) } }"

subsection \<open>Setting and clearing flags\<close>

fun lis_set_q_flags :: "u64 \<Rightarrow> bool \<Rightarrow> ptr list \<Rightarrow> lis \<Rightarrow> lis option" where
  "lis_set_q_flags flags both_qs [] s = Some s"
| "lis_set_q_flags flags both_qs (q # args) s =
     (if q = NULL then Some s
      else do {
        oq \<leftarrow> lis_safe_OTHERQ q s;
        s \<leftarrow> lis_set_q_flags flags both_qs args s;
        s \<leftarrow> upd_q q (\<lambda>Q. Q\<lparr>q_flag := q_flag Q OR flags\<rparr>) s;
        if both_qs then upd_q oq (\<lambda>Q. Q\<lparr>q_flag := q_flag Q OR flags\<rparr>) s else Some s })"

fun lis_clr_q_flags :: "u64 \<Rightarrow> bool \<Rightarrow> ptr list \<Rightarrow> lis \<Rightarrow> lis option" where
  "lis_clr_q_flags flags both_qs [] s = Some s"
| "lis_clr_q_flags flags both_qs (q # args) s =
     (if q = NULL then Some s
      else do {
        oq \<leftarrow> lis_safe_OTHERQ q s;
        s \<leftarrow> lis_clr_q_flags flags both_qs args s;
        s \<leftarrow> upd_q q (\<lambda>Q. Q\<lparr>q_flag := q_flag Q AND NOT flags\<rparr>) s;
        if both_qs then upd_q oq (\<lambda>Q. Q\<lparr>q_flag := q_flag Q AND NOT flags\<rparr>) s else Some s })"

subsection \<open>Back-enabling\<close>

definition lis_backq :: "ptr \<Rightarrow> lis \<Rightarrow> ptr option" where
  "lis_backq q s = do {
     ok \<leftarrow> q_magic_ok q s;
     if \<not> ok then Some NULL
     else do {
       oq \<leftarrow> lis_safe_OTHERQ q s;
       if oq = NULL then Some NULL
       else do {
         OQ \<leftarrow> qs s oq;
         if q_next OQ = NULL then Some NULL
         else if q_next OQ = q then Some oq
         else lis_safe_OTHERQ (q_next OQ) s } } }"

definition has_srvp :: "queue \<Rightarrow> bool" where
  "has_srvp Q \<longleftrightarrow> (case q_qinfo Q of None \<Rightarrow> False | Some qi \<Rightarrow> qi_srvp qi \<noteq> 0)"

partial_function (option) backenable_loop :: "ptr \<Rightarrow> lis \<Rightarrow> lis option" where
  "backenable_loop q s = do {
     q \<leftarrow> lis_backq q s;
     if q = NULL then Some s
     else do {
       ok \<leftarrow> q_magic_ok q s;
       Q \<leftarrow> qs s q;
       if \<not> ok \<or> F_ISSET (q_flag Q) (QPROCSOFF OR QCLOSING) then Some s
       else do {
         can \<leftarrow> (if has_srvp Q then lis_safe_canenable q s else Some False);
         if can
         then do {
           s \<leftarrow> lis_qenable q s;
           Q \<leftarrow> qs s q;
           if \<not> F_ISSET (q_flag Q) QCLOSEWT \<or> q_count Q \<noteq> 0 then Some s
           else backenable_loop q s }
         else backenable_loop q s } } }"

definition lis_backenable :: "ptr \<Rightarrow> lis \<Rightarrow> lis option" where
  "lis_backenable q s = do {
     OQ \<leftarrow> qs s q;
     if (q_flag OQ AND (QWANTW OR QBACK) = QWANTW OR QBACK \<or> F_ISSET (q_flag OQ) QCLOSEWT)
        \<and> q_count OQ \<le> q_lowat OQ
     then do {
       s \<leftarrow> upd_q q (\<lambda>Q. Q\<lparr>q_flag := q_flag Q AND NOT (QWANTW OR QBACK)\<rparr>) s;
       backenable_loop q s }
     else Some s }"

subsection \<open>Getting and putting messages\<close>

text \<open>The check every entry point starts with: a damaged or closing queue takes no messages.\<close>

definition q_shut :: "ptr \<Rightarrow> lis \<Rightarrow> bool option" where
  "q_shut q s = do {
     ok \<leftarrow> q_magic_ok q s;
     Q \<leftarrow> qs s q;
     Some (\<not> ok \<or> F_ISSET (q_flag Q) (QCLOSING OR QPROCSOFF)) }"

definition lis_getq :: "ptr \<Rightarrow> lis \<Rightarrow> (ptr \<times> lis) option" where
  "lis_getq q s =
     (if q = NULL then Some (NULL, s)
      else do {
        shut \<leftarrow> q_shut q s;
        if shut then Some (NULL, s)
        else do {
          Q \<leftarrow> qs s q;
          (rtn, s) \<leftarrow> rmv_msg q (q_first Q) s;
          s \<leftarrow> lis_backenable q s;
          Some (rtn, s) } })"

definition lis_putq :: "ptr \<Rightarrow> ptr \<Rightarrow> lis \<Rightarrow> (int \<times> lis) option" where
  "lis_putq q mp s =
     (if mp = NULL \<or> q = NULL then Some (0, s)
      else do {
        shut \<leftarrow> q_shut q s;
        if shut then do { s \<leftarrow> lis_freemsg mp s; Some (0, s) }
        else do {
          (before, s) \<leftarrow> find_q_spot_tail q mp s;
          s \<leftarrow> ins_before q before mp s;
          s \<leftarrow> updatequeue q mp False True s;
          Some (1, s) } })"

definition lis_putqf :: "ptr \<Rightarrow> ptr \<Rightarrow> lis \<Rightarrow> lis option" where
  "lis_putqf q mp s = do { (_, s) \<leftarrow> lis_putq q mp s; Some s }"

definition lis_putbq :: "ptr \<Rightarrow> ptr \<Rightarrow> lis \<Rightarrow> (int \<times> lis) option" where
  "lis_putbq q mp s =
     (if mp = NULL \<or> q = NULL then Some (0, s)
      else do {
        shut \<leftarrow> q_shut q s;
        if shut then Some (0, s)
        else do {
          (before, s) \<leftarrow> find_q_spot_head q mp s;
          s \<leftarrow> ins_before q before mp s;
          s \<leftarrow> updatequeue q mp False True s;
          Some (1, s) } })"

definition lis_putbqf :: "ptr \<Rightarrow> ptr \<Rightarrow> lis \<Rightarrow> lis option" where
  "lis_putbqf q mp s = do {
     (r, s) \<leftarrow> lis_putbq q mp s;
     if r = 0 then lis_freemsg mp s else Some s }"

text \<open>The test of \<open>lis_insq\<close> that refuses an insertion out of order.\<close>

definition insq_refused :: "ptr \<Rightarrow> ptr \<Rightarrow> lis \<Rightarrow> bool option" where
  "insq_refused emp mp s = do {
     m \<leftarrow> mb s mp;
     d \<leftarrow> db s (b_datap m);
     if db_type d < QPCTL \<and> emp \<noteq> NULL
     then do {
       e \<leftarrow> mb s emp;
       ed \<leftarrow> db s (b_datap e);
       if db_type ed \<ge> QPCTL \<or> b_band m < b_band e then Some True
       else if b_prev e \<noteq> NULL
       then do { p \<leftarrow> mb s (b_prev e); Some (b_band m > b_band p) }
       else Some False }
     else Some False }"

definition lis_insq :: "ptr \<Rightarrow> ptr \<Rightarrow> ptr \<Rightarrow> lis \<Rightarrow> (int \<times> lis) option" where
  "lis_insq q emp mp s =
     (if q = NULL \<or> mp = NULL then Some (0, s)
      else do {
        shut \<leftarrow> q_shut q s;
        if shut then Some (0, s)
        else do {
          refused \<leftarrow> insq_refused emp mp s;
          if refused then Some (0, LisUpFailCount MSGSQD s)
          else do {
            s \<leftarrow> ins_before q emp mp s;
            s \<leftarrow> updatequeue q mp True True s;
            Some (1, s) } } })"

definition lis_appq :: "ptr \<Rightarrow> ptr \<Rightarrow> ptr \<Rightarrow> lis \<Rightarrow> lis option" where
  "lis_appq q mp1 mp2 s =
     (if mp1 = NULL \<or> mp2 = NULL then Some s
      else do {
        ok \<leftarrow> q_magic_ok q s;
        if \<not> ok then lis_freemsg mp2 s
        else do {
          m1 \<leftarrow> mb s mp1;
          (r, s) \<leftarrow> lis_insq q (b_next m1) mp2 s;
          if r = 0 then lis_freemsg mp2 s else Some s } })"

partial_function (option) rmvq_find :: "ptr \<Rightarrow> ptr \<Rightarrow> lis \<Rightarrow> ptr option" where
  "rmvq_find bp mp s =
     (if bp = NULL \<or> bp = mp then Some bp
      else do { m \<leftarrow> mb s bp; rmvq_find (b_next m) mp s })"

definition lis_rmvq :: "ptr \<Rightarrow> ptr \<Rightarrow> lis \<Rightarrow> lis option" where
  "lis_rmvq q mp s =
     (if mp = NULL \<or> q = NULL then Some s
      else do {
        shut \<leftarrow> q_shut q s;
        if shut then Some s
        else do {
          Q \<leftarrow> qs s q;
          bp \<leftarrow> rmvq_find (q_first Q) mp s;
          if bp = NULL then Some s
          else do {
            (_, s) \<leftarrow> rmv_msg q bp s;
            lis_backenable q s } } })"

end
