(* ===== verification/LiS_Sched.thy ===== *)
theory LiS_Sched
  imports LiS_Queue
begin

text \<open>
  What scheduling and back-enabling may change: the scheduling flags and links of queues, the use
  counts of stream heads, the run list.  Everything a module can see of the queues' contents stays.
\<close>

unbundle bit_operations_syntax

text \<open>A queue without the flags and the link that scheduling works on.\<close>

definition SCHED_FLAGS :: u64 where
  "SCHED_FLAGS = QENAB OR QWANTENAB OR QWANTW OR QBACK"

definition qcore :: "queue \<Rightarrow> queue" where
  "qcore Q = Q\<lparr>q_link := NULL, q_flag := q_flag Q AND NOT SCHED_FLAGS\<rparr>"

definition sched_only :: "lis \<Rightarrow> lis \<Rightarrow> bool" where
  "sched_only s t \<longleftrightarrow> (\<exists>r d h l n c st ng. t = s\<lparr>qs := r, sds := d, qhead := h, qtail := l, runq_req_cnt := n,
     setqsched_calls := c, strstats := st, negstat := ng\<rparr>)"

definition sched_eq :: "lis \<Rightarrow> lis \<Rightarrow> bool" where
  "sched_eq s t \<longleftrightarrow> sched_only s t \<and> (\<forall>p. map_option qcore (qs t p) = map_option qcore (qs s p)) \<and>
     dom (sds t) = dom (sds s)"

lemma sched_only_refl [simp]: "sched_only s s"
proof -
  have "s = s\<lparr>qs := qs s, sds := sds s, qhead := qhead s, qtail := qtail s, runq_req_cnt := runq_req_cnt s,
     setqsched_calls := setqsched_calls s, strstats := strstats s, negstat := negstat s\<rparr>" by simp
  then show ?thesis unfolding sched_only_def by blast
qed

lemma sched_eq_refl [simp]: "sched_eq s s"
  by (simp add: sched_eq_def)

lemma sched_only_fields:
  assumes "sched_only s t"
  shows "mb t = mb s" "db t = db s" "qbands t = qbands s" "kmem t = kmem s" "mem t = mem s"
    "qsyncs t = qsyncs s" "bcs t = bcs s" "strbcflag t = strbcflag s" "scanqhead t = scanqhead s"
  using assms unfolding sched_only_def by auto

lemma sched_eq_only: "sched_eq s t \<Longrightarrow> sched_only s t"
  by (simp add: sched_eq_def)

lemmas sched_eq_fields = sched_only_fields[OF sched_eq_only]

lemma sched_only_trans: "sched_only s t \<Longrightarrow> sched_only t u \<Longrightarrow> sched_only s u"
  unfolding sched_only_def by fastforce

lemma sched_eq_trans: "sched_eq s t \<Longrightarrow> sched_eq t u \<Longrightarrow> sched_eq s u"
  unfolding sched_eq_def using sched_only_trans by metis

lemma sched_eq_queue:
  assumes "sched_eq s t" "qs s p = Some Q"
  obtains Q' where "qs t p = Some Q'" "qcore Q' = qcore Q"
proof -
  have "map_option qcore (qs t p) = Some (qcore Q)" using assms by (simp add: sched_eq_def)
  with that show ?thesis by (cases "qs t p") auto
qed

lemma qcore_sel [simp]:
  "q_first (qcore Q) = q_first Q" "q_last (qcore Q) = q_last Q" "q_next (qcore Q) = q_next Q"
  "q_count (qcore Q) = q_count Q" "q_hiwat (qcore Q) = q_hiwat Q" "q_lowat (qcore Q) = q_lowat Q"
  "q_bandp (qcore Q) = q_bandp Q" "q_other (qcore Q) = q_other Q" "q_str (qcore Q) = q_str Q"
  "q_magic (qcore Q) = q_magic Q" "q_qinfo (qcore Q) = q_qinfo Q"
  "q_defer_head (qcore Q) = q_defer_head Q" "q_defer_tail (qcore Q) = q_defer_tail Q"
  "q_qsp (qcore Q) = q_qsp Q" "q_scnxt (qcore Q) = q_scnxt Q"
  by (simp_all add: qcore_def)

lemma qcore_fields:
  assumes "qcore Q' = qcore Q"
  shows "q_first Q' = q_first Q" "q_last Q' = q_last Q" "q_next Q' = q_next Q" "q_count Q' = q_count Q"
    "q_hiwat Q' = q_hiwat Q" "q_lowat Q' = q_lowat Q" "q_bandp Q' = q_bandp Q" "q_other Q' = q_other Q"
    "q_str Q' = q_str Q" "q_magic Q' = q_magic Q" "q_qinfo Q' = q_qinfo Q" "q_defer_head Q' = q_defer_head Q"
    "q_defer_tail Q' = q_defer_tail Q" "q_qsp Q' = q_qsp Q" "q_scnxt Q' = q_scnxt Q"
  using arg_cong[OF assms, of q_first]
    arg_cong[OF assms, of q_last]
    arg_cong[OF assms, of q_next]
    arg_cong[OF assms, of q_count]
    arg_cong[OF assms, of q_hiwat]
    arg_cong[OF assms, of q_lowat]
    arg_cong[OF assms, of q_bandp]
    arg_cong[OF assms, of q_other]
    arg_cong[OF assms, of q_str]
    arg_cong[OF assms, of q_magic]
    arg_cong[OF assms, of q_qinfo]
    arg_cong[OF assms, of q_defer_head]
    arg_cong[OF assms, of q_defer_tail]
    arg_cong[OF assms, of q_qsp]
    arg_cong[OF assms, of q_scnxt]
  by simp_all

lemma qcore_flag:
  assumes "qcore Q' = qcore Q" "NOT SCHED_FLAGS AND v = v"
  shows "F_ISSET (q_flag Q') v = F_ISSET (q_flag Q) v"
proof -
  have "q_flag (qcore Q') = q_flag (qcore Q)" using assms(1) by simp
  then have "q_flag Q' AND NOT SCHED_FLAGS = q_flag Q AND NOT SCHED_FLAGS" by (simp add: qcore_def)
  then have "q_flag Q' AND (NOT SCHED_FLAGS AND v) = q_flag Q AND (NOT SCHED_FLAGS AND v)"
    by (simp only: and.assoc[symmetric])
  then show ?thesis by (simp add: F_ISSET_def assms(2))
qed

text \<open>The pointers that scheduling follows are good.\<close>

definition sched_ok :: "lis \<Rightarrow> bool" where
  "sched_ok s \<longleftrightarrow> (\<forall>p Q. qs s p = Some Q \<longrightarrow> q_str Q \<noteq> NULL \<longrightarrow> sds s (q_str Q) \<noteq> None) \<and>
     (qhead s \<noteq> NULL \<longrightarrow> qs s (qtail s) \<noteq> None)"

lemma qcore_upd_flag:
  "(f AND NOT SCHED_FLAGS) = (q_flag Q AND NOT SCHED_FLAGS) \<Longrightarrow> qcore (Q\<lparr>q_flag := f\<rparr>) = qcore Q"
  by (simp add: qcore_def)

lemma qcore_upd_link [simp]: "qcore (Q\<lparr>q_link := l\<rparr>) = qcore Q"
  by (simp add: qcore_def)

lemma sched_flag_or [simp]:
  "qcore (Q\<lparr>q_flag := q_flag Q OR QENAB\<rparr>) = qcore Q"
  "qcore (Q\<lparr>q_flag := q_flag Q OR QWANTENAB\<rparr>) = qcore Q"
  "qcore (Q\<lparr>q_flag := q_flag Q AND NOT QWANTENAB\<rparr>) = qcore Q"
  "qcore (Q\<lparr>q_flag := q_flag Q AND NOT (QWANTW OR QBACK)\<rparr>) = qcore Q"
  "qcore (Q\<lparr>q_flag := q_flag Q OR (QWANTW OR QBACK)\<rparr>) = qcore Q"
  by (rule qcore_upd_flag, simp add: SCHED_FLAGS_def q_flag_defs and.assoc bit.conj_disj_distrib2)+

lemma sched_eq_None: "sched_eq s t \<Longrightarrow> qs t p = None \<longleftrightarrow> qs s p = None"
  unfolding sched_eq_def by (metis option.map_disc_iff)

lemma sched_ok_eq:
  assumes "sched_ok s" "sched_eq s t" "qhead t \<noteq> NULL \<Longrightarrow> qs s (qtail t) \<noteq> None"
  shows "sched_ok t"
  unfolding sched_ok_def
proof (intro conjI allI impI)
  fix p Q assume Q: "qs t p = Some Q" "q_str Q \<noteq> NULL"
  then obtain Q0 where Q0: "qs s p = Some Q0" "qcore Q = qcore Q0"
    using assms(2) unfolding sched_eq_def by (metis map_option_eq_Some option.simps(9))
  then have "sds s (q_str Q) \<noteq> None"
    using assms(1) Q qcore_fields(9)[OF Q0(2)] unfolding sched_ok_def by metis
  then show "sds t (q_str Q) \<noteq> None" using assms(2) unfolding sched_eq_def by (metis domIff)
next
  assume "qhead t \<noteq> NULL"
  then show "qs t (qtail t) \<noteq> None" using assms(3) by (simp add: sched_eq_None[OF assms(2)])
qed

lemma upd_q_sched:
  assumes "qs s q = Some Q" "qcore (f Q) = qcore Q"
  shows "\<exists>t. upd_q q f s = Some t \<and> sched_eq s t \<and> qs t = (qs s)(q \<mapsto> f Q) \<and> qhead t = qhead s \<and> qtail t = qtail s \<and>
    sds t = sds s"
proof -
  have "sched_only s (s\<lparr>qs := (qs s)(q \<mapsto> f Q)\<rparr>)"
  proof -
    have "s\<lparr>qs := (qs s)(q \<mapsto> f Q)\<rparr> = s\<lparr>qs := (qs s)(q \<mapsto> f Q), sds := sds s, qhead := qhead s, qtail := qtail s,
      runq_req_cnt := runq_req_cnt s, setqsched_calls := setqsched_calls s, strstats := strstats s,
      negstat := negstat s\<rparr>" by simp
    then show ?thesis unfolding sched_only_def by blast
  qed
  then show ?thesis using assms by (simp add: lis_simps sched_eq_def)
qed

lemma q_magic_ok_Some [lis_simps]:
  "qs s q = Some Q \<Longrightarrow> q \<noteq> NULL \<Longrightarrow> q_magic_ok q s = Some (q_magic Q = Q_MAGIC)"
  by (simp add: q_magic_ok_def)

lemma q_magic_ok_NULL [simp]: "q_magic_ok NULL s = Some False"
  by (simp add: q_magic_ok_def)

lemma qenable_hold_spec:
  assumes "hdp \<noteq> NULL \<Longrightarrow> sds s hdp \<noteq> None"
  shows "\<exists>d. qenable_hold q hdp s = Some (s\<lparr>sds := d\<rparr>) \<and> dom d = dom (sds s)"
proof (cases "hdp = NULL")
  case True
  then show ?thesis by (intro exI[of _ "sds s"]) (simp add: qenable_hold_def)
next
  case False
  then obtain h where h: "sds s hdp = Some h" using assms by blast
  show ?thesis
  proof (cases "sd_magic h = STDATA_MAGIC \<and> (sd_wq h = q \<or> sd_rq h = q)")
    case True
    then show ?thesis using False h
      by (intro exI[of _ "(sds s)(hdp \<mapsto> h\<lparr>sd_refcnt := sd_refcnt h + 1\<rparr>)"])
         (auto simp: qenable_hold_def lis_head_get_def lis_simps)
  next
    case nh: False
    then show ?thesis using False h by (intro exI[of _ "sds s"]) (auto simp: qenable_hold_def)
  qed
qed

lemma LisUpCount_ex: "\<exists>X Y. LisUpCount i u = u\<lparr>strstats := X, negstat := Y\<rparr>"
  by (metis stats_set_eq(2) stats_set_def)

lemma sched_only_enabled:
  "sched_only s (lis_setqsched (LisUpCount i (s\<lparr>sds := d, qs := r, qhead := h, qtail := l, runq_req_cnt := n\<rparr>)))"
    (is "sched_only s (lis_setqsched (LisUpCount i ?u))")
proof -
  obtain X Y where u: "LisUpCount i ?u = ?u\<lparr>strstats := X, negstat := Y\<rparr>"
    using LisUpCount_ex by blast
  have "lis_setqsched (LisUpCount i ?u) = s\<lparr>qs := r, sds := d, qhead := h, qtail := l, runq_req_cnt := n,
     setqsched_calls := setqsched_calls s + 1, strstats := X, negstat := Y\<rparr>"
    unfolding u by (simp add: lis_setqsched_def)
  then show ?thesis unfolding sched_only_def by blast
qed

text \<open>The three outcomes of \<open>lis_qenable\<close>: the queue has nothing to run, its scheduling is inhibited,
  or it is linked to the end of the run list.\<close>

definition can_run :: "queue \<Rightarrow> bool" where
  "can_run Q \<longleftrightarrow> q_magic Q = Q_MAGIC \<and> has_srvp Q"

lemma can_runE:
  assumes "can_run Q"
  obtains qi where "q_magic Q = Q_MAGIC" "q_qinfo Q = Some qi" "qi_srvp qi \<noteq> 0"
  using assms by (auto simp: can_run_def has_srvp_def split: option.splits)

lemma lis_qenable_idle:
  assumes "qs s q = Some Q" "q \<noteq> NULL" "\<not> can_run Q"
  shows "lis_qenable q s = Some s"
  using assms by (auto simp: lis_qenable_def q_magic_ok_Some can_run_def has_srvp_def split: option.splits)

lemma lis_qenable_inhibited:
  assumes Q: "qs s q = Some Q" "q \<noteq> NULL" "can_run Q" and inh: "F_ISSET (q_flag Q) Q_INH_ENABLE"
  shows "lis_qenable q s =
    (if F_ISSET (q_flag Q) Q_DEFER_ENABLE then upd_q q (\<lambda>Q. Q\<lparr>q_flag := q_flag Q OR QWANTENAB\<rparr>) s else Some s)"
  using Q(3) by (rule can_runE) (simp add: lis_qenable_def q_magic_ok_Some Q(1,2) inh)

text \<open>The queues after \<open>q\<close> was linked to the end of the run list.\<close>

definition linked_qs :: "lis \<Rightarrow> ptr \<Rightarrow> queue \<Rightarrow> ptr \<Rightarrow> queue option" where
  "linked_qs s q Q =
     (let r = (qs s)(q \<mapsto> Q\<lparr>q_flag := q_flag Q OR QENAB, q_link := NULL\<rparr>)
      in if qhead s = NULL then r else r(qtail s := map_option (\<lambda>T. T\<lparr>q_link := q\<rparr>) (r (qtail s))))"

lemma lis_qenable_go:
  assumes ok: "sched_ok s" and Q: "qs s q = Some Q" "q \<noteq> NULL" "can_run Q"
    and go: "\<not> F_ISSET (q_flag Q) Q_INH_ENABLE"
  shows "\<exists>t. lis_qenable q s = Some t \<and> sched_only s t \<and> qs t = linked_qs s q Q \<and> dom (sds t) = dom (sds s) \<and>
    qhead t = (if qhead s = NULL then q else qhead s) \<and> qtail t = q \<and> runq_req_cnt t = runq_req_cnt s + 1"
proof -
  obtain qi where qi: "q_magic Q = Q_MAGIC" "q_qinfo Q = Some qi" "qi_srvp qi \<noteq> 0"
    using Q(3) by (rule can_runE)
  let ?Q = "Q\<lparr>q_flag := q_flag Q OR QENAB\<rparr>"
  let ?s1 = "s\<lparr>qs := (qs s)(q \<mapsto> ?Q)\<rparr>"
  obtain d where d: "qenable_hold q (q_str Q) ?s1 = Some (?s1\<lparr>sds := d\<rparr>)" "dom d = dom (sds s)"
    using qenable_hold_spec[of "q_str Q" ?s1 q] ok Q(1) by (auto simp: sched_ok_def)
  define t where "t = lis_setqsched (LisUpCount QSCHEDS (s\<lparr>sds := d, qs := linked_qs s q Q,
    qhead := (if qhead s = NULL then q else qhead s), qtail := q, runq_req_cnt := runq_req_cnt s + 1\<rparr>))"
  have "lis_qenable q s = Some t"
  proof (cases "qhead s = NULL")
    case True
    then show ?thesis using Q qi go d
      by (simp add: lis_qenable_def lis_simps t_def linked_qs_def)
  next
    case False
    then obtain T where "((qs s)(q \<mapsto> Q\<lparr>q_flag := q_flag Q OR QENAB, q_link := NULL\<rparr>)) (qtail s) = Some T"
      using ok by (cases "qtail s = q") (auto simp: sched_ok_def)
    with False show ?thesis using Q qi go d
      by (simp add: lis_qenable_def lis_simps t_def linked_qs_def Let_def del: fun_upd_apply) (simp add: lis_simps)
  qed
  moreover have "sched_only s t" unfolding t_def by (rule sched_only_enabled)
  ultimately show ?thesis
    by (intro exI[of _ t])
       (simp add: t_def lis_setqsched_def LisUpCount_def LisUpCounter_def Let_def d(2))
qed

text \<open>\<open>lis_qenable\<close> always returns, and changes nothing but the scheduling.\<close>

lemma lis_qenable_spec:
  assumes ok: "sched_ok s" and Q: "qs s q = Some Q" "q \<noteq> NULL"
  shows "\<exists>t. lis_qenable q s = Some t \<and> sched_eq s t \<and> sched_ok t"
proof (cases "can_run Q")
  case False
  with ok Q show ?thesis by (simp add: lis_qenable_idle)
next
  case run: True
  show ?thesis
  proof (cases "F_ISSET (q_flag Q) Q_INH_ENABLE")
    case inh: True
    obtain t where t: "upd_q q (\<lambda>Q. Q\<lparr>q_flag := q_flag Q OR QWANTENAB\<rparr>) s = Some t" "sched_eq s t"
      "qs t = (qs s)(q \<mapsto> Q\<lparr>q_flag := q_flag Q OR QWANTENAB\<rparr>)" "qhead t = qhead s" "qtail t = qtail s"
      using upd_q_sched[OF Q(1), of "\<lambda>Q. Q\<lparr>q_flag := q_flag Q OR QWANTENAB\<rparr>"] by auto
    have "sched_ok t" by (rule sched_ok_eq[OF ok t(2)]) (use ok t(4,5) in \<open>simp add: sched_ok_def\<close>)
    with t ok show ?thesis by (auto simp: lis_qenable_inhibited[OF Q run inh])
  next
    case go: False
    obtain t where t: "lis_qenable q s = Some t" "sched_only s t" "qs t = linked_qs s q Q"
      "dom (sds t) = dom (sds s)" "qtail t = q"
      using lis_qenable_go[OF ok Q run go] by blast
    have "map_option qcore (linked_qs s q Q p) = map_option qcore (qs s p)" for p
      using Q(1) by (cases "p = q"; cases "q = qtail s") (auto simp: linked_qs_def Let_def option.map_comp comp_def)
    with t have eq: "sched_eq s t" by (simp add: sched_eq_def)
    have "sched_ok t" by (rule sched_ok_eq[OF ok eq]) (use Q t(5) in simp)
    with t eq show ?thesis by blast
  qed
qed

subsection \<open>Back-enabling\<close>

text \<open>The queues behind \<open>q\<close> in its stream, as \<open>lis_backq\<close> finds them.\<close>

fun backpath :: "lis \<Rightarrow> ptr \<Rightarrow> ptr list \<Rightarrow> bool" where
  "backpath s q [] \<longleftrightarrow> lis_backq q s = Some NULL"
| "backpath s q (p # ps) \<longleftrightarrow> lis_backq q s = Some p \<and> p \<noteq> NULL \<and> qs s p \<noteq> None \<and> backpath s p ps"

text \<open>The links of the stream and the flags that close a queue: what the walk along the stream depends on.\<close>

definition SHUT_FLAGS :: u64 where
  "SHUT_FLAGS = QCLOSING OR QPROCSOFF"

definition q_route :: "queue \<Rightarrow> u64 \<times> ptr \<times> ptr \<times> u64" where
  "q_route Q = (q_magic Q, q_other Q, q_next Q, q_flag Q AND SHUT_FLAGS)"

definition route_eq :: "lis \<Rightarrow> lis \<Rightarrow> bool" where
  "route_eq s t \<longleftrightarrow> (\<forall>p. map_option q_route (qs t p) = map_option q_route (qs s p))"

lemma sched_eq_route: "sched_eq s t \<Longrightarrow> route_eq s t"
  unfolding route_eq_def
proof
  fix p assume eq: "sched_eq s t"
  show "map_option q_route (qs t p) = map_option q_route (qs s p)"
  proof (cases "qs s p")
    case None
    with eq show ?thesis by (simp add: sched_eq_None)
  next
    case (Some Q)
    then obtain Q' where Q': "qs t p = Some Q'" "qcore Q' = qcore Q" by (rule sched_eq_queue[OF eq])
    have "q_flag (qcore Q') AND SHUT_FLAGS = q_flag (qcore Q) AND SHUT_FLAGS" using Q'(2) by simp
    moreover have "NOT SCHED_FLAGS AND SHUT_FLAGS = SHUT_FLAGS"
      by (simp add: SCHED_FLAGS_def SHUT_FLAGS_def q_flag_defs)
    ultimately have fl: "q_flag Q' AND SHUT_FLAGS = q_flag Q AND SHUT_FLAGS"
      by (simp add: qcore_def and.assoc)
    have "q_route Q' = q_route Q"
      unfolding q_route_def qcore_fields(3)[OF Q'(2)] qcore_fields(8)[OF Q'(2)] qcore_fields(10)[OF Q'(2)] fl ..
    with Some Q'(1) show ?thesis by simp
  qed
qed

lemma route_eq_trans: "route_eq s t \<Longrightarrow> route_eq t u \<Longrightarrow> route_eq s u"
  by (simp add: route_eq_def)

lemma route_eq_upd: "qs s q = Some Q \<Longrightarrow> q_route Q' = q_route Q \<Longrightarrow> qs t = (qs s)(q \<mapsto> Q') \<Longrightarrow> route_eq s t"
  by (simp add: route_eq_def)

lemma route_eq_None: "route_eq s t \<Longrightarrow> qs t p = None \<longleftrightarrow> qs s p = None"
  unfolding route_eq_def by (metis option.map_disc_iff)

lemma route_eq_sel:
  assumes "route_eq s t"
  shows "map_option q_magic (qs t p) = map_option q_magic (qs s p)"
    "map_option q_other (qs t p) = map_option q_other (qs s p)"
    "map_option q_next (qs t p) = map_option q_next (qs s p)"
    "map_option (\<lambda>Q. q_flag Q AND SHUT_FLAGS) (qs t p) = map_option (\<lambda>Q. q_flag Q AND SHUT_FLAGS) (qs s p)"
proof -
  have *: "map_option f (map_option q_route (qs t p)) = map_option f (map_option q_route (qs s p))" for f :: "_ \<Rightarrow> 'x"
    using assms unfolding route_eq_def by metis
  show "map_option q_magic (qs t p) = map_option q_magic (qs s p)"
    using *[of fst] by (simp add: option.map_comp comp_def q_route_def)
  show "map_option q_other (qs t p) = map_option q_other (qs s p)"
    using *[of "fst \<circ> snd"] by (simp add: option.map_comp comp_def q_route_def)
  show "map_option q_next (qs t p) = map_option q_next (qs s p)"
    using *[of "fst \<circ> snd \<circ> snd"] by (simp add: option.map_comp comp_def q_route_def)
  show "map_option (\<lambda>Q. q_flag Q AND SHUT_FLAGS) (qs t p) = map_option (\<lambda>Q. q_flag Q AND SHUT_FLAGS) (qs s p)"
    using *[of "snd \<circ> snd \<circ> snd"] by (simp add: option.map_comp comp_def q_route_def)
qed

lemma route_eq_magic: "route_eq s t \<Longrightarrow> q_magic_ok q t = q_magic_ok q s"
  using route_eq_sel(1)[of s t q] by (cases "qs t q"; cases "qs s q") (auto simp: q_magic_ok_def)

lemma map_option_bind: "Option.bind (map_option f h) g = Option.bind h (\<lambda>Q. g (f Q))"
  by (cases h) simp_all

lemma route_eq_OTHERQ:
  assumes "route_eq s t"
  shows "lis_safe_OTHERQ q t = lis_safe_OTHERQ q s"
proof -
  have unf: "lis_safe_OTHERQ q u = do {
      ok \<leftarrow> q_magic_ok q u;
      if ok then do { oq \<leftarrow> map_option q_other (qs u q); ok \<leftarrow> q_magic_ok oq u; Some (if ok then oq else NULL) }
      else Some NULL }" for u
    unfolding lis_safe_OTHERQ_def map_option_bind ..
  show ?thesis unfolding unf route_eq_magic[OF assms] route_eq_sel(2)[OF assms] ..
qed

lemma route_eq_backq:
  assumes "route_eq s t"
  shows "lis_backq q t = lis_backq q s"
proof -
  have unf: "lis_backq q u = do {
      ok \<leftarrow> q_magic_ok q u;
      if \<not> ok then Some NULL
      else do {
        oq \<leftarrow> lis_safe_OTHERQ q u;
        if oq = NULL then Some NULL
        else do {
          nq \<leftarrow> map_option q_next (qs u oq);
          if nq = NULL then Some NULL else if nq = q then Some oq else lis_safe_OTHERQ nq u } } }" for u
    unfolding lis_backq_def map_option_bind ..
  show ?thesis unfolding unf route_eq_magic[OF assms] route_eq_OTHERQ[OF assms] route_eq_sel(3)[OF assms] ..
qed

lemma route_eq_backpath: "route_eq s t \<Longrightarrow> backpath t q ps = backpath s q ps"
  by (induction ps arbitrary: q) (auto simp: route_eq_backq route_eq_None)

lemma route_eq_shut:
  assumes "route_eq s t"
  shows "q_shut q t = q_shut q s"
proof -
  have unf: "q_shut q u = do {
      ok \<leftarrow> q_magic_ok q u;
      f \<leftarrow> map_option (\<lambda>Q. q_flag Q AND SHUT_FLAGS) (qs u q);
      Some (\<not> ok \<or> f \<noteq> 0) }" for u
    unfolding q_shut_def map_option_bind F_ISSET_def SHUT_FLAGS_def ..
  show ?thesis unfolding unf route_eq_magic[OF assms] route_eq_sel(4)[OF assms] ..
qed

lemmas sched_eq_backpath = route_eq_backpath[OF sched_eq_route]

lemma lis_safe_canenable_Some:
  "qs s q = Some Q \<Longrightarrow> q \<noteq> NULL \<Longrightarrow>
     lis_safe_canenable q s = Some (q_magic Q = Q_MAGIC \<and> \<not> F_ISSET (q_flag Q) QNOENB)"
  by (simp add: lis_safe_canenable_def q_magic_ok_Some)

lemma backenable_loop_spec:
  "backpath s q ps \<Longrightarrow> sched_ok s \<Longrightarrow> \<exists>t. backenable_loop q s = Some t \<and> sched_eq s t \<and> sched_ok t"
proof (induction ps arbitrary: q s)
  case Nil
  then show ?case by (simp add: backenable_loop.simps)
next
  case (Cons p ps)
  then obtain P where P: "lis_backq q s = Some p" "p \<noteq> NULL" "qs s p = Some P" "backpath s p ps" by auto
  obtain t where t: "lis_qenable p s = Some t" "sched_eq s t" "sched_ok t"
    using lis_qenable_spec[OF Cons.prems(2) P(3,2)] by blast
  obtain P' where P': "qs t p = Some P'" by (rule sched_eq_queue[OF t(2) P(3)])
  have 1: "\<exists>u. backenable_loop p s = Some u \<and> sched_eq s u \<and> sched_ok u"
    using Cons.IH[OF P(4) Cons.prems(2)] .
  have "backpath t p ps" using P(4) t(2) by (simp add: sched_eq_backpath)
  from Cons.IH[OF this t(3)] obtain u where u: "backenable_loop p t = Some u" "sched_eq t u" "sched_ok u" by blast
  have 2: "sched_eq s u" by (rule sched_eq_trans[OF t(2) u(2)])
  show ?case
    using P t P' u 1 2 Cons.prems(2)
    by (subst backenable_loop.simps) (auto simp: q_magic_ok_Some lis_safe_canenable_Some)
qed

lemma lis_backenable_spec:
  assumes "backpath s q ps" "sched_ok s" "qs s q = Some Q"
  shows "\<exists>t. lis_backenable q s = Some t \<and> sched_eq s t \<and> sched_ok t"
proof -
  let ?f = "\<lambda>Q. Q\<lparr>q_flag := q_flag Q AND NOT (QWANTW OR QBACK)\<rparr>"
  obtain t where t: "upd_q q ?f s = Some t" "sched_eq s t" "qs t = (qs s)(q \<mapsto> ?f Q)" "qhead t = qhead s" "qtail t = qtail s"
    using upd_q_sched[OF assms(3), of ?f, OF sched_flag_or(4)] by blast
  have ok: "sched_ok t" by (rule sched_ok_eq[OF assms(2) t(2)]) (use assms(2) t(4,5) in \<open>simp add: sched_ok_def\<close>)
  have "backpath t q ps" using assms(1) t(2) by (simp add: sched_eq_backpath)
  from backenable_loop_spec[OF this ok] obtain u where
    u: "backenable_loop q t = Some u" "sched_eq t u" "sched_ok u" by blast
  have "sched_eq s u" by (rule sched_eq_trans[OF t(2) u(2)])
  with t(1) u assms(2,3) show ?thesis unfolding lis_backenable_def by simp
qed

end
