(* ===== verification/LiS_QueueAbs.thy ===== *)
theory LiS_QueueAbs
  imports LiS_Queue LiS_Chain
begin

text \<open>
  A queue as the list of its messages.  A message's key is 256 for a high-priority message and its
  band otherwise; the list is ordered by descending key, and the place that \<open>putq\<close> and \<open>putbq\<close>
  find for a message is after, or before, the messages of its own key.
\<close>

unbundle bit_operations_syntax

subsection \<open>Views of a message\<close>

definition mlink :: "lis \<Rightarrow> ptr \<Rightarrow> (ptr \<times> ptr) option" where
  "mlink s p = map_option (\<lambda>m. (b_next m, b_prev m)) (mb s p)"

definition mband :: "lis \<Rightarrow> ptr \<Rightarrow> u8" where
  "mband s p = (case mb s p of None \<Rightarrow> 0 | Some m \<Rightarrow> b_band m)"

definition hipri :: "lis \<Rightarrow> ptr \<Rightarrow> bool" where
  "hipri s p \<longleftrightarrow> lis_hipri (blk_type s p)"

definition qkey :: "lis \<Rightarrow> ptr \<Rightarrow> nat" where
  "qkey s x = (if hipri s x then 256 else unat (mband s x))"

definition msg_ok :: "lis \<Rightarrow> ptr \<Rightarrow> bool" where
  "msg_ok s x \<longleftrightarrow> x \<noteq> NULL \<and> (\<exists>cs. mchain s x cs)"

text \<open>The number of bytes by which a message is accounted.\<close>

definition msize :: "lis \<Rightarrow> ptr \<Rightarrow> u64" where
  "msize s x = (case lis_msgsize x s of None \<Rightarrow> 0 | Some n \<Rightarrow> word_of_int n)"

lemma qkey_le: "qkey s x \<le> 256"
  using unat_u8_less[of "mband s x"] by (simp add: qkey_def)

lemma qkey_hipri: "qkey s x = 256 \<longleftrightarrow> hipri s x"
  using unat_u8_less[of "mband s x"] by (auto simp: qkey_def)

lemma msg_okE:
  assumes "msg_ok s x"
  obtains m d where "x \<noteq> NULL" "mb s x = Some m" "db s (b_datap m) = Some d"
    "blk_type s x = db_type d" "mband s x = b_band m" "hipri s x = (db_type d \<ge> QPCTL)"
proof -
  from assms obtain cs where "mchain s x cs" "x \<noteq> NULL" by (auto simp: msg_ok_def)
  then obtain m d where "mb s x = Some m" "db s (b_datap m) = Some d"
    by (cases cs) (auto simp: mchain_Cons)
  with \<open>x \<noteq> NULL\<close> that show ?thesis
    by (simp add: blk_type_def blk_db_Some mband_def hipri_def lis_hipri_def)
qed

lemma msg_ok_size: "msg_ok s x \<Longrightarrow> \<exists>n. lis_msgsize x s = Some n \<and> msize s x = word_of_int n"
  by (auto simp: msg_ok_def msize_def lis_msgsize_chain)

text \<open>States whose messages differ at most in the queue links.\<close>

definition mbody :: "mblk \<Rightarrow> mblk" where
  "mbody m = m\<lparr>b_next := NULL, b_prev := NULL\<rparr>"

definition body_eq :: "lis \<Rightarrow> lis \<Rightarrow> bool" where
  "body_eq s t \<longleftrightarrow> db t = db s \<and> (\<forall>x. map_option mbody (mb t x) = map_option mbody (mb s x))"

lemma body_eq_refl [simp]: "body_eq s s"
  by (simp add: body_eq_def)

lemma body_eq_trans: "body_eq s t \<Longrightarrow> body_eq t u \<Longrightarrow> body_eq s u"
  by (simp add: body_eq_def)

lemma mbody_sel [simp]:
  "b_cont (mbody m) = b_cont m" "b_datap (mbody m) = b_datap m" "b_band (mbody m) = b_band m"
  "b_rptr (mbody m) = b_rptr m" "b_wptr (mbody m) = b_wptr m" "b_flag (mbody m) = b_flag m"
  by (simp_all add: mbody_def)

lemma mbody_upd [simp]:
  "mbody (m\<lparr>b_next := n\<rparr>) = mbody m" "mbody (m\<lparr>b_prev := n\<rparr>) = mbody m"
  by (simp_all add: mbody_def)

lemma body_eq_cases:
  assumes "body_eq s t"
  obtains "mb s x = None" "mb t x = None"
    | m m' where "mb s x = Some m" "mb t x = Some m'" "mbody m' = mbody m"
  using assms by (cases "mb s x"; cases "mb t x") (auto simp: body_eq_def dest: spec[of _ x])

lemma body_eq_fields:
  assumes "body_eq s t"
  shows "mcont t = mcont s" "blk_db t = blk_db s" "mband t = mband s"
    "blk_type t = blk_type s" "hipri t = hipri s" "qkey t = qkey s" "buf_len t = buf_len s"
proof -
  have d: "db t = db s" using assms by (simp add: body_eq_def)
  have *: "mcont t x = mcont s x \<and> blk_db t x = blk_db s x \<and> mband t x = mband s x" for x
    by (rule body_eq_cases[OF assms, of x])
       (auto simp: mcont_def blk_db_def mband_def d, (metis mbody_sel)+)
  then show 1: "mcont t = mcont s" "blk_db t = blk_db s" "mband t = mband s" by auto
  from 1(2) show 2: "blk_type t = blk_type s" "buf_len t = buf_len s"
    by (auto simp: blk_type_def buf_len_def)
  then show 3: "hipri t = hipri s" by (auto simp: hipri_def)
  with 1(3) show "qkey t = qkey s" by (auto simp: qkey_def)
qed

lemma body_eq_mchain: "body_eq s t \<Longrightarrow> mchain t x cs = mchain s x cs"
  unfolding mchain_def by (simp add: body_eq_fields cong: sseg_cong)

lemma body_eq_msg_ok: "body_eq s t \<Longrightarrow> msg_ok t x = msg_ok s x"
  by (simp add: msg_ok_def body_eq_mchain)

lemma body_eq_msgsize:
  assumes "body_eq s t" "msg_ok s x"
  shows "lis_msgsize x t = lis_msgsize x s"
proof -
  obtain cs where "mchain s x cs" using assms(2) by (auto simp: msg_ok_def)
  moreover then have "mchain t x cs" using assms(1) by (simp add: body_eq_mchain)
  ultimately show ?thesis
    using assms(1) by (simp add: lis_msgsize_chain c_sum_def body_eq_fields)
qed

lemma body_eq_msize: "body_eq s t \<Longrightarrow> msg_ok s x \<Longrightarrow> msize t x = msize s x"
  by (simp add: msize_def body_eq_msgsize)

lemma body_eq_upd:
  "mb s p = Some m \<Longrightarrow> mbody m' = mbody m \<Longrightarrow> body_eq s (s\<lparr>mb := (mb s)(p \<mapsto> m')\<rparr>)"
  by (simp add: body_eq_def)

subsection \<open>The queue as a list\<close>

definition qlist :: "lis \<Rightarrow> queue \<Rightarrow> ptr list \<Rightarrow> bool" where
  "qlist s Q xs \<longleftrightarrow> dl (mlink s) NULL (q_first Q) xs (q_last Q) NULL \<and> (\<forall>x\<in>set xs. msg_ok s x)"

definition desc :: "lis \<Rightarrow> ptr list \<Rightarrow> bool" where
  "desc s xs \<longleftrightarrow> sorted_wrt (\<lambda>x y. qkey s y \<le> qkey s x) xs"

lemma body_eq_desc: "body_eq s t \<Longrightarrow> desc t xs = desc s xs"
  by (simp add: desc_def body_eq_fields)

lemma qlist_distinct: "qlist s Q xs \<Longrightarrow> distinct xs"
  by (auto simp: qlist_def dest: dl_distinct)

lemma qlist_first: "qlist s Q xs \<Longrightarrow> q_first Q = hd0 xs"
  by (cases xs) (auto simp: qlist_def)

lemma qlist_nonnull: "qlist s Q xs \<Longrightarrow> NULL \<notin> set xs"
  by (auto simp: qlist_def msg_ok_def)

lemma qlist_last: "qlist s Q xs \<Longrightarrow> xs \<noteq> [] \<Longrightarrow> q_last Q = last xs"
  by (auto simp: qlist_def dest: dl_last)

text \<open>A suffix of a doubly linked list, reached from its first element.\<close>

lemma dl_suffix:
  "dl L pv p (as @ bs) lst NULL \<Longrightarrow> \<exists>pv'. dl L pv' (hd0 bs) bs lst NULL"
  by (cases bs) (auto simp: dl_append)

subsection \<open>The scans for a place\<close>

lemma mlinkD: "mlink s x = Some (n, pv) \<Longrightarrow> \<exists>m. mb s x = Some m \<and> b_next m = n \<and> b_prev m = pv"
  by (auto simp: mlink_def)

lemma skip_hipri_dl:
  "dl (mlink s) pv p ys lst NULL \<Longrightarrow> \<forall>y\<in>set ys. msg_ok s y \<Longrightarrow>
     skip_hipri p s = Some (hd0 (dropWhile (hipri s) ys))"
proof (induction ys arbitrary: pv p)
  case Nil
  then show ?case by (simp add: skip_hipri.simps)
next
  case (Cons y ys)
  then obtain n where n: "p = y" "y \<noteq> NULL" "mlink s y = Some (n, pv)" "dl (mlink s) y n ys lst NULL" by auto
  obtain m d where m: "mb s y = Some m" "db s (b_datap m) = Some d" "hipri s y = (db_type d \<ge> QPCTL)"
    using Cons.prems(2) by (auto elim: msg_okE)
  have "b_next m = n" using n m by (auto dest: mlinkD)
  then show ?case
    using n m Cons.IH[OF n(4)] Cons.prems(2) by (simp add: skip_hipri.simps[of y])
qed

lemma skip_above_dl:
  "dl (mlink s) pv p ys lst NULL \<Longrightarrow> skip_above p c s = Some (hd0 (dropWhile (\<lambda>y. mband s y > c) ys))"
proof (induction ys arbitrary: pv p)
  case Nil
  then show ?case by (simp add: skip_above.simps)
next
  case (Cons y ys)
  then obtain n where n: "p = y" "y \<noteq> NULL" "mlink s y = Some (n, pv)" "dl (mlink s) y n ys lst NULL" by auto
  then obtain m where "mb s y = Some m" "b_next m = n" by (auto dest: mlinkD)
  then show ?case using n Cons.IH[OF n(4)] by (simp add: skip_above.simps[of y] mband_def)
qed

lemma skip_from_dl:
  "dl (mlink s) pv p ys lst NULL \<Longrightarrow> skip_from p c s = Some (hd0 (dropWhile (\<lambda>y. mband s y \<ge> c) ys))"
proof (induction ys arbitrary: pv p)
  case Nil
  then show ?case by (simp add: skip_from.simps)
next
  case (Cons y ys)
  then obtain n where n: "p = y" "y \<noteq> NULL" "mlink s y = Some (n, pv)" "dl (mlink s) y n ys lst NULL" by auto
  then obtain m where "mb s y = Some m" "b_next m = n" by (auto dest: mlinkD)
  then show ?case using n Cons.IH[OF n(4)] by (simp add: skip_from.simps[of y] mband_def)
qed

text \<open>On an ordered list the two scans together find the place given by the keys.\<close>

lemma desc_drop_normal:
  assumes "desc s xs"
  shows "dropWhile (\<lambda>y. mband s y \<ge> c) (dropWhile (hipri s) xs) = dropWhile (\<lambda>y. unat c \<le> qkey s y) xs"
    and "dropWhile (\<lambda>y. mband s y > c) (dropWhile (hipri s) xs) = dropWhile (\<lambda>y. unat c < qkey s y) xs"
proof -
  have c: "unat c < 256" using unat_u8_less[of c] by simp
  have rest: "\<not> hipri s x \<Longrightarrow> desc s (x # ys) \<Longrightarrow> \<forall>y\<in>set (x # ys). qkey s y = unat (mband s y)" for x ys
    using unat_u8_less[of "mband s x"] by (force simp: desc_def qkey_def split: if_splits)
  have eq: "dropWhile (\<lambda>y. mband s y \<ge> c) zs = dropWhile (\<lambda>y. unat c \<le> qkey s y) zs"
    "dropWhile (\<lambda>y. mband s y > c) zs = dropWhile (\<lambda>y. unat c < qkey s y) zs"
    if "\<forall>y\<in>set zs. qkey s y = unat (mband s y)" for zs
    using that by (auto intro!: dropWhile_cong simp: word_le_nat_alt word_less_nat_alt)
  from assms show "dropWhile (\<lambda>y. mband s y \<ge> c) (dropWhile (hipri s) xs) = dropWhile (\<lambda>y. unat c \<le> qkey s y) xs"
  proof (induction xs)
    case (Cons x xs)
    show ?case
    proof (cases "hipri s x")
      case True
      then have "qkey s x = 256" by (simp add: qkey_def)
      with True Cons c show ?thesis by (simp add: desc_def)
    next
      case False
      then show ?thesis using eq(1)[OF rest[OF False Cons.prems]] by (simp del: dropWhile.simps(2) add: dropWhile.simps(2)[of "hipri s"])
    qed
  qed simp
  from assms show "dropWhile (\<lambda>y. mband s y > c) (dropWhile (hipri s) xs) = dropWhile (\<lambda>y. unat c < qkey s y) xs"
  proof (induction xs)
    case (Cons x xs)
    show ?case
    proof (cases "hipri s x")
      case True
      then have "qkey s x = 256" by (simp add: qkey_def)
      with True Cons c show ?thesis by (simp add: desc_def)
    next
      case False
      then show ?thesis using eq(2)[OF rest[OF False Cons.prems]] by (simp del: dropWhile.simps(2) add: dropWhile.simps(2)[of "hipri s"])
    qed
  qed simp
qed

lemma desc_drop_hipri:
  "dropWhile (hipri s) xs = dropWhile (\<lambda>y. 256 \<le> qkey s y) xs"
proof (rule dropWhile_cong)
  show "hipri s x = (256 \<le> qkey s x)" for x
    using qkey_le[of s x] qkey_hipri[of s x] by auto
qed simp

end
