(* ===== verification/LiS_QueuePlace.thy ===== *)
theory LiS_QueuePlace
  imports LiS_QueueAbs
begin

text \<open>
  What \<open>find_q_spot_tail\<close>, \<open>find_q_spot_head\<close>, \<open>ins_before\<close> and the unlinking of \<open>rmv_msg\<close> do to the
  list of messages.
\<close>

unbundle bit_operations_syntax

text \<open>Insertion after, and before, the messages of the same key.\<close>

definition ins_after :: "(ptr \<Rightarrow> nat) \<Rightarrow> ptr \<Rightarrow> ptr list \<Rightarrow> ptr list" where
  "ins_after k x xs = takeWhile (\<lambda>y. k x \<le> k y) xs @ x # dropWhile (\<lambda>y. k x \<le> k y) xs"

definition ins_first :: "(ptr \<Rightarrow> nat) \<Rightarrow> ptr \<Rightarrow> ptr list \<Rightarrow> ptr list" where
  "ins_first k x xs = takeWhile (\<lambda>y. k x < k y) xs @ x # dropWhile (\<lambda>y. k x < k y) xs"

subsection \<open>The place found\<close>

text \<open>The state with the band of a high-priority message cleared.\<close>

definition banded :: "lis \<Rightarrow> ptr \<Rightarrow> lis \<Rightarrow> bool" where
  "banded s mp t \<longleftrightarrow> t = s \<or>
     (\<exists>m. hipri s mp \<and> mb s mp = Some m \<and> t = s\<lparr>mb := (mb s)(mp \<mapsto> m\<lparr>b_band := 0\<rparr>)\<rparr>)"

lemma banded_fields:
  assumes "banded s mp t"
  shows "db t = db s" "qs t = qs s" "mlink t = mlink s" "mcont t = mcont s" "blk_db t = blk_db s"
    "blk_type t = blk_type s" "hipri t = hipri s" "buf_len t = buf_len s" "qkey t = qkey s"
    "x \<noteq> mp \<Longrightarrow> mb t x = mb s x" "x \<noteq> mp \<Longrightarrow> mband t x = mband s x"
    "qbands t = qbands s" "kmem t = kmem s"
proof -
  show d: "db t = db s" "qs t = qs s" "qbands t = qbands s" "kmem t = kmem s"
    "x \<noteq> mp \<Longrightarrow> mb t x = mb s x" using assms by (auto simp: banded_def)
  show "mlink t = mlink s" "mcont t = mcont s" and 1: "blk_db t = blk_db s"
    using assms by (auto simp: banded_def mlink_def mcont_def blk_db_def)
  from 1 show 2: "blk_type t = blk_type s" "buf_len t = buf_len s" by (auto simp: blk_type_def buf_len_def)
  then show 3: "hipri t = hipri s" by (auto simp: hipri_def)
  show 4: "x \<noteq> mp \<Longrightarrow> mband t x = mband s x" for x using assms by (auto simp: banded_def mband_def)
  have "hipri s mp \<or> mband t mp = mband s mp" using assms by (auto simp: banded_def)
  then have "qkey t x = qkey s x" for x using 3 4[of x] by (cases "x = mp") (auto simp: qkey_def)
  then show "qkey t = qkey s" by blast
qed

lemma banded_mchain: "banded s mp t \<Longrightarrow> mchain t x cs = mchain s x cs"
  by (simp add: mchain_def banded_fields)

lemma banded_msg_ok: "banded s mp t \<Longrightarrow> msg_ok t x = msg_ok s x"
  by (simp add: msg_ok_def banded_mchain)

lemma banded_qlist: "banded s mp t \<Longrightarrow> qlist t Q xs = qlist s Q xs"
  by (simp add: qlist_def banded_fields banded_msg_ok)

lemma banded_desc: "banded s mp t \<Longrightarrow> desc t xs = desc s xs"
  by (simp add: desc_def banded_fields)

lemma banded_msize:
  assumes "banded s mp t" "msg_ok s x"
  shows "msize t x = msize s x"
proof -
  obtain cs where "mchain s x cs" using assms(2) by (auto simp: msg_ok_def)
  moreover then have "mchain t x cs" using assms(1) by (simp add: banded_mchain)
  ultimately show ?thesis
    using assms(1) by (simp add: msize_def lis_msgsize_chain c_sum_def banded_fields)
qed

lemma clear_band_banded:
  "mb s mp = Some m \<Longrightarrow> hipri s mp = (ty \<ge> QPCTL) \<Longrightarrow> \<exists>t. clear_band mp ty s = Some t \<and> banded s mp t"
  by (auto simp: clear_band_def lis_simps banded_def)

lemma desc_last_le: "desc s xs \<Longrightarrow> y \<in> set xs \<Longrightarrow> qkey s (last xs) \<le> qkey s y"
  by (induction xs) (auto simp: desc_def)

lemma dropWhile_all_hd0: "\<forall>y\<in>set xs. P y \<Longrightarrow> hd0 (dropWhile P xs) = NULL"
  by (metis dropWhile_eq_Nil_conv hd0.simps(1))

lemma find_q_spot_tail_spec:
  assumes Q: "qs s q = Some Q" "q \<noteq> NULL" and xs: "qlist s Q xs" "desc s xs"
    and mp: "msg_ok s mp" "mp \<notin> set xs"
  shows "\<exists>t. find_q_spot_tail q mp s = Some (hd0 (dropWhile (\<lambda>y. qkey s mp \<le> qkey s y) xs), t) \<and> banded s mp t"
proof (cases xs)
  case Nil
  with assms show ?thesis
    by (auto simp: find_q_spot_tail_def qlist_first banded_def)
next
  case (Cons x xs')
  then have ne: "xs \<noteq> []" by simp
  obtain m d where m: "mb s mp = Some m" "db s (b_datap m) = Some d" "blk_type s mp = db_type d"
    "mband s mp = b_band m" "hipri s mp = (db_type d \<ge> QPCTL)" by (rule msg_okE[OF mp(1)])
  obtain t where t: "clear_band mp (db_type d) s = Some t" "banded s mp t"
    using clear_band_banded[OF m(1,5)] by blast
  note B = banded_fields[OF t(2)] banded_qlist[OF t(2)] banded_msg_ok[OF t(2)]
  let ?l = "last xs"
  have lin: "?l \<in> set xs" using ne by simp
  then have "?l \<noteq> mp" "msg_ok s ?l" using mp(2) xs(1) by (auto simp: qlist_def)
  obtain l ld where l: "mb s ?l = Some l" "db s (b_datap l) = Some ld"
    "mband s ?l = b_band l" "hipri s ?l = (db_type ld \<ge> QPCTL)" by (rule msg_okE[OF \<open>msg_ok s ?l\<close>])
  have qf: "q_first Q \<noteq> NULL" "q_last Q = ?l" "q_first Q = hd0 xs"
    using Cons xs(1) qlist_nonnull[OF xs(1)] by (auto simp: qlist_first qlist_last)
  have *: "find_q_spot_tail q mp s =
      (if hipri s ?l then Some (NULL, t)
       else if \<not> hipri s mp \<and> b_band m \<le> b_band l then Some (NULL, t)
       else do { p \<leftarrow> skip_hipri (q_first Q) t;
                 p \<leftarrow> (if \<not> hipri s mp then skip_from p (b_band m) t else Some p); Some (p, t) })"
  proof -
    have "(db_type d < QPCTL) = (\<not> hipri s mp)" "(db_type d \<ge> QPCTL) = hipri s mp"
      "(db_type ld \<ge> QPCTL) = hipri s ?l" using m(5) l(4) by auto
    then show ?thesis
      using Q m(1,2) t(1) l(1,2) qf(1,2) \<open>?l \<noteq> mp\<close> by (simp add: find_q_spot_tail_def Let_def B)
  qed
  have dlt: "dl (mlink t) NULL (q_first Q) xs (q_last Q) NULL" "\<forall>x\<in>set xs. msg_ok t x"
    using xs(1) by (auto simp: qlist_def B)
  have skip: "skip_hipri (q_first Q) t = Some (hd0 (dropWhile (hipri s) xs))"
    using skip_hipri_dl[OF dlt] by (simp add: B)
  show ?thesis
  proof (cases "hipri s ?l")
    case True
    then have "\<forall>y\<in>set xs. qkey s mp \<le> qkey s y"
      using desc_last_le[OF xs(2)] qkey_hipri[of s ?l] qkey_le[of s mp] by fastforce
    then show ?thesis using * True t(2) by (simp add: dropWhile_all_hd0)
  next
    case nl: False
    then have kl: "qkey s ?l = unat (b_band l)" using l by (simp add: qkey_def)
    show ?thesis
    proof (cases "hipri s mp")
      case True
      then have "qkey s mp = 256" by (simp add: qkey_hipri)
      then show ?thesis using * True nl t(2) skip by (simp add: desc_drop_hipri)
    next
      case False
      then have km: "qkey s mp = unat (b_band m)" using m by (simp add: qkey_def)
      show ?thesis
      proof (cases "b_band m \<le> b_band l")
        case True
        then have "\<forall>y\<in>set xs. qkey s mp \<le> qkey s y"
          using desc_last_le[OF xs(2)] kl km by (force simp: word_le_nat_alt)
        then show ?thesis using * True nl False t(2) by (simp add: dropWhile_all_hd0)
      next
        case nle: False
        obtain pv where "dl (mlink t) pv (hd0 (dropWhile (hipri s) xs)) (dropWhile (hipri s) xs) (q_last Q) NULL"
          using dl_suffix[of "mlink t" NULL "q_first Q" "takeWhile (hipri s) xs"] dlt(1)
          by (metis takeWhile_dropWhile_id)
        then have "skip_from (hd0 (dropWhile (hipri s) xs)) (b_band m) t =
            Some (hd0 (dropWhile (\<lambda>y. mband t y \<ge> b_band m) (dropWhile (hipri s) xs)))"
          by (rule skip_from_dl)
        also have "dropWhile (\<lambda>y. mband t y \<ge> b_band m) (dropWhile (hipri s) xs) =
            dropWhile (\<lambda>y. mband s y \<ge> b_band m) (dropWhile (hipri s) xs)"
        proof (rule dropWhile_cong)
          fix y assume "y \<in> set (dropWhile (hipri s) xs)"
          then have "y \<noteq> mp" using set_dropWhileD mp(2) by metis
          then show "(mband t y \<ge> b_band m) = (mband s y \<ge> b_band m)" by (simp add: B)
        qed simp
        also have "\<dots> = dropWhile (\<lambda>y. qkey s mp \<le> qkey s y) xs"
          using desc_drop_normal(1)[OF xs(2)] km by simp
        finally show ?thesis using * nle nl False t(2) skip by simp
      qed
    qed
  qed
qed

lemma find_q_spot_head_spec:
  assumes Q: "qs s q = Some Q" "q \<noteq> NULL" and xs: "qlist s Q xs" "desc s xs"
    and mp: "msg_ok s mp" "mp \<notin> set xs"
  shows "\<exists>t. find_q_spot_head q mp s = Some (hd0 (dropWhile (\<lambda>y. qkey s mp < qkey s y) xs), t) \<and> banded s mp t"
proof (cases xs)
  case Nil
  with assms show ?thesis
    by (auto simp: find_q_spot_head_def qlist_first banded_def)
next
  case (Cons x xs')
  obtain m d where m: "mb s mp = Some m" "db s (b_datap m) = Some d" "blk_type s mp = db_type d"
    "mband s mp = b_band m" "hipri s mp = (db_type d \<ge> QPCTL)" by (rule msg_okE[OF mp(1)])
  obtain t where t: "clear_band mp (db_type d) s = Some t" "banded s mp t"
    using clear_band_banded[OF m(1,5)] by blast
  note B = banded_fields[OF t(2)] banded_qlist[OF t(2)] banded_msg_ok[OF t(2)]
  have "x \<noteq> mp" "msg_ok s x" using mp(2) xs(1) Cons by (auto simp: qlist_def)
  obtain f fd where f: "mb s x = Some f" "db s (b_datap f) = Some fd"
    "mband s x = b_band f" "hipri s x = (db_type fd \<ge> QPCTL)" by (rule msg_okE[OF \<open>msg_ok s x\<close>])
  have qf: "q_first Q = x" "x \<noteq> NULL"
    using Cons xs(1) qlist_nonnull[OF xs(1)] by (auto simp: qlist_first)
  have *: "find_q_spot_head q mp s =
      (if hipri s mp then Some (x, t)
       else if \<not> hipri s x \<and> b_band m \<ge> b_band f then Some (x, t)
       else do { p \<leftarrow> skip_hipri x t; p \<leftarrow> skip_above p (b_band m) t; Some (p, t) })"
  proof -
    have "(db_type d \<ge> QPCTL) = hipri s mp" "(db_type fd < QPCTL) = (\<not> hipri s x)"
      using m(5) f(4) by auto
    then show ?thesis
      using Q m(1,2) t(1) f(1,2) qf \<open>x \<noteq> mp\<close> by (simp add: find_q_spot_head_def Let_def B)
  qed
  have dlt: "dl (mlink t) NULL x xs (q_last Q) NULL" "\<forall>x\<in>set xs. msg_ok t x"
    using xs(1) qf by (auto simp: qlist_def B)
  show ?thesis
  proof (cases "hipri s mp \<or> \<not> hipri s x \<and> b_band m \<ge> b_band f")
    case True
    then have "\<not> qkey s mp < qkey s x"
      using m(4) f(3) qkey_le[of s x] by (auto simp: qkey_def word_le_nat_alt)
    with True * t(2) Cons show ?thesis by auto
  next
    case False
    then have km: "qkey s mp = unat (b_band m)" using m by (simp add: qkey_def)
    have skip: "skip_hipri x t = Some (hd0 (dropWhile (hipri s) xs))"
      using skip_hipri_dl[OF dlt] by (simp add: B)
    obtain pv where "dl (mlink t) pv (hd0 (dropWhile (hipri s) xs)) (dropWhile (hipri s) xs) (q_last Q) NULL"
      using dl_suffix[of "mlink t" NULL x "takeWhile (hipri s) xs"] dlt(1)
      by (metis takeWhile_dropWhile_id)
    then have "skip_above (hd0 (dropWhile (hipri s) xs)) (b_band m) t =
        Some (hd0 (dropWhile (\<lambda>y. mband t y > b_band m) (dropWhile (hipri s) xs)))"
      by (rule skip_above_dl)
    also have "dropWhile (\<lambda>y. mband t y > b_band m) (dropWhile (hipri s) xs) =
        dropWhile (\<lambda>y. mband s y > b_band m) (dropWhile (hipri s) xs)"
    proof (rule dropWhile_cong)
      fix y assume "y \<in> set (dropWhile (hipri s) xs)"
      then have "y \<noteq> mp" using set_dropWhileD mp(2) by metis
      then show "(mband t y > b_band m) = (mband s y > b_band m)" by (simp add: B)
    qed simp
    also have "\<dots> = dropWhile (\<lambda>y. qkey s mp < qkey s y) xs"
      using desc_drop_normal(2)[OF xs(2)] km by simp
    finally show ?thesis using * False t(2) skip by auto
  qed
qed

subsection \<open>Linking a message in\<close>

lemma dl_ins_front:
  assumes "dl L NULL p (b # bs) lst NULL" "x \<notin> set (b # bs)" "x \<noteq> NULL"
  shows "\<exists>n. L b = Some (n, NULL) \<and> dl (L(x \<mapsto> (b, NULL), b \<mapsto> (n, x))) NULL x (x # b # bs) lst NULL"
  using assms dl_distinct[OF assms(1)] by auto

lemma dl_ins_mid:
  assumes "dl L NULL p (as @ a # b # bs) lst NULL" "x \<notin> set (as @ a # b # bs)" "x \<noteq> NULL"
  shows "\<exists>k n. L a = Some (b, k) \<and> L b = Some (n, a) \<and>
    dl (L(x \<mapsto> (b, a), a \<mapsto> (x, k), b \<mapsto> (n, x))) NULL p (as @ a # x # b # bs) lst NULL"
  using assms dl_distinct[OF assms(1)] by (auto simp: dl_append)

lemma dl_ins_end:
  assumes "dl L NULL p (as @ [a]) lst NULL" "x \<notin> set (as @ [a])" "x \<noteq> NULL"
  shows "lst = a \<and> (\<exists>k. L a = Some (NULL, k) \<and>
    dl (L(a \<mapsto> (x, k), x \<mapsto> (NULL, a))) NULL p (as @ [a, x]) x NULL)"
  using assms dl_distinct[OF assms(1)] by (auto simp: dl_append)

text \<open>What an operation on the links may change: messages, queues, counters.\<close>

definition mqframe :: "lis \<Rightarrow> lis \<Rightarrow> bool" where
  "mqframe s t \<longleftrightarrow> t = s\<lparr>mb := mb t, qs := qs t, strstats := strstats t, negstat := negstat t\<rparr>"

lemma mqframe_stats_set: "mqframe s (stats_set f s\<lparr>mb := m, qs := q\<rparr>)"
  by (simp add: mqframe_def stats_set_def)

lemma mqframe_fields:
  assumes "mqframe s t"
  shows "db t = db s" "qbands t = qbands s" "kmem t = kmem s" "sds t = sds s" "qhead t = qhead s"
    "qtail t = qtail s" "mem t = mem s" "qsyncs t = qsyncs s" "runq_req_cnt t = runq_req_cnt s"
    "setqsched_calls t = setqsched_calls s" "qband_cnt t = qband_cnt s"
  by (subst assms[unfolded mqframe_def], simp)+

lemma ins_state_eq:
  "LisUpCount i s\<lparr>mb := m, qs := r\<rparr> = stats_set (LisUpCount i) s\<lparr>mb := m, qs := r\<rparr>"
  "LisUpCount i s\<lparr>mb := m\<rparr> = stats_set (LisUpCount i) s\<lparr>mb := m, qs := qs s\<rparr>"
  by (subst stats_set_eq, simp)+

lemma qlistI:
  assumes "dl (mlink t) NULL (q_first Q) xs (q_last Q) NULL" "body_eq s t" "\<forall>x\<in>set xs. msg_ok s x"
  shows "qlist t Q xs"
  using assms by (simp add: qlist_def body_eq_msg_ok)

lemma mlink_upd: "mlink (s\<lparr>mb := (mb s)(x \<mapsto> m)\<rparr>) = (mlink s)(x \<mapsto> (b_next m, b_prev m))"
  by (auto simp: mlink_def)

lemma mlink_mb: "mb t = mb s \<Longrightarrow> mlink t = mlink s"
  by (auto simp: mlink_def)

lemma mlink_fun: "mb t = f \<Longrightarrow> mlink t = (\<lambda>x. map_option (\<lambda>m. (b_next m, b_prev m)) (f x))"
  by (auto simp: mlink_def)

lemma body_eqI:
  "db t = db s \<Longrightarrow> (\<And>x. map_option mbody (mb t x) = map_option mbody (mb s x)) \<Longrightarrow> body_eq s t"
  by (simp add: body_eq_def)

lemma ins_before_empty:
  assumes "qs s q = Some Q" "q_first Q = NULL" "msg_ok s mp"
  shows "\<exists>t. ins_before q b mp s = Some t \<and> mqframe s t \<and> body_eq s t \<and>
    qs t = (qs s)(q \<mapsto> Q\<lparr>q_first := mp, q_last := mp\<rparr>) \<and> mlink t = (mlink s)(mp \<mapsto> (NULL, NULL)) \<and>
    (\<forall>x. x \<noteq> mp \<longrightarrow> mb t x = mb s x)"
proof -
  obtain m where m: "mb s mp = Some m" by (rule msg_okE[OF assms(3)])
  let ?m = "m\<lparr>b_prev := NULL, b_next := NULL\<rparr>"
  let ?t = "stats_set (LisUpCount MSGSQD) s\<lparr>mb := (mb s)(mp \<mapsto> ?m), qs := (qs s)(q \<mapsto> Q\<lparr>q_first := mp, q_last := mp\<rparr>)\<rparr>"
  have "ins_before q b mp s = Some ?t"
    using assms m by (simp add: ins_before_def lis_simps ins_state_eq)
  moreover have "body_eq s ?t" using m by (intro body_eqI) auto
  moreover have "mlink ?t = (mlink s)(mp \<mapsto> (NULL, NULL))" by (auto simp: mlink_def)
  ultimately show ?thesis using mqframe_stats_set by auto
qed

lemma ins_before_end:
  assumes "qs s q = Some Q" "q_first Q \<noteq> NULL" "mb s (q_last Q) = Some l" "msg_ok s mp" "q_last Q \<noteq> mp"
  shows "\<exists>t. ins_before q NULL mp s = Some t \<and> mqframe s t \<and> body_eq s t \<and>
    qs t = (qs s)(q \<mapsto> Q\<lparr>q_last := mp\<rparr>) \<and>
    mlink t = (mlink s)(q_last Q \<mapsto> (mp, b_prev l), mp \<mapsto> (NULL, q_last Q)) \<and>
    (\<forall>x. x \<noteq> mp \<and> x \<noteq> q_last Q \<longrightarrow> mb t x = mb s x)"
proof -
  obtain m where m: "mb s mp = Some m" by (rule msg_okE[OF assms(4)])
  let ?mb = "(mb s)(q_last Q \<mapsto> l\<lparr>b_next := mp\<rparr>, mp \<mapsto> m\<lparr>b_prev := q_last Q, b_next := NULL\<rparr>)"
  let ?t = "stats_set (LisUpCount MSGSQD) s\<lparr>mb := ?mb, qs := (qs s)(q \<mapsto> Q\<lparr>q_last := mp\<rparr>)\<rparr>"
  have "ins_before q NULL mp s = Some ?t"
    using assms m by (simp add: ins_before_def lis_simps ins_state_eq)
  moreover have "body_eq s ?t" using m assms(3) by (intro body_eqI) auto
  moreover have "mlink ?t = (mlink s)(q_last Q \<mapsto> (mp, b_prev l), mp \<mapsto> (NULL, q_last Q))"
    by (auto simp: mlink_def)
  ultimately show ?thesis using mqframe_stats_set by auto
qed

lemma ins_before_first:
  assumes "qs s q = Some Q" "q_first Q \<noteq> NULL" "mb s b = Some bm" "b_prev bm = NULL" "b \<noteq> NULL"
    "msg_ok s mp" "b \<noteq> mp"
  shows "\<exists>t. ins_before q b mp s = Some t \<and> mqframe s t \<and> body_eq s t \<and>
    qs t = (qs s)(q \<mapsto> Q\<lparr>q_first := mp\<rparr>) \<and>
    mlink t = (mlink s)(mp \<mapsto> (b, NULL), b \<mapsto> (b_next bm, mp)) \<and>
    (\<forall>x. x \<noteq> mp \<and> x \<noteq> b \<longrightarrow> mb t x = mb s x)"
proof -
  obtain m where m: "mb s mp = Some m" by (rule msg_okE[OF assms(6)])
  let ?mb = "(mb s)(mp \<mapsto> m\<lparr>b_next := b, b_prev := NULL\<rparr>, b \<mapsto> bm\<lparr>b_prev := mp\<rparr>)"
  let ?t = "stats_set (LisUpCount MSGSQD) s\<lparr>mb := ?mb, qs := (qs s)(q \<mapsto> Q\<lparr>q_first := mp\<rparr>)\<rparr>"
  have "ins_before q b mp s = Some ?t"
    using assms m by (simp add: ins_before_def lis_simps ins_state_eq)
  moreover have "body_eq s ?t" using m assms(3) by (intro body_eqI) auto
  moreover have "mlink ?t = (mlink s)(mp \<mapsto> (b, NULL), b \<mapsto> (b_next bm, mp))" by (auto simp: mlink_def)
  ultimately show ?thesis using mqframe_stats_set by auto
qed

lemma ins_before_mid:
  assumes "qs s q = Some Q" "q_first Q \<noteq> NULL" "mb s b = Some bm" "b_prev bm = a" "b \<noteq> NULL"
    "a \<noteq> NULL" "mb s a = Some am" "msg_ok s mp" "b \<noteq> mp" "a \<noteq> mp" "a \<noteq> b"
  shows "\<exists>t. ins_before q b mp s = Some t \<and> mqframe s t \<and> body_eq s t \<and> qs t = qs s \<and>
    mlink t = (mlink s)(mp \<mapsto> (b, a), a \<mapsto> (mp, b_prev am), b \<mapsto> (b_next bm, mp)) \<and>
    (\<forall>x. x \<noteq> mp \<and> x \<noteq> a \<and> x \<noteq> b \<longrightarrow> mb t x = mb s x)"
proof -
  obtain m where m: "mb s mp = Some m" by (rule msg_okE[OF assms(8)])
  let ?mb = "(mb s)(mp \<mapsto> m\<lparr>b_next := b, b_prev := a\<rparr>, a \<mapsto> am\<lparr>b_next := mp\<rparr>, b \<mapsto> bm\<lparr>b_prev := mp\<rparr>)"
  let ?t = "stats_set (LisUpCount MSGSQD) s\<lparr>mb := ?mb, qs := qs s\<rparr>"
  have "ins_before q b mp s = Some ?t"
    using assms m by (simp add: ins_before_def lis_simps ins_state_eq)
  moreover have "body_eq s ?t" using m assms by (intro body_eqI) auto
  moreover have "mlink ?t = (mlink s)(mp \<mapsto> (b, a), a \<mapsto> (mp, b_prev am), b \<mapsto> (b_next bm, mp))"
    by (auto simp: mlink_def)
  ultimately show ?thesis using mqframe_stats_set by auto
qed

text \<open>Insertion before the first element of \<open>bs\<close>, at the end when \<open>bs\<close> is empty.\<close>

lemma ins_before_spec:
  assumes Q: "qs s q = Some Q" and xs: "qlist s Q (as @ bs)"
    and mp: "msg_ok s mp" "mp \<notin> set (as @ bs)"
  shows "\<exists>t Q'. ins_before q (hd0 bs) mp s = Some t \<and> mqframe s t \<and> body_eq s t \<and>
    qs t = (qs s)(q \<mapsto> Q') \<and> Q' = Q\<lparr>q_first := q_first Q', q_last := q_last Q'\<rparr> \<and>
    qlist t Q' (as @ mp # bs) \<and> (\<forall>x. x \<notin> set (as @ mp # bs) \<longrightarrow> mb t x = mb s x)"
proof -
  have dl: "dl (mlink s) NULL (q_first Q) (as @ bs) (q_last Q) NULL" and ok: "\<forall>x\<in>set (as @ bs). msg_ok s x"
    using xs by (auto simp: qlist_def)
  have mp0: "mp \<noteq> NULL" using mp(1) by (simp add: msg_ok_def)
  have ok': "\<forall>x\<in>set (as @ mp # bs). msg_ok s x" using ok mp(1) by auto
  have lookup: "\<exists>m. mb s x = Some m \<and> mlink s x = Some (b_next m, b_prev m)" if "x \<in> set (as @ bs)" for x
  proof -
    from ok that have "msg_ok s x" by blast
    then obtain m where "mb s x = Some m" by (rule msg_okE)
    then show ?thesis by (simp add: mlink_def)
  qed
  have first: "q_first Q \<noteq> NULL" if "as @ bs \<noteq> []" using dl_first_null[OF dl] that by simp
  show ?thesis
  proof (cases bs)
    case Nil
    show ?thesis
    proof (cases as rule: rev_cases)
      case asnil: Nil
      then have "q_first Q = NULL" using dl Nil by simp
      from ins_before_empty[OF Q this mp(1), of NULL] obtain t where t:
        "ins_before q NULL mp s = Some t" "mqframe s t" "body_eq s t"
        "qs t = (qs s)(q \<mapsto> Q\<lparr>q_first := mp, q_last := mp\<rparr>)" "mlink t = (mlink s)(mp \<mapsto> (NULL, NULL))"
        "\<forall>x. x \<noteq> mp \<longrightarrow> mb t x = mb s x" by auto
      have "qlist t (Q\<lparr>q_first := mp, q_last := mp\<rparr>) (as @ mp # bs)"
        by (rule qlistI[OF _ t(3) ok']) (simp add: Nil asnil t(5) mp0)
      with t Nil asnil show ?thesis by (intro exI[of _ t] exI[of _ "Q\<lparr>q_first := mp, q_last := mp\<rparr>"]) auto
    next
      case (snoc as' a)
      with dl_ins_end[of "mlink s" "q_first Q" as' a "q_last Q" mp] dl mp(2) mp0 Nil
      obtain k where k: "q_last Q = a" "mlink s a = Some (NULL, k)"
        "dl ((mlink s)(a \<mapsto> (mp, k), mp \<mapsto> (NULL, a))) NULL (q_first Q) (as' @ [a, mp]) mp NULL" by auto
      obtain l where l: "mb s a = Some l" "mlink s a = Some (b_next l, b_prev l)" using lookup snoc by auto
      from ins_before_end[OF Q first, of l mp] obtain t where t:
        "ins_before q NULL mp s = Some t" "mqframe s t" "body_eq s t"
        "qs t = (qs s)(q \<mapsto> Q\<lparr>q_last := mp\<rparr>)" "mlink t = (mlink s)(a \<mapsto> (mp, b_prev l), mp \<mapsto> (NULL, a))"
        "\<forall>x. x \<noteq> mp \<and> x \<noteq> a \<longrightarrow> mb t x = mb s x"
        using snoc k(1) l(1) mp by auto
      have "qlist t (Q\<lparr>q_last := mp\<rparr>) (as @ mp # bs)"
        by (rule qlistI[OF _ t(3) ok']) (use Nil snoc t(5) k l(2) in auto)
      with t Nil snoc show ?thesis by (intro exI[of _ t] exI[of _ "Q\<lparr>q_last := mp\<rparr>"]) auto
    qed
  next
    case (Cons b bs')
    obtain bm where b: "mb s b = Some bm" "mlink s b = Some (b_next bm, b_prev bm)" using lookup Cons by auto
    have b0: "b \<noteq> NULL" "b \<noteq> mp" using dl_nonzero[OF dl] mp(2) Cons by auto
    show ?thesis
    proof (cases as rule: rev_cases)
      case Nil
      with dl_ins_front[of "mlink s" "q_first Q" b bs' "q_last Q" mp] dl mp(2) mp0 Cons
      obtain n where n: "mlink s b = Some (n, NULL)"
        "dl ((mlink s)(mp \<mapsto> (b, NULL), b \<mapsto> (n, mp))) NULL mp (mp # b # bs') (q_last Q) NULL" by auto
      from ins_before_first[OF Q first b(1) _ b0(1) mp(1) b0(2)] obtain t where t:
        "ins_before q b mp s = Some t" "mqframe s t" "body_eq s t"
        "qs t = (qs s)(q \<mapsto> Q\<lparr>q_first := mp\<rparr>)"
        "mlink t = (mlink s)(mp \<mapsto> (b, NULL), b \<mapsto> (b_next bm, mp))"
        "\<forall>x. x \<noteq> mp \<and> x \<noteq> b \<longrightarrow> mb t x = mb s x"
        using Cons n(1) b(2) by auto
      have "qlist t (Q\<lparr>q_first := mp\<rparr>) (as @ mp # bs)"
        by (rule qlistI[OF _ t(3) ok']) (use Nil Cons t(5) n b(2) in auto)
      with t Nil Cons show ?thesis by (intro exI[of _ t] exI[of _ "Q\<lparr>q_first := mp\<rparr>"]) auto
    next
      case (snoc as' a)
      with dl_ins_mid[of "mlink s" "q_first Q" as' a b bs' "q_last Q" mp] dl mp(2) mp0 Cons
      obtain k n where n: "mlink s a = Some (b, k)" "mlink s b = Some (n, a)"
        "dl ((mlink s)(mp \<mapsto> (b, a), a \<mapsto> (mp, k), b \<mapsto> (n, mp))) NULL (q_first Q)
            (as' @ a # mp # b # bs') (q_last Q) NULL" by auto
      obtain am where a: "mb s a = Some am" "mlink s a = Some (b_next am, b_prev am)" using lookup snoc by auto
      have a0: "a \<noteq> NULL" "a \<noteq> mp" "a \<noteq> b"
        using dl_nonzero[OF dl] mp(2) snoc Cons dl_distinct[OF dl] by auto
      from ins_before_mid[OF Q first b(1) _ b0(1) a0(1) a(1) mp(1) b0(2) a0(2,3)] obtain t where t:
        "ins_before q b mp s = Some t" "mqframe s t" "body_eq s t" "qs t = qs s"
        "mlink t = (mlink s)(mp \<mapsto> (b, a), a \<mapsto> (mp, b_prev am), b \<mapsto> (b_next bm, mp))"
        "\<forall>x. x \<noteq> mp \<and> x \<noteq> a \<and> x \<noteq> b \<longrightarrow> mb t x = mb s x"
        using Cons n(2) b(2) by auto
      have "qlist t Q (as @ mp # bs)"
        by (rule qlistI[OF _ t(3) ok']) (use snoc Cons t(5) n a(2) b(2) in auto)
      with t snoc Cons Q show ?thesis by (intro exI[of _ t] exI[of _ Q]) auto
    qed
  qed
qed

subsection \<open>Unlinking a message\<close>

lemma dl_del_link:
  assumes "dl L NULL p (as @ x # bs) lst NULL"
  shows "L x = Some (hd0 bs, if as = [] then NULL else last as)"
proof -
  obtain pv n where x: "x \<noteq> NULL" "dl L NULL p as pv x" "L x = Some (n, pv)" "dl L x n bs lst NULL"
    using assms by (auto simp: dl_append)
  have "n = hd0 bs" using x(4) by (cases bs) auto
  moreover have "pv = (if as = [] then NULL else last as)"
    using x(2) dl_last[OF x(2)] by (cases "as = []") auto
  ultimately show ?thesis using x(3) by simp
qed

lemma dl_del:
  assumes dl: "dl L NULL p (as @ x # bs) lst NULL"
    and a: "\<And>a k. as \<noteq> [] \<Longrightarrow> a = last as \<Longrightarrow> L a = Some (x, k) \<Longrightarrow> L' a = Some (hd0 bs, k)"
    and b: "\<And>b n. bs \<noteq> [] \<Longrightarrow> b = hd bs \<Longrightarrow> L b = Some (n, x) \<Longrightarrow>
          L' b = Some (n, if as = [] then NULL else last as)"
    and o: "\<And>y. y \<noteq> x \<Longrightarrow> as = [] \<or> y \<noteq> last as \<Longrightarrow> bs = [] \<or> y \<noteq> hd bs \<Longrightarrow> L' y = L y"
  shows "dl L' NULL (if as = [] then hd0 bs else p) (as @ bs)
        (if bs = [] then (if as = [] then NULL else last as) else lst) NULL"
proof -
  have d: "distinct (as @ x # bs)" using dl by (rule dl_distinct)
  obtain pv n where x: "x \<noteq> NULL" "dl L NULL p as pv x" "L x = Some (n, pv)" "dl L x n bs lst NULL"
    using dl by (auto simp: dl_append)
  have pv: "pv = (if as = [] then NULL else last as)" using dl_del_link[OF dl] x(3) by simp
  have A: "dl L' NULL (if as = [] then hd0 bs else p) as pv (hd0 bs)"
  proof (cases as rule: rev_cases)
    case Nil
    then show ?thesis using pv by simp
  next
    case (snoc as' y)
    then obtain k where k: "dl L NULL p as' k y" "L y = Some (x, k)" "y \<noteq> NULL" using x(2) by (auto simp: dl_snoc)
    have "dl L' NULL p as' k y = dl L NULL p as' k y"
    proof (rule dl_cong)
      fix z assume "z \<in> set as'"
      then show "L' z = L z" using o[of z] d snoc by (cases bs) auto
    qed
    then have 1: "dl L' NULL p as' k y" using k(1) by blast
    have 2: "as \<noteq> []" "y = last as" "pv = y" using snoc pv by simp_all
    have 3: "L' y = Some (hd0 bs, k)" using a[OF 2(1,2) k(2)] .
    have "dl L' NULL p as pv (hd0 bs)" unfolding snoc dl_snoc using 1 2(3) 3 k(3) by blast
    then show ?thesis using 2(1) by simp
  qed
  have B: "dl L' pv (hd0 bs) bs (if bs = [] then pv else lst) NULL"
  proof (cases bs)
    case Nil
    then show ?thesis by simp
  next
    case (Cons y bs')
    then obtain k where k: "L y = Some (k, x)" "dl L y k bs' lst NULL" "y \<noteq> NULL" using x(4) by auto
    have "dl L' y k bs' lst NULL = dl L y k bs' lst NULL"
    proof (rule dl_cong)
      fix z assume "z \<in> set bs'"
      moreover have "as = [] \<or> last as \<notin> set bs'"
        using d Cons by (cases as rule: rev_cases) auto
      ultimately show "L' z = L z" using o[of z] d Cons by auto
    qed
    then have 1: "dl L' y k bs' lst NULL" using k(2) by blast
    have 2: "bs \<noteq> []" "y = hd bs" using Cons by simp_all
    have "L' y = Some (k, pv)" using b[OF 2 k(1)] pv by simp
    with 1 k(3) have "dl L' pv y (y # bs') lst NULL" by simp
    then show ?thesis using Cons by simp
  qed
  from A B show ?thesis unfolding dl_append pv by blast
qed

lemma mqframe_down: "mqframe s (LisDownCount i (s\<lparr>mb := m, qs := r\<rparr>))"
  by (simp add: mqframe_def LisDownCount_def lis_stat_neg_def)

lemma upd_mb_qs_comm: "s\<lparr>qs := a\<rparr>\<lparr>mb := b\<rparr> = s\<lparr>mb := b, qs := a\<rparr>"
  by simp

lemma unlink_msg_spec:
  assumes Q: "qs s q = Some Q" and xs: "qlist s Q (as @ x # bs)"
  shows "\<exists>t Q'. unlink_msg q x s = Some t \<and> mqframe s t \<and> body_eq s t \<and>
    qs t = (qs s)(q \<mapsto> Q') \<and> Q' = Q\<lparr>q_first := q_first Q', q_last := q_last Q'\<rparr> \<and>
    qlist t Q' (as @ bs) \<and> mlink t x = Some (NULL, NULL) \<and>
    (\<forall>y. y \<notin> set (as @ x # bs) \<longrightarrow> mb t y = mb s y)"
proof -
  have dl: "dl (mlink s) NULL (q_first Q) (as @ x # bs) (q_last Q) NULL" and ok: "\<forall>y\<in>set (as @ x # bs). msg_ok s y"
    using xs by (auto simp: qlist_def)
  have d: "distinct (as @ x # bs)" using dl by (rule dl_distinct)
  define n where "n = hd0 bs"
  define pv where "pv = (if as = [] then NULL else last as)"
  have x: "mlink s x = Some (n, pv)" using dl_del_link[OF dl] by (simp add: n_def pv_def)
  then obtain m where m: "mb s x = Some m" "b_next m = n" "b_prev m = pv" by (auto dest: mlinkD)
  have some: "\<exists>m. mb s y = Some m" if "y \<in> set (as @ x # bs)" for y
    using ok that by (metis msg_okE)
  have nn: "NULL \<notin> set (as @ x # bs)" using dl_nonzero[OF dl] by blast
  have pv0: "pv = NULL \<longleftrightarrow> as = []" and pvin: "as \<noteq> [] \<Longrightarrow> pv \<in> set as"
    using nn last_in_set[of as] by (auto simp: pv_def simp del: last_in_set) (metis gr0I)
  have n0: "n = NULL \<longleftrightarrow> bs = []" and nin: "bs \<noteq> [] \<Longrightarrow> n \<in> set bs \<and> n = hd bs"
    using nn by (cases bs; auto simp: n_def)+
  have ne: "as \<noteq> [] \<Longrightarrow> pv \<noteq> x" "bs \<noteq> [] \<Longrightarrow> n \<noteq> x" "as \<noteq> [] \<Longrightarrow> bs \<noteq> [] \<Longrightarrow> pv \<noteq> n"
    using d pvin nin by auto
  obtain pm where pm: "as \<noteq> [] \<Longrightarrow> mb s pv = Some pm" using some[of pv] pvin by fastforce
  obtain nm where nm: "bs \<noteq> [] \<Longrightarrow> mb s n = Some nm" using some[of n] nin by fastforce
  define mb1 where "mb1 = (if as = [] then mb s else (mb s)(pv \<mapsto> pm\<lparr>b_next := n\<rparr>))"
  define mb2 where "mb2 = (if bs = [] then mb1 else mb1(n \<mapsto> nm\<lparr>b_prev := pv\<rparr>))"
  define mb3 where "mb3 = mb2(x \<mapsto> m\<lparr>b_prev := NULL, b_next := NULL\<rparr>)"
  define Q' where "Q' = Q\<lparr>q_first := (if as = [] then n else q_first Q),
                          q_last := (if bs = [] then pv else q_last Q)\<rparr>"
  define t where "t = LisDownCount MSGSQD (s\<lparr>mb := mb3, qs := (qs s)(q \<mapsto> Q')\<rparr>)"
  have lt: "mlink t y = (if y = x then Some (NULL, NULL) else if bs \<noteq> [] \<and> y = n then Some (b_next nm, pv)
      else if as \<noteq> [] \<and> y = pv then Some (n, b_prev pm) else mlink s y)" for y
  proof -
    have "as \<noteq> [] \<and> bs \<noteq> [] \<Longrightarrow> pv \<noteq> n" using ne(3) by blast
    then show ?thesis by (auto simp: t_def mlink_def mb3_def mb2_def mb1_def)
  qed
  have "unlink_msg q x s = Some t"
  proof (cases "as = []"; cases "bs = []")
    assume c: "as = []" "bs = []"
    then have "pv = NULL" "n = NULL" "Q' = Q\<lparr>q_first := NULL, q_last := NULL\<rparr>" "mb3 = (mb s)(x \<mapsto> m\<lparr>b_prev := NULL, b_next := NULL\<rparr>)"
      using pv0 n0 by (simp_all add: Q'_def mb3_def mb2_def mb1_def)
    then show ?thesis using Q m(1) by (simp add: unlink_msg_def lis_simps m(2,3) upd_mb_qs_comm t_def)
  next
    assume c: "as = []" "bs \<noteq> []"
    then have "pv = NULL" "n \<noteq> NULL" "Q' = Q\<lparr>q_first := n\<rparr>" "mb s n = Some nm" "n \<noteq> x"
      "mb3 = (mb s)(n \<mapsto> nm\<lparr>b_prev := NULL\<rparr>, x \<mapsto> m\<lparr>b_prev := NULL, b_next := NULL\<rparr>)"
      using pv0 n0 nm ne by (simp_all add: Q'_def mb3_def mb2_def mb1_def)
    then show ?thesis using Q m(1) by (simp add: unlink_msg_def lis_simps m(2,3) upd_mb_qs_comm t_def)
  next
    assume c: "as \<noteq> []" "bs = []"
    then have "pv \<noteq> NULL" "n = NULL" "Q' = Q\<lparr>q_last := pv\<rparr>" "mb s pv = Some pm" "pv \<noteq> x"
      "mb3 = (mb s)(pv \<mapsto> pm\<lparr>b_next := NULL\<rparr>, x \<mapsto> m\<lparr>b_prev := NULL, b_next := NULL\<rparr>)"
      using pv0 n0 pm ne by (simp_all add: Q'_def mb3_def mb2_def mb1_def)
    then show ?thesis using Q m(1) by (simp add: unlink_msg_def lis_simps m(2,3) upd_mb_qs_comm t_def)
  next
    assume c: "as \<noteq> []" "bs \<noteq> []"
    then have "pv \<noteq> NULL" "n \<noteq> NULL" "Q' = Q" "mb s pv = Some pm" "mb s n = Some nm" "pv \<noteq> x" "n \<noteq> x" "n \<noteq> pv"
      "mb3 = (mb s)(pv \<mapsto> pm\<lparr>b_next := n\<rparr>, n \<mapsto> nm\<lparr>b_prev := pv\<rparr>, x \<mapsto> m\<lparr>b_prev := NULL, b_next := NULL\<rparr>)"
      using pv0 n0 pm nm ne by (simp_all add: Q'_def mb3_def mb2_def mb1_def)
    then show ?thesis using m(1) by (simp add: unlink_msg_def lis_simps m(2,3) upd_mb_qs_comm t_def fun_upd_idem[where f = "qs s" and x = q and y = "Some Q", OF Q])
  qed
  moreover have fr: "mqframe s t" unfolding t_def by (rule mqframe_down)
  moreover have be: "body_eq s t"
    using m pm nm ne by (intro body_eqI) (auto simp: t_def mb3_def mb2_def mb1_def)
  moreover have lx: "mlink t x = Some (NULL, NULL)" by (simp add: t_def mlink_def mb3_def)
  moreover have "qlist t Q' (as @ bs)"
  proof (rule qlistI[OF _ be])
    have "dl (mlink t) NULL (if as = [] then hd0 bs else q_first Q) (as @ bs)
        (if bs = [] then (if as = [] then NULL else last as) else q_last Q) NULL"
    proof (rule dl_del[OF dl])
      show "mlink t a = Some (hd0 bs, k)" if "as \<noteq> []" "a = last as" "mlink s a = Some (x, k)" for a k
      proof -
        have a: "a = pv" "n = hd0 bs" using that(1,2) by (simp_all add: pv_def n_def)
        have "b_prev pm = k" using that(3) pm[OF that(1)] unfolding a(1) by (auto simp: mlink_def)
        moreover have "\<not> (bs \<noteq> [] \<and> pv = n)" "pv \<noteq> x" using ne that(1) by auto
        ultimately show ?thesis unfolding a(1) lt a(2)[symmetric] using that(1) by auto
      qed
      show "mlink t b = Some (k, if as = [] then NULL else last as)"
        if "bs \<noteq> []" "b = hd bs" "mlink s b = Some (k, x)" for b k
      proof -
        have b: "b = n" using that(1,2) nin by simp
        have "b_next nm = k" using that(3) nm[OF that(1)] unfolding b by (auto simp: mlink_def)
        then show ?thesis unfolding b lt pv_def[symmetric] using that(1) ne(2) by simp
      qed
      show "mlink t y = mlink s y" if "y \<noteq> x" "as = [] \<or> y \<noteq> last as" "bs = [] \<or> y \<noteq> hd bs" for y
      proof -
        have "as = [] \<or> y \<noteq> pv" "bs = [] \<or> y \<noteq> n" using that(2,3) nin by (auto simp: pv_def)
        then show ?thesis unfolding lt using that(1) by auto
      qed
    qed
    then show "dl (mlink t) NULL (q_first Q') (as @ bs) (q_last Q') NULL"
      by (simp add: Q'_def n_def pv_def split: if_splits)
    show "\<forall>y\<in>set (as @ bs). msg_ok s y" using ok by auto
  qed
  moreover have "mb t y = mb s y" if "y \<notin> set (as @ x # bs)" for y
  proof -
    have "y \<noteq> x" "as = [] \<or> y \<noteq> pv" "bs = [] \<or> y \<noteq> n" using that pvin nin by auto
    then show ?thesis by (auto simp: t_def mb3_def mb2_def mb1_def)
  qed
  moreover have "qs t = (qs s)(q \<mapsto> Q')" "Q' = Q\<lparr>q_first := q_first Q', q_last := q_last Q'\<rparr>"
    by (simp_all add: t_def Q'_def)
  ultimately show ?thesis by blast
qed

end
