(* ===== verification/LiS_QueueAcct.thy ===== *)
theory LiS_QueueAcct
  imports LiS_QueuePlace
begin

text \<open>
  The byte counts of a queue and of its bands: the invariant that the counts, the ends and the
  full flags of the bands agree with the messages in the queue, and the behaviour of the
  accounting code of \<open>head/queue.c\<close> on it.
\<close>

unbundle bit_operations_syntax

subsection \<open>Classes of messages\<close>

text \<open>The messages of band \<open>c\<close>, and those accounted in the queue itself.\<close>

definition cls :: "lis \<Rightarrow> u8 \<Rightarrow> ptr list \<Rightarrow> ptr list" where
  "cls s c xs = filter (\<lambda>x. \<not> hipri s x \<and> mband s x = c) xs"

definition main :: "lis \<Rightarrow> ptr list \<Rightarrow> ptr list" where
  "main s xs = filter (\<lambda>x. hipri s x \<or> mband s x = 0) xs"

definition tot :: "lis \<Rightarrow> ptr list \<Rightarrow> u64" where
  "tot s xs = sum_list (map (msize s) xs)"

text \<open>The messages of the queue together are less than \<open>2 ^ 64\<close> bytes.\<close>

definition fits :: "lis \<Rightarrow> ptr list \<Rightarrow> bool" where
  "fits s xs \<longleftrightarrow> sum_list (map (\<lambda>x. unat (msize s x)) xs) < 2 ^ 64"

definition bunused :: "qband \<Rightarrow> bool" where
  "bunused B \<longleftrightarrow> qb_first B = NULL \<and> qb_last B = NULL"

definition bclass :: "lis \<Rightarrow> ptr list \<Rightarrow> u8 \<Rightarrow> qband \<Rightarrow> bool" where
  "bclass s xs c B \<longleftrightarrow> cls s c xs \<noteq> [] \<and> qb_first B = hd (cls s c xs) \<and> qb_last B = last (cls s c xs) \<and>
     qb_count B = tot s (cls s c xs) \<and> (qb_hiwat B < qb_count B \<longrightarrow> F_ISSET (qb_flag B) QB_FULL)"

text \<open>Each band structure is unused or belongs to one class, and each class with messages has one.\<close>

definition holder :: "lis \<Rightarrow> (ptr \<Rightarrow> qband option) \<Rightarrow> ptr list \<Rightarrow> ptr list \<Rightarrow> u8 \<Rightarrow> ptr \<Rightarrow> bool" where
  "holder s G xs bs c b \<longleftrightarrow> b \<in> set bs \<and> (\<exists>B. G b = Some B \<and> bclass s xs c B)"

definition binv :: "lis \<Rightarrow> (ptr \<Rightarrow> qband option) \<Rightarrow> ptr list \<Rightarrow> ptr list \<Rightarrow> bool" where
  "binv s G xs bs \<longleftrightarrow>
     (\<forall>b\<in>set bs. \<exists>B. G b = Some B \<and> (bunused B \<or> (\<exists>c. c \<noteq> 0 \<and> bclass s xs c B))) \<and>
     (\<forall>c. c \<noteq> 0 \<longrightarrow> cls s c xs \<noteq> [] \<longrightarrow> (\<exists>!b. holder s G xs bs c b))"

lemma binv_band:
  "binv s G xs bs \<Longrightarrow> b \<in> set bs \<Longrightarrow> \<exists>B. G b = Some B \<and> (bunused B \<or> (\<exists>c. c \<noteq> 0 \<and> bclass s xs c B))"
  by (simp add: binv_def)

definition qb_links :: "(ptr \<Rightarrow> qband option) \<Rightarrow> ptr \<Rightarrow> ptr option" where
  "qb_links G b = map_option qb_next (G b)"

definition bandlist :: "(ptr \<Rightarrow> qband option) \<Rightarrow> ptr \<Rightarrow> ptr list \<Rightarrow> bool" where
  "bandlist G p bs \<longleftrightarrow> sseg (qb_links G) p bs NULL"

definition qacct :: "lis \<Rightarrow> queue \<Rightarrow> ptr list \<Rightarrow> bool" where
  "qacct s Q xs \<longleftrightarrow> q_count Q = tot s (main s xs) \<and> (q_hiwat Q < q_count Q \<longrightarrow> F_ISSET (q_flag Q) QFULL)"

text \<open>The invariant of a queue that holds the messages \<open>xs\<close> and the bands \<open>bs\<close>.\<close>

definition queue_ok :: "lis \<Rightarrow> ptr \<Rightarrow> ptr list \<Rightarrow> ptr list \<Rightarrow> bool" where
  "queue_ok s q xs bs \<longleftrightarrow> q \<noteq> NULL \<and> (\<exists>Q. qs s q = Some Q \<and> q_magic Q = Q_MAGIC \<and> qlist s Q xs \<and>
     desc s xs \<and> fits s xs \<and> bandlist (qbands s) (q_bandp Q) bs \<and> binv s (qbands s) xs bs \<and> qacct s Q xs)"

subsection \<open>Facts about classes\<close>

lemma cls_in: "x \<in> set (cls s c xs) \<longleftrightarrow> x \<in> set xs \<and> \<not> hipri s x \<and> mband s x = c"
  by (auto simp: cls_def)

lemma cls_append: "cls s c (xs @ ys) = cls s c xs @ cls s c ys"
  by (simp add: cls_def)

lemma cls_Cons: "cls s c (x # xs) = (if \<not> hipri s x \<and> mband s x = c then x # cls s c xs else cls s c xs)"
  by (simp add: cls_def)

lemma bclass_first: "bclass s xs c B \<Longrightarrow> qb_first B \<in> set xs \<and> \<not> hipri s (qb_first B) \<and> mband s (qb_first B) = c"
  using cls_in[of "hd (cls s c xs)" s c xs] by (auto simp: bclass_def)

lemma bclass_unique: "bclass s xs c B \<Longrightarrow> bclass s xs' c' B \<Longrightarrow> c = c'"
  by (auto dest: bclass_first)

lemma tot_Nil [simp]: "tot s [] = 0"
  by (simp add: tot_def)

lemma tot_append: "tot s (xs @ ys) = tot s xs + tot s ys"
  by (simp add: tot_def)

lemma tot_Cons: "tot s (x # xs) = msize s x + tot s xs"
  by (simp add: tot_def)

lemma main_cases: "main s (as @ x # bs) = main s as @ (if hipri s x \<or> mband s x = 0 then [x] else []) @ main s bs"
  by (simp add: main_def)

lemma unat_tot: "fits s xs \<Longrightarrow> unat (tot s xs) = sum_list (map (\<lambda>x. unat (msize s x)) xs)"
proof (induction xs)
  case (Cons x xs)
  then have "unat (tot s xs) = sum_list (map (\<lambda>x. unat (msize s x)) xs)" by (simp add: fits_def)
  moreover from this Cons.prems have "unat (msize s x) + unat (tot s xs) < 2 ^ 64" by (simp add: fits_def)
  then have "unat (msize s x + tot s xs) = unat (msize s x) + unat (tot s xs)"
    by (simp add: unat_word_ariths)
  ultimately show ?case by (simp add: tot_Cons)
qed simp

lemma fits_filter: "fits s xs \<Longrightarrow> fits s (filter P xs)"
  unfolding fits_def by (rule le_less_trans[OF sum_list_filter_le_nat])

text \<open>What depends only on the bodies of the messages.\<close>

lemma body_eq_cls:
  assumes "body_eq s t"
  shows "cls t c xs = cls s c xs" "main t xs = main s xs"
  using assms by (simp_all add: cls_def main_def body_eq_fields)

lemma body_eq_tot: "body_eq s t \<Longrightarrow> \<forall>x\<in>set xs. msg_ok s x \<Longrightarrow> tot t xs = tot s xs"
  unfolding tot_def by (metis (mono_tags, lifting) body_eq_msize map_eq_conv)

lemma body_eq_fits: "body_eq s t \<Longrightarrow> \<forall>x\<in>set xs. msg_ok s x \<Longrightarrow> fits t xs = fits s xs"
  unfolding fits_def by (metis (mono_tags, lifting) body_eq_msize map_eq_conv)

lemma body_eq_bclass: "body_eq s t \<Longrightarrow> \<forall>x\<in>set xs. msg_ok s x \<Longrightarrow> bclass t xs c B = bclass s xs c B"
  unfolding bclass_def by (auto simp: body_eq_cls body_eq_tot cls_in)

lemma body_eq_binv:
  assumes "body_eq s t" "\<forall>x\<in>set xs. msg_ok s x"
  shows "binv t G xs bs = binv s G xs bs"
  using assms unfolding binv_def holder_def by (simp add: body_eq_cls body_eq_bclass)

lemma body_eq_qacct:
  assumes "body_eq s t" "\<forall>x\<in>set xs. msg_ok s x"
  shows "qacct t Q xs = qacct s Q xs"
proof -
  have "\<forall>x\<in>set (main s xs). msg_ok s x" using assms(2) by (simp add: main_def)
  then have "tot t (main s xs) = tot s (main s xs)" by (rule body_eq_tot[OF assms(1)])
  then show ?thesis unfolding qacct_def body_eq_cls[OF assms(1)] by simp
qed

subsection \<open>A band changed, the others kept\<close>

lemma binv_update:
  assumes inv: "binv s G xs bs" and c: "c \<noteq> 0" and bs': "set bs' = insert b (set bs)"
    and other: "\<And>c'. c' \<noteq> c \<Longrightarrow> c' \<noteq> 0 \<Longrightarrow> cls s c' xs' = cls s c' xs"
    and old: "\<And>B0. b \<in> set bs \<Longrightarrow> G b = Some B0 \<Longrightarrow> bunused B0 \<or> bclass s xs c B0"
    and sole: "\<And>b'. b' \<noteq> b \<Longrightarrow> \<not> holder s G xs bs c b'"
    and new: "cls s c xs' = [] \<and> bunused B \<or> bclass s xs' c B"
    and nn: "NULL \<notin> set xs" "NULL \<notin> set xs'"
    and G': "\<And>x. x \<noteq> b \<Longrightarrow> G' x = G x" "G' b = Some B"
  shows "binv s G' xs' bs'"
proof -
  have G: "\<exists>B. G b' = Some B \<and> (bunused B \<or> (\<exists>c. c \<noteq> 0 \<and> bclass s xs c B))" if "b' \<in> set bs" for b'
    using inv that by (auto simp: binv_def)
  have cong: "bclass s xs' c' B1 = bclass s xs c' B1" if "c' \<noteq> c" "c' \<noteq> 0" for c' B1
    using other[OF that] by (simp add: bclass_def)
  have nonnull: "qb_first B1 \<noteq> NULL" if "bclass s xs c' B1 \<or> bclass s xs' c' B1" for c' B1
    using that nn bclass_first by (metis)
  have kept: "bunused B1 \<or> (\<exists>c'. c' \<noteq> 0 \<and> c' \<noteq> c \<and> bclass s xs c' B1)"
    if "b' \<in> set bs" "b' \<noteq> b" "G b' = Some B1" for b' B1
    using G[OF that(1)] sole[OF that(2)] that by (auto simp: holder_def)
  have holder_other: "holder s G' xs' bs' c' b' = holder s G xs bs c' b'" if "c' \<noteq> c" "c' \<noteq> 0" for c' b'
  proof (cases "b' = b")
    case True
    have "\<not> bclass s xs' c' B"
      using new bclass_unique that(1) nonnull by (metis bunused_def)
    moreover have "\<not> bclass s xs c' B0" if "b \<in> set bs" "G b = Some B0" for B0
      using old[OF that] bclass_unique nonnull \<open>c' \<noteq> c\<close> by (metis bunused_def)
    ultimately show ?thesis using True G' by (auto simp: holder_def)
  next
    case False
    then show ?thesis using G' bs' cong[OF that] by (auto simp: holder_def)
  qed
  have "\<exists>B1. G' b' = Some B1 \<and> (bunused B1 \<or> (\<exists>c. c \<noteq> 0 \<and> bclass s xs' c B1))" if "b' \<in> set bs'" for b'
  proof (cases "b' = b")
    case True
    with new c G'(2) show ?thesis by auto
  next
    case False
    with that bs' have in_bs: "b' \<in> set bs" by simp
    with G obtain B1 where "G b' = Some B1" by blast
    with kept[OF in_bs False this] cong G'(1)[OF False] show ?thesis by auto
  qed
  moreover have "\<exists>!b'. holder s G' xs' bs' c' b'" if "c' \<noteq> 0" "cls s c' xs' \<noteq> []" for c'
  proof (cases "c' = c")
    case True
    have B: "bclass s xs' c B" using new that True by auto
    have "holder s G' xs' bs' c b" using B bs' G'(2) by (auto simp: holder_def)
    moreover have "\<not> holder s G' xs' bs' c b'" if ne: "b' \<noteq> b" for b'
    proof
      assume "holder s G' xs' bs' c b'"
      then obtain B1 where B1: "b' \<in> set bs" "G b' = Some B1" "bclass s xs' c B1"
        using ne bs' G'(1)[OF ne] by (auto simp: holder_def)
      from kept[OF B1(1) ne B1(2)] show False
      proof
        assume "bunused B1"
        then show False using nonnull[of c B1] B1(3) by (simp add: bunused_def)
      next
        assume "\<exists>c'. c' \<noteq> 0 \<and> c' \<noteq> c \<and> bclass s xs c' B1"
        then show False using bclass_unique[OF B1(3)] by blast
      qed
    qed
    ultimately show ?thesis unfolding True by metis
  next
    case False
    have "\<exists>!b'. holder s G xs bs c' b'" using inv that other[OF False that(1)] by (auto simp: binv_def)
    then show ?thesis unfolding holder_other[OF False that(1)] .
  qed
  ultimately show ?thesis unfolding binv_def by blast
qed

end
