(* ===== verification/LiS_QueueBand.thy ===== *)
theory LiS_QueueBand
  imports LiS_QueueAcct
begin

text \<open>
  The behaviour of \<open>find_qband\<close> and of the counting code of \<open>head/queue.c\<close> on a queue that satisfies
  the invariant.
\<close>

unbundle bit_operations_syntax

subsection \<open>Searching the bands\<close>

definition bmatch :: "lis \<Rightarrow> u8 \<Rightarrow> ptr \<Rightarrow> bool" where
  "bmatch s c b \<longleftrightarrow> (\<exists>B. qbands s b = Some B \<and> qb_first B \<noteq> NULL \<and> mband s (qb_first B) = c)"

definition bfree :: "lis \<Rightarrow> ptr \<Rightarrow> bool" where
  "bfree s b \<longleftrightarrow> (\<exists>B. qbands s b = Some B \<and> qb_first B = NULL)"

definition band_wf :: "lis \<Rightarrow> ptr list \<Rightarrow> bool" where
  "band_wf s bs \<longleftrightarrow> (\<forall>b\<in>set bs. \<exists>B. qbands s b = Some B \<and> (qb_first B = NULL \<or> mb s (qb_first B) \<noteq> None))"

lemma bmatch_Some: "qbands s b = Some B \<Longrightarrow> bmatch s c b \<longleftrightarrow> qb_first B \<noteq> NULL \<and> mband s (qb_first B) = c"
  by (simp add: bmatch_def)

lemma bfree_Some: "qbands s b = Some B \<Longrightarrow> bfree s b \<longleftrightarrow> qb_first B = NULL"
  by (simp add: bfree_def)

text \<open>The first element with a property, null if there is none.\<close>

fun found :: "(ptr \<Rightarrow> bool) \<Rightarrow> ptr list \<Rightarrow> ptr" where
  "found P [] = NULL"
| "found P (b # bs) = (if P b then b else found P bs)"

lemma found_NULL: "NULL \<notin> set bs \<Longrightarrow> found P bs = NULL \<longleftrightarrow> (\<forall>b\<in>set bs. \<not> P b)"
  by (induction bs) auto

lemma found_in: "found P bs \<noteq> NULL \<Longrightarrow> found P bs \<in> set bs \<and> P (found P bs)"
  by (induction bs) (auto split: if_splits)

lemma qband_find_spec:
  "bandlist (qbands s) p bs \<Longrightarrow> band_wf s bs \<Longrightarrow> qband_find p c s = Some (found (bmatch s c) bs)"
proof (induction bs arbitrary: p)
  case Nil
  then show ?case by (simp add: bandlist_def qband_find.simps)
next
  case (Cons b bs)
  then obtain B where B: "p = b" "b \<noteq> NULL" "qbands s b = Some B" "bandlist (qbands s) (qb_next B) bs"
    by (auto simp: bandlist_def qb_links_def)
  have "qb_first B = NULL \<or> mb s (qb_first B) \<noteq> None" using Cons.prems(2) B(3) by (auto simp: band_wf_def)
  moreover have "qband_find (qb_next B) c s = Some (found (bmatch s c) bs)"
    using Cons.IH[OF B(4)] Cons.prems(2) by (simp add: band_wf_def)
  ultimately show ?case
    using B by (auto simp: qband_find.simps[of b] bmatch_Some mband_def)
qed

lemma qband_unused_spec:
  "bandlist (qbands s) p bs \<Longrightarrow> band_wf s bs \<Longrightarrow> qband_unused p s = Some (found (bfree s) bs)"
proof (induction bs arbitrary: p)
  case Nil
  then show ?case by (simp add: bandlist_def qband_unused.simps)
next
  case (Cons b bs)
  then obtain B where B: "p = b" "b \<noteq> NULL" "qbands s b = Some B" "bandlist (qbands s) (qb_next B) bs"
    by (auto simp: bandlist_def qb_links_def)
  moreover have "qband_unused (qb_next B) s = Some (found (bfree s) bs)"
    using Cons.IH[OF B(4)] Cons.prems(2) by (simp add: band_wf_def)
  ultimately show ?case
    by (auto simp: qband_unused.simps[of b] bfree_Some)
qed

subsection \<open>\<open>find_qband\<close>\<close>

text \<open>The kernel can give a new band structure.\<close>

definition qb_fresh :: "lis \<Rightarrow> bool" where
  "qb_fresh s \<longleftrightarrow> (case kmem s of [] \<Rightarrow> False | p # _ \<Rightarrow> p \<noteq> NULL \<and> qbands s p = None)"

text \<open>At most the next answer of the kernel was used, for a new structure.\<close>

definition qb_step :: "lis \<Rightarrow> lis \<Rightarrow> bool" where
  "qb_step s t \<longleftrightarrow> kmem t = kmem s \<and> dom (qbands t) = dom (qbands s) \<or>
     (\<exists>p. kmem s = p # kmem t \<and> dom (qbands t) = insert p (dom (qbands s)))"

definition bqframe :: "lis \<Rightarrow> lis \<Rightarrow> bool" where
  "bqframe s t \<longleftrightarrow> t = s\<lparr>qs := qs t, qbands := qbands t, kmem := kmem t, qband_cnt := qband_cnt t\<rparr>"

lemma bqframe_fields:
  assumes "bqframe s t"
  shows "mb t = mb s" "db t = db s" "sds t = sds s" "qhead t = qhead s" "qtail t = qtail s"
    "qsyncs t = qsyncs s" "mem t = mem s"
  by (subst assms[unfolded bqframe_def], simp)+

lemma bqframe_body_eq: "bqframe s t \<Longrightarrow> body_eq s t"
  by (simp add: body_eq_def bqframe_fields)

lemma bqframe_mlink: "bqframe s t \<Longrightarrow> mlink t = mlink s"
  by (rule mlink_mb) (simp add: bqframe_fields)

definition band_reset :: "queue \<Rightarrow> qband \<Rightarrow> qband" where
  "band_reset Q B = B\<lparr>qb_count := 0, qb_flag := 0, qb_hiwat := q_hiwat Q, qb_lowat := q_lowat Q\<rparr>"

lemma binv_band_wf:
  assumes "binv s (qbands s) xs bs" "\<forall>x\<in>set xs. msg_ok s x"
  shows "band_wf s bs"
  unfolding band_wf_def
proof
  fix b assume "b \<in> set bs"
  then obtain B where B: "qbands s b = Some B" "bunused B \<or> (\<exists>c. c \<noteq> 0 \<and> bclass s xs c B)"
    using binv_band[OF assms(1)] by blast
  have "qb_first B = NULL \<or> mb s (qb_first B) \<noteq> None"
  proof (cases "bunused B")
    case False
    then have "qb_first B \<in> set xs" using B(2) bclass_first by blast
    then have "msg_ok s (qb_first B)" using assms(2) by blast
    then show ?thesis by (auto elim: msg_okE)
  qed (simp add: bunused_def)
  with B(1) show "\<exists>B. qbands s b = Some B \<and> (qb_first B = NULL \<or> mb s (qb_first B) \<noteq> None)" by blast
qed

text \<open>A structure that matches the band of some message holds that band, and conversely.\<close>

lemma binv_bmatch:
  assumes inv: "binv s (qbands s) xs bs" and ok: "\<forall>x\<in>set xs. msg_ok s x" and b: "b \<in> set bs" and c: "c \<noteq> 0"
  shows "bmatch s c b \<longleftrightarrow> holder s (qbands s) xs bs c b"
proof
  assume "bmatch s c b"
  then obtain B where B: "qbands s b = Some B" "qb_first B \<noteq> NULL" "mband s (qb_first B) = c"
    by (auto simp: bmatch_def)
  then obtain c' where "bclass s xs c' B" using binv_band[OF inv b] by (auto simp: bunused_def)
  moreover then have "c' = c" using B(3) bclass_first by blast
  ultimately show "holder s (qbands s) xs bs c b" using b B(1) by (auto simp: holder_def)
next
  assume "holder s (qbands s) xs bs c b"
  then obtain B where B: "qbands s b = Some B" "bclass s xs c B" by (auto simp: holder_def)
  then have "qb_first B \<in> set xs" "mband s (qb_first B) = c" using bclass_first by blast+
  moreover then have "qb_first B \<noteq> NULL" using ok by (auto simp: msg_ok_def)
  ultimately show "bmatch s c b" using B(1) by (auto simp: bmatch_def)
qed

lemma binv_bfree:
  assumes inv: "binv s (qbands s) xs bs" and ok: "\<forall>x\<in>set xs. msg_ok s x" and b: "b \<in> set bs" "qbands s b = Some B"
  shows "bfree s b \<longleftrightarrow> bunused B"
proof -
  have "bunused B \<or> (\<exists>c. c \<noteq> 0 \<and> bclass s xs c B)" using binv_band[OF inv b(1)] b(2) by auto
  moreover have "qb_first B \<noteq> NULL" if "bclass s xs c B" for c
    using bclass_first[OF that] ok by (auto simp: msg_ok_def)
  ultimately show ?thesis using bfree_Some[of s b B] b(2) unfolding bunused_def by blast
qed

text \<open>The structure of a band that has messages is found, and nothing changes.\<close>

lemma find_qband_used:
  assumes Q: "qs s q = Some Q" "q \<noteq> NULL" and bs: "bandlist (qbands s) (q_bandp Q) bs"
    and inv: "binv s (qbands s) xs bs" and ok: "\<forall>x\<in>set xs. msg_ok s x" and c: "c \<noteq> 0" "cls s c xs \<noteq> []"
  shows "\<exists>b. find_qband q (uint c) s = Some (b, s) \<and> b \<noteq> NULL \<and> holder s (qbands s) xs bs c b"
proof -
  let ?b = "found (bmatch s c) bs"
  have nn: "NULL \<notin> set bs" using bs sseg_nonzero by (fastforce simp: bandlist_def)
  obtain b0 where "holder s (qbands s) xs bs c b0" using inv c by (auto simp: binv_def)
  then have "bmatch s c b0" "b0 \<in> set bs" using binv_bmatch[OF inv ok _ c(1)] by (auto simp: holder_def)
  then have b: "?b \<noteq> NULL" using found_NULL[OF nn, of "bmatch s c"] by blast
  then have h: "holder s (qbands s) xs bs c ?b" using found_in[OF b] binv_bmatch[OF inv ok _ c(1)] by blast
  then obtain B where B: "qbands s ?b = Some B" "bclass s xs c B" by (auto simp: holder_def)
  then have "qb_first B \<noteq> NULL" using bclass_first ok by (metis msg_ok_def)
  moreover have "qband_find (q_bandp Q) c s = Some ?b"
    by (rule qband_find_spec[OF bs binv_band_wf[OF inv ok]])
  moreover have "\<not> uint c > 255" using unsigned_less[of c, where 'a = int] by simp
  ultimately have "find_qband q (uint c) s = Some (?b, s)"
    using Q b B(1) by (simp add: find_qband_def)
  with b h show ?thesis by blast
qed

text \<open>A band without messages gets an unused structure, or a new one, initialised from the queue.\<close>

lemma find_qband_new:
  assumes Q: "qs s q = Some Q" "q \<noteq> NULL" and bs: "bandlist (qbands s) (q_bandp Q) bs"
    and inv: "binv s (qbands s) xs bs" and ok: "\<forall>x\<in>set xs. msg_ok s x" and c: "c \<noteq> 0" "cls s c xs = []"
    and fresh: "(\<exists>b\<in>set bs. bfree s b) \<or> qb_fresh s"
  shows "\<exists>b t B bs' p. find_qband q (uint c) s = Some (b, t) \<and> b \<noteq> NULL \<and> bqframe s t \<and>
     set bs' = insert b (set bs) \<and> qs t = (qs s)(q \<mapsto> Q\<lparr>q_bandp := p\<rparr>) \<and>
     qbands t = (qbands s)(b \<mapsto> B) \<and> bandlist (qbands t) p bs' \<and> bunused B \<and> qb_count B = 0 \<and>
     qb_flag B = 0 \<and> qb_hiwat B = q_hiwat Q \<and> qb_lowat B = q_lowat Q \<and> qb_step s t \<and>
     (b \<in> set bs \<longrightarrow> bfree s b)"
proof -
  have nn: "NULL \<notin> set bs" using bs sseg_nonzero by (fastforce simp: bandlist_def)
  have wf: "band_wf s bs" by (rule binv_band_wf[OF inv ok])
  have "\<not> bmatch s c b" if "b \<in> set bs" for b
    using binv_bmatch[OF inv ok that c(1)] c(2) by (auto simp: holder_def bclass_def)
  then have none: "qband_find (q_bandp Q) c s = Some NULL"
    using qband_find_spec[OF bs wf, of c] found_NULL[OF nn, of "bmatch s c"] by simp
  have small: "\<not> uint c > 255" using unsigned_less[of c, where 'a = int] by simp
  let ?b = "found (bfree s) bs"
  have un: "qband_unused (q_bandp Q) s = Some ?b" by (rule qband_unused_spec[OF bs wf])
  show ?thesis
  proof (cases "?b = NULL")
    case False
    then have b: "?b \<in> set bs" "bfree s ?b" using found_in by blast+
    then obtain B where B: "qbands s ?b = Some B" "qb_first B = NULL" by (auto simp: bfree_def)
    then have "bunused B" using binv_bfree[OF inv ok b(1) B(1)] b(2) by blast
    let ?B = "band_reset Q B"
    let ?t = "s\<lparr>qbands := (qbands s)(?b \<mapsto> ?B)\<rparr>"
    have "find_qband q (uint c) s = Some (?b, ?t)"
      using Q none un small False B by (simp add: find_qband_def lis_simps band_reset_def)
    moreover have "qb_links (qbands ?t) = qb_links (qbands s)"
      using B(1) by (auto simp: qb_links_def band_reset_def)
    then have "bandlist (qbands ?t) (q_bandp Q) bs" using bs by (simp add: bandlist_def)
    moreover have "set bs = insert ?b (set bs)" using b(1) by blast
    moreover have "qs ?t = (qs s)(q \<mapsto> Q\<lparr>q_bandp := q_bandp Q\<rparr>)"
      by (simp add: fun_upd_idem[where f = "qs s" and x = q and y = "Some Q", OF Q(1)])
    moreover have "bqframe s ?t" by (simp add: bqframe_def)
    moreover have "qb_step s ?t" using B(1) by (auto simp: qb_step_def)
    moreover have "bunused ?B" "qb_count ?B = 0" "qb_flag ?B = 0" "qb_hiwat ?B = q_hiwat Q"
      "qb_lowat ?B = q_lowat Q" using \<open>bunused B\<close> by (simp_all add: band_reset_def bunused_def)
    moreover have "qbands ?t = (qbands s)(?b \<mapsto> ?B)" by simp
    ultimately show ?thesis using False b(2) by blast
  next
    case True
    then have "\<forall>b\<in>set bs. \<not> bfree s b" using found_NULL[OF nn, of "bfree s"] by simp
    with fresh obtain p ps where p: "kmem s = p # ps" "p \<noteq> NULL" "qbands s p = None"
      by (auto simp: qb_fresh_def split: list.splits)
    have pbs: "p \<notin> set bs" using p(3) binv_band[OF inv] by force
    let ?B = "band_reset Q (qband_zero\<lparr>qb_next := q_bandp Q\<rparr>)"
    let ?t = "s\<lparr>qs := (qs s)(q \<mapsto> Q\<lparr>q_bandp := p\<rparr>), qbands := (qbands s)(p \<mapsto> ?B), kmem := ps,
               qband_cnt := qband_cnt s + 1\<rparr>"
    have "find_qband q (uint c) s = Some (p, ?t)"
      using Q none un small True p
      by (simp add: find_qband_def lis_simps band_reset_def qband_alloc_def kalloc_def qband_zero_def)
    moreover have "qb_links (qbands ?t) = (qb_links (qbands s))(p \<mapsto> q_bandp Q)"
      by (auto simp: qb_links_def band_reset_def)
    then have "bandlist (qbands ?t) p (p # bs)" using bs pbs p(2) by (simp add: bandlist_def)
    moreover have "qb_step s ?t" using p(1) by (simp add: qb_step_def)
    ultimately show ?thesis
      using p(2) pbs
      by (intro exI[of _ p] exI[of _ ?t] exI[of _ ?B] exI[of _ "p # bs"] exI[of _ p])
         (auto simp: bqframe_def band_reset_def bunused_def qband_zero_def)
  qed
qed

end
