(* ===== verification/LiS_QueueUpd.thy ===== *)
theory LiS_QueueUpd
  imports LiS_QueueBand LiS_Sched
begin

text \<open>
  The accounting of a message that enters or leaves a queue (\<open>updatequeue\<close>, \<open>adjust_q_count\<close>,
  \<open>chk_band\<close>): closed forms of the code on a queue and on a band structure, and the invariant
  between the two halves of an operation, when the links already hold a message that the counts
  do not yet, or still, account for.
\<close>

unbundle bit_operations_syntax

subsection \<open>Closed forms\<close>

definition qcounted :: "u64 \<Rightarrow> queue \<Rightarrow> queue" where
  "qcounted n Q = (if q_count Q + n > q_hiwat Q
     then Q\<lparr>q_count := q_count Q + n, q_flag := q_flag Q OR (QFULL OR QWASFULL)\<rparr>
     else Q\<lparr>q_count := q_count Q + n\<rparr>)"

definition bcounted :: "u64 \<Rightarrow> ptr \<Rightarrow> ptr \<Rightarrow> ptr \<Rightarrow> qband \<Rightarrow> qband" where
  "bcounted n mp nx pv B = B\<lparr>qb_count := qb_count B + n,
     qb_first := (if qb_first B = NULL \<or> nx = qb_first B then mp else qb_first B),
     qb_last := (if qb_last B = NULL \<or> pv = qb_last B then mp else qb_last B),
     qb_flag := (if qb_count B + n > qb_hiwat B then qb_flag B OR (QB_FULL OR QB_WASFULL) else qb_flag B)\<rparr>"

lemma count_in_queue_eval:
  "qs s q = Some Q \<Longrightarrow> count_in_queue q n s = Some (s\<lparr>qs := (qs s)(q \<mapsto> qcounted (word_of_int n) Q)\<rparr>)"
  by (simp add: count_in_queue_def lis_simps qcounted_def)

lemma count_in_band_eval:
  assumes "qbands s b = Some B" "mb s mp = Some m"
  shows "count_in_band b mp n True s =
     Some (s\<lparr>qbands := (qbands s)(b \<mapsto> bcounted (word_of_int n) mp (b_next m) (b_prev m) B)\<rparr>)"
  using assms by (cases B) (simp add: count_in_band_def lis_simps bcounted_def)

subsection \<open>Messages of one band are neighbours\<close>

lemma in_cls_key: "x \<in> set xs \<Longrightarrow> x \<in> set (cls s c xs) \<longleftrightarrow> qkey s x = unat c"
  using unat_u8_less[of c] unat_u8_less[of "mband s x"] by (auto simp: cls_in qkey_def word_unat_eq_iff)

lemma cls_key: "cls s c xs = filter (\<lambda>x. qkey s x = unat c) xs"
  unfolding cls_def
proof (rule filter_cong)
  fix x assume "x \<in> set xs"
  then show "(\<not> hipri s x \<and> mband s x = c) = (qkey s x = unat c)"
    using in_cls_key[of x xs s c] by (simp add: cls_in)
qed simp

lemma desc_append: "desc s (as @ bs) \<longleftrightarrow> desc s as \<and> desc s bs \<and> (\<forall>a\<in>set as. \<forall>b\<in>set bs. qkey s b \<le> qkey s a)"
  by (auto simp: desc_def sorted_wrt_append)

lemma desc_Cons: "desc s (a # bs) \<longleftrightarrow> desc s bs \<and> (\<forall>b\<in>set bs. qkey s b \<le> qkey s a)"
  by (auto simp: desc_def)

text \<open>After, and before, a message of band \<open>c\<close> the rest of the band comes at once.\<close>

lemma cls_after:
  assumes "desc s (bs)" "\<forall>b\<in>set bs. qkey s b \<le> unat c" "cls s c bs \<noteq> []"
  shows "hd (cls s c bs) = hd bs" and "hd bs \<in> set (cls s c bs)"
proof -
  obtain b bs' where bs: "bs = b # bs'" using assms(3) by (cases bs) (auto simp: cls_def)
  obtain x where x: "x \<in> set bs" "qkey s x = unat c" using assms(3) by (auto simp: cls_key filter_empty_conv)
  then have "qkey s b = unat c" using assms(1,2) bs by (auto simp: desc_Cons intro: le_antisym)
  then show "hd (cls s c bs) = hd bs" "hd bs \<in> set (cls s c bs)" by (auto simp: bs cls_key)
qed

lemma cls_before:
  assumes "desc s as" "\<forall>a\<in>set as. unat c \<le> qkey s a" "cls s c as \<noteq> []"
  shows "last (cls s c as) = last as" and "last as \<in> set (cls s c as)"
proof -
  obtain a as' where as: "as = as' @ [a]" using assms(3) by (cases as rule: rev_cases) (auto simp: cls_def)
  obtain x where x: "x \<in> set as" "qkey s x = unat c" using assms(3) by (auto simp: cls_key filter_empty_conv)
  then have "qkey s a = unat c" using assms(1,2) as by (auto simp: desc_append intro: le_antisym)
  then show "last (cls s c as) = last as" "last as \<in> set (cls s c as)" by (auto simp: as cls_key)
qed

subsection \<open>The state between linking and counting\<close>

definition queue_st :: "lis \<Rightarrow> ptr \<Rightarrow> ptr list \<Rightarrow> ptr list \<Rightarrow> ptr list \<Rightarrow> bool" where
  "queue_st s q xs ys bs \<longleftrightarrow> q \<noteq> NULL \<and> (\<exists>Q. qs s q = Some Q \<and> q_magic Q = Q_MAGIC \<and> qlist s Q xs \<and>
     desc s xs \<and> fits s xs \<and> bandlist (qbands s) (q_bandp Q) bs \<and> binv s (qbands s) ys bs \<and> qacct s Q ys)"

lemma queue_ok_st: "queue_ok s q xs bs = queue_st s q xs xs bs"
  by (simp add: queue_ok_def queue_st_def)

lemma queue_stE:
  assumes "queue_st s q xs ys bs"
  obtains Q where "q \<noteq> NULL" "qs s q = Some Q" "q_magic Q = Q_MAGIC" "qlist s Q xs" "desc s xs"
    "fits s xs" "bandlist (qbands s) (q_bandp Q) bs" "binv s (qbands s) ys bs" "qacct s Q ys"
    "\<forall>x\<in>set xs. msg_ok s x" "distinct xs" "NULL \<notin> set xs"
  using assms unfolding queue_st_def
  by (elim conjE exE) (auto simp: qlist_def intro: qlist_distinct[unfolded qlist_def] dl_distinct
      simp: msg_ok_def)

text \<open>The neighbours of a message in the list.\<close>

lemma qlist_links:
  assumes "qlist s Q (as @ x # bs)"
  obtains m where "mb s x = Some m" "b_next m = hd0 bs" "b_prev m = (if as = [] then NULL else last as)"
proof -
  have "mlink s x = Some (hd0 bs, if as = [] then NULL else last as)"
    by (rule dl_del_link[of _ "q_first Q" _ _ _ "q_last Q"]) (use assms in \<open>simp add: qlist_def\<close>)
  with that show ?thesis by (auto simp: mlink_def)
qed


subsection \<open>Counting a message in\<close>

lemma hd_append_cases: "hd (xs @ ys) = (if xs = [] then hd ys else hd xs)"
  by simp

lemma bcounted_class:
  assumes d: "desc s (as @ x # bs)" and dis: "distinct (as @ x # bs)" "NULL \<notin> set (as @ x # bs)"
    and x: "\<not> hipri s x" "mband s x = c"
    and B: "bclass s (as @ bs) c B \<or> (bunused B \<and> cls s c (as @ bs) = [] \<and> qb_count B = 0)"
  shows "bclass s (as @ x # bs) c (bcounted (msize s x) x (hd0 bs) (if as = [] then NULL else last as) B)"
proof -
  have cx: "cls s c (as @ x # bs) = cls s c as @ x # cls s c bs" using x by (simp add: cls_append cls_Cons)
  have k: "qkey s x = unat c" using x by (simp add: qkey_def)
  have desc: "desc s as" "desc s bs" "\<forall>a\<in>set as. unat c \<le> qkey s a" "\<forall>b\<in>set bs. qkey s b \<le> unat c"
    using d k by (auto simp: desc_append desc_Cons)
  note after = cls_after[OF desc(2,4)] and before = cls_before[OF desc(1,3)]
  have in_as: "set (cls s c as) \<subseteq> set as" and in_bs: "set (cls s c bs) \<subseteq> set bs" by (auto simp: cls_in)
  from B show ?thesis
  proof
    assume "bunused B \<and> cls s c (as @ bs) = [] \<and> qb_count B = 0"
    then have B: "qb_first B = NULL" "qb_last B = NULL" "cls s c as = []" "cls s c bs = []" "qb_count B = 0"
      by (auto simp: bunused_def cls_append)
    then show ?thesis by (simp add: bclass_def cx bcounted_def tot_Cons F_ISSET_or) (simp add: F_ISSET_def q_flag_defs)
  next
    assume B: "bclass s (as @ bs) c B"
    have ne: "cls s c as @ cls s c bs \<noteq> []" using B by (simp add: bclass_def cls_append)
    have first: "qb_first B = (if cls s c as = [] then hd bs else hd (cls s c as))"
      using B after(1) ne by (auto simp: bclass_def cls_append hd_append_cases)
    have last: "qb_last B = (if cls s c bs = [] then last as else last (cls s c bs))"
      using B before(1) ne by (auto simp: bclass_def cls_append last_append)
    have n1: "qb_first B \<noteq> NULL \<and> (hd0 bs = qb_first B \<longleftrightarrow> cls s c as = [])"
    proof (cases "cls s c as = []")
      case True
      then have "hd bs \<in> set bs" using ne after(2) in_bs by auto
      moreover from this have "hd0 bs = hd bs" "hd bs \<noteq> NULL" using dis(2) by (cases bs; auto)+
      ultimately show ?thesis using True first by simp
    next
      case False
      then have "hd (cls s c as) \<in> set as" using in_as by (meson hd_in_set subsetD)
      moreover have "hd0 bs \<in> set bs \<or> hd0 bs = NULL" by (cases bs) auto
      ultimately show ?thesis using False first dis by auto
    qed
    have n2: "qb_last B \<noteq> NULL \<and> ((if as = [] then NULL else last as) = qb_last B \<longleftrightarrow> cls s c bs = [])"
    proof (cases "cls s c bs = []")
      case True
      then have l: "last as \<in> set as" "as \<noteq> []" using ne before(2) in_as by (auto simp: cls_def)
      then have "last as \<noteq> NULL" using dis(2) by (metis UnI1 set_append)
      with l show ?thesis using True last by simp
    next
      case False
      then have lb: "last (cls s c bs) \<in> set bs" using in_bs by (meson last_in_set subsetD)
      have "last as \<noteq> last (cls s c bs)" if "as \<noteq> []"
        using last_in_set[OF that] lb dis(1) by (auto simp del: last_in_set)
      moreover have "last (cls s c bs) \<noteq> NULL" using lb dis(2) by (cases "last (cls s c bs) = NULL") simp_all
      ultimately show ?thesis using False last by auto
    qed
    have "qb_count B = tot s (cls s c as) + tot s (cls s c bs)"
      using B by (simp add: bclass_def cls_append tot_append)
    moreover have "qb_hiwat B < qb_count B \<longrightarrow> F_ISSET (qb_flag B) QB_FULL" using B by (simp add: bclass_def)
    moreover have "F_ISSET (QB_FULL OR QB_WASFULL) QB_FULL" by (simp add: F_ISSET_def q_flag_defs)
    ultimately show ?thesis using n1 n2 first last
      by (auto simp: bclass_def cx bcounted_def tot_append tot_Cons ac_simps F_ISSET_or hd_append_cases)
  qed
qed


text \<open>What the accounting may change of a state.\<close>

definition acct_frame :: "lis \<Rightarrow> ptr \<Rightarrow> ptr list \<Rightarrow> lis \<Rightarrow> bool" where
  "acct_frame s q bs t \<longleftrightarrow> bqframe s t \<and> qb_step s t \<and>
     (\<exists>Q n f p. qs s q = Some Q \<and> qs t = (qs s)(q \<mapsto> Q\<lparr>q_count := n, q_flag := f, q_bandp := p\<rparr>) \<and>
        f AND SHUT_FLAGS = q_flag Q AND SHUT_FLAGS) \<and>
     (\<forall>b. b \<notin> set bs \<longrightarrow> qbands t b = qbands s b)"

lemma acct_frameI:
  assumes "bqframe s t" "qb_step s t" "qs s q = Some Q" "f AND SHUT_FLAGS = q_flag Q AND SHUT_FLAGS"
    "qs t = (qs s)(q \<mapsto> Q\<lparr>q_count := n, q_flag := f, q_bandp := p\<rparr>)"
    "\<And>b. b \<notin> set bs \<Longrightarrow> qbands t b = qbands s b"
  shows "acct_frame s q bs t"
  using assms unfolding acct_frame_def by blast

lemma binv_cls_cong:
  assumes "\<And>c. c \<noteq> 0 \<Longrightarrow> cls s c xs' = cls s c xs"
  shows "binv s G xs' bs = binv s G xs bs"
proof -
  have b: "c \<noteq> 0 \<Longrightarrow> bclass s xs' c B = bclass s xs c B" for c B by (simp add: bclass_def assms)
  then have h: "c \<noteq> 0 \<Longrightarrow> holder s G xs' bs c = holder s G xs bs c" for c by (simp add: holder_def fun_eq_iff)
  show ?thesis unfolding binv_def by (simp add: assms b h cong: conj_cong imp_cong)
qed

lemma qlist_frame:
  assumes "mb t = mb s" "db t = db s" "q_first Q' = q_first Q" "q_last Q' = q_last Q"
  shows "qlist t Q' xs = qlist s Q xs"
proof -
  have "body_eq s t" using assms(1,2) by (simp add: body_eq_def)
  then show ?thesis using mlink_mb[OF assms(1)] assms(3,4) by (simp add: qlist_def body_eq_msg_ok)
qed

text \<open>An operation on counts and bands carries the links over.\<close>

lemma queue_st_acct:
  assumes st: "queue_st s q xs ys bs" and Q: "qs s q = Some Q"
    and fr: "bqframe s t" and Q': "qs t q = Some Q'" "Q' = Q\<lparr>q_count := n, q_flag := f, q_bandp := p\<rparr>"
    and bl: "bandlist (qbands t) p bs'" and bi: "binv s (qbands t) zs bs'"
    and ac: "qacct s Q' zs" and sub: "set zs \<subseteq> set xs"
  shows "queue_st t q xs zs bs'"
proof -
  obtain Q0 where s: "q \<noteq> NULL" "qs s q = Some Q0" "q_magic Q0 = Q_MAGIC" "qlist s Q0 xs" "desc s xs"
    "fits s xs" "\<forall>x\<in>set xs. msg_ok s x" by (rule queue_stE[OF st])
  have be: "body_eq s t" by (rule bqframe_body_eq[OF fr])
  have ok: "\<forall>x\<in>set zs. msg_ok s x" using s(7) sub by blast
  have "Q0 = Q" using s(2) Q by simp
  moreover have "qlist t Q' xs = qlist s Q xs"
    by (rule qlist_frame) (simp_all add: bqframe_fields[OF fr] Q'(2))
  ultimately have "qlist t Q' xs" using s(4) by simp
  moreover have "q_magic Q' = Q_MAGIC" "q_bandp Q' = p" using s(2,3) Q by (simp_all add: Q'(2))
  ultimately show ?thesis
    unfolding queue_st_def using s(1,5,6,7) Q'(1) bl bi ac
    by (auto simp: body_eq_desc[OF be] body_eq_fits[OF be] body_eq_binv[OF be ok] body_eq_qacct[OF be ok])
qed

lemma qcounted_fields:
  "\<exists>f. qcounted n Q = Q\<lparr>q_count := q_count Q + n, q_flag := f, q_bandp := q_bandp Q\<rparr> \<and>
     f AND SHUT_FLAGS = q_flag Q AND SHUT_FLAGS"
proof -
  have "(QFULL OR QWASFULL) AND SHUT_FLAGS = 0" by (simp add: SHUT_FLAGS_def q_flag_defs)
  then have "(q_flag Q OR (QFULL OR QWASFULL)) AND SHUT_FLAGS = q_flag Q AND SHUT_FLAGS"
    by (simp only: bit.conj_disj_distrib2 or.right_neutral)
  then show ?thesis by (cases Q) (auto simp: qcounted_def)
qed

lemma qcounted_count: "q_count (qcounted n Q) = q_count Q + n" "q_hiwat (qcounted n Q) = q_hiwat Q"
  "q_hiwat Q < q_count Q + n \<Longrightarrow> F_ISSET (q_flag (qcounted n Q)) QFULL"
  by (simp_all add: qcounted_def F_ISSET_or) (simp add: F_ISSET_def q_flag_defs)

lemma count_main:
  assumes st: "queue_st s q (as @ x # bs) (as @ bs) bnds" and x: "hipri s x \<or> mband s x = 0"
  shows "\<exists>n t. lis_msgsize x s = Some n \<and> count_in_queue q n s = Some t \<and>
     queue_ok t q (as @ x # bs) bnds \<and> acct_frame s q bnds t"
proof -
  obtain Q where Q: "q \<noteq> NULL" "qs s q = Some Q" "bandlist (qbands s) (q_bandp Q) bnds"
    "binv s (qbands s) (as @ bs) bnds" "qacct s Q (as @ bs)" "\<forall>y\<in>set (as @ x # bs). msg_ok s y"
    by (rule queue_stE[OF st])
  obtain n where n: "lis_msgsize x s = Some n" "msize s x = word_of_int n"
    using msg_ok_size[of s x] Q(6) by auto
  let ?Q = "qcounted (msize s x) Q"
  obtain f where f: "?Q = Q\<lparr>q_count := q_count Q + msize s x, q_flag := f, q_bandp := q_bandp Q\<rparr>"
    "f AND SHUT_FLAGS = q_flag Q AND SHUT_FLAGS"
    using qcounted_fields by blast
  let ?t = "s\<lparr>qs := (qs s)(q \<mapsto> ?Q)\<rparr>"
  have fr: "bqframe s ?t" by (simp add: bqframe_def)
  have same: "c \<noteq> 0 \<Longrightarrow> cls s c (as @ x # bs) = cls s c (as @ bs)" for c
    using x by (auto simp: cls_append cls_Cons)
  have bi: "binv s (qbands ?t) (as @ x # bs) bnds"
    using Q(4) by (simp add: binv_cls_cong[OF same])
  have "q_count Q = tot s (main s (as @ bs))" using Q(5) by (simp add: qacct_def)
  then have "q_count ?Q = tot s (main s (as @ x # bs))"
    using x by (simp add: qcounted_count main_def tot_append tot_Cons ac_simps)
  then have ac: "qacct s ?Q (as @ x # bs)"
    by (auto simp: qacct_def qcounted_count intro: qcounted_count(3))
  have "queue_st ?t q (as @ x # bs) (as @ x # bs) bnds"
    by (rule queue_st_acct[OF st Q(2) fr _ f(1) _ bi ac]) (simp_all add: Q(3))
  then have "queue_ok ?t q (as @ x # bs) bnds" by (simp add: queue_ok_st)
  moreover have "acct_frame s q bnds ?t"
    by (rule acct_frameI[OF fr _ Q(2) f(2), where n = "q_count Q + msize s x" and p = "q_bandp Q"])
       (simp_all add: qb_step_def f(1))
  ultimately show ?thesis using n count_in_queue_eval[of s q Q n] Q(2) by auto
qed


lemma bcounted_sel [simp]:
  "qb_next (bcounted n x nx pv B) = qb_next B" "qb_hiwat (bcounted n x nx pv B) = qb_hiwat B"
  by (simp_all add: bcounted_def)

lemma qb_links_upd:
  "G b = Some B \<Longrightarrow> qb_next B' = qb_next B \<Longrightarrow> qb_links (G(b \<mapsto> B')) = qb_links G"
  by (auto simp: qb_links_def)

lemma bandlist_upd:
  "G b = Some B \<Longrightarrow> qb_next B' = qb_next B \<Longrightarrow> bandlist (G(b \<mapsto> B')) p bs = bandlist G p bs"
  by (simp add: bandlist_def qb_links_upd)

text \<open>The only holder of a band, or the structure just made for it, takes the message in.\<close>

lemma binv_insert:
  assumes inv: "binv s G (as @ bs) bnds" and c: "c \<noteq> 0" "\<not> hipri s x" "mband s x = c"
    and d: "desc s (as @ x # bs)" and dis: "distinct (as @ x # bs)" "NULL \<notin> set (as @ x # bs)"
    and b: "holder s G (as @ bs) bnds c b \<and> G b = Some B \<and> bnds' = bnds \<or>
      cls s c (as @ bs) = [] \<and> bunused B \<and> qb_count B = 0 \<and> set bnds' = insert b (set bnds) \<and>
      (b \<in> set bnds \<longrightarrow> (\<exists>B0. G b = Some B0 \<and> bunused B0))"
    and G': "G' = G(b \<mapsto> bcounted (msize s x) x (hd0 bs) (if as = [] then NULL else last as) B)"
  shows "binv s G' (as @ x # bs) bnds'"
proof (rule binv_update[OF inv c(1), of bnds' b])
  show "set bnds' = insert b (set bnds)" using b by (auto simp: holder_def)
  show "cls s c' (as @ x # bs) = cls s c' (as @ bs)" if "c' \<noteq> c" for c'
    using that c by (simp add: cls_append cls_Cons)
  show "bunused B0 \<or> bclass s (as @ bs) c B0" if "b \<in> set bnds" "G b = Some B0" for B0
    using b that by (auto simp: holder_def)
  show "\<not> holder s G (as @ bs) bnds c b'" if "b' \<noteq> b" for b'
  proof (cases "cls s c (as @ bs) = []")
    case True
    then show ?thesis by (auto simp: holder_def bclass_def)
  next
    case False
    then have "holder s G (as @ bs) bnds c b" using b by blast
    moreover have "\<exists>!b. holder s G (as @ bs) bnds c b" using inv c(1) False by (simp add: binv_def)
    ultimately show ?thesis using that by blast
  qed
  have "bclass s (as @ bs) c B \<or> bunused B \<and> cls s c (as @ bs) = [] \<and> qb_count B = 0"
    using b by (auto simp: holder_def)
  from bcounted_class[OF d dis c(2,3) this]
  show "cls s c (as @ x # bs) = [] \<and> bunused (bcounted (msize s x) x (hd0 bs) (if as = [] then NULL else last as) B) \<or>
    bclass s (as @ x # bs) c (bcounted (msize s x) x (hd0 bs) (if as = [] then NULL else last as) B)" ..
qed (use dis in \<open>simp_all add: G'\<close>)


lemma bqframe_qbands: "bqframe s u \<Longrightarrow> bqframe s (u\<lparr>qbands := g\<rparr>)"
proof -
  assume "bqframe s u"
  then obtain r g' k n where "u = s\<lparr>qs := r, qbands := g', kmem := k, qband_cnt := n\<rparr>"
    unfolding bqframe_def by blast
  then show ?thesis by (simp add: bqframe_def)
qed

text \<open>A structure for the band of \<open>x\<close> can be had.\<close>

definition room :: "lis \<Rightarrow> ptr list \<Rightarrow> ptr list \<Rightarrow> ptr \<Rightarrow> bool" where
  "room s xs bs x \<longleftrightarrow> hipri s x \<or> mband s x = 0 \<or> cls s (mband s x) xs \<noteq> [] \<or>
     (\<exists>b\<in>set bs. bfree s b) \<or> qb_fresh s"

lemma find_qband_spec:
  assumes Q: "qs s q = Some Q" "q \<noteq> NULL" and bl: "bandlist (qbands s) (q_bandp Q) bs"
    and inv: "binv s (qbands s) xs bs" and ok: "\<forall>x\<in>set xs. msg_ok s x" and c: "c \<noteq> 0"
    and room: "cls s c xs \<noteq> [] \<or> (\<exists>b\<in>set bs. bfree s b) \<or> qb_fresh s"
  obtains b t B bs' p where "find_qband q (uint c) s = Some (b, t)" "b \<noteq> NULL" "bqframe s t"
    "qb_step s t" "qs t = (qs s)(q \<mapsto> Q\<lparr>q_bandp := p\<rparr>)" "qbands t = (qbands s)(b \<mapsto> B)"
    "bandlist (qbands t) p bs'" "set bs' = insert b (set bs)"
    "holder s (qbands s) xs bs c b \<and> qbands s b = Some B \<and> bs' = bs \<or>
     cls s c xs = [] \<and> bunused B \<and> qb_count B = 0 \<and> (b \<in> set bs \<longrightarrow> (\<exists>B0. qbands s b = Some B0 \<and> bunused B0))"
proof (cases "cls s c xs = []")
  case False
  obtain b where b: "find_qband q (uint c) s = Some (b, s)" "b \<noteq> NULL" "holder s (qbands s) xs bs c b"
    using find_qband_used[OF Q bl inv ok c False] by blast
  then obtain B where B: "b \<in> set bs" "qbands s b = Some B" by (auto simp: holder_def)
  show ?thesis
  proof (rule that[of b s "q_bandp Q" B bs])
    show "qs s = (qs s)(q \<mapsto> Q\<lparr>q_bandp := q_bandp Q\<rparr>)"
      by (simp add: fun_upd_idem[where f = "qs s" and x = q and y = "Some Q", OF Q(1)])
    show "qbands s = (qbands s)(b \<mapsto> B)"
      by (simp add: fun_upd_idem[where f = "qbands s" and x = b and y = "Some B", OF B(2)])
  qed (use b B bl in \<open>auto simp: bqframe_def qb_step_def\<close>)
next
  case True
  then have fresh: "(\<exists>b\<in>set bs. bfree s b) \<or> qb_fresh s" using room by simp
  from find_qband_new[OF Q bl inv ok c True fresh] obtain b t B bs' p where
    t: "find_qband q (uint c) s = Some (b, t)" "b \<noteq> NULL" "bqframe s t" "set bs' = insert b (set bs)"
    "qs t = (qs s)(q \<mapsto> Q\<lparr>q_bandp := p\<rparr>)" "qbands t = (qbands s)(b \<mapsto> B)" "bandlist (qbands t) p bs'"
    "bunused B" "qb_count B = 0" "qb_step s t" "b \<in> set bs \<longrightarrow> bfree s b"
    by blast
  have "\<exists>B0. qbands s b = Some B0 \<and> bunused B0" if "b \<in> set bs"
    using t(11) that binv_bfree[OF inv ok that] by (auto simp: bfree_def)
  then show ?thesis using that[OF t(1,2,3,10,5,6,7,4)] t(8,9) True by blast
qed

lemma count_band:
  assumes st: "queue_st s q (as @ x # bs) (as @ bs) bnds" and x: "\<not> hipri s x" "mband s x = c" "c \<noteq> 0"
    and room: "cls s c (as @ bs) \<noteq> [] \<or> (\<exists>b\<in>set bnds. bfree s b) \<or> qb_fresh s"
  shows "\<exists>n b u t bnds'. find_qband q (uint c) s = Some (b, u) \<and> b \<noteq> NULL \<and> lis_msgsize x u = Some n \<and>
     count_in_band b x n True u = Some t \<and> queue_ok t q (as @ x # bs) bnds' \<and> acct_frame s q bnds' t \<and>
     set bnds \<subseteq> set bnds'"
proof -
  obtain Q where Q: "q \<noteq> NULL" "qs s q = Some Q" "bandlist (qbands s) (q_bandp Q) bnds"
    "binv s (qbands s) (as @ bs) bnds" "qacct s Q (as @ bs)" "\<forall>y\<in>set (as @ x # bs). msg_ok s y"
    "qlist s Q (as @ x # bs)" "desc s (as @ x # bs)" "distinct (as @ x # bs)" "NULL \<notin> set (as @ x # bs)"
    by (rule queue_stE[OF st])
  obtain n where n: "lis_msgsize x s = Some n" "msize s x = word_of_int n"
    using msg_ok_size[of s x] Q(6) by auto
  have ok: "\<forall>y\<in>set (as @ bs). msg_ok s y" using Q(6) by simp
  obtain b u B bnds' p where u: "find_qband q (uint c) s = Some (b, u)" "b \<noteq> NULL" "bqframe s u"
    "qb_step s u" "qs u = (qs s)(q \<mapsto> Q\<lparr>q_bandp := p\<rparr>)" "qbands u = (qbands s)(b \<mapsto> B)"
    "bandlist (qbands u) p bnds'" "set bnds' = insert b (set bnds)"
    "holder s (qbands s) (as @ bs) bnds c b \<and> qbands s b = Some B \<and> bnds' = bnds \<or>
     cls s c (as @ bs) = [] \<and> bunused B \<and> qb_count B = 0 \<and>
       (b \<in> set bnds \<longrightarrow> (\<exists>B0. qbands s b = Some B0 \<and> bunused B0))"
    by (rule find_qband_spec[OF Q(2,1,3,4) ok x(3) room])
  obtain m where m: "mb s x = Some m" "b_next m = hd0 bs" "b_prev m = (if as = [] then NULL else last as)"
    by (rule qlist_links[OF Q(7)])
  have be: "body_eq s u" by (rule bqframe_body_eq[OF u(3)])
  have un: "lis_msgsize x u = Some n" using body_eq_msgsize[OF be] n(1) Q(6) by simp
  let ?B = "bcounted (msize s x) x (hd0 bs) (if as = [] then NULL else last as) B"
  let ?t = "u\<lparr>qbands := (qbands u)(b \<mapsto> ?B)\<rparr>"
  have "mb u x = Some m" using m(1) bqframe_fields(1)[OF u(3)] by simp
  then have t: "count_in_band b x n True u = Some ?t"
    using count_in_band_eval[of u b B x m n] u(6) m(2,3) n(2) by simp
  have tq: "qbands ?t = (qbands s)(b \<mapsto> ?B)" by (simp add: u(6))
  have bi: "binv s (qbands ?t) (as @ x # bs) bnds'"
    unfolding tq by (rule binv_insert[OF Q(4) x(3) x(1,2) Q(8,9,10) _ refl]) (use u(8,9) in blast)
  have ub: "qbands u b = Some B" by (simp add: u(6))
  have "bandlist (qbands ?t) p bnds' = bandlist (qbands u) p bnds'"
    by (simp add: bandlist_upd[where G = "qbands u", OF ub])
  then have bl: "bandlist (qbands ?t) p bnds'" using u(7) by blast
  have fr: "bqframe s ?t" by (rule bqframe_qbands[OF u(3)])
  have ac: "qacct s (Q\<lparr>q_bandp := p\<rparr>) (as @ x # bs)"
    using Q(5) x by (simp add: qacct_def main_def)
  have Qt: "qs ?t q = Some (Q\<lparr>q_bandp := p\<rparr>)" by (simp add: u(5))
  have "queue_st ?t q (as @ x # bs) (as @ x # bs) bnds'"
    by (rule queue_st_acct[OF st Q(2) fr Qt _ bl bi ac, where n = "q_count Q" and f = "q_flag Q"]) simp_all
  then have "queue_ok ?t q (as @ x # bs) bnds'" by (simp add: queue_ok_st)
  moreover have "qb_step s ?t" using u(4) by (auto simp: qb_step_def u(6))
  then have "acct_frame s q bnds' ?t"
    by (rule acct_frameI[OF fr _ Q(2) refl, where n = "q_count Q" and p = p])
       (use u(8) in \<open>auto simp: u(5,6)\<close>)
  ultimately show ?thesis using u(1,2,8) un t by blast
qed


subsection \<open>Scheduling leaves the contents alone\<close>

lemma queue_ok_sched:
  assumes eq: "sched_eq s t" and ok: "queue_ok s q xs bs"
  shows "queue_ok t q xs bs"
proof -
  obtain Q where Q: "q \<noteq> NULL" "qs s q = Some Q" "q_magic Q = Q_MAGIC" "qlist s Q xs" "desc s xs"
    "fits s xs" "bandlist (qbands s) (q_bandp Q) bs" "binv s (qbands s) xs bs" "qacct s Q xs"
    "\<forall>x\<in>set xs. msg_ok s x" using ok unfolding queue_ok_st by (rule queue_stE)
  obtain Q' where Q': "qs t q = Some Q'" "qcore Q' = qcore Q" by (rule sched_eq_queue[OF eq Q(2)])
  note f = sched_eq_fields[OF eq] qcore_fields[OF Q'(2)]
  have be: "body_eq s t" using f(1,2) by (simp add: body_eq_def)
  have "qlist t Q' xs = qlist s Q xs" by (rule qlist_frame[OF f(1,2)]) (rule f)+
  moreover have "F_ISSET (q_flag Q') QFULL = F_ISSET (q_flag Q) QFULL"
    by (rule qcore_flag[OF Q'(2)]) (simp add: SCHED_FLAGS_def q_flag_defs)
  then have "qacct s Q' xs = qacct s Q xs"
    unfolding qacct_def qcore_fields(4)[OF Q'(2)] qcore_fields(5)[OF Q'(2)] by blast
  moreover have "q_bandp Q' = q_bandp Q" "q_magic Q' = q_magic Q" by (rule qcore_fields[OF Q'(2)])+
  ultimately show ?thesis
    unfolding queue_ok_def using Q Q'(1) f(3)
    by (simp add: body_eq_desc[OF be] body_eq_fits[OF be Q(10)] body_eq_binv[OF be Q(10)]
        body_eq_qacct[OF be Q(10)])
qed

text \<open>What an operation on queue \<open>q\<close> leaves alone: the data blocks, the other queues but for their
  scheduling, the bands of other queues.\<close>

definition op_frame :: "lis \<Rightarrow> ptr \<Rightarrow> ptr list \<Rightarrow> lis \<Rightarrow> bool" where
  "op_frame s q bs t \<longleftrightarrow> db t = db s \<and> mem t = mem s \<and> qb_step s t \<and>
     (\<forall>p. p \<noteq> q \<longrightarrow> map_option qcore (qs t p) = map_option qcore (qs s p)) \<and>
     (\<forall>b. b \<notin> set bs \<longrightarrow> qbands t b = qbands s b)"

lemma acct_op_frame: "acct_frame s q bs t \<Longrightarrow> op_frame s q bs t"
  unfolding acct_frame_def op_frame_def by (auto simp: bqframe_fields)

lemma op_frame_sched:
  assumes "op_frame s q bs t" "sched_eq t u"
  shows "op_frame s q bs u"
proof -
  have "map_option qcore (qs u p) = map_option qcore (qs t p)" for p
    using assms(2) by (simp add: sched_eq_def)
  with assms(1) show ?thesis unfolding op_frame_def qb_step_def by (simp add: sched_eq_fields[OF assms(2)])
qed

lemma sched_ok_acct:
  assumes "acct_frame s q bs t" "sched_ok s"
  shows "sched_ok t"
proof -
  obtain Q n f p where "qs s q = Some Q" "qs t = (qs s)(q \<mapsto> Q\<lparr>q_count := n, q_flag := f, q_bandp := p\<rparr>)"
    "bqframe s t" using assms(1) unfolding acct_frame_def by blast
  with assms(2) show ?thesis by (auto simp: sched_ok_def bqframe_fields)
qed

lemma acct_frame_route: "acct_frame s q bs t \<Longrightarrow> route_eq s t"
proof -
  assume "acct_frame s q bs t"
  then obtain Q n f p where Q: "qs s q = Some Q" "qs t = (qs s)(q \<mapsto> Q\<lparr>q_count := n, q_flag := f, q_bandp := p\<rparr>)"
    "f AND SHUT_FLAGS = q_flag Q AND SHUT_FLAGS"
    unfolding acct_frame_def by blast
  show ?thesis by (rule route_eq_upd[OF Q(1) _ Q(2)]) (simp add: q_route_def Q(3))
qed

lemma acct_frame_mb: "acct_frame s q bs t \<Longrightarrow> mb t = mb s"
  by (simp add: acct_frame_def bqframe_fields)

subsection \<open>\<open>updatequeue\<close>\<close>

lemma updatequeue_spec:
  assumes st: "queue_st s q (as @ x # bs) (as @ bs) bnds" and room: "room s (as @ bs) bnds x"
    and sch: "sched_ok s"
  shows "\<exists>t bnds'. updatequeue q x fi True s = Some t \<and> queue_ok t q (as @ x # bs) bnds' \<and> sched_ok t \<and>
     mb t = mb s \<and> op_frame s q bnds' t \<and> route_eq s t \<and> set bnds \<subseteq> set bnds'"
proof -
  have mok: "msg_ok s x" and qn: "q \<noteq> NULL" using st by (auto elim!: queue_stE)
  obtain m d where m: "mb s x = Some m" "db s (b_datap m) = Some d" "mband s x = b_band m"
    "hipri s x = (db_type d \<ge> QPCTL)" by (rule msg_okE[OF mok])
  obtain u bnds' where cnt: "(if db_type d \<ge> QPCTL \<or> b_band m = 0
        then do { n \<leftarrow> lis_msgsize x s; count_in_queue q n s }
        else do {
          (qp, s) \<leftarrow> find_qband q (uint (b_band m)) s;
          if qp \<noteq> NULL
          then do { n \<leftarrow> lis_msgsize x s; count_in_band qp x n True s }
          else Some s }) = Some u"
    and u: "queue_ok u q (as @ x # bs) bnds'" "acct_frame s q bnds' u" "set bnds \<subseteq> set bnds'"
  proof (cases "hipri s x \<or> mband s x = 0")
    case True
    from count_main[OF st True] that[of _ bnds] m(3,4) True show ?thesis by fastforce
  next
    case False
    then have "cls s (mband s x) (as @ bs) \<noteq> [] \<or> (\<exists>b\<in>set bnds. bfree s b) \<or> qb_fresh s"
      using room by (simp add: room_def)
    from count_band[OF st _ refl _ this] that m(3,4) False show ?thesis by fastforce
  qed
  have su: "sched_ok u" by (rule sched_ok_acct[OF u(2) sch])
  have mbu: "mb u = mb s" by (rule acct_frame_mb[OF u(2)])
  obtain Q where Q: "qs u q = Some Q" using u(1) by (auto simp: queue_ok_def)
  obtain t where t: "lis_qenable q u = Some t" "sched_eq u t" "sched_ok t"
    using lis_qenable_spec[OF su Q qn] by blast
  have mbt: "mb t = mb s" using sched_eq_fields(1)[OF t(2)] mbu by simp
  have "updatequeue q x fi True s = Some u \<or> updatequeue q x fi True s = Some t"
    unfolding updatequeue_def using m(1,2) cnt Q t(1) by (simp add: Let_def)
  moreover have "queue_ok t q (as @ x # bs) bnds'" by (rule queue_ok_sched[OF t(2) u(1)])
  moreover have "op_frame s q bnds' u" by (rule acct_op_frame[OF u(2)])
  moreover then have "op_frame s q bnds' t" by (rule op_frame_sched[OF _ t(2)])
  moreover have "route_eq s u" by (rule acct_frame_route[OF u(2)])
  moreover then have "route_eq s t" by (rule route_eq_trans[OF _ sched_eq_route[OF t(2)]])
  ultimately show ?thesis using su t(3) mbu mbt u(1,3) by blast
qed

end
