(* ===== verification/LiS_QueuePut.thy ===== *)
theory LiS_QueuePut
  imports LiS_QueueUpd
begin

text \<open>
  The queue operations against the list of messages: \<open>putq\<close> inserts behind the messages of the
  same priority, \<open>putbq\<close> before them, \<open>insq\<close> at the place it is given if that keeps the order.
\<close>

unbundle bit_operations_syntax

subsection \<open>What the invariant sees of the messages\<close>

definition view_eq :: "lis \<Rightarrow> lis \<Rightarrow> bool" where
  "view_eq s t \<longleftrightarrow> hipri t = hipri s \<and> qkey t = qkey s \<and> (\<forall>x. msg_ok t x = msg_ok s x) \<and>
     (\<forall>x. msg_ok s x \<longrightarrow> msize t x = msize s x)"

lemma view_eq_refl [simp]: "view_eq s s"
  by (simp add: view_eq_def)

lemma view_eq_trans: "view_eq s t \<Longrightarrow> view_eq t u \<Longrightarrow> view_eq s u"
  by (simp add: view_eq_def)

lemma view_eq_body: "body_eq s t \<Longrightarrow> view_eq s t"
  by (simp add: view_eq_def body_eq_fields body_eq_msg_ok body_eq_msize)

lemma view_eq_banded: "banded s mp t \<Longrightarrow> view_eq s t"
  by (simp add: view_eq_def banded_fields banded_msg_ok banded_msize)

lemma main_key: "main s xs = filter (\<lambda>x. qkey s x = 256 \<or> qkey s x = 0) xs"
  unfolding main_def
proof (rule filter_cong)
  fix x
  show "(hipri s x \<or> mband s x = 0) = (qkey s x = 256 \<or> qkey s x = 0)"
    by (auto simp: qkey_hipri) (auto simp: qkey_def unat_eq_0 split: if_splits)
qed simp

lemma view_eq_fields:
  assumes "view_eq s t"
  shows "hipri t = hipri s" "qkey t = qkey s" "msg_ok t x = msg_ok s x" "msg_ok s x \<Longrightarrow> msize t x = msize s x"
    "cls t c xs = cls s c xs" "main t xs = main s xs" "desc t xs = desc s xs"
    "\<not> hipri s x \<Longrightarrow> mband t x = mband s x"
proof -
  show f: "hipri t = hipri s" "qkey t = qkey s" "msg_ok t x = msg_ok s x" "msg_ok s x \<Longrightarrow> msize t x = msize s x"
    using assms by (simp_all add: view_eq_def)
  then show "cls t c xs = cls s c xs" "main t xs = main s xs" "desc t xs = desc s xs"
    by (simp_all add: cls_key main_key desc_def)
  show "\<not> hipri s x \<Longrightarrow> mband t x = mband s x"
    using fun_cong[OF f(2), of x] by (simp add: qkey_def f(1) word_unat_eq_iff)
qed

lemma view_eq_tot:
  assumes "view_eq s t" "\<forall>x\<in>set xs. msg_ok s x"
  shows "tot t xs = tot s xs" "fits t xs = fits s xs"
proof -
  have "map (msize t) xs = map (msize s) xs" using assms by (simp add: view_eq_def)
  then show "tot t xs = tot s xs" by (simp only: tot_def)
  have "map (\<lambda>x. unat (msize t x)) xs = map (\<lambda>x. unat (msize s x)) xs" using assms by (simp add: view_eq_def)
  then show "fits t xs = fits s xs" by (simp only: fits_def)
qed

lemma view_eq_binv:
  assumes "view_eq s t" "\<forall>x\<in>set xs. msg_ok s x"
  shows "binv t G xs bs = binv s G xs bs"
proof -
  have "tot t (cls s c xs) = tot s (cls s c xs)" for c
    using assms by (intro view_eq_tot) (auto simp: cls_in)
  then have "bclass t xs c B = bclass s xs c B" for c B
    by (simp add: bclass_def view_eq_fields[OF assms(1)])
  then show ?thesis by (simp add: binv_def holder_def view_eq_fields[OF assms(1)])
qed

lemma view_eq_qacct:
  assumes "view_eq s t" "\<forall>x\<in>set xs. msg_ok s x"
  shows "qacct t Q xs = qacct s Q xs"
proof -
  have "tot t (main s xs) = tot s (main s xs)" using assms by (intro view_eq_tot) (auto simp: main_def)
  then show ?thesis by (simp add: qacct_def view_eq_fields[OF assms(1)])
qed

lemma view_eq_room:
  assumes "view_eq s t" "qbands t = qbands s" "kmem t = kmem s" "room s xs bs x"
  shows "room t xs bs x"
proof (cases "hipri s x")
  case True
  then show ?thesis by (simp add: room_def view_eq_fields[OF assms(1)])
next
  case False
  have "bfree t = bfree s" "qb_fresh t = qb_fresh s"
    by (simp_all add: fun_eq_iff bfree_def qb_fresh_def assms(2,3) split: list.split)
  with False assms(4) show ?thesis
    by (simp add: room_def view_eq_fields(1,5)[OF assms(1)] view_eq_fields(8)[OF assms(1) False])
qed

subsection \<open>Linking a message in\<close>

lemma queue_st_link:
  assumes st: "queue_st s q zs ys bnds" and ys: "\<forall>x\<in>set ys. msg_ok s x"
    and Q: "qs s q = Some Q" and ve: "view_eq s t"
    and t: "qs t q = Some Q'" "Q' = Q\<lparr>q_first := f, q_last := l\<rparr>" "qbands t = qbands s"
    and xs: "qlist t Q' xs" "desc s xs" "fits s xs" "\<forall>x\<in>set xs. msg_ok s x"
  shows "queue_st t q xs ys bnds"
proof -
  obtain Q0 where Q0: "q \<noteq> NULL" "qs s q = Some Q0" "q_magic Q0 = Q_MAGIC"
    "bandlist (qbands s) (q_bandp Q0) bnds" "binv s (qbands s) ys bnds" "qacct s Q0 ys"
    using st by (rule queue_stE)
  then have "Q0 = Q" using Q by simp
  moreover have "qacct t Q' ys = qacct s Q ys"
    using view_eq_qacct[OF ve ys] by (simp add: t(2) qacct_def)
  ultimately show ?thesis
    unfolding queue_st_def using Q0 t xs
    by (simp add: view_eq_fields(7)[OF ve] view_eq_tot(2)[OF ve xs(4)] view_eq_binv[OF ve ys])
qed

lemma sched_ok_link:
  assumes "sched_ok s" "qs s q = Some Q" "qs t = (qs s)(q \<mapsto> Q\<lparr>q_first := f, q_last := l\<rparr>)"
    "sds t = sds s" "qhead t = qhead s" "qtail t = qtail s"
  shows "sched_ok t"
  using assms by (auto simp: sched_ok_def)

text \<open>Links, then counts: the common part of every insertion.\<close>

definition insert_msg :: "ptr \<Rightarrow> ptr \<Rightarrow> ptr \<Rightarrow> bool \<Rightarrow> lis \<Rightarrow> lis option" where
  "insert_msg q before mp fi s = do { s \<leftarrow> ins_before q before mp s; updatequeue q mp fi True s }"

lemma fits_perm: "fits s (as @ x # bs) = fits s (x # as @ bs)"
  by (simp add: fits_def add.left_commute)

lemma insert_msg_spec:
  assumes ok: "queue_ok s q (as @ bs) bnds" and mp: "msg_ok s mp" "mp \<notin> set (as @ bs)"
    and d: "desc s (as @ mp # bs)" and fit: "fits s (mp # as @ bs)"
    and room: "room s (as @ bs) bnds mp" and sch: "sched_ok s" and bd: "banded s mp s1"
  shows "\<exists>t bnds'. insert_msg q (hd0 bs) mp fi s1 = Some t \<and> queue_ok t q (as @ mp # bs) bnds' \<and>
     sched_ok t \<and> op_frame s q bnds' t \<and> set bnds \<subseteq> set bnds' \<and> view_eq s t \<and> route_eq s t \<and>
     (\<forall>x. x \<notin> set (as @ mp # bs) \<longrightarrow> mb t x = mb s x)"
proof -
  obtain Q where Q: "q \<noteq> NULL" "qs s q = Some Q" "qlist s Q (as @ bs)" "\<forall>x\<in>set (as @ bs). msg_ok s x"
    using ok unfolding queue_ok_st by (rule queue_stE)
  have v1: "view_eq s s1" by (rule view_eq_banded[OF bd])
  have b1: "qs s1 = qs s" "qbands s1 = qbands s" "kmem s1 = kmem s" "db s1 = db s" "mem s1 = mem s"
    "sds s1 = sds s" "qhead s1 = qhead s" "qtail s1 = qtail s" using bd by (auto simp: banded_def)
  have "qlist s1 Q (as @ bs)" "msg_ok s1 mp" using Q(3) mp(1) bd by (simp_all add: banded_qlist banded_msg_ok)
  from ins_before_spec[OF _ this(1) this(2) mp(2), of q] obtain s2 Q' where
    s2: "ins_before q (hd0 bs) mp s1 = Some s2" "mqframe s1 s2" "body_eq s1 s2" "qs s2 = (qs s1)(q \<mapsto> Q')"
      "Q' = Q\<lparr>q_first := q_first Q', q_last := q_last Q'\<rparr>" "qlist s2 Q' (as @ mp # bs)"
      "\<forall>x. x \<notin> set (as @ mp # bs) \<longrightarrow> mb s2 x = mb s1 x"
    using Q(2) b1(1) by auto
  have v2: "view_eq s s2" by (rule view_eq_trans[OF v1 view_eq_body[OF s2(3)]])
  have "queue_st s2 q (as @ mp # bs) (as @ bs) bnds"
    by (rule queue_st_link[OF ok[unfolded queue_ok_st] Q(4) Q(2) v2 _ s2(5)])
       (use s2(4,6) d fit mp(1) Q(4) in \<open>auto simp: mqframe_fields[OF s2(2)] b1 fits_perm[of s as]\<close>)
  moreover have "room s2 (as @ bs) bnds mp"
    by (rule view_eq_room[OF v2 _ _ room]) (simp_all add: mqframe_fields[OF s2(2)] b1)
  moreover have "sched_ok s2"
    by (rule sched_ok_link[OF sch Q(2), where f = "q_first Q'" and l = "q_last Q'"])
       (use s2(4,5) in \<open>simp_all add: mqframe_fields[OF s2(2)] b1\<close>)
  ultimately obtain t bnds' where t: "updatequeue q mp fi True s2 = Some t" "queue_ok t q (as @ mp # bs) bnds'"
    "sched_ok t" "mb t = mb s2" "op_frame s2 q bnds' t" "set bnds \<subseteq> set bnds'"
    "route_eq s2 t"
    using updatequeue_spec by blast
  have "body_eq s2 t" using t(4,5) by (simp add: body_eq_def op_frame_def)
  then have "view_eq s t" by (rule view_eq_trans[OF v2 view_eq_body])
  moreover have "op_frame s q bnds' t"
    using t(5) s2(4) by (simp add: op_frame_def qb_step_def mqframe_fields[OF s2(2)] b1)
  moreover have "mb t x = mb s x" if "x \<notin> set (as @ mp # bs)" for x
    using t(4) s2(7) that bd by (auto simp: banded_def)
  moreover have "q_route Q' = q_route Q" by (subst s2(5)) (simp add: q_route_def)
  then have "route_eq s s2" by (rule route_eq_upd[OF Q(2)]) (simp add: s2(4) b1)
  then have "route_eq s t" by (rule route_eq_trans[OF _ t(7)])
  ultimately show ?thesis using s2(1) t(1,2,3,6) by (auto simp: insert_msg_def)
qed


subsection \<open>Insertion by priority\<close>

lemma set_ins: "set (ins_after k x xs) = insert x (set xs)" "set (ins_first k x xs) = insert x (set xs)"
proof -
  have "set (takeWhile P xs @ x # dropWhile P xs) = insert x (set xs)" for P :: "ptr \<Rightarrow> bool"
  proof -
    have "set (takeWhile P xs) \<union> set (dropWhile P xs) = set xs" by (metis set_append takeWhile_dropWhile_id)
    then show ?thesis by auto
  qed
  then show "set (ins_after k x xs) = insert x (set xs)" "set (ins_first k x xs) = insert x (set xs)"
    by (simp_all only: ins_after_def ins_first_def)
qed

lemma desc_dropWhile:
  "desc s xs \<Longrightarrow> y \<in> set (dropWhile (\<lambda>y. k \<le> qkey s y) xs) \<Longrightarrow> qkey s y < k"
  "desc s xs \<Longrightarrow> y \<in> set (dropWhile (\<lambda>y. k < qkey s y) xs) \<Longrightarrow> qkey s y \<le> k"
proof (induction xs)
  case (Cons x xs)
  { case 1 with Cons show ?case by (fastforce simp: desc_Cons split: if_splits) }
  { case 2 with Cons show ?case by (fastforce simp: desc_Cons split: if_splits) }
qed simp_all

lemma desc_ins_after: "desc s xs \<Longrightarrow> desc s (ins_after (qkey s) x xs)"
  unfolding ins_after_def using desc_append[of s "takeWhile (\<lambda>y. qkey s x \<le> qkey s y) xs" "dropWhile (\<lambda>y. qkey s x \<le> qkey s y) xs"]
  by (auto simp: desc_append desc_Cons dest: set_takeWhileD desc_dropWhile(1))

lemma desc_ins_first: "desc s xs \<Longrightarrow> desc s (ins_first (qkey s) x xs)"
  unfolding ins_first_def using desc_append[of s "takeWhile (\<lambda>y. qkey s x < qkey s y) xs" "dropWhile (\<lambda>y. qkey s x < qkey s y) xs"]
  by (auto simp: desc_append desc_Cons dest: set_takeWhileD desc_dropWhile(2))

lemma putq_eq:
  assumes "q_shut q s = Some False" "mp \<noteq> NULL" "q \<noteq> NULL"
  shows "lis_putq q mp s = do { (b, s) \<leftarrow> find_q_spot_tail q mp s; s \<leftarrow> insert_msg q b mp False s; Some (1, s) }"
    and "lis_putbq q mp s = do { (b, s) \<leftarrow> find_q_spot_head q mp s; s \<leftarrow> insert_msg q b mp False s; Some (1, s) }"
  using assms by (simp_all add: lis_putq_def lis_putbq_def insert_msg_def)

text \<open>What a successful insertion of \<open>mp\<close> guarantees, \<open>xs'\<close> being the messages after it.\<close>

definition inserted :: "lis \<Rightarrow> ptr \<Rightarrow> ptr \<Rightarrow> ptr list \<Rightarrow> ptr list \<Rightarrow> lis \<Rightarrow> bool" where
  "inserted s q mp xs' bs t \<longleftrightarrow> (\<exists>bs'. set bs \<subseteq> set bs' \<and> queue_ok t q xs' bs' \<and> op_frame s q bs' t) \<and>
     sched_ok t \<and> view_eq s t \<and> route_eq s t \<and> (\<forall>x. x \<notin> set xs' \<longrightarrow> mb t x = mb s x)"

lemma putq_spec:
  assumes ok: "queue_ok s q xs bs" and open_q: "q_shut q s = Some False"
    and mp: "msg_ok s mp" "mp \<notin> set xs" and fit: "fits s (mp # xs)"
    and room: "room s xs bs mp" and sch: "sched_ok s"
  shows "\<exists>t. lis_putq q mp s = Some (1, t) \<and> inserted s q mp (ins_after (qkey s) mp xs) bs t"
    and "\<exists>t. lis_putbq q mp s = Some (1, t) \<and> inserted s q mp (ins_first (qkey s) mp xs) bs t"
proof -
  obtain Q where Q: "q \<noteq> NULL" "qs s q = Some Q" "qlist s Q xs" "desc s xs"
    using ok unfolding queue_ok_st by (rule queue_stE)
  have nn: "mp \<noteq> NULL" using mp(1) by (simp add: msg_ok_def)
  show "\<exists>t. lis_putq q mp s = Some (1, t) \<and> inserted s q mp (ins_after (qkey s) mp xs) bs t"
  proof -
    let ?P = "\<lambda>y. qkey s mp \<le> qkey s y"
    obtain s1 where s1: "find_q_spot_tail q mp s = Some (hd0 (dropWhile ?P xs), s1)" "banded s mp s1"
      using find_q_spot_tail_spec[OF Q(2,1,3,4) mp] by blast
    have d: "desc s (takeWhile ?P xs @ mp # dropWhile ?P xs)"
      using desc_ins_after[OF Q(4), of mp] by (simp add: ins_after_def)
    from insert_msg_spec[of s q "takeWhile ?P xs" "dropWhile ?P xs" bs mp s1 False] ok mp fit room sch s1(2) d
    obtain t bs' where "insert_msg q (hd0 (dropWhile ?P xs)) mp False s1 = Some t"
      "queue_ok t q (takeWhile ?P xs @ mp # dropWhile ?P xs) bs'" "sched_ok t" "op_frame s q bs' t"
      "set bs \<subseteq> set bs'" "view_eq s t" "route_eq s t"
      "\<forall>x. x \<notin> set (takeWhile ?P xs @ mp # dropWhile ?P xs) \<longrightarrow> mb t x = mb s x"
      by auto
    then show ?thesis using s1 open_q nn Q(1) unfolding inserted_def ins_after_def
      by (auto simp: putq_eq)
  qed
  show "\<exists>t. lis_putbq q mp s = Some (1, t) \<and> inserted s q mp (ins_first (qkey s) mp xs) bs t"
  proof -
    let ?P = "\<lambda>y. qkey s mp < qkey s y"
    obtain s1 where s1: "find_q_spot_head q mp s = Some (hd0 (dropWhile ?P xs), s1)" "banded s mp s1"
      using find_q_spot_head_spec[OF Q(2,1,3,4) mp] by blast
    have d: "desc s (takeWhile ?P xs @ mp # dropWhile ?P xs)"
      using desc_ins_first[OF Q(4), of mp] by (simp add: ins_first_def)
    from insert_msg_spec[of s q "takeWhile ?P xs" "dropWhile ?P xs" bs mp s1 False] ok mp fit room sch s1(2) d
    obtain t bs' where "insert_msg q (hd0 (dropWhile ?P xs)) mp False s1 = Some t"
      "queue_ok t q (takeWhile ?P xs @ mp # dropWhile ?P xs) bs'" "sched_ok t" "op_frame s q bs' t"
      "set bs \<subseteq> set bs'" "view_eq s t" "route_eq s t"
      "\<forall>x. x \<notin> set (takeWhile ?P xs @ mp # dropWhile ?P xs) \<longrightarrow> mb t x = mb s x"
      by auto
    then show ?thesis using s1 open_q nn Q(1) unfolding inserted_def ins_first_def
      by (auto simp: putq_eq)
  qed
qed

end
