(* ===== verification/LiS_QueueGet.thy ===== *)
theory LiS_QueueGet
  imports LiS_QueuePut
begin

text \<open>
  The removal of a message against the list of messages: \<open>adjust_q_count\<close> and \<open>chk_band\<close> on the
  counts, \<open>rmv_msg\<close>, and the operations \<open>getq\<close> and \<open>rmvq\<close> made of it.
\<close>

unbundle bit_operations_syntax

subsection \<open>Closed forms\<close>

definition qflag_only :: "u64 \<Rightarrow> queue \<Rightarrow> queue \<Rightarrow> bool" where
  "qflag_only n Q Q' \<longleftrightarrow> (\<exists>f. Q' = Q\<lparr>q_count := n, q_flag := f, q_bandp := q_bandp Q\<rparr> \<and>
     f AND SHUT_FLAGS = q_flag Q AND SHUT_FLAGS \<and> (q_hiwat Q < n \<longrightarrow> F_ISSET (q_flag Q) QFULL \<longrightarrow> F_ISSET f QFULL))"

lemma F_ISSET_keepers:
  "F_ISSET (f AND NOT QWANTR) QFULL = F_ISSET f QFULL"
  "F_ISSET (f AND NOT QWASFULL) QFULL = F_ISSET f QFULL"
  "F_ISSET (f OR QBACK) QFULL = F_ISSET f QFULL"
  "F_ISSET (f OR QWANTW) QFULL = F_ISSET f QFULL"
  "F_ISSET (g AND NOT QB_WASFULL) QB_FULL = F_ISSET g QB_FULL"
  "F_ISSET (g AND NOT QB_WANTW) QB_FULL = F_ISSET g QB_FULL"
proof -
  show "F_ISSET (f AND NOT QWANTR) QFULL = F_ISSET f QFULL" "F_ISSET (f AND NOT QWASFULL) QFULL = F_ISSET f QFULL"
    "F_ISSET (g AND NOT QB_WASFULL) QB_FULL = F_ISSET g QB_FULL"
    "F_ISSET (g AND NOT QB_WANTW) QB_FULL = F_ISSET g QB_FULL"
    by (rule F_ISSET_keep, simp add: q_flag_defs)+
  have "\<not> F_ISSET QBACK QFULL" "\<not> F_ISSET QWANTW QFULL" by (simp_all add: F_ISSET_def q_flag_defs)
  then show "F_ISSET (f OR QBACK) QFULL = F_ISSET f QFULL" "F_ISSET (f OR QWANTW) QFULL = F_ISSET f QFULL"
    by (simp_all add: F_ISSET_or)
qed

lemma shut_keepers [simp]:
  "(f AND NOT QWANTR) AND SHUT_FLAGS = f AND SHUT_FLAGS" "(f AND NOT QFULL) AND SHUT_FLAGS = f AND SHUT_FLAGS"
  "(f AND NOT QWASFULL) AND SHUT_FLAGS = f AND SHUT_FLAGS" "(f OR QBACK) AND SHUT_FLAGS = f AND SHUT_FLAGS"
  "(f OR QWANTW) AND SHUT_FLAGS = f AND SHUT_FLAGS" "(f OR (QWANTR OR QBACK)) AND SHUT_FLAGS = f AND SHUT_FLAGS"
proof -
  have k: "NOT v AND SHUT_FLAGS = SHUT_FLAGS \<Longrightarrow> (f AND NOT v) AND SHUT_FLAGS = f AND SHUT_FLAGS" for v
    by (simp add: and.assoc)
  have a: "v AND SHUT_FLAGS = 0 \<Longrightarrow> (f OR v) AND SHUT_FLAGS = f AND SHUT_FLAGS" for v
    by (simp add: bit.conj_disj_distrib2)
  show "(f AND NOT QWANTR) AND SHUT_FLAGS = f AND SHUT_FLAGS" "(f AND NOT QFULL) AND SHUT_FLAGS = f AND SHUT_FLAGS"
    "(f AND NOT QWASFULL) AND SHUT_FLAGS = f AND SHUT_FLAGS"
    by (rule k, simp add: SHUT_FLAGS_def q_flag_defs)+
  show "(f OR QBACK) AND SHUT_FLAGS = f AND SHUT_FLAGS" "(f OR QWANTW) AND SHUT_FLAGS = f AND SHUT_FLAGS"
    "(f OR (QWANTR OR QBACK)) AND SHUT_FLAGS = f AND SHUT_FLAGS"
    by (rule a, simp add: SHUT_FLAGS_def q_flag_defs)+
qed

lemma uncount_queue_eval:
  assumes "qs s q = Some Q"
  shows "\<exists>Q'. uncount_queue q n s = Some (s\<lparr>qs := (qs s)(q \<mapsto> Q')\<rparr>) \<and>
     qflag_only (q_count Q - word_of_int n) Q Q'"
proof -
  let ?c = "q_count Q - word_of_int n"
  let ?f = "if ?c < q_hiwat Q then q_flag Q AND NOT QFULL else q_flag Q"
  let ?g = "if F_ISSET (q_flag Q) QWASFULL \<and> ?c \<le> q_lowat Q then (?f OR QBACK) AND NOT QWASFULL else ?f"
  have "uncount_queue q n s = Some (s\<lparr>qs := (qs s)(q \<mapsto> Q\<lparr>q_count := ?c, q_flag := ?g\<rparr>)\<rparr>)"
    using assms by (simp add: uncount_queue_def lis_simps)
  moreover have "q_hiwat Q < ?c \<longrightarrow> F_ISSET (q_flag Q) QFULL \<longrightarrow> F_ISSET ?g QFULL"
    using order.asym[of "q_hiwat Q" ?c] by (auto simp: F_ISSET_keepers)
  then have "qflag_only ?c Q (Q\<lparr>q_count := ?c, q_flag := ?g\<rparr>)"
    unfolding qflag_only_def by (intro exI[of _ ?g]) simp
  ultimately show ?thesis by blast
qed

text \<open>The band structure after a message \<open>x\<close> between \<open>pv\<close> and \<open>nx\<close> has left it.\<close>

definition bdropped :: "ptr \<Rightarrow> bool \<Rightarrow> ptr \<Rightarrow> bool \<Rightarrow> ptr \<Rightarrow> qband \<Rightarrow> qband" where
  "bdropped x same_n nx same_p pv B =
     (let B = (if qb_first B = x then (if same_n then B\<lparr>qb_first := nx\<rparr> else B\<lparr>qb_first := NULL, qb_last := NULL\<rparr>)
               else B)
      in if qb_last B = x then (if same_p then B\<lparr>qb_last := pv\<rparr> else B\<lparr>qb_first := NULL, qb_last := NULL\<rparr>)
         else B)"

definition same_band :: "lis \<Rightarrow> ptr \<Rightarrow> ptr \<Rightarrow> bool" where
  "same_band s x y \<longleftrightarrow> y \<noteq> NULL \<and> mband s y = mband s x"

lemma band_drop_eval:
  assumes "qbands s b = Some B" "mb s x = Some m" "x \<noteq> NULL"
    "b_next m \<noteq> NULL \<Longrightarrow> mb s (b_next m) \<noteq> None" "b_prev m \<noteq> NULL \<Longrightarrow> mb s (b_prev m) \<noteq> None"
  shows "do { s \<leftarrow> band_drop_first b x s; band_drop_last b x s } =
     Some (s\<lparr>qbands := (qbands s)(b \<mapsto>
       bdropped x (same_band s x (b_next m)) (b_next m) (same_band s x (b_prev m)) (b_prev m) B)\<rparr>)"
proof -
  let ?B = "if qb_first B = x
      then (if same_band s x (b_next m) then B\<lparr>qb_first := b_next m\<rparr> else B\<lparr>qb_first := NULL, qb_last := NULL\<rparr>)
      else B"
  have f: "band_drop_first b x s = Some (s\<lparr>qbands := (qbands s)(b \<mapsto> ?B)\<rparr>)"
  proof (cases "b_next m = NULL")
    case True
    then show ?thesis using assms(1,2)
      by (simp add: band_drop_first_def lis_simps same_band_def
          fun_upd_idem[where f = "qbands s" and x = b and y = "Some B", OF assms(1)])
  next
    case False
    then obtain n where "mb s (b_next m) = Some n" using assms(4) by auto
    then show ?thesis using False assms(1,2)
      by (simp add: band_drop_first_def lis_simps same_band_def mband_def
          fun_upd_idem[where f = "qbands s" and x = b and y = "Some B", OF assms(1)])
  qed
  have l: "band_drop_last b x (s\<lparr>qbands := (qbands s)(b \<mapsto> B1)\<rparr>) = Some (s\<lparr>qbands := (qbands s)(b \<mapsto>
     (if qb_last B1 = x
      then (if same_band s x (b_prev m) then B1\<lparr>qb_last := b_prev m\<rparr> else B1\<lparr>qb_first := NULL, qb_last := NULL\<rparr>)
      else B1))\<rparr>)" for B1
  proof (cases "b_prev m = NULL")
    case True
    then show ?thesis using assms(2) by (simp add: band_drop_last_def lis_simps same_band_def)
  next
    case False
    then obtain n where "mb s (b_prev m) = Some n" using assms(5) by auto
    then show ?thesis using False assms(2)
      by (simp add: band_drop_last_def lis_simps same_band_def mband_def)
  qed
  show ?thesis unfolding f bind.bind_lunit l bdropped_def Let_def ..
qed


text \<open>\<open>chk_band\<close> only works on flags, and a band above its high-water mark stays full.\<close>

lemma qbands_qs_comm: "s\<lparr>qbands := g\<rparr>\<lparr>qs := r\<rparr> = s\<lparr>qs := r, qbands := g\<rparr>"
  by simp

lemma chk_band_eval:
  assumes "qbands s b = Some B" "qs s q = Some Q"
  shows "\<exists>f g. chk_band q b s =
       Some (s\<lparr>qs := (qs s)(q \<mapsto> Q\<lparr>q_flag := f\<rparr>), qbands := (qbands s)(b \<mapsto> B\<lparr>qb_flag := g\<rparr>)\<rparr>) \<and>
     F_ISSET f QFULL = F_ISSET (q_flag Q) QFULL \<and> f AND SHUT_FLAGS = q_flag Q AND SHUT_FLAGS \<and>
     (qb_hiwat B < qb_count B \<longrightarrow> F_ISSET (qb_flag B) QB_FULL \<longrightarrow> F_ISSET g QB_FULL)"
proof -
  define g0 where "g0 = (if qb_count B \<le> qb_hiwat B then qb_flag B AND NOT QB_FULL else qb_flag B)"
  define low where "low = (F_ISSET g0 QB_WASFULL \<and> qb_count B \<le> qb_lowat B)"
  define g1 where "g1 = (if low then g0 AND NOT QB_WASFULL else g0)"
  define want where "want = F_ISSET g1 QB_WANTW"
  define g where "g = (if low \<and> want then g1 AND NOT QB_WANTW else g1)"
  define f where "f = (if low then (if want then q_flag Q OR QWANTW else q_flag Q) OR QBACK else q_flag Q)"
  have "chk_band q b s = Some (s\<lparr>qs := (qs s)(q \<mapsto> Q\<lparr>q_flag := f\<rparr>), qbands := (qbands s)(b \<mapsto> B\<lparr>qb_flag := g\<rparr>)\<rparr>)"
  proof -
    have 1: "(if qb_count B \<le> qb_hiwat B then upd_qb b (\<lambda>b. b\<lparr>qb_flag := qb_flag b AND NOT QB_FULL\<rparr>) s else Some s)
      = Some (s\<lparr>qbands := (qbands s)(b \<mapsto> B\<lparr>qb_flag := g0\<rparr>)\<rparr>)"
      using assms(1) by (simp add: lis_simps g0_def
          fun_upd_idem[where f = "qbands s" and x = b and y = "Some B", OF assms(1)])
    show ?thesis
    proof (cases low)
      case False
      then have "chk_band q b s = Some (s\<lparr>qbands := (qbands s)(b \<mapsto> B\<lparr>qb_flag := g0\<rparr>)\<rparr>)"
        using assms unfolding chk_band_def assms(1) bind.bind_lunit 1 by (auto simp: low_def)
      with False show ?thesis
        by (simp add: g_def g1_def f_def fun_upd_idem[where f = "qs s" and x = q and y = "Some Q", OF assms(2)])
    next
      case True
      then have l: "F_ISSET g0 QB_WASFULL" "qb_count B \<le> qb_lowat B" by (auto simp: low_def)
      show ?thesis
      proof (cases want)
        case True
        with \<open>low\<close> have "F_ISSET (g0 AND NOT QB_WASFULL) QB_WANTW" by (simp add: want_def g1_def)
        with l True \<open>low\<close> show ?thesis
          using assms unfolding chk_band_def assms(1) bind.bind_lunit 1 by (simp add: lis_simps g_def g1_def f_def qbands_qs_comm)
      next
        case False
        with \<open>low\<close> have "\<not> F_ISSET (g0 AND NOT QB_WASFULL) QB_WANTW" by (simp add: want_def g1_def)
        with l False \<open>low\<close> show ?thesis
          using assms unfolding chk_band_def assms(1) bind.bind_lunit 1 by (simp add: lis_simps g_def g1_def f_def qbands_qs_comm)
      qed
    qed
  qed
  moreover have "F_ISSET f QFULL = F_ISSET (q_flag Q) QFULL" by (simp add: f_def F_ISSET_keepers)
  moreover have "f AND SHUT_FLAGS = q_flag Q AND SHUT_FLAGS" by (simp add: f_def)
  moreover have "F_ISSET g QB_FULL" if "qb_hiwat B < qb_count B" "F_ISSET (qb_flag B) QB_FULL"
    using that by (auto simp: g_def g1_def g0_def F_ISSET_keepers dest: leD)
  ultimately show ?thesis by blast
qed


subsection \<open>A band loses a message\<close>

lemma bdropped_sel [simp]:
  "qb_next (bdropped x sn nx sp pv B) = qb_next B" "qb_count (bdropped x sn nx sp pv B) = qb_count B"
  "qb_hiwat (bdropped x sn nx sp pv B) = qb_hiwat B" "qb_flag (bdropped x sn nx sp pv B) = qb_flag B"
  by (simp_all add: bdropped_def Let_def)

lemma bdropped_class:
  assumes d: "desc s (as @ x # bs)" and dis: "distinct (as @ x # bs)" "NULL \<notin> set (as @ x # bs)"
    and x: "\<not> hipri s x" "mband s x = c"
    and first: "qb_first B = hd (cls s c (as @ x # bs))" and last: "qb_last B = last (cls s c (as @ x # bs))"
    and nx: "nx = hd0 bs" and pv: "pv = (if as = [] then NULL else last as)"
    and B': "B' = bdropped x (same_band s x nx) nx (same_band s x pv) pv B"
  shows "cls s c (as @ bs) = [] \<and> bunused B' \<or>
    cls s c (as @ bs) \<noteq> [] \<and> qb_first B' = hd (cls s c (as @ bs)) \<and> qb_last B' = last (cls s c (as @ bs))"
proof -
  have cx: "cls s c (as @ x # bs) = cls s c as @ x # cls s c bs" using x by (simp add: cls_append cls_Cons)
  have k: "qkey s x = unat c" using x by (simp add: qkey_def)
  have desc: "desc s as" "desc s bs" "\<forall>a\<in>set as. unat c \<le> qkey s a" "\<forall>b\<in>set bs. qkey s b \<le> unat c"
    using d k by (auto simp: desc_append desc_Cons)
  note after = cls_after[OF desc(2,4)] and before = cls_before[OF desc(1,3)]
  have in_as: "set (cls s c as) \<subseteq> set as" and in_bs: "set (cls s c bs) \<subseteq> set bs" by (auto simp: cls_in)
  have x_nn: "x \<noteq> NULL" using dis(2) by auto
  show ?thesis
  proof (cases "cls s c as = []")
    case True
    have f: "qb_first B = x" using first cx True by simp
    have same: "same_band s x nx \<longleftrightarrow> cls s c bs \<noteq> []"
    proof (cases bs)
      case Nil
      then show ?thesis by (simp add: same_band_def nx cls_def)
    next
      case (Cons b bs')
      have "\<not> hipri s b" using desc(4) Cons unat_u8_less[of c] by (auto simp: qkey_def)
      moreover have "b \<noteq> NULL" using dis(2) Cons by auto
      ultimately have "same_band s x nx \<longleftrightarrow> b \<in> set (cls s c bs)"
        using Cons x(2) by (auto simp: same_band_def nx cls_in)
      moreover have "b \<in> set (cls s c bs) \<longleftrightarrow> cls s c bs \<noteq> []" using after(2) Cons by auto
      ultimately show ?thesis by simp
    qed
    show ?thesis
    proof (cases "cls s c bs = []")
      case True
      then have "bunused B'" using f same x_nn by (simp add: B' bdropped_def bunused_def)
      then show ?thesis using True \<open>cls s c as = []\<close> by (simp add: cls_append)
    next
      case False
      have l: "qb_last B = last (cls s c bs)" using last cx False by simp
      have "last (cls s c bs) \<in> set bs" using in_bs False by (meson last_in_set subsetD)
      then have "qb_last B \<noteq> x" using l dis(1) by auto
      moreover have "nx = hd bs" using False nx by (cases bs) (auto simp: cls_def)
      then have "nx = hd (cls s c bs)" using after(1)[OF False] by simp
      ultimately show ?thesis using f same False l \<open>cls s c as = []\<close>
        by (simp add: B' bdropped_def cls_append)
    qed
  next
    case False
    have f: "qb_first B = hd (cls s c as)" using first cx False by simp
    have "hd (cls s c as) \<in> set as" using in_as False by (meson hd_in_set subsetD)
    then have fx: "qb_first B \<noteq> x" using f dis(1) by auto
    show ?thesis
    proof (cases "cls s c bs = []")
      case True
      have l: "qb_last B = x" using last cx True by simp
      have ne: "as \<noteq> []" using False by (auto simp: cls_def)
      have la: "last as \<in> set (cls s c as)" by (rule before(2)[OF False])
      then have "mband s (last as) = c" "last as \<in> set as" by (auto simp: cls_in)
      moreover from this(2) have "last as \<noteq> NULL" using dis(2) by (metis UnI1 set_append)
      ultimately have "same_band s x pv" using pv ne x(2) by (simp add: same_band_def)
      then show ?thesis using fx f l False True before(1)[OF False] pv ne
        by (simp add: B' bdropped_def cls_append)
    next
      case F2: False
      have l: "qb_last B = last (cls s c bs)" using last cx F2 by simp
      have "last (cls s c bs) \<in> set bs" using in_bs F2 by (meson last_in_set subsetD)
      then have "qb_last B \<noteq> x" using l dis(1) by auto
      then show ?thesis using fx f l False F2 by (simp add: B' bdropped_def cls_append)
    qed
  qed
qed


lemma fits_class: "fits s xs \<Longrightarrow> fits s (cls s c xs)" "fits s xs \<Longrightarrow> fits s (main s xs)"
  by (simp_all add: cls_def main_def fits_filter)

lemma tot_le:
  assumes "fits s (us @ x # vs)"
  shows "tot s (us @ vs) \<le> tot s (us @ x # vs)"
proof -
  have "fits s (us @ vs)" using assms by (simp add: fits_def)
  then show ?thesis using assms by (simp add: word_le_nat_alt unat_tot)
qed

lemma binv_remove:
  assumes inv: "binv s G (as @ x # bs) bnds" and c: "c \<noteq> 0" "\<not> hipri s x" "mband s x = c"
    and d: "desc s (as @ x # bs)" and dis: "distinct (as @ x # bs)" "NULL \<notin> set (as @ x # bs)"
    and fit: "fits s (as @ x # bs)" and b: "holder s G (as @ x # bs) bnds c b" "G b = Some B"
    and B': "B' = (bdropped x (same_band s x (hd0 bs)) (hd0 bs)
        (same_band s x (if as = [] then NULL else last as)) (if as = [] then NULL else last as)
        (B\<lparr>qb_count := qb_count B - msize s x\<rparr>))\<lparr>qb_flag := g\<rparr>"
    and g: "qb_hiwat B < qb_count B - msize s x \<longrightarrow> F_ISSET (qb_flag B) QB_FULL \<longrightarrow> F_ISSET g QB_FULL"
  shows "binv s (G(b \<mapsto> B')) (as @ bs) bnds"
proof (rule binv_update[OF inv c(1), of bnds b])
  have Bc: "bclass s (as @ x # bs) c B" using b by (simp add: holder_def)
  show "set bnds = insert b (set bnds)" using b(1) by (auto simp: holder_def)
  show "cls s c' (as @ bs) = cls s c' (as @ x # bs)" if "c' \<noteq> c" for c'
    using that c by (simp add: cls_append cls_Cons)
  show "bunused B0 \<or> bclass s (as @ x # bs) c B0" if "G b = Some B0" for B0
    using Bc b(2) that by simp
  show "\<not> holder s G (as @ x # bs) bnds c b'" if "b' \<noteq> b" for b'
  proof -
    have "cls s c (as @ x # bs) \<noteq> []" using Bc by (simp add: bclass_def)
    then have "\<exists>!b. holder s G (as @ x # bs) bnds c b" using inv c(1) by (simp add: binv_def)
    then show ?thesis using b(1) that by blast
  qed
  let ?B = "B\<lparr>qb_count := qb_count B - msize s x\<rparr>"
  have ends: "qb_first ?B = hd (cls s c (as @ x # bs))" "qb_last ?B = last (cls s c (as @ x # bs))"
    using Bc by (simp_all add: bclass_def)
  have B'f: "qb_first B' = qb_first (bdropped x (same_band s x (hd0 bs)) (hd0 bs)
        (same_band s x (if as = [] then NULL else last as)) (if as = [] then NULL else last as) ?B)"
    "qb_last B' = qb_last (bdropped x (same_band s x (hd0 bs)) (hd0 bs)
        (same_band s x (if as = [] then NULL else last as)) (if as = [] then NULL else last as) ?B)"
    "qb_count B' = qb_count B - msize s x" "qb_hiwat B' = qb_hiwat B" "qb_flag B' = g"
    by (simp_all add: B')
  have cx: "cls s c (as @ x # bs) = cls s c as @ x # cls s c bs" using c by (simp add: cls_append cls_Cons)
  have cnt: "qb_count B = tot s (cls s c as @ x # cls s c bs)" using Bc by (simp add: bclass_def cx)
  have fx: "fits s (cls s c as @ x # cls s c bs)"
    using fits_class(1)[OF fit, of c] by (simp only: cx)
  have new: "qb_count B - msize s x = tot s (cls s c (as @ bs))"
    by (simp add: cnt tot_append tot_Cons cls_append)
  have "qb_count B - msize s x \<le> qb_count B"
    unfolding new unfolding cls_append cnt by (rule tot_le[OF fx])
  then have "qb_hiwat B < qb_count B - msize s x \<longrightarrow> F_ISSET g QB_FULL"
    using g Bc by (auto simp: bclass_def)
  then show "cls s c (as @ bs) = [] \<and> bunused B' \<or> bclass s (as @ bs) c B'"
    using bdropped_class[OF d dis c(2,3) ends refl refl refl]
    by (auto simp: bclass_def bunused_def B'f new)
qed (use dis in simp_all)


subsection \<open>\<open>adjust_q_count\<close>\<close>

lemma acct_frame_pre:
  assumes "qs s q = Some Q" and g: "g AND SHUT_FLAGS = q_flag Q AND SHUT_FLAGS"
    and "acct_frame (s\<lparr>qs := (qs s)(q \<mapsto> Q\<lparr>q_flag := g\<rparr>)\<rparr>) q bs t"
  shows "acct_frame s q bs t"
proof -
  let ?s = "s\<lparr>qs := (qs s)(q \<mapsto> Q\<lparr>q_flag := g\<rparr>)\<rparr>"
  obtain n f p where t: "qs t = (qs ?s)(q \<mapsto> Q\<lparr>q_flag := g\<rparr>\<lparr>q_count := n, q_flag := f, q_bandp := p\<rparr>)"
    "bqframe ?s t" "qb_step ?s t" "\<And>b. b \<notin> set bs \<Longrightarrow> qbands t b = qbands ?s b"
    "f AND SHUT_FLAGS = g AND SHUT_FLAGS"
    using assms(3) unfolding acct_frame_def by auto
  have "bqframe s t"
  proof -
    obtain r g' k c where "t = ?s\<lparr>qs := r, qbands := g', kmem := k, qband_cnt := c\<rparr>"
      using t(2) unfolding bqframe_def by blast
    then show ?thesis by (simp add: bqframe_def)
  qed
  moreover have "qb_step s t" using t(3) by (simp add: qb_step_def)
  ultimately show ?thesis
    by (rule acct_frameI[OF _ _ assms(1), where n = n and f = f and p = p]) (use t(1,4,5) g in simp_all)
qed

lemma queue_ok_flag:
  assumes ok: "queue_ok s q xs bs" and Q: "qs s q = Some Q" and f: "F_ISSET f QFULL = F_ISSET (q_flag Q) QFULL"
  shows "queue_ok (s\<lparr>qs := (qs s)(q \<mapsto> Q\<lparr>q_flag := f\<rparr>)\<rparr>) q xs bs" (is "queue_ok ?t q xs bs")
proof -
  obtain Q0 where Q0: "qs s q = Some Q0" "bandlist (qbands s) (q_bandp Q0) bs" "binv s (qbands s) xs bs" "qacct s Q0 xs"
    using ok unfolding queue_ok_st by (rule queue_stE)
  then have "Q0 = Q" using Q by simp
  then have "qacct s (Q\<lparr>q_flag := f\<rparr>) xs" using Q0(4) f by (simp add: qacct_def)
  then show ?thesis unfolding queue_ok_st
    by (rule queue_st_acct[OF ok[unfolded queue_ok_st] Q, where n = "q_count Q" and f = f and p = "q_bandp Q", rotated -2])
       (use Q0 \<open>Q0 = Q\<close> in \<open>simp_all add: bqframe_def\<close>)
qed

text \<open>The two branches, after the flag was cleared.\<close>

lemma uncount_main:
  assumes ok: "queue_ok s q (as @ x # bs) bnds" and x: "hipri s x \<or> mband s x = 0" and n: "msize s x = word_of_int n"
  shows "\<exists>t. uncount_queue q n s = Some t \<and> queue_st t q (as @ x # bs) (as @ bs) bnds \<and> acct_frame s q bnds t"
proof -
  note st = ok[unfolded queue_ok_st]
  obtain Q where Q: "q \<noteq> NULL" "qs s q = Some Q" "bandlist (qbands s) (q_bandp Q) bnds"
    "binv s (qbands s) (as @ x # bs) bnds" "qacct s Q (as @ x # bs)" "fits s (as @ x # bs)"
    by (rule queue_stE[OF st])
  obtain Q' where Q': "uncount_queue q n s = Some (s\<lparr>qs := (qs s)(q \<mapsto> Q')\<rparr>)"
    "qflag_only (q_count Q - msize s x) Q Q'" using uncount_queue_eval[OF Q(2), of n] n by metis
  then obtain f where f: "Q' = Q\<lparr>q_count := q_count Q - msize s x, q_flag := f, q_bandp := q_bandp Q\<rparr>"
    "q_hiwat Q < q_count Q - msize s x \<longrightarrow> F_ISSET (q_flag Q) QFULL \<longrightarrow> F_ISSET f QFULL"
    "f AND SHUT_FLAGS = q_flag Q AND SHUT_FLAGS"
    by (auto simp: qflag_only_def)
  let ?t = "s\<lparr>qs := (qs s)(q \<mapsto> Q')\<rparr>"
  have fr: "bqframe s ?t" by (simp add: bqframe_def)
  have same: "c \<noteq> 0 \<Longrightarrow> cls s c (as @ bs) = cls s c (as @ x # bs)" for c
    using x by (auto simp: cls_append cls_Cons)
  have bi: "binv s (qbands ?t) (as @ bs) bnds" using Q(4) by (simp add: binv_cls_cong[OF same])
  have mx: "main s (as @ x # bs) = main s as @ x # main s bs" using x by (simp add: main_def)
  have cnt: "q_count Q = tot s (main s as @ x # main s bs)" using Q(5) by (simp add: qacct_def mx)
  have new: "q_count Q - msize s x = tot s (main s (as @ bs))"
    by (simp add: cnt tot_append tot_Cons main_def)
  have "fits s (main s as @ x # main s bs)"
    using fits_class(2)[OF Q(6)] by (simp only: mx)
  from tot_le[OF this] have le: "q_count Q - msize s x \<le> q_count Q"
    unfolding new by (simp add: cnt main_def)
  have "q_hiwat Q < q_count Q - msize s x \<longrightarrow> F_ISSET f QFULL"
    using f(2) order.strict_trans2[OF _ le] Q(5)[unfolded qacct_def] by blast
  then have ac: "qacct s Q' (as @ bs)" unfolding qacct_def f(1) new[symmetric] by simp
  have "queue_st ?t q (as @ x # bs) (as @ bs) bnds"
    by (rule queue_st_acct[OF st Q(2) fr _ f(1) _ bi ac]) (use Q(3) in auto)
  moreover have "acct_frame s q bnds ?t"
    by (rule acct_frameI[OF fr _ Q(2) f(3), where n = "q_count Q - msize s x" and p = "q_bandp Q"])
       (simp_all add: qb_step_def f(1))
  ultimately show ?thesis using Q'(1) by blast
qed


lemma uncount_band:
  assumes ok: "queue_ok s q (as @ x # bs) bnds" and x: "\<not> hipri s x" "mband s x = c" "c \<noteq> 0"
  shows "\<exists>b n t. find_qband q (uint c) s = Some (b, s) \<and> b \<noteq> NULL \<and> lis_msgsize x s = Some n \<and>
     (do { s \<leftarrow> upd_qb b (\<lambda>b. b\<lparr>qb_count := qb_count b - word_of_int n\<rparr>) s;
           s \<leftarrow> band_drop_first b x s; s \<leftarrow> band_drop_last b x s; chk_band q b s }) = Some t \<and>
     queue_st t q (as @ x # bs) (as @ bs) bnds \<and> acct_frame s q bnds t"
proof -
  note st = ok[unfolded queue_ok_st]
  obtain Q where Q: "q \<noteq> NULL" "qs s q = Some Q" "bandlist (qbands s) (q_bandp Q) bnds"
    "binv s (qbands s) (as @ x # bs) bnds" "qacct s Q (as @ x # bs)" "fits s (as @ x # bs)"
    "\<forall>y\<in>set (as @ x # bs). msg_ok s y" "qlist s Q (as @ x # bs)" "desc s (as @ x # bs)"
    "distinct (as @ x # bs)" "NULL \<notin> set (as @ x # bs)"
    by (rule queue_stE[OF st])
  have mok: "msg_ok s x" using Q(7) by simp
  obtain n where n: "lis_msgsize x s = Some n" "msize s x = word_of_int n"
    using msg_ok_size[OF mok] by blast
  have "cls s c (as @ x # bs) \<noteq> []" using x by (simp add: cls_append cls_Cons)
  from find_qband_used[OF Q(2,1,3,4,7) x(3) this] obtain b where
    b: "find_qband q (uint c) s = Some (b, s)" "b \<noteq> NULL" "holder s (qbands s) (as @ x # bs) bnds c b" by blast
  then obtain B where B: "b \<in> set bnds" "qbands s b = Some B" by (auto simp: holder_def)
  obtain m where m: "mb s x = Some m" "b_next m = hd0 bs" "b_prev m = (if as = [] then NULL else last as)"
    by (rule qlist_links[OF Q(8)])
  let ?pv = "if as = [] then NULL else last as"
  let ?B1 = "B\<lparr>qb_count := qb_count B - msize s x\<rparr>"
  let ?B2 = "bdropped x (same_band s x (hd0 bs)) (hd0 bs) (same_band s x ?pv) ?pv ?B1"
  let ?s1 = "s\<lparr>qbands := (qbands s)(b \<mapsto> ?B1)\<rparr>"
  let ?s2 = "s\<lparr>qbands := (qbands s)(b \<mapsto> ?B2)\<rparr>"
  have s1: "upd_qb b (\<lambda>b. b\<lparr>qb_count := qb_count b - word_of_int n\<rparr>) s = Some ?s1"
    using B(2) n(2) by (simp add: lis_simps)
  have allocated: "y \<noteq> NULL \<Longrightarrow> mb s y \<noteq> None" if "y = hd0 bs \<or> y = ?pv" for y
  proof -
    assume "y \<noteq> NULL"
    then have "y \<in> set (as @ x # bs)" using that by (cases bs) (auto split: if_splits)
    then show ?thesis using Q(7) by (auto elim: msg_okE)
  qed
  have sb: "same_band ?s1 x y = same_band s x y" for y by (simp add: same_band_def mband_def)
  have s2: "do { s \<leftarrow> band_drop_first b x ?s1; band_drop_last b x s } = Some ?s2"
    using band_drop_eval[of ?s1 b ?B1 x m] m allocated Q(11) by (auto simp: sb)
  obtain f g where t: "chk_band q b ?s2 =
       Some (?s2\<lparr>qs := (qs ?s2)(q \<mapsto> Q\<lparr>q_flag := f\<rparr>), qbands := (qbands ?s2)(b \<mapsto> ?B2\<lparr>qb_flag := g\<rparr>)\<rparr>)"
     "F_ISSET f QFULL = F_ISSET (q_flag Q) QFULL" "f AND SHUT_FLAGS = q_flag Q AND SHUT_FLAGS"
     "qb_hiwat ?B2 < qb_count ?B2 \<longrightarrow> F_ISSET (qb_flag ?B2) QB_FULL \<longrightarrow> F_ISSET g QB_FULL"
    using chk_band_eval[of ?s2 b ?B2 q Q] Q(2) by auto
  let ?B3 = "?B2\<lparr>qb_flag := g\<rparr>"
  let ?t = "s\<lparr>qs := (qs s)(q \<mapsto> Q\<lparr>q_flag := f\<rparr>), qbands := (qbands s)(b \<mapsto> ?B3)\<rparr>"
  have "?s2\<lparr>qs := (qs ?s2)(q \<mapsto> Q\<lparr>q_flag := f\<rparr>), qbands := (qbands ?s2)(b \<mapsto> ?B3)\<rparr> = ?t" by simp
  then have chk: "chk_band q b ?s2 = Some ?t" using t(1) by metis
  have seq: "(do { s \<leftarrow> upd_qb b (\<lambda>b. b\<lparr>qb_count := qb_count b - word_of_int n\<rparr>) s;
           s \<leftarrow> band_drop_first b x s; s \<leftarrow> band_drop_last b x s; chk_band q b s }) = Some ?t"
  proof -
    have "(do { s \<leftarrow> band_drop_first b x ?s1; s \<leftarrow> band_drop_last b x s; chk_band q b s }) =
        (do { s \<leftarrow> (do { s \<leftarrow> band_drop_first b x ?s1; band_drop_last b x s }); chk_band q b s })"
      by simp
    then show ?thesis unfolding s1 bind.bind_lunit s2 chk by simp
  qed
  have bi: "binv s (qbands ?t) (as @ bs) bnds"
    using binv_remove[OF Q(4) x(3,1,2) Q(9,10,11,6) b(3) B(2) refl, of g] t(4) by simp
  have "bandlist (qbands ?t) (q_bandp Q) bnds = bandlist (qbands s) (q_bandp Q) bnds"
    using bandlist_upd[where G = "qbands s" and b = b and B' = ?B3, OF B(2)] by simp
  then have bl: "bandlist (qbands ?t) (q_bandp Q) bnds" using Q(3) by blast
  have fr: "bqframe s ?t" by (simp add: bqframe_def)
  have "main s (as @ bs) = main s (as @ x # bs)" using x by (simp add: main_def)
  then have ac: "qacct s (Q\<lparr>q_flag := f\<rparr>) (as @ bs)" using Q(5) t(2) by (simp add: qacct_def)
  have "queue_st ?t q (as @ x # bs) (as @ bs) bnds"
    by (rule queue_st_acct[OF st Q(2) fr _ _ bl bi ac, where n = "q_count Q" and f = f]) auto
  moreover have "acct_frame s q bnds ?t"
    by (rule acct_frameI[OF fr _ Q(2) t(3), where n = "q_count Q" and p = "q_bandp Q"])
       (use B in \<open>auto simp: qb_step_def\<close>)
  ultimately show ?thesis using b(1,2) n(1) seq by blast
qed

lemma adjust_q_count_spec:
  assumes ok: "queue_ok s q (as @ x # bs) bnds"
  shows "\<exists>t. adjust_q_count q x True s = Some t \<and> queue_st t q (as @ x # bs) (as @ bs) bnds \<and>
     acct_frame s q bnds t"
proof -
  obtain Q where Q: "q \<noteq> NULL" "qs s q = Some Q" "\<forall>y\<in>set (as @ x # bs). msg_ok s y"
    by (rule queue_stE[OF ok[unfolded queue_ok_st]])
  let ?f = "q_flag Q AND NOT QWANTR"
  let ?s = "s\<lparr>qs := (qs s)(q \<mapsto> Q\<lparr>q_flag := ?f\<rparr>)\<rparr>"
  have ok0: "queue_ok ?s q (as @ x # bs) bnds" by (rule queue_ok_flag[OF ok Q(2) F_ISSET_keepers(1)])
  have be: "body_eq s ?s" by (simp add: body_eq_def)
  have mok: "msg_ok ?s x" using Q(3) by (simp add: body_eq_msg_ok[OF be])
  obtain m d where m: "mb ?s x = Some m" "db ?s (b_datap m) = Some d" "mband ?s x = b_band m"
    "hipri ?s x = (db_type d \<ge> QPCTL)" by (rule msg_okE[OF mok])
  obtain n where n: "lis_msgsize x ?s = Some n" "msize ?s x = word_of_int n"
    using msg_ok_size[OF mok] by blast
  have u: "upd_q q (\<lambda>Q. Q\<lparr>q_flag := q_flag Q AND NOT QWANTR\<rparr>) s = Some ?s" using Q(2) by (simp add: lis_simps)
  show ?thesis
  proof (cases "hipri ?s x \<or> mband ?s x = 0")
    case True
    obtain t where t: "uncount_queue q n ?s = Some t" "queue_st t q (as @ x # bs) (as @ bs) bnds"
      "acct_frame ?s q bnds t" using uncount_main[OF ok0 True n(2)] by blast
    have "\<not> (db_type d < QPCTL \<and> b_band m > 0)" using True m(3,4) by auto
    then have "adjust_q_count q x True s = Some t"
      unfolding adjust_q_count_def u bind.bind_lunit m(1,2) using n(1) t(1) by auto
    with t(2) acct_frame_pre[OF Q(2) shut_keepers(1) t(3)] show ?thesis by blast
  next
    case False
    then have "\<not> hipri ?s x" "mband ?s x = b_band m" "b_band m \<noteq> 0" using m(3) by auto
    from uncount_band[OF ok0 this] obtain b n t where t: "find_qband q (uint (b_band m)) ?s = Some (b, ?s)"
      "b \<noteq> NULL" "lis_msgsize x ?s = Some n"
      "(do { s \<leftarrow> upd_qb b (\<lambda>b. b\<lparr>qb_count := qb_count b - word_of_int n\<rparr>) ?s;
           s \<leftarrow> band_drop_first b x s; s \<leftarrow> band_drop_last b x s; chk_band q b s }) = Some t"
      "queue_st t q (as @ x # bs) (as @ bs) bnds" "acct_frame ?s q bnds t" by blast
    have "db_type d < QPCTL" using False m(4) by (metis not_le)
    moreover have "b_band m > 0" using False m(3) word_gt_0 by metis
    ultimately have br: "(db_type d < QPCTL \<and> b_band m > 0) = True" by blast
    have "adjust_q_count q x True s = Some t"
      unfolding adjust_q_count_def u bind.bind_lunit m(1,2) br if_True t(1) prod.case t(3)
      by (rule trans[OF if_P[OF t(2)] t(4)])
    with t(5) acct_frame_pre[OF Q(2) shut_keepers(1) t(6)] show ?thesis by blast
  qed
qed


subsection \<open>\<open>rmv_msg\<close>, \<open>getq\<close>, \<open>rmvq\<close>\<close>

text \<open>What the removal of \<open>x\<close> guarantees, \<open>xs'\<close> being the messages left.\<close>

definition removed :: "lis \<Rightarrow> ptr \<Rightarrow> ptr \<Rightarrow> ptr list \<Rightarrow> ptr list \<Rightarrow> lis \<Rightarrow> bool" where
  "removed s q x xs' bs t \<longleftrightarrow> queue_ok t q xs' bs \<and> mlink t x = Some (NULL, NULL) \<and> body_eq s t \<and>
     op_frame s q bs t \<and> sched_ok t \<and> route_eq s t \<and> (\<forall>y. y \<notin> set (x # xs') \<longrightarrow> mb t y = mb s y)"

lemma rmv_msg_spec:
  assumes ok: "queue_ok s q (as @ x # bs) bnds" and sch: "sched_ok s"
  shows "\<exists>t. rmv_msg q x s = Some (x, t) \<and> removed s q x (as @ bs) bnds t"
proof -
  obtain u where u: "adjust_q_count q x True s = Some u" "queue_st u q (as @ x # bs) (as @ bs) bnds"
    "acct_frame s q bnds u" using adjust_q_count_spec[OF ok] by blast
  obtain Q where Q: "q \<noteq> NULL" "qs u q = Some Q" "qlist u Q (as @ x # bs)" "desc u (as @ x # bs)"
    "fits u (as @ x # bs)" "\<forall>y\<in>set (as @ x # bs). msg_ok u y" "NULL \<notin> set (as @ x # bs)"
    by (rule queue_stE[OF u(2)])
  obtain t Q' where t: "unlink_msg q x u = Some t" "mqframe u t" "body_eq u t" "qs t = (qs u)(q \<mapsto> Q')"
    "Q' = Q\<lparr>q_first := q_first Q', q_last := q_last Q'\<rparr>" "qlist t Q' (as @ bs)"
    "mlink t x = Some (NULL, NULL)" "\<forall>y. y \<notin> set (as @ x # bs) \<longrightarrow> mb t y = mb u y"
    using unlink_msg_spec[OF Q(2,3)] by blast
  have fr: "bqframe s u" "qb_step s u" using u(3) by (simp_all add: acct_frame_def)
  have be: "body_eq s t" by (rule body_eq_trans[OF bqframe_body_eq[OF fr(1)] t(3)])
  have ys: "\<forall>y\<in>set (as @ bs). msg_ok u y" using Q(6) by simp
  have d: "desc u (as @ bs)" using Q(4) by (simp add: desc_append desc_Cons)
  have fit: "fits u (as @ bs)" using Q(5) by (simp add: fits_def)
  have "queue_st t q (as @ bs) (as @ bs) bnds"
    by (rule queue_st_link[OF u(2) ys Q(2) view_eq_body[OF t(3)] _ t(5) _ t(6) d fit ys])
       (simp_all add: t(4) mqframe_fields[OF t(2)])
  moreover have "sched_ok t"
    by (rule sched_ok_link[OF sched_ok_acct[OF u(3) sch] Q(2), where f = "q_first Q'" and l = "q_last Q'"])
       (use t(4,5) in \<open>simp_all add: mqframe_fields[OF t(2)]\<close>)
  moreover have "op_frame s q bnds t"
    using acct_op_frame[OF u(3)] t(4) by (simp add: op_frame_def qb_step_def mqframe_fields[OF t(2)])
  moreover have "\<forall>y. y \<notin> set (x # as @ bs) \<longrightarrow> mb t y = mb s y"
    using t(8) acct_frame_mb[OF u(3)] by simp
  moreover have "q_route Q' = q_route Q" by (subst t(5)) (simp add: q_route_def)
  then have "route_eq u t" by (rule route_eq_upd[OF Q(2) _ t(4)])
  then have "route_eq s t" by (rule route_eq_trans[OF acct_frame_route[OF u(3)]])
  ultimately have "removed s q x (as @ bs) bnds t" using t(7) be by (simp add: removed_def queue_ok_st)
  moreover have "rmv_msg q x s = Some (x, t)"
    using Q(7) by (simp add: rmv_msg_def u(1) t(1))
  ultimately show ?thesis by blast
qed

lemma removed_sched:
  assumes "removed s q x xs' bs t" "sched_eq t u" "sched_ok u"
  shows "removed s q x xs' bs u"
proof -
  have m: "mb u = mb t" "db u = db t" by (rule sched_eq_fields[OF assms(2)])+
  then have "mlink u = mlink t" "body_eq t u" by (auto simp: mlink_def body_eq_def)
  with assms show ?thesis
    by (auto simp: removed_def m op_frame_sched queue_ok_sched intro: body_eq_trans
        route_eq_trans[OF _ sched_eq_route])
qed

lemma backenable_removed:
  assumes rm: "removed s q x xs' bs t" and path: "backpath s q ps"
  shows "\<exists>u. lis_backenable q t = Some u \<and> removed s q x xs' bs u"
proof -
  have ok: "queue_ok t q xs' bs" "sched_ok t" "route_eq s t" using rm by (simp_all add: removed_def)
  obtain Q where Q: "qs t q = Some Q" using ok(1) by (auto simp: queue_ok_def)
  have "backpath t q ps" using path by (simp add: route_eq_backpath[OF ok(3)])
  from lis_backenable_spec[OF this ok(2) Q] obtain u where
    u: "lis_backenable q t = Some u" "sched_eq t u" "sched_ok u" by blast
  with removed_sched[OF rm u(2,3)] show ?thesis by blast
qed

lemma getq_spec:
  assumes ok: "queue_ok s q (x # xs) bs" and open_q: "q_shut q s = Some False" and sch: "sched_ok s"
    and path: "backpath s q ps"
  shows "\<exists>t. lis_getq q s = Some (x, t) \<and> removed s q x xs bs t"
proof -
  obtain Q where Q: "q \<noteq> NULL" "qs s q = Some Q" "qlist s Q (x # xs)" "NULL \<notin> set (x # xs)"
    by (rule queue_stE[OF ok[unfolded queue_ok_st]])
  obtain t where t: "rmv_msg q x s = Some (x, t)" "removed s q x xs bs t"
    using rmv_msg_spec[of s q "[]" x xs bs] ok sch by auto
  obtain u where u: "lis_backenable q t = Some u" "removed s q x xs bs u"
    using backenable_removed[OF t(2) path] by blast
  have "q_first Q = x" using qlist_first[OF Q(3)] by simp
  then have "lis_getq q s = Some (x, u)"
    using Q(1,2) open_q t(1) u(1) by (simp add: lis_getq_def)
  with u(2) show ?thesis by blast
qed

text \<open>From an empty queue nothing is taken, and the reader is noted.\<close>

lemma getq_empty_spec:
  assumes ok: "queue_ok s q [] bs" and open_q: "q_shut q s = Some False" and sch: "sched_ok s"
    and path: "backpath s q ps"
  shows "\<exists>t Q. lis_getq q s = Some (NULL, t) \<and> queue_ok t q [] bs \<and> sched_ok t \<and> mb t = mb s \<and>
     op_frame s q bs t \<and> route_eq s t \<and> qs t q = Some Q \<and> F_ISSET (q_flag Q) QWANTR"
proof -
  obtain Q where Q: "q \<noteq> NULL" "qs s q = Some Q" "qlist s Q []"
    by (rule queue_stE[OF ok[unfolded queue_ok_st]])
  let ?f = "q_flag Q OR (QWANTR OR QBACK)"
  let ?s = "s\<lparr>qs := (qs s)(q \<mapsto> Q\<lparr>q_flag := ?f\<rparr>)\<rparr>"
  have "\<not> F_ISSET (QWANTR OR QBACK) QFULL" by (simp add: F_ISSET_def q_flag_defs)
  then have "F_ISSET ?f QFULL = F_ISSET (q_flag Q) QFULL" by (simp add: F_ISSET_or)
  then have ok1: "queue_ok ?s q [] bs" by (rule queue_ok_flag[OF ok Q(2)])
  have sch1: "sched_ok ?s" using sch Q(2) by (auto simp: sched_ok_def)
  have rt: "route_eq s ?s" by (rule route_eq_upd[OF Q(2), where Q' = "Q\<lparr>q_flag := ?f\<rparr>"]) (simp_all add: q_route_def)
  then have "backpath ?s q ps" using path by (simp add: route_eq_backpath)
  from lis_backenable_spec[OF this sch1, of "Q\<lparr>q_flag := ?f\<rparr>"] obtain t where
    t: "lis_backenable q ?s = Some t" "sched_eq ?s t" "sched_ok t" by auto
  obtain Q' where Q': "qs t q = Some Q'" "qcore Q' = qcore (Q\<lparr>q_flag := ?f\<rparr>)"
    by (rule sched_eq_queue[OF t(2), of q "Q\<lparr>q_flag := ?f\<rparr>"]) auto
  have "F_ISSET (q_flag Q') QWANTR = F_ISSET ?f QWANTR"
    using qcore_flag[OF Q'(2), of QWANTR] by (simp add: SCHED_FLAGS_def q_flag_defs)
  then have w: "F_ISSET (q_flag Q') QWANTR" by (simp add: F_ISSET_or) (simp add: F_ISSET_def q_flag_defs)
  have fr: "op_frame s q bs ?s" by (simp add: op_frame_def qb_step_def)
  have "q_first Q = NULL" using Q(3) by (simp add: qlist_def)
  then have "lis_getq q s = Some (NULL, t)"
    using Q(1,2) open_q t(1) by (simp add: lis_getq_def rmv_msg_def lis_simps)
  then show ?thesis
    using queue_ok_sched[OF t(2) ok1] t(3) op_frame_sched[OF fr t(2)] Q'(1) w sched_eq_fields(1)[OF t(2)]
      route_eq_trans[OF rt sched_eq_route[OF t(2)]] by auto
qed

lemma rmvq_find_spec:
  "dl (mlink s) pv p xs lst NULL \<Longrightarrow> x \<in> set xs \<Longrightarrow> rmvq_find p x s = Some x"
  "dl (mlink s) pv p xs lst NULL \<Longrightarrow> x \<notin> set xs \<Longrightarrow> rmvq_find p x s = Some NULL"
proof (induction xs arbitrary: pv p)
  case (Cons y ys)
  { case 1
    then obtain n m where "p = y" "mb s y = Some m" "b_next m = n" "dl (mlink s) y n ys lst NULL"
      by (auto dest: mlinkD)
    then show ?case using Cons.IH(1)[of y n] 1 by (subst rmvq_find.simps) auto }
  { case 2
    then obtain n m where "p = y" "y \<noteq> NULL" "mb s y = Some m" "b_next m = n" "dl (mlink s) y n ys lst NULL"
      by (auto dest: mlinkD)
    then show ?case using Cons.IH(2)[of y n] 2 by (subst rmvq_find.simps) auto }
qed (simp_all add: rmvq_find.simps)

lemma rmvq_spec:
  assumes ok: "queue_ok s q (as @ x # xs) bs" and open_q: "q_shut q s = Some False" and sch: "sched_ok s"
    and path: "backpath s q ps"
  shows "\<exists>t. lis_rmvq q x s = Some t \<and> removed s q x (as @ xs) bs t"
proof -
  obtain Q where Q: "q \<noteq> NULL" "qs s q = Some Q" "qlist s Q (as @ x # xs)" "NULL \<notin> set (as @ x # xs)"
    by (rule queue_stE[OF ok[unfolded queue_ok_st]])
  obtain t where t: "rmv_msg q x s = Some (x, t)" "removed s q x (as @ xs) bs t"
    using rmv_msg_spec[OF ok sch] by blast
  obtain u where u: "lis_backenable q t = Some u" "removed s q x (as @ xs) bs u"
    using backenable_removed[OF t(2) path] by blast
  have "rmvq_find (q_first Q) x s = Some x"
    by (rule rmvq_find_spec(1)[of s NULL _ "as @ x # xs" "q_last Q"]) (use Q(3) in \<open>auto simp: qlist_def\<close>)
  then have "lis_rmvq q x s = Some u"
    using Q(1,2,4) open_q t(1) u(1) by (simp add: lis_rmvq_def)
  with u(2) show ?thesis by blast
qed

lemma rmvq_absent_spec:
  assumes ok: "queue_ok s q xs bs" and open_q: "q_shut q s = Some False" and x: "x \<notin> set xs"
  shows "lis_rmvq q x s = Some s"
proof -
  obtain Q where Q: "q \<noteq> NULL" "qs s q = Some Q" "qlist s Q xs"
    by (rule queue_stE[OF ok[unfolded queue_ok_st]])
  have "rmvq_find (q_first Q) x s = Some NULL"
    by (rule rmvq_find_spec(2)[of s NULL _ xs "q_last Q"]) (use Q(3) x in \<open>auto simp: qlist_def\<close>)
  then show ?thesis using Q(1,2) open_q by (simp add: lis_rmvq_def)
qed

end
