(* ===== verification/LiS_QueueSpec.thy ===== *)
theory LiS_QueueSpec
  imports LiS_QueueGet "HOL-Library.Multiset"
begin

text \<open>
  Insertion at a given place, and the queue as an abstract object: the interface a module relies on
  (messages of the highest priority first, first in first out among equals), what follows from it for
  any sequence of puts and gets, and its interpretation on \<open>lis_putq\<close> and \<open>lis_getq\<close>.
\<close>

unbundle bit_operations_syntax

subsection \<open>\<open>lis_insq\<close>\<close>

definition insq_fits :: "lis \<Rightarrow> ptr list \<Rightarrow> ptr \<Rightarrow> ptr \<Rightarrow> bool" where
  "insq_fits s as emp mp \<longleftrightarrow> \<not> hipri s emp \<and> mband s emp \<le> mband s mp \<and>
     (as = [] \<or> mband s mp \<le> mband s (last as))"

lemma insq_refused_spec:
  assumes ok: "queue_ok s q (as @ emp # bs) bnds" and mp: "msg_ok s mp" "\<not> hipri s mp"
  shows "insq_refused emp mp s = Some (\<not> insq_fits s as emp mp)"
proof -
  obtain Q where Q: "qlist s Q (as @ emp # bs)" "\<forall>y\<in>set (as @ emp # bs). msg_ok s y" "NULL \<notin> set (as @ emp # bs)"
    by (rule queue_stE[OF ok[unfolded queue_ok_st]])
  obtain m d where m: "mb s mp = Some m" "db s (b_datap m) = Some d" "mband s mp = b_band m"
    "hipri s mp = (db_type d \<ge> QPCTL)" by (rule msg_okE[OF mp(1)])
  have "msg_ok s emp" using Q(2) by simp
  then obtain e ed where e: "mb s emp = Some e" "db s (b_datap e) = Some ed" "mband s emp = b_band e"
    "hipri s emp = (db_type ed \<ge> QPCTL)" by (rule msg_okE)
  have prev: "b_prev e = (if as = [] then NULL else last as)"
    using qlist_links[OF Q(1)] e(1) by (metis option.inject)
  show ?thesis
  proof (cases "as = []")
    case True
    then show ?thesis using m e mp(2) prev Q(3) by (auto simp: insq_refused_def insq_fits_def)
  next
    case False
    then have l: "last as \<in> set (as @ emp # bs)" by simp
    then have "msg_ok s (last as)" "last as \<noteq> NULL" using Q(2,3) by (blast, metis)
    then obtain p where "mb s (last as) = Some p" "mband s (last as) = b_band p"
      by (auto elim: msg_okE)
    then show ?thesis using m e mp(2) prev Q(3) False \<open>last as \<noteq> NULL\<close>
      by (auto simp: insq_refused_def insq_fits_def)
  qed
qed

lemma insq_fits_desc:
  assumes d: "desc s (as @ emp # bs)" and mp: "\<not> hipri s mp" and f: "insq_fits s as emp mp"
  shows "desc s (as @ mp # emp # bs)"
proof -
  have k: "qkey s mp = unat (mband s mp)" using mp by (simp add: qkey_def)
  have e: "qkey s emp \<le> qkey s mp"
    using f unat_u8_less[of "mband s mp"] by (simp add: insq_fits_def k qkey_def word_le_nat_alt)
  have a: "qkey s mp \<le> qkey s a" if "a \<in> set as" for a
  proof -
    have "as \<noteq> []" using that by auto
    then have "mband s mp \<le> mband s (last as)" using f by (simp add: insq_fits_def)
    then have "qkey s mp \<le> qkey s (last as)"
      unfolding k using unat_u8_less[of "mband s mp"] by (simp add: qkey_def word_le_nat_alt)
    also have "\<dots> \<le> qkey s a" using d that desc_last_le by (simp add: desc_append)
    finally show ?thesis .
  qed
  show ?thesis using d e a by (fastforce simp: desc_append desc_Cons)
qed

text \<open>The counting returns, and leaves the links alone, wherever in the list the message stands.\<close>

lemma count_links:
  assumes Q: "qs s q = Some Q" "q \<noteq> NULL" and b: "bandlist (qbands s) (q_bandp Q) bnds" "binv s (qbands s) ys bnds"
    and ok: "\<forall>y\<in>set ys. msg_ok s y" "msg_ok s x" and room: "room s ys bnds x"
    and m: "mb s x = Some m" "db s (b_datap m) = Some d" "mband s x = b_band m" "hipri s x = (db_type d \<ge> QPCTL)"
  obtains u p c f where "(if db_type d \<ge> QPCTL \<or> b_band m = 0
        then do { n \<leftarrow> lis_msgsize x s; count_in_queue q n s }
        else do {
          (qp, s) \<leftarrow> find_qband q (uint (b_band m)) s;
          if qp \<noteq> NULL
          then do { n \<leftarrow> lis_msgsize x s; count_in_band qp x n True s }
          else Some s }) = Some u"
    "bqframe s u" "qs u = (qs s)(q \<mapsto> Q\<lparr>q_count := c, q_flag := f, q_bandp := p\<rparr>)"
proof -
  obtain n where n: "lis_msgsize x s = Some n" using msg_ok_size[OF ok(2)] by blast
  show thesis
  proof (cases "hipri s x \<or> mband s x = 0")
    case True
    obtain f where f: "qcounted (word_of_int n) Q =
        Q\<lparr>q_count := q_count Q + word_of_int n, q_flag := f, q_bandp := q_bandp Q\<rparr>"
      using qcounted_fields[of "word_of_int n" Q] by blast
    show ?thesis
      by (rule that[where u = "s\<lparr>qs := (qs s)(q \<mapsto> qcounted (word_of_int n) Q)\<rparr>" and p = "q_bandp Q"
            and c = "q_count Q + word_of_int n" and f = f])
        (use True m n count_in_queue_eval[OF Q(1)] in \<open>auto simp: bqframe_def f\<close>)
  next
    case False
    then have "cls s (mband s x) ys \<noteq> [] \<or> (\<exists>b\<in>set bnds. bfree s b) \<or> qb_fresh s" using room by (simp add: room_def)
    from find_qband_spec[OF Q b ok(1) _ this] False obtain b w B p where w: "find_qband q (uint (b_band m)) s = Some (b, w)"
      "b \<noteq> NULL" "bqframe s w" "qs w = (qs s)(q \<mapsto> Q\<lparr>q_bandp := p\<rparr>)" "qbands w = (qbands s)(b \<mapsto> B)"
      unfolding m(3) by metis
    have "lis_msgsize x w = Some n" using body_eq_msgsize[OF bqframe_body_eq[OF w(3)] ok(2)] n by simp
    moreover have "count_in_band b x n True w =
        Some (w\<lparr>qbands := (qbands w)(b \<mapsto> bcounted (word_of_int n) x (b_next m) (b_prev m) B)\<rparr>)"
      by (rule count_in_band_eval) (use w(3,5) m(1) in \<open>simp_all add: bqframe_fields\<close>)
    ultimately show ?thesis
      by (intro that[where u = "w\<lparr>qbands := (qbands w)(b \<mapsto> bcounted (word_of_int n) x (b_next m) (b_prev m) B)\<rparr>"
            and p = p and c = "q_count Q" and f = "q_flag Q"])
        (use False m w bqframe_qbands[OF w(3)] in \<open>auto simp: bqframe_fields\<close>)
  qed
qed

lemma updatequeue_links:
  assumes Q: "qs s q = Some Q" "q \<noteq> NULL" and b: "bandlist (qbands s) (q_bandp Q) bnds" "binv s (qbands s) ys bnds"
    and ok: "\<forall>y\<in>set ys. msg_ok s y" "msg_ok s x" and room: "room s ys bnds x" and sch: "sched_ok s"
  shows "\<exists>t Q'. updatequeue q x fi True s = Some t \<and> body_eq s t \<and> mb t = mb s \<and> qs t q = Some Q' \<and>
    q_first Q' = q_first Q \<and> q_last Q' = q_last Q"
proof -
  obtain m d where m: "mb s x = Some m" "db s (b_datap m) = Some d" "mband s x = b_band m"
    "hipri s x = (db_type d \<ge> QPCTL)" by (rule msg_okE[OF ok(2)])
  obtain u p c f where cnt: "(if db_type d \<ge> QPCTL \<or> b_band m = 0
        then do { n \<leftarrow> lis_msgsize x s; count_in_queue q n s }
        else do {
          (qp, s) \<leftarrow> find_qband q (uint (b_band m)) s;
          if qp \<noteq> NULL
          then do { n \<leftarrow> lis_msgsize x s; count_in_band qp x n True s }
          else Some s }) = Some u"
    and u: "bqframe s u" "qs u = (qs s)(q \<mapsto> Q\<lparr>q_count := c, q_flag := f, q_bandp := p\<rparr>)"
    by (rule count_links[OF Q b ok room m])
  have eq: "mb u = mb s" "sds u = sds s" "qhead u = qhead s" "qtail u = qtail s" by (simp_all add: bqframe_fields[OF u(1)])
  have "sched_ok u" using sch Q(1) u(2) eq by (auto simp: sched_ok_def)
  then obtain t where t: "lis_qenable q u = Some t" "sched_eq u t"
    using lis_qenable_spec[of u q] u(2) Q(2) by auto
  have "qs u q = Some (Q\<lparr>q_count := c, q_flag := f, q_bandp := p\<rparr>)" by (simp add: u(2))
  then obtain Q' where Q': "qs t q = Some Q'" "qcore Q' = qcore (Q\<lparr>q_count := c, q_flag := f, q_bandp := p\<rparr>)"
    by (rule sched_eq_queue[OF t(2)])
  have ends: "q_first Q' = q_first Q" "q_last Q' = q_last Q" using qcore_fields[OF Q'(2)] by simp_all
  have be: "body_eq s u" "body_eq s t" "mb t = mb s"
    using bqframe_body_eq[OF u(1)] sched_eq_fields(1,2)[OF t(2)] eq(1) by (auto simp: body_eq_def bqframe_fields[OF u(1)])
  have "updatequeue q x fi True s = Some u \<or> updatequeue q x fi True s = Some t"
    unfolding updatequeue_def using m(1,2) cnt u(2) t(1) by (simp add: Let_def)
  then show ?thesis
  proof
    assume "updatequeue q x fi True s = Some u"
    then show ?thesis using be(1) eq(1) u(2) by auto
  next
    assume "updatequeue q x fi True s = Some t"
    then show ?thesis using be(2,3) Q'(1) ends by auto
  qed
qed

lemma insert_linked:
  assumes ok: "queue_ok s q (as @ bs) bnds" and mp: "msg_ok s mp" "mp \<notin> set (as @ bs)"
    and room: "room s (as @ bs) bnds mp" and sch: "sched_ok s"
  shows "\<exists>t Q. insert_msg q (hd0 bs) mp fi s = Some t \<and> qs t q = Some Q \<and> qlist t Q (as @ mp # bs) \<and> qkey t = qkey s"
proof -
  obtain Q where Q: "q \<noteq> NULL" "qs s q = Some Q" "qlist s Q (as @ bs)" "bandlist (qbands s) (q_bandp Q) bnds"
    "binv s (qbands s) (as @ bs) bnds" "\<forall>x\<in>set (as @ bs). msg_ok s x"
    by (rule queue_stE[OF ok[unfolded queue_ok_st]])
  obtain s2 Q2 where s2: "ins_before q (hd0 bs) mp s = Some s2" "mqframe s s2" "body_eq s s2" "qs s2 = (qs s)(q \<mapsto> Q2)"
      "Q2 = Q\<lparr>q_first := q_first Q2, q_last := q_last Q2\<rparr>" "qlist s2 Q2 (as @ mp # bs)"
    using ins_before_spec[OF Q(2,3) mp] by blast
  have v: "view_eq s s2" by (rule view_eq_body[OF s2(3)])
  have bp: "q_bandp Q2 = q_bandp Q" by (subst s2(5)) simp
  have "\<exists>t Q'. updatequeue q mp fi True s2 = Some t \<and> body_eq s2 t \<and> mb t = mb s2 \<and> qs t q = Some Q' \<and>
    q_first Q' = q_first Q2 \<and> q_last Q' = q_last Q2"
  proof (rule updatequeue_links)
    show "bandlist (qbands s2) (q_bandp Q2) bnds" using Q(4) by (simp add: bp mqframe_fields[OF s2(2)])
    show "binv s2 (qbands s2) (as @ bs) bnds"
      using Q(5,6) by (simp add: view_eq_binv[OF v] mqframe_fields[OF s2(2)])
    show "room s2 (as @ bs) bnds mp" by (rule view_eq_room[OF v _ _ room]) (simp_all add: mqframe_fields[OF s2(2)])
    show "sched_ok s2"
      by (rule sched_ok_link[OF sch Q(2), where f = "q_first Q2" and l = "q_last Q2"])
        (use s2(4,5) in \<open>simp_all add: mqframe_fields[OF s2(2)]\<close>)
  qed (use Q(1,6) mp(1) s2(4) in \<open>simp_all add: body_eq_msg_ok[OF s2(3)]\<close>)
  then obtain t Q' where t: "updatequeue q mp fi True s2 = Some t" "body_eq s2 t" "mb t = mb s2" "qs t q = Some Q'"
    "q_first Q' = q_first Q2" "q_last Q' = q_last Q2" by blast
  have "qlist t Q' (as @ mp # bs)"
    using s2(6) t(2,5,6) mlink_mb[OF t(3)] by (simp add: qlist_def body_eq_msg_ok)
  moreover have "qkey t = qkey s" using body_eq_fields(6) s2(3) t(2) by metis
  ultimately show ?thesis using s2(1) t(1,4) by (simp add: insert_msg_def)
qed

text \<open>
  Whether \<open>insq\<close> refuses to put \<open>mp\<close> before the first of \<open>bs\<close>, behind \<open>as\<close>: high-priority messages and
  messages for the end of the queue are not tested.
\<close>

definition insq_refuses :: "lis \<Rightarrow> ptr list \<Rightarrow> ptr list \<Rightarrow> ptr \<Rightarrow> bool" where
  "insq_refuses s as bs mp \<longleftrightarrow> \<not> hipri s mp \<and> bs \<noteq> [] \<and> \<not> insq_fits s as (hd bs) mp"

lemma insq_refused_any:
  assumes ok: "queue_ok s q (as @ bs) bnds" and mp: "msg_ok s mp"
  shows "insq_refused (hd0 bs) mp s = Some (insq_refuses s as bs mp)"
proof (cases "hipri s mp \<or> bs = []")
  case True
  obtain m d where m: "mb s mp = Some m" "db s (b_datap m) = Some d" "hipri s mp = (db_type d \<ge> QPCTL)"
    by (rule msg_okE[OF mp])
  show ?thesis
  proof (cases "hipri s mp")
    case h: True
    then have "\<not> db_type d < QPCTL" using m(3) by (simp add: not_less)
    then show ?thesis using m h unfolding insq_refused_def by (simp add: insq_refuses_def)
  next
    case False
    then show ?thesis using True m by (simp add: insq_refused_def insq_refuses_def)
  qed
next
  case False
  then obtain emp bs' where "bs = emp # bs'" by (cases bs) auto
  then show ?thesis using insq_refused_spec[of s q as emp bs' bnds mp] ok mp False by (simp add: insq_refuses_def)
qed

text \<open>
  \<open>insq\<close> before the first of \<open>bs\<close>, or at the end: refused without effect, or inserted there.  If the place
  is in order the queue stays in order; if it is not, and the code did not test it, the links have the
  message at that place all the same.
\<close>

lemma insq_spec:
  assumes ok: "queue_ok s q (as @ bs) bnds" and open_q: "q_shut q s = Some False"
    and mp: "msg_ok s mp" "mp \<notin> set (as @ bs)"
    and fit: "fits s (mp # as @ bs)" and room: "room s (as @ bs) bnds mp" and sch: "sched_ok s"
  shows "if insq_refuses s as bs mp then lis_insq q (hd0 bs) mp s = Some (0, LisUpFailCount MSGSQD s)
    else \<exists>t. lis_insq q (hd0 bs) mp s = Some (1, t) \<and>
      (if desc s (as @ mp # bs) then inserted s q mp (as @ mp # bs) bnds t
       else (\<exists>Q. qs t q = Some Q \<and> qlist t Q (as @ mp # bs)) \<and> \<not> desc t (as @ mp # bs))"
proof -
  obtain Q where Q: "q \<noteq> NULL" by (rule queue_stE[OF ok[unfolded queue_ok_st]])
  have nn: "mp \<noteq> NULL" using mp(1) by (simp add: msg_ok_def)
  note rf = insq_refused_any[OF ok mp(1)]
  have insq: "lis_insq q (hd0 bs) mp s = map_option (Pair 1) (insert_msg q (hd0 bs) mp True s)"
    if "\<not> insq_refuses s as bs mp"
    using rf that Q nn open_q by (cases "ins_before q (hd0 bs) mp s") (simp_all add: lis_insq_def insert_msg_def bind_eq_Some_conv map_option_case split: option.split)
  show ?thesis
  proof (cases "insq_refuses s as bs mp")
    case True
    then show ?thesis using rf Q nn open_q by (simp add: lis_insq_def)
  next
    case free: False
    show ?thesis
    proof (cases "desc s (as @ mp # bs)")
      case True
      have "banded s mp s" by (auto simp: banded_def)
      from insert_msg_spec[OF ok mp True fit room sch this, of True]
      obtain t bs' where "insert_msg q (hd0 bs) mp True s = Some t"
        "queue_ok t q (as @ mp # bs) bs'" "sched_ok t" "op_frame s q bs' t"
        "set bnds \<subseteq> set bs'" "view_eq s t" "route_eq s t"
        "\<forall>x. x \<notin> set (as @ mp # bs) \<longrightarrow> mb t x = mb s x" by blast
      then show ?thesis using insq[OF free] free True unfolding inserted_def by simp blast
    next
      case False
      obtain t Q' where t: "insert_msg q (hd0 bs) mp True s = Some t" "qs t q = Some Q'" "qlist t Q' (as @ mp # bs)"
        "qkey t = qkey s" using insert_linked[OF ok mp room sch] by blast
      have "\<not> desc t (as @ mp # bs)" using False t(4) by (simp add: desc_def)
      then show ?thesis using insq[OF free] free False t by auto
    qed
  qed
qed

text \<open>An ordinary message that is not refused before \<open>emp\<close> is in order there.\<close>

lemma insq_accepted_desc:
  "desc s (as @ bs) \<Longrightarrow> \<not> hipri s mp \<Longrightarrow> bs \<noteq> [] \<Longrightarrow> \<not> insq_refuses s as bs mp \<Longrightarrow> desc s (as @ mp # bs)"
  using insq_fits_desc[of s as "hd bs" "tl bs" mp] by (simp add: insq_refuses_def)

subsection \<open>Insertion by key is a stable sort\<close>

lemma ins_after_simps [simp]:
  "ins_after k x [] = [x]"
  "ins_after k x (y # ys) = (if k x \<le> k y then y # ins_after k x ys else x # y # ys)"
  by (simp_all add: ins_after_def)

lemma mset_ins_after [simp]: "mset (ins_after k x xs) = add_mset x (mset xs)"
  by (induction xs) auto

lemma mset_ins_first: "mset (ins_first k x xs) = add_mset x (mset xs)"
  by (induction xs) (auto simp: ins_first_def)

lemma filter_ins_after:
  "sorted_wrt (\<lambda>x y. k y \<le> k x) xs \<Longrightarrow>
     filter (\<lambda>y. k y = v) (ins_after k x xs) = filter (\<lambda>y. k y = v) xs @ (if k x = v then [x] else [])"
proof (induction xs)
  case (Cons a xs)
  show ?case
  proof (cases "k x \<le> k a")
    case True
    with Cons show ?thesis by simp
  next
    case False
    then have "\<forall>y\<in>set (a # xs). k y < k x" using Cons.prems by fastforce
    then have "k x = v \<Longrightarrow> filter (\<lambda>y. k y = v) (a # xs) = []" by (simp only: filter_empty_conv) auto
    with False show ?thesis by (cases "k x = v") simp_all
  qed
qed simp

lemma sorted_ins_after: "sorted_wrt (\<lambda>x y. k y \<le> k x) xs \<Longrightarrow> sorted_wrt (\<lambda>x y. k y \<le> k x) (ins_after k x xs)"
proof (induction xs)
  case (Cons y ys)
  have "set (ins_after k x ys) = insert x (set ys)" by (rule set_ins)
  with Cons show ?case by (auto simp: not_le)
qed simp

lemma fold_ins_after:
  assumes "sorted_wrt (\<lambda>x y. k y \<le> k x) xs"
  shows "sorted_wrt (\<lambda>x y. k y \<le> k x) (fold (ins_after k) ms xs)"
    "mset (fold (ins_after k) ms xs) = mset xs + mset ms"
    "filter (\<lambda>y. k y = v) (fold (ins_after k) ms xs) = filter (\<lambda>y. k y = v) xs @ filter (\<lambda>y. k y = v) ms"
  using assms
  by (induction ms arbitrary: xs) (simp_all add: sorted_ins_after filter_ins_after)

text \<open>Descending by key, the order of arrival kept among equals.\<close>

definition by_prio :: "(ptr \<Rightarrow> nat) \<Rightarrow> ptr list \<Rightarrow> ptr list" where
  "by_prio k ms = sort_key (\<lambda>m. - int (k m)) ms"

lemma fold_ins_after_sort: "fold (ins_after k) ms [] = by_prio k ms"
proof -
  let ?f = "\<lambda>m. - int (k m)"
  have "sorted (map ?f (fold (ins_after k) ms []))"
    using fold_ins_after(1)[of k "[]" ms] by (simp add: sorted_wrt_map)
  moreover have "filter (\<lambda>x. ?f m = ?f x) (fold (ins_after k) ms []) = filter (\<lambda>x. ?f m = ?f x) ms" for m
    using fold_ins_after(3)[of k "[]" "k m" ms] by (simp add: eq_commute[of "k m"])
  ultimately show ?thesis
    unfolding by_prio_def using fold_ins_after(2)[of k "[]" ms]
    by (intro sym[OF properties_for_sort_key]) auto
qed


subsection \<open>The interface of a message queue\<close>

text \<open>Any sequence of puts, and any number of gets.\<close>

fun puts :: "(ptr \<Rightarrow> 's \<Rightarrow> 's option) \<Rightarrow> ptr list \<Rightarrow> 's \<Rightarrow> 's option" where
  "puts put [] s = Some s"
| "puts put (m # ms) s = do { s \<leftarrow> put m s; puts put ms s }"

fun gets :: "('s \<Rightarrow> (ptr \<times> 's) option) \<Rightarrow> nat \<Rightarrow> 's \<Rightarrow> (ptr list \<times> 's) option" where
  "gets get 0 s = Some ([], s)"
| "gets get (Suc n) s = do { (x, s) \<leftarrow> get s; (xs, s) \<leftarrow> gets get n s; Some (x # xs, s) }"

locale message_queue =
  fixes key :: "'s \<Rightarrow> ptr \<Rightarrow> nat"
    and holds :: "'s \<Rightarrow> ptr list \<Rightarrow> bool"
    and ready :: "'s \<Rightarrow> ptr list \<Rightarrow> ptr list \<Rightarrow> bool"
    and put :: "ptr \<Rightarrow> 's \<Rightarrow> 's option"
    and get :: "'s \<Rightarrow> (ptr \<times> 's) option"
  assumes put_law: "holds s xs \<Longrightarrow> ready s xs (m # ms) \<Longrightarrow> \<exists>t. put m s = Some t \<and>
      holds t (ins_after (key s) m xs) \<and> ready t (ins_after (key s) m xs) ms \<and> key t = key s"
    and get_law: "holds s (x # xs) \<Longrightarrow> \<exists>t. get s = Some (x, t) \<and> holds t xs \<and> key t = key s"
    and get_empty: "holds s [] \<Longrightarrow> \<exists>t. get s = Some (NULL, t) \<and> holds t [] \<and> key t = key s"
begin

lemma puts_law:
  "holds s xs \<Longrightarrow> ready s xs ms \<Longrightarrow>
     \<exists>t. puts put ms s = Some t \<and> holds t (fold (ins_after (key s)) ms xs) \<and> key t = key s"
proof (induction ms arbitrary: s xs)
  case (Cons m ms)
  from put_law[OF Cons.prems] obtain t where t: "put m s = Some t" "holds t (ins_after (key s) m xs)"
    "ready t (ins_after (key s) m xs) ms" "key t = key s" by blast
  from Cons.IH[OF t(2,3)] t show ?case by auto
qed simp

lemma gets_law:
  "holds s (xs @ ys) \<Longrightarrow> \<exists>t. gets get (length xs) s = Some (xs, t) \<and> holds t ys \<and> key t = key s"
proof (induction xs arbitrary: s)
  case (Cons x xs)
  from get_law[of s x "xs @ ys"] Cons.prems obtain t where t: "get s = Some (x, t)" "holds t (xs @ ys)"
    "key t = key s" by auto
  from Cons.IH[OF t(2)] t(1,3) show ?case by auto
qed simp

lemma puts_gets:
  assumes "holds s []" "ready s [] ms"
  shows "\<exists>t u. puts put ms s = Some t \<and> gets get (length ms) t = Some (by_prio (key s) ms, u) \<and> holds u []"
proof -
  obtain t where t: "puts put ms s = Some t" "holds t (by_prio (key s) ms)"
    using puts_law[OF assms] by (auto simp: fold_ins_after_sort)
  from gets_law[of t "by_prio (key s) ms" "[]"] t(2) obtain u where
    "gets get (length (by_prio (key s) ms)) t = Some (by_prio (key s) ms, u)" "holds u []" by auto
  with t(1) show ?thesis by (auto simp: by_prio_def)
qed

end

text \<open>A queue to which a message just taken can be returned.\<close>

locale returning_queue = message_queue +
  fixes unget :: "ptr \<Rightarrow> 's \<Rightarrow> 's option"
  assumes holds_desc: "holds s xs \<Longrightarrow> sorted_wrt (\<lambda>x y. key s y \<le> key s x) xs"
    and unget_law: "holds s (x # xs) \<Longrightarrow> get s = Some (x, t) \<Longrightarrow>
      \<exists>u. unget x t = Some u \<and> holds u (ins_first (key s) x xs) \<and> key u = key s"
begin

lemma get_unget:
  assumes "holds s (x # xs)"
  shows "\<exists>t u. get s = Some (x, t) \<and> unget x t = Some u \<and> holds u (x # xs) \<and> key u = key s"
proof -
  have "ins_first (key s) x xs = x # xs"
    using holds_desc[OF assms] by (cases xs) (auto simp: ins_first_def)
  with get_law[OF assms] unget_law[OF assms] show ?thesis by metis
qed

end

subsection \<open>The interface implemented by \<open>lis_putq\<close>, \<open>lis_putbq\<close> and \<open>lis_getq\<close>\<close>

definition q_holds :: "ptr \<Rightarrow> lis \<Rightarrow> ptr list \<Rightarrow> bool" where
  "q_holds q s xs \<longleftrightarrow> (\<exists>bs. queue_ok s q xs bs) \<and> sched_ok s \<and> q_shut q s = Some False \<and> (\<exists>ps. backpath s q ps)"

text \<open>The kernel's next \<open>n\<close> answers are new structures.\<close>

definition kstock :: "nat \<Rightarrow> lis \<Rightarrow> bool" where
  "kstock n s \<longleftrightarrow> n \<le> length (kmem s) \<and> distinct (take n (kmem s)) \<and>
     (\<forall>p\<in>set (take n (kmem s)). p \<noteq> NULL \<and> qbands s p = None)"

definition q_ready :: "lis \<Rightarrow> ptr list \<Rightarrow> ptr list \<Rightarrow> bool" where
  "q_ready s xs ms \<longleftrightarrow> (\<forall>m\<in>set ms. msg_ok s m) \<and> distinct ms \<and> set ms \<inter> set xs = {} \<and>
     fits s (ms @ xs) \<and> kstock (length ms) s"

definition q_put :: "ptr \<Rightarrow> ptr \<Rightarrow> lis \<Rightarrow> lis option" where
  "q_put q m s = do { (r, s) \<leftarrow> lis_putq q m s; if r = 1 then Some s else None }"

definition q_unget :: "ptr \<Rightarrow> ptr \<Rightarrow> lis \<Rightarrow> lis option" where
  "q_unget q m s = do { (r, s) \<leftarrow> lis_putbq q m s; if r = 1 then Some s else None }"

lemma kstock_fresh: "kstock (Suc n) s \<Longrightarrow> qb_fresh s"
  by (cases "kmem s") (auto simp: kstock_def qb_fresh_def)

lemma kstock_step:
  assumes "kstock (Suc n) s" "qb_step s t"
  shows "kstock n t"
proof -
  obtain p ps where k: "kmem s = p # ps" using assms(1) by (cases "kmem s") (auto simp: kstock_def)
  have d: "distinct (take n ps)" "p \<notin> set (take n ps)" "n \<le> length ps"
    "\<forall>x\<in>set (p # take n ps). x \<noteq> NULL \<and> x \<notin> dom (qbands s)"
    using assms(1) k by (auto simp: kstock_def)
  from assms(2) show ?thesis unfolding qb_step_def
  proof
    assume "kmem t = kmem s \<and> dom (qbands t) = dom (qbands s)"
    moreover from this have "qbands t x = None \<longleftrightarrow> qbands s x = None" for x by (metis domIff)
    moreover have "set (take n (p # ps)) \<subseteq> set (p # take n ps)"
      using set_take_subset_set_take[of n "Suc n" "p # ps"] by simp
    moreover have "take n (p # ps) = take n (p # take n ps)"
      by (cases n) (simp_all add: min_def)
    then have "distinct (take n (p # ps))" using d(1,2) distinct_take[of "p # take n ps" n] by simp
    ultimately show ?thesis using k d(3,4) by (auto simp: kstock_def domIff)
  next
    assume "\<exists>p. kmem s = p # kmem t \<and> dom (qbands t) = insert p (dom (qbands s))"
    then have "kmem t = ps" "dom (qbands t) = insert p (dom (qbands s))" using k by auto
    then show ?thesis using d by (auto simp: kstock_def domIff)
  qed
qed

lemma fits_mset: "mset xs = mset ys \<Longrightarrow> fits s xs = fits s ys"
proof -
  assume "mset xs = mset ys"
  then have "mset (map (\<lambda>x. unat (msize s x)) xs) = mset (map (\<lambda>x. unat (msize s x)) ys)" by simp
  then show ?thesis unfolding fits_def by (metis sum_mset_sum_list)
qed

lemma fits_prefix: "fits s (xs @ ys) \<Longrightarrow> fits s ys"
  by (simp add: fits_def)

text \<open>The queue stays in order under every operation that keeps its route and view.\<close>

lemma q_holds_step:
  assumes "q_holds q s xs" "queue_ok t q ys bs" "sched_ok t" "route_eq s t"
  shows "q_holds q t ys"
  using assms unfolding q_holds_def by (metis route_eq_shut route_eq_backpath)

lemma q_put_law:
  assumes h: "q_holds q s xs" and r: "q_ready s xs (m # ms)"
  shows "\<exists>t. q_put q m s = Some t \<and> q_holds q t (ins_after (qkey s) m xs) \<and>
    q_ready t (ins_after (qkey s) m xs) ms \<and> qkey t = qkey s"
proof -
  obtain bs where ok: "queue_ok s q xs bs" "sched_ok s" "q_shut q s = Some False"
    using h by (auto simp: q_holds_def)
  have m: "msg_ok s m" "m \<notin> set xs" "fits s (m # xs)" "room s xs bs m"
  proof -
    show "msg_ok s m" "m \<notin> set xs" using r by (auto simp: q_ready_def)
    have "fits s (m # ms @ xs)" using r by (simp add: q_ready_def)
    then show "fits s (m # xs)" by (auto simp: fits_def)
    show "room s xs bs m" using r kstock_fresh by (auto simp: q_ready_def room_def)
  qed
  from putq_spec(1)[OF ok(1,3) m(1,2,3,4) ok(2)] obtain t where
    t: "lis_putq q m s = Some (1, t)" "inserted s q m (ins_after (qkey s) m xs) bs t" by blast
  then obtain bs' where bs': "queue_ok t q (ins_after (qkey s) m xs) bs'" "op_frame s q bs' t"
    "sched_ok t" "view_eq s t" "route_eq s t" by (auto simp: inserted_def)
  note v = view_eq_fields[OF bs'(4)]
  have "q_holds q t (ins_after (qkey s) m xs)" by (rule q_holds_step[OF h bs'(1,3,5)])
  moreover have "q_ready t (ins_after (qkey s) m xs) ms"
  proof -
    have "\<forall>x\<in>set ((m # ms) @ xs). msg_ok s x"
      using r ok(1) by (auto simp: q_ready_def queue_ok_def qlist_def)
    then have "fits t ((m # ms) @ xs)" using view_eq_tot(2)[OF bs'(4)] r by (simp add: q_ready_def)
    then have "fits t (ms @ ins_after (qkey s) m xs)"
      by (rule iffD1[OF fits_mset, rotated]) simp
    moreover have "kstock (length ms) t"
      using r bs'(2) kstock_step by (auto simp: q_ready_def op_frame_def)
    ultimately show ?thesis using r by (auto simp: q_ready_def v(3) set_ins)
  qed
  ultimately show ?thesis using t(1) v(2) by (auto simp: q_put_def)
qed

lemma q_get_law:
  assumes h: "q_holds q s (x # xs)"
  shows "\<exists>t bs. lis_getq q s = Some (x, t) \<and> queue_ok s q (x # xs) bs \<and> removed s q x xs bs t \<and> q_holds q t xs"
proof -
  obtain bs ps where ok: "queue_ok s q (x # xs) bs" "sched_ok s" "q_shut q s = Some False" "backpath s q ps"
    using h by (auto simp: q_holds_def)
  from getq_spec[OF ok(1,3,2,4)] obtain t where t: "lis_getq q s = Some (x, t)" "removed s q x xs bs t" by blast
  then have "q_holds q t xs" by (intro q_holds_step[OF h]) (auto simp: removed_def)
  with t ok(1) show ?thesis by blast
qed

lemma q_get_empty:
  assumes h: "q_holds q s []"
  shows "\<exists>t. lis_getq q s = Some (NULL, t) \<and> q_holds q t [] \<and> qkey t = qkey s"
proof -
  obtain bs ps where ok: "queue_ok s q [] bs" "sched_ok s" "q_shut q s = Some False" "backpath s q ps"
    using h by (auto simp: q_holds_def)
  from getq_empty_spec[OF ok(1,3,2,4)] obtain t where t: "lis_getq q s = Some (NULL, t)"
    "queue_ok t q [] bs" "sched_ok t" "mb t = mb s" "op_frame s q bs t" "route_eq s t" by blast
  have "body_eq s t" using t(4,5) by (simp add: body_eq_def op_frame_def)
  then have "qkey t = qkey s" by (rule body_eq_fields)
  with t(1) q_holds_step[OF h t(2,3,6)] show ?thesis by blast
qed

interpretation lq: message_queue qkey "q_holds q" q_ready "q_put q" "lis_getq q" for q
proof
  show "q_holds q s xs \<Longrightarrow> q_ready s xs (m # ms) \<Longrightarrow> \<exists>t. q_put q m s = Some t \<and>
      q_holds q t (ins_after (qkey s) m xs) \<and> q_ready t (ins_after (qkey s) m xs) ms \<and> qkey t = qkey s"
    for s xs m ms by (rule q_put_law)
  show "\<exists>t. lis_getq q s = Some (x, t) \<and> q_holds q t xs \<and> qkey t = qkey s" if h: "q_holds q s (x # xs)" for s x xs
    using q_get_law[OF h] by (auto simp: removed_def body_eq_fields)
  show "q_holds q s [] \<Longrightarrow> \<exists>t. lis_getq q s = Some (NULL, t) \<and> q_holds q t [] \<and> qkey t = qkey s" for s
    by (rule q_get_empty)
qed


subsection \<open>A message taken can always be put back\<close>

definition used_bands :: "lis \<Rightarrow> ptr list \<Rightarrow> u8 set" where
  "used_bands s xs = {c. c \<noteq> 0 \<and> cls s c xs \<noteq> []}"

text \<open>Each used band has a structure of its own, so the band of the message removed leaves one free.\<close>

lemma used_bands_le:
  assumes "queue_ok s q xs bs"
  shows "card (used_bands s xs) \<le> card (set bs)"
proof -
  have inv: "binv s (qbands s) xs bs" using assms by (auto simp: queue_ok_def)
  have "\<forall>c\<in>used_bands s xs. \<exists>b. holder s (qbands s) xs bs c b"
    using inv by (auto simp: used_bands_def binv_def)
  then obtain g where g: "\<forall>c\<in>used_bands s xs. holder s (qbands s) xs bs c (g c)" by (metis bchoice)
  have "inj_on g (used_bands s xs)"
  proof (rule inj_onI)
    fix c c' assume "c \<in> used_bands s xs" "c' \<in> used_bands s xs" "g c = g c'"
    with g obtain B where "bclass s xs c B" "bclass s xs c' B" unfolding holder_def by (metis option.inject)
    then show "c = c'" by (rule bclass_unique)
  qed
  moreover have "g ` used_bands s xs \<subseteq> set bs" using g by (auto simp: holder_def)
  ultimately show ?thesis using card_inj_on_le by blast
qed

lemma used_bands_ge:
  assumes ok: "queue_ok s q xs bs" and none: "\<forall>b\<in>set bs. \<not> bfree s b"
  shows "card (set bs) \<le> card (used_bands s xs)"
proof -
  have inv: "binv s (qbands s) xs bs" and mok: "\<forall>x\<in>set xs. msg_ok s x"
    using ok by (auto simp: queue_ok_def qlist_def)
  have "\<forall>b\<in>set bs. \<exists>c. c \<in> used_bands s xs \<and> holder s (qbands s) xs bs c b"
  proof
    fix b assume b: "b \<in> set bs"
    then obtain B where B: "qbands s b = Some B" "bunused B \<or> (\<exists>c. c \<noteq> 0 \<and> bclass s xs c B)"
      using binv_band[OF inv] by blast
    have "\<not> bunused B" using none b binv_bfree[OF inv mok b B(1)] by blast
    with B(2) obtain c where "c \<noteq> 0" "bclass s xs c B" by blast
    with b B(1) show "\<exists>c. c \<in> used_bands s xs \<and> holder s (qbands s) xs bs c b"
      by (auto simp: used_bands_def holder_def bclass_def)
  qed
  then obtain f where f: "\<forall>b\<in>set bs. f b \<in> used_bands s xs \<and> holder s (qbands s) xs bs (f b) b"
    by (metis bchoice)
  have "inj_on f (set bs)"
  proof (rule inj_onI)
    fix b b' assume b: "b \<in> set bs" "b' \<in> set bs" "f b = f b'"
    have "\<exists>!b. holder s (qbands s) xs bs (f b') b"
      using inv f b(2) by (auto simp: binv_def used_bands_def)
    with f b show "b = b'" by metis
  qed
  moreover have "f ` set bs \<subseteq> used_bands s xs" using f by auto
  ultimately show ?thesis by (intro card_inj_on_le) auto
qed

lemma room_after_removal:
  assumes ok: "queue_ok s q (x # xs) bs" and rm: "removed s q x xs bs t"
  shows "room t xs bs x"
proof (cases "hipri t x \<or> mband t x = 0 \<or> cls t (mband t x) xs \<noteq> []")
  case True
  then show ?thesis by (auto simp: room_def)
next
  case False
  let ?c = "mband t x"
  have ok': "queue_ok t q xs bs" and be: "body_eq s t" using rm by (simp_all add: removed_def)
  have "used_bands s (x # xs) = insert ?c (used_bands t xs)"
    using False by (auto simp: used_bands_def body_eq_cls[OF be, symmetric] cls_Cons body_eq_fields(3,5)[OF be])
  moreover have "?c \<notin> used_bands t xs" using False by (simp add: used_bands_def)
  ultimately have "card (used_bands s (x # xs)) = Suc (card (used_bands t xs))" by simp
  then have "card (used_bands t xs) < card (set bs)" using used_bands_le[OF ok] by simp
  then have "\<exists>b\<in>set bs. bfree t b" using used_bands_ge[OF ok'] by (meson not_less)
  then show ?thesis by (simp add: room_def)
qed

lemma q_unget_law:
  assumes h: "q_holds q s (x # xs)" and g: "lis_getq q s = Some (x, t)"
  shows "\<exists>u. q_unget q x t = Some u \<and> q_holds q u (ins_first (qkey s) x xs) \<and> qkey u = qkey s"
proof -
  obtain bs where t: "queue_ok s q (x # xs) bs" "removed s q x xs bs t" "q_holds q t xs"
    using q_get_law[OF h] g by auto
  have be: "body_eq s t" and ok: "queue_ok t q xs bs" "sched_ok t" "q_shut q t = Some False"
    using t(2,3) by (auto simp: removed_def q_holds_def)
  have s: "\<forall>y\<in>set (x # xs). msg_ok s y" "fits s (x # xs)" "distinct (x # xs)"
    using t(1) by (auto simp: queue_ok_st elim!: queue_stE)
  have "fits t (x # xs)" "msg_ok t x" "x \<notin> set xs"
    using s body_eq_fits[OF be, of "x # xs"] by (simp_all add: body_eq_msg_ok[OF be])
  with putq_spec(2)[OF ok(1,3) this(2,3,1) room_after_removal[OF t(1,2)] ok(2)]
  obtain u where u: "lis_putbq q x t = Some (1, u)" "inserted t q x (ins_first (qkey t) x xs) bs u" by blast
  then obtain bs' where u': "queue_ok u q (ins_first (qkey t) x xs) bs'" "sched_ok u" "view_eq t u" "route_eq t u"
    by (auto simp: inserted_def)
  have "q_holds q u (ins_first (qkey t) x xs)" by (rule q_holds_step[OF t(3) u'(1,2,4)])
  then show ?thesis using u(1) view_eq_fields(2)[OF u'(3)] body_eq_fields(6)[OF be] by (simp add: q_unget_def)
qed

interpretation lrq: returning_queue qkey "q_holds q" q_ready "q_put q" "lis_getq q" "q_unget q" for q
proof
  show "sorted_wrt (\<lambda>x y. qkey s y \<le> qkey s x) xs" if "q_holds q s xs" for s xs
    using that by (auto simp: q_holds_def queue_ok_def desc_def)
  show "q_holds q s (x # xs) \<Longrightarrow> lis_getq q s = Some (x, t) \<Longrightarrow>
      \<exists>u. q_unget q x t = Some u \<and> q_holds q u (ins_first (qkey s) x xs) \<and> qkey u = qkey s" for s x xs t
    by (rule q_unget_law)
qed

end
