(* ===== verification/LiS_Put.thy ===== *)
theory LiS_Put
  imports LiS_Queue
begin

text \<open>
  Delivery of messages to put procedures: \<open>putmsg\<close>, \<open>putnext\<close> and \<open>qreply\<close> of \<open>head/safe.c\<close>, the
  deferral of messages to a queue whose procedures are off or frozen, the input list of the stream
  head, and the control messages made by \<open>putctl\<close> (\<open>head/queue.c\<close>).
\<close>

unbundle bit_operations_syntax

subsection \<open>The input list of the stream head\<close>

definition lis_put_rput_q :: "ptr \<Rightarrow> ptr \<Rightarrow> lis \<Rightarrow> lis option" where
  "lis_put_rput_q hdp mp s = do {
     h \<leftarrow> sds s hdp;
     s \<leftarrow> upd_mb mp (\<lambda>m. m\<lparr>b_prev := NULL\<rparr>) s;
     let need_qenable = (sd_rput_hd h = NULL);
     s \<leftarrow>
       (if sd_rput_hd h = NULL
        then do {
          s \<leftarrow> upd_mb mp (\<lambda>m. m\<lparr>b_next := NULL\<rparr>) s;
          upd_sd hdp (\<lambda>h. h\<lparr>sd_rput_tl := mp, sd_rput_hd := mp\<rparr>) s }
        else do {
          s \<leftarrow> upd_mb (sd_rput_tl h) (\<lambda>m. m\<lparr>b_next := mp\<rparr>) s;
          upd_sd hdp (\<lambda>h. h\<lparr>sd_rput_tl := mp\<rparr>) s });
     s \<leftarrow> updatequeue (sd_rq h) mp True False s;
     if need_qenable then lis_qenable (sd_rq h) s else Some s }"

definition lis_get_rput_q :: "ptr \<Rightarrow> lis \<Rightarrow> (ptr \<times> lis) option" where
  "lis_get_rput_q hdp s = do {
     h \<leftarrow> sds s hdp;
     let mp = sd_rput_hd h;
     if mp \<noteq> NULL
     then do {
       m \<leftarrow> mb s mp;
       s \<leftarrow> upd_sd hdp (\<lambda>h. h\<lparr>sd_rput_hd := b_next m\<rparr>) s;
       s \<leftarrow> upd_mb mp (\<lambda>m. m\<lparr>b_next := NULL, b_prev := NULL\<rparr>) s;
       s \<leftarrow> (if b_next m = NULL then upd_sd hdp (\<lambda>h. h\<lparr>sd_rput_tl := NULL\<rparr>) s else Some s);
       s \<leftarrow> adjust_q_count (sd_rq h) mp False s;
       s \<leftarrow> lis_backenable (sd_rq h) s;
       Some (mp, s) }
     else Some (mp, s) }"

subsection \<open>Deferring messages\<close>

definition lis_defer_msg :: "ptr \<Rightarrow> ptr \<Rightarrow> bool \<Rightarrow> lis \<Rightarrow> lis option" where
  "lis_defer_msg q mp retry s = do {
     s \<leftarrow> upd_mb mp (\<lambda>m. m\<lparr>b_prev := NULL\<rparr>) s;
     Q \<leftarrow> qs s q;
     if retry
     then do {
       s \<leftarrow> upd_mb mp (\<lambda>m. m\<lparr>b_next := q_defer_head Q\<rparr>) s;
       s \<leftarrow> upd_q q (\<lambda>Q. Q\<lparr>q_defer_head := mp\<rparr>) s;
       if q_defer_tail Q = NULL then upd_q q (\<lambda>Q. Q\<lparr>q_defer_tail := mp\<rparr>) s else Some s }
     else do {
       s \<leftarrow> upd_mb mp (\<lambda>m. m\<lparr>b_next := NULL\<rparr>) s;
       s \<leftarrow> (if q_defer_head Q = NULL then upd_q q (\<lambda>Q. Q\<lparr>q_defer_head := mp\<rparr>) s else Some s);
       s \<leftarrow> (if q_defer_tail Q \<noteq> NULL then upd_mb (q_defer_tail Q) (\<lambda>m. m\<lparr>b_next := mp\<rparr>) s
            else Some s);
       s \<leftarrow> upd_q q (\<lambda>Q. Q\<lparr>q_defer_tail := mp\<rparr>) s;
       updatequeue q mp True False s } }"

text \<open>
  \<open>lis_safe_do_putmsg\<close>.  The lock of the queue is taken before the pointer is tested, so that a
  null queue is a fault.
\<close>

partial_function (option) do_putmsg_try ::
  "env \<Rightarrow> ptr \<Rightarrow> ptr \<Rightarrow> u64 \<Rightarrow> bool \<Rightarrow> lis \<Rightarrow> (bool \<times> lis) option" where
  "do_putmsg_try e q mp qflg retry s = do {
     Q \<leftarrow> qs s q;
     case q_qinfo Q of
       None \<Rightarrow> do { s \<leftarrow> lis_freemsg mp s; Some (True, s) }
     | Some qi \<Rightarrow>
         if qi_putp qi = 0 \<or> mp = NULL \<or> q_magic Q \<noteq> Q_MAGIC
         then do { s \<leftarrow> lis_freemsg mp s; Some (True, s) }
         else do {
           same \<leftarrow> (if F_ISSET (q_flag Q) QPROCSOFF then lis_safe_SAMESTR q s else Some False);
           if F_ISSET (q_flag Q) QPROCSOFF \<and> same
           then do_putmsg_try e (q_next Q) mp qflg retry s
           else if F_ISSET (q_flag Q) (QPROCSOFF OR QFROZEN)
                   \<or> F_ISSET (q_flag Q) qflg \<or> q_defer_head Q \<noteq> NULL
           then do { s \<leftarrow> lis_defer_msg q mp retry s; Some (False, s) }
           else do {
             (r, s) \<leftarrow> lis_lockq (e_cur e) q s;
             if r < 0 then do { s \<leftarrow> lis_freemsg mp s; Some (True, s) }
             else do {
               s \<leftarrow> e_putp e (qi_putp qi) q mp s;
               s \<leftarrow> lis_unlockq (e_cur e) q s;
               Some (True, s) } } } }"

definition lis_safe_do_putmsg :: "env \<Rightarrow> ptr \<Rightarrow> ptr \<Rightarrow> u64 \<Rightarrow> bool \<Rightarrow> lis \<Rightarrow> (bool \<times> lis) option" where
  "lis_safe_do_putmsg e q mp qflg retry s = do_putmsg_try e q mp (qflg OR QOPENING) retry s"

definition lis_safe_putmsg :: "env \<Rightarrow> ptr \<Rightarrow> ptr \<Rightarrow> lis \<Rightarrow> lis option" where
  "lis_safe_putmsg e q mp s = do {
     (_, s) \<leftarrow> lis_safe_do_putmsg e q mp (QDEFERRING OR QOPENING) False s;
     Some s }"

definition lis_safe_putnext :: "env \<Rightarrow> ptr \<Rightarrow> ptr \<Rightarrow> lis \<Rightarrow> lis option" where
  "lis_safe_putnext e q mp s =
     (if mp = NULL then lis_freemsg mp s
      else do {
        ok \<leftarrow> q_magic_ok q s;
        if \<not> ok then lis_freemsg mp s
        else do {
          Q \<leftarrow> qs s q;
          ok \<leftarrow> q_magic_ok (q_next Q) s;
          if \<not> ok then lis_freemsg mp s
          else lis_safe_putmsg e (q_next Q) mp s } })"

definition lis_safe_qreply :: "env \<Rightarrow> ptr \<Rightarrow> ptr \<Rightarrow> lis \<Rightarrow> lis option" where
  "lis_safe_qreply e q mp s =
     (if mp = NULL then Some s
      else do {
        oq \<leftarrow> lis_safe_OTHERQ q s;
        if oq = NULL then lis_freemsg mp s else lis_safe_putnext e oq mp s })"

partial_function (option) deferred_loop :: "env \<Rightarrow> ptr \<Rightarrow> lis \<Rightarrow> lis option" where
  "deferred_loop e q s = do {
     Q \<leftarrow> qs s q;
     let mp = q_defer_head Q;
     if mp \<noteq> NULL
     then do {
       m \<leftarrow> mb s mp;
       s \<leftarrow> upd_q q (\<lambda>Q. Q\<lparr>q_defer_head := b_next m\<rparr>) s;
       s \<leftarrow> (if b_next m = NULL then upd_q q (\<lambda>Q. Q\<lparr>q_defer_tail := NULL\<rparr>) s else Some s);
       s \<leftarrow> upd_mb mp (\<lambda>m. m\<lparr>b_next := NULL, b_prev := NULL\<rparr>) s;
       s \<leftarrow> adjust_q_count q mp False s;
       (consumed, s) \<leftarrow> lis_safe_do_putmsg e q mp QOPENING True s;
       if \<not> consumed then Some s else deferred_loop e q s }
     else Some s }"

definition lis_do_deferred_puts :: "env \<Rightarrow> ptr \<Rightarrow> lis \<Rightarrow> lis option" where
  "lis_do_deferred_puts e q s = do {
     Q \<leftarrow> qs s q;
     if q_defer_head Q = NULL \<or> F_ISSET (q_flag Q) QDEFERRING then Some s
     else do {
       s \<leftarrow> upd_q q (\<lambda>Q. Q\<lparr>q_flag := q_flag Q OR QDEFERRING\<rparr>) s;
       s \<leftarrow> deferred_loop e q s;
       upd_q q (\<lambda>Q. Q\<lparr>q_flag := q_flag Q AND NOT QDEFERRING\<rparr>) s } }"

definition lis_qprocson :: "env \<Rightarrow> ptr \<Rightarrow> lis \<Rightarrow> lis option" where
  "lis_qprocson e rdq s = do {
     s \<leftarrow> lis_clr_q_flags (QPROCSOFF OR QENAB) True [rdq, NULL] s;
     s \<leftarrow> lis_do_deferred_puts e rdq s;
     oq \<leftarrow> lis_safe_OTHERQ rdq s;
     s \<leftarrow> lis_do_deferred_puts e oq s;
     s \<leftarrow> lis_retry_qenable rdq s;
     oq \<leftarrow> lis_safe_OTHERQ rdq s;
     lis_retry_qenable oq s }"

definition lis_qprocsoff :: "ptr \<Rightarrow> lis \<Rightarrow> lis option" where
  "lis_qprocsoff rdq s = lis_set_q_flags QPROCSOFF True [rdq, NULL] s"

subsection \<open>Control messages\<close>

text \<open>The types that \<open>lis_putctl\<close> and \<open>lis_putctl1\<close> refuse; the comparison is with the \<open>int\<close> argument.\<close>

definition lis_putctl :: "env \<Rightarrow> ptr \<Rightarrow> int \<Rightarrow> lis \<Rightarrow> (int \<times> lis) option" where
  "lis_putctl e q type s =
     (if q = NULL \<or> type = uint M_DATA \<or> type = uint M_PROTO \<or> type = uint M_PCPROTO \<or> type = uint M_DELAY
      then Some (0, s)
      else do {
        (mp, s) \<leftarrow> lis_allocb 0 s;
        if mp = NULL then Some (0, s)
        else do {
          m \<leftarrow> mb s mp;
          s \<leftarrow> upd_db (b_datap m) (\<lambda>d. d\<lparr>db_type := word_of_int type\<rparr>) s;
          s \<leftarrow> lis_safe_putmsg e q mp s;
          Some (1, s) } })"

definition lis_putnextctl :: "env \<Rightarrow> ptr \<Rightarrow> int \<Rightarrow> lis \<Rightarrow> (int \<times> lis) option" where
  "lis_putnextctl e q type s =
     (if q = NULL then Some (0, s)
      else do {
        Q \<leftarrow> qs s q;
        if q_next Q = NULL then Some (0, s) else lis_putctl e (q_next Q) type s })"

definition lis_putctl1 :: "env \<Rightarrow> ptr \<Rightarrow> int \<Rightarrow> int \<Rightarrow> lis \<Rightarrow> (int \<times> lis) option" where
  "lis_putctl1 e q type param s =
     (if q = NULL \<or> type = uint M_DATA \<or> type = uint M_PROTO \<or> type = uint M_PCPROTO
      then Some (0, s)
      else do {
        (mp, s) \<leftarrow> lis_allocb 1 s;
        if mp = NULL then Some (0, s)
        else do {
          m \<leftarrow> mb s mp;
          s \<leftarrow> upd_db (b_datap m) (\<lambda>d. d\<lparr>db_type := word_of_int type\<rparr>) s;
          let s = s\<lparr>mem := (mem s)(b_wptr m := word_of_int param)\<rparr>;
          s \<leftarrow> upd_mb mp (\<lambda>m. m\<lparr>b_wptr := b_wptr m + 1\<rparr>) s;
          s \<leftarrow> lis_safe_putmsg e q mp s;
          Some (1, s) } })"

definition lis_putnextctl1 :: "env \<Rightarrow> ptr \<Rightarrow> int \<Rightarrow> int \<Rightarrow> lis \<Rightarrow> (int \<times> lis) option" where
  "lis_putnextctl1 e q type param s =
     (if q = NULL then Some (0, s)
      else do {
        Q \<leftarrow> qs s q;
        if q_next Q = NULL then Some (0, s) else lis_putctl1 e (q_next Q) type param s })"

end
