(* ===== verification/LiS_QueueMisc.thy ===== *)
theory LiS_QueueMisc
  imports LiS_Put
begin

text \<open>
  The rest of \<open>head/queue.c\<close>: flushing, the limits of a queue, the lock options, allocation of
  queue pairs, and the flow-control tests that writers make before they put a message.
\<close>

unbundle bit_operations_syntax

subsection \<open>Limits\<close>

definition lis_setq :: "ptr \<Rightarrow> qinit option \<Rightarrow> qinit option \<Rightarrow> lis \<Rightarrow> lis option" where
  "lis_setq q rinit winit s =
     (case (rinit, winit) of
        (Some ri, Some wi) \<Rightarrow>
          if q = NULL then Some s
          else do {
            ok \<leftarrow> q_magic_ok q s;
            if \<not> ok then Some s
            else do {
              s \<leftarrow> upd_q q (\<lambda>Q. Q\<lparr>q_qinfo := Some ri, q_lowat := mi_lowat ri, q_hiwat := mi_hiwat ri,
                                   q_minpsz := mi_minpsz ri, q_maxpsz := mi_maxpsz ri\<rparr>) s;
              wq \<leftarrow> lis_safe_WR q s;
              upd_q wq (\<lambda>Q. Q\<lparr>q_qinfo := Some wi, q_lowat := mi_lowat wi, q_hiwat := mi_hiwat wi,
                              q_minpsz := mi_minpsz wi, q_maxpsz := mi_maxpsz wi\<rparr>) s } }
      | _ \<Rightarrow> Some s)"

abbreviation (input) QHIWAT :: int where "QHIWAT \<equiv> 0"
abbreviation (input) QLOWAT :: int where "QLOWAT \<equiv> 1"
abbreviation (input) QMAXPSZ :: int where "QMAXPSZ \<equiv> 2"
abbreviation (input) QMINPSZ :: int where "QMINPSZ \<equiv> 3"
abbreviation (input) QCOUNT :: int where "QCOUNT \<equiv> 4"
abbreviation (input) QFIRST :: int where "QFIRST \<equiv> 5"
abbreviation (input) QLAST :: int where "QLAST \<equiv> 6"
abbreviation (input) QFLAG :: int where "QFLAG \<equiv> 7"

text \<open>
  \<open>lis_strqget\<close> stores a \<open>long\<close> through \<open>val\<close>: the result is the return value and what is stored,
  \<^term>\<open>None\<close> for nothing.  \<open>val_null\<close> says that the caller's pointer is null.
\<close>

definition lis_strqget :: "ptr \<Rightarrow> int \<Rightarrow> u8 \<Rightarrow> bool \<Rightarrow> lis \<Rightarrow> (int \<times> int option \<times> lis) option" where
  "lis_strqget q what band val_null s = do {
     ok \<leftarrow> q_magic_ok q s;
     if val_null \<or> \<not> ok then Some (EINVAL, None, s)
     else if band > 0
     then do {
       (qp, s) \<leftarrow> find_qband q (uint band) s;
       if qp = NULL then Some (EINVAL, None, s)
       else do {
         b \<leftarrow> qbands s qp;
         Some (if what = QHIWAT then (0, Some (sint (qb_hiwat b)), s)
               else if what = QLOWAT then (0, Some (sint (qb_lowat b)), s)
               else if what = QCOUNT then (0, Some (sint (qb_count b)), s)
               else if what = QFIRST then (0, Some (int (qb_first b)), s)
               else if what = QLAST then (0, Some (int (qb_last b)), s)
               else if what = QFLAG then (0, Some (sint (qb_flag b)), s)
               else (EINVAL, None, s)) } }
     else do {
       Q \<leftarrow> qs s q;
       Some (if what = QHIWAT then (0, Some (sint (q_hiwat Q)), s)
             else if what = QLOWAT then (0, Some (sint (q_lowat Q)), s)
             else if what = QMAXPSZ then (0, Some (q_maxpsz Q), s)
             else if what = QMINPSZ then (0, Some (q_minpsz Q), s)
             else if what = QCOUNT then (0, Some (sint (q_count Q)), s)
             else if what = QFIRST then (0, Some (int (q_first Q)), s)
             else if what = QLAST then (0, Some (int (q_last Q)), s)
             else if what = QFLAG then (0, Some (sint (q_flag Q)), s)
             else (EINVAL, None, s)) } }"

definition lis_strqset :: "ptr \<Rightarrow> int \<Rightarrow> u8 \<Rightarrow> int \<Rightarrow> lis \<Rightarrow> (int \<times> lis) option" where
  "lis_strqset q what band val s = do {
     ok \<leftarrow> q_magic_ok q s;
     if \<not> ok then Some (EINVAL, s)
     else if band > 0
     then do {
       (qp, s) \<leftarrow> find_qband q (uint band) s;
       if qp = NULL then Some (EINVAL, s)
       else if what = QHIWAT
       then do { s \<leftarrow> upd_qb qp (\<lambda>b. b\<lparr>qb_hiwat := word_of_int val\<rparr>) s; Some (0, s) }
       else if what = QLOWAT
       then do { s \<leftarrow> upd_qb qp (\<lambda>b. b\<lparr>qb_lowat := word_of_int val\<rparr>) s; Some (0, s) }
       else if what = QCOUNT \<or> what = QFIRST \<or> what = QLAST \<or> what = QFLAG then Some (EPERM, s)
       else Some (EINVAL, s) }
     else if what = QHIWAT
     then do { s \<leftarrow> upd_q q (\<lambda>Q. Q\<lparr>q_hiwat := word_of_int val\<rparr>) s; Some (0, s) }
     else if what = QLOWAT
     then do { s \<leftarrow> upd_q q (\<lambda>Q. Q\<lparr>q_lowat := word_of_int val\<rparr>) s; Some (0, s) }
     else if what = QMAXPSZ then do { s \<leftarrow> upd_q q (\<lambda>Q. Q\<lparr>q_maxpsz := val\<rparr>) s; Some (0, s) }
     else if what = QMINPSZ then do { s \<leftarrow> upd_q q (\<lambda>Q. Q\<lparr>q_minpsz := val\<rparr>) s; Some (0, s) }
     else if what = QCOUNT \<or> what = QFIRST \<or> what = QLAST \<or> what = QFLAG then Some (EPERM, s)
     else Some (EINVAL, s) }"

partial_function (option) qsize_loop :: "ptr \<Rightarrow> int \<Rightarrow> lis \<Rightarrow> int option" where
  "qsize_loop mp rtn s =
     (if mp = NULL then Some rtn else do { m \<leftarrow> mb s mp; qsize_loop (b_next m) (c_int (rtn + 1)) s })"

definition lis_qsize :: "ptr \<Rightarrow> lis \<Rightarrow> int option" where
  "lis_qsize q s = do {
     ok \<leftarrow> q_magic_ok q s;
     if \<not> ok then Some 0 else do { Q \<leftarrow> qs s q; qsize_loop (q_first Q) 0 s } }"

subsection \<open>Flushing\<close>

partial_function (option) bands_clear :: "ptr \<Rightarrow> lis \<Rightarrow> lis option" where
  "bands_clear qp s =
     (if qp = NULL then Some s
      else do {
        s \<leftarrow> upd_qb qp (\<lambda>b. b\<lparr>qb_first := NULL, qb_last := NULL, qb_count := 0,
                              qb_flag := qb_flag b AND NOT QB_FULL\<rparr>) s;
        b \<leftarrow> qbands s qp;
        bands_clear (qb_next b) s })"

partial_function (option) bands_check :: "ptr \<Rightarrow> ptr \<Rightarrow> lis \<Rightarrow> lis option" where
  "bands_check q qp s =
     (if qp = NULL then Some s
      else do {
        s \<leftarrow> chk_band q qp s;
        b \<leftarrow> qbands s qp;
        bands_check q (qb_next b) s })"

text \<open>Which messages a flush removes; \<open>band\<close> is -1 for the whole queue.\<close>

definition flush_selects :: "int \<Rightarrow> bool \<Rightarrow> u8 \<Rightarrow> u8 \<Rightarrow> bool" where
  "flush_selects band flush_all b mtype \<longleftrightarrow>
     (band < 0 \<or> uint b = band) \<and>
     (band = 0 \<and> mtype < QPCTL \<or> band \<noteq> 0 \<and> (flush_all \<or> lis_datamsg mtype))"

partial_function (option) flush_list :: "env \<Rightarrow> ptr \<Rightarrow> int \<Rightarrow> bool \<Rightarrow> ptr \<Rightarrow> lis \<Rightarrow> lis option" where
  "flush_list e q band flush_all mp s =
     (if mp = NULL then Some s
      else do {
        m \<leftarrow> mb s mp;
        let p_next = b_next m;
        s \<leftarrow> upd_mb mp (\<lambda>m. m\<lparr>b_next := NULL\<rparr>) s;
        d \<leftarrow> db s (b_datap m);
        let mtype = db_type d;
        s \<leftarrow>
          (if flush_selects band flush_all (b_band m) mtype
           then (let s = LisDownCount MSGSQD s in
                 if mtype = M_PASSFP then e_free_passfp e mp s else lis_freemsg mp s)
           else do {
             (r, s) \<leftarrow> lis_putq q mp s;
             if r = 0 then lis_freemsg mp s else Some s });
        flush_list e q band flush_all p_next s })"

definition flush_take :: "ptr \<Rightarrow> lis \<Rightarrow> (ptr \<times> ptr \<times> lis) option" where
  "flush_take q s = do {
     Q \<leftarrow> qs s q;
     s \<leftarrow> upd_q q (\<lambda>Q. Q\<lparr>q_first := NULL, q_last := NULL, q_count := 0,
            q_flag := q_flag Q AND NOT (QFULL OR QWASFULL OR QWANTR OR QWANTW)\<rparr>) s;
     s \<leftarrow> bands_clear (q_bandp Q) s;
     s \<leftarrow> upd_q q (\<lambda>Q. Q\<lparr>q_defer_head := NULL, q_defer_tail := NULL\<rparr>) s;
     Some (q_first Q, q_defer_head Q, s) }"

definition flush_worker :: "env \<Rightarrow> ptr \<Rightarrow> int \<Rightarrow> bool \<Rightarrow> lis \<Rightarrow> lis option" where
  "flush_worker e q band flush_all s = do {
     ok \<leftarrow> q_magic_ok q s;
     if \<not> ok then Some s
     else do {
       Q0 \<leftarrow> qs s q;
       (mp, mp_deferred, s) \<leftarrow> flush_take q s;
       s \<leftarrow> flush_list e q band flush_all mp s;
       s \<leftarrow> flush_list e q band flush_all mp_deferred s;
       s \<leftarrow> upd_q q (\<lambda>Q. Q\<lparr>q_flag := q_flag Q OR QWANTR\<rparr>) s;
       Q \<leftarrow> qs s q;
       s \<leftarrow> bands_check q (q_bandp Q) s;
       Q \<leftarrow> qs s q;
       s \<leftarrow> (if F_ISSET (q_flag Q0) QWASFULL \<and> q_count Q \<le> q_lowat Q
            then upd_q q (\<lambda>Q. Q\<lparr>q_flag := q_flag Q OR (QBACK OR QWANTW)\<rparr>) s
            else Some s);
       Q \<leftarrow> qs s q;
       if F_ISSET (q_flag Q) (QCLOSING OR QPROCSOFF) then Some s
       else do {
         s \<leftarrow> lis_backenable q s;
         Q \<leftarrow> qs s q;
         can \<leftarrow> lis_safe_canenable q s;
         if F_ISSET (q_flag Q) QWANTR \<and> q_first Q \<noteq> NULL \<and> can
         then lis_qenable q s
         else Some s } } }"

definition lis_flushband :: "env \<Rightarrow> ptr \<Rightarrow> u8 \<Rightarrow> int \<Rightarrow> lis \<Rightarrow> lis option" where
  "lis_flushband e q band flag s = flush_worker e q (uint band) (flag AND FLUSHALL \<noteq> 0) s"

definition lis_flushq :: "env \<Rightarrow> ptr \<Rightarrow> int \<Rightarrow> lis \<Rightarrow> lis option" where
  "lis_flushq e q flag s = flush_worker e q (-1) (flag AND FLUSHALL \<noteq> 0) s"

subsection \<open>Flow-control tests\<close>

text \<open>The next queue with a service procedure, or the end of the stream.\<close>

partial_function (option) next_srv :: "ptr \<Rightarrow> lis \<Rightarrow> ptr option" where
  "next_srv q s = do {
     Q \<leftarrow> qs s q;
     if q_next Q \<noteq> NULL \<and> \<not> has_srvp Q then next_srv (q_next Q) s else Some q }"

definition lis_bcanput :: "ptr \<Rightarrow> u8 \<Rightarrow> lis \<Rightarrow> (int \<times> lis) option" where
  "lis_bcanput q band s = do {
     ok \<leftarrow> q_magic_ok q s;
     if \<not> ok then Some (0, s)
     else do {
       q \<leftarrow> next_srv q s;
       if band > 0
       then do {
         (qp, s) \<leftarrow> find_qband q (uint band) s;
         if qp = NULL then Some (0, LisUpFailCount CANPUTS s)
         else do {
           b \<leftarrow> qbands s qp;
           if F_ISSET (qb_flag b) QB_FULL
           then do {
             s \<leftarrow> upd_qb qp (\<lambda>b. b\<lparr>qb_flag := qb_flag b OR QB_WANTW\<rparr>) s;
             Some (0, LisUpFailCount CANPUTS s) }
           else Some (1, LisUpCount CANPUTS s) } }
       else do {
         Q \<leftarrow> qs s q;
         if F_ISSET (q_flag Q) QFULL
         then do {
           s \<leftarrow> upd_q q (\<lambda>Q. Q\<lparr>q_flag := q_flag Q OR QWANTW\<rparr>) s;
           Some (0, LisUpFailCount CANPUTS s) }
         else Some (1, LisUpCount CANPUTS s) } } }"

definition lis_bcanputnext :: "ptr \<Rightarrow> u8 \<Rightarrow> lis \<Rightarrow> (int \<times> lis) option" where
  "lis_bcanputnext q band s = do {
     ok \<leftarrow> q_magic_ok q s;
     if \<not> ok then Some (0, s)
     else do {
       Q \<leftarrow> qs s q;
       ok \<leftarrow> q_magic_ok (q_next Q) s;
       if \<not> ok then Some (0, s) else lis_bcanput (q_next Q) band s } }"

partial_function (option) band_with_room :: "ptr \<Rightarrow> lis \<Rightarrow> ptr option" where
  "band_with_room qp s =
     (if qp = NULL then Some NULL
      else do {
        b \<leftarrow> qbands s qp;
        if F_ISSET (qb_flag b) QB_FULL then band_with_room (qb_next b) s else Some qp })"

definition lis_bcanputnext_anyband :: "ptr \<Rightarrow> lis \<Rightarrow> (int \<times> lis) option" where
  "lis_bcanputnext_anyband q s = do {
     ok \<leftarrow> q_magic_ok q s;
     if \<not> ok then Some (0, s)
     else do {
       Q \<leftarrow> qs s q;
       ok \<leftarrow> q_magic_ok (q_next Q) s;
       if q_next Q = NULL \<or> \<not> ok then Some (0, s)
       else do {
         q \<leftarrow> next_srv (q_next Q) s;
         Q \<leftarrow> qs s q;
         qp \<leftarrow> band_with_room (q_bandp Q) s;
         if qp = NULL then Some (0, LisUpFailCount CANPUTS s)
         else Some (1, LisUpCount CANPUTS s) } } }"

partial_function (option) qcountstrm_loop :: "ptr \<Rightarrow> int \<Rightarrow> lis \<Rightarrow> int option" where
  "qcountstrm_loop q nbytes s = do {
     same \<leftarrow> lis_safe_SAMESTR q s;
     if same
     then do {
       Q \<leftarrow> qs s q;
       ok \<leftarrow> q_magic_ok (q_next Q) s;
       if \<not> ok then Some nbytes
       else do {
         N \<leftarrow> qs s (q_next Q);
         qcountstrm_loop (q_next Q) (c_int (nbytes + uint (q_count N))) s } }
     else Some nbytes }"

definition lis_qcountstrm :: "ptr \<Rightarrow> lis \<Rightarrow> int option" where
  "lis_qcountstrm q s = do {
     ok \<leftarrow> q_magic_ok q s;
     if \<not> ok then Some 0
     else do { Q \<leftarrow> qs s q; qcountstrm_loop q (c_int (uint (q_count Q))) s } }"

end
