(* ===== verification/LiS_QueueAlloc.thy ===== *)
theory LiS_QueueAlloc
  imports LiS_QueueMisc
begin

text \<open>
  Lock options, allocation and deallocation of queue pairs, and the table of contended queues
  (\<open>head/queue.c\<close>).  Handing the kernel's cache a pointer that is not one of its live objects is a
  fault of the model.
\<close>

unbundle bit_operations_syntax

subsection \<open>Contended queues\<close>

abbreviation (input) QUEUE_CONTENTION_SIZE :: nat where "QUEUE_CONTENTION_SIZE \<equiv> 4"

text \<open>The scan of \<open>track_queue_contention\<close> from slot \<open>i\<close>: the slots to replace and to fill.\<close>

fun track_scan :: "(ptr \<Rightarrow> queue option) \<Rightarrow> ptr \<Rightarrow> u64 \<Rightarrow> nat \<Rightarrow> ptr list \<Rightarrow> nat option \<Rightarrow> nat option
    \<Rightarrow> (nat option \<times> nat option) option" where
  "track_scan h q cnt i [] r e = Some (r, e)"
| "track_scan h q cnt i (p # ps) r e =
     (if p = q then Some (None, None)
      else if p = NULL
      then track_scan h q cnt (i + 1) ps r (if e = None then Some i else e)
      else do {
        P \<leftarrow> h p;
        if q_contention_cnt P < cnt
        then track_scan h q cnt (i + 1) ps (Some i) None
        else track_scan h q cnt (i + 1) ps r e })"

definition track_queue_contention :: "ptr \<Rightarrow> lis \<Rightarrow> lis option" where
  "track_queue_contention q s = do {
     Q \<leftarrow> qs s q;
     (r, e) \<leftarrow> track_scan (qs s) q (q_contention_cnt Q) 0 (contention_tab s) None None;
     Some (case r of
             Some i \<Rightarrow> s\<lparr>contention_tab := (contention_tab s)[i := q]\<rparr>
           | None \<Rightarrow> (case e of
               Some i \<Rightarrow> s\<lparr>contention_tab := (contention_tab s)[i := q]\<rparr>
             | None \<Rightarrow> s)) }"

definition purge_queue_contention :: "ptr \<Rightarrow> lis \<Rightarrow> lis" where
  "purge_queue_contention q s =
     s\<lparr>contention_tab := map (\<lambda>p. if p = q then NULL else p) (contention_tab s)\<rparr>"

text \<open>
  The sort of \<open>lis_queue_contention_msg\<close>: the inner loop for one slot \<open>x\<close> over the later slots,
  exchanging it with every smaller one, and the outer loop.
\<close>

fun contention_inner :: "(ptr \<Rightarrow> 'a::linorder) \<Rightarrow> ptr \<Rightarrow> ptr list \<Rightarrow> ptr \<times> ptr list" where
  "contention_inner cnt x [] = (x, [])"
| "contention_inner cnt x (y # ys) =
     (if y = NULL
      then (case contention_inner cnt x ys of (x, ys) \<Rightarrow> (x, y # ys))
      else if cnt y < cnt x
      then (case contention_inner cnt y ys of (z, ys) \<Rightarrow> (z, x # ys))
      else (case contention_inner cnt x ys of (x, ys) \<Rightarrow> (x, y # ys)))"

lemma contention_inner_length: "length (snd (contention_inner cnt x ys)) = length ys"
  by (induction ys arbitrary: x) (simp_all add: split_beta)

function contention_sort :: "(ptr \<Rightarrow> 'a::linorder) \<Rightarrow> ptr list \<Rightarrow> ptr list" where
  "contention_sort cnt [] = []"
| "contention_sort cnt [x] = [x]"
| "contention_sort cnt (x # y # ys) =
     (if x = NULL then x # contention_sort cnt (y # ys)
      else (case contention_inner cnt x (y # ys) of (z, zs) \<Rightarrow> z # contention_sort cnt zs))"
  by pat_completeness auto
termination
  apply (relation "measure (\<lambda>(_, xs). length xs)")
    apply (simp_all del: contention_inner.simps)
  using contention_inner_length by (metis length_Cons less_Suc_eq snd_conv)

subsection \<open>Lock options\<close>

abbreviation (input) LIS_QLOCK_NONE :: int where "LIS_QLOCK_NONE \<equiv> 0"
abbreviation (input) LIS_QLOCK_QUEUE :: int where "LIS_QLOCK_QUEUE \<equiv> 1"
abbreviation (input) LIS_QLOCK_QUEUE_PAIR :: int where "LIS_QLOCK_QUEUE_PAIR \<equiv> 2"
abbreviation (input) LIS_QLOCK_GLOBAL :: int where "LIS_QLOCK_GLOBAL \<equiv> 3"

text \<open>The address of the static \<open>lis_queue_sync\<close>, which no allocator returns.\<close>

definition lis_queue_sync :: ptr where "lis_queue_sync = 8"

definition qsync_free :: "ptr \<Rightarrow> lis \<Rightarrow> lis option" where
  "qsync_free p s =
     (if p = lis_queue_sync then None
      else do {
        _ \<leftarrow> qsyncs s p;
        Some (kfree p (s\<lparr>qsyncs := (qsyncs s)(p := None), qsync_cnt := qsync_cnt s - 1\<rparr>)) })"

text \<open>\<open>LIS_QSYNC_ALLOC\<close>, the copy of a zero structure, and \<open>lis_sem_init(.., 1)\<close>.\<close>

definition qsync_new :: "lis \<Rightarrow> ptr \<times> lis" where
  "qsync_new s =
     (case kalloc s of (p, s) \<Rightarrow>
        if p = NULL then (NULL, s)
        else (p, s\<lparr>qsyncs := (qsyncs s)(p \<mapsto> \<lparr>qs_taskp = NULL, qs_nest = 0, qs_sem = 1\<rparr>),
                   qsync_cnt := qsync_cnt s + 1\<rparr>))"

definition lis_free_q_sync :: "ptr \<Rightarrow> lis \<Rightarrow> lis option" where
  "lis_free_q_sync q s = do {
     Q \<leftarrow> qs s q;
     OQ \<leftarrow> qs s (q_other Q);
     let origqsp = q_qsp Q;
     let origoqsp = q_qsp OQ;
     s \<leftarrow> upd_q q (\<lambda>Q. Q\<lparr>q_qsp := NULL\<rparr>) s;
     s \<leftarrow> upd_q (q_other Q) (\<lambda>Q. Q\<lparr>q_qsp := NULL\<rparr>) s;
     s \<leftarrow> (if q_qlock_option Q = LIS_QLOCK_QUEUE \<and> origoqsp \<noteq> NULL then qsync_free origoqsp s else Some s);
     s \<leftarrow> (if (q_qlock_option Q = LIS_QLOCK_QUEUE \<or> q_qlock_option Q = LIS_QLOCK_QUEUE_PAIR) \<and> origqsp \<noteq> NULL
          then qsync_free origqsp s else Some s);
     s \<leftarrow> upd_q q (\<lambda>Q. Q\<lparr>q_qlock_option := -1\<rparr>) s;
     upd_q (q_other Q) (\<lambda>Q. Q\<lparr>q_qlock_option := -1\<rparr>) s }"

text \<open>The default case: a sync structure for each of the two queues.\<close>

definition set_q_sync_queue :: "ptr \<Rightarrow> lis \<Rightarrow> (bool \<times> lis) option" where
  "set_q_sync_queue q s = do {
     Q \<leftarrow> qs s q;
     let oq = q_other Q;
     s \<leftarrow> (if q_qsp Q = NULL
          then (case qsync_new s of (p, s) \<Rightarrow>
                  if p \<noteq> NULL then upd_q q (\<lambda>Q. Q\<lparr>q_qsp := p\<rparr>) s else Some s)
          else Some s);
     OQ \<leftarrow> qs s oq;
     s \<leftarrow> (if q_qsp OQ = NULL
          then (case qsync_new s of (p, s) \<Rightarrow>
                  if p \<noteq> NULL then upd_q oq (\<lambda>Q. Q\<lparr>q_qsp := p\<rparr>) s else Some s)
          else Some s);
     Q \<leftarrow> qs s q;
     OQ \<leftarrow> qs s oq;
     if q_qsp Q = NULL \<or> q_qsp OQ = NULL
     then do {
       s \<leftarrow> (if q_qsp Q \<noteq> NULL then qsync_free (q_qsp Q) s else Some s);
       s \<leftarrow> (if q_qsp OQ \<noteq> NULL then qsync_free (q_qsp OQ) s else Some s);
       s \<leftarrow> upd_q q (\<lambda>Q. Q\<lparr>q_qsp := NULL\<rparr>) s;
       s \<leftarrow> upd_q oq (\<lambda>Q. Q\<lparr>q_qsp := NULL\<rparr>) s;
       Some (False, s) }
     else Some (True, s) }"

definition set_q_sync_pair :: "ptr \<Rightarrow> lis \<Rightarrow> (bool \<times> lis) option" where
  "set_q_sync_pair q s = do {
     Q \<leftarrow> qs s q;
     let oq = q_other Q;
     OQ \<leftarrow> qs s oq;
     s \<leftarrow> (if q_qsp OQ \<noteq> NULL \<and> q_qsp OQ \<noteq> q_qsp Q
          then do {
            s \<leftarrow> upd_q oq (\<lambda>Q. Q\<lparr>q_qsp := NULL\<rparr>) s;
            qsync_free (q_qsp OQ) s }
          else Some s);
     (ok, s) \<leftarrow>
       (if q_qsp Q = NULL
        then (case qsync_new s of (p, s) \<Rightarrow>
                if p = NULL then Some (False, s)
                else do { s \<leftarrow> upd_q q (\<lambda>Q. Q\<lparr>q_qsp := p\<rparr>) s; Some (True, s) })
        else Some (True, s));
     if \<not> ok then Some (False, s)
     else do {
       Q \<leftarrow> qs s q;
       s \<leftarrow> upd_q oq (\<lambda>P. P\<lparr>q_qsp := q_qsp Q\<rparr>) s;
       Some (True, s) } }"

definition lis_set_q_sync :: "ptr \<Rightarrow> int \<Rightarrow> lis \<Rightarrow> (int \<times> lis) option" where
  "lis_set_q_sync q qlock_option s = do {
     Q \<leftarrow> qs s q;
     let oq = q_other Q;
     (ok, option, s) \<leftarrow>
       (if qlock_option = LIS_QLOCK_NONE
        then do {
          s \<leftarrow> lis_free_q_sync q s;
          s \<leftarrow> upd_q q (\<lambda>Q. Q\<lparr>q_qsp := NULL\<rparr>) s;
          s \<leftarrow> upd_q oq (\<lambda>Q. Q\<lparr>q_qsp := NULL\<rparr>) s;
          Some (True, qlock_option, s) }
        else if qlock_option = LIS_QLOCK_QUEUE_PAIR
        then do { (ok, s) \<leftarrow> set_q_sync_pair q s; Some (ok, qlock_option, s) }
        else if qlock_option = LIS_QLOCK_GLOBAL
        then do {
          s \<leftarrow> lis_free_q_sync q s;
          s \<leftarrow> upd_q q (\<lambda>Q. Q\<lparr>q_qsp := lis_queue_sync\<rparr>) s;
          s \<leftarrow> upd_q oq (\<lambda>Q. Q\<lparr>q_qsp := lis_queue_sync\<rparr>) s;
          Some (True, qlock_option, s) }
        else do { (ok, s) \<leftarrow> set_q_sync_queue q s; Some (ok, LIS_QLOCK_QUEUE, s) });
     if \<not> ok then Some (- ENOMEM, s)
     else do {
       s \<leftarrow> upd_q q (\<lambda>Q. Q\<lparr>q_qlock_option := option\<rparr>) s;
       s \<leftarrow> upd_q oq (\<lambda>Q. Q\<lparr>q_qlock_option := option\<rparr>) s;
       Some (0, s) } }"

subsection \<open>Queue pairs\<close>

definition queue_zero :: queue where
  "queue_zero = \<lparr>q_qinfo = None, q_first = NULL, q_last = NULL, q_next = NULL, q_link = NULL,
     q_count = 0, q_flag = 0, q_minpsz = 0, q_maxpsz = 0, q_hiwat = 0, q_lowat = 0, q_bandp = NULL,
     q_other = NULL, q_str = NULL, q_scnxt = NULL, q_magic = 0, q_qsp = NULL, q_qlock_option = 0,
     q_wakeup_sem = NULL, q_contention_cnt = 0, q_defer_head = NULL, q_defer_tail = NULL\<rparr>"

text \<open>Freeing the bands of a queue.\<close>

definition qband_free :: "ptr \<Rightarrow> lis \<Rightarrow> lis option" where
  "qband_free qp s = do {
     _ \<leftarrow> qbands s qp;
     Some (kfree qp (s\<lparr>qbands := (qbands s)(qp := None), qband_cnt := qband_cnt s - 1\<rparr>)) }"

partial_function (option) bands_free :: "ptr \<Rightarrow> lis \<Rightarrow> lis option" where
  "bands_free qp s =
     (if qp = NULL then Some s
      else do {
        b \<leftarrow> qbands s qp;
        s \<leftarrow> qband_free qp s;
        bands_free (qb_next b) s })"

text \<open>The body of the loop of \<open>lis_freeq\<close>, run for the read and for the write queue.\<close>

definition freeq_side :: "ptr \<Rightarrow> lis \<Rightarrow> lis option" where
  "freeq_side q s = do {
     ok \<leftarrow> q_magic_ok q s;
     if \<not> ok then Some s
     else do {
       let s = purge_queue_contention q s;
       s \<leftarrow> upd_q q (\<lambda>Q. Q\<lparr>q_magic := Q_MAGIC XOR 1\<rparr>) s;
       Q \<leftarrow> qs s q;
       bands_free (q_bandp Q) s } }"

definition lis_freeq :: "ptr \<Rightarrow> lis \<Rightarrow> lis option" where
  "lis_freeq q s = do {
     s \<leftarrow> lis_free_q_sync q s;
     rq \<leftarrow> lis_safe_RD q s;
     wq \<leftarrow> lis_safe_WR rq s;
     s \<leftarrow> freeq_side rq s;
     s \<leftarrow> freeq_side wq s;
     _ \<leftarrow> qs s rq;
     let s = kfree rq (s\<lparr>qs := (qs s)(rq := None, rq + QUEUE_SZ := None), queue_cnt := queue_cnt s - 1\<rparr>);
     Some (LisDownCount QUEUES s) }"

definition lis_allocq :: "lis \<Rightarrow> (ptr \<times> lis) option" where
  "lis_allocq s =
     (case kalloc s of (q, s) \<Rightarrow>
        if q = NULL then Some (NULL, s)
        else do {
          let s = LisUpCount QUEUES (s\<lparr>queue_cnt := queue_cnt s + 1\<rparr>);
          let oq = q + QUEUE_SZ;
          let s = s\<lparr>qs := (qs s)(q \<mapsto> queue_zero\<lparr>q_other := oq, q_magic := Q_MAGIC, q_flag := QREADR OR QUSE\<rparr>,
                                 oq \<mapsto> queue_zero\<lparr>q_other := q, q_magic := Q_MAGIC, q_flag := QUSE\<rparr>)\<rparr>;
          (r, s) \<leftarrow> lis_set_q_sync q LIS_QLOCK_QUEUE s;
          if r < 0
          then do { s \<leftarrow> lis_freeq q s; Some (NULL, s) }
          else Some (q, s) })"

end
