(* ===== verification/LiS_Bufcall.thy ===== *)
theory LiS_Bufcall
  imports LiS_Queue
begin

text \<open>
  Recovery from allocation failure, \<open>head/buffcall.c\<close>: a hash table of doubly linked lists of
  pending calls, a free list, and a timer that makes the queue runner call the functions.
\<close>

unbundle bit_operations_syntax

abbreviation (input) N_BCHASH :: nat where "N_BCHASH \<equiv> 128"
abbreviation (input) BC_STATE_UNUSED :: int where "BC_STATE_UNUSED \<equiv> 0"
abbreviation (input) BC_STATE_ACTIVE :: int where "BC_STATE_ACTIVE \<equiv> 1"
abbreviation (input) BC_STATE_CALLOUT :: int where "BC_STATE_CALLOUT \<equiv> 2"

text \<open>\<open>id & BCHASH_MSK\<close>, and the next identifier, which skips zero.\<close>

definition bc_hash :: "int \<Rightarrow> nat" where
  "bc_hash i = nat (i mod int N_BCHASH)"

definition bc_next_id :: "int \<Rightarrow> int" where
  "bc_next_id n = (let i = c_int (n + 1) in if i = 0 then c_int (i + 1) else i)"

definition upd_bc :: "ptr \<Rightarrow> (bcinfo \<Rightarrow> bcinfo) \<Rightarrow> lis \<Rightarrow> lis option" where
  "upd_bc p f s = do { b \<leftarrow> bcs s p; Some (s\<lparr>bcs := (bcs s)(p \<mapsto> f b)\<rparr>) }"

definition upd_bl :: "nat \<Rightarrow> (bclist \<Rightarrow> bclist) \<Rightarrow> lis \<Rightarrow> lis" where
  "upd_bl i f s = s\<lparr>bchash := (bchash s)(i := f (bchash s i))\<rparr>"

lemma upd_bc_Some [lis_simps]: "bcs s p = Some m \<Longrightarrow> upd_bc p f s = Some (s\<lparr>bcs := (bcs s)(p \<mapsto> f m)\<rparr>)"
  by (simp add: upd_bc_def)

text \<open>The timer function; \<open>lis_tmout\<close> starts the timer.\<close>

definition bc_timeout :: "lis \<Rightarrow> lis" where
  "bc_timeout s = lis_setqsched (s\<lparr>strbcflag := 1, runq_req_cnt := runq_req_cnt s + 1\<rparr>)"

definition bc_start_timer :: "lis \<Rightarrow> lis" where
  "bc_start_timer s = s\<lparr>strbctimer := 1, bc_tmouts := bc_tmouts s + 1\<rparr>"

definition bcinfo_zero :: bcinfo where
  "bcinfo_zero = \<lparr>bc_next = NULL, bc_prev = NULL, bc_size = 0, bc_usr_f = 0, bc_usr_arg = 0, bc_id = 0,
     bc_state = 0\<rparr>"

text \<open>A structure from the free list or else from the allocator.\<close>

definition bc_get :: "lis \<Rightarrow> (ptr \<times> lis) option" where
  "bc_get s =
     (if bcfreel s \<noteq> NULL
      then do { b \<leftarrow> bcs s (bcfreel s); Some (bcfreel s, s\<lparr>bcfreel := bc_next b\<rparr>) }
      else Some (case kalloc s of (p, s) \<Rightarrow>
        if p = NULL then (NULL, s) else (p, s\<lparr>bcs := (bcs s)(p \<mapsto> bcinfo_zero)\<rparr>)))"

text \<open>Appending an initialised structure to the list of its identifier.\<close>

definition bc_append :: "ptr \<Rightarrow> int \<Rightarrow> lis \<Rightarrow> lis option" where
  "bc_append p bid s = do {
     let i = bc_hash bid;
     let l = bchash s i;
     s \<leftarrow> upd_bc p (\<lambda>b. b\<lparr>bc_prev := bl_last l\<rparr>) s;
     s \<leftarrow> (if bl_last l \<noteq> NULL then upd_bc (bl_last l) (\<lambda>b. b\<lparr>bc_next := p\<rparr>) s else Some s);
     let s = upd_bl i (\<lambda>l. l\<lparr>bl_last := p, bl_first := (if bl_first l = NULL then p else bl_first l),
                             bl_n_elts := bl_n_elts l + 1\<rparr>) s;
     Some (s\<lparr>bc_cnt := bc_cnt s + 1\<rparr>) }"

definition bc_link :: "u32 \<Rightarrow> nat \<Rightarrow> int \<Rightarrow> lis \<Rightarrow> (int \<times> lis) option" where
  "bc_link sz function arg s = do {
     (p, s) \<leftarrow> bc_get s;
     let bid = bc_next_id (bc_id_num s);
     let s = s\<lparr>bc_id_num := bid\<rparr>;
     if p = NULL
     then Some (0, LisDownCount BUFCALLS (LisUpFailCount BUFCALLS s))
     else do {
       s \<leftarrow> upd_bc p (\<lambda>b. b\<lparr>bc_size := sz, bc_usr_f := function, bc_usr_arg := arg, bc_id := bid,
                            bc_next := NULL, bc_state := BC_STATE_ACTIVE\<rparr>) s;
       s \<leftarrow> bc_append p bid s;
       Some (bid, if strbctimer s = 0 then bc_start_timer s else s) } }"

definition bc_ulink :: "ptr \<Rightarrow> lis \<Rightarrow> lis option" where
  "bc_ulink p s =
     (if p = NULL then Some s
      else do {
        b \<leftarrow> bcs s p;
        let i = bc_hash (bc_id b);
        s \<leftarrow> (if bc_prev b \<noteq> NULL then upd_bc (bc_prev b) (\<lambda>x. x\<lparr>bc_next := bc_next b\<rparr>) s else Some s);
        b \<leftarrow> bcs s p;
        s \<leftarrow> (if bc_next b \<noteq> NULL then upd_bc (bc_next b) (\<lambda>x. x\<lparr>bc_prev := bc_prev b\<rparr>) s else Some s);
        b \<leftarrow> bcs s p;
        let s = upd_bl i (\<lambda>l. l\<lparr>bl_first := (if bl_first l = p then bc_next b else bl_first l)\<rparr>) s;
        let s = upd_bl i (\<lambda>l. l\<lparr>bl_last := (if bl_last l = p then bc_prev b else bl_last l)\<rparr>) s;
        let s = upd_bl i (\<lambda>l. l\<lparr>bl_n_elts := bl_n_elts l - 1\<rparr>) s;
        let s = s\<lparr>bc_cnt := bc_cnt s - 1\<rparr>;
        s \<leftarrow> upd_bc p (\<lambda>b. b\<lparr>bc_usr_f := 0, bc_id := 0, bc_next := bcfreel s\<rparr>) s;
        Some (s\<lparr>bcfreel := p\<rparr>) })"

definition ESB_SIZE :: u32 where "ESB_SIZE = - 1"

definition lis_bufcall :: "u32 \<Rightarrow> nat \<Rightarrow> int \<Rightarrow> lis \<Rightarrow> (int \<times> lis) option" where
  "lis_bufcall sz function arg s =
     (let s = LisUpCount BUFCALLS s in
      if function = 0 then Some (0, LisDownCount BUFCALLS (LisUpFailCount BUFCALLS s))
      else bc_link sz function arg s)"

definition lis_esbbcall :: "nat \<Rightarrow> int \<Rightarrow> lis \<Rightarrow> (int \<times> lis) option" where
  "lis_esbbcall function arg s =
     (let s = LisUpCount BUFCALLS s in
      if function = 0 then Some (0, LisDownCount BUFCALLS (LisUpFailCount BUFCALLS s))
      else bc_link ESB_SIZE function arg s)"

partial_function (option) bc_search :: "ptr \<Rightarrow> int \<Rightarrow> lis \<Rightarrow> ptr option" where
  "bc_search p bcid s =
     (if p = NULL then Some NULL
      else do {
        b \<leftarrow> bcs s p;
        if bc_id b = bcid then Some p else bc_search (bc_next b) bcid s })"

text \<open>The wait for a call in progress, \<open>while (bcinfo->state == BC_STATE_CALLOUT) ;\<close>, by a single task.\<close>

partial_function (option) bc_spin :: "ptr \<Rightarrow> lis \<Rightarrow> lis option" where
  "bc_spin p s = do { b \<leftarrow> bcs s p; if bc_state b = BC_STATE_CALLOUT then bc_spin p s else Some s }"

definition lis_unbufcall :: "int \<Rightarrow> lis \<Rightarrow> lis option" where
  "lis_unbufcall bcid s = do {
     p \<leftarrow> bc_search (bl_first (bchash s (bc_hash bcid))) bcid s;
     if p = NULL then Some s
     else do {
       s \<leftarrow> bc_spin p s;
       s \<leftarrow> upd_bc p (\<lambda>b. b\<lparr>bc_state := BC_STATE_UNUSED\<rparr>) s;
       s \<leftarrow> bc_ulink p s;
       Some (LisDownCount BUFCALLS s) } }"

text \<open>\<open>lis_dobufcall\<close>: the calls of list \<open>i\<close> until it is empty, then the lists in turn.\<close>

partial_function (option) dobufcall_list :: "env \<Rightarrow> nat \<Rightarrow> lis \<Rightarrow> lis option" where
  "dobufcall_list e i s =
     (if bl_n_elts (bchash s i) = 0 \<or> bl_first (bchash s i) = NULL then Some s
      else do {
        let p = bl_first (bchash s i);
        b \<leftarrow> bcs s p;
        s \<leftarrow> upd_bc p (\<lambda>b. b\<lparr>bc_state := BC_STATE_CALLOUT\<rparr>) s;
        s \<leftarrow> (if bc_usr_f b \<noteq> 0 then e_bcfn e (bc_usr_f b) (bc_usr_arg b) s else Some s);
        s \<leftarrow> upd_bc p (\<lambda>b. b\<lparr>bc_state := BC_STATE_UNUSED\<rparr>) s;
        s \<leftarrow> bc_ulink p s;
        dobufcall_list e i (LisDownCount BUFCALLS s) })"

fun dobufcall_lists :: "env \<Rightarrow> nat list \<Rightarrow> lis \<Rightarrow> lis option" where
  "dobufcall_lists e [] s = Some s"
| "dobufcall_lists e (i # is) s =
     (if bc_cnt s = 0 then Some s
      else do { s \<leftarrow> dobufcall_list e i s; dobufcall_lists e is s })"

definition lis_dobufcall :: "env \<Rightarrow> lis \<Rightarrow> lis option" where
  "lis_dobufcall e s =
     (if strbcflag s = 0 then Some s
      else do {
        s \<leftarrow> dobufcall_lists e [0..<N_BCHASH] (s\<lparr>strbcflag := 0\<rparr>);
        let s = s\<lparr>strbctimer := 0\<rparr>;
        Some (if bc_cnt s \<noteq> 0 then bc_start_timer s else s) })"

partial_function (option) init_bufcall_list :: "nat \<Rightarrow> lis \<Rightarrow> lis option" where
  "init_bufcall_list i s =
     (let p = bl_first (bchash s i) in
      if p = NULL then Some (upd_bl i (\<lambda>l. l\<lparr>bl_n_elts := 0\<rparr>) s)
      else do {
        s \<leftarrow> upd_bc p (\<lambda>b. b\<lparr>bc_state := BC_STATE_UNUSED\<rparr>) s;
        s \<leftarrow> bc_ulink p s;
        init_bufcall_list i (LisDownCount BUFCALLS s) })"

fun init_bufcall_lists :: "nat list \<Rightarrow> lis \<Rightarrow> lis option" where
  "init_bufcall_lists [] s = Some s"
| "init_bufcall_lists (i # is) s = do { s \<leftarrow> init_bufcall_list i s; init_bufcall_lists is s }"

definition lis_init_bufcall :: "lis \<Rightarrow> lis option" where
  "lis_init_bufcall s = do {
     s \<leftarrow> init_bufcall_lists [0..<N_BCHASH] s;
     Some (s\<lparr>bc_cnt := 0, strbcflag := 0, strbctimer := 0\<rparr>) }"

partial_function (option) bc_free_all :: "lis \<Rightarrow> lis option" where
  "bc_free_all s =
     (let p = bcfreel s in
      if p = NULL then Some s
      else do {
        b \<leftarrow> bcs s p;
        bc_free_all (kfree p (s\<lparr>bcfreel := bc_next b, bcs := (bcs s)(p := None)\<rparr>)) })"

definition lis_terminate_bufcall :: "lis \<Rightarrow> lis option" where
  "lis_terminate_bufcall s = do { s \<leftarrow> lis_init_bufcall s; bc_free_all s }"

end
