(* ===== verification/LiS_Run.thy ===== *)
theory LiS_Run
  imports LiS_Put LiS_Bufcall
begin

text \<open>
  The STREAMS scheduler, \<open>head/stream.c\<close>: \<open>queuerun\<close> takes the queues off the scan list and off
  the run list one at a time and calls their service procedures.  Per-CPU counters, debug output
  and the repair of a driver's missing \<open>splx\<close> are not modelled.
\<close>

unbundle bit_operations_syntax

text \<open>\<open>lis_head_put\<close> (\<open>head.c\<close>): the last reference tears the stream down.\<close>

definition lis_head_put :: "ptr \<Rightarrow> lis \<Rightarrow> (ptr \<times> lis) option" where
  "lis_head_put hdp s =
     (if hdp = NULL then Some (NULL, s)
      else do {
        h \<leftarrow> sds s hdp;
        let tear_down = (sd_refcnt h = 1);
        s \<leftarrow> upd_sd hdp (\<lambda>h. h\<lparr>sd_refcnt := sd_refcnt h - 1\<rparr>) s;
        Some (if tear_down then (NULL, s\<lparr>torn_down := torn_down s @ [hdp]\<rparr>) else (hdp, s)) })"

text \<open>Clearing \<open>QRUNNING\<close>; true when \<open>lis_qdetach\<close> waits for the queue and was woken.\<close>

definition run_done :: "ptr \<Rightarrow> lis \<Rightarrow> (bool \<times> lis) option" where
  "run_done q s = do {
     s \<leftarrow> upd_q q (\<lambda>Q. Q\<lparr>q_flag := q_flag Q AND NOT QRUNNING\<rparr>) s;
     Q \<leftarrow> qs s q;
     Some (if F_ISSET (q_flag Q) QWAITING \<and> q_wakeup_sem Q \<noteq> NULL
           then (True, s\<lparr>sems := (sems s)(q_wakeup_sem Q := sems s (q_wakeup_sem Q) + 1)\<rparr>)
           else (False, s)) }"

text \<open>Sending the message that a write held back, with the queue locked.\<close>

definition scan_send :: "env \<Rightarrow> ptr \<Rightarrow> ptr \<Rightarrow> bool \<Rightarrow> lis \<Rightarrow> lis option" where
  "scan_send e q strmhd procsoff s =
     (if procsoff \<or> strmhd = NULL then Some s
      else do {
        h \<leftarrow> sds s strmhd;
        if sd_wmsg h = NULL then Some s
        else do {
          wq \<leftarrow> lis_safe_WR q s;
          s \<leftarrow> lis_safe_putnext e wq (sd_wmsg h) s;
          upd_sd strmhd (\<lambda>h. h\<lparr>sd_wmsg := NULL\<rparr>) s } })"

text \<open>The body of the scan loop for the queue \<open>q\<close> just taken off the list.\<close>

definition scan_one :: "env \<Rightarrow> ptr \<Rightarrow> lis \<Rightarrow> lis option" where
  "scan_one e q s = do {
     ok \<leftarrow> q_magic_ok q s;
     if \<not> ok then Some s
     else do {
       s \<leftarrow> upd_q q (\<lambda>Q. Q\<lparr>q_flag := q_flag Q AND NOT QSCAN\<rparr>) s;
       Q \<leftarrow> qs s q;
       let procsoff = F_ISSET (q_flag Q) (QCLOSING OR QPROCSOFF);
       let strmhd = q_str Q;
       (r, s) \<leftarrow> lis_lockq (e_cur e) q s;
       if r < 0 then upd_q q (\<lambda>Q. Q\<lparr>q_flag := q_flag Q AND NOT QRUNNING\<rparr>) s
       else do {
         s \<leftarrow> scan_send e q strmhd procsoff s;
         s \<leftarrow> lis_unlockq (e_cur e) q s;
         (_, s) \<leftarrow> run_done q s;
         (_, s) \<leftarrow> lis_head_put strmhd s;
         Some s } } }"

partial_function (option) scan_loop :: "env \<Rightarrow> lis \<Rightarrow> lis option" where
  "scan_loop e s =
     (let q = scanqhead s in
      if q = NULL then Some s
      else do {
        Q \<leftarrow> qs s q;
        let s = s\<lparr>scanqhead := q_scnxt Q\<rparr>;
        s \<leftarrow> upd_q q (\<lambda>Q. Q\<lparr>q_scnxt := NULL\<rparr>) s;
        let s = (if q = scanqtail s then s\<lparr>scanqtail := NULL\<rparr> else s);
        let s = s\<lparr>runq_req_cnt := runq_req_cnt s - 1\<rparr>;
        s \<leftarrow> upd_q q (\<lambda>Q. Q\<lparr>q_flag := q_flag Q OR QRUNNING\<rparr>) s;
        s \<leftarrow> scan_one e q s;
        scan_loop e s })"

text \<open>Taking the first queue off the run list.\<close>

definition runq_take :: "lis \<Rightarrow> (ptr \<times> lis) option" where
  "runq_take s = do {
     let q = qhead s;
     Q \<leftarrow> qs s q;
     let s = s\<lparr>qhead := q_link Q\<rparr>;
     s \<leftarrow> upd_q q (\<lambda>Q. Q\<lparr>q_link := NULL\<rparr>) s;
     s \<leftarrow> upd_q q (\<lambda>Q. Q\<lparr>q_flag := q_flag Q OR QRUNNING\<rparr>) s;
     let s = (if q = qtail s then s\<lparr>qtail := NULL\<rparr> else s);
     Some (q, s\<lparr>runq_req_cnt := runq_req_cnt s - 1\<rparr>) }"

text \<open>Calling the service procedure of a queue that is locked.\<close>

definition call_srvp :: "env \<Rightarrow> ptr \<Rightarrow> bool \<Rightarrow> lis \<Rightarrow> lis option" where
  "call_srvp e q procsoff s = do {
     Q \<leftarrow> qs s q;
     case q_qinfo Q of
       None \<Rightarrow> Some s
     | Some qi \<Rightarrow> if \<not> procsoff \<and> qi_srvp qi \<noteq> 0 then e_srvp e (qi_srvp qi) q s else Some s }"

text \<open>The body of the main loop for the queue \<open>q\<close> just taken off the list.\<close>

definition run_one :: "env \<Rightarrow> ptr \<Rightarrow> lis \<Rightarrow> lis option" where
  "run_one e q s = do {
     Q \<leftarrow> qs s q;
     if q_magic Q \<noteq> Q_MAGIC \<and> F_ISSET (q_flag Q) (QCLOSEWT OR QWANTENAB) then Some s
     else do {
       s \<leftarrow> upd_q q (\<lambda>Q. Q\<lparr>q_flag := q_flag Q AND NOT QENAB\<rparr>) s;
       Q \<leftarrow> qs s q;
       let procsoff = F_ISSET (q_flag Q) QPROCSOFF;
       let strmhd = q_str Q;
       (r, s) \<leftarrow> lis_lockq (e_cur e) q s;
       if r < 0 then upd_q q (\<lambda>Q. Q\<lparr>q_flag := q_flag Q AND NOT QRUNNING\<rparr>) s
       else do {
         s \<leftarrow> call_srvp e q procsoff (LisDownCount QSCHEDS s);
         s \<leftarrow> lis_unlockq (e_cur e) q s;
         (woken, s) \<leftarrow> run_done q s;
         Q \<leftarrow> qs s q;
         s \<leftarrow> (if \<not> woken \<and> F_ISSET (q_flag Q) QWANTENAB then lis_retry_qenable q s else Some s);
         h \<leftarrow> sds s strmhd;
         if sd_magic h = STDATA_MAGIC \<and> (sd_wq h = q \<or> sd_rq h = q)
         then do { (_, s) \<leftarrow> lis_head_put strmhd s; Some s }
         else Some s } } }"

partial_function (option) run_loop :: "env \<Rightarrow> lis \<Rightarrow> lis option" where
  "run_loop e s =
     (if qhead s = NULL then Some s
      else do {
        (q, s) \<leftarrow> runq_take s;
        s \<leftarrow> run_one e q s;
        run_loop e s })"

definition queuerun :: "env \<Rightarrow> lis \<Rightarrow> lis option" where
  "queuerun e s = do {
     s \<leftarrow> scan_loop e s;
     s \<leftarrow> (if strbcflag s \<noteq> 0
          then lis_dobufcall e (s\<lparr>runq_req_cnt := runq_req_cnt s - 1\<rparr>)
          else Some s);
     s \<leftarrow> run_loop e s;
     Some (if runq_req_cnt s \<noteq> 0 \<and> scanqhead s = NULL \<and> qhead s = NULL \<and> strbcflag s = 0
           then s\<lparr>runq_req_cnt := 0\<rparr> else s) }"

text \<open>The multiprocessor variant, without the recursion test.\<close>

partial_function (option) lis_run_queues :: "env \<Rightarrow> lis \<Rightarrow> lis option" where
  "lis_run_queues e s =
     (if runq_req_cnt s > 0 then do { s \<leftarrow> queuerun e s; lis_run_queues e s } else Some s)"

end
