(* ===== verification/LiS_RunList.thy ===== *)
theory LiS_RunList
  imports LiS_Sched LiS_Run
begin

text \<open>
  The run list of the scheduler: the queues linked through \<open>q_link\<close> from \<open>lis_qhead\<close> to
  \<open>lis_qtail\<close> are the queues whose flag \<open>QENAB\<close> is set.  \<open>lis_qenable\<close> appends to it, \<open>queuerun\<close>
  takes from its head, and running the listed queues comes to an end when the service procedures
  schedule nothing themselves.
\<close>

unbundle bit_operations_syntax

subsection \<open>The invariant\<close>

definition qlinkf :: "lis \<Rightarrow> ptr \<Rightarrow> ptr option" where
  "qlinkf s p = map_option q_link (qs s p)"

definition flagged :: "u64 \<Rightarrow> lis \<Rightarrow> ptr \<Rightarrow> bool" where
  "flagged v s p \<longleftrightarrow> (case qs s p of None \<Rightarrow> False | Some Q \<Rightarrow> F_ISSET (q_flag Q) v)"

text \<open>
  \<open>xs\<close> is the run list and \<open>R\<close> holds the queues already taken off it whose \<open>QENAB\<close> is not cleared
  yet.
\<close>

definition runlist :: "lis \<Rightarrow> ptr list \<Rightarrow> ptr set \<Rightarrow> bool" where
  "runlist s xs R \<longleftrightarrow> sseg (qlinkf s) (qhead s) xs NULL \<and> (xs \<noteq> [] \<longrightarrow> qtail s = last xs) \<and>
     set xs \<inter> R = {} \<and> (\<forall>p. p \<in> set xs \<union> R \<longleftrightarrow> flagged QENAB s p)"

lemma flagged_Some [simp]: "qs s p = Some Q \<Longrightarrow> flagged v s p = F_ISSET (q_flag Q) v"
  by (simp add: flagged_def)

lemma flaggedE:
  assumes "flagged v s p"
  obtains Q where "qs s p = Some Q" "F_ISSET (q_flag Q) v"
  using assms by (auto simp: flagged_def split: option.splits)

lemma runlist_empty: "runlist s xs R \<Longrightarrow> qhead s = NULL \<longleftrightarrow> xs = []"
  by (cases xs) (auto simp: runlist_def)

lemma runlist_distinct: "runlist s xs R \<Longrightarrow> distinct xs"
  by (auto simp: runlist_def dest: sseg_distinct)

lemma runlist_NULL: "runlist s xs R \<Longrightarrow> NULL \<notin> set xs"
  by (auto simp: runlist_def dest: sseg_nonzero)

lemma runlist_mem: "runlist s xs R \<Longrightarrow> p \<in> set xs \<Longrightarrow> \<exists>Q. qs s p = Some Q \<and> F_ISSET (q_flag Q) QENAB"
  unfolding runlist_def by (auto elim!: flaggedE)

lemma runlist_cong:
  assumes "runlist s xs R" "qhead t = qhead s" "qtail t = qtail s"
    and "\<And>p. p \<in> set xs \<Longrightarrow> qlinkf t p = qlinkf s p" "\<And>p. flagged QENAB t p = flagged QENAB s p"
  shows "runlist t xs R"
  using assms sseg_cong[of xs "qlinkf t" "qlinkf s" "qhead s"] by (simp add: runlist_def)

text \<open>Changing flags other than \<open>QENAB\<close> keeps the list.\<close>

lemma runlist_flag:
  assumes "runlist s xs R" "qs s q = Some Q" "F_ISSET f QENAB = F_ISSET (q_flag Q) QENAB"
  shows "runlist (s\<lparr>qs := (qs s)(q \<mapsto> Q\<lparr>q_flag := f\<rparr>)\<rparr>) xs R"
  by (rule runlist_cong[OF assms(1)]) (use assms(2,3) in \<open>auto simp: qlinkf_def flagged_def\<close>)

subsection \<open>Scheduling a queue\<close>

lemma QENAB_inh: "\<not> F_ISSET f Q_INH_ENABLE \<Longrightarrow> \<not> F_ISSET f QENAB"
  unfolding Q_INH_ENABLE_def F_ISSET_def by (auto simp: bit_eq_iff bit_simps)

lemma flag_self: "F_ISSET QENAB QENAB" "F_ISSET QWANTENAB QWANTENAB"
  by (simp_all add: F_ISSET_def q_flag_defs)

lemma runlist_linked:
  assumes rl: "runlist s xs R" and Q: "qs s q = Some Q" "q \<noteq> NULL" and go: "\<not> F_ISSET (q_flag Q) Q_INH_ENABLE"
    and t: "qs t = linked_qs s q Q" "qhead t = (if qhead s = NULL then q else qhead s)" "qtail t = q"
  shows "runlist t (xs @ [q]) R"
proof -
  have new: "q \<notin> set xs \<union> R" using QENAB_inh[OF go] Q(1) rl by (auto simp: runlist_def)
  have QE: "F_ISSET (q_flag Q OR QENAB) QENAB" by (simp add: F_ISSET_or flag_self)
  have fl: "flagged QENAB t p \<longleftrightarrow> p = q \<or> flagged QENAB s p" for p
    using Q(1) QE by (auto simp: flagged_def t(1) linked_qs_def Let_def option.map_comp split: option.splits)
  have "sseg (qlinkf t) (qhead t) (xs @ [q]) NULL"
  proof (cases "xs = []")
    case True
    with rl have "qhead s = NULL" by (simp add: runlist_empty)
    with True Q show ?thesis by (simp add: t qlinkf_def linked_qs_def)
  next
    case False
    then obtain ys y where xs: "xs = ys @ [y]" by (metis append_butlast_last_id)
    have y: "y \<noteq> q" "y \<notin> set ys" "y \<noteq> NULL" "qtail s = y" "qhead s \<noteq> NULL"
      using new xs runlist_distinct[OF rl] runlist_NULL[OF rl] rl runlist_empty[OF rl] by (auto simp: runlist_def)
    obtain Y where Y: "qs s y = Some Y" using runlist_mem[OF rl, of y] xs by auto
    have lk: "qlinkf t = (qlinkf s)(q \<mapsto> NULL, y \<mapsto> q)"
      using y Y Q by (auto simp: qlinkf_def t(1) linked_qs_def Let_def fun_eq_iff)
    have "sseg (qlinkf s) (qhead s) ys y" using rl xs by (auto simp: runlist_def sseg_append)
    then have "sseg (qlinkf t) (qhead s) ys y" using new xs y by (simp add: lk)
    then show ?thesis using y Q(2) by (auto simp: xs sseg_append t(2) lk)
  qed
  then show ?thesis using rl new t(3) fl by (auto simp: runlist_def)
qed

definition schedules :: "queue \<Rightarrow> bool" where
  "schedules Q \<longleftrightarrow> can_run Q \<and> \<not> F_ISSET (q_flag Q) Q_INH_ENABLE"

lemma want_not_enab: "F_ISSET (f OR QWANTENAB) QENAB = F_ISSET f QENAB"
  "F_ISSET (f AND NOT QWANTENAB) QENAB = F_ISSET f QENAB"
  "F_ISSET (f AND NOT QRUNNING) QENAB = F_ISSET f QENAB" "F_ISSET (f OR QRUNNING) QENAB = F_ISSET f QENAB"
  by (simp_all add: F_ISSET_or) (simp_all add: F_ISSET_def q_flag_defs and.assoc)

text \<open>
  \<open>lis_qenable\<close>: a queue that may be scheduled is appended to the run list; the request for one that
  is scheduled, running, or held up is remembered in \<open>QWANTENAB\<close>.
\<close>

lemma lis_qenable_runlist:
  assumes ok: "sched_ok s" and rl: "runlist s xs R" and Q: "qs s q = Some Q" "q \<noteq> NULL"
  shows "\<exists>t. lis_qenable q s = Some t \<and> sched_eq s t \<and> sched_ok t \<and>
    runlist t (if schedules Q then xs @ [q] else xs) R \<and>
    (\<forall>p. flagged QWANTENAB t p \<longleftrightarrow> flagged QWANTENAB s p \<or>
       p = q \<and> can_run Q \<and> F_ISSET (q_flag Q) Q_INH_ENABLE \<and> F_ISSET (q_flag Q) Q_DEFER_ENABLE)"
proof -
  obtain t where t: "lis_qenable q s = Some t" "sched_eq s t" "sched_ok t"
    using lis_qenable_spec[OF ok Q] by blast
  have "runlist t (if schedules Q then xs @ [q] else xs) R \<and>
    (\<forall>p. flagged QWANTENAB t p \<longleftrightarrow> flagged QWANTENAB s p \<or>
       p = q \<and> can_run Q \<and> F_ISSET (q_flag Q) Q_INH_ENABLE \<and> F_ISSET (q_flag Q) Q_DEFER_ENABLE)"
  proof (cases "can_run Q")
    case False
    with t(1) rl Q show ?thesis by (simp add: lis_qenable_idle schedules_def)
  next
    case run: True
    show ?thesis
    proof (cases "F_ISSET (q_flag Q) Q_INH_ENABLE")
      case inh: True
      have W: "F_ISSET (q_flag Q OR QWANTENAB) QWANTENAB"
        by (simp add: F_ISSET_or flag_self)
      show ?thesis
        using t(1) rl Q inh run W runlist_flag[OF rl Q(1) want_not_enab(1)]
        by (auto simp: lis_qenable_inhibited[OF Q run inh] lis_simps schedules_def flagged_def split: if_splits)
    next
      case go: False
      have "qs t = linked_qs s q Q" "qhead t = (if qhead s = NULL then q else qhead s)" "qtail t = q"
        using lis_qenable_go[OF ok Q run go] t(1) by auto
      note lt = runlist_linked[OF rl Q go this] this(1)
      have "F_ISSET (q_flag Q OR QENAB) QWANTENAB = F_ISSET (q_flag Q) QWANTENAB"
        by (simp add: F_ISSET_or) (simp add: F_ISSET_def q_flag_defs)
      then have "flagged QWANTENAB t p = flagged QWANTENAB s p" for p
        using Q(1) by (auto simp: flagged_def lt(2) linked_qs_def Let_def option.map_comp split: option.splits)
      with lt(1) run go show ?thesis by (simp add: schedules_def)
    qed
  qed
  with t show ?thesis by blast
qed

subsection \<open>What running a queue leaves alone\<close>

text \<open>What the scheduler reads of a queue, and what it never writes.\<close>

definition RUN_FLAGS :: u64 where
  "RUN_FLAGS = Q_INH_ENABLE OR QWANTENAB OR QWAITING"

definition run_view :: "queue \<Rightarrow> u64 \<times> ptr \<times> ptr \<times> bool \<times> bool" where
  "run_view Q = (q_magic Q, q_str Q, q_qsp Q, has_srvp Q, F_ISSET (q_flag Q) QOPENING)"

definition qstill :: "queue \<Rightarrow> queue" where
  "qstill Q = Q\<lparr>q_link := NULL, q_flag := q_flag Q AND NOT (SCHED_FLAGS OR QRUNNING)\<rparr>"

definition agree :: "lis \<Rightarrow> lis \<Rightarrow> bool" where
  "agree s t \<longleftrightarrow> dom (sds t) = dom (sds s) \<and> (\<forall>p. map_option run_view (qs t p) = map_option run_view (qs s p))"

definition run_eq :: "lis \<Rightarrow> lis \<Rightarrow> bool" where
  "run_eq s t \<longleftrightarrow> dom (sds t) = dom (sds s) \<and> mb t = mb s \<and> db t = db s \<and> qbands t = qbands s \<and>
     mem t = mem s \<and> kmem t = kmem s \<and> (\<forall>p. map_option qstill (qs t p) = map_option qstill (qs s p))"

text \<open>A step that schedules nothing: the run list, the locks and the scheduling flags stay.\<close>

definition quiet :: "lis \<Rightarrow> lis \<Rightarrow> bool" where
  "quiet s t \<longleftrightarrow> agree s t \<and> qhead t = qhead s \<and> qtail t = qtail s \<and> qsyncs t = qsyncs s \<and>
     (\<forall>p. map_option (\<lambda>Q. (q_link Q, q_flag Q AND RUN_FLAGS)) (qs t p) =
          map_option (\<lambda>Q. (q_link Q, q_flag Q AND RUN_FLAGS)) (qs s p))"

lemma map_option_view:
  assumes "\<And>a b. f a = f b \<Longrightarrow> g a = g b" "map_option f x = map_option f y"
  shows "map_option g x = map_option g y"
  using assms(2) by (cases x; cases y) (auto intro: assms(1))

lemma run_eq_refl [simp]: "run_eq s s" by (simp add: run_eq_def)
lemma agree_refl [simp]: "agree s s" by (simp add: agree_def)

lemma run_eq_trans: "run_eq s t \<Longrightarrow> run_eq t u \<Longrightarrow> run_eq s u"
  by (simp add: run_eq_def)

lemma agree_trans: "agree s t \<Longrightarrow> agree t u \<Longrightarrow> agree s u"
  by (simp add: agree_def)

lemma run_view_still: "qstill Q' = qstill Q \<Longrightarrow> run_view Q' = run_view Q"
proof -
  assume eq: "qstill Q' = qstill Q"
  have "q_flag (qstill P) AND QOPENING = q_flag P AND QOPENING" for P
    by (simp add: qstill_def SCHED_FLAGS_def q_flag_defs and.assoc)
  then have "F_ISSET (q_flag P) QOPENING = F_ISSET (q_flag (qstill P)) QOPENING" for P by (simp add: F_ISSET_def)
  moreover have "q_magic P = q_magic (qstill P)" "q_str P = q_str (qstill P)" "q_qsp P = q_qsp (qstill P)"
    "has_srvp P = has_srvp (qstill P)" for P by (simp_all add: qstill_def has_srvp_def)
  ultimately have "run_view P = run_view (qstill P)" for P by (simp add: run_view_def)
  with eq show ?thesis by metis
qed

lemma run_eq_agree: "run_eq s t \<Longrightarrow> agree s t"
proof -
  assume eq: "run_eq s t"
  have "map_option run_view (qs t p) = map_option run_view (qs s p)" for p
    by (rule map_option_view[OF run_view_still, of qstill]) (use eq in \<open>auto simp: run_eq_def\<close>)
  with eq show ?thesis by (simp add: run_eq_def agree_def)
qed

lemma qstill_qcore: "qcore Q' = qcore Q \<Longrightarrow> qstill Q' = qstill Q"
proof -
  assume eq: "qcore Q' = qcore Q"
  have "qstill P = (qcore P)\<lparr>q_flag := q_flag (qcore P) AND NOT (SCHED_FLAGS OR QRUNNING)\<rparr>" for P
    by (simp add: qstill_def qcore_def SCHED_FLAGS_def q_flag_defs and.assoc)
  then show ?thesis by (metis eq)
qed

lemma sched_only_more: "sched_only s t \<Longrightarrow> qsyncs t = qsyncs s \<and> mem t = mem s"
  unfolding sched_only_def by auto

lemma sched_run_eq: "sched_eq s t \<Longrightarrow> run_eq s t"
proof -
  assume eq: "sched_eq s t"
  have "map_option qstill (qs t p) = map_option qstill (qs s p)" for p
    by (rule map_option_view[OF qstill_qcore, of qcore]) (use eq in \<open>auto simp: sched_eq_def\<close>)
  moreover have "dom (sds t) = dom (sds s)" using eq by (simp add: sched_eq_def)
  ultimately show ?thesis unfolding run_eq_def using sched_eq_fields[OF eq] by blast
qed

lemma run_eq_upd:
  assumes "qs s q = Some Q" "qstill Q' = qstill Q"
    and "qs t = (qs s)(q \<mapsto> Q')" "dom (sds t) = dom (sds s)" "mb t = mb s" "db t = db s" "qbands t = qbands s"
    and "mem t = mem s" "kmem t = kmem s"
  shows "run_eq s t"
  using assms by (simp add: run_eq_def)

lemma qstill_flags [simp]:
  "qstill (Q\<lparr>q_flag := q_flag Q AND NOT QENAB\<rparr>) = qstill Q"
  "qstill (Q\<lparr>q_flag := q_flag Q AND NOT QRUNNING\<rparr>) = qstill Q"
  "qstill (Q\<lparr>q_flag := q_flag Q OR QRUNNING\<rparr>) = qstill Q"
  "qstill (Q\<lparr>q_flag := q_flag Q OR QRUNNING, q_link := n\<rparr>) = qstill Q"
  "qstill (Q\<lparr>q_link := n, q_flag := q_flag Q OR QRUNNING\<rparr>) = qstill Q"
  "qstill (Q\<lparr>q_link := n\<rparr>) = qstill Q"
  by (simp_all add: qstill_def SCHED_FLAGS_def q_flag_defs and.assoc bit.conj_disj_distrib2)

lemma sched_ok_agree:
  assumes "sched_ok s" "agree s t" "runlist t xs R"
  shows "sched_ok t"
  unfolding sched_ok_def
proof (intro conjI allI impI)
  fix p Q assume Q: "qs t p = Some Q" "q_str Q \<noteq> NULL"
  have "map_option run_view (qs s p) = map_option run_view (qs t p)" using assms(2) by (simp add: agree_def)
  then have "map_option run_view (qs s p) = Some (run_view Q)" using Q by simp
  then obtain P where "qs s p = Some P" "run_view P = run_view Q" by (auto simp del: not_None_eq)
  then have "q_str P = q_str Q" by (simp add: run_view_def)
  then have "sds s (q_str Q) \<noteq> None" using Q(2) \<open>qs s p = Some P\<close> assms(1) unfolding sched_ok_def by metis
  then show "sds t (q_str Q) \<noteq> None" using assms(2) unfolding agree_def by (metis domIff)
next
  assume "qhead t \<noteq> NULL"
  then have "xs \<noteq> []" using runlist_empty[OF assms(3)] by simp
  then have "qtail t \<in> set xs" using assms(3) by (simp add: runlist_def)
  with runlist_mem[OF assms(3)] show "qs t (qtail t) \<noteq> None" by blast
qed

lemma flagged_quiet:
  assumes "quiet s t" "RUN_FLAGS AND v = v"
  shows "flagged v t p = flagged v s p"
proof -
  have eq: "map_option (\<lambda>Q. (q_link Q, q_flag Q AND RUN_FLAGS)) (qs t p) =
          map_option (\<lambda>Q. (q_link Q, q_flag Q AND RUN_FLAGS)) (qs s p)" using assms(1) by (simp add: quiet_def)
  have fl: "flagged v u p \<longleftrightarrow> (case map_option (\<lambda>Q. (q_link Q, q_flag Q AND RUN_FLAGS)) (qs u p) of
      None \<Rightarrow> False | Some (_, f) \<Rightarrow> f AND v \<noteq> 0)" for u
    by (simp add: flagged_def F_ISSET_def and.assoc assms(2) split: option.splits)
  show ?thesis unfolding fl eq ..
qed

lemma runlist_quiet:
  assumes "runlist s xs R" "quiet s t"
  shows "runlist t xs R"
proof (rule runlist_cong[OF assms(1)])
  show "qhead t = qhead s" "qtail t = qtail s" using assms(2) by (simp_all add: quiet_def)
  show "flagged QENAB t p = flagged QENAB s p" for p
    by (rule flagged_quiet[OF assms(2)]) (simp add: RUN_FLAGS_def q_flag_defs)
  show "qlinkf t p = qlinkf s p" for p
  proof -
    have "map_option fst (map_option (\<lambda>Q. (q_link Q, q_flag Q AND RUN_FLAGS)) (qs t p)) =
          map_option fst (map_option (\<lambda>Q. (q_link Q, q_flag Q AND RUN_FLAGS)) (qs s p))"
      using assms(2) by (simp add: quiet_def)
    then show ?thesis by (simp add: qlinkf_def option.map_comp comp_def)
  qed
qed

end
