(* ===== verification/LiS_RunLoop.thy ===== *)
theory LiS_RunLoop
  imports LiS_RunList
begin

text \<open>
  One pass of \<open>queuerun\<close> over the run list: each listed queue is taken off, locked, served, unlocked
  and, when it asked for that meanwhile, listed once more.  With service procedures that schedule
  nothing the list runs empty.
\<close>

unbundle bit_operations_syntax

subsection \<open>Taking a queue off the list\<close>

lemma runlist_clear:
  assumes "runlist s xs R" "q \<in> R" "qs s q = Some Q" "\<not> F_ISSET f QENAB"
  shows "runlist (s\<lparr>qs := (qs s)(q \<mapsto> Q\<lparr>q_flag := f\<rparr>)\<rparr>) xs (R - {q})"
proof -
  have lk: "qlinkf (s\<lparr>qs := (qs s)(q \<mapsto> Q\<lparr>q_flag := f\<rparr>)\<rparr>) = qlinkf s"
    using assms(3) by (auto simp: qlinkf_def fun_eq_iff)
  have fl: "flagged QENAB (s\<lparr>qs := (qs s)(q \<mapsto> Q\<lparr>q_flag := f\<rparr>)\<rparr>) p \<longleftrightarrow> p \<noteq> q \<and> flagged QENAB s p" for p
    using assms(4) by (simp add: flagged_def)
  show ?thesis using assms(1,2) by (auto simp: runlist_def lk fl)
qed

lemma runq_take_spec:
  assumes rl: "runlist s (q # xs) R"
  shows "\<exists>t Q. runq_take s = Some (q, t) \<and> qs s q = Some Q \<and> q \<noteq> NULL \<and>
    qs t = (qs s)(q \<mapsto> Q\<lparr>q_link := NULL, q_flag := q_flag Q OR QRUNNING\<rparr>) \<and> qsyncs t = qsyncs s \<and>
    sds t = sds s \<and> runlist t xs (insert q R) \<and> run_eq s t \<and>
    (\<forall>p. flagged QWANTENAB t p = flagged QWANTENAB s p)"
proof -
  obtain Q where Q: "qs s q = Some Q" "F_ISSET (q_flag Q) QENAB" using runlist_mem[OF rl, of q] by auto
  have q: "qhead s = q" "q \<noteq> NULL" "q \<notin> set xs" using rl runlist_distinct[OF rl] by (auto simp: runlist_def)
  let ?Q = "Q\<lparr>q_link := NULL, q_flag := q_flag Q OR QRUNNING\<rparr>"
  define t where "t = s\<lparr>qs := (qs s)(q \<mapsto> ?Q), qhead := q_link Q,
    qtail := (if q = qtail s then NULL else qtail s), runq_req_cnt := runq_req_cnt s - 1\<rparr>"
  have tk: "runq_take s = Some (q, t)" using Q(1) by (simp add: runq_take_def q(1) lis_simps t_def)
  have fl: "flagged v t p = flagged v s p" if "F_ISSET (q_flag Q OR QRUNNING) v = F_ISSET (q_flag Q) v" for v p
    using that Q(1) by (simp add: flagged_def t_def)
  have fE: "flagged QENAB t p = flagged QENAB s p" for p by (rule fl[OF want_not_enab(4)])
  have fW: "flagged QWANTENAB t p = flagged QWANTENAB s p" for p
    by (rule fl) (simp add: F_ISSET_or, simp add: F_ISSET_def q_flag_defs)
  have "sseg (qlinkf s) (q_link Q) xs NULL" using rl Q(1) q(1) by (simp add: runlist_def qlinkf_def)
  then have "sseg ((qlinkf s)(q \<mapsto> NULL)) (q_link Q) xs NULL" using q(3) by simp
  moreover have "qlinkf t = (qlinkf s)(q \<mapsto> NULL)" "qhead t = q_link Q" by (auto simp: t_def qlinkf_def)
  ultimately have "sseg (qlinkf t) (qhead t) xs NULL" by simp
  moreover have "qtail t = last xs" if "xs \<noteq> []"
    using that rl q(3) last_in_set[OF that] by (auto simp: runlist_def t_def)
  ultimately have "runlist t xs (insert q R)" using rl fE q(3) by (auto simp: runlist_def)
  moreover have "run_eq s t" by (rule run_eq_upd[OF Q(1), of ?Q]) (simp_all add: t_def)
  ultimately show ?thesis using tk Q(1) q(2) fW by (auto simp: t_def)
qed

subsection \<open>The queue lock\<close>

text \<open>A queue without a lock, or whose lock nobody holds.\<close>

definition lockable :: "lis \<Rightarrow> queue \<Rightarrow> bool" where
  "lockable s Q \<longleftrightarrow> q_qsp Q = NULL \<or> \<not> F_ISSET (q_flag Q) QOPENING \<and>
     (\<exists>y. qsyncs s (q_qsp Q) = Some y \<and> qs_taskp y = NULL \<and> qs_nest y = 0 \<and> qs_sem y = 1)"

lemma lock_unlock:
  assumes "cur \<noteq> NULL" "q \<noteq> NULL" "qs s q = Some Q" "lockable s Q"
  shows "\<exists>l. lis_lockq cur q s = Some (0, s\<lparr>qsyncs := l\<rparr>) \<and>
    (\<forall>u P. qsyncs u = l \<longrightarrow> qs u q = Some P \<longrightarrow> q_qsp P = q_qsp Q \<longrightarrow>
       lis_unlockq cur q u = Some (u\<lparr>qsyncs := qsyncs s\<rparr>))"
proof (cases "q_qsp Q = NULL")
  case True
  then show ?thesis using assms by (intro exI[of _ "qsyncs s"]) (auto simp: lis_lockq_def lis_unlockq_def)
next
  case False
  then obtain y where y: "\<not> F_ISSET (q_flag Q) QOPENING" "qsyncs s (q_qsp Q) = Some y" "qs_taskp y = NULL"
    "qs_nest y = 0" "qs_sem y = 1" using assms(4) by (auto simp: lockable_def)
  let ?y = "y\<lparr>qs_sem := 0, qs_nest := 1, qs_taskp := cur\<rparr>"
  have "y\<lparr>qs_nest := 0, qs_taskp := NULL, qs_sem := 1\<rparr> = y" using y by (cases y) simp
  then have restored: "(qsyncs s)(q_qsp Q \<mapsto> y\<lparr>qs_nest := 0, qs_taskp := NULL, qs_sem := 1\<rparr>) = qsyncs s"
    using y(2) by auto
  show ?thesis using assms(1-3) False y
    by (intro exI[of _ "(qsyncs s)(q_qsp Q \<mapsto> ?y)"]) (auto simp: lis_lockq_def lis_unlockq_def Let_def restored)
qed

subsection \<open>Serving one queue\<close>

text \<open>
  What the theorem assumes of the service procedures: from a state that satisfies \<open>J\<close> they return
  in one, without scheduling; \<open>J\<close> does not depend on what the scheduler itself writes.
\<close>

definition serves :: "env \<Rightarrow> (lis \<Rightarrow> bool) \<Rightarrow> bool" where
  "serves e J \<longleftrightarrow> (\<forall>f q s. J s \<longrightarrow> (\<exists>t. e_srvp e f q s = Some t \<and> quiet s t \<and> J t)) \<and>
     (\<forall>s t. J s \<longrightarrow> run_eq s t \<longrightarrow> J t)"

lemma quiet_refl [simp]: "quiet s s"
  by (simp add: quiet_def)

lemma call_srvp_spec:
  assumes "serves e J" "J s" "qs s q = Some Q"
  shows "\<exists>t. call_srvp e q po s = Some t \<and> quiet s t \<and> J t"
proof (cases "\<exists>qi. q_qinfo Q = Some qi \<and> \<not> po \<and> qi_srvp qi \<noteq> 0")
  case True
  then obtain qi where "q_qinfo Q = Some qi" "\<not> po" "qi_srvp qi \<noteq> 0" by blast
  moreover obtain t where "e_srvp e (qi_srvp qi) q s = Some t" "quiet s t" "J t"
    using assms(1,2) unfolding serves_def by blast
  ultimately show ?thesis using assms(3) by (simp add: call_srvp_def)
next
  case False
  then have "call_srvp e q po s = Some s" using assms(3) by (auto simp: call_srvp_def split: option.splits)
  with assms(2) show ?thesis by simp
qed

lemma run_done_spec:
  assumes "qs s q = Some Q"
  shows "\<exists>w x. run_done q s =
    Some (w, s\<lparr>qs := (qs s)(q \<mapsto> Q\<lparr>q_flag := q_flag Q AND NOT QRUNNING\<rparr>), sems := x\<rparr>)"
proof -
  let ?s = "s\<lparr>qs := (qs s)(q \<mapsto> Q\<lparr>q_flag := q_flag Q AND NOT QRUNNING\<rparr>)\<rparr>"
  let ?w = "F_ISSET (q_flag Q AND NOT QRUNNING) QWAITING \<and> q_wakeup_sem Q \<noteq> NULL"
  have "?s = ?s\<lparr>sems := sems s\<rparr>" by simp
  then have "run_done q s =
    Some (?w, ?s\<lparr>sems := (if ?w then (sems s)(q_wakeup_sem Q := sems s (q_wakeup_sem Q) + 1) else sems s)\<rparr>)"
    using assms by (simp add: run_done_def lis_simps)
  then show ?thesis by (simp only: ex_simps) blast
qed

lemma lis_retry_runlist:
  assumes ok: "sched_ok s" and rl: "runlist s xs R" and Q: "qs s q = Some Q" "q \<noteq> NULL"
  shows "\<exists>t b. lis_retry_qenable q s = Some t \<and> sched_eq s t \<and> sched_ok t \<and>
    runlist t (if b then xs @ [q] else xs) R \<and> (b \<longrightarrow> flagged QWANTENAB s q \<and> \<not> flagged QWANTENAB t q) \<and>
    (\<forall>p. flagged QWANTENAB t p \<longrightarrow> flagged QWANTENAB s p)"
proof (cases "F_ISSET (q_flag Q) QWANTENAB \<and> \<not> F_ISSET (q_flag Q) Q_INH_ENABLE")
  case False
  then have "lis_retry_qenable q s = Some s" using Q by (auto simp: lis_retry_qenable_def)
  with ok rl show ?thesis by (intro exI[of _ s] exI[of _ False]) simp
next
  case True
  let ?Q = "Q\<lparr>q_flag := q_flag Q AND NOT QWANTENAB\<rparr>"
  let ?s = "s\<lparr>qs := (qs s)(q \<mapsto> ?Q)\<rparr>"
  obtain u where u: "upd_q q (\<lambda>Q. Q\<lparr>q_flag := q_flag Q AND NOT QWANTENAB\<rparr>) s = Some u" "sched_eq s u"
    using upd_q_sched[OF Q(1), of "\<lambda>Q. Q\<lparr>q_flag := q_flag Q AND NOT QWANTENAB\<rparr>"] by auto
  have us: "u = ?s" using u(1) Q(1) by (simp add: lis_simps)
  have rl1: "runlist ?s xs R" by (rule runlist_flag[OF rl Q(1) want_not_enab(2)])
  have ok1: "sched_ok ?s" using ok u(2) unfolding us[symmetric]
    by (rule sched_ok_eq) (use ok in \<open>simp add: us sched_ok_def\<close>)
  have inh: "\<not> F_ISSET (q_flag ?Q) Q_INH_ENABLE"
    using True by (simp add: F_ISSET_def q_flag_defs and.assoc)
  obtain t where t: "lis_qenable q ?s = Some t" "sched_eq ?s t" "sched_ok t"
    "runlist t (if schedules ?Q then xs @ [q] else xs) R"
    "\<forall>p. flagged QWANTENAB t p \<longleftrightarrow> flagged QWANTENAB ?s p \<or>
       p = q \<and> can_run ?Q \<and> F_ISSET (q_flag ?Q) Q_INH_ENABLE \<and> F_ISSET (q_flag ?Q) Q_DEFER_ENABLE"
    using lis_qenable_runlist[OF ok1 rl1 _ Q(2), of ?Q] by auto
  have "flagged QWANTENAB ?s p \<longleftrightarrow> p \<noteq> q \<and> flagged QWANTENAB s p" for p
    by (simp add: flagged_def F_ISSET_cleared)
  with t(5) inh have W: "flagged QWANTENAB t p \<longleftrightarrow> p \<noteq> q \<and> flagged QWANTENAB s p" for p by blast
  have "lis_retry_qenable q s = Some t" using True Q t(1) by (simp add: lis_retry_qenable_def lis_simps)
  with t(3,4) W True Q sched_eq_trans[OF u(2)[unfolded us] t(2)] show ?thesis
    by (intro exI[of _ t] exI[of _ "schedules ?Q"]) auto
qed

text \<open>Giving back the stream head after the service procedure.\<close>

lemma lis_head_put_spec:
  assumes "sds s str = Some h"
  shows "\<exists>t. (if sd_magic h = STDATA_MAGIC \<and> (sd_wq h = q \<or> sd_rq h = q)
      then do { (_, s) \<leftarrow> lis_head_put str s; Some s } else Some s) = Some t \<and>
    qs t = qs s \<and> dom (sds t) = dom (sds s) \<and> qsyncs t = qsyncs s \<and> qhead t = qhead s \<and> qtail t = qtail s \<and>
    run_eq s t"
  using assms by (auto simp: lis_head_put_def lis_simps run_eq_def split: if_splits)

definition serviceable :: "lis \<Rightarrow> ptr \<Rightarrow> bool" where
  "serviceable s p \<longleftrightarrow> (\<exists>Q. qs s p = Some Q \<and> p \<noteq> NULL \<and> q_magic Q = Q_MAGIC \<and> q_str Q \<noteq> NULL \<and>
     sds s (q_str Q) \<noteq> None \<and> lockable s Q)"

lemma serviceable_agree:
  assumes "serviceable s p" "agree s t" "qsyncs t = qsyncs s"
  shows "serviceable t p"
proof -
  obtain Q where Q: "qs s p = Some Q" "p \<noteq> NULL" "q_magic Q = Q_MAGIC" "q_str Q \<noteq> NULL"
    "sds s (q_str Q) \<noteq> None" "lockable s Q" using assms(1) by (auto simp: serviceable_def)
  have "map_option run_view (qs t p) = Some (run_view Q)" using assms(2) Q(1) by (simp add: agree_def)
  then obtain P where P: "qs t p = Some P" "run_view P = run_view Q" by (auto simp del: not_None_eq)
  moreover have "sds t (q_str Q) \<noteq> None" using Q(5) assms(2) unfolding agree_def by (metis domIff)
  ultimately show ?thesis using Q assms(3) by (auto simp: serviceable_def run_view_def lockable_def)
qed

lemma run_eq_view:
  assumes "agree s t" "qs s p = Some Q"
  obtains P where "qs t p = Some P" "run_view P = run_view Q"
proof -
  have "map_option run_view (qs t p) = Some (run_view Q)" using assms by (simp add: agree_def)
  with that show ?thesis by (auto simp del: not_None_eq)
qed

text \<open>
  \<open>ran s q xs t\<close>: the queue was served; it is listed again exactly when it had asked for that, and
  the request is then taken back.
\<close>

definition ran :: "lis \<Rightarrow> ptr \<Rightarrow> ptr list \<Rightarrow> lis \<Rightarrow> bool" where
  "ran s q xs t \<longleftrightarrow> (\<exists>b. runlist t (if b then xs @ [q] else xs) {} \<and>
     (b \<longrightarrow> flagged QWANTENAB s q \<and> \<not> flagged QWANTENAB t q)) \<and>
     (\<forall>p. flagged QWANTENAB t p \<longrightarrow> flagged QWANTENAB s p)"

text \<open>The second half of \<open>run_one\<close>: unlock, wake up or list again, give back the stream head.\<close>

lemma run_tail:
  assumes rl: "runlist s xs {}" and ok: "sched_ok s" and Q: "qs s q = Some Q" "q \<noteq> NULL"
    and str: "sds s str \<noteq> None" and ul: "lis_unlockq cur q s = Some (s\<lparr>qsyncs := y\<rparr>)"
  shows "\<exists>t. do { s \<leftarrow> lis_unlockq cur q s;
       (woken, s) \<leftarrow> run_done q s;
       Q \<leftarrow> qs s q;
       s \<leftarrow> (if \<not> woken \<and> F_ISSET (q_flag Q) QWANTENAB then lis_retry_qenable q s else Some s);
       h \<leftarrow> sds s str;
       if sd_magic h = STDATA_MAGIC \<and> (sd_wq h = q \<or> sd_rq h = q)
       then do { (_, s) \<leftarrow> lis_head_put str s; Some s }
       else Some s } = Some t \<and> run_eq s t \<and> qsyncs t = y \<and> sched_ok t \<and> ran s q xs t"
    (is "\<exists>t. ?run = Some t \<and> _ t")
proof -
  let ?Q = "Q\<lparr>q_flag := q_flag Q AND NOT QRUNNING\<rparr>"
  obtain w x where d: "run_done q (s\<lparr>qsyncs := y\<rparr>) =
      Some (w, (s\<lparr>qsyncs := y\<rparr>)\<lparr>qs := (qs s)(q \<mapsto> ?Q), sems := x\<rparr>)" (is "_ = Some (w, ?s)")
    using run_done_spec[of "s\<lparr>qsyncs := y\<rparr>" q Q] Q(1) by auto
  have qs: "qs ?s q = Some ?Q" by simp
  have re: "run_eq s ?s" by (rule run_eq_upd[OF Q(1), of ?Q]) simp_all
  have rl1: "runlist ?s xs {}"
  proof (rule runlist_cong[OF runlist_flag[OF rl Q(1) want_not_enab(3)]])
  qed (simp_all add: qlinkf_def flagged_def)
  have ok1: "sched_ok ?s" by (rule sched_ok_agree[OF ok run_eq_agree[OF re] rl1])
  have W: "flagged QWANTENAB ?s p = flagged QWANTENAB s p" for p
    using Q(1) by (simp add: flagged_def F_ISSET_def q_flag_defs and.assoc)
  obtain u b where u: "(if \<not> w \<and> F_ISSET (q_flag ?Q) QWANTENAB then lis_retry_qenable q ?s else Some ?s) = Some u"
    "sched_eq ?s u" "sched_ok u" "runlist u (if b then xs @ [q] else xs) {}"
    "b \<longrightarrow> flagged QWANTENAB ?s q \<and> \<not> flagged QWANTENAB u q"
    "\<forall>p. flagged QWANTENAB u p \<longrightarrow> flagged QWANTENAB ?s p"
  proof (cases "\<not> w \<and> F_ISSET (q_flag ?Q) QWANTENAB")
    case True
    then have eq: "(if \<not> w \<and> F_ISSET (q_flag ?Q) QWANTENAB then lis_retry_qenable q ?s else Some ?s) =
      lis_retry_qenable q ?s" by (rule if_P)
    obtain u b where rr: "lis_retry_qenable q ?s = Some u" "sched_eq ?s u" "sched_ok u"
      "runlist u (if b then xs @ [q] else xs) {}" "b \<longrightarrow> flagged QWANTENAB ?s q \<and> \<not> flagged QWANTENAB u q"
      "\<forall>p. flagged QWANTENAB u p \<longrightarrow> flagged QWANTENAB ?s p"
      using lis_retry_runlist[OF ok1 rl1 qs Q(2)] by (elim exE conjE)
    show ?thesis by (rule that[OF trans[OF eq rr(1)] rr(2-6)])
  next
    case False
    then have eq: "(if \<not> w \<and> F_ISSET (q_flag ?Q) QWANTENAB then lis_retry_qenable q ?s else Some ?s) = Some ?s"
      by (rule if_not_P)
    show ?thesis by (rule that[where b = False, OF eq sched_eq_refl ok1]) (use rl1 in simp_all)
  qed
  have re2: "run_eq s u" by (rule run_eq_trans[OF re sched_run_eq[OF u(2)]])
  have "str \<in> dom (sds u)" using str re2 unfolding run_eq_def by (simp add: domIff)
  then obtain h where h: "sds u str = Some h" by blast
  obtain t where t: "(if sd_magic h = STDATA_MAGIC \<and> (sd_wq h = q \<or> sd_rq h = q)
      then do { (_, s) \<leftarrow> lis_head_put str u; Some s } else Some u) = Some t"
    "qs t = qs u" "dom (sds t) = dom (sds u)" "qsyncs t = qsyncs u" "qhead t = qhead u" "qtail t = qtail u"
    "run_eq u t" using lis_head_put_spec[OF h, of q] by (elim exE conjE) (rule that)
  have "?run = Some t"
    unfolding ul bind.bind_lunit d prod.case qs u(1) h t(1) ..
  moreover have "run_eq s t" by (rule run_eq_trans[OF re2 t(7)])
  moreover have "qsyncs t = y" using t(4) sched_only_more[OF sched_eq_only[OF u(2)]] by simp
  moreover have fl: "flagged v t = flagged v u" for v by (simp add: flagged_def t(2) fun_eq_iff)
  have rlt: "runlist t (if b then xs @ [q] else xs) {}"
    by (rule runlist_cong[OF u(4) t(5,6)]) (simp_all add: qlinkf_def t(2) fl)
  have "ran s q xs t" unfolding ran_def fl using rlt u(5,6) W by blast
  moreover have "sched_ok t" by (rule sched_ok_agree[OF u(3) run_eq_agree[OF t(7)] rlt])
  ultimately show ?thesis by blast
qed

lemma run_one_spec:
  assumes rl: "runlist s xs {q}" and sv: "serviceable s q" and ok: "sched_ok s" and J: "J s"
    and srv: "serves e J" and cur: "e_cur e \<noteq> NULL"
  shows "\<exists>t. run_one e q s = Some t \<and> agree s t \<and> qsyncs t = qsyncs s \<and> J t \<and> sched_ok t \<and> ran s q xs t"
proof -
  obtain Q where Q: "qs s q = Some Q" "q \<noteq> NULL" "q_magic Q = Q_MAGIC" "q_str Q \<noteq> NULL"
    "sds s (q_str Q) \<noteq> None" "lockable s Q" using sv by (auto simp: serviceable_def)
  have stable: "J u" if "J v" "run_eq v u" for v u using srv that unfolding serves_def by blast
  let ?Q1 = "Q\<lparr>q_flag := q_flag Q AND NOT QENAB\<rparr>"
  let ?s1 = "s\<lparr>qs := (qs s)(q \<mapsto> ?Q1)\<rparr>"
  have noE: "\<not> F_ISSET (q_flag Q AND NOT QENAB) QENAB" by (rule F_ISSET_cleared) simp
  have rl1: "runlist ?s1 xs {}" using runlist_clear[OF rl _ Q(1) noE] by simp
  have lk: "lockable ?s1 ?Q1" using Q(6) by (simp add: lockable_def F_ISSET_def q_flag_defs and.assoc)
  obtain l where l: "lis_lockq (e_cur e) q ?s1 = Some (0, ?s1\<lparr>qsyncs := l\<rparr>)"
    "\<And>u P. qsyncs u = l \<Longrightarrow> qs u q = Some P \<Longrightarrow> q_qsp P = q_qsp ?Q1 \<Longrightarrow>
       lis_unlockq (e_cur e) q u = Some (u\<lparr>qsyncs := qsyncs ?s1\<rparr>)"
    using lock_unlock[OF cur Q(2) _ lk] by auto
  define s2 where "s2 = LisDownCount QSCHEDS (?s1\<lparr>qsyncs := l\<rparr>)"
  have f2: "qs s2 = (qs s)(q \<mapsto> ?Q1)" "sds s2 = sds s" "qhead s2 = qhead s" "qtail s2 = qtail s" "qsyncs s2 = l"
    "mb s2 = mb s" "db s2 = db s" "qbands s2 = qbands s" "mem s2 = mem s" "kmem s2 = kmem s"
    unfolding s2_def by (subst stats_set_eq, simp)+
  have re2: "run_eq s s2" by (rule run_eq_upd[OF Q(1), of ?Q1]) (simp_all add: f2)
  have rl2: "runlist s2 xs {}" by (rule runlist_cong[OF rl1]) (simp_all add: f2 qlinkf_def flagged_def)
  have qs2: "qs s2 q = Some ?Q1" by (simp add: f2)
  obtain s3 where s3: "call_srvp e q (F_ISSET (q_flag ?Q1) QPROCSOFF) s2 = Some s3" "quiet s2 s3" "J s3"
    using call_srvp_spec[OF srv stable[OF J re2] qs2] by blast
  have ag3: "agree s s3" using agree_trans[OF run_eq_agree[OF re2]] s3(2) by (simp add: quiet_def)
  have rl3: "runlist s3 xs {}" by (rule runlist_quiet[OF rl2 s3(2)])
  obtain Q3 where Q3: "qs s3 q = Some Q3" "run_view Q3 = run_view Q" by (rule run_eq_view[OF ag3 Q(1)])
  have ul: "lis_unlockq (e_cur e) q s3 = Some (s3\<lparr>qsyncs := qsyncs s\<rparr>)"
    using l(2)[OF _ Q3(1)] Q3(2) s3(2) f2(5) by (simp add: run_view_def quiet_def)
  define sh where "sh = q_str Q"
  have str: "sds s3 sh \<noteq> None" using Q(5) ag3 unfolding agree_def domIff[symmetric] sh_def by simp
  obtain t where t: "do { s \<leftarrow> lis_unlockq (e_cur e) q s3;
       (woken, s) \<leftarrow> run_done q s;
       Q \<leftarrow> qs s q;
       s \<leftarrow> (if \<not> woken \<and> F_ISSET (q_flag Q) QWANTENAB then lis_retry_qenable q s else Some s);
       h \<leftarrow> sds s sh;
       if sd_magic h = STDATA_MAGIC \<and> (sd_wq h = q \<or> sd_rq h = q)
       then do { (_, s) \<leftarrow> lis_head_put sh s; Some s }
       else Some s } = Some t"
    "run_eq s3 t" "qsyncs t = qsyncs s" "sched_ok t" "ran s3 q xs t"
    using run_tail[OF rl3 sched_ok_agree[OF ok ag3 rl3] Q3(1) Q(2) str ul] by blast
  have str1: "q_str ?Q1 = sh" by (simp add: sh_def)
  have q1: "qs ?s1 q = Some ?Q1" by simp
  have "run_one e q s = Some t"
    unfolding run_one_def Q(1) bind.bind_lunit upd_q_Some[OF Q(1)] l(1) prod.case s2_def[symmetric] Let_def q1 str1
    using Q(3) s3(1) t(1) by simp
  moreover have W: "flagged QWANTENAB s3 p = flagged QWANTENAB s p" for p
  proof -
    have "flagged QWANTENAB s3 p = flagged QWANTENAB s2 p"
      by (rule flagged_quiet[OF s3(2)]) (simp add: RUN_FLAGS_def q_flag_defs)
    also have "\<dots> = flagged QWANTENAB s p"
      using Q(1) by (simp add: flagged_def f2 F_ISSET_def q_flag_defs and.assoc)
    finally show ?thesis .
  qed
  have "ran s q xs t" using t(5) unfolding ran_def W .
  ultimately show ?thesis
    using t(3,4) stable[OF s3(3) t(2)] agree_trans[OF ag3 run_eq_agree[OF t(2)]] by blast
qed

subsection \<open>Running the list empty\<close>

text \<open>The services still due: one for each listed queue, one more where it was asked for again.\<close>

definition due :: "lis \<Rightarrow> ptr list \<Rightarrow> nat" where
  "due s xs = (\<Sum>x\<leftarrow>xs. if flagged QWANTENAB s x then 2 else 1)"

lemma due_mono: "\<forall>p. flagged QWANTENAB t p \<longrightarrow> flagged QWANTENAB s p \<Longrightarrow> due t xs \<le> due s xs"
  unfolding due_def by (rule sum_list_mono) simp

lemma ran_due:
  assumes "ran s q xs t"
  shows "\<exists>ys. runlist t ys {} \<and> set ys \<subseteq> set (q # xs) \<and> due t ys < due s (q # xs)"
proof -
  obtain b where b: "runlist t (if b then xs @ [q] else xs) {}"
    "b \<longrightarrow> flagged QWANTENAB s q \<and> \<not> flagged QWANTENAB t q"
    "\<forall>p. flagged QWANTENAB t p \<longrightarrow> flagged QWANTENAB s p" using assms by (auto simp: ran_def)
  have "due t xs \<le> due s xs" by (rule due_mono[OF b(3)])
  then have "due t (if b then xs @ [q] else xs) < due s (q # xs)"
    using b(2) by (auto simp: due_def)
  with b(1) show ?thesis by (intro exI[of _ "if b then xs @ [q] else xs"]) auto
qed

lemma run_loop_spec:
  assumes "runlist s xs {}" "\<forall>x\<in>set xs. serviceable s x" "sched_ok s" "J s" "serves e J" "e_cur e \<noteq> NULL"
  shows "\<exists>t. run_loop e s = Some t \<and> runlist t [] {} \<and> agree s t \<and> qsyncs t = qsyncs s \<and> J t \<and> sched_ok t"
  using assms(1-4)
proof (induction "due s xs" arbitrary: s xs rule: less_induct)
  case less
  show ?case
  proof (cases xs)
    case Nil
    then have "run_loop e s = Some s" using runlist_empty[OF less.prems(1)] by (simp add: run_loop.simps)
    with Nil less.prems show ?thesis by simp
  next
    case (Cons q ys)
    have hd: "qhead s \<noteq> NULL" using runlist_empty[OF less.prems(1)] Cons by simp
    obtain u Q where u: "runq_take s = Some (q, u)" "qsyncs u = qsyncs s" "runlist u ys {q}" "run_eq s u"
      "\<forall>p. flagged QWANTENAB u p = flagged QWANTENAB s p"
      using runq_take_spec[of s q ys "{}"] less.prems(1) Cons by blast
    note agu = run_eq_agree[OF u(4)]
    have sv: "\<forall>x\<in>set xs. serviceable u x" using less.prems(2) serviceable_agree[OF _ agu u(2)] by blast
    have "J u" using less.prems(4) u(4) assms(5) unfolding serves_def by blast
    moreover have "sched_ok u" by (rule sched_ok_agree[OF less.prems(3) agu u(3)])
    ultimately obtain v where v: "run_one e q u = Some v" "agree u v" "qsyncs v = qsyncs u" "J v" "sched_ok v"
      "ran u q ys v" using run_one_spec[OF u(3) _ _ _ assms(5,6)] sv Cons by auto
    obtain zs where zs: "runlist v zs {}" "set zs \<subseteq> set xs" "due v zs < due u xs"
      using ran_due[OF v(6)] Cons by auto
    have "due u xs = due s xs" using u(5) by (simp add: due_def)
    with zs(3) have less1: "due v zs < due s xs" by simp
    have sv2: "\<forall>x\<in>set zs. serviceable v x" using sv zs(2) serviceable_agree[OF _ v(2,3)] by blast
    obtain t where t: "run_loop e v = Some t" "runlist t [] {}" "agree v t" "qsyncs t = qsyncs v" "J t" "sched_ok t"
      using less.hyps[OF less1 zs(1) sv2 v(5,4)] by blast
    have "run_loop e s = Some t" using hd u(1) v(1) t(1) by (simp add: run_loop.simps)
    with t v(3) u(2) agree_trans[OF agu agree_trans[OF v(2) t(3)]] show ?thesis by auto
  qed
qed

end
