(* ===== verification/LiS_Events.thy ===== *)
theory LiS_Events
  imports LiS_EventOps
begin

text \<open>
  What the operations on the lists of processes that asked for signals promise.  Such a list is a finite map from
  processes to event masks; the four operations are its lookup, the addition of events to a process,
  their removal, and its destruction.
\<close>

unbundle bit_operations_syntax

subsection \<open>The list as a map\<close>

definition ev_links :: "evst \<Rightarrow> ptr \<Rightarrow> (ptr \<times> ptr) option" where
  "ev_links s p = map_option (\<lambda>e. (se_next e, se_prev e)) (ev_heap s p)"

definition ev_key :: "evst \<Rightarrow> ptr \<Rightarrow> int" where
  "ev_key s p = (case ev_heap s p of None \<Rightarrow> 0 | Some e \<Rightarrow> se_pid e)"

definition ev_mask :: "evst \<Rightarrow> ptr \<Rightarrow> u16" where
  "ev_mask s p = (case ev_heap s p of None \<Rightarrow> 0 | Some e \<Rightarrow> se_evs e)"

text \<open>A circular list \<open>xs\<close> through the head \<open>h\<close>.\<close>

definition ring :: "(ptr \<Rightarrow> (ptr \<times> ptr) option) \<Rightarrow> ptr \<Rightarrow> ptr list \<Rightarrow> bool" where
  "ring L h xs \<longleftrightarrow> h \<noteq> NULL \<and> h \<notin> set xs \<and> distinct xs \<and> (\<exists>f l. L h = Some (f, l) \<and> dl L h f xs l h)"

definition elist :: "evst \<Rightarrow> ptr \<Rightarrow> ptr list \<Rightarrow> bool" where
  "elist s h xs \<longleftrightarrow> ring (ev_links s) h xs \<and> sorted_wrt (<) (map (ev_key s) xs)"

text \<open>The map: a process without a node has no entry.\<close>

definition ev_map :: "evst \<Rightarrow> ptr list \<Rightarrow> int \<Rightarrow> u16 option" where
  "ev_map s xs = map_of (map (\<lambda>x. (ev_key s x, ev_mask s x)) xs)"

subsection \<open>Circular lists\<close>

text \<open>The neighbours of a place in the ring.\<close>

abbreviation (input) before :: "ptr \<Rightarrow> ptr list \<Rightarrow> ptr" where "before h as \<equiv> last (h # as)"
abbreviation (input) at :: "ptr list \<Rightarrow> ptr \<Rightarrow> ptr" where "at bs h \<equiv> hd (bs @ [h])"

lemma ring_neighbours:
  assumes "ring L h (as @ bs)"
  obtains n p where "L (at bs h) = Some (n, before h as)" "L (before h as) = Some (at bs h, p)"
    "at bs h = before h as \<longrightarrow> n = h \<and> p = h"
  using assms by (cases as rule: rev_cases; cases bs) (auto simp: ring_def dl_mid dl_snoc)

lemma ring_insert:
  assumes "ring L h (as @ bs)" "x \<noteq> NULL" "x \<notin> set (h # as @ bs)"
    and "L (at bs h) = Some (n, before h as)" "L (before h as) = Some (at bs h, p)"
  shows "ring (if at bs h = before h as then L(x \<mapsto> (h, h), h \<mapsto> (x, x))
    else L(x \<mapsto> (at bs h, before h as), before h as \<mapsto> (x, p), at bs h \<mapsto> (n, x))) h (as @ x # bs)"
  using assms by (cases as rule: rev_cases; cases bs) (auto simp: ring_def dl_mid dl_snoc)

lemma ring_remove:
  assumes "ring L h (as @ x # bs)"
  shows "\<exists>n p. L x = Some (at bs h, before h as) \<and> L (at bs h) = Some (n, x) \<and> L (before h as) = Some (x, p) \<and>
    ring ((if at bs h = before h as then L(h \<mapsto> (h, h))
      else L(before h as \<mapsto> (at bs h, p), at bs h \<mapsto> (n, before h as)))(x := None)) h (as @ bs)"
  using assms by (cases as rule: rev_cases; cases bs) (auto simp: ring_def dl_mid dl_snoc)

lemma ring_first: "ring L h xs \<Longrightarrow> map_option fst (L h) = Some (at xs h)"
  by (cases xs) (auto simp: ring_def)

subsection \<open>Searching\<close>

lemma ev_linksD: "ev_links s p = Some (n, v) \<Longrightarrow> \<exists>e. ev_heap s p = Some e \<and> se_next e = n \<and> se_prev e = v"
  by (auto simp: ev_links_def)

lemma elist_find_dl:
  "dl (ev_links s) k p xs l h \<Longrightarrow> h \<notin> set xs \<Longrightarrow>
    elist_find h pid p s = Some (at (dropWhile (\<lambda>x. ev_key s x < pid) xs) h)"
proof (induction xs arbitrary: k p)
  case Nil
  then show ?case by (simp add: elist_find.simps)
next
  case (Cons x xs)
  then obtain n where n: "p = x" "ev_links s x = Some (n, k)" "dl (ev_links s) x n xs l h" "h \<noteq> x" by auto
  from ev_linksD[OF n(2)] obtain e where e: "ev_heap s x = Some e" "se_next e = n" by blast
  then have "ev_key s x = se_pid e" by (simp add: ev_key_def)
  with Cons.IH[OF n(3)] Cons.prems(2) n e show ?case by (auto simp: elist_find.simps[of h pid x])
qed

lemma elist_find_spec:
  assumes "elist s h xs"
  shows "\<exists>e. ev_heap s h = Some e \<and>
    elist_find h pid (se_next e) s = Some (at (dropWhile (\<lambda>x. ev_key s x < pid) xs) h)"
proof -
  from assms obtain f l where fl: "ev_links s h = Some (f, l)" "dl (ev_links s) h f xs l h" "h \<notin> set xs"
    by (auto simp: elist_def ring_def)
  from ev_linksD[OF fl(1)] obtain e where "ev_heap s h = Some e" "se_next e = f" by blast
  with elist_find_dl[OF fl(2,3)] show ?thesis by blast
qed

text \<open>Where a process stands in a sorted list.\<close>

lemma elist_place:
  assumes "sorted_wrt (<) (map (k :: ptr \<Rightarrow> int) xs)"
  obtains (hit) as x bs where "xs = as @ x # bs" "k x = pid" "dropWhile (\<lambda>x. k x < pid) xs = x # bs"
    "\<forall>a\<in>set as. k a < pid" "\<forall>b\<in>set bs. pid < k b"
  | (miss) as bs where "xs = as @ bs" "dropWhile (\<lambda>x. k x < pid) xs = bs"
    "\<forall>a\<in>set as. k a < pid" "\<forall>b\<in>set bs. pid < k b"
proof -
  define as where "as = takeWhile (\<lambda>x. k x < pid) xs"
  define bs where "bs = dropWhile (\<lambda>x. k x < pid) xs"
  have xs: "xs = as @ bs" by (simp add: as_def bs_def)
  have as: "\<forall>a\<in>set as. k a < pid" unfolding as_def by (meson set_takeWhileD)
  show thesis
  proof (cases bs)
    case Nil
    then show ?thesis by (intro miss[OF xs bs_def[symmetric] as]) simp
  next
    case (Cons b cs)
    have b: "\<not> k b < pid" using Cons hd_dropWhile[of "\<lambda>x. k x < pid" xs] by (simp add: bs_def[symmetric])
    have cs: "\<forall>c\<in>set cs. k b < k c" using assms by (simp add: xs Cons sorted_wrt_append)
    show ?thesis
    proof (cases "k b = pid")
      case True
      have gt: "\<forall>c\<in>set cs. pid < k c" using cs True by simp
      show ?thesis by (rule hit[OF xs[unfolded Cons] True _ as gt]) (simp add: bs_def[symmetric] Cons)
    next
      case False
      with b cs have "\<forall>c\<in>set bs. pid < k c" using Cons by auto
      then show ?thesis by (rule miss[OF xs bs_def[symmetric] as])
    qed
  qed
qed

lemma map_of_none: "\<forall>x\<in>set xs. k x \<noteq> pid \<Longrightarrow> map_of (map (\<lambda>x. (k x, v x)) xs) pid = None"
  by (induction xs) auto

lemma ev_map_hit:
  assumes "xs = as @ x # bs" "ev_key s x = pid" "\<forall>a\<in>set as. ev_key s a < pid"
  shows "ev_map s xs pid = Some (ev_mask s x)"
proof -
  have "map_of (map (\<lambda>x. (ev_key s x, ev_mask s x)) as) pid = None"
    by (rule map_of_none) (use assms(3) in auto)
  then show ?thesis using assms(1,2) by (simp add: ev_map_def map_add_def)
qed

lemma ev_map_miss:
  assumes "xs = as @ bs" "\<forall>a\<in>set as. ev_key s a < pid" "\<forall>b\<in>set bs. pid < ev_key s b"
  shows "ev_map s xs pid = None"
  unfolding ev_map_def using assms by (intro map_of_none) auto

lemma at_dom: "ring L h (as @ bs) \<Longrightarrow> at bs h = h \<longleftrightarrow> bs = []"
  by (cases bs) (auto simp: ring_def)

lemma at_notnull: "ring L h (as @ bs) \<Longrightarrow> at bs h \<noteq> NULL"
  by (cases bs) (auto simp: ring_def dl_mid)

text \<open>Looking up.\<close>

lemma get_elist_spec:
  assumes "elist s h xs"
  shows "lis_get_elist_ent h pid s = Some (case ev_map s xs pid of None \<Rightarrow> 0 | Some m \<Rightarrow> m)"
proof -
  obtain e where e: "ev_heap s h = Some e"
    "elist_find h pid (se_next e) s = Some (at (dropWhile (\<lambda>x. ev_key s x < pid) xs) h)"
    using elist_find_spec[OF assms] by blast
  have r: "ring (ev_links s) h xs" "sorted_wrt (<) (map (ev_key s) xs)" using assms by (auto simp: elist_def)
  then have h: "h \<noteq> NULL" "h \<notin> set xs" by (auto simp: ring_def)
  have dom: "\<exists>e. ev_heap s x = Some e" if "x \<in> set xs" for x
    using r(1) that unfolding ring_def ev_links_def by (auto dest: dl_dom)
  from r(2) show ?thesis
  proof (cases rule: elist_place[of "ev_key s" xs pid])
    case (hit as x bs)
    then obtain f where "ev_heap s x = Some f" using dom[of x] by auto
    with hit(1,2) ev_map_hit[OF hit(1,2,4)] e(1) e(2)[unfolded hit(3)] h show ?thesis
      by (auto simp: lis_get_elist_ent_def ev_key_def ev_mask_def)
  next
    case (miss as bs)
    show ?thesis
    proof (cases bs)
      case Nil
      with ev_map_miss[OF miss(1,3,4)] e(1) e(2)[unfolded miss(2)] h show ?thesis by (simp add: lis_get_elist_ent_def)
    next
      case (Cons b cs)
      then obtain f where "ev_heap s b = Some f" using dom[of b] miss(1) by auto
      with Cons miss(1,4) ev_map_miss[OF miss(1,3,4)] e(1) e(2)[unfolded miss(2)] h show ?thesis
        by (auto simp: lis_get_elist_ent_def ev_key_def)
    qed
  qed
qed

subsection \<open>Adding events\<close>

lemma ev_map_mid:
  "\<forall>a\<in>set as. ev_key s a < ev_key s x \<Longrightarrow>
    ev_map s (as @ x # bs) = (ev_map s (as @ bs))(ev_key s x \<mapsto> ev_mask s x)"
  by (induction as) (auto simp: ev_map_def fun_upd_twist)

lemma ev_map_cong:
  "(\<And>y. y \<in> set xs \<Longrightarrow> ev_key t y = ev_key s y \<and> ev_mask t y = ev_mask s y) \<Longrightarrow> ev_map t xs = ev_map s xs"
  unfolding ev_map_def by (intro arg_cong[of _ _ map_of]) simp

lemma upd_ev_Some: "ev_heap s p = Some e \<Longrightarrow> upd_ev p f s = Some (s\<lparr>ev_heap := (ev_heap s)(p \<mapsto> f e)\<rparr>)"
  by (simp add: upd_ev_def)

text \<open>The keys and masks of all nodes but \<open>x\<close> are the same.\<close>

definition keeps :: "ptr \<Rightarrow> evst \<Rightarrow> evst \<Rightarrow> bool" where
  "keeps x s t \<longleftrightarrow> (\<forall>y. y \<noteq> x \<longrightarrow> ev_key t y = ev_key s y \<and> ev_mask t y = ev_mask s y)"

lemma elist_link_spec:
  assumes r: "ring (ev_links s) h (as @ bs)" and x: "ev_heap s x = Some X" "x \<noteq> NULL" "x \<notin> set (h # as @ bs)"
  shows "\<exists>t. elist_link x (at bs h) pid s = Some t \<and> ring (ev_links t) h (as @ x # bs) \<and> keeps x s t \<and>
    ev_heap t x \<noteq> None \<and> ev_key t x = pid \<and> ev_mask t x = 0"
proof -
  obtain n p where L: "ev_links s (at bs h) = Some (n, before h as)" "ev_links s (before h as) = Some (at bs h, p)"
    "at bs h = before h as \<longrightarrow> n = h \<and> p = h" using ring_neighbours[OF r] by blast
  obtain E K where E: "ev_heap s (at bs h) = Some E" "se_next E = n" "se_prev E = before h as"
    and K: "ev_heap s (before h as) = Some K" "se_next K = at bs h" "se_prev K = p"
    using ev_linksD[OF L(1)] ev_linksD[OF L(2)] by blast
  have ne: "x \<noteq> at bs h" "x \<noteq> before h as" using x(3) by (cases bs; cases as rule: rev_cases; auto)+
  note ins = ring_insert[OF r x(2,3) L(1,2)]
  show ?thesis
  proof (cases "at bs h = before h as")
    case True
    then have hh: "at bs h = h" "before h as = h"
      using r by (cases bs; cases as rule: rev_cases; auto simp: ring_def)+
    let ?X = "X\<lparr>se_prev := h, se_next := h, se_pid := pid, se_evs := 0\<rparr>"
    let ?E = "E\<lparr>se_next := x, se_prev := x\<rparr>"
    let ?t = "s\<lparr>ev_heap := (ev_heap s)(h \<mapsto> ?E, x \<mapsto> ?X)\<rparr>"
    have "elist_link x (at bs h) pid s = Some ?t"
      using E K x ne hh by (simp add: elist_link_def upd_ev_Some fun_upd_twist)
    moreover have "ev_links ?t = (ev_links s)(x \<mapsto> (h, h), h \<mapsto> (x, x))"
      using ne hh by (auto simp: ev_links_def fun_eq_iff)
    ultimately show ?thesis using ins True E(1) hh
      by (intro exI[of _ ?t]) (auto simp: keeps_def ev_key_def ev_mask_def)
  next
    case False
    let ?X = "X\<lparr>se_prev := before h as, se_next := at bs h, se_pid := pid, se_evs := 0\<rparr>"
    let ?t = "s\<lparr>ev_heap := (ev_heap s)(before h as \<mapsto> K\<lparr>se_next := x\<rparr>, at bs h \<mapsto> E\<lparr>se_prev := x\<rparr>, x \<mapsto> ?X)\<rparr>"
    have "elist_link x (at bs h) pid s = Some ?t"
      using E K x ne False by (simp add: elist_link_def upd_ev_Some fun_upd_twist)
    moreover have "ev_links ?t = (ev_links s)(x \<mapsto> (at bs h, before h as), before h as \<mapsto> (x, p), at bs h \<mapsto> (n, x))"
      using ne False E K by (auto simp: ev_links_def fun_eq_iff)
    ultimately show ?thesis using ins False E(1) K(1)
      by (intro exI[of _ ?t]) (auto simp: keeps_def ev_key_def ev_mask_def)
  qed
qed

text \<open>The allocator has a node.\<close>

definition ev_fresh :: "evst \<Rightarrow> bool" where
  "ev_fresh s \<longleftrightarrow> (\<exists>p ps. ev_mem s = p # ps \<and> p \<noteq> NULL \<and> ev_heap s p = None)"

lemma ring_heap:
  assumes "ring (ev_links s) h xs" "x \<in> insert h (set xs)"
  shows "\<exists>e. ev_heap s x = Some e"
  using assms unfolding ring_def ev_links_def by (auto dest: dl_dom)

lemma elist_insert:
  assumes el: "elist s h (as @ bs)" and place: "\<forall>a\<in>set as. ev_key s a < pid" "\<forall>b\<in>set bs. pid < ev_key s b"
    and new: "ev_alloc s = (x, u)" "x \<noteq> NULL" "ev_fresh s"
  shows "\<exists>t v. elist_link x (at bs h) pid u = Some v \<and> upd_ev x (\<lambda>n. n\<lparr>se_evs := se_evs n OR events\<rparr>) v = Some t \<and>
    elist t h (as @ x # bs) \<and> ev_map t (as @ x # bs) = (ev_map s (as @ bs))(pid \<mapsto> events)"
proof -
  have r: "ring (ev_links s) h (as @ bs)" "sorted_wrt (<) (map (ev_key s) (as @ bs))"
    using el by (auto simp: elist_def)
  have u: "ev_heap s x = None" "ev_heap u = (ev_heap s)(x \<mapsto> \<lparr>se_next = NULL, se_prev = NULL, se_pid = 0, se_evs = 0\<rparr>)"
    using new by (auto simp: ev_fresh_def ev_alloc_def)
  have x: "x \<notin> set (h # as @ bs)" using ring_heap[OF r(1), of x] u(1) by auto
  have Lu: "ring (ev_links u) h (as @ bs)"
  proof -
    have "ev_links u = (ev_links s)(x \<mapsto> (NULL, NULL))" using u by (auto simp: ev_links_def fun_eq_iff)
    then show ?thesis using r(1) x by (auto simp: ring_def)
  qed
  obtain v where v: "elist_link x (at bs h) pid u = Some v" "ring (ev_links v) h (as @ x # bs)" "keeps x u v"
    "ev_heap v x \<noteq> None" "ev_key v x = pid" "ev_mask v x = 0"
    using elist_link_spec[OF Lu _ new(2) x] u(2) by (metis fun_upd_same)
  then obtain X where X: "ev_heap v x = Some X" "se_pid X = pid" "se_evs X = 0"
    by (auto simp: ev_key_def ev_mask_def)
  let ?t = "v\<lparr>ev_heap := (ev_heap v)(x \<mapsto> X\<lparr>se_evs := se_evs X OR events\<rparr>)\<rparr>"
  have t: "upd_ev x (\<lambda>n. n\<lparr>se_evs := se_evs n OR events\<rparr>) v = Some ?t" by (rule upd_ev_Some[OF X(1)])
  have Lt: "ev_links ?t = ev_links v" using X(1) by (auto simp: ev_links_def fun_eq_iff)
  have kx: "ev_key ?t x = pid" "ev_mask ?t x = events" using X by (simp_all add: ev_key_def ev_mask_def)
  have ky: "ev_key ?t y = ev_key s y \<and> ev_mask ?t y = ev_mask s y" if "y \<in> set (as @ bs)" for y
  proof -
    have "y \<noteq> x" using that x by auto
    then show ?thesis using v(3) u(2) by (simp add: keeps_def ev_key_def ev_mask_def)
  qed
  have "ev_map ?t (as @ x # bs) = (ev_map ?t (as @ bs))(ev_key ?t x \<mapsto> ev_mask ?t x)"
    by (rule ev_map_mid) (use place(1) ky kx in simp)
  also have "ev_map ?t (as @ bs) = ev_map s (as @ bs)" by (rule ev_map_cong) (rule ky)
  finally have m: "ev_map ?t (as @ x # bs) = (ev_map s (as @ bs))(pid \<mapsto> events)" by (simp only: kx)
  have keys: "map (ev_key ?t) (as @ x # bs) = map (ev_key s) as @ pid # map (ev_key s) bs"
    using ky kx by simp
  have "sorted_wrt (<) (map (ev_key s) as @ pid # map (ev_key s) bs)"
    using r(2) place by (auto simp: sorted_wrt_append)
  then have "elist ?t h (as @ x # bs)" unfolding elist_def Lt keys using v(2) by blast
  with v(1) t m show ?thesis by blast
qed

lemma elist_mask:
  assumes el: "elist s h (as @ x # bs)" and X: "ev_heap s x = Some X"
    and t: "t = s\<lparr>ev_heap := (ev_heap s)(x \<mapsto> X\<lparr>se_evs := m\<rparr>)\<rparr>"
  shows "elist t h (as @ x # bs) \<and> ev_map t (as @ x # bs) = (ev_map s (as @ x # bs))(ev_key s x \<mapsto> m)"
proof -
  have k: "ev_key t = ev_key s" "ev_links t = ev_links s" "ev_mask t = (ev_mask s)(x := m)"
    using X by (auto simp: t ev_key_def ev_links_def ev_mask_def fun_eq_iff)
  have "x \<notin> set (as @ bs)" and lt: "\<forall>a\<in>set as. ev_key s a < ev_key s x"
    using el by (auto simp: elist_def ring_def sorted_wrt_append)
  then have "ev_map t (as @ bs) = ev_map s (as @ bs)" by (intro ev_map_cong) (auto simp: k)
  moreover have "ev_map t (as @ x # bs) = (ev_map t (as @ bs))(ev_key t x \<mapsto> ev_mask t x)"
    by (rule ev_map_mid) (use lt k in simp)
  moreover have "ev_map s (as @ x # bs) = (ev_map s (as @ bs))(ev_key s x \<mapsto> ev_mask s x)"
    by (rule ev_map_mid[OF lt])
  ultimately show ?thesis using el by (simp add: elist_def k)
qed

definition mask0 :: "u16 option \<Rightarrow> u16" where
  "mask0 m = (case m of None \<Rightarrow> 0 | Some v \<Rightarrow> v)"

text \<open>\<open>lis_add_to_elist\<close> on an existing list.\<close>

lemma add_elist_spec:
  assumes el: "elist s h xs" and room: "ev_map s xs pid \<noteq> None \<or> ev_fresh s"
  shows "\<exists>t ys. lis_add_to_elist h pid events s = Some (0, h, t) \<and> elist t h ys \<and>
    ev_map t ys = (ev_map s xs)(pid \<mapsto> mask0 (ev_map s xs pid) OR events)"
proof -
  obtain e where e: "ev_heap s h = Some e"
    "elist_find h pid (se_next e) s = Some (at (dropWhile (\<lambda>x. ev_key s x < pid) xs) h)"
    using elist_find_spec[OF el] by blast
  have r: "ring (ev_links s) h xs" "sorted_wrt (<) (map (ev_key s) xs)" using el by (auto simp: elist_def)
  then have h: "h \<noteq> NULL" "h \<notin> set xs" by (auto simp: ring_def)
  from r(2) show ?thesis
  proof (cases rule: elist_place[of "ev_key s" xs pid])
    case (hit as x bs)
    have nz: "x \<noteq> NULL" "x \<noteq> h" using r(1) hit(1) h(2) by (auto simp: ring_def dest: dl_nonzero)
    obtain X where X: "ev_heap s x = Some X" using ring_heap[OF r(1), of x] hit(1) by auto
    let ?t = "s\<lparr>ev_heap := (ev_heap s)(x \<mapsto> X\<lparr>se_evs := se_evs X OR events\<rparr>)\<rparr>"
    have pid: "se_pid X = pid" "mask0 (ev_map s xs pid) = se_evs X"
      using hit(2) X ev_map_hit[OF hit(1,2,4)] by (simp_all add: ev_key_def ev_mask_def mask0_def)
    have "lis_add_to_elist h pid events s = Some (0, h, ?t)"
      using e(1) e(2)[unfolded hit(3)] h X nz pid by (simp add: lis_add_to_elist_def upd_ev_Some)
    moreover have "elist ?t h xs \<and> ev_map ?t xs = (ev_map s xs)(pid \<mapsto> mask0 (ev_map s xs pid) OR events)"
      using elist_mask[OF el[unfolded hit(1)] X refl] unfolding hit(1)[symmetric] hit(2) pid(2) .
    ultimately show ?thesis by blast
  next
    case (miss as bs)
    note none = ev_map_miss[OF miss(1,3,4)]
    have "ev_fresh s" using room none by simp
    then obtain x u where new: "ev_alloc s = (x, u)" "x \<noteq> NULL" by (auto simp: ev_fresh_def ev_alloc_def)
    obtain t v where t: "elist_link x (at bs h) pid u = Some v"
      "upd_ev x (\<lambda>n. n\<lparr>se_evs := se_evs n OR events\<rparr>) v = Some t"
      "elist t h (as @ x # bs)" "ev_map t (as @ x # bs) = (ev_map s (as @ bs))(pid \<mapsto> events)"
      using elist_insert[OF el[unfolded miss(1)] miss(3,4) new \<open>ev_fresh s\<close>] by blast
    have "lis_add_to_elist h pid events s = Some (0, h, t)"
    proof (cases bs)
      case Nil
      with e(1) e(2)[unfolded miss(2)] h new t(1,2) show ?thesis by (simp add: lis_add_to_elist_def)
    next
      case (Cons b cs)
      then have "b \<in> set xs" using miss(1) by simp
      then obtain B where B: "ev_heap s b = Some B" using ring_heap[OF r(1)] by blast
      have "b \<noteq> NULL" "b \<noteq> h" using r(1) h(2) \<open>b \<in> set xs\<close> by (auto simp: ring_def dest: dl_nonzero)
      moreover have "se_pid B \<noteq> pid" using miss(4) Cons B by (simp add: ev_key_def)
      ultimately show ?thesis using e(1) e(2)[unfolded miss(2)] h new t(1,2) Cons B
        by (simp add: lis_add_to_elist_def)
    qed
    with t(3,4) none miss(1) show ?thesis by (auto simp: mask0_def)
  qed
qed

text \<open>Without memory for a new node: \<open>-ENOMEM\<close>, and the map is the same.\<close>

lemma add_elist_nomem:
  assumes el: "elist s h xs" and none: "ev_map s xs pid = None" "ev_mem s = []"
  shows "lis_add_to_elist h pid events s = Some (- ENOMEM_ev, h, s)"
proof -
  obtain e where e: "ev_heap s h = Some e"
    "elist_find h pid (se_next e) s = Some (at (dropWhile (\<lambda>x. ev_key s x < pid) xs) h)"
    using elist_find_spec[OF el] by blast
  have r: "ring (ev_links s) h xs" "sorted_wrt (<) (map (ev_key s) xs)" using el by (auto simp: elist_def)
  then have h: "h \<noteq> NULL" "h \<notin> set xs" by (auto simp: ring_def)
  have a: "ev_alloc s = (NULL, s)" using none(2) by (simp add: ev_alloc_def)
  from r(2) show ?thesis
  proof (cases rule: elist_place[of "ev_key s" xs pid])
    case (hit as x bs)
    with none(1) ev_map_hit[OF hit(1,2,4)] show ?thesis by simp
  next
    case (miss as bs)
    show ?thesis
    proof (cases bs)
      case Nil
      with e(1) e(2)[unfolded miss(2)] h a show ?thesis by (simp add: lis_add_to_elist_def)
    next
      case (Cons b cs)
      then have "b \<in> set xs" using miss(1) by simp
      then obtain B where B: "ev_heap s b = Some B" using ring_heap[OF r(1)] by blast
      then show ?thesis using miss(4) Cons B e(1) e(2)[unfolded miss(2)] h a
        by (simp add: lis_add_to_elist_def ev_key_def)
    qed
  qed
qed

text \<open>The first event of a stream makes the list.\<close>

lemma add_elist_first:
  assumes "ev_mem s = p # h # ps" "p \<noteq> NULL" "h \<noteq> NULL" "p \<noteq> h" "ev_heap s p = None" "ev_heap s h = None"
  shows "\<exists>t. lis_add_to_elist NULL pid events s = Some (0, h, t) \<and> elist t h [p] \<and>
    ev_map t [p] = [pid \<mapsto> events]"
proof -
  let ?P = "\<lparr>se_next = h, se_prev = h, se_pid = pid, se_evs = events\<rparr>"
  let ?H = "\<lparr>se_next = p, se_prev = p, se_pid = 0, se_evs = 0\<rparr>"
  let ?t = "s\<lparr>ev_mem := ps, ev_heap := (ev_heap s)(h \<mapsto> ?H, p \<mapsto> ?P)\<rparr>"
  have "lis_add_to_elist NULL pid events s = Some (0, h, ?t)"
    using assms by (simp add: lis_add_to_elist_def ev_alloc_def elist_link_def upd_ev_Some fun_upd_twist)
  moreover have "elist ?t h [p]" using assms by (simp add: elist_def ring_def ev_links_def)
  moreover have "ev_map ?t [p] = [pid \<mapsto> events]" by (simp add: ev_map_def ev_key_def ev_mask_def)
  ultimately show ?thesis by blast
qed

subsection \<open>Deleting events\<close>

lemma keeps_unlinked:
  assumes "ev_heap s a = Some N" "ev_heap s b = Some P"
  shows "keeps x s (ev_free x (s\<lparr>ev_heap := (ev_heap s)(a \<mapsto> N\<lparr>se_prev := v\<rparr>, b \<mapsto> P\<lparr>se_next := w\<rparr>)\<rparr>))"
  using assms by (cases "a = b") (auto simp: keeps_def ev_free_def ev_key_def ev_mask_def)

text \<open>Unlinking a node from the ring, as the code does it.\<close>

lemma elist_unlink:
  assumes r: "ring (ev_links s) h (as @ x # bs)" and X: "ev_heap s x = Some X"
  shows "\<exists>u t. (if se_next X \<noteq> NULL then upd_ev (se_next X) (\<lambda>n. n\<lparr>se_prev := se_prev X\<rparr>) s else Some s) = Some u \<and>
    ev_heap u x = Some X \<and>
    (if se_prev X \<noteq> NULL then upd_ev (se_prev X) (\<lambda>n. n\<lparr>se_next := se_next X\<rparr>) u else Some u) = Some t \<and>
    ring (ev_links (ev_free x t)) h (as @ bs) \<and> keeps x s (ev_free x t) \<and> ev_heap (ev_free x t) x = None"
proof -
  obtain n p where L: "ev_links s x = Some (at bs h, before h as)" "ev_links s (at bs h) = Some (n, x)"
    "ev_links s (before h as) = Some (x, p)"
    "ring ((if at bs h = before h as then (ev_links s)(h \<mapsto> (h, h))
      else (ev_links s)(before h as \<mapsto> (at bs h, p), at bs h \<mapsto> (n, before h as)))(x := None)) h (as @ bs)"
    using ring_remove[OF r] by blast
  obtain N P where N: "ev_heap s (at bs h) = Some N" "se_next N = n" "se_prev N = x"
    and P: "ev_heap s (before h as) = Some P" "se_next P = x" "se_prev P = p"
    using ev_linksD[OF L(2)] ev_linksD[OF L(3)] by blast
  have X': "se_next X = at bs h" "se_prev X = before h as" using X L(1) by (auto simp: ev_links_def)
  have ne: "at bs h \<noteq> x" "before h as \<noteq> x" "at bs h \<noteq> NULL" "before h as \<noteq> NULL"
    using r by (cases bs; cases as rule: rev_cases; auto simp: ring_def dl_mid)+
  show ?thesis
  proof (cases "at bs h = before h as")
    case True
    then have hh: "at bs h = h" "before h as = h"
      using r by (cases bs; cases as rule: rev_cases; auto simp: ring_def)+
    let ?u = "s\<lparr>ev_heap := (ev_heap s)(h \<mapsto> N\<lparr>se_prev := h\<rparr>)\<rparr>"
    let ?t = "s\<lparr>ev_heap := (ev_heap s)(h \<mapsto> N\<lparr>se_prev := h, se_next := h\<rparr>)\<rparr>"
    have "ev_links (ev_free x ?t) = ((ev_links s)(h \<mapsto> (h, h)))(x := None)"
      using ne hh by (auto simp: ev_links_def ev_free_def fun_eq_iff)
    then show ?thesis using L(4) True hh N P X X' ne
      by (intro exI[of _ ?u] exI[of _ ?t])
         (auto simp: upd_ev_Some keeps_def ev_free_def ev_key_def ev_mask_def)
  next
    case False
    let ?u = "s\<lparr>ev_heap := (ev_heap s)(at bs h \<mapsto> N\<lparr>se_prev := before h as\<rparr>)\<rparr>"
    let ?t = "s\<lparr>ev_heap := (ev_heap s)(at bs h \<mapsto> N\<lparr>se_prev := before h as\<rparr>, before h as \<mapsto> P\<lparr>se_next := at bs h\<rparr>)\<rparr>"
    have "ev_links (ev_free x ?t) = ((ev_links s)(before h as \<mapsto> (at bs h, p), at bs h \<mapsto> (n, before h as)))(x := None)"
      using ne False N P by (auto simp: ev_links_def ev_free_def fun_eq_iff)
    then have "ring (ev_links (ev_free x ?t)) h (as @ bs)" using L(4) False by simp
    moreover have "keeps x s (ev_free x ?t)"
      by (rule keeps_unlinked[OF N(1) P(1)])
    moreover have "(if se_next X \<noteq> NULL then upd_ev (se_next X) (\<lambda>n. n\<lparr>se_prev := se_prev X\<rparr>) s else Some s) = Some ?u"
      using ne(3) N(1) unfolding X' by (simp add: upd_ev_Some)
    moreover have "(if se_prev X \<noteq> NULL then upd_ev (se_prev X) (\<lambda>n. n\<lparr>se_next := se_next X\<rparr>) ?u else Some ?u) = Some ?t"
      using ne(4) P(1) False unfolding X' by (simp add: upd_ev_Some)
    moreover have "ev_heap ?u x = Some X" "ev_heap (ev_free x ?t) x = None" using X ne(1) by (simp_all add: ev_free_def)
    ultimately show ?thesis by blast
  qed
qed

text \<open>The map without the given events: an entry left with no event disappears.\<close>

definition del_events :: "(int \<Rightarrow> u16 option) \<Rightarrow> int \<Rightarrow> u16 \<Rightarrow> int \<Rightarrow> u16 option" where
  "del_events M pid events = (case M pid of
     None \<Rightarrow> M
   | Some m \<Rightarrow> M(pid := (if m AND NOT events = 0 then None else Some (m AND NOT events))))"

lemma del_elist_spec:
  assumes el: "elist s h xs"
  shows "\<exists>t ys. lis_del_from_elist h pid events s = Some (if ev_map s xs pid = None then 1 else 0, t) \<and>
    elist t h ys \<and> ev_map t ys = del_events (ev_map s xs) pid events"
proof -
  obtain e where e: "ev_heap s h = Some e"
    "elist_find h pid (se_next e) s = Some (at (dropWhile (\<lambda>x. ev_key s x < pid) xs) h)"
    using elist_find_spec[OF el] by blast
  have r: "ring (ev_links s) h xs" "sorted_wrt (<) (map (ev_key s) xs)" using el by (auto simp: elist_def)
  then have h: "h \<noteq> NULL" "h \<notin> set xs" by (auto simp: ring_def)
  from r(2) show ?thesis
  proof (cases rule: elist_place[of "ev_key s" xs pid])
    case (miss as bs)
    note none = ev_map_miss[OF miss(1,3,4)]
    have "lis_del_from_elist h pid events s = Some (1, s)"
    proof (cases bs)
      case Nil
      with e(1) e(2)[unfolded miss(2)] h show ?thesis by (simp add: lis_del_from_elist_def)
    next
      case (Cons b cs)
      then have "b \<in> set xs" using miss(1) by simp
      then obtain B where B: "ev_heap s b = Some B" using ring_heap[OF r(1)] by blast
      then show ?thesis using miss(4) Cons B e(1) e(2)[unfolded miss(2)] h
        by (simp add: lis_del_from_elist_def ev_key_def)
    qed
    with el none show ?thesis by (intro exI[of _ s] exI[of _ xs]) (simp add: del_events_def)
  next
    case (hit as x bs)
    note some = ev_map_hit[OF hit(1,2,4)]
    have nz: "x \<noteq> NULL" "x \<noteq> h" using r(1) hit(1) h(2) by (auto simp: ring_def dest: dl_nonzero)
    obtain X where X: "ev_heap s x = Some X" using ring_heap[OF r(1), of x] hit(1) by auto
    then have pid: "se_pid X = pid" "ev_mask s x = se_evs X" using hit(2) by (simp_all add: ev_key_def ev_mask_def)
    let ?m = "se_evs X AND NOT events"
    let ?X = "X\<lparr>se_evs := ?m\<rparr>"
    let ?s = "s\<lparr>ev_heap := (ev_heap s)(x \<mapsto> ?X)\<rparr>"
    note em = elist_mask[OF el[unfolded hit(1)] X refl, of ?m, unfolded hit(2)]
    show ?thesis
    proof (cases "?m = 0")
      case False
      then have "lis_del_from_elist h pid events s = Some (0, ?s)"
        using e(1) e(2)[unfolded hit(3)] h X nz pid by (simp add: lis_del_from_elist_def upd_ev_Some)
      with em some pid False show ?thesis
        by (intro exI[of _ ?s] exI[of _ xs]) (simp add: hit(1) del_events_def)
    next
      case True
      have X1: "ev_heap ?s x = Some ?X" by simp
      have r1: "ring (ev_links ?s) h (as @ x # bs)" using em by (simp add: elist_def)
      obtain u t where t: "(if se_next ?X \<noteq> NULL then upd_ev (se_next ?X) (\<lambda>n. n\<lparr>se_prev := se_prev ?X\<rparr>) ?s else Some ?s) = Some u"
        "ev_heap u x = Some ?X"
        "(if se_prev ?X \<noteq> NULL then upd_ev (se_prev ?X) (\<lambda>n. n\<lparr>se_next := se_next ?X\<rparr>) u else Some u) = Some t"
        "ring (ev_links (ev_free x t)) h (as @ bs)" "keeps x ?s (ev_free x t)"
        using elist_unlink[OF r1 X1] by blast
      have "lis_del_from_elist h pid events s = Some (0, ev_free x t)"
        using e(1) e(2)[unfolded hit(3)] h X nz pid(1) True t(1-3)
        by (simp add: lis_del_from_elist_def upd_ev_Some cong: if_cong split del: if_split)
      moreover have k: "ev_key (ev_free x t) y = ev_key s y \<and> ev_mask (ev_free x t) y = ev_mask s y"
        if "y \<in> set (as @ bs)" for y
      proof -
        have "y \<noteq> x" using that r(1) hit(1) by (auto simp: ring_def)
        with t(5) show ?thesis by (simp add: keeps_def ev_key_def ev_mask_def)
      qed
      have keys: "map (ev_key (ev_free x t)) (as @ bs) = map (ev_key s) (as @ bs)" using k by simp
      have "sorted_wrt (<) (map (ev_key s) (as @ bs))" using r(2) hit(1) by (simp add: sorted_wrt_append)
      then have "elist (ev_free x t) h (as @ bs)" unfolding elist_def keys using t(4) by blast
      moreover have "ev_map (ev_free x t) (as @ bs) = ev_map s (as @ bs)" by (rule ev_map_cong) (rule k)
      moreover have "ev_map s xs = (ev_map s (as @ bs))(pid \<mapsto> ev_mask s x)"
        using ev_map_mid[of as s x bs] hit by simp
      moreover have "ev_map s (as @ bs) pid = None" by (rule ev_map_miss[OF refl hit(4,5)])
      ultimately show ?thesis using some pid True
        by (intro exI[of _ "ev_free x t"] exI[of _ "as @ bs"]) (auto simp: del_events_def fun_eq_iff)
    qed
  qed
qed

subsection \<open>Freeing the list\<close>

lemma free_elist_dl:
  "dl (ev_links s) k p (x # xs) l h \<Longrightarrow> h \<notin> set (x # xs) \<Longrightarrow> distinct (x # xs) \<Longrightarrow>
    free_elist_loop h p s = Some (s\<lparr>ev_heap := (ev_heap s) |` (- set (x # xs)), ev_freed := rev (x # xs) @ ev_freed s\<rparr>)"
proof (induction xs arbitrary: k p x s)
  case Nil
  then obtain e where "p = x" "x \<noteq> NULL" "ev_heap s x = Some e" "se_next e = h" by (auto dest: ev_linksD)
  moreover have "(ev_heap s)(x := None) = (ev_heap s) |` (- {x})" by (auto simp: restrict_map_def fun_eq_iff)
  ultimately show ?case by (simp add: free_elist_loop.simps[of h x] ev_free_def)
next
  case (Cons y xs)
  then obtain n where n: "p = x" "x \<noteq> NULL" "ev_links s x = Some (n, k)" "dl (ev_links s) x n (y # xs) l h" by auto
  obtain e where e: "ev_heap s x = Some e" "se_next e = n" using ev_linksD[OF n(3)] by blast
  have "n = y" using n(4) by simp
  have "ev_links (ev_free x s) = (ev_links s)(x := None)" by (auto simp: ev_links_def ev_free_def fun_eq_iff)
  then have "dl (ev_links (ev_free x s)) x n (y # xs) l h" using n(4) Cons.prems(3) by simp
  from Cons.IH[OF this] Cons.prems have IH: "free_elist_loop h n (ev_free x s) =
    Some ((ev_free x s)\<lparr>ev_heap := (ev_heap (ev_free x s)) |` (- set (y # xs)), ev_freed := rev (y # xs) @ ev_freed (ev_free x s)\<rparr>)"
    by simp
  have "(ev_heap (ev_free x s)) |` (- set (y # xs)) = (ev_heap s) |` (- set (x # y # xs))"
    by (auto simp: restrict_map_def ev_free_def fun_eq_iff)
  with IH n e Cons.prems(2) \<open>n = y\<close> show ?case
    by (simp add: free_elist_loop.simps[of h x] ev_free_def)
qed

text \<open>The head and every node are given back, once each, and the list pointer becomes null.\<close>

lemma free_elist_spec:
  assumes "elist s h xs"
  shows "lis_free_elist h s =
    Some (NULL, s\<lparr>ev_heap := (ev_heap s) |` (- set (h # xs)), ev_freed := rev (h # xs) @ ev_freed s\<rparr>)"
proof -
  obtain f l where r: "h \<noteq> NULL" "h \<notin> set xs" "distinct xs" "ev_links s h = Some (f, l)" "dl (ev_links s) h f xs l h"
    using assms by (auto simp: elist_def ring_def)
  obtain e where e: "ev_heap s h = Some e" "se_next e = f" using ev_linksD[OF r(4)] by blast
  show ?thesis
  proof (cases xs)
    case Nil
    moreover have "(ev_heap s)(h := None) = (ev_heap s) |` (- {h})" by (auto simp: restrict_map_def fun_eq_iff)
    ultimately show ?thesis using r e
      by (simp add: lis_free_elist_def free_elist_loop.simps[of h h] ev_free_def)
  next
    case (Cons x ys)
    have "ev_links (ev_free h s) = (ev_links s)(h := None)" by (auto simp: ev_links_def ev_free_def fun_eq_iff)
    then have "dl (ev_links (ev_free h s)) h f (x # ys) l h" using r(2,5) Cons by simp
    from free_elist_dl[OF this] r(2,3) Cons have "free_elist_loop h f (ev_free h s) =
      Some ((ev_free h s)\<lparr>ev_heap := (ev_heap (ev_free h s)) |` (- set xs), ev_freed := rev xs @ ev_freed (ev_free h s)\<rparr>)"
      by simp
    moreover have "(ev_heap (ev_free h s)) |` (- set xs) = (ev_heap s) |` (- set (h # xs))"
      by (auto simp: restrict_map_def ev_free_def fun_eq_iff)
    moreover have "f \<noteq> h" using r(2,5) Cons by auto
    ultimately show ?thesis using r(1) e
      by (simp add: lis_free_elist_def free_elist_loop.simps[of h h] ev_free_def)
  qed
qed

subsection \<open>The interface of an event list\<close>

text \<open>
  A client sees a finite map from processes to masks.  \<open>holds s M\<close>: the state \<open>s\<close> represents \<open>M\<close>;
  \<open>room s\<close>: a process can be added.
\<close>

locale event_table =
  fixes holds :: "'s \<Rightarrow> (int \<Rightarrow> u16 option) \<Rightarrow> bool"
    and room :: "'s \<Rightarrow> bool"
    and get :: "int \<Rightarrow> 's \<Rightarrow> u16 option"
    and add :: "int \<Rightarrow> u16 \<Rightarrow> 's \<Rightarrow> (int \<times> 's) option"
    and del :: "int \<Rightarrow> u16 \<Rightarrow> 's \<Rightarrow> (int \<times> 's) option"
  assumes get_law: "holds s M \<Longrightarrow> get pid s = Some (mask0 (M pid))"
    and add_law: "holds s M \<Longrightarrow> M pid \<noteq> None \<or> room s \<Longrightarrow>
      \<exists>t. add pid e s = Some (0, t) \<and> holds t (M(pid \<mapsto> mask0 (M pid) OR e))"
    and del_law: "holds s M \<Longrightarrow>
      \<exists>t. del pid e s = Some (if M pid = None then 1 else 0, t) \<and> holds t (del_events M pid e)"
begin

text \<open>What was added is seen, and the other processes are not affected.\<close>

lemma get_after_add:
  assumes "holds s M" "M pid \<noteq> None \<or> room s"
  shows "\<exists>t. add pid e s = Some (0, t) \<and> get pid t = Some (mask0 (M pid) OR e) \<and>
    (\<forall>p. p \<noteq> pid \<longrightarrow> get p t = get p s)"
proof -
  obtain t where t: "add pid e s = Some (0, t)" "holds t (M(pid \<mapsto> mask0 (M pid) OR e))"
    using add_law[OF assms] by blast
  then show ?thesis by (auto simp: get_law[OF t(2)] get_law[OF assms(1)] mask0_def)
qed

text \<open>Adding events and deleting them again leaves the process with its other events.\<close>

lemma add_del_get:
  assumes "holds s M" "M pid \<noteq> None \<or> room s"
  shows "\<exists>t u. add pid e s = Some (0, t) \<and> del pid e t = Some (0, u) \<and>
    get pid u = Some (mask0 (M pid) AND NOT e) \<and> (\<forall>p. p \<noteq> pid \<longrightarrow> get p u = get p s)"
proof -
  obtain t where t: "add pid e s = Some (0, t)" "holds t (M(pid \<mapsto> mask0 (M pid) OR e))" (is "holds t ?M")
    using add_law[OF assms] by blast
  obtain u where u: "del pid e t = Some (0, u)" "holds u (del_events ?M pid e)"
    using del_law[OF t(2), of pid e] by auto
  have "(mask0 (M pid) OR e) AND NOT e = mask0 (M pid) AND NOT e" by (simp add: bit.conj_disj_distrib2)
  then have "mask0 (del_events ?M pid e pid) = mask0 (M pid) AND NOT e" by (simp add: del_events_def mask0_def)
  moreover have "del_events ?M pid e p = M p" if "p \<noteq> pid" for p using that by (simp add: del_events_def)
  ultimately show ?thesis using t(1) u(1) by (auto simp: get_law[OF u(2)] get_law[OF assms(1)])
qed

end

definition ev_holds :: "ptr \<Rightarrow> evst \<Rightarrow> (int \<Rightarrow> u16 option) \<Rightarrow> bool" where
  "ev_holds h s M \<longleftrightarrow> (\<exists>xs. elist s h xs \<and> ev_map s xs = M)"

text \<open>Adding to a list that exists: the list pointer does not change.\<close>

definition ev_add :: "ptr \<Rightarrow> int \<Rightarrow> u16 \<Rightarrow> evst \<Rightarrow> (int \<times> evst) option" where
  "ev_add h pid e s = map_option (\<lambda>(r, _, t). (r, t)) (lis_add_to_elist h pid e s)"

interpretation ltab: event_table "ev_holds h" ev_fresh "lis_get_elist_ent h" "ev_add h" "lis_del_from_elist h"
proof
  fix s M pid assume "ev_holds h s M"
  then show "lis_get_elist_ent h pid s = Some (mask0 (M pid))"
    unfolding ev_holds_def mask0_def using get_elist_spec by blast
next
  fix s M pid e assume "ev_holds h s M" "M pid \<noteq> None \<or> ev_fresh s"
  then show "\<exists>t. ev_add h pid e s = Some (0, t) \<and> ev_holds h t (M(pid \<mapsto> mask0 (M pid) OR e))"
    unfolding ev_holds_def ev_add_def using add_elist_spec[of s h _ pid e] by fastforce
next
  fix s M pid e assume "ev_holds h s M"
  then show "\<exists>t. lis_del_from_elist h pid e s = Some (if M pid = None then 1 else 0, t) \<and>
    ev_holds h t (del_events M pid e)"
    unfolding ev_holds_def using del_elist_spec[of s h _ pid e] by blast
qed

end
