(* ===== verification/LiS_Timers.thy ===== *)
theory LiS_Timers
  imports LiS_Prelude
begin

text \<open>
  The SVR4 timeouts of \<open>head/dki.c\<close>: timer structures hashed by their handle, structures that
  expired or were cancelled on the free list 0.  The kernel's timers (\<open>lis_tmout\<close>, \<open>lis_untmout\<close>) are
  the set of armed structures with their delays; a timeout procedure is code of its own, passed to
  \<open>sys_timeout_fcn\<close> as a parameter.
\<close>

unbundle bit_operations_syntax

subsection \<open>The structures and operations\<close>

record tlist =
  tl_next :: ptr
  tl_hndl :: int
  tl_fcn :: nat
  tl_arg :: int

record dki =
  tls :: "ptr \<Rightarrow> tlist option"
  tl_heads :: "nat \<Rightarrow> ptr"
  tlist_handle :: int
  tl_mem :: "ptr list"
  tl_freed :: "ptr list"
  armed :: "ptr \<Rightarrow> int option"

definition THASH :: nat where "THASH = 757"

text \<open>
  The bucket \<open>handle % THASH\<close>.  The remainder of a negative handle is negative: an access outside the
  table, except for the multiples of \<open>THASH\<close>.
\<close>

definition thash :: "int \<Rightarrow> nat option" where
  "thash handle = (if handle \<ge> 0 \<or> handle mod int THASH = 0 then Some (nat (handle mod int THASH)) else None)"

definition upd_tl :: "ptr \<Rightarrow> (tlist \<Rightarrow> tlist) \<Rightarrow> dki \<Rightarrow> dki option" where
  "upd_tl p f s = do { t \<leftarrow> tls s p; Some (s\<lparr>tls := (tls s)(p \<mapsto> f t)\<rparr>) }"

definition set_head :: "nat \<Rightarrow> ptr \<Rightarrow> dki \<Rightarrow> dki" where
  "set_head i p s = s\<lparr>tl_heads := (tl_heads s)(i := p)\<rparr>"

definition enter_timer_in_list :: "ptr \<Rightarrow> dki \<Rightarrow> dki option" where
  "enter_timer_in_list tp s = do {
     t \<leftarrow> tls s tp;
     i \<leftarrow> thash (tl_hndl t);
     s \<leftarrow> upd_tl tp (\<lambda>t. t\<lparr>tl_next := tl_heads s i\<rparr>) s;
     Some (set_head i tp s) }"

partial_function (option) remove_timer_loop :: "ptr \<Rightarrow> ptr \<Rightarrow> dki \<Rightarrow> (bool \<times> dki) option" where
  "remove_timer_loop t tp s = do {
     T \<leftarrow> tls s t;
     let nxt = tl_next T;
     if nxt = NULL
     then do { s \<leftarrow> upd_tl tp (\<lambda>t. t\<lparr>tl_next := NULL\<rparr>) s; Some (False, s) }
     else if nxt = tp
     then do {
       P \<leftarrow> tls s tp;
       s \<leftarrow> upd_tl t (\<lambda>T. T\<lparr>tl_next := tl_next P\<rparr>) s;
       s \<leftarrow> upd_tl tp (\<lambda>t. t\<lparr>tl_next := NULL\<rparr>) s;
       Some (True, s) }
     else remove_timer_loop nxt tp s }"

definition remove_timer_from_list :: "ptr \<Rightarrow> dki \<Rightarrow> (bool \<times> dki) option" where
  "remove_timer_from_list tp s = do {
     P \<leftarrow> tls s tp;
     i \<leftarrow> thash (tl_hndl P);
     let t = tl_heads s i;
     if t = NULL
     then do { s \<leftarrow> upd_tl tp (\<lambda>t. t\<lparr>tl_next := NULL\<rparr>) s; Some (False, s) }
     else if t = tp
     then do { s \<leftarrow> upd_tl tp (\<lambda>t. t\<lparr>tl_next := NULL\<rparr>) (set_head i (tl_next P) s); Some (True, s) }
     else remove_timer_loop t tp s }"

text \<open>A new structure comes from the kernel with some contents; all of it is written before use.\<close>

definition tl_zero :: tlist where
  "tl_zero = \<lparr>tl_next = NULL, tl_hndl = 0, tl_fcn = 0, tl_arg = 0\<rparr>"

definition alloc_timer :: "dki \<Rightarrow> (ptr \<times> dki) option" where
  "alloc_timer s =
     (let t = tl_heads s 0 in
      if t = NULL
      then Some (case tl_mem s of
          [] \<Rightarrow> (NULL, s)
        | p # ps \<Rightarrow> if p = NULL then (NULL, s\<lparr>tl_mem := ps\<rparr>)
            else (p, s\<lparr>tl_mem := ps, tls := (tls s)(p \<mapsto> tl_zero)\<rparr>))
      else do { T \<leftarrow> tls s t; Some (t, set_head 0 (tl_next T) s) })"

partial_function (option) find_timer_loop :: "ptr \<Rightarrow> int \<Rightarrow> dki \<Rightarrow> ptr option" where
  "find_timer_loop tp handle s =
     (if tp = NULL then Some NULL
      else do {
        T \<leftarrow> tls s tp;
        if tl_hndl T = handle then Some tp else find_timer_loop (tl_next T) handle s })"

definition find_timer_by_handle :: "int \<Rightarrow> dki \<Rightarrow> ptr option" where
  "find_timer_by_handle handle s = do {
     i \<leftarrow> thash handle;
     find_timer_loop (tl_heads s i) handle s }"

text \<open>The inner loop, which skips the multiples of \<open>THASH\<close>; \<open>c & 0x7FFFFFFF\<close> is the remainder by \<open>2 ^ 31\<close>.\<close>

partial_function (option) next_handle :: "int \<Rightarrow> (int \<times> int) option" where
  "next_handle c =
     (let c = c_int (c + 1); handle = c mod 2 ^ 31 in
      if handle mod int THASH = 0 then next_handle c else Some (handle, c))"

partial_function (option) alloc_handle :: "dki \<Rightarrow> (int \<times> dki) option" where
  "alloc_handle s = do {
     (handle, c) \<leftarrow> next_handle (tlist_handle s);
     let s = s\<lparr>tlist_handle := c\<rparr>;
     tp \<leftarrow> find_timer_by_handle handle s;
     if tp = NULL then Some (handle, s) else alloc_handle s }"

definition lis_timeout :: "nat \<Rightarrow> int \<Rightarrow> int \<Rightarrow> dki \<Rightarrow> (int \<times> dki) option" where
  "lis_timeout fcn arg ticks s = do {
     (tp, s) \<leftarrow> alloc_timer s;
     if tp = NULL then Some (0, s)
     else do {
       (handle, s) \<leftarrow> alloc_handle s;
       s \<leftarrow> upd_tl tp (\<lambda>_. tl_zero\<lparr>tl_hndl := handle, tl_fcn := fcn, tl_arg := arg\<rparr>) s;
       s \<leftarrow> enter_timer_in_list tp s;
       Some (handle, s\<lparr>armed := (armed s)(tp \<mapsto> ticks)\<rparr>) } }"

definition lis_untimeout :: "int \<Rightarrow> dki \<Rightarrow> dki option" where
  "lis_untimeout tid s = do {
     tp \<leftarrow> find_timer_by_handle tid s;
     if tp \<noteq> NULL
     then do {
       (_, s) \<leftarrow> remove_timer_from_list tp s;
       let s = s\<lparr>armed := (armed s)(tp := None)\<rparr>;
       s \<leftarrow> upd_tl tp (\<lambda>t. t\<lparr>tl_hndl := 0\<rparr>) s;
       enter_timer_in_list tp s }
     else Some s }"

text \<open>What the kernel calls when the timer of \<open>tp\<close> expires; \<open>call\<close> runs a timeout procedure.\<close>

definition sys_timeout_fcn :: "(nat \<Rightarrow> int \<Rightarrow> dki \<Rightarrow> dki option) \<Rightarrow> ptr \<Rightarrow> dki \<Rightarrow> dki option" where
  "sys_timeout_fcn call tp s = do {
     (found, s) \<leftarrow> remove_timer_from_list tp s;
     if \<not> found then Some s
     else do {
       T \<leftarrow> tls s tp;
       let (fcn, uarg) = (if tl_hndl T \<noteq> 0 \<and> tl_fcn T \<noteq> 0 then (tl_fcn T, tl_arg T) else (0, 0));
       s \<leftarrow> upd_tl tp (\<lambda>t. t\<lparr>tl_hndl := 0, tl_fcn := 0\<rparr>) s;
       s \<leftarrow> enter_timer_in_list tp s;
       if fcn \<noteq> 0 then call fcn uarg s else Some s } }"

partial_function (option) terminate_list :: "nat \<Rightarrow> dki \<Rightarrow> dki option" where
  "terminate_list i s =
     (let tp = tl_heads s i in
      if tp = NULL then Some s
      else do {
        let s = s\<lparr>armed := (armed s)(tp := None)\<rparr>;
        (_, s) \<leftarrow> remove_timer_from_list tp s;
        terminate_list i (s\<lparr>tls := (tls s)(tp := None), tl_freed := tp # tl_freed s\<rparr>) })"

fun terminate_lists :: "nat list \<Rightarrow> dki \<Rightarrow> dki option" where
  "terminate_lists [] s = Some s"
| "terminate_lists (i # is) s = do { s \<leftarrow> terminate_list i s; terminate_lists is s }"

definition lis_terminate_dki :: "dki \<Rightarrow> dki option" where
  "lis_terminate_dki s = terminate_lists [0..<THASH] s"

subsection \<open>The table as lists\<close>

definition tnext :: "dki \<Rightarrow> ptr \<Rightarrow> ptr option" where
  "tnext s p = map_option tl_next (tls s p)"

definition hndl :: "dki \<Rightarrow> ptr \<Rightarrow> int" where
  "hndl s p = (case tls s p of None \<Rightarrow> 0 | Some T \<Rightarrow> tl_hndl T)"

definition payload :: "dki \<Rightarrow> ptr \<Rightarrow> nat \<times> int" where
  "payload s p = (case tls s p of None \<Rightarrow> (0, 0) | Some T \<Rightarrow> (tl_fcn T, tl_arg T))"

definition bucket :: "int \<Rightarrow> nat" where
  "bucket h = nat (h mod int THASH)"

definition buckets :: "dki \<Rightarrow> (nat \<Rightarrow> ptr list) \<Rightarrow> bool" where
  "buckets s L \<longleftrightarrow> (\<forall>i. sseg (tnext s) (tl_heads s i) (L i) NULL) \<and> (\<forall>i j. i \<noteq> j \<longrightarrow> set (L i) \<inter> set (L j) = {})"

text \<open>
  The invariant: list 0 holds the free structures, with handle 0, every other list the pending ones
  whose positive handle falls into its bucket, no two with the same handle.
\<close>

definition tinv :: "dki \<Rightarrow> (nat \<Rightarrow> ptr list) \<Rightarrow> bool" where
  "tinv s L \<longleftrightarrow> buckets s L \<and> (\<forall>p\<in>set (L 0). hndl s p = 0) \<and>
     (\<forall>i p. i \<noteq> 0 \<longrightarrow> p \<in> set (L i) \<longrightarrow> 0 < hndl s p \<and> bucket (hndl s p) = i) \<and>
     (\<forall>i. i \<noteq> 0 \<longrightarrow> distinct (map (hndl s) (L i)))"

text \<open>The pending timeouts: the procedure and argument for each handle in use.\<close>

definition timer_of :: "dki \<Rightarrow> (nat \<Rightarrow> ptr list) \<Rightarrow> int \<Rightarrow> ptr" where
  "timer_of s L h = hd0 (filter (\<lambda>p. hndl s p = h) (L (bucket h)))"

definition pend :: "dki \<Rightarrow> (nat \<Rightarrow> ptr list) \<Rightarrow> int \<Rightarrow> (nat \<times> int) option" where
  "pend s L h = (if bucket h = 0 \<or> timer_of s L h = NULL then None else Some (payload s (timer_of s L h)))"

lemma thash_nonneg: "0 \<le> h \<Longrightarrow> thash h = Some (bucket h)"
  by (simp add: thash_def bucket_def)

lemma upd_tl_Some: "tls s p = Some T \<Longrightarrow> upd_tl p f s = Some (s\<lparr>tls := (tls s)(p \<mapsto> f T)\<rparr>)"
  by (simp add: upd_tl_def)

lemma tnextD: "tnext s p = Some n \<Longrightarrow> \<exists>T. tls s p = Some T \<and> tl_next T = n"
  by (auto simp: tnext_def)

lemma tnextI: "tls s p = Some T \<Longrightarrow> tnext s p = Some (tl_next T)"
  by (simp add: tnext_def)

lemma buckets_mem: "buckets s L \<Longrightarrow> p \<in> set (L i) \<Longrightarrow> p \<noteq> NULL \<and> (\<exists>T. tls s p = Some T)"
  unfolding buckets_def by (blast dest: sseg_dom sseg_nonzero tnextD)

lemma buckets_only: "buckets s L \<Longrightarrow> p \<in> set (L i) \<Longrightarrow> j \<noteq> i \<Longrightarrow> p \<notin> set (L j)"
  unfolding buckets_def by blast

lemma buckets_distinct: "buckets s L \<Longrightarrow> distinct (L i)"
  by (auto simp: buckets_def intro: sseg_distinct)

lemma find_timer_loop_spec:
  "sseg (tnext s) p xs NULL \<Longrightarrow> find_timer_loop p h s = Some (hd0 (filter (\<lambda>p. hndl s p = h) xs))"
proof (induction xs arbitrary: p)
  case Nil
  then show ?case by (simp add: find_timer_loop.simps)
next
  case (Cons x xs)
  then obtain T where "p = x" "x \<noteq> NULL" "tls s x = Some T" "sseg (tnext s) (tl_next T) xs NULL"
    by (auto dest: tnextD)
  with Cons.IH show ?case by (simp add: find_timer_loop.simps[of x] hndl_def)
qed

lemma find_timer_spec: "buckets s L \<Longrightarrow> 0 \<le> h \<Longrightarrow> find_timer_by_handle h s = Some (timer_of s L h)"
  by (simp add: find_timer_by_handle_def thash_nonneg buckets_def find_timer_loop_spec timer_of_def)

lemma hd0_filter: "hd0 (filter P xs) = p \<Longrightarrow> p \<noteq> NULL \<Longrightarrow> p \<in> set xs \<and> P p"
  by (induction xs) (auto split: if_splits)

lemma timer_of_mem: "timer_of s L h = p \<Longrightarrow> p \<noteq> NULL \<Longrightarrow> p \<in> set (L (bucket h)) \<and> hndl s p = h"
  unfolding timer_of_def by (rule hd0_filter)

lemma filter_key: "distinct (map f xs) \<Longrightarrow> x \<in> set xs \<Longrightarrow> filter (\<lambda>y. f y = f x) xs = [x]"
  by (induction xs) (auto simp: filter_empty_conv image_iff)

lemma timer_of_in:
  assumes "tinv s L" "p \<in> set (L i)" "i \<noteq> 0"
  shows "timer_of s L (hndl s p) = p"
proof -
  have i: "bucket (hndl s p) = i" using assms by (simp add: tinv_def)
  have "distinct (map (hndl s) (L i))" using assms by (simp add: tinv_def)
  then have "filter (\<lambda>q. hndl s q = hndl s p) (L i) = [p]" using assms(2) by (rule filter_key)
  then show ?thesis by (simp add: timer_of_def i)
qed

subsection \<open>Entering and removing\<close>

text \<open>Steps that change links only.\<close>

definition tl_same :: "dki \<Rightarrow> dki \<Rightarrow> bool" where
  "tl_same s t \<longleftrightarrow> hndl t = hndl s \<and> payload t = payload s \<and> dom (tls t) = dom (tls s) \<and> tl_mem t = tl_mem s \<and>
     tlist_handle t = tlist_handle s \<and> armed t = armed s \<and> tl_freed t = tl_freed s"

lemma tl_same_refl [simp]: "tl_same s s" by (simp add: tl_same_def)

lemma tl_same_upd:
  "tls s p = Some T \<Longrightarrow> tl_same s (s\<lparr>tls := (tls s)(p \<mapsto> T\<lparr>tl_next := n\<rparr>)\<rparr>)"
  by (auto simp: tl_same_def hndl_def payload_def fun_eq_iff)

lemma tl_same_head: "tl_same s t \<Longrightarrow> tl_same s (set_head i p t)"
  by (simp add: tl_same_def set_head_def hndl_def payload_def fun_eq_iff)

lemma tl_same_trans: "tl_same s t \<Longrightarrow> tl_same t u \<Longrightarrow> tl_same s u"
  by (simp add: tl_same_def)

lemma enter_spec:
  assumes b: "buckets s L" and p: "tls s p = Some T" "p \<noteq> NULL" "\<And>i. p \<notin> set (L i)" and h: "0 \<le> tl_hndl T"
  shows "\<exists>t. enter_timer_in_list p s = Some t \<and> tl_same s t \<and>
    buckets t (L(bucket (tl_hndl T) := p # L (bucket (tl_hndl T))))"
proof -
  let ?i = "bucket (tl_hndl T)"
  let ?s = "s\<lparr>tls := (tls s)(p \<mapsto> T\<lparr>tl_next := tl_heads s ?i\<rparr>)\<rparr>"
  let ?t = "set_head ?i p ?s"
  have "enter_timer_in_list p s = Some ?t"
    using p(1) h by (simp add: enter_timer_in_list_def thash_nonneg upd_tl_Some)
  moreover have "tl_same s ?t" by (rule tl_same_head[OF tl_same_upd[OF p(1)]])
  moreover have "tnext ?t = (tnext s)(p \<mapsto> tl_heads s ?i)" by (auto simp: tnext_def set_head_def fun_eq_iff)
  then have "buckets ?t (L(?i := p # L ?i))"
    using b p(2,3) by (auto simp: buckets_def set_head_def)
  ultimately show ?thesis by blast
qed

lemma remove_loop_spec:
  "sseg (tnext s) t (t # xs) NULL \<Longrightarrow> p \<noteq> t \<Longrightarrow> tls s p = Some P \<Longrightarrow>
   \<exists>u. remove_timer_loop t p s = Some (p \<in> set xs, u) \<and> tl_same s u \<and> tl_heads u = tl_heads s \<and>
     sseg (tnext u) t (t # remove1 p xs) NULL \<and> (\<forall>q. q \<notin> set (t # xs) \<longrightarrow> q \<noteq> p \<longrightarrow> tnext u q = tnext s q)"
proof (induction xs arbitrary: t)
  case Nil
  then obtain T where T: "tls s t = Some T" "tl_next T = NULL" "t \<noteq> NULL" by (auto dest: tnextD)
  let ?u = "s\<lparr>tls := (tls s)(p \<mapsto> P\<lparr>tl_next := NULL\<rparr>)\<rparr>"
  have "remove_timer_loop t p s = Some (False, ?u)" using T Nil.prems
    by (subst remove_timer_loop.simps) (simp add: upd_tl_Some)
  moreover have "tnext ?u = (tnext s)(p \<mapsto> NULL)" by (auto simp: tnext_def fun_eq_iff)
  ultimately show ?case using T Nil.prems by (intro exI[of _ ?u]) (simp add: tl_same_upd tnextI)
next
  case (Cons x xs)
  then obtain T where T: "tls s t = Some T" "tl_next T = x" "t \<noteq> NULL" and x: "sseg (tnext s) x (x # xs) NULL" "x \<noteq> NULL"
    by (auto dest: tnextD)
  have dist: "distinct (t # x # xs)" using Cons.prems(1) by (rule sseg_distinct)
  show ?case
  proof (cases "x = p")
    case False
    obtain u where u: "remove_timer_loop x p s = Some (p \<in> set xs, u)" "tl_same s u" "tl_heads u = tl_heads s"
      "sseg (tnext u) x (x # remove1 p xs) NULL" "\<forall>q. q \<notin> set (x # xs) \<longrightarrow> q \<noteq> p \<longrightarrow> tnext u q = tnext s q"
      using Cons.IH[OF x(1) _ Cons.prems(3)] False by blast
    have "tnext u t = Some x" using u(5) dist Cons.prems(2) T(1,2) by (simp add: tnext_def)
    moreover have "remove_timer_loop t p s = remove_timer_loop x p s"
      using T x(2) False by (subst remove_timer_loop.simps) simp
    ultimately show ?thesis using u False T(3) by (intro exI[of _ u]) auto
  next
    case True
    then have P: "sseg (tnext s) (tl_next P) xs NULL" using x(1) Cons.prems(3) by (simp add: tnextI)
    let ?u = "s\<lparr>tls := (tls s)(t \<mapsto> T\<lparr>tl_next := tl_next P\<rparr>, p \<mapsto> P\<lparr>tl_next := NULL\<rparr>)\<rparr>"
    have "remove_timer_loop t p s = Some (True, ?u)" using T x(2) True Cons.prems(2,3)
      by (subst remove_timer_loop.simps) (simp add: upd_tl_Some)
    moreover have "tl_same s ?u" using T(1) Cons.prems(2,3)
      by (auto simp: tl_same_def hndl_def payload_def fun_eq_iff)
    moreover have nx: "tnext ?u = (tnext s)(t \<mapsto> tl_next P, p \<mapsto> NULL)" by (auto simp: tnext_def fun_eq_iff)
    have "sseg (tnext ?u) t (t # remove1 p (x # xs)) NULL"
      using P dist True T(3) by (simp add: nx)
    moreover have "\<forall>q. q \<notin> set (t # x # xs) \<longrightarrow> q \<noteq> p \<longrightarrow> tnext ?u q = tnext s q" using nx by simp
    moreover have "tl_heads ?u = tl_heads s" by simp
    moreover have mem: "(p \<in> set (x # xs)) = True" using True by simp
    ultimately show ?thesis unfolding mem by blast
  qed
qed

text \<open>Removing a structure from its list, and trying to when it is in no list.\<close>

lemma tl_same_bucket: "tl_same s t \<Longrightarrow> hndl t p = hndl s p \<and> payload t p = payload s p"
  by (simp add: tl_same_def)

lemma sseg_other:
  "(\<And>q. q \<in> set xs \<Longrightarrow> nx' q = nx q) \<Longrightarrow> sseg nx p xs NULL \<Longrightarrow> sseg nx' p xs NULL"
  using sseg_cong[of xs nx nx'] by simp

lemma remove_spec:
  assumes b: "buckets s L" and p: "tls s p = Some P" "p \<noteq> NULL" and h: "0 \<le> tl_hndl P"
    and other: "\<And>j. j \<noteq> bucket (tl_hndl P) \<Longrightarrow> p \<notin> set (L j)"
  shows "\<exists>t. remove_timer_from_list p s = Some (p \<in> set (L (bucket (tl_hndl P))), t) \<and> tl_same s t \<and>
    buckets t (L(bucket (tl_hndl P) := remove1 p (L (bucket (tl_hndl P)))))"
proof -
  let ?i = "bucket (tl_hndl P)"
  have chain: "sseg (tnext s) (tl_heads s ?i) (L ?i) NULL" using b by (simp add: buckets_def)
  have keep: "buckets t (L(?i := remove1 p (L ?i)))"
    if "sseg (tnext t) (tl_heads t ?i) (remove1 p (L ?i)) NULL" "\<And>j. j \<noteq> ?i \<Longrightarrow> tl_heads t j = tl_heads s j"
      "\<And>q. q \<notin> set (L ?i) \<Longrightarrow> q \<noteq> p \<Longrightarrow> tnext t q = tnext s q" for t
  proof -
    have dj: "set (L j) \<inter> set (L k) = {}" if "j \<noteq> k" for j k using b that by (auto simp: buckets_def)
    have sub: "set (remove1 p (L ?i)) \<subseteq> set (L ?i)" by (rule set_remove1_subset)
    have "sseg (tnext t) (tl_heads t j) (L j) NULL" if j: "j \<noteq> ?i" for j
    proof -
      have "sseg (tnext s) (tl_heads s j) (L j) NULL" using b by (simp add: buckets_def)
      moreover have "tnext t q = tnext s q" if "q \<in> set (L j)" for q
        using that j dj[OF j] other[OF j] \<open>\<And>q. q \<notin> set (L ?i) \<Longrightarrow> q \<noteq> p \<Longrightarrow> tnext t q = tnext s q\<close> by blast
      ultimately show ?thesis unfolding \<open>\<And>j. j \<noteq> ?i \<Longrightarrow> tl_heads t j = tl_heads s j\<close>[OF j] by (rule sseg_other[rotated])
    qed
    with that(1) dj sub show ?thesis unfolding buckets_def by (simp add: disjoint_iff) blast
  qed
  show ?thesis
  proof (cases "L ?i")
    case Nil
    let ?t = "s\<lparr>tls := (tls s)(p \<mapsto> P\<lparr>tl_next := NULL\<rparr>)\<rparr>"
    have "remove_timer_from_list p s = Some (False, ?t)"
      using Nil chain p h by (simp add: remove_timer_from_list_def thash_nonneg upd_tl_Some)
    moreover have "buckets ?t (L(?i := remove1 p (L ?i)))"
      by (rule keep) (use Nil chain in \<open>auto simp: tnext_def\<close>)
    ultimately show ?thesis using Nil tl_same_upd[OF p(1)] by auto
  next
    case (Cons x xs)
    then have x: "tl_heads s ?i = x" "x \<noteq> NULL" using chain by auto
    show ?thesis
    proof (cases "x = p")
      case True
      let ?t = "(set_head ?i (tl_next P) s)\<lparr>tls := (tls s)(p \<mapsto> P\<lparr>tl_next := NULL\<rparr>)\<rparr>"
      have "remove_timer_from_list p s = Some (True, ?t)"
        using x True p h by (simp add: remove_timer_from_list_def thash_nonneg upd_tl_Some set_head_def)
      moreover have "tl_same s ?t" using p(1)
        by (auto simp: tl_same_def hndl_def payload_def set_head_def fun_eq_iff)
      moreover have "buckets ?t (L(?i := remove1 p (L ?i)))"
      proof (rule keep)
        have nx: "tnext ?t = (tnext s)(p \<mapsto> NULL)" by (auto simp: tnext_def set_head_def fun_eq_iff)
        have "p \<notin> set xs" using buckets_distinct[OF b, of ?i] Cons True by simp
        then show "sseg (tnext ?t) (tl_heads ?t ?i) (remove1 p (L ?i)) NULL"
          using chain Cons True p(1) by (simp add: nx) (simp add: set_head_def tnextI)
        show "tnext ?t q = tnext s q" if "q \<notin> set (L ?i)" "q \<noteq> p" for q using that by (simp add: nx)
        show "tl_heads ?t j = tl_heads s j" if "j \<noteq> ?i" for j using that by (simp add: set_head_def)
      qed
      ultimately show ?thesis using True Cons by auto
    next
      case False
      have "sseg (tnext s) x (x # xs) NULL" using chain Cons x by simp
      from remove_loop_spec[OF this _ p(1)] False obtain u where
        u: "remove_timer_loop x p s = Some (p \<in> set xs, u)" "tl_same s u" "tl_heads u = tl_heads s"
          "sseg (tnext u) x (x # remove1 p xs) NULL" "\<forall>q. q \<notin> set (x # xs) \<longrightarrow> q \<noteq> p \<longrightarrow> tnext u q = tnext s q"
        by blast
      have "remove_timer_from_list p s = Some (p \<in> set xs, u)"
        using x False p h u(1) by (simp add: remove_timer_from_list_def thash_nonneg)
      moreover have "buckets u (L(?i := remove1 p (L ?i)))"
        by (rule keep) (use u(3-5) x False Cons in auto)
      ultimately show ?thesis using u(2) False Cons by auto
    qed
  qed
qed

subsection \<open>Handles\<close>

lemma c_int_mod31: "c_int x mod 2 ^ 31 = x mod 2 ^ 31"
proof -
  define k where "k = (x + 2 ^ 31) div 2 ^ 32"
  have "(x + 2 ^ 31) mod 2 ^ 32 = x + 2 ^ 31 - k * 2 ^ 32"
    unfolding k_def by (rule minus_div_mult_eq_mod[symmetric])
  then have "c_int x = x + (- 2 * k) * 2 ^ 31" by (simp add: c_int_def)
  then show ?thesis by (simp only: mod_mult_self1)
qed

lemmas c_int_mod = c_int_mod31[simplified]

lemma tnext_handle [simp]: "tnext (s\<lparr>tlist_handle := c\<rparr>) = tnext s"
  by (simp add: tnext_def fun_eq_iff)

lemma bucket_0: "bucket h = 0 \<longleftrightarrow> h mod int THASH = 0"
proof -
  have "0 \<le> h mod int THASH" by (simp add: THASH_def)
  then show ?thesis unfolding bucket_def by linarith
qed

text \<open>Of two successive candidates at most one falls into the bucket of the free list.\<close>

definition cand :: "int \<Rightarrow> int \<Rightarrow> int" where
  "cand c n = (c + n) mod 2 ^ 31"

lemma cand_c_int: "cand (c_int (c + k)) n = cand c (k + n)"
  unfolding cand_def by (metis c_int_mod31 mod_add_left_eq add.assoc)

lemma cand_skip: "bucket (cand c 1) = 0 \<Longrightarrow> bucket (cand c 2) \<noteq> 0"
proof
  assume z: "bucket (cand c 1) = 0" "bucket (cand c 2) = 0"
  define r where "r = (c + 1) mod 2 ^ 31"
  have r: "0 \<le> r" "r < 2 ^ 31" by (simp_all add: r_def)
  have c2: "(c + 2) mod 2 ^ 31 = (r + 1) mod 2 ^ 31" unfolding r_def by (simp add: mod_simps add.commute)
  have r1: "r mod 757 = 0" using z(1) by (simp add: bucket_0 cand_def r_def THASH_def)
  have r2: "((r + 1) mod 2 ^ 31) mod 757 = 0" using z(2) c2 by (simp add: bucket_0 cand_def THASH_def)
  show False
  proof (cases "r = 2 ^ 31 - 1")
    case True
    with r1 show False by simp
  next
    case False
    with r have "(r + 1) mod 2 ^ 31 = r + 1" by simp
    with r2 have "(r + 1) mod 757 = 0" by simp
    with r1 mod_add_left_eq[of r 757 1] show False by simp
  qed
qed

lemma next_handle_step:
  "next_handle c = (if bucket (cand c 1) = 0 then next_handle (c_int (c + 1)) else Some (cand c 1, c_int (c + 1)))"
  by (subst next_handle.simps) (simp add: Let_def bucket_0 cand_def c_int_mod)

lemma next_handle_spec:
  "next_handle c = (if bucket (cand c 1) = 0 then Some (cand c 2, c_int (c + 2)) else Some (cand c 1, c_int (c + 1)))"
proof -
  have "cand (c_int (c + 1)) 1 = cand c 2" by (simp add: cand_c_int)
  moreover have "c_int (c_int (c + 1) + 1) = c_int (c + 2)" by (simp only: c_int_add) (simp add: add.assoc)
  ultimately show ?thesis
    using cand_skip[of c] next_handle_step[of "c_int (c + 1)"] next_handle_step[of c]
    by (cases "bucket (cand c 1) = 0") simp_all
qed

definition unused :: "dki \<Rightarrow> (nat \<Rightarrow> ptr list) \<Rightarrow> int \<Rightarrow> bool" where
  "unused s L h \<longleftrightarrow> 0 < h \<and> h < 2 ^ 31 \<and> bucket h \<noteq> 0 \<and> timer_of s L h = NULL"

lemma cand_range: "0 \<le> cand c n" "cand c n < 2 ^ 31"
  by (simp_all add: cand_def)

lemma alloc_handle_step:
  assumes b: "buckets s L"
  obtains k where "k \<in> {1, 2}" "\<And>j. 1 \<le> j \<Longrightarrow> j < k \<Longrightarrow> \<not> unused s L (cand (tlist_handle s) j)"
    "alloc_handle s = (if unused s L (cand (tlist_handle s) k)
       then Some (cand (tlist_handle s) k, s\<lparr>tlist_handle := c_int (tlist_handle s + k)\<rparr>)
       else alloc_handle (s\<lparr>tlist_handle := c_int (tlist_handle s + k)\<rparr>))"
proof -
  let ?c = "tlist_handle s"
  define k :: int where "k = (if bucket (cand ?c 1) = 0 then 2 else 1)"
  have n: "next_handle ?c = Some (cand ?c k, c_int (?c + k))" by (simp add: next_handle_spec k_def)
  have bk: "bucket (cand ?c k) \<noteq> 0" using cand_skip[of ?c] by (simp add: k_def)
  have b1: "buckets (s\<lparr>tlist_handle := c_int (?c + k)\<rparr>) L" using b by (simp add: buckets_def)
  have t1: "timer_of (s\<lparr>tlist_handle := c_int (?c + k)\<rparr>) L h = timer_of s L h" for h
    by (simp add: timer_of_def hndl_def)
  have "0 < cand ?c k"
    using bk cand_range(1)[of ?c k] by (cases "cand ?c k = 0") (auto simp: bucket_def)
  then have "unused s L (cand ?c k) \<longleftrightarrow> timer_of s L (cand ?c k) = NULL"
    using bk cand_range(2)[of ?c k] by (simp add: unused_def)
  then have go: "alloc_handle s = (if unused s L (cand ?c k)
       then Some (cand ?c k, s\<lparr>tlist_handle := c_int (?c + k)\<rparr>)
       else alloc_handle (s\<lparr>tlist_handle := c_int (?c + k)\<rparr>))"
    by (subst alloc_handle.simps) (simp add: n find_timer_spec[OF b1 cand_range(1)] t1 Let_def)
  have skip: "\<not> unused s L (cand ?c j)" if "1 \<le> j" "j < k" for j
  proof -
    have "j = 1" "bucket (cand ?c 1) = 0" using that by (auto simp: k_def split: if_splits)
    then show ?thesis by (simp add: unused_def)
  qed
  show ?thesis by (rule that[of k]) (use go skip in \<open>simp_all add: k_def\<close>)
qed

lemma alloc_handle_reach:
  assumes "buckets s L" "1 \<le> n" "unused s L (cand (tlist_handle s) (int n))"
  shows "\<exists>h c. alloc_handle s = Some (h, s\<lparr>tlist_handle := c\<rparr>) \<and> unused s L h"
  using assms
proof (induction n arbitrary: s rule: less_induct)
  case (less n)
  obtain k where k: "k \<in> {1, 2}" "\<And>j. 1 \<le> j \<Longrightarrow> j < k \<Longrightarrow> \<not> unused s L (cand (tlist_handle s) j)"
    "alloc_handle s = (if unused s L (cand (tlist_handle s) k)
       then Some (cand (tlist_handle s) k, s\<lparr>tlist_handle := c_int (tlist_handle s + k)\<rparr>)
       else alloc_handle (s\<lparr>tlist_handle := c_int (tlist_handle s + k)\<rparr>))"
    by (rule alloc_handle_step[OF less.prems(1)]) (rule that)
  show ?case
  proof (cases "unused s L (cand (tlist_handle s) k)")
    case True
    with k(3) show ?thesis by auto
  next
    case False
    let ?s = "s\<lparr>tlist_handle := c_int (tlist_handle s + k)\<rparr>"
    have un: "unused ?s L h = unused s L h" for h by (simp add: unused_def timer_of_def hndl_def)
    have "\<not> int n < k" using k(2)[of "int n"] less.prems(2,3) by auto
    moreover have "int n \<noteq> k" using False less.prems(3) by auto
    ultimately have n: "k < int n" by linarith
    have "cand (tlist_handle ?s) (int (n - nat k)) = cand (tlist_handle s) (int n)"
      using n k(1) by (auto simp: cand_c_int of_nat_diff)
    then have "unused ?s L (cand (tlist_handle ?s) (int (n - nat k)))" using less.prems(3) un by metis
    moreover have "buckets ?s L" using less.prems(1) by (simp add: buckets_def)
    moreover have "n - nat k < n" "1 \<le> n - nat k" using n k(1) by auto
    ultimately obtain h c where "alloc_handle ?s = Some (h, ?s\<lparr>tlist_handle := c\<rparr>)" "unused ?s L h"
      using less.IH by blast
    with k(3) False un show ?thesis by auto
  qed
qed

text \<open>As long as one handle is unused, \<open>alloc_handle\<close> returns, and with an unused handle.\<close>

lemma alloc_handle_spec:
  assumes "buckets s L" "unused s L g"
  shows "\<exists>h c. alloc_handle s = Some (h, s\<lparr>tlist_handle := c\<rparr>) \<and> unused s L h"
proof -
  define m where "m = (g - tlist_handle s) mod 2 ^ 31"
  define n where "n = (if m = 0 then 2 ^ 31 else nat m)"
  have m: "0 \<le> m" by (simp add: m_def)
  have "cand (tlist_handle s) (int n) = (tlist_handle s + m) mod 2 ^ 31"
    using m by (simp add: cand_def n_def)
  also have "\<dots> = g mod 2 ^ 31" unfolding m_def by (simp add: mod_simps)
  also have "\<dots> = g" using assms(2) by (simp add: unused_def)
  finally have c: "cand (tlist_handle s) (int n) = g" .
  have "1 \<le> n" using m by (auto simp: n_def)
  from alloc_handle_reach[OF assms(1) this] show ?thesis using assms(2) c by simp
qed

subsection \<open>The four operations on the pending timeouts\<close>

lemma hd0_filter_null: "NULL \<notin> set xs \<Longrightarrow> hd0 (filter P xs) = NULL \<longleftrightarrow> (\<forall>x\<in>set xs. \<not> P x)"
  by (induction xs) auto

lemma buckets_nonnull: "buckets s L \<Longrightarrow> NULL \<notin> set (L i)"
  using buckets_mem[of s L NULL i] by blast

lemma timer_of_NULL: "buckets s L \<Longrightarrow> timer_of s L h = NULL \<longleftrightarrow> (\<forall>p\<in>set (L (bucket h)). hndl s p \<noteq> h)"
  unfolding timer_of_def by (simp add: hd0_filter_null buckets_nonnull)

text \<open>A structure that is in no list can be given a new handle and put into its list.\<close>

lemma hash_in:
  assumes b: "buckets s L" and p: "tls s p = Some P" "p \<noteq> NULL" "\<And>i. p \<notin> set (L i)"
    and h: "0 \<le> h" and T: "tl_hndl T = h"
  shows "\<exists>u t. upd_tl p (\<lambda>_. T) s = Some u \<and> enter_timer_in_list p u = Some t \<and>
    buckets t (L(bucket h := p # L (bucket h))) \<and> hndl t = (hndl s)(p := h) \<and>
    payload t = (payload s)(p := (tl_fcn T, tl_arg T)) \<and> tl_mem t = tl_mem s \<and> armed t = armed s"
proof -
  let ?u = "s\<lparr>tls := (tls s)(p \<mapsto> T)\<rparr>"
  have "tnext ?u = (tnext s)(p \<mapsto> tl_next T)" by (auto simp: tnext_def fun_eq_iff)
  then have bu: "buckets ?u L" using b p(3) by (simp add: buckets_def)
  have Tp: "tls ?u p = Some T" by simp
  obtain t where t: "enter_timer_in_list p ?u = Some t" "tl_same ?u t"
    "buckets t (L(bucket (tl_hndl T) := p # L (bucket (tl_hndl T))))"
    using enter_spec[OF bu Tp p(2,3)] h T by blast
  moreover have "upd_tl p (\<lambda>_. T) s = Some ?u" by (rule upd_tl_Some[OF p(1)])
  moreover have "hndl t = (hndl s)(p := h)" "payload t = (payload s)(p := (tl_fcn T, tl_arg T))"
    using t(2) T by (auto simp: tl_same_def hndl_def payload_def fun_eq_iff)
  ultimately show ?thesis using T t(2) by (auto simp: tl_same_def)
qed

lemma tinv_pending:
  assumes inv: "tinv s L" and p: "\<And>i. p \<notin> set (L i)" and h: "0 < h" "bucket h \<noteq> 0" "timer_of s L h = NULL"
    and t: "buckets t (L(bucket h := p # L (bucket h)))" "hndl t = (hndl s)(p := h)" "payload t = (payload s)(p := d)"
  shows "tinv t (L(bucket h := p # L (bucket h)))" "pend t (L(bucket h := p # L (bucket h))) = (pend s L)(h \<mapsto> d)"
proof -
  let ?L = "L(bucket h := p # L (bucket h))"
  have bs: "buckets s L" using inv by (simp add: tinv_def)
  have new: "\<forall>q\<in>set (L (bucket h)). hndl s q \<noteq> h" using h(3) by (simp add: timer_of_NULL[OF bs])
  have keep: "hndl t q = hndl s q" if "q \<in> set (L i)" for q i using that p[of i] t(2) by auto
  have dist: "distinct (map (hndl t) (?L i))" if "i \<noteq> 0" for i
  proof -
    have meq: "map (hndl t) (L i) = map (hndl s) (L i)" using keep by simp
    have d: "distinct (map (hndl t) (L i))" unfolding meq using inv that by (simp add: tinv_def)
    have "h \<notin> hndl t ` set (L (bucket h))" using new keep by (auto simp: image_iff)
    moreover have "hndl t p = h" by (simp add: t(2))
    ultimately show ?thesis using d by (cases "i = bucket h") (simp_all add: image_iff)
  qed
  show "tinv t ?L"
    using inv h t(1) dist keep p by (auto simp: tinv_def t(2))
  have nn: "p \<noteq> NULL" using buckets_nonnull[OF t(1), of "bucket h"] by auto
  have other: "timer_of t ?L g = timer_of s L g" if "g \<noteq> h" for g
  proof -
    have "filter (\<lambda>q. hndl t q = g) (L i) = filter (\<lambda>q. hndl s q = g) (L i)" for i
      by (rule filter_cong[OF refl]) (simp add: keep)
    then show ?thesis using that t(2) by (simp add: timer_of_def)
  qed
  show "pend t ?L = (pend s L)(h \<mapsto> d)"
  proof
    fix g
    show "pend t ?L g = ((pend s L)(h \<mapsto> d)) g"
    proof (cases "g = h")
      case True
      then show ?thesis using h(2) nn t(2,3) by (simp add: pend_def timer_of_def)
    next
      case False
      have "payload t (timer_of s L g) = payload s (timer_of s L g)" if "timer_of s L g \<noteq> NULL"
        using timer_of_mem[OF refl that] p[of "bucket g"] t(3) by auto
      then show ?thesis using False by (auto simp: pend_def other[OF False])
    qed
  qed
qed

text \<open>A structure is at hand: on the free list, or from the kernel.\<close>

definition timer_room :: "dki \<Rightarrow> (nat \<Rightarrow> ptr list) \<Rightarrow> bool" where
  "timer_room s L \<longleftrightarrow> L 0 \<noteq> [] \<or> (\<exists>p ps. tl_mem s = p # ps \<and> p \<noteq> NULL \<and> tls s p = None)"

lemma alloc_timer_spec:
  assumes inv: "tinv s L" and room: "timer_room s L"
  shows "\<exists>p t ps. alloc_timer s = Some (p, t) \<and> p \<noteq> NULL \<and> (\<exists>P. tls t p = Some P) \<and> (\<forall>i. p \<notin> set ((L(0 := ps)) i)) \<and>
    tinv t (L(0 := ps)) \<and> pend t (L(0 := ps)) = pend s L \<and> tlist_handle t = tlist_handle s \<and> armed t = armed s \<and>
    (\<forall>h. unused t (L(0 := ps)) h = unused s L h) \<and> (L 0 \<noteq> [] \<longrightarrow> p = hd (L 0))"
proof -
  have b: "buckets s L" using inv by (simp add: tinv_def)
  have other: "timer_of t (L(0 := ps)) h = timer_of s L h" if "bucket h \<noteq> 0" "\<And>q. q \<in> set (L (bucket h)) \<Longrightarrow> hndl t q = hndl s q" for t ps h
  proof -
    have "filter (\<lambda>q. hndl t q = h) (L (bucket h)) = filter (\<lambda>q. hndl s q = h) (L (bucket h))"
      by (rule filter_cong[OF refl]) (simp add: that(2))
    with that(1) show ?thesis by (simp add: timer_of_def)
  qed
  show ?thesis
  proof (cases "L 0")
    case (Cons p ps)
    then obtain P where P: "tl_heads s 0 = p" "p \<noteq> NULL" "tls s p = Some P" "sseg (tnext s) (tl_next P) ps NULL"
      using b by (auto simp: buckets_def dest!: spec[of _ 0] tnextD)
    let ?t = "set_head 0 (tl_next P) s"
    have f: "tnext ?t = tnext s" "hndl ?t = hndl s" "payload ?t = payload s"
      by (auto simp: set_head_def tnext_def hndl_def payload_def fun_eq_iff)
    have "alloc_timer s = Some (p, ?t)" using P by (simp add: alloc_timer_def)
    moreover have bt: "buckets ?t (L(0 := ps))"
    proof -
      have "set ((L(0 := ps)) i) \<subseteq> set (L i)" for i using Cons by auto
      moreover have "set (L i) \<inter> set (L j) = {}" if "i \<noteq> j" for i j using b that by (simp add: buckets_def)
      ultimately have "set ((L(0 := ps)) i) \<inter> set ((L(0 := ps)) j) = {}" if "i \<noteq> j" for i j using that by blast
      moreover have "sseg (tnext ?t) (tl_heads ?t i) ((L(0 := ps)) i) NULL" for i
        using b P(4) unfolding buckets_def f by (simp add: set_head_def)
      ultimately show ?thesis unfolding buckets_def by blast
    qed
    moreover have "p \<notin> set ((L(0 := ps)) i)" for i
    proof (cases "i = 0")
      case True
      with buckets_distinct[OF b, of 0] Cons show ?thesis by simp
    next
      case False
      then have "set (L 0) \<inter> set (L i) = {}" using b by (simp add: buckets_def)
      with False Cons show ?thesis by auto
    qed
    moreover have "tinv ?t (L(0 := ps))" using inv bt Cons by (auto simp: tinv_def f)
    moreover have tm: "timer_of ?t (L(0 := ps)) h = timer_of s L h" if "bucket h \<noteq> 0" for h
      by (rule other[OF that]) (simp add: f)
    have "pend ?t (L(0 := ps)) = pend s L" by (auto simp: pend_def tm f fun_eq_iff)
    moreover have "unused ?t (L(0 := ps)) h = unused s L h" for h by (auto simp: unused_def tm)
    ultimately show ?thesis using P Cons by (intro exI[of _ p] exI[of _ ?t] exI[of _ ps]) (auto simp: set_head_def)
  next
    case Nil
    then obtain p rest where p: "tl_mem s = p # rest" "p \<noteq> NULL" "tls s p = None" using room by (auto simp: timer_room_def)
    let ?t = "s\<lparr>tl_mem := rest, tls := (tls s)(p \<mapsto> tl_zero)\<rparr>"
    have "tl_heads s 0 = NULL" using b Nil by (auto simp: buckets_def dest!: spec[of _ 0])
    then have "alloc_timer s = Some (p, ?t)" using p by (simp add: alloc_timer_def)
    moreover have L0: "L(0 := []) = L" using Nil by auto
    moreover have out: "p \<notin> set (L i)" for i using buckets_mem[OF b, of p i] p(3) by auto
    have f: "tnext ?t = (tnext s)(p \<mapsto> NULL)" "hndl ?t = hndl s" "payload ?t = payload s"
      using p(3) by (auto simp: tnext_def hndl_def payload_def tl_zero_def fun_eq_iff)
    have bt: "buckets ?t L" using b out unfolding buckets_def f by simp
    have "tinv ?t L" using inv bt by (simp add: tinv_def f)
    moreover have "pend ?t L = pend s L" by (auto simp: pend_def timer_of_def f fun_eq_iff)
    moreover have "unused ?t L h = unused s L h" for h by (auto simp: unused_def timer_of_def f)
    ultimately show ?thesis using p out Nil by (intro exI[of _ p] exI[of _ ?t] exI[of _ "[]"]) simp
  qed
qed

text \<open>\<open>timeout\<close>: a positive handle not in use, with the given procedure and argument pending under it.\<close>

lemma timeout_spec:
  assumes inv: "tinv s L" and room: "timer_room s L" and free: "unused s L g"
  shows "\<exists>h t L'. lis_timeout fcn arg ticks s = Some (h, t) \<and> 0 < h \<and> pend s L h = None \<and> tinv t L' \<and>
    pend t L' = (pend s L)(h \<mapsto> (fcn, arg)) \<and> armed t (timer_of t L' h) = Some ticks \<and>
    (L 0 \<noteq> [] \<longrightarrow> timer_of t L' h = hd (L 0))"
proof -
  obtain p u ps P where u: "alloc_timer s = Some (p, u)" "p \<noteq> NULL" "tls u p = Some P" "\<forall>i. p \<notin> set ((L(0 := ps)) i)"
    "tinv u (L(0 := ps))" "pend u (L(0 := ps)) = pend s L" "\<forall>h. unused u (L(0 := ps)) h = unused s L h" "L 0 \<noteq> [] \<longrightarrow> p = hd (L 0)"
    using alloc_timer_spec[OF inv room] by blast
  let ?L = "L(0 := ps)"
  have bu: "buckets u ?L" using u(5) by (simp add: tinv_def)
  obtain h c where h: "alloc_handle u = Some (h, u\<lparr>tlist_handle := c\<rparr>)" "unused u ?L h"
    using alloc_handle_spec[OF bu, of g] free u(7) by blast
  let ?v = "u\<lparr>tlist_handle := c\<rparr>"
  have v: "hndl ?v = hndl u" "payload ?v = payload u" by (auto simp: hndl_def payload_def fun_eq_iff)
  have bv: "buckets ?v ?L" using bu by (simp add: buckets_def)
  have iv: "tinv ?v ?L" using u(5) bv by (simp add: tinv_def v)
  have pv: "pend ?v ?L = pend u ?L" by (simp add: pend_def timer_of_def v fun_eq_iff)
  have "timer_of ?v ?L h = timer_of u ?L h" by (simp only: timer_of_def v)
  then have tv: "timer_of ?v ?L h = NULL" using h(2) by (simp only: unused_def)
  have hh: "0 < h" "bucket h \<noteq> 0" using h(2) by (simp_all add: unused_def)
  let ?T = "tl_zero\<lparr>tl_hndl := h, tl_fcn := fcn, tl_arg := arg\<rparr>"
  have Pv: "tls ?v p = Some P" using u(3) by simp
  obtain w t where t: "upd_tl p (\<lambda>_. ?T) ?v = Some w" "enter_timer_in_list p w = Some t"
    "buckets t (?L(bucket h := p # ?L (bucket h)))" "hndl t = (hndl ?v)(p := h)"
    "payload t = (payload ?v)(p := (fcn, arg))"
    using hash_in[OF bv Pv u(2), of h ?T] u(4) hh by auto
  let ?M = "?L(bucket h := p # ?L (bucket h))"
  let ?t = "t\<lparr>armed := (armed t)(p \<mapsto> ticks)\<rparr>"
  have out: "p \<notin> set (?L i)" for i using u(4) by blast
  have f: "tnext ?t = tnext t" "hndl ?t = hndl t" "payload ?t = payload t"
    by (auto simp: tnext_def hndl_def payload_def fun_eq_iff)
  have bt: "buckets ?t ?M" using t(3) unfolding buckets_def f by simp
  note tp = tinv_pending[OF iv out hh tv bt t(4,5)[folded f(2,3)]]
  have "timer_of ?t ?M h = p" using t(4) by (simp add: timer_of_def f)
  then have "L 0 \<noteq> [] \<longrightarrow> timer_of ?t ?M h = hd (L 0)" using u(8) by (simp only:)
  moreover have "armed ?t (timer_of ?t ?M h) = Some ticks" unfolding \<open>timer_of ?t ?M h = p\<close> by simp
  moreover have "lis_timeout fcn arg ticks s = Some (h, ?t)"
    using u(1,2) h(1) t(1,2) by (simp add: lis_timeout_def)
  moreover have "pend s L h = None"
    using h(2) u(6) by (auto simp: pend_def unused_def fun_eq_iff dest!: spec[of _ h] split: if_splits)
  moreover have "tinv ?t ?M" "pend ?t ?M = (pend s L)(h \<mapsto> (fcn, arg))" using tp pv u(6) by simp_all
  ultimately show ?thesis using hh(1) by blast
qed

text \<open>Taking a structure off its list and putting it on the free list.\<close>

definition released :: "(nat \<Rightarrow> ptr list) \<Rightarrow> nat \<Rightarrow> ptr \<Rightarrow> nat \<Rightarrow> ptr list" where
  "released L i p = (let M = L(i := remove1 p (L i)) in M(0 := p # M 0))"

lemma upd_tl_const: "tls s p = Some P \<Longrightarrow> upd_tl p f s = upd_tl p (\<lambda>_. f P) s"
  by (simp add: upd_tl_def)

lemma release_spec:
  assumes b: "buckets s L" and p: "p \<in> set (L i)" "bucket (hndl s p) = i" "0 \<le> hndl s p"
    and f: "\<And>P. tl_hndl (f P) = 0"
  shows "\<exists>u P v t. remove_timer_from_list p s = Some (True, u) \<and> tls u p = Some P \<and> tl_hndl P = hndl s p \<and>
    (tl_fcn P, tl_arg P) = payload s p \<and> upd_tl p f u = Some v \<and> enter_timer_in_list p v = Some t \<and>
    buckets t (released L i p) \<and> hndl t = (hndl s)(p := 0) \<and>
    payload t = (payload s)(p := (tl_fcn (f P), tl_arg (f P))) \<and>
    (\<forall>A. upd_tl p f (u\<lparr>armed := A\<rparr>) = Some (v\<lparr>armed := A\<rparr>)) \<and>
    (\<forall>A. enter_timer_in_list p (v\<lparr>armed := A\<rparr>) = Some (t\<lparr>armed := A\<rparr>))"
proof -
  obtain P0 where P0: "tls s p = Some P0" "p \<noteq> NULL" using buckets_mem[OF b p(1)] by blast
  then have h: "tl_hndl P0 = hndl s p" by (simp add: hndl_def)
  have only: "p \<notin> set (L j)" if "j \<noteq> i" for j by (rule buckets_only[OF b p(1) that])
  obtain u where u: "remove_timer_from_list p s = Some (True, u)" "tl_same s u" "buckets u (L(i := remove1 p (L i)))"
    using remove_spec[OF b P0] p only h by auto
  have "p \<in> dom (tls u)" using u(2) P0(1) by (auto simp: tl_same_def)
  then obtain P where P: "tls u p = Some P" by blast
  have pl: "tl_hndl P = hndl s p" "(tl_fcn P, tl_arg P) = payload s p"
    using u(2) P by (auto simp: tl_same_def hndl_def payload_def fun_eq_iff dest!: spec[of _ p])
  have out: "p \<notin> set ((L(i := remove1 p (L i))) j)" for j
    using only[of j] buckets_distinct[OF b, of i] by (cases "j = i") auto
  obtain v t where t: "upd_tl p (\<lambda>_. f P) u = Some v" "enter_timer_in_list p v = Some t"
    "buckets t ((L(i := remove1 p (L i)))(bucket 0 := p # (L(i := remove1 p (L i))) (bucket 0)))"
    "hndl t = (hndl u)(p := 0)" "payload t = (payload u)(p := (tl_fcn (f P), tl_arg (f P)))" "armed t = armed u"
    using hash_in[OF u(3) P P0(2) out order_refl f[of P]] by blast
  have b0: "bucket 0 = 0" by (simp add: bucket_def)
  have ft: "upd_tl p f u = Some v" using t(1) upd_tl_const[OF P] by simp
  have A1: "upd_tl p f (u\<lparr>armed := A\<rparr>) = Some (v\<lparr>armed := A\<rparr>)" for A
    using ft P by (auto simp: upd_tl_def)
  have A2: "enter_timer_in_list p (v\<lparr>armed := A\<rparr>) = Some (t\<lparr>armed := A\<rparr>)" for A
    using t(2) by (auto simp: enter_timer_in_list_def upd_tl_def set_head_def bind_Some_iff)
  have "buckets t (released L i p)" "hndl t = (hndl s)(p := 0)"
    "payload t = (payload s)(p := (tl_fcn (f P), tl_arg (f P)))"
    using t(3-5) u(2) b0 by (simp_all add: released_def Let_def tl_same_def)
  with u(1) P pl ft t(2) A1 A2 show ?thesis by blast
qed

lemma tinv_release:
  assumes inv: "tinv s L" and p: "p \<in> set (L i)" "i \<noteq> 0"
    and t: "buckets t (released L i p)" "hndl t = (hndl s)(p := 0)" "\<And>q. q \<noteq> p \<Longrightarrow> payload t q = payload s q"
  shows "tinv t (released L i p) \<and> pend t (released L i p) = (pend s L)(hndl s p := None)"
proof
  have b: "buckets s L" using inv by (simp add: tinv_def)
  let ?h = "hndl s p"
  have h: "0 < ?h" "bucket ?h = i" using inv p by (auto simp: tinv_def)
  have only: "p \<notin> set (L j)" if "j \<noteq> i" for j by (rule buckets_only[OF b p(1) that])
  have L': "released L i p j = (if j = 0 then p # L 0 else remove1 p (L j))" for j
    using p(2) only[of j] by (auto simp: released_def Let_def remove1_idem)
  have mem: "q \<in> set (released L i p j) \<longleftrightarrow> q \<in> set (L j) \<and> q \<noteq> p" if "j \<noteq> 0" for q j
    using that buckets_distinct[OF b, of j] by (simp add: L')
  have keep: "hndl t q = hndl s q" if "q \<noteq> p" for q using that t(2) by simp
  have "distinct (map (hndl t) (released L i p j))" if "j \<noteq> 0" for j
  proof -
    have "map (hndl t) (released L i p j) = map (hndl s) (released L i p j)"
      using mem[OF that] keep by (intro map_cong) auto
    moreover have "distinct (map (hndl s) (L j))" using inv that by (simp add: tinv_def)
    ultimately show ?thesis using that buckets_distinct[OF b, of j]
      by (auto simp: L' distinct_map inj_on_def)
  qed
  then show "tinv t (released L i p)"
    using inv t(1,2) mem only[of 0] p(2) unfolding tinv_def by (auto simp: L' keep)
  have tm: "timer_of t (released L i p) g = (if g = ?h then NULL else timer_of s L g)" if "bucket g \<noteq> 0" for g
  proof (cases "g = ?h")
    case True
    have "hndl t q \<noteq> ?h" if "q \<in> set (released L i p i)" for q
    proof
      assume e: "hndl t q = ?h"
      have q: "q \<in> set (L i)" "q \<noteq> p" using mem[OF p(2)] that by auto
      with e keep have "hndl s q = hndl s p" by simp
      with timer_of_in[OF inv q(1) p(2)] timer_of_in[OF inv p] q(2) show False by simp
    qed
    then show ?thesis using True h(2) by (simp add: timer_of_NULL[OF t(1)])
  next
    case False
    have "filter (\<lambda>q. hndl t q = g) (remove1 p xs) = filter (\<lambda>q. hndl s q = g) xs" if "distinct xs" for xs
      unfolding distinct_remove1_removeAll[OF that] removeAll_filter_not_eq filter_filter
      by (rule filter_cong[OF refl]) (use False keep in metis)
    with False that buckets_distinct[OF b, of "bucket g"] show ?thesis by (simp add: timer_of_def L')
  qed
  show "pend t (released L i p) = (pend s L)(?h := None)"
  proof
    fix g
    show "pend t (released L i p) g = ((pend s L)(?h := None)) g"
    proof (cases "g = ?h \<or> bucket g = 0")
      case True
      then show ?thesis using tm[of g] h p(2) by (auto simp: pend_def)
    next
      case False
      have "payload t (timer_of s L g) = payload s (timer_of s L g)" if "timer_of s L g \<noteq> NULL"
        using timer_of_mem[OF refl that] False by (intro t(3)) auto
      with False tm[of g] show ?thesis by (auto simp: pend_def)
    qed
  qed
qed

text \<open>\<open>untimeout\<close>: the timeout with that handle is no longer pending, its timer is stopped.\<close>

lemma untimeout_spec:
  assumes inv: "tinv s L" and h: "0 < h"
  shows "\<exists>t L'. lis_untimeout h s = Some t \<and> tinv t L' \<and> pend t L' = (pend s L)(h := None) \<and>
    (pend s L h \<noteq> None \<longrightarrow> armed t (timer_of s L h) = None \<and> L' 0 = timer_of s L h # L 0)"
proof -
  have b: "buckets s L" using inv by (simp add: tinv_def)
  define p where "p = timer_of s L h"
  have fd: "find_timer_by_handle h s = Some p" using find_timer_spec[OF b] h by (simp add: p_def)
  show ?thesis
  proof (cases "p = NULL")
    case True
    then have "lis_untimeout h s = Some s" using fd by (simp add: lis_untimeout_def)
    moreover have "pend s L h = None" using True by (simp add: pend_def p_def)
    then have "(pend s L)(h := None) = pend s L" by (rule fun_upd_idem)
    ultimately show ?thesis using inv \<open>pend s L h = None\<close> by auto
  next
    case False
    then have p: "p \<in> set (L (bucket h))" "hndl s p = h" using timer_of_mem[of s L h p] by (auto simp: p_def)
    have i: "bucket h \<noteq> 0" using p inv h by (metis less_irrefl tinv_def)
    let ?f = "\<lambda>t. t\<lparr>tl_hndl := 0\<rparr>"
    have f0: "\<And>P. tl_hndl (?f P) = 0" by simp
    have ph: "bucket (hndl s p) = bucket h" "0 \<le> hndl s p" using p(2) h by simp_all
    obtain u P v t where r0: "remove_timer_from_list p s = Some (True, u)" "tls u p = Some P" "tl_hndl P = hndl s p"
      "(tl_fcn P, tl_arg P) = payload s p" "upd_tl p ?f u = Some v" "enter_timer_in_list p v = Some t"
      "buckets t (released L (bucket h) p)" "hndl t = (hndl s)(p := 0)"
      "payload t = (payload s)(p := (tl_fcn (?f P), tl_arg (?f P)))"
      "\<forall>A. upd_tl p ?f (u\<lparr>armed := A\<rparr>) = Some (v\<lparr>armed := A\<rparr>)"
      "\<forall>A. enter_timer_in_list p (v\<lparr>armed := A\<rparr>) = Some (t\<lparr>armed := A\<rparr>)"
      using release_spec[OF b p(1) ph, of ?f, OF f0] by (elim exE conjE) (rule that)
    have "payload t = payload s" using r0(9) by (simp add: r0(4))
    note r = r0(1,7,8) this r0(10,11)
    let ?t = "t\<lparr>armed := (armed u)(p := None)\<rparr>"
    have f: "tnext ?t = tnext t" "hndl ?t = hndl t" "payload ?t = payload t"
      by (auto simp: tnext_def hndl_def payload_def fun_eq_iff)
    have bt: "buckets ?t (released L (bucket h) p)" using r(2) unfolding buckets_def f by simp
    have "lis_untimeout h s = Some ?t" using fd False r(1,5,6) by (simp add: lis_untimeout_def Let_def)
    moreover have "tinv ?t (released L (bucket h) p) \<and> pend ?t (released L (bucket h) p) = (pend s L)(hndl s p := None)"
      by (rule tinv_release[OF inv p(1) i bt]) (use r(3,4) in \<open>simp_all add: f\<close>)
    moreover have "released L (bucket h) p 0 = p # L 0" using i by (simp add: released_def Let_def)
    ultimately show ?thesis using p(2) by (intro exI[of _ ?t] exI[of _ "released L (bucket h) p"]) (simp add: p_def)
  qed
qed

text \<open>Expiry of a pending timeout: it is no longer pending, and its procedure is called with its argument.\<close>

lemma expire_spec:
  assumes inv: "tinv s L" and p: "p \<in> set (L i)" "i \<noteq> 0" and f: "payload s p = (fcn, arg)" "fcn \<noteq> 0"
  shows "\<exists>t L'. tinv t L' \<and> pend t L' = (pend s L)(hndl s p := None) \<and>
    (\<forall>call. sys_timeout_fcn call p s = call fcn arg t)"
proof -
  have b: "buckets s L" using inv by (simp add: tinv_def)
  have h: "0 < hndl s p" "bucket (hndl s p) = i" using inv p by (auto simp: tinv_def)
  let ?f = "\<lambda>t. t\<lparr>tl_hndl := 0, tl_fcn := 0\<rparr>"
  obtain u P v t where r: "remove_timer_from_list p s = Some (True, u)" "tls u p = Some P" "tl_hndl P = hndl s p"
    "(tl_fcn P, tl_arg P) = payload s p" "upd_tl p ?f u = Some v" "enter_timer_in_list p v = Some t"
    "buckets t (released L i p)" "hndl t = (hndl s)(p := 0)"
    "payload t = (payload s)(p := (tl_fcn (?f P), tl_arg (?f P)))"
    using release_spec[OF b p(1) h(2) less_imp_le[OF h(1)], of ?f] by auto
  have "sys_timeout_fcn call p s = call fcn arg t" for call
    using r(1-6) f h(1) by (simp add: sys_timeout_fcn_def)
  moreover have "tinv t (released L i p) \<and> pend t (released L i p) = (pend s L)(hndl s p := None)"
    by (rule tinv_release[OF inv p r(7,8)]) (simp add: r(9))
  ultimately show ?thesis by blast
qed

text \<open>The expiry of a timer that was cancelled while the kernel was about to call it does nothing.\<close>

lemma late_expire_spec:
  assumes inv: "tinv s L" and p: "p \<in> set (L 0)"
  shows "\<exists>t L'. tinv t L' \<and> pend t L' = pend s L \<and> (\<forall>call. sys_timeout_fcn call p s = Some t)"
proof -
  have b: "buckets s L" using inv by (simp add: tinv_def)
  have h: "hndl s p = 0" "bucket (hndl s p) = 0" using inv p by (auto simp: tinv_def bucket_def)
  let ?f = "\<lambda>t. t\<lparr>tl_hndl := 0, tl_fcn := 0\<rparr>"
  obtain u P v t where r: "remove_timer_from_list p s = Some (True, u)" "tls u p = Some P" "tl_hndl P = hndl s p"
    "upd_tl p ?f u = Some v" "enter_timer_in_list p v = Some t"
    "buckets t (released L 0 p)" "hndl t = (hndl s)(p := 0)"
    "payload t = (payload s)(p := (tl_fcn (?f P), tl_arg (?f P)))"
    using release_spec[OF b p h(2) eq_refl[OF h(1)[symmetric]], of ?f] by auto
  have call: "sys_timeout_fcn call p s = Some t" for call
    using r(1-5) h(1) by (simp add: sys_timeout_fcn_def)
  have hs: "hndl t = hndl s" using r(7) h(1) by (auto simp: fun_eq_iff)
  have only: "p \<notin> set (L j)" if "j \<noteq> 0" for j by (rule buckets_only[OF b p that])
  have L': "released L 0 p = L(0 := p # remove1 p (L 0))" by (simp add: released_def Let_def)
  have "tinv t (released L 0 p)"
    using inv r(6) p set_remove1_subset[of p "L 0"] unfolding tinv_def hs L' by auto
  moreover have "pend t (released L 0 p) g = pend s L g" for g
  proof (cases "bucket g = 0")
    case False
    then have tm: "timer_of t (released L 0 p) g = timer_of s L g" by (simp add: timer_of_def hs L')
    have "payload t (timer_of s L g) = payload s (timer_of s L g)" if "timer_of s L g \<noteq> NULL"
      using timer_of_mem[OF refl that] only[OF False] r(8) by auto
    with tm show ?thesis by (auto simp: pend_def)
  qed (simp add: pend_def)
  ultimately show ?thesis using call by blast
qed

subsection \<open>Termination\<close>

lemma terminate_list_spec:
  assumes "tinv s L"
  shows "\<exists>t. terminate_list i s = Some t \<and> tinv t (L(i := [])) \<and> tl_freed t = rev (L i) @ tl_freed s \<and>
    (\<forall>p\<in>set (L i). tls t p = None) \<and> (\<forall>p. tls s p = None \<longrightarrow> tls t p = None)"
  using assms
proof (induction "L i" arbitrary: s L)
  case Nil
  then have "tl_heads s i = NULL" by (auto simp: tinv_def buckets_def dest!: spec[of _ i])
  moreover have "L(i := []) = L" using Nil by auto
  ultimately show ?case using Nil by (intro exI[of _ s]) (simp add: terminate_list.simps)
next
  case (Cons p ps)
  have b: "buckets s L" using Cons.prems by (simp add: tinv_def)
  have Li: "L i = p # ps" using Cons.hyps(2) by simp
  have hd: "tl_heads s i = p" "p \<noteq> NULL" using b Li by (auto simp: buckets_def dest!: spec[of _ i])
  obtain P where P: "tls s p = Some P" using buckets_mem[OF b, of p i] Li by auto
  have only: "p \<notin> set (L j)" if "j \<noteq> i" for j by (rule buckets_only[OF b _ that]) (simp add: Li)
  have "hndl s p = tl_hndl P" "p \<in> set (L i)" using P Li by (simp_all add: hndl_def)
  moreover have "hndl s p = 0" if "i = 0"
    using Cons.prems \<open>p \<in> set (L i)\<close> that unfolding tinv_def by blast
  moreover have "0 < hndl s p \<and> bucket (hndl s p) = i" if "i \<noteq> 0"
    using Cons.prems \<open>p \<in> set (L i)\<close> that unfolding tinv_def by blast
  ultimately have h: "0 \<le> tl_hndl P" "bucket (tl_hndl P) = i"
    by (cases "i = 0"; simp add: bucket_def)+
  let ?a = "s\<lparr>armed := (armed s)(p := None)\<rparr>"
  have f: "tnext ?a = tnext s" "hndl ?a = hndl s" by (auto simp: tnext_def hndl_def fun_eq_iff)
  have ba: "buckets ?a L" using b unfolding buckets_def f by simp
  have Pa: "tls ?a p = Some P" using P by simp
  obtain u where u: "remove_timer_from_list p ?a = Some (p \<in> set (L i), u)" "tl_same ?a u" "buckets u (L(i := remove1 p (L i)))"
    using remove_spec[OF ba Pa hd(2) h(1)] only h(2) by auto
  let ?v = "u\<lparr>tls := (tls u)(p := None), tl_freed := p # tl_freed u\<rparr>"
  have rm: "L(i := remove1 p (L i)) = L(i := ps)" using Li by simp
  have out: "p \<notin> set ((L(i := ps)) j)" for j
    using only[of j] buckets_distinct[OF b, of i] Li by (cases "j = i") auto
  have bv: "buckets ?v (L(i := ps))"
  proof -
    have "tnext ?v = (tnext u)(p := None)" by (auto simp: tnext_def fun_eq_iff)
    then show ?thesis using u(3) out unfolding rm buckets_def by simp
  qed
  have hk: "hndl ?v q = hndl s q" if "q \<noteq> p" for q
  proof -
    have "hndl ?v q = hndl u q" using that by (simp add: hndl_def)
    also have "\<dots> = hndl s q" using u(2) f(2) by (simp add: tl_same_def)
    finally show ?thesis .
  qed
  have hkm: "map (hndl ?v) ((L(i := ps)) j) = map (hndl s) ((L(i := ps)) j)" for j
    using out[of j] by (intro map_cong[OF refl]) (metis hk)
  have sub: "set ((L(i := ps)) j) \<subseteq> set (L j)" for j using Li by auto
  have inv: "tinv ?v (L(i := ps))"
    unfolding tinv_def
  proof (intro conjI ballI allI impI)
    show "buckets ?v (L(i := ps))" by (rule bv)
    show "hndl ?v q = 0" if "q \<in> set ((L(i := ps)) 0)" for q
    proof -
      have "q \<in> set (L 0)" "q \<noteq> p" using that sub out by blast+
      with Cons.prems hk[of q] show ?thesis by (simp add: tinv_def)
    qed
    show "0 < hndl ?v q" "bucket (hndl ?v q) = j" if "j \<noteq> 0" "q \<in> set ((L(i := ps)) j)" for j q
    proof -
      have "q \<in> set (L j)" "q \<noteq> p" using that sub out by blast+
      with that Cons.prems hk[of q] show "0 < hndl ?v q" "bucket (hndl ?v q) = j" by (auto simp: tinv_def)
    qed
    show "distinct (map (hndl ?v) ((L(i := ps)) j))" if "j \<noteq> 0" for j
    proof -
      have "distinct (map (hndl s) (L j))" using that Cons.prems by (simp add: tinv_def)
      then show ?thesis unfolding hkm using Li by (cases "j = i") auto
    qed
  qed
  obtain t where t: "terminate_list i ?v = Some t" "tinv t ((L(i := ps))(i := []))"
    "tl_freed t = rev ps @ tl_freed ?v" "\<forall>q\<in>set ps. tls t q = None" "\<forall>q. tls ?v q = None \<longrightarrow> tls t q = None"
    using Cons.hyps(1)[of "L(i := ps)" ?v] inv by auto
  have "terminate_list i s = Some t"
    using hd u(1) t(1) by (subst terminate_list.simps) (simp add: Let_def)
  moreover have "tl_freed u = tl_freed s" "dom (tls u) = dom (tls s)" using u(2) by (simp_all add: tl_same_def)
  moreover have mono: "tls s q = None \<Longrightarrow> tls t q = None" for q
  proof -
    assume "tls s q = None"
    then have "q \<notin> dom (tls u)" unfolding \<open>dom (tls u) = dom (tls s)\<close> by (simp add: domIff)
    then show "tls t q = None" using t(5) by (simp add: domIff)
  qed
  moreover have "tls t p = None" using t(5) by simp
  ultimately show ?case using t(2-4) unfolding Li fun_upd_upd
    by (intro exI[of _ t] conjI) simp_all
qed

lemma terminate_lists_spec:
  assumes "tinv s L" "distinct is"
  shows "\<exists>t. terminate_lists is s = Some t \<and> tinv t (\<lambda>i. if i \<in> set is then [] else L i) \<and>
    tl_freed t = rev (concat (map L is)) @ tl_freed s"
  using assms
proof (induction "is" arbitrary: s L)
  case Nil
  then show ?case by simp
next
  case (Cons i "is")
  obtain u where u: "terminate_list i s = Some u" "tinv u (L(i := []))" "tl_freed u = rev (L i) @ tl_freed s"
    using terminate_list_spec[OF Cons.prems(1)] by blast
  obtain t where t: "terminate_lists is u = Some t" "tinv t (\<lambda>j. if j \<in> set is then [] else (L(i := [])) j)"
    "tl_freed t = rev (concat (map (L(i := [])) is)) @ tl_freed u"
    using Cons.IH[OF u(2)] Cons.prems(2) unfolding distinct.simps by blast
  have "(\<lambda>j. if j \<in> set is then [] else (L(i := [])) j) = (\<lambda>j. if j \<in> set (i # is) then [] else L j)"
    by auto
  moreover have eq: "map (L(i := [])) is = map L is" using Cons.prems(2) by simp
  ultimately show ?case using u t(1,2) t(3)[unfolded eq] by auto
qed

text \<open>Every structure is given back once, and every list is empty.\<close>

lemma terminate_dki_spec:
  assumes "tinv s L" "\<forall>i\<ge>THASH. L i = []"
  shows "\<exists>t. lis_terminate_dki s = Some t \<and> tinv t (\<lambda>_. []) \<and>
    tl_freed t = rev (concat (map L [0..<THASH])) @ tl_freed s"
proof -
  have "(\<lambda>i. if i \<in> set [0..<THASH] then [] else L i) = (\<lambda>_. [])" using assms(2) by auto
  with terminate_lists_spec[OF assms(1), of "[0..<THASH]"] show ?thesis
    by (simp add: lis_terminate_dki_def)
qed

subsection \<open>A cancelled timer that the kernel had already fired\<close>

lemma unused_pend: "unused s L g \<longleftrightarrow> 0 < g \<and> g < 2 ^ 31 \<and> bucket g \<noteq> 0 \<and> pend s L g = None"
  by (auto simp: unused_def pend_def)

lemma pend_timer:
  assumes "tinv s L" "pend s L h = Some d" "0 < h"
  shows "timer_of s L h \<in> set (L (bucket h))" "bucket h \<noteq> 0" "hndl s (timer_of s L h) = h" "payload s (timer_of s L h) = d"
  using assms timer_of_mem[OF refl, of s L h] by (auto simp: pend_def split: if_splits)

text \<open>
  \<open>untimeout\<close> does not wait for an expiry in progress.  The structure it frees is the first that the
  next \<open>timeout\<close> takes, so that the expiry, when it gets the lock, finds the new timeout in it: the new
  procedure runs at once, and its timeout is no longer pending.
\<close>

lemma late_expiry_reused:
  assumes inv: "tinv s L" and p: "pend s L h \<noteq> None" "0 < h" and g: "unused s L g" and f: "fcn \<noteq> 0"
  shows "\<exists>t h' u v M. lis_untimeout h s = Some t \<and> lis_timeout fcn arg ticks t = Some (h', u) \<and>
    (\<forall>call. sys_timeout_fcn call (timer_of s L h) u = call fcn arg v) \<and> tinv v M \<and> pend v M h' = None"
proof -
  obtain t K where t: "lis_untimeout h s = Some t" "tinv t K" "pend t K = (pend s L)(h := None)"
    "K 0 = timer_of s L h # L 0" using untimeout_spec[OF inv p(2)] p(1) by blast
  have "unused t K g" using g t(3) by (auto simp: unused_pend)
  moreover have "timer_room t K" using t(4) by (simp add: timer_room_def)
  ultimately obtain h' u N where u: "lis_timeout fcn arg ticks t = Some (h', u)" "0 < h'" "tinv u N"
    "pend u N = (pend t K)(h' \<mapsto> (fcn, arg))" "timer_of u N h' = timer_of s L h"
    using timeout_spec[OF t(2), of g fcn arg ticks] t(4) by auto
  have P: "pend u N h' = Some (fcn, arg)" by (simp add: u(4))
  note q = pend_timer[OF u(3) P u(2), unfolded u(5)]
  obtain v M where v: "tinv v M" "pend v M = (pend u N)(h' := None)"
    "\<forall>call. sys_timeout_fcn call (timer_of s L h) u = call fcn arg v"
    using expire_spec[OF u(3) q(1,2,4) f] unfolding q(3) by blast
  then show ?thesis using t(1) u(1) by fastforce
qed

end
