(* ===== verification/LiS_ModReg.thy ===== *)
theory LiS_ModReg
  imports LiS_Mod
begin

text \<open>
  The exported functions of \<open>head/mod.c\<close>: registration of modules and drivers, loading on demand, the
  autopush requests, initialisation and termination.
\<close>

unbundle bit_operations_syntax

subsection \<open>Registering modules\<close>

fun findmod_strtab_loop :: "nat \<Rightarrow> nat \<Rightarrow> ptr \<Rightarrow> modst \<Rightarrow> nat option" where
  "findmod_strtab_loop 0 i strtab s = Some 0"
| "findmod_strtab_loop (Suc n) i strtab s = do {
     m \<leftarrow> get_mod i s;
     if f_str m = strtab then Some i else findmod_strtab_loop n (i + 1) strtab s }"

text \<open>The error code of a failed \<open>lis_down\<close> becomes a \<open>modID_t\<close>.\<close>

definition lis_findmod_strtab :: "ptr \<Rightarrow> modst \<Rightarrow> (nat \<times> modst) option" where
  "lis_findmod_strtab strtab s =
     (if strtab \<noteq> NULL
      then do {
        (ret, s) \<leftarrow> reg_down s;
        if ret < 0 then Some (modID ret, s)
        else do {
          i \<leftarrow> findmod_strtab_loop (fmodcnt s - 1) 1 strtab s;
          Some (i, reg_up s) } }
      else Some (LIS_NULL_MID, s))"

definition lis_register_strmod :: "ptr \<Rightarrow> string option \<Rightarrow> modst \<Rightarrow> (nat \<times> modst) option" where
  "lis_register_strmod strtab nm s =
     (case nm of
        None \<Rightarrow> Some (LIS_NULL_MID, s)
      | Some name \<Rightarrow> do {
          (i, s) \<leftarrow> lis_findmod_strtab strtab s;
          if i > 0 then Some (i, s)
          else do {
            (ret, s) \<leftarrow> reg_down s;
            if ret < 0 then Some (modID ret, s)
            else do {
              inx \<leftarrow> find_mod name s;
              (i, new_entry, s) \<leftarrow>
                (if inx > 0 then Some (modID inx, False, s)
                 else do { (i, s) \<leftarrow> find_empty_mod_index name s; Some (i, True, s) });
              if i = fmodcnt s \<and> i = MAX_STRMOD then Some (LIS_NULL_MID, reg_up s)
              else do {
                let s = (if i = fmodcnt s then s\<lparr>fmodcnt := fmodcnt s + 1\<rparr> else s);
                s \<leftarrow> upd_mod i (\<lambda>m. m\<lparr>f_str := strtab\<rparr>) s;
                s \<leftarrow> initialize_module i name
                      (if new_entry \<and> strtab \<noteq> NULL then MODSTATE_LOADED else MODSTATE_LINKED) s;
                Some (i, reg_up s) } } } })"

definition lis_register_module_qlock_option :: "nat \<Rightarrow> int \<Rightarrow> modst \<Rightarrow> (int \<times> modst) option" where
  "lis_register_module_qlock_option i opt s = do {
     (ret, s) \<leftarrow> reg_down s;
     if ret < 0 then Some (ret, s)
     else do { s \<leftarrow> upd_mod i (\<lambda>m. m\<lparr>f_qlock := opt\<rparr>) s; Some (0, reg_up s) } }"

definition unregister_module :: "nat \<Rightarrow> modst \<Rightarrow> (int \<times> modst) option" where
  "unregister_module slot s = do {
     m \<leftarrow> get_mod slot s;
     if f_state m AND MODSTATE_INITED = 0 then Some (0, s)
     else if f_count m \<noteq> 0 then Some (- eBUSY, s)
     else do {
       (err, s) \<leftarrow> mod_down slot s;
       if err < 0 then Some (err, s)
       else do {
         let st = f_state m AND MODSTATE_MASK;
         if st = MODSTATE_LINKED
         then do {
           s \<leftarrow> mod_up slot s;
           s \<leftarrow> deinitialize_module slot s;
           Some (0, apush_drop_mod slot s) }
         else if st = MODSTATE_LOADING
         then do { s \<leftarrow> mod_up slot s; Some (- eBUSY, s) }
         else if st = MODSTATE_LOADED \<or> st = MODSTATE_UNLOADED \<or> st = MODSTATE_UNKNOWN
         then do {
           s \<leftarrow> upd_mod slot (\<lambda>m. m\<lparr>f_str := NULL\<rparr>) s;
           s \<leftarrow> deinitialize_module slot s;
           Some (0, apush_drop_mod slot s) }
         else Some (0, apush_drop_mod slot s) } } }"

text \<open>The search for the slot from index \<open>i\<close> down to 1.\<close>

fun unregister_slot :: "nat \<Rightarrow> ptr \<Rightarrow> modst \<Rightarrow> nat option" where
  "unregister_slot 0 strtab s = None"
| "unregister_slot (Suc n) strtab s = do {
     m \<leftarrow> (if n = 0 then Some (fmod_sw s 1) else get_mod (Suc n) s);
     if n = 0 \<or> f_str m = strtab then Some (Suc n) else unregister_slot n strtab s }"

definition lis_unregister_strmod :: "ptr \<Rightarrow> modst \<Rightarrow> (int \<times> modst) option" where
  "lis_unregister_strmod strtab s = do {
     (ret, s) \<leftarrow> reg_down s;
     if ret < 0 then Some (ret, s)
     else do {
       slot \<leftarrow> unregister_slot (fmodcnt s) strtab s;
       m \<leftarrow> get_mod slot s;
       if f_str m \<noteq> strtab then Some (- eINVAL, reg_up s)
       else do { (ret, s) \<leftarrow> unregister_module slot s; Some (ret, reg_up s) } } }"

fun findmod_loop :: "nat \<Rightarrow> string \<Rightarrow> modst \<Rightarrow> nat option" where
  "findmod_loop 0 name s = Some 0"
| "findmod_loop (Suc n) name s = do {
     m \<leftarrow> get_mod (Suc n) s;
     if f_name m = name then Some (Suc n) else findmod_loop n name s }"

definition lis_findmod :: "string \<Rightarrow> modst \<Rightarrow> nat option" where
  "lis_findmod name s = (if name = [] then Some LIS_NULL_MID else findmod_loop (fmodcnt s) name s)"

subsection \<open>Loading on demand\<close>

fun wait_loop :: "menv \<Rightarrow> nat \<Rightarrow> nat \<Rightarrow> modst \<Rightarrow> (int \<times> modst) option" where
  "wait_loop e 0 i s = Some (1, s)"
| "wait_loop e (Suc n) i s = do {
     let s = me_delay e s;
     m \<leftarrow> get_mod i s;
     if f_str m \<noteq> NULL then Some (0, s) else wait_loop e n i s }"

definition lis_wait_for_module :: "menv \<Rightarrow> nat \<Rightarrow> modst \<Rightarrow> (int \<times> modst) option" where
  "lis_wait_for_module e i s = do {
     m \<leftarrow> get_mod i s;
     if f_str m \<noteq> NULL then Some (0, s) else wait_loop e 50 i s }"

definition set_modstate :: "nat \<Rightarrow> u32 \<Rightarrow> modst \<Rightarrow> modst option" where
  "set_modstate i v s = upd_mod i (\<lambda>m. m\<lparr>f_state := (f_state m AND NOT MODSTATE_MASK) OR v\<rparr>) s"

text \<open>The branch of \<open>lis_loadmod\<close> that asks the kernel to load the module.\<close>

definition demand_load :: "menv \<Rightarrow> string \<Rightarrow> nat \<Rightarrow> modst \<Rightarrow> (nat \<times> modst) option" where
  "demand_load e objname i s = do {
     s \<leftarrow> set_modstate i MODSTATE_LOADING s;
     s \<leftarrow> mod_up i s;
     let s = reg_up s;
     (err, s) \<leftarrow> me_request e (''streams-'' @ objname) s;
     (failed, s) \<leftarrow> (if err < 0 then Some (True, s)
                    else do { (r, s) \<leftarrow> lis_wait_for_module e i s; Some (r \<noteq> 0, s) });
     if failed then do { s \<leftarrow> deinitialize_module i s; Some (LIS_NULL_MID, s) }
     else do { s \<leftarrow> set_modstate i MODSTATE_LOADED s; Some (i, s) } }"

definition lis_loadmod :: "menv \<Rightarrow> string \<Rightarrow> modst \<Rightarrow> (nat \<times> modst) option" where
  "lis_loadmod e name s = do {
     i \<leftarrow> lis_findmod name s;
     (err, s) \<leftarrow> reg_down s;
     if err < 0 then Some (LIS_NULL_MID, s)
     else do {
       (i, s) \<leftarrow> (if i = LIS_NULL_MID then find_empty_mod_index name s else Some (i, s));
       if i = LIS_NULL_MID then Some (LIS_NULL_MID, reg_up s)
       else do {
         m \<leftarrow> get_mod i s;
         let objname = (if f_objname m \<noteq> [] then f_objname m else name);
         (err, s) \<leftarrow> mod_down i s;
         if err < 0 then Some (LIS_NULL_MID, s)
         else do {
           let st = f_state m AND MODSTATE_MASK;
           if st = MODSTATE_LINKED \<or> st = MODSTATE_LOADED
           then do { s \<leftarrow> mod_up i s; Some (i, reg_up s) }
           else if st = MODSTATE_UNLOADED \<or> st = MODSTATE_UNKNOWN
           then demand_load e objname i s
           else if st = MODSTATE_LOADING
           then do { s \<leftarrow> mod_up i s; Some (LIS_NULL_MID, reg_up s) }
           else Some (i, reg_up s) } } } }"

subsection \<open>Registering drivers\<close>

abbreviation (input) QLOCK_QUEUE :: int where "QLOCK_QUEUE \<equiv> 1"

definition lis_register_strdev :: "menv \<Rightarrow> nat \<Rightarrow> ptr \<Rightarrow> string option \<Rightarrow> modst \<Rightarrow> (int \<times> modst) option" where
  "lis_register_strdev e major strtab name s =
     (if strtab = NULL then Some (- eINVAL, s)
      else do {
        (rslt, s) \<leftarrow> reg_down s;
        if rslt < 0 then Some (rslt, s)
        else do {
          let rslt = me_chrdev e major s;
          if rslt < 0 then Some (- eIO, reg_up s)
          else do {
            let major = (if major = 0 then nat rslt else major);
            slot \<leftarrow> get_dev major s;
            if f_str slot \<noteq> strtab \<and> f_str slot \<noteq> NULL then Some (- eBUSY, reg_up s)
            else do {
              s \<leftarrow> upd_dev major (\<lambda>m. m\<lparr>f_str := strtab, f_count := 0, f_qlock := QLOCK_QUEUE,
                    f_name := (case name of None \<Rightarrow> [] | Some n \<Rightarrow> take LIS_NAMESZ n)\<rparr>) s;
              Some (int major, reg_up s) } } } })"

definition lis_register_driver_qlock_option :: "nat \<Rightarrow> int \<Rightarrow> modst \<Rightarrow> (int \<times> modst) option" where
  "lis_register_driver_qlock_option major opt s = do {
     (rslt, s) \<leftarrow> reg_down s;
     if rslt < 0 then Some (rslt, s)
     else do { s \<leftarrow> upd_dev major (\<lambda>m. m\<lparr>f_qlock := opt\<rparr>) s; Some (0, reg_up s) } }"

definition lis_unregister_strdev :: "nat \<Rightarrow> modst \<Rightarrow> (int \<times> modst) option" where
  "lis_unregister_strdev major s =
     (if major \<ge> MAX_STRDEV \<or> f_str (fstr_sw s major) = NULL then Some (- eNODEV, s)
      else if f_count (fstr_sw s major) \<noteq> 0 then Some (- eBUSY, s)
      else do {
        (ret, s) \<leftarrow> reg_down s;
        if ret < 0 then Some (ret, s)
        else do {
          s \<leftarrow> apush_free_major major s;
          s \<leftarrow> upd_dev major (\<lambda>m. m\<lparr>f_str := NULL\<rparr>) s;
          Some (0, reg_up s) } })"

text \<open>\<open>char-major-%u\<close>.\<close>

fun decimal :: "nat \<Rightarrow> string" where
  "decimal n = (if n < 10 then [char_of (48 + n)] else decimal (n div 10) @ [char_of (48 + n mod 10)])"

definition char_major :: "nat \<Rightarrow> string" where
  "char_major major = ''char-major-'' @ decimal major"

definition lis_find_strdev :: "menv \<Rightarrow> nat \<Rightarrow> modst \<Rightarrow> (ptr \<times> modst) option" where
  "lis_find_strdev e major s =
     (if major \<ge> MAX_STRDEV then Some (NULL, s)
      else if f_str (fstr_sw s major) = NULL
      then do {
        let i = find_drv_objname e major;
        if i \<ge> 0
        then do {
          (_, s) \<leftarrow> me_request e (''streams-'' @ dn_objname (me_objnames e ! nat i)) s;
          if f_str (fstr_sw s major) = NULL
          then do {
            (_, s) \<leftarrow> me_request e (char_major major) s;
            Some (f_str (fstr_sw s major), s) }
          else Some (f_str (fstr_sw s major), s) }
        else do {
          (_, s) \<leftarrow> me_request e (char_major major) s;
          Some (f_str (fstr_sw s major), s) } }
      else Some (f_str (fstr_sw s major), s))"

subsection \<open>Autopush requests\<close>

text \<open>
  \<open>struct strapush\<close>; \<open>sap_list\<close> is the array of \<open>MAXAPUSH\<close> rows of \<open>FMNAMESZ + 1\<close> bytes, as one list of
  characters.
\<close>

record strapush =
  sap_cmd :: nat
  sap_major :: nat
  sap_minor :: nat
  sap_lastminor :: nat
  sap_npush :: nat
  sap_list :: string

abbreviation (input) NUL :: char where "NUL \<equiv> CHR 0x00"

text \<open>The C string at a position of a byte array; there is none without a terminator.\<close>

definition cstr_at :: "nat \<Rightarrow> string \<Rightarrow> string option" where
  "cstr_at i bs = (if NUL \<in> set (drop i bs) then Some (takeWhile (\<lambda>c. c \<noteq> NUL) (drop i bs)) else None)"

definition sap_row :: "nat \<Rightarrow> nat" where
  "sap_row i = i * (FMNAMESZ + 1)"

text \<open>\<open>strncpy\<close> to a position of a byte array: \<open>n\<close> bytes are written, all of them inside.\<close>

definition strncpy_at :: "nat \<Rightarrow> string \<Rightarrow> nat \<Rightarrow> string \<Rightarrow> string option" where
  "strncpy_at i src n bs =
     (if i + n \<le> length bs
      then Some (take i bs @ take n src @ replicate (n - length src) NUL @ drop (i + n) bs)
      else None)"

fun mod_names :: "nat list \<Rightarrow> modst \<Rightarrow> string list option" where
  "mod_names [] s = Some []"
| "mod_names (md # ms) s = do { m \<leftarrow> get_mod md s; r \<leftarrow> mod_names ms s; Some (f_name m # r) }"

definition lis_apushm :: "int \<Rightarrow> nat \<Rightarrow> modst \<Rightarrow> (int \<times> string list) option" where
  "lis_apushm major minor s =
     (if major < 0 \<or> major \<ge> int MAX_STRDEV then Some (0, [])
      else case find_apush_entry (nat major) minor s of
          None \<Rightarrow> Some (0, [])
        | Some a \<Rightarrow> do { ns \<leftarrow> mod_names (ap_push a) s; Some (int (length (ap_push a)), ns) })"

text \<open>The loop that loads the modules named in rows \<open>i\<close> and on; nothing for an unknown module.\<close>

fun load_names :: "menv \<Rightarrow> nat \<Rightarrow> nat \<Rightarrow> string \<Rightarrow> modst \<Rightarrow> (nat list option \<times> modst) option" where
  "load_names e 0 i bs s = Some (Some [], s)"
| "load_names e (Suc n) i bs s = do {
     name \<leftarrow> cstr_at (sap_row i) bs;
     (j, s) \<leftarrow> lis_loadmod e name s;
     if j = 0 then Some (None, s)
     else do {
       (r, s) \<leftarrow> load_names e n (i + 1) bs s;
       Some (map_option (Cons j) r, s) } }"

definition ap_alloc :: "modst \<Rightarrow> ptr \<times> modst" where
  "ap_alloc s = (case ap_mem s of [] \<Rightarrow> (NULL, s) | p # ps \<Rightarrow> (p, s\<lparr>ap_mem := ps\<rparr>))"

definition lis_apush_set :: "menv \<Rightarrow> strapush \<Rightarrow> modst \<Rightarrow> (int \<times> modst) option" where
  "lis_apush_set e ap s = do {
     d \<leftarrow> get_dev (sap_major ap) s;
     if f_str d = NULL \<and> find_drv_objname e (sap_major ap) < 0 then Some (- eNOSTR, s)
     else if sap_npush ap > MAXAPUSH then Some (- eINVAL, s)
     else do {
       let (p, s) = ap_alloc s;
       if p = NULL then Some (- eNOSR, s)
       else do {
         (ms, s) \<leftarrow> load_names e (sap_npush ap) 0 (sap_list ap) s;
         case ms of
           None \<Rightarrow> Some (- eINVAL, ap_free p s)
         | Some ms \<Rightarrow> do {
             let a = \<lparr>ap_addr = p, ap_cmd = sap_cmd ap, ap_minor = sap_minor ap,
                      ap_lastminor = sap_lastminor ap, ap_push = ms\<rparr>;
             v \<leftarrow> apush_validate ms s;
             if v < 0 then Some (- eINVAL, ap_free p s)
             else do {
               (err, s) \<leftarrow> apush_conf e (sap_major ap) a s;
               if err < 0 then Some (err, ap_free p s) else Some (0, s) } } } } }"

fun put_names :: "nat \<Rightarrow> nat list \<Rightarrow> string \<Rightarrow> modst \<Rightarrow> string option" where
  "put_names i [] bs s = Some bs"
| "put_names i (md # ms) bs s = do {
     m \<leftarrow> get_mod md s;
     bs \<leftarrow> strncpy_at (sap_row i) (f_name m) (LIS_NAMESZ + 1) bs;
     put_names (i + 1) ms bs s }"

definition lis_apush_get :: "menv \<Rightarrow> strapush \<Rightarrow> modst \<Rightarrow> (int \<times> strapush) option" where
  "lis_apush_get e ap s =
     (if sap_major ap \<ge> MAX_STRDEV then Some (- eINVAL, ap)
      else if f_str (fstr_sw s (sap_major ap)) = NULL \<and> find_drv_objname e (sap_major ap) < 0
      then Some (- eNOSTR, ap)
      else case find_apush_entry (sap_major ap) (sap_minor ap) s of
          None \<Rightarrow> Some (- eNODEV, ap)
        | Some a \<Rightarrow> do {
            bs \<leftarrow> put_names 0 (ap_push a) (sap_list ap) s;
            Some (0, ap\<lparr>sap_cmd := ap_cmd a, sap_lastminor := ap_lastminor a,
              sap_npush := length (ap_push a), sap_list := bs\<rparr>) })"

fun valid_names :: "string list \<Rightarrow> modst \<Rightarrow> int option" where
  "valid_names [] s = Some 0"
| "valid_names (n # ns) s = do {
     j \<leftarrow> findmod_loop (fmodcnt s) n s;
     if j = 0 then Some 1 else valid_names ns s }"

definition lis_valid_mod_list :: "int \<Rightarrow> string list \<Rightarrow> modst \<Rightarrow> int option" where
  "lis_valid_mod_list nmods names s =
     (if nmods \<le> 0 then Some (- eINVAL) else valid_names (take (nat nmods) names) s)"

subsection \<open>Initialisation and termination\<close>

definition fmodsw_zero :: fmodsw where
  "fmodsw_zero = \<lparr>f_str = NULL, f_count = 0, f_name = [], f_objname = [], f_state = 0, f_sem = sem_none,
     f_qlock = 0\<rparr>"

text \<open>The entries of the three configuration tables; \<open>i\<close> is the index of a module's entry.\<close>

definition init_module :: "nat \<Rightarrow> module_config \<Rightarrow> modst \<Rightarrow> modst option" where
  "init_module i c s =
     (if mc_name c = [] then Some s
      else do {
        (md, s) \<leftarrow> lis_register_strmod (mc_str c) (Some (mc_name c)) s;
        if md = LIS_NULL_MID then Some s
        else do {
          (r, s) \<leftarrow> lis_register_module_qlock_option md (mc_qlock c) s;
          if r < 0 then Some s
          else do {
            s \<leftarrow> upd_mod md (\<lambda>m. m\<lparr>f_objname := take LIS_NAMESZ (mc_objname c)\<rparr>) s;
            s \<leftarrow> upd_mod i (\<lambda>m. m\<lparr>f_state := f_state m AND NOT MODSTATE_MASK\<rparr>) s;
            m \<leftarrow> get_mod md s;
            upd_mod md (\<lambda>m. m\<lparr>f_state := f_state m OR
              (if f_objname m \<noteq> [] then MODSTATE_UNLOADED else MODSTATE_LINKED)\<rparr>) s } } })"

fun init_modules :: "nat \<Rightarrow> module_config list \<Rightarrow> modst \<Rightarrow> modst option" where
  "init_modules i [] s = Some s"
| "init_modules i (c # cs) s = do { s \<leftarrow> init_module i c s; init_modules (i + 1) cs s }"

fun init_majors :: "menv \<Rightarrow> driver_config \<Rightarrow> nat list \<Rightarrow> modst \<Rightarrow> modst option" where
  "init_majors e d [] s = Some s"
| "init_majors e d (j # js) s = do {
     (maj, s) \<leftarrow> lis_register_strdev e j (dc_str d) (Some (dc_name d)) s;
     s \<leftarrow> (if maj < 0 then Some s
          else do { (_, s) \<leftarrow> lis_register_driver_qlock_option (nat maj) (dc_qlock d) s; Some s });
     init_majors e d js s }"

fun init_drivers :: "menv \<Rightarrow> driver_config list \<Rightarrow> modst \<Rightarrow> modst option" where
  "init_drivers e [] s = Some s"
| "init_drivers e (d # ds) s = do {
     s \<leftarrow> init_majors e d (dc_majors d) s;
     s \<leftarrow> (case dc_init d of None \<Rightarrow> Some s | Some f \<Rightarrow> f s);
     init_drivers e ds s }"

fun find_mods :: "string list \<Rightarrow> modst \<Rightarrow> nat list option" where
  "find_mods [] s = Some []"
| "find_mods (n # ns) s = do {
     i \<leftarrow> find_mod n s;
     r \<leftarrow> find_mods ns s;
     Some (if i < 0 then r else modID i # r) }"

text \<open>The conversion of an int to the unsigned minor number.\<close>

definition c_uint :: "int \<Rightarrow> nat" where
  "c_uint x = nat (x mod 2 ^ 32)"

definition init_entry :: "ptr \<Rightarrow> autopush_init \<Rightarrow> nat list \<Rightarrow> autopush" where
  "init_entry p c ms =
     (let cmd = (if ai_minor c = - 1 then SAP_ALL else if ai_lastminor c = 0 then SAP_ONE else SAP_RANGE) in
      \<lparr>ap_addr = p, ap_cmd = cmd, ap_minor = (if cmd = SAP_ALL then 0 else c_uint (ai_minor c)),
       ap_lastminor = (if cmd = SAP_ALL then 0 else c_uint (ai_lastminor c)), ap_push = ms\<rparr>)"

fun init_apush :: "menv \<Rightarrow> autopush_init list \<Rightarrow> modst \<Rightarrow> modst option" where
  "init_apush e [] s = Some s"
| "init_apush e (c # cs) s = do {
     let (p, s) = ap_alloc s;
     s \<leftarrow> (if p = NULL then Some s
          else do {
            ms \<leftarrow> find_mods (ai_mods c) s;
            (err, s) \<leftarrow> apush_conf e (ai_major c) (init_entry p c ms) s;
            Some (if err < 0 then ap_free p s else s) });
     init_apush e cs s }"

definition lis_init_mod :: "menv \<Rightarrow> modst \<Rightarrow> modst option" where
  "lis_init_mod e s = do {
     let s = s\<lparr>mod_reg := sem_init 1, fstr_sw := (\<lambda>_. fmodsw_zero), fmod_sw := (\<lambda>_. fmodsw_zero),
       apush_chain := (\<lambda>_. []), apush_nref := (\<lambda>_. 0), fmodcnt := 1\<rparr>;
     s \<leftarrow> init_modules 0 (me_modules e) s;
     s \<leftarrow> init_drivers e (me_drivers e) s;
     s \<leftarrow> init_apush e (me_apush e) s;
     Some (s\<lparr>mod_initialized := True\<rparr>) }"

fun term_majors :: "nat list \<Rightarrow> modst \<Rightarrow> modst option" where
  "term_majors [] s = Some s"
| "term_majors (j # js) s = do { (_, s) \<leftarrow> lis_unregister_strdev j s; term_majors js s }"

fun term_drivers :: "driver_config list \<Rightarrow> modst \<Rightarrow> modst option" where
  "term_drivers [] s = Some s"
| "term_drivers (d # ds) s = do {
     s \<leftarrow> (case dc_term d of None \<Rightarrow> Some s | Some f \<Rightarrow> f s);
     s \<leftarrow> term_majors (dc_majors d) s;
     term_drivers ds s }"

fun term_modules :: "nat list \<Rightarrow> modst \<Rightarrow> modst option" where
  "term_modules [] s = Some s"
| "term_modules (i # is) s = do { (_, s) \<leftarrow> unregister_module i s; term_modules is s }"

fun term_devices :: "nat list \<Rightarrow> modst \<Rightarrow> modst option" where
  "term_devices [] s = Some s"
| "term_devices (i # is) s = do {
     d \<leftarrow> get_dev i s;
     s \<leftarrow> (if f_str d \<noteq> NULL \<and> f_count d \<noteq> 0
          then do { (_, s) \<leftarrow> lis_unregister_strdev i s; Some s } else Some s);
     term_devices is s }"

definition lis_terminate_mod :: "menv \<Rightarrow> modst \<Rightarrow> modst option" where
  "lis_terminate_mod e s = do {
     s \<leftarrow> apush_free_all s;
     s \<leftarrow> term_drivers (me_drivers e) s;
     s \<leftarrow> term_modules [1..<MAX_STRMOD] s;
     s \<leftarrow> term_devices [0..<MAX_STRDEV] s;
     Some (if mod_initialized s then s\<lparr>mod_initialized := False, mod_reg := sem_none\<rparr> else s) }"

end
