(* ===== verification/LiS_Autopush.thy ===== *)
theory LiS_Autopush
  imports LiS_ModReg
begin

text \<open>
  The autopush table of \<open>mod.c\<close>: the chains of entries stay sorted and disjoint, the reference counts
  of the modules are the numbers of their occurrences in the table, and the operations add, remove
  and find entries as they promise.
\<close>

unbundle bit_operations_syntax

subsection \<open>Chains\<close>

text \<open>The last minor of an entry, and the minors that an entry is for.\<close>

definition lastm :: "autopush \<Rightarrow> nat" where
  "lastm a = (if ap_cmd a = SAP_ONE then ap_minor a else ap_lastminor a)"

definition covers :: "autopush \<Rightarrow> nat \<Rightarrow> bool" where
  "covers a m \<longleftrightarrow> ap_cmd a = SAP_ALL \<or> ap_minor a \<le> m \<and> m \<le> lastm a"

definition entry_ok :: "autopush \<Rightarrow> bool" where
  "entry_ok a \<longleftrightarrow> ap_cmd a = SAP_ONE \<or> ap_cmd a = SAP_RANGE \<and> ap_minor a < ap_lastminor a"

text \<open>
  A chain of disjoint entries in ascending order, and the other form of a chain: one entry for all
  minors.
\<close>

definition sep :: "autopush list \<Rightarrow> bool" where
  "sep as \<longleftrightarrow> sorted_wrt (\<lambda>a b. lastm a < ap_minor b) as \<and> (\<forall>a\<in>set as. entry_ok a)"

definition chain_ok :: "autopush list \<Rightarrow> bool" where
  "chain_ok as \<longleftrightarrow> sep as \<or> (\<exists>a. as = [a] \<and> ap_cmd a = SAP_ALL)"

lemma sep_Nil [simp]: "sep []"
  by (simp add: sep_def)

lemma sep_Cons [simp]:
  "sep (a # as) \<longleftrightarrow> entry_ok a \<and> (\<forall>b\<in>set as. lastm a < ap_minor b) \<and> sep as"
  by (auto simp: sep_def)

lemma entry_le: "entry_ok a \<Longrightarrow> ap_minor a \<le> lastm a"
  by (auto simp: entry_ok_def lastm_def)

lemma entry_not_all: "entry_ok a \<Longrightarrow> ap_cmd a \<noteq> SAP_ALL"
  by (auto simp: entry_ok_def)

lemma starts_all_sep: "sep as \<Longrightarrow> \<not> starts_all as"
  by (cases as) (auto simp: starts_all_def dest: entry_not_all)

lemma chain_cases:
  assumes "chain_ok as"
  obtains (sep) "sep as" "\<not> starts_all as" | (all) a where "as = [a]" "ap_cmd a = SAP_ALL" "starts_all as"
  using assms starts_all_sep by (auto simp: chain_ok_def starts_all_def)

subsection \<open>Inserting and removing entries\<close>

text \<open>The place of a new entry is before the first entry that begins after \<open>m\<close>.\<close>

definition place :: "nat \<Rightarrow> autopush \<Rightarrow> autopush list \<Rightarrow> autopush list" where
  "place m a as = takeWhile (\<lambda>r. ap_minor r \<le> m) as @ a # dropWhile (\<lambda>r. ap_minor r \<le> m) as"

lemma place_Nil [simp]: "place m a [] = [a]"
  by (simp add: place_def)

lemma place_Cons [simp]: "place m a (r # rs) = (if ap_minor r \<le> m then r # place m a rs else a # r # rs)"
  by (simp add: place_def)

lemma set_place [simp]: "set (place m a as) = insert a (set as)"
  by (induction as) auto

lemma place_not_Nil [simp]: "place m a as \<noteq> []"
  by (simp add: place_def)

lemma place_single: "place m a as = [x] \<longleftrightarrow> as = [] \<and> x = a"
  by (cases as) auto

lemma ins_one_spec:
  assumes "sep as" "ap_cmd a = SAP_ONE"
  shows "ins_one a as = (if \<exists>r\<in>set as. covers r (ap_minor a) then None else Some (place (ap_minor a) a as))"
  using assms(1)
proof (induction as)
  case (Cons r as)
  have r: "entry_ok r" "\<forall>b\<in>set as. lastm r < ap_minor b" using Cons.prems by auto
  consider "ap_minor r > ap_minor a" | "ap_minor r \<le> ap_minor a" "covers r (ap_minor a)"
    | "ap_minor r \<le> ap_minor a" "\<not> covers r (ap_minor a)" by linarith
  then show ?case
  proof cases
    case 1
    then have "\<forall>b\<in>set (r # as). \<not> covers b (ap_minor a)"
      using r Cons.prems entry_le[OF r(1)] by (force simp: covers_def sep_def dest: entry_not_all)
    with 1 show ?thesis by auto
  next
    case 2
    then show ?thesis using r entry_not_all[OF r(1)] by (auto simp: covers_def lastm_def entry_ok_def)
  next
    case 3
    then show ?thesis using r Cons.IH Cons.prems by (auto simp: covers_def lastm_def entry_ok_def)
  qed
qed simp

text \<open>
  A range is inserted when no entry begins inside it and there is no range at all before it: the test
  for an overlap with a range before it is always true.
\<close>

lemma ins_range_spec:
  assumes "sep as" "ap_minor a < ap_lastminor a"
  shows "ins_range a as =
    (if \<exists>r\<in>set as. ap_minor r \<le> ap_lastminor a \<and> (ap_minor a \<le> ap_minor r \<or> ap_cmd r = SAP_RANGE)
     then None else Some (place (ap_lastminor a) a as))"
  using assms(1)
proof (induction as)
  case (Cons r as)
  have r: "entry_ok r" "\<forall>b\<in>set as. lastm r < ap_minor b" using Cons.prems by auto
  have later: "\<forall>b\<in>set as. ap_minor r < ap_minor b" using r entry_le[OF r(1)] by force
  consider "ap_minor r > ap_lastminor a" | "ap_minor a \<le> ap_minor r" "ap_minor r \<le> ap_lastminor a"
    | "ap_minor r < ap_minor a" "ap_cmd r = SAP_RANGE" | "ap_minor r < ap_minor a" "ap_cmd r = SAP_ONE"
    using r(1) by (fastforce simp: entry_ok_def)
  then show ?case using assms(2) later Cons.IH Cons.prems by cases auto
qed simp

lemma sep_place:
  assumes "sep as" "entry_ok a" "ap_minor a \<le> m" "m \<le> lastm a"
    and "\<forall>r\<in>set as. ap_minor r \<le> m \<longrightarrow> lastm r < ap_minor a"
    and "\<forall>r\<in>set as. m < ap_minor r \<longrightarrow> lastm a < ap_minor r"
  shows "sep (place m a as)"
  using assms(1,5,6)
proof (induction as)
  case (Cons r as)
  then have r: "\<forall>b\<in>set as. lastm r < ap_minor b" "entry_ok r" by auto
  show ?case
  proof (cases "ap_minor r \<le> m")
    case True
    with Cons show ?thesis by auto
  next
    case False
    then have "\<forall>b\<in>set as. m < ap_minor b" using r entry_le[OF r(2)] by force
    with False Cons.prems assms(2) show ?thesis by auto
  qed
qed (simp add: assms(2))

lemma clear_chain_place:
  assumes "\<forall>r\<in>set as. ap_minor r \<le> m \<longrightarrow> ap_minor r < ap_minor a"
  shows "clear_chain (ap_minor a) (place m a as) = Some (a, as)"
  using assms by (induction as) auto

lemma clear_chain_spec:
  assumes "sep as"
  shows "clear_chain m as =
    (case find (\<lambda>a. ap_minor a = m) as of None \<Rightarrow> None | Some x \<Rightarrow> Some (x, filter (\<lambda>a. ap_minor a \<noteq> m) as))"
  using assms
proof (induction as)
  case (Cons r as)
  have r: "\<forall>b\<in>set as. ap_minor r < ap_minor b" using Cons.prems entry_le[of r] by force
  then have later: "find (\<lambda>a. ap_minor a = m) as = None" if "m \<le> ap_minor r"
    using that by (force simp: find_None_iff)
  have "filter (\<lambda>a. ap_minor a \<noteq> m) as = as" if "m \<le> ap_minor r"
    using r that by (force simp: filter_id_conv)
  with later Cons r show ?case by (auto split: option.splits)
qed simp

lemma sep_filter: "sep as \<Longrightarrow> sep (filter P as)"
  by (induction as) auto


subsection \<open>Reference counts\<close>

definition occ :: "autopush list \<Rightarrow> nat \<Rightarrow> int" where
  "occ as m = (\<Sum>a\<leftarrow>as. int (count_list (ap_push a) m))"

definition total :: "modst \<Rightarrow> nat \<Rightarrow> int" where
  "total s m = (\<Sum>i<MAX_STRDEV. occ (apush_chain s i) m)"

text \<open>
  The invariant of the table: its chains are in order, the numbers in it are module numbers, and
  \<open>apush_nref\<close> counts their occurrences.
\<close>

definition apush_inv :: "modst \<Rightarrow> bool" where
  "apush_inv s \<longleftrightarrow> (\<forall>i<MAX_STRDEV. chain_ok (apush_chain s i) \<and> (\<forall>a\<in>set (apush_chain s i). nref_ok a)) \<and>
     apush_nref s = total s"

lemma occ_Nil [simp]: "occ [] m = 0"
  by (simp add: occ_def)

lemma occ_Cons [simp]: "occ (a # as) m = int (count_list (ap_push a) m) + occ as m"
  by (simp add: occ_def)

lemma occ_nonneg: "0 \<le> occ as m"
  by (induction as) auto

lemma occ_zero: "occ as m = 0 \<longleftrightarrow> (\<forall>a\<in>set as. m \<notin> set (ap_push a))"
proof (induction as)
  case (Cons a as)
  then show ?case using occ_nonneg[of as m] by (auto simp: count_list_0_iff)
qed simp

lemma occ_place: "occ (place k a as) m = int (count_list (ap_push a) m) + occ as m"
  by (induction as) auto

lemma occ_filter_out:
  assumes "find P as = Some x" "distinct (map f as)" "P = (\<lambda>a. f a = v)"
  shows "occ as m = int (count_list (ap_push x) m) + occ (filter (\<lambda>a. f a \<noteq> v) as) m"
  using assms(1,2)
proof (induction as)
  case (Cons a as)
  show ?case
  proof (cases "f a = v")
    case True
    then have "filter (\<lambda>a. f a \<noteq> v) as = as" using Cons.prems(2) by (auto simp: filter_id_conv image_iff)
    with True Cons.prems(1) assms(3) show ?thesis by simp
  qed (use Cons assms(3) in simp)
qed simp

lemma nref_inc_count: "nref_inc ms c = (\<lambda>m. c m + int (count_list ms m))"
  by (induction ms arbitrary: c) (auto simp: fun_eq_iff)

lemma nref_dec_count: "nref_dec ms c = (\<lambda>m. c m - int (count_list ms m))"
  by (induction ms arbitrary: c) (auto simp: fun_eq_iff)

lemma total_set_chain:
  assumes "i < MAX_STRDEV"
  shows "total (set_chain i as s) m = total s m - occ (apush_chain s i) m + occ as m"
proof -
  have i: "i \<in> {..<MAX_STRDEV}" using assms by simp
  have "(\<Sum>j\<in>{..<MAX_STRDEV} - {i}. occ (apush_chain (set_chain i as s) j) m) =
      (\<Sum>j\<in>{..<MAX_STRDEV} - {i}. occ (apush_chain s j) m)"
    by (rule sum.cong) (auto simp: set_chain_def)
  then show ?thesis
    unfolding total_def by (simp add: sum.remove[OF _ i]) (simp add: set_chain_def)
qed

lemma total_cong: "apush_chain t = apush_chain s \<Longrightarrow> total t = total s"
  by (simp add: total_def fun_eq_iff)

lemma set_chain_sel [simp]:
  "apush_chain (set_chain i as s) = (apush_chain s)(i := as)" "apush_nref (set_chain i as s) = apush_nref s"
  "fmod_sw (set_chain i as s) = fmod_sw s" "fstr_sw (set_chain i as s) = fstr_sw s"
  "ap_freed (set_chain i as s) = ap_freed s"
  by (simp_all add: set_chain_def)

lemma ap_free_sel [simp]:
  "apush_chain (ap_free p s) = apush_chain s" "apush_nref (ap_free p s) = apush_nref s"
  "fmod_sw (ap_free p s) = fmod_sw s" "fstr_sw (ap_free p s) = fstr_sw s"
  "ap_freed (ap_free p s) = p # ap_freed s"
  by (simp_all add: ap_free_def)

text \<open>Replacing one chain keeps the invariant when the counts follow.\<close>

lemma apush_inv_chain:
  assumes "apush_inv s" "i < MAX_STRDEV" "chain_ok as" "\<forall>a\<in>set as. nref_ok a"
    and "apush_chain t = (apush_chain s)(i := as)"
    and "\<And>m. apush_nref t m = apush_nref s m - occ (apush_chain s i) m + occ as m"
  shows "apush_inv t"
proof -
  have "total t = total (set_chain i as s)" by (rule total_cong) (simp add: assms(5))
  moreover have "apush_nref s = total s" using assms(1) by (simp add: apush_inv_def)
  ultimately have "apush_nref t = total t"
    using assms(6) total_set_chain[OF assms(2), of as s] by (simp add: fun_eq_iff)
  then show ?thesis using assms(1-5) by (simp add: apush_inv_def)
qed

subsection \<open>Configuring\<close>

text \<open>The result of adding an entry to a chain in order.\<close>

lemma conf_add_spec:
  assumes "chain_ok as" "conf_add a as = Inr r"
  shows "\<exists>k. r = place k a as \<and> chain_ok r \<and> (\<forall>x\<in>set as. ap_minor x \<le> k \<longrightarrow> ap_minor x < ap_minor a)
    \<and> (\<forall>x\<in>set as. \<forall>m. \<not> (covers x m \<and> covers a m))"
  using assms(1)
proof (cases rule: chain_cases)
  case (all b)
  then show ?thesis using assms(2) by (auto simp: conf_add_def split: if_splits option.splits)
next
  case sep
  consider (one) "ap_cmd a = SAP_ONE" | (range) "ap_cmd a = SAP_RANGE" | (every) "ap_cmd a = SAP_ALL"
    using assms(2) by (auto simp: conf_add_def split: if_splits)
  then show ?thesis
  proof cases
    case one
    let ?m = "ap_minor a"
    have no: "\<forall>r\<in>set as. \<not> covers r ?m" and r: "r = place ?m a as"
      using assms(2) one sep(2) by (auto simp: conf_add_def ins_one_spec[OF sep(1) one] split: if_splits)
    have lt: "\<forall>r\<in>set as. ap_minor r \<le> ?m \<longrightarrow> lastm r < ?m"
      using no by (auto simp: covers_def)
    have "sep r" unfolding r
      by (rule sep_place[OF sep(1)]) (use one lt in \<open>auto simp: entry_ok_def lastm_def\<close>)
    moreover have "\<forall>x\<in>set as. ap_minor x \<le> ?m \<longrightarrow> ap_minor x < ?m"
      using lt sep(1) entry_le by (force simp: sep_def)
    moreover have "\<forall>x\<in>set as. \<forall>m. \<not> (covers x m \<and> covers a m)"
      using one no by (auto simp: covers_def lastm_def)
    ultimately show ?thesis using r by (auto simp: chain_ok_def)
  next
    case range
    let ?m = "ap_lastminor a"
    have lt: "ap_minor a < ?m" using assms(2) range by (auto simp: conf_add_def split: if_splits)
    have no: "\<forall>r\<in>set as. ap_minor r \<le> ?m \<longrightarrow> ap_minor r < ap_minor a \<and> ap_cmd r \<noteq> SAP_RANGE"
      and r: "r = place ?m a as"
      using assms(2) range sep(2) by (auto simp: conf_add_def ins_range_spec[OF sep(1) lt] split: if_splits)
    have lt': "\<forall>r\<in>set as. ap_minor r \<le> ?m \<longrightarrow> lastm r < ap_minor a"
      using no sep(1) by (auto simp: lastm_def entry_ok_def sep_def)
    have "sep r" unfolding r
      by (rule sep_place[OF sep(1)]) (use lt range lt' in \<open>auto simp: entry_ok_def lastm_def\<close>)
    moreover have "\<not> (covers x m \<and> covers a m)" if "x \<in> set as" for x m
    proof (cases "ap_minor x \<le> ?m")
      case True
      then show ?thesis using lt' that range sep(1) entry_not_all
        by (fastforce simp: covers_def lastm_def sep_def)
    next
      case False
      then show ?thesis using that range sep(1) entry_not_all[of x] by (auto simp: covers_def lastm_def sep_def)
    qed
    ultimately show ?thesis using r no by (auto simp: chain_ok_def)
  next
    case every
    then show ?thesis using assms(2) by (auto simp: conf_add_def chain_ok_def split: if_splits)
  qed
qed

lemma sep_minors: "sep as \<Longrightarrow> distinct (map ap_minor as)"
proof (induction as)
  case (Cons a as)
  then show ?case using entry_le[of a] by force
qed simp

text \<open>What \<open>SAP_CLEAR\<close> takes out of a chain in order.\<close>

lemma clear_chain_ok:
  assumes "chain_ok as" "clear_chain m as = Some (x, r)"
  shows "x \<in> set as \<and> ap_minor x = m \<and> set r \<subseteq> set as \<and> chain_ok r \<and>
    occ as k = int (count_list (ap_push x) k) + occ r k"
  using assms(1)
proof (cases rule: chain_cases)
  case (all a)
  then show ?thesis using assms(2) by (auto split: if_splits simp: chain_ok_def)
next
  case sep
  have f: "find (\<lambda>a. ap_minor a = m) as = Some x" "r = filter (\<lambda>a. ap_minor a \<noteq> m) as"
    using assms(2) clear_chain_spec[OF sep(1), of m] by (auto split: option.splits)
  then show ?thesis
    using occ_filter_out[OF f(1) sep_minors[OF sep(1)] refl, of k] sep_filter[OF sep(1)]
    by (auto simp: chain_ok_def find_Some_iff)
qed

lemma apush_free_Some:
  "nref_ok a \<Longrightarrow> apush_free a s =
     Some (ap_free (ap_addr a) (s\<lparr>apush_nref := (\<lambda>m. apush_nref s m - int (count_list (ap_push a) m))\<rparr>))"
  by (simp add: apush_free_def nref_dec_count)

text \<open>
  \<open>apush_conf\<close> always returns; an error leaves everything unchanged, and a success keeps the invariant
  and the other chains.
\<close>

definition conf_frame :: "nat \<Rightarrow> modst \<Rightarrow> modst \<Rightarrow> bool" where
  "conf_frame major s t \<longleftrightarrow> (\<forall>i. i \<noteq> major \<longrightarrow> apush_chain t i = apush_chain s i) \<and>
     fmod_sw t = fmod_sw s \<and> fstr_sw t = fstr_sw s \<and> fmodcnt t = fmodcnt s \<and> mod_reg t = mod_reg s"

lemma conf_frame_set_chain [simp]: "conf_frame major s (set_chain major as s)"
  by (simp add: conf_frame_def set_chain_def)

lemma conf_clear_inv:
  assumes inv: "apush_inv s" "major < MAX_STRDEV" and x: "x \<in> set (apush_chain s major)" "set r \<subseteq> set (apush_chain s major)"
    "chain_ok r" "\<And>k. occ (apush_chain s major) k = int (count_list (ap_push x) k) + occ r k"
  shows "\<exists>t. (do { s \<leftarrow> apush_free x (set_chain major r s); Some (0, ap_free p s) }) = Some (0 :: int, t) \<and>
    apush_inv t \<and> conf_frame major s t \<and> apush_chain t major = r \<and> ap_freed t = p # ap_addr x # ap_freed s"
proof -
  have ok: "\<forall>a\<in>set (apush_chain s major). nref_ok a" using inv by (simp add: apush_inv_def)
  let ?n = "\<lambda>m. apush_nref s m - int (count_list (ap_push x) m)"
  let ?t = "ap_free p (ap_free (ap_addr x) ((set_chain major r s)\<lparr>apush_nref := ?n\<rparr>))"
  have "apush_inv ?t"
  proof (rule apush_inv_chain[OF inv x(3)])
    show "\<forall>a\<in>set r. nref_ok a" using ok x(2) by blast
    show "apush_nref ?t m = apush_nref s m - occ (apush_chain s major) m + occ r m" for m
      by (simp add: ap_free_def x(4))
  qed (simp add: ap_free_def set_chain_def)
  moreover have "conf_frame major s ?t" by (simp add: conf_frame_def ap_free_def set_chain_def)
  ultimately show ?thesis
    using ok x(1) by (auto simp: apush_free_Some ap_free_def set_chain_def)
qed

lemma apush_conf_inv:
  assumes inv: "apush_inv s" and a: "nref_ok a"
  shows "\<exists>r t. apush_conf e major a s = Some (r, t) \<and> r \<le> 0 \<and> (r < 0 \<longrightarrow> t = s) \<and> apush_inv t \<and> conf_frame major s t"
proof (cases "major \<ge> MAX_STRDEV \<or> f_str (fstr_sw s major) = NULL \<and> find_drv_objname e major < 0")
  case True
  then show ?thesis using inv by (auto simp: apush_conf_def conf_frame_def)
next
  case dev: False
  then have m: "major < MAX_STRDEV" by simp
  have ok: "chain_ok (apush_chain s major)" "\<forall>a\<in>set (apush_chain s major). nref_ok a"
    using inv m by (simp_all add: apush_inv_def)
  have unchanged: ?thesis if "apush_conf e major a s = Some (r, s)" "r \<le> 0" for r
    using that inv by (auto simp: conf_frame_def)
  show ?thesis
  proof (cases "ap_cmd a = SAP_CLEAR")
    case clear: True
    show ?thesis
    proof (cases "apush_chain s major")
      case Nil
      then show ?thesis using dev clear by (intro unchanged[of "- eNODEV"]) (auto simp: apush_conf_def)
    next
      case (Cons ar rest)
      show ?thesis
      proof (cases "ap_minor a = 0 \<and> ap_cmd ar = SAP_ALL")
        case True
        have rest: "rest = []" using ok(1) Cons True by (auto simp: chain_ok_def dest: entry_not_all)
        obtain t where t: "(do { s \<leftarrow> apush_free ar (set_chain major rest s); Some (0, ap_free (ap_addr a) s) }) = Some (0 :: int, t)"
          "apush_inv t" "conf_frame major s t"
          using conf_clear_inv[OF inv m, of ar rest "ap_addr a"] by (auto simp: Cons rest chain_ok_def)
        have "apush_conf e major a s = (do { s \<leftarrow> apush_free ar (set_chain major rest s); Some (0, ap_free (ap_addr a) s) })"
          using dev clear True by (auto simp: apush_conf_def Cons)
        with t show ?thesis by auto
      next
        case no: False
        show ?thesis
        proof (cases "clear_chain (ap_minor a) (ar # rest)")
          case None
          then show ?thesis using dev clear Cons no by (intro unchanged[of "- eRANGE"]) (auto simp: apush_conf_def simp del: clear_chain.simps)
        next
          case (Some xr)
          obtain x r where xr: "xr = (x, r)" by fastforce
          note sp = clear_chain_ok[OF ok(1), unfolded Cons, OF Some[unfolded xr]]
          obtain t where t: "(do { s \<leftarrow> apush_free x (set_chain major r s); Some (0, ap_free (ap_addr a) s) }) = Some (0 :: int, t)"
            "apush_inv t" "conf_frame major s t"
            using conf_clear_inv[OF inv m, of x r "ap_addr a"] sp unfolding Cons by blast
          have "apush_conf e major a s = (do { s \<leftarrow> apush_free x (set_chain major r s); Some (0, ap_free (ap_addr a) s) })"
            using dev clear no by (auto simp: apush_conf_def Cons Some[unfolded xr] simp del: clear_chain.simps)
          with t show ?thesis by auto
        qed
      qed
    qed
  next
    case add: False
    show ?thesis
    proof (cases "conf_add a (apush_chain s major)")
      case (Inl r)
      then have "r \<le> 0" by (auto simp: conf_add_def split: if_splits option.splits)
      then show ?thesis using dev add Inl by (intro unchanged[of r]) (auto simp: apush_conf_def)
    next
      case (Inr r)
      obtain k where k: "r = place k a (apush_chain s major)" "chain_ok r"
        using conf_add_spec[OF ok(1) Inr] by blast
      let ?t = "(set_chain major r s)\<lparr>apush_nref := nref_inc (ap_push a) (apush_nref s)\<rparr>"
      have "apush_inv ?t"
        by (rule apush_inv_chain[OF inv m k(2)]) (use ok(2) a in \<open>auto simp: k(1) occ_place nref_inc_count\<close>)
      moreover have "conf_frame major s ?t" by (simp add: conf_frame_def set_chain_def)
      ultimately show ?thesis using dev add Inr a by (auto simp: apush_conf_def)
    qed
  qed
qed


text \<open>
  Adding an entry and clearing its minor again gives back the table: the chain and the counts are
  those of before, and both entries are given back to the allocator.
\<close>

lemma apush_add_clear:
  assumes inv: "apush_inv s" and a: "nref_ok a" and cmd: "ap_cmd a \<noteq> SAP_CLEAR"
    and add: "apush_conf e major a s = Some (0, t)"
    and c: "ap_cmd c = SAP_CLEAR" "ap_minor c = ap_minor a"
  shows "\<exists>u. apush_conf e major c t = Some (0, u) \<and> apush_chain u = apush_chain s \<and> apush_nref u = apush_nref s \<and>
    ap_freed u = ap_addr c # ap_addr a # ap_freed s"
proof -
  have m: "major < MAX_STRDEV" "\<not> (f_str (fstr_sw s major) = NULL \<and> find_drv_objname e major < 0)"
    using add by (auto simp: apush_conf_def split: if_splits)
  then obtain r where r: "conf_add a (apush_chain s major) = Inr r"
    "t = (set_chain major r s)\<lparr>apush_nref := nref_inc (ap_push a) (apush_nref s)\<rparr>"
    using add cmd a by (auto simp: apush_conf_def conf_add_def split: if_splits sum.splits option.splits)
  have ok: "chain_ok (apush_chain s major)" using inv m by (simp add: apush_inv_def)
  obtain k where k: "r = place k a (apush_chain s major)"
    "\<forall>x\<in>set (apush_chain s major). ap_minor x \<le> k \<longrightarrow> ap_minor x < ap_minor a"
    using conf_add_spec[OF ok r(1)] by blast
  let ?u = "ap_free (ap_addr c) (ap_free (ap_addr a) ((set_chain major (apush_chain s major) t)\<lparr>apush_nref := apush_nref s\<rparr>))"
  have chain: "apush_chain t major = r" "fstr_sw t = fstr_sw s" by (simp_all add: r(2))
  have free: "apush_free a (set_chain major (apush_chain s major) t) =
      Some (ap_free (ap_addr a) ((set_chain major (apush_chain s major) t)\<lparr>apush_nref := apush_nref s\<rparr>))"
    using a by (simp add: apush_free_Some r(2) nref_inc_count)
  have cl: "clear_chain (ap_minor a) r = Some (a, apush_chain s major)"
    using clear_chain_place[OF k(2)] k(1) by simp
  have "apush_conf e major c t = Some (0, ?u)"
  proof (cases r)
    case Nil
    then show ?thesis using k(1) by (simp add: place_def)
  next
    case (Cons ar rest)
    show ?thesis
    proof (cases "ap_minor a = 0 \<and> ap_cmd ar = SAP_ALL")
      case True
      have "chain_ok r" using conf_add_spec[OF ok r(1)] by blast
      then have "rest = []" using Cons True by (auto simp: chain_ok_def dest: entry_not_all)
      then have "place k a (apush_chain s major) = [ar]" using Cons k(1) by simp
      then have "ar = a" "rest = apush_chain s major" using \<open>rest = []\<close> unfolding place_single by simp_all
      then show ?thesis using m True c free chain Cons by (auto simp: apush_conf_def)
    next
      case False
      then show ?thesis using m c free chain Cons cl by (auto simp: apush_conf_def simp del: clear_chain.simps)
    qed
  qed
  then show ?thesis by (intro exI[of _ ?u]) (simp add: r(2))
qed

subsection \<open>Freeing\<close>

lemma apush_free_list_spec:
  assumes "\<forall>a\<in>set as. nref_ok a"
  shows "\<exists>t. apush_free_list as s = Some t \<and> apush_chain t = apush_chain s \<and>
    apush_nref t = (\<lambda>m. apush_nref s m - occ as m) \<and> ap_freed t = rev (map ap_addr as) @ ap_freed s \<and>
    fmod_sw t = fmod_sw s \<and> fstr_sw t = fstr_sw s \<and> fmodcnt t = fmodcnt s \<and> mod_reg t = mod_reg s"
  using assms
proof (induction as arbitrary: s)
  case (Cons a as)
  let ?s = "ap_free (ap_addr a) (s\<lparr>apush_nref := (\<lambda>m. apush_nref s m - int (count_list (ap_push a) m))\<rparr>)"
  have "apush_free a s = Some ?s" using Cons.prems by (simp add: apush_free_Some)
  moreover obtain t where "apush_free_list as ?s = Some t" "apush_chain t = apush_chain ?s"
    "apush_nref t = (\<lambda>m. apush_nref ?s m - occ as m)" "ap_freed t = rev (map ap_addr as) @ ap_freed ?s"
    "fmod_sw t = fmod_sw ?s" "fstr_sw t = fstr_sw ?s" "fmodcnt t = fmodcnt ?s" "mod_reg t = mod_reg ?s"
    using Cons.IH[of ?s] Cons.prems by auto
  ultimately show ?case by (auto simp: ap_free_def fun_eq_iff)
qed (simp add: fun_eq_iff)

lemma apush_free_major_spec:
  assumes "apush_inv s" "major < MAX_STRDEV"
  shows "\<exists>t. apush_free_major major s = Some t \<and> apush_inv t \<and> conf_frame major s t \<and> apush_chain t major = [] \<and>
    ap_freed t = rev (map ap_addr (apush_chain s major)) @ ap_freed s"
proof -
  obtain t where t: "apush_free_list (apush_chain s major) (set_chain major [] s) = Some t"
    "apush_chain t = (apush_chain s)(major := [])" "apush_nref t = (\<lambda>m. apush_nref s m - occ (apush_chain s major) m)"
    "ap_freed t = rev (map ap_addr (apush_chain s major)) @ ap_freed s"
    "fmod_sw t = fmod_sw s" "fstr_sw t = fstr_sw s" "fmodcnt t = fmodcnt s" "mod_reg t = mod_reg s"
    using apush_free_list_spec[of "apush_chain s major" "set_chain major [] s"] assms
    by (auto simp: apush_inv_def set_chain_def)
  have "apush_inv t" by (rule apush_inv_chain[OF assms, of "[]"]) (simp_all add: t chain_ok_def)
  then show ?thesis using t assms(2) by (simp add: apush_free_major_def conf_frame_def)
qed

lemma apush_free_majors_spec:
  assumes "apush_inv s" "set is \<subseteq> {..<MAX_STRDEV}" "distinct is"
  shows "\<exists>t. apush_free_majors is s = Some t \<and> apush_inv t \<and>
    apush_chain t = (\<lambda>i. if i \<in> set is then [] else apush_chain s i) \<and>
    ap_freed t = rev (concat (map (\<lambda>i. map ap_addr (apush_chain s i)) is)) @ ap_freed s"
  using assms
proof (induction "is" arbitrary: s)
  case (Cons i js)
  obtain t where t: "apush_free_major i s = Some t" "apush_inv t" "conf_frame i s t" "apush_chain t i = []"
    "ap_freed t = rev (map ap_addr (apush_chain s i)) @ ap_freed s"
    using apush_free_major_spec[of s i] Cons.prems by auto
  have same: "map (\<lambda>i. map ap_addr (apush_chain t i)) js = map (\<lambda>i. map ap_addr (apush_chain s i)) js"
    using t(3) Cons.prems(3) by (auto simp: conf_frame_def)
  obtain u where "apush_free_majors js t = Some u" "apush_inv u"
    "apush_chain u = (\<lambda>i. if i \<in> set js then [] else apush_chain t i)"
    "ap_freed u = rev (concat (map (\<lambda>i. map ap_addr (apush_chain t i)) js)) @ ap_freed t"
    using Cons.IH[OF t(2)] Cons.prems by auto
  then show ?case using t(1,3,4,5) unfolding same by (auto simp: conf_frame_def fun_eq_iff)
qed simp

lemma apush_free_all_spec:
  assumes "apush_inv s"
  shows "\<exists>t. apush_free_all s = Some t \<and> apush_inv t \<and> (\<forall>i<MAX_STRDEV. apush_chain t i = []) \<and> apush_nref t = (\<lambda>_. 0) \<and>
    ap_freed t = rev (concat (map (\<lambda>i. map ap_addr (apush_chain s i)) [0..<MAX_STRDEV])) @ ap_freed s"
proof -
  obtain t where t: "apush_free_majors [0..<MAX_STRDEV] s = Some t" "apush_inv t"
    "apush_chain t = (\<lambda>i. if i \<in> set [0..<MAX_STRDEV] then [] else apush_chain s i)"
    "ap_freed t = rev (concat (map (\<lambda>i. map ap_addr (apush_chain s i)) [0..<MAX_STRDEV])) @ ap_freed s"
    using apush_free_majors_spec[OF assms, of "[0..<MAX_STRDEV]"] unfolding set_upt atLeast0LessThan by auto
  have "apush_nref t = (\<lambda>_. 0)"
    using t(2,3) by (simp add: apush_inv_def total_def fun_eq_iff)
  with t show ?thesis by (simp add: apush_free_all_def)
qed

subsection \<open>Dropping a module\<close>

definition strip :: "nat \<Rightarrow> autopush \<Rightarrow> autopush" where
  "strip md a = a\<lparr>ap_push := removeAll md (ap_push a)\<rparr>"

lemmas strip_fold = strip_def[symmetric]

lemma strip_idle: "md \<notin> set (ap_push a) \<Longrightarrow> strip md a = a"
  by (simp add: strip_def removeAll_id)

lemma strip_sel [simp]:
  "ap_cmd (strip md a) = ap_cmd a" "ap_minor (strip md a) = ap_minor a" "lastm (strip md a) = lastm a"
  "entry_ok (strip md a) = entry_ok a"
  by (simp_all add: strip_def lastm_def entry_ok_def)

lemma chain_ok_strip: "chain_ok (map (strip md) as) = chain_ok as"
  by (auto simp: chain_ok_def sep_def sorted_wrt_map map_eq_Cons_conv)

lemma count_removeAll: "count_list (removeAll md ms) m = (if m = md then 0 else count_list ms m)"
  by (induction ms) auto

lemma occ_strip: "occ (map (strip md) as) m = (if m = md then 0 else occ as m)"
  by (induction as) (auto simp: strip_def count_removeAll)

lemma drop_list_spec:
  "int (count_list ms md) \<le> c \<Longrightarrow> 0 < c \<Longrightarrow>
     drop_list md c ms = (c = int (count_list ms md), c - int (count_list ms md), removeAll md ms)"
proof (induction ms arbitrary: c)
  case (Cons m ms)
  show ?case
  proof (cases "m = md \<and> c = 1")
    case True
    then have "count_list ms md = 0" using Cons.prems(1) by simp
    then show ?thesis using True by (auto simp: removeAll_id count_list_0_iff)
  qed (use Cons in auto)
qed simp

lemma drop_chain_spec:
  "occ as md \<le> c \<Longrightarrow> 0 < c \<Longrightarrow> drop_chain md c as = (c = occ as md, c - occ as md, map (strip md) as)"
proof (induction as arbitrary: c)
  case (Cons a as)
  let ?n = "int (count_list (ap_push a) md)"
  have le: "?n \<le> c" "?n + occ as md \<le> c" using Cons.prems(1) occ_nonneg[of as md] by auto
  note d = drop_list_spec[OF le(1) Cons.prems(2)]
  show ?case
  proof (cases "c = ?n")
    case True
    then have "occ as md = 0" using le occ_nonneg[of as md] by simp
    then have "map (strip md) as = as" by (auto simp: occ_zero strip_idle map_idI)
    with True d \<open>occ as md = 0\<close> show ?thesis by (simp add: strip_fold)
  next
    case False
    with Cons.IH[of "c - ?n"] le d show ?thesis by (auto simp: strip_fold)
  qed
qed simp

lemma drop_majors_spec:
  assumes "distinct is" "(\<Sum>i\<leftarrow>is. occ (apush_chain s i) md) \<le> apush_nref s md" "0 < apush_nref s md"
  shows "drop_majors md is s =
    s\<lparr>apush_chain := (\<lambda>i. if i \<in> set is then map (strip md) (apush_chain s i) else apush_chain s i),
      apush_nref := (apush_nref s)(md := apush_nref s md - (\<Sum>i\<leftarrow>is. occ (apush_chain s i) md))\<rparr>"
  using assms
proof (induction "is" arbitrary: s)
  case (Cons i js)
  let ?n = "occ (apush_chain s i) md"
  have rest: "0 \<le> (\<Sum>i\<leftarrow>js. occ (apush_chain s i) md)" by (rule sum_list_nonneg) (auto simp: occ_nonneg)
  then have d: "drop_chain md (apush_nref s md) (apush_chain s i) =
      (apush_nref s md = ?n, apush_nref s md - ?n, map (strip md) (apush_chain s i))"
    using Cons.prems by (intro drop_chain_spec) simp_all
  let ?t = "(set_chain i (map (strip md) (apush_chain s i)) s)\<lparr>apush_nref := (apush_nref s)(md := apush_nref s md - ?n)\<rparr>"
  have same: "map (\<lambda>j. occ (if j = i then map (strip md) (apush_chain s i) else apush_chain s j) md) js
      = map (\<lambda>j. occ (apush_chain s j) md) js"
    using Cons.prems(1) by auto
  show ?case
  proof (cases "apush_nref s md = ?n")
    case True
    then have z: "(\<Sum>i\<leftarrow>js. occ (apush_chain s i) md) = 0" using rest Cons.prems(2) by simp
    then have "\<forall>j\<in>set js. occ (apush_chain s j) md = 0"
      by (subst (asm) sum_list_nonneg_eq_0_iff) (auto simp: occ_nonneg)
    then have "\<forall>j\<in>set js. map (strip md) (apush_chain s j) = apush_chain s j"
      by (auto simp: occ_zero strip_idle intro: map_idI)
    then have "(\<lambda>j. if j = i \<or> j \<in> set js then map (strip md) (apush_chain s j) else apush_chain s j)
        = (apush_chain s)(i := map (strip md) (apush_chain s i))" by (auto simp: fun_eq_iff)
    with True z show ?thesis by (simp add: d[unfolded True] set_chain_def) (simp add: fun_upd_def)
  next
    case False
    have "drop_majors md js ?t = ?t\<lparr>apush_chain := (\<lambda>i. if i \<in> set js then map (strip md) (apush_chain ?t i) else apush_chain ?t i),
        apush_nref := (apush_nref ?t)(md := apush_nref ?t md - (\<Sum>i\<leftarrow>js. occ (apush_chain ?t i) md))\<rparr>"
      by (rule Cons.IH) (use Cons.prems False rest in \<open>auto simp: same\<close>)
    moreover have "(\<lambda>j. if j \<in> set js then map (strip md) (apush_chain ?t j) else apush_chain ?t j) =
        (\<lambda>j. if j = i \<or> j \<in> set js then map (strip md) (apush_chain s j) else apush_chain s j)"
      using Cons.prems(1) by (auto simp: fun_eq_iff)
    ultimately show ?thesis using False by (simp add: d same set_chain_def algebra_simps) (simp add: fun_upd_def algebra_simps)
  qed
qed simp

lemma total_list: "total s m = (\<Sum>i\<leftarrow>[0..<MAX_STRDEV]. occ (apush_chain s i) m)"
  by (simp add: total_def interv_sum_list_conv_sum_set_nat atLeast0LessThan)

text \<open>
  \<open>apush_drop_mod\<close> takes the module out of every list, although it stops when the count is 0: then
  the module occurs nowhere else.
\<close>

lemma apush_drop_mod_spec:
  assumes "apush_inv s"
  shows "apush_inv (apush_drop_mod md s) \<and>
    (\<forall>i<MAX_STRDEV. apush_chain (apush_drop_mod md s) i = map (strip md) (apush_chain s i)) \<and>
    (\<forall>i<MAX_STRDEV. \<forall>a\<in>set (apush_chain (apush_drop_mod md s) i). md \<notin> set (ap_push a)) \<and>
    apush_nref (apush_drop_mod md s) = (apush_nref s)(md := 0) \<and> fmod_sw (apush_drop_mod md s) = fmod_sw s"
proof -
  let ?t = "apush_drop_mod md s"
  have n: "apush_nref s md = total s md" using assms by (simp add: apush_inv_def)
  have c: "(\<forall>i<MAX_STRDEV. apush_chain ?t i = map (strip md) (apush_chain s i)) \<and>
      apush_nref ?t = (apush_nref s)(md := 0) \<and> fmod_sw ?t = fmod_sw s"
  proof (cases "apush_nref s md = 0")
    case True
    then have "\<forall>i\<in>{..<MAX_STRDEV}. occ (apush_chain s i) md = 0"
      using n by (simp add: total_def sum_nonneg_eq_0_iff occ_nonneg)
    then show ?thesis using True by (auto simp: apush_drop_mod_def occ_zero strip_idle map_idI)
  next
    case False
    have "0 \<le> total s md" unfolding total_def by (rule sum_nonneg) (simp add: occ_nonneg)
    then show ?thesis using False drop_majors_spec[of "[0..<MAX_STRDEV]" s md] n
      by (simp add: apush_drop_mod_def total_list)
  qed
  have "total ?t = (total s)(md := 0)" using c by (simp add: total_def occ_strip fun_eq_iff)
  then have "apush_inv ?t" using c assms by (auto simp: apush_inv_def chain_ok_strip strip_def nref_ok_def)
  with c show ?thesis by (auto simp: strip_def)
qed

end
