(* ===== verification/LiS_ModSpec.thy ===== *)
theory LiS_ModSpec
  imports LiS_Autopush
begin

text \<open>
  What the exported functions of \<open>mod.c\<close> promise: a registered module is found by its streamtab and by
  its name, an autopush request takes effect at the next open, an unregistered module is in no
  autopush list.  And where they do not: the lookup in a range, a range above another one, the answer
  to \<open>SAD_GAP\<close> for two modules, an interrupted registration, a linked module that is registered again.
\<close>

unbundle bit_operations_syntax

subsection \<open>The searches of the module table\<close>

lemma get_mod_Some [simp]: "i < MAX_STRMOD \<Longrightarrow> get_mod i s = Some (fmod_sw s i)"
  by (simp add: get_mod_def)

lemma upd_mod_Some [simp]:
  "i < MAX_STRMOD \<Longrightarrow> upd_mod i f s = Some (s\<lparr>fmod_sw := (fmod_sw s)(i := f (fmod_sw s i))\<rparr>)"
  by (simp add: upd_mod_def)

lemma findmod_loop_none:
  "n < MAX_STRMOD \<Longrightarrow> \<forall>j. 0 < j \<and> j \<le> n \<longrightarrow> f_name (fmod_sw s j) \<noteq> name \<Longrightarrow> findmod_loop n name s = Some 0"
  by (induction n) auto

lemma findmod_loop_hit:
  assumes "n < MAX_STRMOD" "0 < i" "i \<le> n" "f_name (fmod_sw s i) = name"
    and "\<forall>j. i < j \<and> j \<le> n \<longrightarrow> f_name (fmod_sw s j) \<noteq> name"
  shows "findmod_loop n name s = Some i"
  using assms by (induction n) (auto simp: le_Suc_eq)

lemma findmod_loop_name:
  "findmod_loop n name s = Some i \<Longrightarrow> 0 < i \<Longrightarrow> i < MAX_STRMOD \<and> f_name (fmod_sw s i) = name"
  by (induction n) (auto simp: get_mod_def split: if_splits option.splits bind_splits)

lemma find_mod_loop_none:
  "i + n \<le> MAX_STRMOD \<Longrightarrow> \<forall>j. i \<le> j \<and> j < i + n \<longrightarrow> f_name (fmod_sw s j) \<noteq> name \<Longrightarrow>
     find_mod_loop n i name s = Some (- 1)"
  by (induction n arbitrary: i) auto

lemma strtab_loop_none:
  "i + n \<le> MAX_STRMOD \<Longrightarrow> \<forall>j. i \<le> j \<and> j < i + n \<longrightarrow> f_str (fmod_sw s j) \<noteq> st \<Longrightarrow>
     findmod_strtab_loop n i st s = Some 0"
  by (induction n arbitrary: i) auto

lemma strtab_loop_hit:
  assumes "i + n \<le> MAX_STRMOD" "i \<le> k" "k < i + n" "f_str (fmod_sw s k) = st"
    and "\<forall>j. i \<le> j \<and> j < k \<longrightarrow> f_str (fmod_sw s j) \<noteq> st"
  shows "findmod_strtab_loop n i st s = Some k"
  using assms
proof (induction n arbitrary: i)
  case (Suc n)
  then show ?case by (cases "k = i") auto
qed simp

lemma empty_loop_spec:
  "i + n \<le> MAX_STRMOD \<Longrightarrow> \<exists>k. empty_mod_loop n i s = Some k \<and> i \<le> k \<and> k \<le> i + n \<and>
     (k < i + n \<longrightarrow> f_name (fmod_sw s k) = [])"
proof (induction n arbitrary: i)
  case (Suc n)
  show ?case
  proof (cases "f_name (fmod_sw s i) = []")
    case False
    then show ?thesis using Suc.IH[of "i + 1"] Suc.prems by auto
  qed (use Suc.prems in auto)
qed simp

subsection \<open>Registering a module\<close>

definition reg_free :: "modst \<Rightarrow> bool" where
  "reg_free s \<longleftrightarrow> sem_ok (mod_reg s) \<and> 0 < sem_cnt (mod_reg s)"

lemma reg_down_up:
  assumes "reg_free s"
  shows "\<exists>m. reg_down s = Some (0, s\<lparr>mod_reg := m\<rparr>) \<and> sem_up m = mod_reg s"
  using assms by (intro exI[of _ "(mod_reg s)\<lparr>sem_cnt := sem_cnt (mod_reg s) - 1\<rparr>"])
    (simp add: reg_free_def reg_down_def sem_down_def sem_up_def)

definition new_slot :: "ptr \<Rightarrow> string \<Rightarrow> fmodsw \<Rightarrow> fmodsw" where
  "new_slot strtab name m = m\<lparr>f_str := strtab, f_count := 0, f_name := take LIS_NAMESZ name, f_sem := sem_init 1,
     f_state := MODSTATE_LOADED OR MODSTATE_INITED\<rparr>"

lemma initialize_module_new:
  assumes "i < MAX_STRMOD" "st AND MODSTATE_INITED = 0"
  shows "initialize_module i name st s = Some (s\<lparr>fmod_sw := (fmod_sw s)(i := (fmod_sw s i)\<lparr>f_count := 0,
      f_name := take LIS_NAMESZ name, f_sem := sem_init 1, f_state := st OR MODSTATE_INITED\<rparr>)\<rparr>)"
  using assms by (simp add: initialize_module_def)

lemma find_empty_spec:
  assumes "0 < fmodcnt s" "fmodcnt s < MAX_STRMOD"
  shows "\<exists>i. find_empty_mod_index name s = Some (i, s\<lparr>fmod_sw := (fmod_sw s)(i := (fmod_sw s i)\<lparr>f_count := 0,
      f_name := take LIS_NAMESZ name, f_sem := sem_init 1, f_state := MODSTATE_UNKNOWN OR MODSTATE_INITED\<rparr>), fmodcnt := (if i = fmodcnt s then fmodcnt s + 1 else fmodcnt s)\<rparr>) \<and>
    0 < i \<and> i \<le> fmodcnt s \<and>
    (i < fmodcnt s \<longrightarrow> f_name (fmod_sw s i) = [])"
proof -
  obtain k where k: "empty_mod_loop (fmodcnt s - 1) 1 s = Some k" "1 \<le> k" "k \<le> fmodcnt s"
    "k < fmodcnt s \<longrightarrow> f_name (fmod_sw s k) = []"
    using empty_loop_spec[of 1 "fmodcnt s - 1" s] assms by auto
  have st: "MODSTATE_UNKNOWN AND MODSTATE_INITED = 0" by (simp add: modstate_defs)
  show ?thesis
  proof (cases "k < fmodcnt s")
    case True
    then show ?thesis using k assms(2) initialize_module_new[OF _ st, of k name s]
      by (intro exI[of _ k]) (simp add: find_empty_mod_index_def)
  next
    case False
    then show ?thesis using k assms(2) initialize_module_new[OF _ st, of k name s]
      by (intro exI[of _ k]) (simp add: find_empty_mod_index_def)
  qed
qed

text \<open>A module that is new by streamtab and by name.\<close>

lemma register_new_spec:
  assumes reg: "reg_free s" and cnt: "0 < fmodcnt s" "fmodcnt s < MAX_STRMOD - 1"
    and st: "strtab \<noteq> NULL" "\<forall>j. 0 < j \<and> j \<le> fmodcnt s \<longrightarrow> f_str (fmod_sw s j) \<noteq> strtab"
    and nm: "\<forall>j. 0 < j \<and> j \<le> fmodcnt s \<longrightarrow> f_name (fmod_sw s j) \<noteq> name"
  shows "\<exists>i t. lis_register_strmod strtab (Some name) s = Some (i, t) \<and> 0 < i \<and> i < fmodcnt t \<and> fmodcnt t < MAX_STRMOD \<and>
    fmodcnt s \<le> fmodcnt t \<and> fmodcnt t \<le> fmodcnt s + 1 \<and> i \<le> fmodcnt s \<and>
    fmod_sw t = (fmod_sw s)(i := new_slot strtab name (fmod_sw s i)) \<and> (i < fmodcnt s \<longrightarrow> f_name (fmod_sw s i) = []) \<and>
    mod_reg t = mod_reg s \<and> apush_chain t = apush_chain s \<and> apush_nref t = apush_nref s \<and> fstr_sw t = fstr_sw s"
proof -
  obtain m where m: "reg_down s = Some (0, s\<lparr>mod_reg := m\<rparr>)" "sem_up m = mod_reg s"
    using reg_down_up[OF reg] by blast
  let ?s = "s\<lparr>mod_reg := m\<rparr>"
  have 1: "lis_findmod_strtab strtab s = Some (0, s)"
    using strtab_loop_none[of 1 "fmodcnt s - 1" ?s strtab] st cnt m
    by (simp add: lis_findmod_strtab_def reg_up_def)
  have 2: "find_mod name ?s = Some (- 1)"
    using find_mod_loop_none[of 1 "fmodcnt s" ?s name] nm cnt by (simp add: find_mod_def)
  have lt: "fmodcnt s < MAX_STRMOD" using cnt by simp
  obtain i where 3: "find_empty_mod_index name ?s = Some (i, ?s\<lparr>fmod_sw := (fmod_sw s)(i := (fmod_sw s i)\<lparr>f_count := 0,
      f_name := take LIS_NAMESZ name, f_sem := sem_init 1, f_state := MODSTATE_UNKNOWN OR MODSTATE_INITED\<rparr>), fmodcnt := (if i = fmodcnt s then fmodcnt s + 1 else fmodcnt s)\<rparr>)"
    "0 < i" "i \<le> fmodcnt s"
    "i < fmodcnt s \<longrightarrow> f_name (fmod_sw s i) = []"
    using find_empty_spec[of ?s name] cnt(1) lt by (auto cong: if_cong)
  define c where "c = (if i = fmodcnt s then fmodcnt s + 1 else fmodcnt s)"
  have i: "i < MAX_STRMOD" "i \<noteq> c" "c < MAX_STRMOD" using 3(2,3) cnt by (auto simp: c_def)
  have st0: "MODSTATE_LOADED AND MODSTATE_INITED = 0" by (simp add: modstate_defs)
  let ?t = "s\<lparr>fmodcnt := c, fmod_sw := (fmod_sw s)(i := new_slot strtab name (fmod_sw s i))\<rparr>"
  have "lis_register_strmod strtab (Some name) s = Some (i, ?t)"
    using 1 2 3(1)[folded c_def] m i st(1) by (simp add: lis_register_strmod_def initialize_module_new[OF _ st0] reg_up_def new_slot_def)
  then show ?thesis using 3(2-4) i by (intro exI[of _ i] exI[of _ ?t]) (auto simp: c_def)
qed

text \<open>It is found again, by its streamtab and by its name.\<close>

lemma register_find_spec:
  assumes reg: "reg_free s" and cnt: "0 < fmodcnt s" "fmodcnt s < MAX_STRMOD - 1"
    and st: "strtab \<noteq> NULL" "\<forall>j. 0 < j \<and> j \<le> fmodcnt s \<longrightarrow> f_str (fmod_sw s j) \<noteq> strtab"
    and nm: "name \<noteq> []" "length name \<le> LIS_NAMESZ" "\<forall>j. 0 < j \<and> j \<le> fmodcnt s + 1 \<longrightarrow> f_name (fmod_sw s j) \<noteq> name"
  shows "\<exists>i t. lis_register_strmod strtab (Some name) s = Some (i, t) \<and> 0 < i \<and>
    lis_findmod_strtab strtab t = Some (i, t) \<and> lis_findmod name t = Some i \<and>
    (\<forall>j. j \<noteq> i \<longrightarrow> fmod_sw t j = fmod_sw s j) \<and> f_state (fmod_sw t i) = MODSTATE_LOADED OR MODSTATE_INITED \<and> reg_free t"
proof -
  obtain i t where t: "lis_register_strmod strtab (Some name) s = Some (i, t)" "0 < i" "i < fmodcnt t" "fmodcnt t < MAX_STRMOD"
    "fmodcnt s \<le> fmodcnt t" "fmodcnt t \<le> fmodcnt s + 1" "i \<le> fmodcnt s"
    "fmod_sw t = (fmod_sw s)(i := new_slot strtab name (fmod_sw s i))" "mod_reg t = mod_reg s"
    using register_new_spec[OF reg cnt st] nm(3) by (metis le_SucI Suc_eq_plus1)
  have slot: "f_str (fmod_sw t i) = strtab" "f_name (fmod_sw t i) = name"
    using t(8) nm(2) by (simp_all add: new_slot_def)
  have free: "reg_free t" using reg t(9) by (simp add: reg_free_def)
  obtain m where m: "reg_down t = Some (0, t\<lparr>mod_reg := m\<rparr>)" "sem_up m = mod_reg t"
    using reg_down_up[OF free] by blast
  have "findmod_strtab_loop (fmodcnt t - 1) 1 strtab (t\<lparr>mod_reg := m\<rparr>) = Some i"
    by (rule strtab_loop_hit) (use t st slot in auto)
  then have "lis_findmod_strtab strtab t = Some (i, t)"
    using m st(1) by (simp add: lis_findmod_strtab_def reg_up_def)
  moreover have "lis_findmod name t = Some i"
    using findmod_loop_hit[of "fmodcnt t" i t name] t nm slot by (simp add: lis_findmod_def)
  ultimately show ?thesis using t free by (auto simp: new_slot_def)
qed


text \<open>
  A signal that ends the wait for the table's semaphore: the error code \<open>-EINTR\<close> becomes the module
  number 65532, and the callers take every positive number for a success.
\<close>

lemma register_interrupted:
  assumes "sem_ok (mod_reg s)" "sem_cnt (mod_reg s) \<le> 0" "mod_sig s" "strtab \<noteq> NULL"
  shows "lis_register_strmod strtab (Some name) s = Some (65532, s)"
proof -
  have "reg_down s = Some (- eINTR, s)" using assms by (simp add: reg_down_def sem_down_def)
  then show ?thesis using assms(4) by (simp add: lis_register_strmod_def lis_findmod_strtab_def modID_def)
qed

subsection \<open>Unregistering a module\<close>

lemma drop_majors_frame:
  "fmod_sw (drop_majors md is s) = fmod_sw s \<and> mod_reg (drop_majors md is s) = mod_reg s \<and>
   fmodcnt (drop_majors md is s) = fmodcnt s"
  by (induction "is" arbitrary: s) (auto simp: set_chain_def Let_def split: prod.splits)

lemma drop_mod_frame [simp]:
  "fmod_sw (apush_drop_mod md s) = fmod_sw s" "mod_reg (apush_drop_mod md s) = mod_reg s"
  "fmodcnt (apush_drop_mod md s) = fmodcnt s"
  using drop_majors_frame[of md _ s] by (simp_all add: apush_drop_mod_def)

definition dead_slot :: "fmodsw \<Rightarrow> fmodsw" where
  "dead_slot m = m\<lparr>f_sem := sem_none, f_state := MODSTATE_UNKNOWN, f_count := 0, f_name := []\<rparr>"

text \<open>The slot of a module that may go: initialised, unused, not being loaded, its semaphore free.\<close>

definition idle :: "fmodsw \<Rightarrow> bool" where
  "idle m \<longleftrightarrow> f_state m AND MODSTATE_INITED \<noteq> 0 \<and> f_count m = 0 \<and> sem_ok (f_sem m) \<and> 0 < sem_cnt (f_sem m) \<and>
     f_state m AND MODSTATE_MASK \<in> {MODSTATE_LINKED, MODSTATE_UNLOADED, MODSTATE_LOADED, MODSTATE_UNKNOWN}"

lemma modstate_distinct:
  "MODSTATE_LINKED \<noteq> MODSTATE_LOADING" "MODSTATE_LINKED \<noteq> MODSTATE_LOADED" "MODSTATE_LINKED \<noteq> MODSTATE_UNLOADED"
  "MODSTATE_LINKED \<noteq> MODSTATE_UNKNOWN" "MODSTATE_LOADED \<noteq> MODSTATE_LOADING" "MODSTATE_UNLOADED \<noteq> MODSTATE_LOADING"
  "MODSTATE_UNKNOWN \<noteq> MODSTATE_LOADING"
  by (simp_all add: modstate_defs)

lemma unregister_module_spec:
  assumes "slot < MAX_STRMOD" "idle (fmod_sw s slot)"
  shows "unregister_module slot s = Some (0, apush_drop_mod slot (s\<lparr>fmod_sw := (fmod_sw s)(slot :=
      dead_slot (if f_state (fmod_sw s slot) AND MODSTATE_MASK = MODSTATE_LINKED then fmod_sw s slot
        else (fmod_sw s slot)\<lparr>f_str := NULL\<rparr>))\<rparr>))"
  using assms modstate_distinct
  by (auto simp: unregister_module_def idle_def mod_down_def mod_up_def sem_down_def sem_up_def
      deinitialize_module_def dead_slot_def)

text \<open>The module is in no autopush list afterwards, and the counts are still right.\<close>

lemma apush_inv_fmod: "apush_inv (s\<lparr>fmod_sw := X\<rparr>) = apush_inv s"
  by (simp add: apush_inv_def total_def[abs_def])

lemma apush_inv_reg: "apush_inv (s\<lparr>mod_reg := X\<rparr>) = apush_inv s"
  by (simp add: apush_inv_def total_def[abs_def])

lemma unregister_module_gone:
  assumes "slot < MAX_STRMOD" "idle (fmod_sw s slot)" "apush_inv s"
  shows "\<exists>t. unregister_module slot s = Some (0, t) \<and> apush_inv t \<and>
    (\<forall>i<MAX_STRDEV. \<forall>a\<in>set (apush_chain t i). slot \<notin> set (ap_push a)) \<and>
    f_state (fmod_sw t slot) AND MODSTATE_INITED = 0 \<and> f_name (fmod_sw t slot) = [] \<and>
    (\<forall>j. j \<noteq> slot \<longrightarrow> fmod_sw t j = fmod_sw s j)"
proof -
  let ?s = "s\<lparr>fmod_sw := (fmod_sw s)(slot :=
      dead_slot (if f_state (fmod_sw s slot) AND MODSTATE_MASK = MODSTATE_LINKED then fmod_sw s slot
        else (fmod_sw s slot)\<lparr>f_str := NULL\<rparr>))\<rparr>"
  have "apush_inv ?s" using assms(3) by (simp only: apush_inv_fmod)
  note d = apush_drop_mod_spec[OF this, of slot]
  show ?thesis
    unfolding unregister_module_spec[OF assms(1,2)] using d
    by (intro exI[of _ "apush_drop_mod slot ?s"]) (simp add: dead_slot_def modstate_defs)
qed

text \<open>A module in use is not unregistered.\<close>

lemma unregister_module_busy:
  assumes "slot < MAX_STRMOD" "f_state (fmod_sw s slot) AND MODSTATE_INITED \<noteq> 0" "f_count (fmod_sw s slot) \<noteq> 0"
  shows "unregister_module slot s = Some (- eBUSY, s)"
  using assms by (simp add: unregister_module_def)

lemma unregister_slot_hit:
  assumes "n < MAX_STRMOD" "0 < i" "i \<le> n" "f_str (fmod_sw s i) = st" "\<forall>j. i < j \<and> j \<le> n \<longrightarrow> f_str (fmod_sw s j) \<noteq> st"
  shows "unregister_slot n st s = Some i"
  using assms by (induction n) (auto simp: le_Suc_eq)

lemma unregister_strmod_spec:
  assumes reg: "reg_free s" and i: "0 < i" "i < fmodcnt s" "fmodcnt s < MAX_STRMOD" "idle (fmod_sw s i)"
    and st: "f_str (fmod_sw s i) = strtab" "\<forall>j. i < j \<and> j \<le> fmodcnt s \<longrightarrow> f_str (fmod_sw s j) \<noteq> strtab"
  shows "\<exists>m. lis_unregister_strmod strtab s = Some (0, reg_up (apush_drop_mod i (s\<lparr>mod_reg := m, fmod_sw := (fmod_sw s)(i :=
      dead_slot (if f_state (fmod_sw s i) AND MODSTATE_MASK = MODSTATE_LINKED then fmod_sw s i
        else (fmod_sw s i)\<lparr>f_str := NULL\<rparr>))\<rparr>))) \<and> sem_up m = mod_reg s"
proof -
  obtain m where m: "reg_down s = Some (0, s\<lparr>mod_reg := m\<rparr>)" "sem_up m = mod_reg s"
    using reg_down_up[OF reg] by blast
  have "unregister_slot (fmodcnt s) strtab (s\<lparr>mod_reg := m\<rparr>) = Some i"
    by (rule unregister_slot_hit) (use i st in auto)
  moreover have "i < MAX_STRMOD" using i by simp
  ultimately have "lis_unregister_strmod strtab s = Some (0, reg_up (apush_drop_mod i (s\<lparr>mod_reg := m, fmod_sw := (fmod_sw s)(i :=
      dead_slot (if f_state (fmod_sw s i) AND MODSTATE_MASK = MODSTATE_LINKED then fmod_sw s i
        else (fmod_sw s i)\<lparr>f_str := NULL\<rparr>))\<rparr>)))"
    using m i(4) st(1) by (simp add: lis_unregister_strmod_def unregister_module_spec)
  with m(2) show ?thesis by blast
qed

text \<open>
  A module in state \<open>LINKED\<close> keeps its streamtab in the slot that it leaves.  When it is registered
  again, the search by streamtab finds this slot: its number is returned, but the slot stays without
  a name and uninitialised, and the module cannot be found by name.
\<close>

lemma register_again_dead:
  assumes reg: "reg_free s" and i: "0 < i" "i < fmodcnt s" "fmodcnt s < MAX_STRMOD" "idle (fmod_sw s i)"
    and lnk: "f_state (fmod_sw s i) AND MODSTATE_MASK = MODSTATE_LINKED"
    and st: "strtab \<noteq> NULL" "f_str (fmod_sw s i) = strtab" "\<forall>j. 0 < j \<and> j \<le> fmodcnt s \<and> j \<noteq> i \<longrightarrow> f_str (fmod_sw s j) \<noteq> strtab"
    and nm: "name \<noteq> []" "\<forall>j. 0 < j \<and> j \<le> fmodcnt s \<and> j \<noteq> i \<longrightarrow> f_name (fmod_sw s j) \<noteq> name"
  shows "\<exists>t. lis_unregister_strmod strtab s = Some (0, t) \<and> lis_register_strmod strtab (Some name) t = Some (i, t) \<and>
    f_state (fmod_sw t i) AND MODSTATE_INITED = 0 \<and> lis_findmod name t = Some LIS_NULL_MID"
proof -
  obtain m where m: "lis_unregister_strmod strtab s = Some (0, reg_up (apush_drop_mod i
      (s\<lparr>mod_reg := m, fmod_sw := (fmod_sw s)(i := dead_slot (fmod_sw s i))\<rparr>)))" "sem_up m = mod_reg s"
    using unregister_strmod_spec[OF reg i st(2)] st(3) lnk by auto
  let ?t = "reg_up (apush_drop_mod i (s\<lparr>mod_reg := m, fmod_sw := (fmod_sw s)(i := dead_slot (fmod_sw s i))\<rparr>))"
  have t: "fmod_sw ?t = (fmod_sw s)(i := dead_slot (fmod_sw s i))" "fmodcnt ?t = fmodcnt s" "mod_reg ?t = mod_reg s"
    using m(2) by (simp_all add: reg_up_def)
  have free: "reg_free ?t" using reg t(3) by (simp add: reg_free_def)
  obtain k where k: "reg_down ?t = Some (0, ?t\<lparr>mod_reg := k\<rparr>)" "sem_up k = mod_reg ?t"
    using reg_down_up[OF free] by blast
  have "findmod_strtab_loop (fmodcnt ?t - 1) 1 strtab (?t\<lparr>mod_reg := k\<rparr>) = Some i"
    by (rule strtab_loop_hit) (use i st t in \<open>auto simp: dead_slot_def\<close>)
  then have "lis_register_strmod strtab (Some name) ?t = Some (i, ?t)"
    using st(1) k i(1) by (simp add: lis_register_strmod_def lis_findmod_strtab_def reg_up_def)
  moreover have "findmod_loop (fmodcnt ?t) name ?t = Some 0"
    by (rule findmod_loop_none) (use i nm t in \<open>auto simp: dead_slot_def\<close>)
  then have "lis_findmod name ?t = Some 0" using nm(1) by (simp add: lis_findmod_def)
  ultimately show ?thesis using m(1) t(1) by (intro exI[of _ ?t]) (simp add: dead_slot_def modstate_defs)
qed


subsection \<open>Finding an autopush entry\<close>

text \<open>
  The entry found is the first that answers the minor: the entry for all minors, the one that begins at
  it, or a range that ends at or before it.
\<close>

definition answers :: "nat \<Rightarrow> autopush \<Rightarrow> bool" where
  "answers m a \<longleftrightarrow> ap_cmd a = SAP_ALL \<or> ap_minor a = m \<or> ap_cmd a = SAP_RANGE \<and> ap_lastminor a \<le> m"

lemma find_entry_answers:
  assumes "chain_ok as"
  shows "find_entry m as = find (answers m) as"
  using assms
proof (cases rule: chain_cases)
  case sep
  from sep(1) show ?thesis
  proof (induction as)
    case (Cons a as)
    have above: "\<not> answers m b" if "b \<in> set (a # as)" "m < ap_minor a" for b
    proof -
      have "entry_ok b" "ap_minor a \<le> ap_minor b" using Cons.prems that(1) entry_le[of a] by (auto simp: sep_def)
      then show ?thesis using that(2) by (auto simp: answers_def entry_ok_def)
    qed
    then have none: "find (answers m) (a # as) = None" if "m < ap_minor a"
      using that by (auto simp: find_None_iff)
    have na: "ap_cmd a \<noteq> SAP_ALL" using Cons.prems entry_not_all[of a] by simp
    show ?case
    proof (cases "m < ap_minor a")
      case True
      then show ?thesis unfolding none[OF True] using na by simp
    next
      case False
      then show ?thesis using na Cons answers_def[of m a] by auto
    qed
  qed simp
qed (simp add: answers_def)

text \<open>
  A range, the only entry of its major: it is found for its first minor and for those from its last
  minor on, and not for the minors inside it.
\<close>

lemma range_lookup:
  assumes "apush_chain s major = [a]" "ap_cmd a = SAP_RANGE" "ap_minor a < ap_lastminor a"
  shows "find_apush_entry major m s = (if m = ap_minor a \<or> ap_lastminor a \<le> m then Some a else None)"
  using assms by (auto simp: find_apush_entry_def)

text \<open>A range above another range is refused, although they do not overlap.\<close>

lemma range_refused:
  assumes "apush_inv s" "major < MAX_STRDEV" "f_str (fstr_sw s major) \<noteq> NULL"
    and "ap_cmd a = SAP_RANGE" "ap_minor a < ap_lastminor a"
    and "r \<in> set (apush_chain s major)" "ap_cmd r = SAP_RANGE" "ap_lastminor r < ap_minor a"
  shows "apush_conf e major a s = Some (- eEXIST, s)"
proof -
  have ok: "chain_ok (apush_chain s major)" using assms by (simp add: apush_inv_def)
  then show ?thesis
  proof (cases rule: chain_cases)
    case sep
    have "ap_minor r \<le> ap_lastminor r"
      using assms(6,7) sep(1) by (auto simp: sep_def entry_ok_def)
    then have "ins_range a (apush_chain s major) = None"
      using ins_range_spec[OF sep(1) assms(5)] assms(5-8) by force
    then show ?thesis using assms(2-5) sep(2) by (simp add: apush_conf_def conf_add_def)
  qed (use assms(6,7) in auto)
qed

subsection \<open>Setting and using an autopush entry\<close>

text \<open>A module that need not be loaded: \<open>i\<close> is the slot found by name, linked or loaded.\<close>

definition known :: "modst \<Rightarrow> string \<Rightarrow> nat \<Rightarrow> bool" where
  "known s name i \<longleftrightarrow> lis_findmod name s = Some i \<and> 0 < i \<and> idle (fmod_sw s i) \<and>
     f_state (fmod_sw s i) AND MODSTATE_MASK \<in> {MODSTATE_LINKED, MODSTATE_LOADED}"

lemma known_slot: "known s name i \<Longrightarrow> i < MAX_STRMOD \<and> f_name (fmod_sw s i) = name"
  using findmod_loop_name[of "fmodcnt s" name s i] by (auto simp: known_def lis_findmod_def split: if_splits)

lemma sem_cycle: "sem_ok m \<Longrightarrow> 0 < sem_cnt m \<Longrightarrow> sem_up (m\<lparr>sem_cnt := sem_cnt m - 1\<rparr>) = m"
  by (simp add: sem_up_def)

lemma loadmod_known:
  assumes "known s name i" "reg_free s"
  shows "lis_loadmod e name s = Some (i, s)"
proof -
  obtain m where m: "reg_down s = Some (0, s\<lparr>mod_reg := m\<rparr>)" "sem_up m = mod_reg s"
    using reg_down_up[OF assms(2)] by blast
  have i: "i < MAX_STRMOD" "lis_findmod name s = Some i" "0 < i" "sem_ok (f_sem (fmod_sw s i))" "0 < sem_cnt (f_sem (fmod_sw s i))"
    "f_state (fmod_sw s i) AND MODSTATE_MASK = MODSTATE_LINKED \<or> f_state (fmod_sw s i) AND MODSTATE_MASK = MODSTATE_LOADED"
    using assms(1) known_slot[OF assms(1)] by (auto simp: known_def idle_def)
  then show ?thesis
    using m by (simp add: lis_loadmod_def mod_down_def mod_up_def sem_down_def sem_cycle reg_up_def)
qed

text \<open>The rows of a request name the known modules \<open>ms\<close>.\<close>

definition rows :: "modst \<Rightarrow> nat \<Rightarrow> string \<Rightarrow> nat list \<Rightarrow> bool" where
  "rows s i bs ms \<longleftrightarrow> (\<forall>j<length ms. \<exists>nm. cstr_at (sap_row (i + j)) bs = Some nm \<and> known s nm (ms ! j))"

lemma load_names_known:
  assumes "rows s i bs ms" "reg_free s"
  shows "load_names e (length ms) i bs s = Some (Some ms, s)"
  using assms
proof (induction ms arbitrary: i)
  case (Cons m ms)
  obtain nm where nm: "cstr_at (sap_row i) bs = Some nm" "known s nm m"
    using Cons.prems(1) by (auto simp: rows_def dest: spec[of _ 0])
  have "rows s (i + 1) bs ms" using Cons.prems(1) unfolding rows_def by (auto dest: spec[of _ "Suc _"])
  with Cons nm show ?case using loadmod_known[OF nm(2)] by (simp add: known_def)
qed simp

lemma validate_known:
  "\<forall>m\<in>set ms. m < MAX_STRMOD \<and> f_state (fmod_sw s m) AND MODSTATE_INITED \<noteq> 0 \<Longrightarrow> apush_validate_loop ms s = Some 0"
  by (induction ms) auto

lemma rows_valid:
  assumes "rows s i bs ms"
  shows "\<forall>m\<in>set ms. m < MAX_STRMOD \<and> f_state (fmod_sw s m) AND MODSTATE_INITED \<noteq> 0"
proof
  fix m assume "m \<in> set ms"
  then obtain nm where "known s nm m" using assms by (auto simp: rows_def in_set_conv_nth)
  then show "m < MAX_STRMOD \<and> f_state (fmod_sw s m) AND MODSTATE_INITED \<noteq> 0"
    using known_slot[of s nm m] by (simp add: known_def idle_def)
qed

definition sap_entry :: "strapush \<Rightarrow> ptr \<Rightarrow> nat list \<Rightarrow> autopush" where
  "sap_entry ap p ms = \<lparr>ap_addr = p, ap_cmd = sap_cmd ap, ap_minor = sap_minor ap, ap_lastminor = sap_lastminor ap, ap_push = ms\<rparr>"

text \<open>\<open>lis_apush_set\<close> for known modules is \<open>apush_conf\<close> of the entry, which is given back on an error.\<close>

lemma apush_set_spec:
  assumes "sap_major ap < MAX_STRDEV" "f_str (fstr_sw s (sap_major ap)) \<noteq> NULL" "ap_mem s = p # ps" "p \<noteq> NULL"
    and "sap_npush ap = length ms" "length ms \<le> MAXAPUSH" "rows s 0 (sap_list ap) ms" "reg_free s"
  shows "lis_apush_set e ap s = do {
    (err, t) \<leftarrow> apush_conf e (sap_major ap) (sap_entry ap p ms) (s\<lparr>ap_mem := ps\<rparr>);
    if err < 0 then Some (err, ap_free p t) else Some (0, t) }"
proof -
  let ?s = "s\<lparr>ap_mem := ps\<rparr>"
  have kn: "known ?s nm i = known s nm i" for nm i
  proof -
    have "findmod_loop n nm ?s = findmod_loop n nm s" for n by (induction n) (simp_all add: get_mod_def)
    then show ?thesis by (simp add: known_def lis_findmod_def)
  qed
  have "rows ?s 0 (sap_list ap) ms" using assms(7) by (simp add: rows_def kn)
  moreover have "reg_free ?s" using assms(8) by (simp add: reg_free_def)
  ultimately have l: "load_names e (length ms) 0 (sap_list ap) ?s = Some (Some ms, ?s)" by (rule load_names_known)
  have v: "apush_validate ms ?s = Some 0"
    using assms(6) validate_known[OF rows_valid[OF \<open>rows ?s 0 (sap_list ap) ms\<close>]] by (simp add: apush_validate_def)
  show ?thesis
    using assms(1-6) l v by (simp add: lis_apush_set_def get_dev_def ap_alloc_def sap_entry_def)
qed

lemma mod_names_known:
  "\<forall>m\<in>set ms. m < MAX_STRMOD \<Longrightarrow> mod_names ms s = Some (map (\<lambda>m. f_name (fmod_sw s m)) ms)"
  by (induction ms) auto

text \<open>What \<open>lis_apushm\<close> gives for an entry.\<close>

definition pushes :: "modst \<Rightarrow> autopush option \<Rightarrow> int \<times> string list" where
  "pushes s x = (case x of None \<Rightarrow> (0, [])
     | Some a \<Rightarrow> (int (length (ap_push a)), map (\<lambda>i. f_name (fmod_sw s i)) (ap_push a)))"

lemma apushm_spec:
  assumes "apush_inv s" "major < MAX_STRDEV"
  shows "lis_apushm (int major) m s = Some (pushes s (find (answers m) (apush_chain s major)))"
proof -
  have c: "chain_ok (apush_chain s major)" "\<forall>a\<in>set (apush_chain s major). nref_ok a"
    using assms by (simp_all add: apush_inv_def)
  show ?thesis
  proof (cases "find (answers m) (apush_chain s major)")
    case None
    then show ?thesis using assms(2) find_entry_answers[OF c(1)]
      by (simp add: lis_apushm_def find_apush_entry_def pushes_def)
  next
    case (Some a)
    then have "\<forall>i\<in>set (ap_push a). i < MAX_STRMOD" using c(2) by (auto simp: nref_ok_def find_Some_iff)
    then show ?thesis using assms(2) Some find_entry_answers[OF c(1)]
      by (simp add: lis_apushm_def find_apush_entry_def pushes_def mod_names_known)
  qed
qed

text \<open>The lookup after an insertion, and after \<open>SAP_CLEAR\<close>, over the chain of before.\<close>

lemma find_place:
  "find P (place k a as) =
    (if P a \<and> (\<forall>x\<in>set (takeWhile (\<lambda>r. ap_minor r \<le> k) as). \<not> P x) then Some a else find P as)"
  by (induction as) auto

lemma place_before:
  assumes "chain_ok (place k a as)" "x \<in> set as"
  shows "x \<in> set (takeWhile (\<lambda>r. ap_minor r \<le> k) as) \<longleftrightarrow> ap_minor x < ap_minor a"
  using assms(1)
proof (cases rule: chain_cases)
  case sep
  let ?b = "takeWhile (\<lambda>r. ap_minor r \<le> k) as" and ?c = "dropWhile (\<lambda>r. ap_minor r \<le> k) as"
  have x: "x \<in> set ?b \<or> x \<in> set ?c" using assms(2) by (metis UnE set_append takeWhile_dropWhile_id)
  have s: "sep (?b @ a # ?c)" using sep(1) by (simp add: place_def)
  then have e: "entry_ok a" "\<forall>y\<in>set ?b. entry_ok y \<and> lastm y < ap_minor a" "\<forall>y\<in>set ?c. lastm a < ap_minor y"
    by (simp_all add: sep_def sorted_wrt_append)
  have "ap_minor y < ap_minor a" if "y \<in> set ?b" for y
    using e(2) that entry_le[of y] by (meson le_less_trans)
  moreover have "ap_minor a < ap_minor y" if "y \<in> set ?c" for y
    using e(3) that entry_le[OF e(1)] by (meson le_less_trans)
  ultimately show ?thesis using x less_asym by blast
qed (use assms(2) in \<open>auto simp: place_single\<close>)

lemma add_lookup:
  assumes "chain_ok as" "conf_add a as = Inr r"
  shows "find (answers m) r = (if answers m a \<and> (\<forall>x\<in>set as. ap_minor x < ap_minor a \<longrightarrow> \<not> answers m x)
    then Some a else find (answers m) as)"
proof -
  obtain k where k: "r = place k a as" "chain_ok r" using conf_add_spec[OF assms] by blast
  have "(\<forall>x\<in>set (takeWhile (\<lambda>r. ap_minor r \<le> k) as). \<not> answers m x) =
      (\<forall>x\<in>set as. ap_minor x < ap_minor a \<longrightarrow> \<not> answers m x)"
    using place_before[OF k(2)[unfolded k(1)]] by (auto dest: set_takeWhileD)
  then show ?thesis by (simp add: k(1) find_place)
qed

definition cleared :: "nat \<Rightarrow> autopush list \<Rightarrow> autopush list" where
  "cleared m as = filter (\<lambda>x. ap_cmd x \<noteq> SAP_ALL \<and> ap_minor x \<noteq> m) as"

lemma clear_cleared:
  assumes "chain_ok as" "clear_chain m as = Some (x, r)"
  shows "r = cleared m as"
  using assms(1)
proof (cases rule: chain_cases)
  case sep
  have "\<forall>x\<in>set as. ap_cmd x \<noteq> SAP_ALL" using sep(1) entry_not_all by (auto simp: sep_def)
  moreover have "r = filter (\<lambda>a. ap_minor a \<noteq> m) as"
    using assms(2) clear_chain_spec[OF sep(1), of m] by (auto split: option.splits)
  ultimately show ?thesis by (auto simp: cleared_def intro: filter_cong)
qed (use assms(2) in \<open>auto simp: cleared_def split: if_splits\<close>)

lemma conf_chain:
  assumes "chain_ok (apush_chain s major)" "apush_conf e major a s = Some (0, t)"
  shows "if ap_cmd a = SAP_CLEAR then apush_chain t major = cleared (ap_minor a) (apush_chain s major)
    else conf_add a (apush_chain s major) = Inr (apush_chain t major)"
proof (cases "ap_cmd a = SAP_CLEAR")
  case True
  show ?thesis
  proof (cases "apush_chain s major")
    case Nil
    then show ?thesis using assms(2) True by (auto simp: apush_conf_def split: if_splits)
  next
    case (Cons ar rest)
    show ?thesis
    proof (cases "ap_minor a = 0 \<and> ap_cmd ar = SAP_ALL")
      case all: True
      then have "rest = []" using assms(1) Cons by (auto simp: chain_ok_def dest: entry_not_all)
      then show ?thesis using assms(2) True all Cons
        by (auto simp: apush_conf_def apush_free_def cleared_def split: if_splits)
    next
      case False
      then obtain x r where x: "clear_chain (ap_minor a) (apush_chain s major) = Some (x, r)"
        using assms(2) True Cons by (auto simp: apush_conf_def simp del: clear_chain.simps split: if_splits option.splits)
      then have "apush_chain t major = r" using assms(2) True False Cons
        by (auto simp: apush_conf_def apush_free_def simp del: clear_chain.simps split: if_splits)
      then show ?thesis using True clear_cleared[OF assms(1) x] by simp
    qed
  qed
next
  case False
  then show ?thesis using assms(2)
    by (auto simp: apush_conf_def set_chain_def conf_add_def split: if_splits sum.splits option.splits)
qed

text \<open>
  A request that succeeds, and the next open: an entry that is added is found for the minors it answers,
  unless an entry that begins before it answers them; one that is cleared is not found any more; and
  otherwise the lookup is that of before.
\<close>

lemma apush_set_effective:
  assumes ap: "sap_major ap < MAX_STRDEV" "f_str (fstr_sw s (sap_major ap)) \<noteq> NULL" "ap_mem s = p # ps" "p \<noteq> NULL"
    "sap_npush ap = length ms" "length ms \<le> MAXAPUSH" "rows s 0 (sap_list ap) ms" "reg_free s"
    and inv: "apush_inv s" and set: "lis_apush_set e ap s = Some (0, t)"
  shows "lis_apushm (int (sap_major ap)) m t = Some (pushes s
    (let chain = apush_chain s (sap_major ap); a = sap_entry ap p ms in
     if sap_cmd ap = SAP_CLEAR then find (answers m) (cleared (sap_minor ap) chain)
     else if answers m a \<and> (\<forall>x\<in>set chain. ap_minor x < sap_minor ap \<longrightarrow> \<not> answers m x) then Some a
     else find (answers m) chain))"
proof -
  let ?a = "sap_entry ap p ms" and ?s = "s\<lparr>ap_mem := ps\<rparr>"
  have ms: "nref_ok ?a" using rows_valid[OF ap(7)] by (simp add: nref_ok_def sap_entry_def)
  have "apush_inv ?s" using inv by (simp add: apush_inv_def total_def[abs_def])
  then obtain r u where u: "apush_conf e (sap_major ap) ?a ?s = Some (r, u)" "r \<le> 0" "apush_inv u"
    "conf_frame (sap_major ap) ?s u"
    using apush_conf_inv[of ?s ?a e "sap_major ap"] ms by blast
  then have c: "apush_conf e (sap_major ap) ?a ?s = Some (0, t)" "t = u"
    using set unfolding apush_set_spec[OF ap] by (auto split: if_splits)
  have ok: "chain_ok (apush_chain s (sap_major ap))" using inv ap(1) by (simp add: apush_inv_def)
  have "pushes t x = pushes s x" for x
    using u(4) c(2) by (simp add: pushes_def conf_frame_def split: option.split)
  moreover have "find (answers m) (apush_chain t (sap_major ap)) =
    (if sap_cmd ap = SAP_CLEAR then find (answers m) (cleared (sap_minor ap) (apush_chain s (sap_major ap)))
     else if answers m ?a \<and> (\<forall>x\<in>set (apush_chain s (sap_major ap)). ap_minor x < sap_minor ap \<longrightarrow> \<not> answers m x) then Some ?a
     else find (answers m) (apush_chain s (sap_major ap)))"
  proof (cases "sap_cmd ap = SAP_CLEAR")
    case True
    then show ?thesis using conf_chain[OF _ c(1)] ok by (simp add: sap_entry_def)
  next
    case False
    then have "conf_add ?a (apush_chain s (sap_major ap)) = Inr (apush_chain t (sap_major ap))"
      using conf_chain[OF _ c(1)] ok by (simp add: sap_entry_def)
    from add_lookup[OF ok this] False show ?thesis by (simp add: sap_entry_def)
  qed
  ultimately show ?thesis using apushm_spec[of t "sap_major ap" m] u(3) c(2) ap(1) by (simp add: Let_def)
qed

subsection \<open>The answer to a request for an entry\<close>

text \<open>
  \<open>lis_apush_get\<close> copies 65 bytes to each row of 9: with a second module the copy ends behind the
  structure.
\<close>

lemma apush_get_overflow:
  assumes "sap_major ap < MAX_STRDEV" "f_str (fstr_sw s (sap_major ap)) \<noteq> NULL"
    and "length (sap_list ap) = MAXAPUSH * (FMNAMESZ + 1)"
    and "find_apush_entry (sap_major ap) (sap_minor ap) s = Some a" "ap_push a = x # y # ms"
  shows "lis_apush_get e ap s = None"
proof -
  have "put_names 0 (x # y # ms) (sap_list ap) s = None"
    using assms(3) by (auto simp: get_mod_def strncpy_at_def sap_row_def LIS_NAMESZ_def FMNAMESZ_def MAXAPUSH_def split: bind_splits)
  then show ?thesis using assms by (simp add: lis_apush_get_def)
qed

text \<open>An entry with one module is answered with the name of the module.\<close>

lemma apush_get_one:
  assumes "sap_major ap < MAX_STRDEV" "f_str (fstr_sw s (sap_major ap)) \<noteq> NULL"
    and "length (sap_list ap) = MAXAPUSH * (FMNAMESZ + 1)"
    and "find_apush_entry (sap_major ap) (sap_minor ap) s = Some a" "ap_push a = [x]" "x < MAX_STRMOD"
    and "NUL \<notin> set (f_name (fmod_sw s x))" "length (f_name (fmod_sw s x)) \<le> LIS_NAMESZ"
  shows "\<exists>r. lis_apush_get e ap s = Some (0, r) \<and> sap_cmd r = ap_cmd a \<and> sap_lastminor r = ap_lastminor a \<and>
    sap_npush r = 1 \<and> cstr_at 0 (sap_list r) = Some (f_name (fmod_sw s x))"
proof -
  let ?n = "f_name (fmod_sw s x)"
  let ?bs = "?n @ replicate (LIS_NAMESZ + 1 - length ?n) NUL @ drop (LIS_NAMESZ + 1) (sap_list ap)"
  have "put_names 0 [x] (sap_list ap) s = Some ?bs"
    using assms(3,6,8) by (simp add: strncpy_at_def sap_row_def LIS_NAMESZ_def FMNAMESZ_def MAXAPUSH_def)
  moreover have "cstr_at 0 ?bs = Some ?n"
  proof -
    have r: "replicate (LIS_NAMESZ + 1 - length ?n) NUL = NUL # replicate (LIS_NAMESZ - length ?n) NUL"
      using assms(8) by (simp add: Suc_diff_le)
    have "takeWhile (\<lambda>c. c \<noteq> NUL) ?bs = ?n"
      unfolding r using assms(7) by (subst takeWhile_append2) auto
    then show ?thesis unfolding r by (simp add: cstr_at_def)
  qed
  ultimately show ?thesis using assms(1,2,4,5) by (simp add: lis_apush_get_def)
qed


subsection \<open>A full table\<close>

text \<open>
  With 255 modules registered, the searches by name, which begin at index \<open>lis_fmodcnt\<close>, read behind
  the table, even for a name that is in it.
\<close>

lemma findmod_full:
  assumes "fmodcnt s = MAX_STRMOD" "name \<noteq> []"
  shows "lis_findmod name s = None"
proof -
  have "findmod_loop n name s = None" if "n \<ge> MAX_STRMOD" "0 < n" for n
    using that by (cases n) (simp_all add: get_mod_def)
  then have "findmod_loop MAX_STRMOD name s = None" by (simp add: MAX_STRMOD_def)
  then show ?thesis using assms by (simp add: lis_findmod_def)
qed

end
