(* ===== verification/LiS_SamplesMod.thy ===== *)
theory LiS_SamplesMod
  imports LiS_ModSpec
begin

text \<open>A small configuration: two modules, two drivers, and autopush entries for the majors 5 and 6.\<close>

unbundle bit_operations_syntax

definition mslot :: "string \<Rightarrow> ptr \<Rightarrow> u32 \<Rightarrow> fmodsw" where
  "mslot nm st v = fmodsw_zero\<lparr>f_str := st, f_name := nm, f_state := v OR MODSTATE_INITED, f_sem := sem_init 1\<rparr>"

definition menv0 :: menv where
  "menv0 = \<lparr>me_modules = [], me_drivers = [], me_objnames = [], me_apush = [],
     me_request = (\<lambda>_ s. Some (- 1, s)), me_chrdev = (\<lambda>m _. int m), me_delay = (\<lambda>s. s)\<rparr>"

definition mods0 :: modst where
  "mods0 = \<lparr>fstr_sw = (\<lambda>_. fmodsw_zero)(5 := mslot ''echo'' 700 MODSTATE_LOADED, 6 := mslot ''loop'' 800 MODSTATE_LOADED),
     fmod_sw = (\<lambda>_. fmodsw_zero)(1 := mslot ''relay'' 500 MODSTATE_LINKED, 2 := mslot ''pipemod'' 600 MODSTATE_LOADED),
     mod_reg = sem_init 1, mod_initialized = True, fmodcnt = 3, apush_chain = (\<lambda>_. []), apush_nref = (\<lambda>_. 0),
     mod_sig = False, ap_mem = [40], ap_freed = []\<rparr>"

definition one5 :: autopush where
  "one5 = \<lparr>ap_addr = 10, ap_cmd = SAP_ONE, ap_minor = 2, ap_lastminor = 0, ap_push = [1]\<rparr>"

definition range6 :: autopush where
  "range6 = \<lparr>ap_addr = 20, ap_cmd = SAP_RANGE, ap_minor = 2, ap_lastminor = 9, ap_push = [1, 2]\<rparr>"

text \<open>Major 5 has an entry for minor 2, major 6 one for the minors 2 to 9.\<close>

definition mods1 :: modst where
  "mods1 = (set_chain 6 [range6] (set_chain 5 [one5] mods0))\<lparr>apush_nref := (\<lambda>_. 0)(1 := 2, 2 := 1)\<rparr>"

lemma mslot_fields [simp]:
  "f_str (mslot nm st v) = st" "f_name (mslot nm st v) = nm" "f_state (mslot nm st v) = v OR MODSTATE_INITED"
  "f_sem (mslot nm st v) = sem_init 1" "f_count (mslot nm st v) = 0"
  by (simp_all add: mslot_def fmodsw_zero_def)

lemma zero_slot [simp]:
  "f_str fmodsw_zero = NULL" "f_name fmodsw_zero = []" "f_state fmodsw_zero = 0"
  by (simp_all add: fmodsw_zero_def)

lemma mods1_fields [simp]:
  "fstr_sw mods1 = (\<lambda>_. fmodsw_zero)(5 := mslot ''echo'' 700 MODSTATE_LOADED, 6 := mslot ''loop'' 800 MODSTATE_LOADED)"
  "fmod_sw mods1 = (\<lambda>_. fmodsw_zero)(1 := mslot ''relay'' 500 MODSTATE_LINKED, 2 := mslot ''pipemod'' 600 MODSTATE_LOADED)"
  "mod_reg mods1 = sem_init 1" "fmodcnt mods1 = 3" "apush_chain mods1 = (\<lambda>_. [])(5 := [one5], 6 := [range6])"
  "ap_mem mods1 = [40]" "ap_freed mods1 = []" "mod_sig mods1 = False"
  by (simp_all add: mods1_def mods0_def set_chain_def)

lemma entry_fields [simp]:
  "ap_cmd one5 = SAP_ONE" "ap_minor one5 = 2" "ap_push one5 = [1]" "ap_addr one5 = 10"
  "ap_cmd range6 = SAP_RANGE" "ap_minor range6 = 2" "ap_lastminor range6 = 9" "ap_push range6 = [1, 2]" "ap_addr range6 = 20"
  by (simp_all add: one5_def range6_def)

lemma mods1_inv: "apush_inv mods1"
proof -
  have t: "total mods1 = total (set_chain 6 [range6] (set_chain 5 [one5] mods0))"
    by (rule total_cong) (simp add: mods1_def)
  have "total mods0 m = 0" for m by (simp add: total_def mods0_def)
  then have "total mods1 m = apush_nref mods1 m" for m
    unfolding t by (simp add: total_set_chain MAX_STRDEV_def mods0_def mods1_def)
  then show ?thesis
    by (auto simp: apush_inv_def chain_ok_def entry_ok_def nref_ok_def MAX_STRMOD_def fun_eq_iff)
qed

lemma mods1_free: "reg_free mods1"
  by (simp add: reg_free_def sem_init_def)

lemma mods1_idle: "idle (fmod_sw mods1 1)" "idle (fmod_sw mods1 2)"
  by (simp_all add: idle_def sem_init_def modstate_defs)

lemma mods1_new:
  "f_str (fmod_sw mods1 j) \<noteq> 900" "f_name (fmod_sw mods1 j) \<noteq> ''timod''"
  "j \<noteq> 1 \<Longrightarrow> f_str (fmod_sw mods1 j) \<noteq> 500" "j \<noteq> 1 \<Longrightarrow> f_name (fmod_sw mods1 j) \<noteq> ''relay''"
  by (auto simp: fun_upd_def)

lemma mods1_linked:
  "f_state (fmod_sw mods1 1) AND MODSTATE_MASK = MODSTATE_LINKED" "f_str (fmod_sw mods1 1) = 500"
  "0 < fmodcnt mods1" "1 < fmodcnt mods1" "fmodcnt mods1 < MAX_STRMOD - 1" "fmodcnt mods1 < MAX_STRMOD"
  by (simp_all add: modstate_defs MAX_STRMOD_def)

lemma mods1_known: "known mods1 ''relay'' 1" "known mods1 ''pipemod'' 2"
proof -
  have "findmod_loop 3 ''relay'' mods1 = Some 1" "findmod_loop 3 ''pipemod'' mods1 = Some 2"
    by (rule findmod_loop_hit; auto simp: MAX_STRMOD_def)+
  then show "known mods1 ''relay'' 1" "known mods1 ''pipemod'' 2"
    using mods1_idle by (simp_all add: known_def lis_findmod_def) (simp_all add: modstate_defs)
qed

text \<open>A request for minor 3 of major 5: push \<open>pipemod\<close> and \<open>relay\<close>.\<close>

definition sap1 :: strapush where
  "sap1 = \<lparr>sap_cmd = SAP_ONE, sap_major = 5, sap_minor = 3, sap_lastminor = 0, sap_npush = 2,
     sap_list = ''pipemod'' @ [NUL, NUL] @ ''relay'' @ replicate 58 NUL\<rparr>"

lemma sap1_fields [simp]:
  "sap_cmd sap1 = SAP_ONE" "sap_major sap1 = 5" "sap_minor sap1 = 3" "sap_npush sap1 = 2" "sap_lastminor sap1 = 0"
  by (simp_all add: sap1_def)

lemma sap1_rows: "rows mods1 0 (sap_list sap1) [2, 1]"
proof -
  have "cstr_at 0 (sap_list sap1) = Some ''pipemod''" "cstr_at 9 (sap_list sap1) = Some ''relay''"
    by (simp_all add: cstr_at_def sap1_def numeral_eq_Suc)
  then show ?thesis using mods1_known
    by (auto simp: rows_def sap_row_def FMNAMESZ_def less_Suc_eq)
qed

text \<open>Questions for minor 2 of major 6 (two modules) and of major 5 (one).\<close>

definition ask :: "nat \<Rightarrow> strapush" where
  "ask major = \<lparr>sap_cmd = 0, sap_major = major, sap_minor = 2, sap_lastminor = 0, sap_npush = 0, sap_list = replicate 72 NUL\<rparr>"

lemma ask_fields [simp]:
  "sap_major (ask j) = j" "sap_minor (ask j) = 2" "length (sap_list (ask j)) = 72"
  by (simp_all add: ask_def)

end
