(* ===== verification/LiS_Samples.thy ===== *)
theory LiS_Samples
  imports LiS_SamplesMod LiS_QueueSpec LiS_MsgInv LiS_QueueAlloc LiS_Bufcall LiS_Run LiS_Put LiS_QueueMisc
begin

text \<open>
  Small concrete states, on which the properties of the root theory are evaluated: an empty
  subsystem, a block of data with its own header, and helpers to place blocks in a state.
\<close>

unbundle bit_operations_syntax

definition hds0 :: hdst where
  "hds0 = \<lparr>evl = \<lparr>ev_heap = Map.empty, ev_mem = [], ev_freed = []\<rparr>, umem = (\<lambda>_. 0), uacc = [], sigs = [],
     pgsigs = [], polled = [], fdetached = [], untimed = [], timed = [], handles = [], stdata_head = NULL, stdata_cnt = 0, muxid = 0, strhold = 0,
     iocseq = 0, iotimers = [], inodes = (\<lambda>_. 0), dputs = [], file_str = (\<lambda>_. NULL), inode_str = (\<lambda>_. NULL), mods = mods0,
     debug_mask = 0, debug_mask2 = 0, max_mem = 0, lock_count = 0, contention_count = 0, free_fds = [], installed = []\<rparr>"

definition lis0 :: lis where
  "lis0 = \<lparr>mb = Map.empty, db = Map.empty, qs = Map.empty, qbands = Map.empty, sds = Map.empty,
     qsyncs = Map.empty, mem = (\<lambda>_. 0), kmem = [], kfreed = [], esb_calls = [], strcount = 0,
     max_msg_mem = 0, strstats = (\<lambda>_ _. 0), negstat = 0, msgb_cnt = 0, qband_cnt = 0, queue_cnt = 0,
     qsync_cnt = 0, sems = (\<lambda>_. 0), torn_down = [], strbcflag = 0, strbctimer = 0, bcs = Map.empty,
     bchash = (\<lambda>_. \<lparr>bl_first = NULL, bl_last = NULL, bl_n_elts = 0\<rparr>), bcfreel = NULL, bc_cnt = 0,
     bc_id_num = 0, bc_tmouts = 0, contention_tab = replicate 4 NULL, qhead = NULL, qtail = NULL,
     scanqhead = NULL, scanqtail = NULL, runq_req_cnt = 0, setqsched_calls = 0, hds = hds0\<rparr>"

lemma lis0_fields [simp]:
  "mb lis0 = Map.empty" "db lis0 = Map.empty" "qs lis0 = Map.empty" "qbands lis0 = Map.empty"
  "sds lis0 = Map.empty" "qsyncs lis0 = Map.empty" "kmem lis0 = []" "strcount lis0 = 0"
  "max_msg_mem lis0 = 0" "qhead lis0 = NULL" "qtail lis0 = NULL" "runq_req_cnt lis0 = 0"
  "bcs lis0 = Map.empty" "bcfreel lis0 = NULL" "bc_cnt lis0 = 0" "strbctimer lis0 = 0"
  "strbcflag lis0 = 0" "scanqhead lis0 = NULL" "scanqtail lis0 = NULL" "esb_calls lis0 = []"
  "bchash lis0 = (\<lambda>_. \<lparr>bl_first = NULL, bl_last = NULL, bl_n_elts = 0\<rparr>)" "bc_id_num lis0 = 0"
  "kfreed lis0 = []" "hds lis0 = hds0"
  by (simp_all add: lis0_def)

text \<open>A block at \<open>h\<close> of type \<open>ty\<close>, band \<open>b\<close>, with \<open>n\<close> bytes of data in its own 8-byte buffer.\<close>

definition blk :: "ptr \<Rightarrow> u8 \<Rightarrow> nat \<Rightarrow> mblk" where
  "blk h b n = mblk_zero\<lparr>b_rptr := databuf h, b_wptr := databuf h + n, b_datap := h, b_band := b\<rparr>"

definition own_db :: "ptr \<Rightarrow> u8 \<Rightarrow> datab" where
  "own_db h ty = datab_zero\<lparr>db_base := databuf h, db_lim := databuf h + 8, db_ref := 1, db_type := ty,
     db_size := 8\<rparr>"

lemma blk_fields [simp]:
  "b_next (blk h b n) = NULL" "b_prev (blk h b n) = NULL" "b_cont (blk h b n) = NULL"
  "b_rptr (blk h b n) = databuf h" "b_wptr (blk h b n) = databuf h + n" "b_datap (blk h b n) = h"
  "b_band (blk h b n) = b"
  by (simp_all add: blk_def mblk_zero_def)

lemma own_db_fields [simp]:
  "db_type (own_db h ty) = ty" "db_ref (own_db h ty) = 1" "db_base (own_db h ty) = databuf h"
  "db_lim (own_db h ty) = databuf h + 8" "db_size (own_db h ty) = 8" "db_frtn (own_db h ty) = None"
  by (simp_all add: own_db_def datab_zero_def)


subsection \<open>Two blocks that share data\<close>

definition two_msgs :: lis where
  "two_msgs = lis0\<lparr>mb := [1000 \<mapsto> blk 1000 0 3, 2000 \<mapsto> (blk 2000 0 0)\<lparr>b_datap := 1000\<rparr>],
     db := [1000 \<mapsto> (own_db 1000 0)\<lparr>db_ref := 2\<rparr>, 2000 \<mapsto> own_db 2000 0]\<rparr>"

lemma msg_inv_two_msgs: "msg_inv {1000, 2000} two_msgs"
proof -
  have "{m \<in> {1000, 2000}. datap two_msgs m = 1000} = {1000, 2000}"
    "{m \<in> {1000, 2000}. datap two_msgs m = 2000} = {}"
    by (auto simp: datap_def two_msgs_def)
  then have "refs {1000, 2000} two_msgs 1000 = 2" "refs {1000, 2000} two_msgs 2000 = 1"
    by (simp_all add: refs_def) (simp_all add: datap_def two_msgs_def)
  then show ?thesis
    by (auto simp: msg_inv_def two_msgs_def datap_def split: if_splits)
qed

subsection \<open>A queue with three messages\<close>

text \<open>
  The write queue 20 and the read queue 10 of one pair; queue 10 holds a high-priority message, one of
  band 1 and an ordinary one.  Three more messages wait to be put: 4000 of band 1, 5000 of band 2,
  6000 of high priority.
\<close>

definition qmsgs :: "ptr \<Rightarrow> mblk option" where
  "qmsgs = [1000 \<mapsto> (blk 1000 0 4)\<lparr>b_next := 2000\<rparr>,
     2000 \<mapsto> (blk 2000 1 5)\<lparr>b_next := 3000, b_prev := 1000\<rparr>,
     3000 \<mapsto> (blk 3000 0 6)\<lparr>b_prev := 2000\<rparr>,
     4000 \<mapsto> blk 4000 1 1, 5000 \<mapsto> blk 5000 2 2, 6000 \<mapsto> blk 6000 7 3]"

definition qdbs :: "ptr \<Rightarrow> datab option" where
  "qdbs = [1000 \<mapsto> own_db 1000 0x12, 2000 \<mapsto> own_db 2000 0, 3000 \<mapsto> own_db 3000 0,
     4000 \<mapsto> own_db 4000 0, 5000 \<mapsto> own_db 5000 0, 6000 \<mapsto> own_db 6000 0x12]"

definition rdq :: queue where
  "rdq = queue_zero\<lparr>q_first := 1000, q_last := 3000, q_count := 16, q_flag := QREADR OR QUSE OR QWANTR,
     q_hiwat := 100, q_lowat := 20, q_bandp := 50, q_other := 20, q_magic := Q_MAGIC\<rparr>"

definition wrq :: queue where
  "wrq = queue_zero\<lparr>q_flag := QUSE, q_hiwat := 100, q_lowat := 20, q_other := 10, q_magic := Q_MAGIC\<rparr>"

definition band1 :: qband where
  "band1 = \<lparr>qb_next = NULL, qb_count = 8, qb_first = 2000, qb_last = 2000, qb_hiwat = 100, qb_lowat = 20,
     qb_flag = 0\<rparr>"

definition sq :: lis where
  "sq = lis0\<lparr>mb := qmsgs, db := qdbs, qs := [10 \<mapsto> rdq, 20 \<mapsto> wrq], qbands := [50 \<mapsto> band1],
     kmem := [60, 70, 80]\<rparr>"

lemma sq_fields [simp]:
  "mb sq = qmsgs" "db sq = qdbs" "qs sq = [10 \<mapsto> rdq, 20 \<mapsto> wrq]" "qbands sq = [50 \<mapsto> band1]"
  "kmem sq = [60, 70, 80]" "sds sq = Map.empty" "qhead sq = NULL" "qtail sq = NULL"
  by (simp_all add: sq_def)

lemma rdq_fields [simp]:
  "q_first rdq = 1000" "q_last rdq = 3000" "q_count rdq = 16" "q_bandp rdq = 50" "q_other rdq = 20"
  "q_magic rdq = Q_MAGIC" "q_hiwat rdq = 100" "q_lowat rdq = 20" "q_str rdq = NULL" "q_next rdq = NULL"
  "q_flag rdq = QREADR OR QUSE OR QWANTR" "q_qinfo rdq = None"
  by (simp_all add: rdq_def queue_zero_def)

lemma wrq_fields [simp]:
  "q_first wrq = NULL" "q_last wrq = NULL" "q_count wrq = 0" "q_bandp wrq = NULL" "q_other wrq = 10"
  "q_magic wrq = Q_MAGIC" "q_hiwat wrq = 100" "q_lowat wrq = 20" "q_str wrq = NULL" "q_next wrq = NULL"
  "q_flag wrq = QUSE" "q_qinfo wrq = None"
  by (simp_all add: wrq_def queue_zero_def)

lemma sq_msgs: "\<forall>x\<in>{1000, 2000, 3000, 4000, 5000, 6000}. mchain sq x [x] \<and> msg_ok sq x \<and> msize sq x = 8"
proof
  fix x assume x: "x \<in> {1000, 2000, 3000, 4000, 5000, 6000::nat}"
  have ch: "mchain sq x [x]" using x by (auto simp: mchain_Cons qmsgs_def qdbs_def)
  moreover have "buf_len sq x = 8" using x by (auto simp: buf_len_def blk_db_def qmsgs_def qdbs_def)
  then have "msize sq x = 8"
    by (simp add: msize_def lis_msgsize_chain[OF ch] c_sum_def c_int_id)
  moreover have "x \<noteq> NULL" using x by auto
  ultimately show "mchain sq x [x] \<and> msg_ok sq x \<and> msize sq x = 8" by (auto simp: msg_ok_def)
qed

lemma sq_kinds:
  "hipri sq 1000" "\<not> hipri sq 2000" "\<not> hipri sq 3000" "\<not> hipri sq 4000" "\<not> hipri sq 5000" "hipri sq 6000"
  "mband sq 1000 = 0" "mband sq 2000 = 1" "mband sq 3000 = 0" "mband sq 4000 = 1" "mband sq 5000 = 2"
  by (simp_all add: hipri_def lis_hipri_def blk_type_def blk_db_def mband_def qmsgs_def qdbs_def)

lemma sq_keys:
  "qkey sq 1000 = 256" "qkey sq 2000 = 1" "qkey sq 3000 = 0" "qkey sq 4000 = 1" "qkey sq 5000 = 2"
  "qkey sq 6000 = 256"
  by (simp_all add: qkey_def sq_kinds)

lemma sq_queue_ok: "queue_ok sq 10 [1000, 2000, 3000] [50]"
proof -
  have "qlist sq rdq [1000, 2000, 3000]"
    using sq_msgs by (simp add: qlist_def mlink_def qmsgs_def)
  moreover have "desc sq [1000, 2000, 3000]" by (simp add: desc_def sq_keys)
  moreover have "fits sq [1000, 2000, 3000]" using sq_msgs by (simp add: fits_def)
  moreover have "bandlist (qbands sq) 50 [50]" by (simp add: bandlist_def qb_links_def band1_def)
  moreover have "binv sq (qbands sq) [1000, 2000, 3000] [50]"
  proof -
    have c: "cls sq c [1000, 2000, 3000] = (if c = 0 then [3000] else if c = 1 then [2000] else [])" for c
      by (auto simp: cls_def sq_kinds)
    have b: "bclass sq [1000, 2000, 3000] 1 band1"
      using sq_msgs by (simp add: bclass_def c band1_def tot_def)
    have "holder sq (qbands sq) [1000, 2000, 3000] [50] c b' \<longleftrightarrow> b' = 50 \<and> c = 1" if "c \<noteq> 0" for c b'
      using that b bclass_unique by (auto simp: holder_def)
    moreover have "\<exists>c. c \<noteq> 0 \<and> bclass sq [1000, 2000, 3000] c band1"
      using b by (intro exI[of _ 1]) simp
    ultimately show ?thesis by (auto simp: binv_def c)
  qed
  moreover have "qacct sq rdq [1000, 2000, 3000]"
    using sq_msgs by (simp add: qacct_def main_def tot_def sq_kinds)
  ultimately show ?thesis by (simp add: queue_ok_def)
qed

lemma sq_open: "q_shut 10 sq = Some False"
  by (simp add: q_shut_def q_magic_ok_def F_ISSET_def q_flag_defs)

lemma sq_sched: "sched_ok sq"
  by (simp add: sched_ok_def)

lemma sq_path: "backpath sq 10 []"
  by (simp add: lis_backq_def lis_safe_OTHERQ_def q_magic_ok_def)

lemma sq_holds: "q_holds 10 sq [1000, 2000, 3000]"
  unfolding q_holds_def using sq_queue_ok sq_open sq_sched sq_path by blast

lemma sq_ready: "q_ready sq [1000, 2000, 3000] [4000, 5000, 6000]"
  using sq_msgs by (simp add: q_ready_def fits_def kstock_def)

lemma sq_room: "room sq xs bs m"
  by (simp add: room_def qb_fresh_def)


text \<open>The empty write queue of the pair.\<close>

lemma sq_wr_ok: "queue_ok sq 20 [] []"
  by (simp add: queue_ok_def qlist_def desc_def fits_def bandlist_def binv_def cls_def qacct_def main_def)

lemma sq_wr_open: "q_shut 20 sq = Some False"
  by (simp add: q_shut_def q_magic_ok_def F_ISSET_def q_flag_defs)

lemma sq_wr_path: "backpath sq 20 []"
  by (simp add: lis_backq_def lis_safe_OTHERQ_def q_magic_ok_def)

lemma sq_wr_holds: "q_holds 20 sq []"
  unfolding q_holds_def using sq_wr_ok sq_sched sq_wr_open sq_wr_path by blast

lemma sq_wr_ready: "q_ready sq [] [4000, 5000, 6000]"
  using sq_msgs by (simp add: q_ready_def fits_def kstock_def)

lemma sq_wr_prio: "by_prio (qkey sq) [4000, 5000, 6000] = [6000, 5000, 4000]"
  by (simp add: by_prio_def sq_keys)

lemma length_three: "length [a, b, c] = 3"
  by simp

end
