(* ===== verification/LiS_SamplesRun.thy ===== *)
theory LiS_SamplesRun
  imports LiS_Samples LiS_RunLoop LiS_Events LiS_Timers
begin

text \<open>
  Small concrete states for the run list, the event lists and the timers.
\<close>

unbundle bit_operations_syntax

subsection \<open>A message of three blocks\<close>

text \<open>Two data blocks of 3 and 2 bytes and a protocol block (type 1) of 4.\<close>

definition cs1 :: lis where
  "cs1 = lis0\<lparr>mb := [1000 \<mapsto> (blk 1000 0 3)\<lparr>b_cont := 2000\<rparr>, 2000 \<mapsto> (blk 2000 0 2)\<lparr>b_cont := 3000\<rparr>,
       3000 \<mapsto> blk 3000 0 4],
     db := [1000 \<mapsto> own_db 1000 0, 2000 \<mapsto> own_db 2000 0, 3000 \<mapsto> own_db 3000 1]\<rparr>"

lemma cs1_fields [simp]:
  "mb cs1 = [1000 \<mapsto> (blk 1000 0 3)\<lparr>b_cont := 2000\<rparr>, 2000 \<mapsto> (blk 2000 0 2)\<lparr>b_cont := 3000\<rparr>, 3000 \<mapsto> blk 3000 0 4]"
  "db cs1 = [1000 \<mapsto> own_db 1000 0, 2000 \<mapsto> own_db 2000 0, 3000 \<mapsto> own_db 3000 1]"
  by (simp_all add: cs1_def)

lemma cs1_chain: "mchain cs1 1000 [1000, 2000, 3000]"
  by (simp add: mchain_Cons)

lemma cs1_lens:
  "buf_len cs1 1000 = 8" "buf_len cs1 2000 = 8" "buf_len cs1 3000 = 8"
  "pos_len cs1 1000 = 3" "pos_len cs1 2000 = 2" "pos_len cs1 3000 = 4"
  "blk_type cs1 1000 = 0" "blk_type cs1 2000 = 0" "blk_type cs1 3000 = 1"
  by (simp_all add: buf_len_def blk_type_def blk_db_def pos_len_def dat_len_def blen_def ptrdiff_def c_int_id)

subsection \<open>Two scheduled queues\<close>

definition srv_info :: qinit where
  "srv_info = \<lparr>qi_putp = 2, qi_srvp = 1, mi_minpsz = 0, mi_maxpsz = 100, mi_hiwat = 100, mi_lowat = 20,
     qi_qopen = 0, qi_qclose = 0, mi_idname = Some ''relay''\<rparr>"

definition srvq :: "u64 \<Rightarrow> ptr \<Rightarrow> queue" where
  "srvq f l = queue_zero\<lparr>q_flag := f, q_link := l, q_qinfo := Some srv_info, q_str := 90, q_magic := Q_MAGIC\<rparr>"

definition head1 :: stdata where
  "head1 = stdata_zero\<lparr>sd_magic := STDATA_MAGIC, sd_refcnt := 3, sd_wq := 20, sd_rq := 10\<rparr>"

text \<open>Queues 10 and 20 are on the run list, 30 is idle.\<close>

definition rs :: lis where
  "rs = lis0\<lparr>qs := [10 \<mapsto> srvq (QUSE OR QENAB) 20, 20 \<mapsto> srvq (QUSE OR QENAB) NULL, 30 \<mapsto> srvq QUSE NULL],
     sds := [90 \<mapsto> head1], qhead := 10, qtail := 20, runq_req_cnt := 2\<rparr>"

lemma rs_fields [simp]:
  "qs rs = [10 \<mapsto> srvq (QUSE OR QENAB) 20, 20 \<mapsto> srvq (QUSE OR QENAB) NULL, 30 \<mapsto> srvq QUSE NULL]"
  "sds rs = [90 \<mapsto> head1]" "qhead rs = 10" "qtail rs = 20"
  by (simp_all add: rs_def)

lemma srvq_fields [simp]:
  "q_flag (srvq f l) = f" "q_link (srvq f l) = l" "q_magic (srvq f l) = Q_MAGIC" "q_str (srvq f l) = 90"
  "q_qsp (srvq f l) = NULL" "q_qinfo (srvq f l) = Some srv_info"
  by (simp_all add: srvq_def queue_zero_def)

lemma rs_sched: "sched_ok rs"
  by (simp add: sched_ok_def)

lemma rs_runlist: "runlist rs [10, 20] {}"
  by (auto simp: runlist_def qlinkf_def flagged_def F_ISSET_def q_flag_defs)

lemma rs_30: "qs rs 30 = Some (srvq QUSE NULL)"
  by simp

lemma srvq_schedules: "schedules (srvq QUSE NULL)"
  by (simp add: schedules_def can_run_def has_srvp_def srv_info_def Q_INH_ENABLE_def F_ISSET_def q_flag_defs)

lemma rs_serviceable: "\<forall>x\<in>set [10, 20]. serviceable rs x"
  by (simp add: serviceable_def lockable_def)

text \<open>Service procedures that do nothing, run by task 1.\<close>

definition env1 :: env where
  "env1 = \<lparr>e_putp = (\<lambda>_ _ _ s. Some s), e_srvp = (\<lambda>_ _ s. Some s), e_bcfn = (\<lambda>_ _ s. Some s),
     e_free_passfp = (\<lambda>_ s. Some s), e_cur = 1\<rparr>"

lemma env1_cur: "e_cur env1 \<noteq> NULL"
  by (simp add: env1_def)

lemma env1_serves: "serves env1 (\<lambda>_. True)"
  by (simp add: serves_def env1_def)

subsection \<open>An event list\<close>

text \<open>The list 100 with the processes 5 and 9; the allocator has one node to give.\<close>

definition evs1 :: evst where
  "evs1 = \<lparr>ev_heap = [100 \<mapsto> \<lparr>se_next = 110, se_prev = 120, se_pid = 0, se_evs = 0\<rparr>,
       110 \<mapsto> \<lparr>se_next = 120, se_prev = 100, se_pid = 5, se_evs = 3\<rparr>,
       120 \<mapsto> \<lparr>se_next = 100, se_prev = 110, se_pid = 9, se_evs = 4\<rparr>],
     ev_mem = [130], ev_freed = []\<rparr>"

lemma evs1_elist: "elist evs1 100 [110, 120]"
  by (simp add: elist_def ring_def ev_links_def ev_key_def evs1_def)

lemma evs1_map: "ev_map evs1 [110, 120] = [9 \<mapsto> 4, 5 \<mapsto> 3]"
  by (simp add: ev_map_def ev_key_def ev_mask_def evs1_def)

lemma evs1_fresh: "ev_fresh evs1"
  by (simp add: ev_fresh_def evs1_def)

lemma evs1_holds: "ev_holds 100 evs1 [9 \<mapsto> 4, 5 \<mapsto> 3]"
  unfolding ev_holds_def using evs1_elist evs1_map by blast

text \<open>Without memory.\<close>

definition evs2 :: evst where
  "evs2 = evs1\<lparr>ev_mem := []\<rparr>"

lemma evs2_elist: "elist evs2 100 [110, 120]" "ev_map evs2 [110, 120] = [9 \<mapsto> 4, 5 \<mapsto> 3]" "ev_mem evs2 = []"
  by (simp_all add: evs2_def evs1_def elist_def ring_def ev_links_def ev_key_def ev_map_def ev_mask_def)

subsection \<open>Two timer structures\<close>

text \<open>Structure 11 is pending with handle 4, procedure 7 and argument 70; structure 12 is free.\<close>

definition tm1 :: dki where
  "tm1 = \<lparr>tls = [11 \<mapsto> \<lparr>tl_next = NULL, tl_hndl = 4, tl_fcn = 7, tl_arg = 70\<rparr>,
       12 \<mapsto> \<lparr>tl_next = NULL, tl_hndl = 0, tl_fcn = 0, tl_arg = 0\<rparr>],
     tl_heads = (\<lambda>i. if i = 4 then 11 else if i = 0 then 12 else NULL), tlist_handle = 4, tl_mem = [],
     tl_freed = [], armed = [11 \<mapsto> 100]\<rparr>"

definition tm1_lists :: "nat \<Rightarrow> ptr list" where
  "tm1_lists i = (if i = 4 then [11] else if i = 0 then [12] else [])"

lemma tm1_inv: "tinv tm1 tm1_lists"
  by (auto simp: tinv_def buckets_def tm1_def tm1_lists_def tnext_def hndl_def bucket_def THASH_def)

lemma tm1_room: "timer_room tm1 tm1_lists"
  by (simp add: timer_room_def tm1_lists_def)

lemma tm1_pend: "timer_of tm1 tm1_lists 4 = 11" "pend tm1 tm1_lists 4 = Some (7, 70)"
  by (simp_all add: pend_def timer_of_def tm1_lists_def tm1_def hndl_def payload_def bucket_def THASH_def)

lemma tm1_unused: "unused tm1 tm1_lists 5"
  by (simp add: unused_def timer_of_def tm1_lists_def bucket_def THASH_def)

lemma tm1_high: "\<forall>i\<ge>THASH. tm1_lists i = []"
  by (simp add: tm1_lists_def THASH_def)

lemma tm1_freed: "rev (concat (map tm1_lists [0..<THASH])) = [11, 12]"
proof -
  have "[0..<THASH] = [0..<5] @ [5..<THASH]"
    using upt_add_eq_append[of 0 5 752] by (simp add: THASH_def)
  moreover have "[0..<5] = [0, 1, 2, 3, 4]" by code_simp
  moreover have "concat (map tm1_lists [5..<THASH]) = []" unfolding concat_eq_Nil_conv by (auto simp: tm1_lists_def)
  ultimately show ?thesis by (simp add: tm1_lists_def)
qed

end
