(* ===== verification/LiS_Locks.thy ===== *)
theory LiS_Locks
  imports LiS_Prelude
begin

text \<open>
  The spin locks of \<open>lislocks.c\<close>, which a task that holds one may take again: \<open>taskp\<close> is the owner,
  \<open>nest\<close> counts.  Several tasks run at the same time, so that the functions are relations of single
  steps, each an access to the shared lock: the program counter of each task says which statement it
  is at.  The variants that disable interrupts have the same statements.
\<close>

subsection \<open>The lock and its tasks\<close>

datatype lpc =
    Idle
  | L_test | L_spin | L_own | L_nest
  | U_test | U_dec | U_zero | U_clear | U_free
  | T_test | T_spin | T_nest | T_own

text \<open>
  \<open>lk_held\<close> is the kernel's lock \<open>spin_lock_mem\<close>.  \<open>depth\<close> is the number of acquisitions of a task that
  have returned and are not released yet; the code does not read it.
\<close>

record lockst =
  lk_held :: bool
  lk_taskp :: ptr
  lk_nest :: int
  lk_contention :: int
  pc :: "ptr \<Rightarrow> lpc"
  depth :: "ptr \<Rightarrow> nat"

definition goto :: "ptr \<Rightarrow> lpc \<Rightarrow> lockst \<Rightarrow> lockst" where
  "goto t p s = s\<lparr>pc := (pc s)(t := p)\<rparr>"

definition acquired :: "ptr \<Rightarrow> lockst \<Rightarrow> lockst" where
  "acquired t s = s\<lparr>depth := (depth s)(t := depth s t + 1)\<rparr>"

definition released :: "ptr \<Rightarrow> lockst \<Rightarrow> lockst" where
  "released t s = s\<lparr>depth := (depth s)(t := depth s t - 1)\<rparr>"

lemma lock_upd [simp]:
  "lk_held (goto t p s) = lk_held s" "lk_taskp (goto t p s) = lk_taskp s" "lk_nest (goto t p s) = lk_nest s"
  "pc (goto t p s) = (pc s)(t := p)" "depth (goto t p s) = depth s"
  "lk_held (acquired t s) = lk_held s" "lk_taskp (acquired t s) = lk_taskp s" "lk_nest (acquired t s) = lk_nest s"
  "pc (acquired t s) = pc s" "depth (acquired t s) = (depth s)(t := depth s t + 1)"
  "lk_held (released t s) = lk_held s" "lk_taskp (released t s) = lk_taskp s" "lk_nest (released t s) = lk_nest s"
  "pc (released t s) = pc s" "depth (released t s) = (depth s)(t := depth s t - 1)"
  by (simp_all add: goto_def acquired_def released_def)

text \<open>\<open>lis_spin_lock_fcn\<close>, run by task \<open>t\<close>.\<close>

inductive lis_spin_lock_step :: "ptr \<Rightarrow> lockst \<Rightarrow> lockst \<Rightarrow> bool" for t where
  call: "pc s t = Idle \<Longrightarrow> lis_spin_lock_step t s (goto t L_test s)"
| mine: "pc s t = L_test \<Longrightarrow> lk_taskp s = t \<Longrightarrow> lis_spin_lock_step t s (goto t L_nest s)"
| other: "pc s t = L_test \<Longrightarrow> lk_taskp s \<noteq> t \<Longrightarrow>
    lis_spin_lock_step t s
      (goto t L_spin (if lk_held s then s\<lparr>lk_contention := lk_contention s + 1\<rparr> else s))"
| spin: "pc s t = L_spin \<Longrightarrow> \<not> lk_held s \<Longrightarrow> lis_spin_lock_step t s (goto t L_own (s\<lparr>lk_held := True\<rparr>))"
| own: "pc s t = L_own \<Longrightarrow> lis_spin_lock_step t s (goto t L_nest (s\<lparr>lk_taskp := t\<rparr>))"
| nest: "pc s t = L_nest \<Longrightarrow> lis_spin_lock_step t s (goto t Idle (acquired t (s\<lparr>lk_nest := lk_nest s + 1\<rparr>)))"

text \<open>\<open>lis_spin_unlock_fcn\<close>; it does not look at the owner.\<close>

inductive lis_spin_unlock_step :: "ptr \<Rightarrow> lockst \<Rightarrow> lockst \<Rightarrow> bool" for t where
  call: "pc s t = Idle \<Longrightarrow> lis_spin_unlock_step t s (goto t U_test s)"
| nested: "pc s t = U_test \<Longrightarrow> lk_nest s > 0 \<Longrightarrow> lis_spin_unlock_step t s (goto t U_dec s)"
| idle: "pc s t = U_test \<Longrightarrow> lk_nest s \<le> 0 \<Longrightarrow> lis_spin_unlock_step t s (goto t Idle (released t s))"
| dec: "pc s t = U_dec \<Longrightarrow> lis_spin_unlock_step t s (goto t U_zero (released t (s\<lparr>lk_nest := lk_nest s - 1\<rparr>)))"
| keep: "pc s t = U_zero \<Longrightarrow> lk_nest s \<noteq> 0 \<Longrightarrow> lis_spin_unlock_step t s (goto t Idle s)"
| zero: "pc s t = U_zero \<Longrightarrow> lk_nest s = 0 \<Longrightarrow> lis_spin_unlock_step t s (goto t U_clear s)"
| clear: "pc s t = U_clear \<Longrightarrow> lis_spin_unlock_step t s (goto t U_free (s\<lparr>lk_taskp := NULL\<rparr>))"
| free: "pc s t = U_free \<Longrightarrow> lis_spin_unlock_step t s (goto t Idle (s\<lparr>lk_held := False\<rparr>))"

text \<open>\<open>lis_spin_trylock_fcn\<close>: for the owner it returns success and leaves \<open>nest\<close> as it is.\<close>

inductive lis_spin_trylock_step :: "ptr \<Rightarrow> lockst \<Rightarrow> lockst \<Rightarrow> bool" for t where
  call: "pc s t = Idle \<Longrightarrow> lis_spin_trylock_step t s (goto t T_test s)"
| mine: "pc s t = T_test \<Longrightarrow> lk_taskp s = t \<Longrightarrow> lis_spin_trylock_step t s (goto t Idle (acquired t s))"
| other: "pc s t = T_test \<Longrightarrow> lk_taskp s \<noteq> t \<Longrightarrow> lis_spin_trylock_step t s (goto t T_spin s)"
| got: "pc s t = T_spin \<Longrightarrow> \<not> lk_held s \<Longrightarrow> lis_spin_trylock_step t s (goto t T_nest (s\<lparr>lk_held := True\<rparr>))"
| busy: "pc s t = T_spin \<Longrightarrow> lk_held s \<Longrightarrow>
    lis_spin_trylock_step t s (goto t Idle (s\<lparr>lk_contention := lk_contention s + 1\<rparr>))"
| nest: "pc s t = T_nest \<Longrightarrow> lis_spin_trylock_step t s (goto t T_own (s\<lparr>lk_nest := lk_nest s + 1\<rparr>))"
| own: "pc s t = T_own \<Longrightarrow> lis_spin_trylock_step t s (goto t Idle (acquired t (s\<lparr>lk_taskp := t\<rparr>)))"

inductive_cases lock_stepE: "lis_spin_lock_step t s u"
inductive_cases unlock_stepE: "lis_spin_unlock_step t s u"
inductive_cases trylock_stepE: "lis_spin_trylock_step t s u"

text \<open>
  The tasks of the system: any of them takes a step of \<open>lock\<close>, or of \<open>unlock\<close>, which it calls only for
  an acquisition of its own.  With \<open>wt\<close> they call \<open>trylock\<close> too.
\<close>

inductive lock_sys :: "bool \<Rightarrow> lockst \<Rightarrow> lockst \<Rightarrow> bool" for wt where
  lock: "t \<noteq> NULL \<Longrightarrow> lis_spin_lock_step t s u \<Longrightarrow> lock_sys wt s u"
| unlock: "t \<noteq> NULL \<Longrightarrow> (pc s t = Idle \<longrightarrow> 0 < depth s t) \<Longrightarrow> lis_spin_unlock_step t s u \<Longrightarrow> lock_sys wt s u"
| attempt: "wt \<Longrightarrow> t \<noteq> NULL \<Longrightarrow> lis_spin_trylock_step t s u \<Longrightarrow> lock_sys wt s u"

definition lock_init :: lockst where
  "lock_init = \<lparr>lk_held = False, lk_taskp = NULL, lk_nest = 0, lk_contention = 0, pc = (\<lambda>_. Idle), depth = (\<lambda>_. 0)\<rparr>"

abbreviation lock_reachable :: "bool \<Rightarrow> lockst \<Rightarrow> bool" where
  "lock_reachable wt \<equiv> (lock_sys wt)\<^sup>*\<^sup>* lock_init"

subsection \<open>Mutual exclusion\<close>

text \<open>
  Where the task \<open>o\<close> that holds the kernel's lock can be, and what it knows there.
\<close>

fun owner_at :: "lockst \<Rightarrow> ptr \<Rightarrow> lpc \<Rightarrow> bool" where
  "owner_at s r L_own \<longleftrightarrow> depth s r = 0 \<and> lk_taskp s = NULL"
| "owner_at s r L_nest \<longleftrightarrow> lk_taskp s = r"
| "owner_at s r U_zero \<longleftrightarrow> lk_taskp s = r"
| "owner_at s r U_clear \<longleftrightarrow> depth s r = 0 \<and> lk_taskp s = r"
| "owner_at s r U_free \<longleftrightarrow> depth s r = 0 \<and> lk_taskp s = NULL"
| "owner_at s r p \<longleftrightarrow> p \<in> {Idle, L_test, U_test, U_dec} \<and> 0 < depth s r \<and> lk_taskp s = r"

definition outside :: "lockst \<Rightarrow> ptr \<Rightarrow> bool" where
  "outside s t \<longleftrightarrow> depth s t = 0 \<and> pc s t \<in> {Idle, L_test, L_spin}"

definition owned :: "lockst \<Rightarrow> ptr \<Rightarrow> bool" where
  "owned s r \<longleftrightarrow> (lk_held s \<longleftrightarrow> r \<noteq> NULL) \<and> lk_nest s = int (depth s r) \<and>
     (r = NULL \<longrightarrow> lk_taskp s = NULL) \<and> (r \<noteq> NULL \<longrightarrow> owner_at s r (pc s r)) \<and>
     (\<forall>t. t \<noteq> r \<or> t = NULL \<longrightarrow> outside s t)"

text \<open>The other tasks stay where they are when \<open>t\<close> moves.\<close>

definition only_moves :: "ptr \<Rightarrow> lockst \<Rightarrow> lockst \<Rightarrow> bool" where
  "only_moves t s u \<longleftrightarrow> (\<forall>x. x \<noteq> t \<longrightarrow> pc u x = pc s x \<and> depth u x = depth s x)"

lemma only_moves_outside: "only_moves t s u \<Longrightarrow> x \<noteq> t \<Longrightarrow> outside u x = outside s x"
  by (simp add: only_moves_def outside_def)

lemma owner_at_cong: "depth u r = depth s r \<Longrightarrow> lk_taskp u = lk_taskp s \<Longrightarrow> owner_at u r p = owner_at s r p"
  by (cases p) auto

lemma owner_moves:
  assumes "owned s t" "t \<noteq> NULL" "only_moves t s u" "lk_held u" "lk_nest u = int (depth u t)" "owner_at u t (pc u t)"
  shows "owned u t"
  using assms only_moves_outside[OF assms(3)] by (auto simp: owned_def)

lemma other_moves:
  assumes "owned s r" "t \<noteq> NULL" "t \<noteq> r" "only_moves t s u" "outside u t"
    and "lk_held u = lk_held s" "lk_taskp u = lk_taskp s" "lk_nest u = lk_nest s"
  shows "owned u r"
proof -
  have "depth u r = depth s r" "pc u r = pc s r" using assms(3,4) by (simp_all add: only_moves_def)
  moreover have "outside u x" if "x \<noteq> r \<or> x = NULL" for x
    using that assms(1,5) only_moves_outside[OF assms(4), of x] by (cases "x = t") (auto simp: owned_def)
  ultimately show ?thesis using assms(1,6-8) owner_at_cong[of u r s] by (simp add: owned_def)
qed

lemma enters:
  assumes "owned s NULL" "t \<noteq> NULL" "only_moves t s u" "lk_held u" "pc u t = L_own" "depth u t = 0"
    and "lk_taskp u = NULL" "lk_nest u = 0"
  shows "owned u t"
proof -
  have "outside s x" for x using assms(1) by (cases "x = NULL") (auto simp: owned_def)
  then have "outside u x" if "x \<noteq> t" for x using that only_moves_outside[OF assms(3)] by simp
  then show ?thesis using assms by (auto simp: owned_def)
qed

lemma leaves:
  assumes "owned s t" "t \<noteq> NULL" "only_moves t s u" "\<not> lk_held u" "outside u t" "lk_taskp u = NULL" "lk_nest u = 0"
  shows "owned u NULL"
proof -
  have "outside u x" for x
    using assms(1,2,5) only_moves_outside[OF assms(3), of x] by (cases "x = t") (auto simp: owned_def)
  then show ?thesis using assms(4,6,7) by (simp add: owned_def outside_def)
qed

text \<open>A task that moves is the owner or outside.\<close>

lemma owned_cases:
  assumes "owned s r" "t \<noteq> NULL"
  obtains (owner) "r = t" "owned s t" "owner_at s t (pc s t)" "lk_held s" "lk_nest s = int (depth s t)"
    | (outside) "t \<noteq> r" "depth s t = 0" "pc s t \<in> {Idle, L_test, L_spin}" "lk_taskp s \<noteq> t"
proof (cases "t = r")
  case True
  then show ?thesis using assms owner by (simp add: owned_def)
next
  case False
  have "lk_taskp s \<noteq> t"
  proof (cases "r = NULL")
    case F: False
    then have "owner_at s r (pc s r)" using assms(1) by (simp add: owned_def)
    then have "lk_taskp s = r \<or> lk_taskp s = NULL" by (cases "pc s r") auto
    then show ?thesis using False assms(2) by auto
  qed (use assms in \<open>simp add: owned_def\<close>)
  moreover have "outside s t" using assms(1) False by (simp add: owned_def)
  ultimately show ?thesis using False outside by (simp add: outside_def)
qed

lemma lock_owned:
  assumes "owned s r" "lis_spin_lock_step t s u" "t \<noteq> NULL"
  shows "\<exists>r. owned u r"
proof -
  have only: "only_moves t s u" using assms(2) by cases (auto simp: only_moves_def)
  from assms(1,3) show ?thesis
  proof (cases rule: owned_cases)
    case owner
    have "lk_held u \<and> lk_nest u = int (depth u t) \<and> owner_at u t (pc u t)"
      using assms(2) owner by cases auto
    then show ?thesis using owner_moves[OF owner(2) assms(3) only] by blast
  next
    case outside
    show ?thesis
    proof (cases "lk_held u = lk_held s")
      case True
      have "outside u t \<and> lk_held u = lk_held s \<and> lk_taskp u = lk_taskp s \<and> lk_nest u = lk_nest s"
        using assms(2) outside True by cases (auto simp: outside_def)
      then show ?thesis using other_moves[OF assms(1,3) outside(1) only] by blast
    next
      case False
      have u: "lk_held u" "pc u t = L_own" "depth u t = 0" "lk_taskp u = lk_taskp s" "lk_nest u = lk_nest s" "\<not> lk_held s"
        using assms(2) outside False by (cases; auto)+
      then have "r = NULL" using assms(1) by (simp add: owned_def)
      then have "owned s NULL" "lk_taskp s = NULL" "lk_nest s = 0"
        using assms(1) by (auto simp: owned_def outside_def)
      then show ?thesis using enters[OF \<open>owned s NULL\<close> assms(3) only] u by auto
    qed
  qed
qed

lemma unlock_owned:
  assumes "owned s r" "lis_spin_unlock_step t s u" "t \<noteq> NULL" "pc s t = Idle \<longrightarrow> 0 < depth s t"
  shows "\<exists>r. owned u r"
proof -
  have only: "only_moves t s u" using assms(2) by cases (auto simp: only_moves_def)
  from assms(1,3) show ?thesis
  proof (cases rule: owned_cases)
    case owner
    show ?thesis
    proof (cases "pc s t = U_free")
      case True
      have "\<not> lk_held u \<and> outside u t \<and> lk_taskp u = NULL \<and> lk_nest u = 0"
        using assms(2) owner True by cases (auto simp: outside_def)
      then show ?thesis using leaves[OF owner(2) assms(3) only] by blast
    next
      case False
      have "lk_held u \<and> lk_nest u = int (depth u t) \<and> owner_at u t (pc u t)"
        using assms(2,4) owner False by cases auto
      then show ?thesis using owner_moves[OF owner(2) assms(3) only] by blast
    qed
  next
    case outside
    show ?thesis using assms(2,4) outside by cases auto
  qed
qed

lemma owned_init: "owned lock_init NULL"
  by (simp add: owned_def lock_init_def outside_def)

lemma reachable_owned: "lock_reachable False s \<Longrightarrow> \<exists>r. owned s r"
proof (induction rule: rtranclp_induct)
  case base
  show ?case using owned_init by blast
next
  case (step s u)
  from step.hyps(2) step.IH show ?case
    by (cases rule: lock_sys.cases) (auto intro: lock_owned unlock_owned)
qed

text \<open>
  No two tasks are inside at the same time; the task inside holds the kernel's lock, and \<open>nest\<close> is the
  number of its acquisitions.
\<close>

lemma mutual_exclusion:
  assumes "lock_reachable False s" "0 < depth s t"
  shows "(\<forall>u. 0 < depth s u \<longrightarrow> u = t) \<and> lk_held s \<and> lk_nest s = int (depth s t)"
proof -
  obtain r where r: "owned s r" using reachable_owned[OF assms(1)] by blast
  have "x = r \<and> r \<noteq> NULL" if "0 < depth s x" for x
    using r that by (cases "x \<noteq> r \<or> x = NULL") (auto simp: owned_def outside_def)
  then show ?thesis using r assms(2) by (auto simp: owned_def)
qed

subsection \<open>Calls that are not interrupted\<close>

text \<open>A whole call of the outermost \<open>lock\<close> and \<open>unlock\<close>, and of \<open>trylock\<close> by the owner.\<close>

lemmas path_step = converse_rtranclp_into_rtranclp

lemma path2: "r a b \<Longrightarrow> r b c \<Longrightarrow> r\<^sup>*\<^sup>* a c"
  by (intro path_step[of r a b] path_step[of r b c] rtranclp.rtrancl_refl)

lemma path5: "r a b \<Longrightarrow> r b c \<Longrightarrow> r c d \<Longrightarrow> r d e \<Longrightarrow> r e f \<Longrightarrow> r\<^sup>*\<^sup>* a f"
  using path2[of r a b c] path2[of r c d e] by auto

lemma path6: "r a b \<Longrightarrow> r b c \<Longrightarrow> r c d \<Longrightarrow> r d e \<Longrightarrow> r e f \<Longrightarrow> r f g \<Longrightarrow> r\<^sup>*\<^sup>* a g"
  using path5[of r a b c d e f] by auto

lemma lock_run:
  assumes "t \<noteq> NULL" "pc s t = Idle" "lk_taskp s \<noteq> t" "\<not> lk_held s"
  shows "(lock_sys wt)\<^sup>*\<^sup>* s (acquired t (s\<lparr>lk_held := True, lk_taskp := t, lk_nest := lk_nest s + 1\<rparr>))"
proof -
  note go = lock_sys.lock[OF assms(1)]
  let ?s1 = "goto t L_test s" and ?s2 = "goto t L_spin (goto t L_test s)"
  let ?s3 = "goto t L_own (?s2\<lparr>lk_held := True\<rparr>)"
  let ?s4 = "goto t L_nest (?s3\<lparr>lk_taskp := t\<rparr>)"
  let ?s5 = "goto t Idle (acquired t (?s4\<lparr>lk_nest := lk_nest ?s4 + 1\<rparr>))"
  have f1: "lock_sys wt s ?s1" by (rule go[OF lis_spin_lock_step.call]) (simp add: assms)
  have f2: "lock_sys wt ?s1 ?s2"
    using go[OF lis_spin_lock_step.other, of ?s1 wt] assms by simp
  have f3: "lock_sys wt ?s2 ?s3" by (rule go[OF lis_spin_lock_step.spin]) (simp_all add: assms)
  have f4: "lock_sys wt ?s3 ?s4" by (rule go[OF lis_spin_lock_step.own]) simp
  have f5: "lock_sys wt ?s4 ?s5" by (rule go[OF lis_spin_lock_step.nest]) simp
  have "(lock_sys wt)\<^sup>*\<^sup>* s ?s5" by (rule path5[of "lock_sys wt", OF f1 f2 f3 f4 f5])
  moreover have "?s5 = acquired t (s\<lparr>lk_held := True, lk_taskp := t, lk_nest := lk_nest s + 1\<rparr>)"
    using assms(2) by (simp add: goto_def acquired_def fun_upd_idem)
  ultimately show ?thesis by (simp only:)
qed

lemma unlock_run:
  assumes "t \<noteq> NULL" "pc s t = Idle" "0 < depth s t" "lk_nest s = 1"
  shows "(lock_sys wt)\<^sup>*\<^sup>* s (released t (s\<lparr>lk_held := False, lk_taskp := NULL, lk_nest := 0\<rparr>))"
proof -
  let ?s1 = "goto t U_test s" and ?s2 = "goto t U_dec (goto t U_test s)"
  let ?s3 = "goto t U_zero (released t (?s2\<lparr>lk_nest := lk_nest ?s2 - 1\<rparr>))"
  let ?s4 = "goto t U_clear ?s3"
  let ?s5 = "goto t U_free (?s4\<lparr>lk_taskp := NULL\<rparr>)"
  let ?s6 = "goto t Idle (?s5\<lparr>lk_held := False\<rparr>)"
  note go = lock_sys.unlock[OF assms(1)]
  have f1: "lock_sys wt s ?s1" by (rule go[OF _ lis_spin_unlock_step.call]) (simp_all add: assms)
  have f2: "lock_sys wt ?s1 ?s2" by (rule go[OF _ lis_spin_unlock_step.nested]) (simp_all add: assms)
  have f3: "lock_sys wt ?s2 ?s3" by (rule go[OF _ lis_spin_unlock_step.dec]) simp_all
  have f4: "lock_sys wt ?s3 ?s4" by (rule go[OF _ lis_spin_unlock_step.zero]) (simp_all add: assms)
  have f5: "lock_sys wt ?s4 ?s5" by (rule go[OF _ lis_spin_unlock_step.clear]) simp_all
  have f6: "lock_sys wt ?s5 ?s6" by (rule go[OF _ lis_spin_unlock_step.free]) simp_all
  have "(lock_sys wt)\<^sup>*\<^sup>* s ?s6" by (rule path6[of "lock_sys wt", OF f1 f2 f3 f4 f5 f6])
  moreover have "?s6 = released t (s\<lparr>lk_held := False, lk_taskp := NULL, lk_nest := 0\<rparr>)"
    using assms(2,4) by (simp add: goto_def released_def fun_upd_idem)
  ultimately show ?thesis by (simp only:)
qed

lemma trylock_mine_run:
  assumes "t \<noteq> NULL" "pc s t = Idle" "lk_taskp s = t"
  shows "(lock_sys True)\<^sup>*\<^sup>* s (acquired t s)"
proof -
  note go = lock_sys.attempt[OF TrueI assms(1)]
  have f1: "lock_sys True s (goto t T_test s)" by (rule go[OF lis_spin_trylock_step.call]) (simp add: assms)
  have f2: "lock_sys True (goto t T_test s) (goto t Idle (acquired t (goto t T_test s)))"
    by (rule go[OF lis_spin_trylock_step.mine]) (simp_all add: assms)
  have "(lock_sys True)\<^sup>*\<^sup>* s (goto t Idle (acquired t (goto t T_test s)))" by (rule path2[of "lock_sys True", OF f1 f2])
  moreover have "goto t Idle (acquired t (goto t T_test s)) = acquired t s"
    using assms(2) by (simp add: goto_def acquired_def fun_upd_idem)
  ultimately show ?thesis by (simp only:)
qed

text \<open>
  A task that holds the lock and succeeds with \<open>trylock\<close> frees it at its first \<open>unlock\<close>, while it still
  holds it once: another task gets in.
\<close>

lemma trylock_breaks_exclusion:
  assumes "t \<noteq> NULL" "u \<noteq> NULL" "t \<noteq> u"
  shows "\<exists>s. lock_reachable True s \<and> 0 < depth s t \<and> 0 < depth s u"
proof -
  let ?s1 = "acquired t (lock_init\<lparr>lk_held := True, lk_taskp := t, lk_nest := lk_nest lock_init + 1\<rparr>)"
  let ?s2 = "acquired t ?s1"
  let ?s3 = "released t (?s2\<lparr>lk_held := False, lk_taskp := NULL, lk_nest := 0\<rparr>)"
  let ?s4 = "acquired u (?s3\<lparr>lk_held := True, lk_taskp := u, lk_nest := lk_nest ?s3 + 1\<rparr>)"
  have r1: "lock_reachable True ?s1" by (rule lock_run) (simp_all add: assms lock_init_def)
  have r2: "(lock_sys True)\<^sup>*\<^sup>* ?s1 ?s2" by (rule trylock_mine_run) (simp_all add: assms lock_init_def)
  have r3: "(lock_sys True)\<^sup>*\<^sup>* ?s2 ?s3" by (rule unlock_run) (simp_all add: assms lock_init_def)
  have r4: "(lock_sys True)\<^sup>*\<^sup>* ?s3 ?s4" by (rule lock_run) (use assms in \<open>simp_all add: lock_init_def\<close>)
  note tr = rtranclp_trans[of "lock_sys True"]
  have "lock_reachable True ?s4" by (rule tr[OF tr[OF tr[OF r1 r2] r3] r4])
  then show ?thesis using assms(3) by (intro exI[of _ ?s4]) (simp add: lock_init_def)
qed

end
