(* ===== verification/LiS_Contention.thy ===== *)
theory LiS_Contention
  imports LiS_QueueAlloc LiS_Locks "HOL-Library.Multiset"
begin

text \<open>
  The tables of the most contended queues, spin locks and semaphores (\<open>head/queue.c\<close>,
  \<open>head/linux/lislocks.c\<close>): what entering, removing and sorting do to them.  The table of locks
  and that of semaphores have a copy each of the code; both hold pointers to structures with a
  field \<open>contention_cnt\<close>, an \<open>unsigned\<close>, which is the argument \<open>cnt\<close>.
\<close>

subsection \<open>Locks and semaphores\<close>

abbreviation (input) LOCK_CONTENTION_SIZE :: nat where "LOCK_CONTENTION_SIZE \<equiv> 4"

text \<open>The scan of the table from slot \<open>i\<close>: the slot \<open>r\<close> to replace and the empty slot \<open>e\<close> to plug.\<close>

fun lock_scan :: "(ptr \<Rightarrow> u32) \<Rightarrow> ptr \<Rightarrow> nat \<Rightarrow> ptr list \<Rightarrow> nat option \<Rightarrow> nat option
    \<Rightarrow> nat option \<times> nat option" where
  "lock_scan cnt lock i [] r e = (r, e)"
| "lock_scan cnt lock i (p # ps) r e =
     (if p = lock then (None, None)
      else if p = NULL
      then lock_scan cnt lock (i + 1) ps r (if e = None then Some i else e)
      else if cnt p < cnt lock
      then lock_scan cnt lock (i + 1) ps (Some i) None
      else lock_scan cnt lock (i + 1) ps r e)"

definition track_lock_contention :: "(ptr \<Rightarrow> u32) \<Rightarrow> ptr \<Rightarrow> ptr list \<Rightarrow> ptr list" where
  "track_lock_contention cnt lock tab =
     (case lock_scan cnt lock 0 tab None None of
        (Some i, _) \<Rightarrow> tab[i := lock]
      | (None, Some i) \<Rightarrow> tab[i := lock]
      | (None, None) \<Rightarrow> tab)"

definition purge_lock_contention :: "ptr \<Rightarrow> ptr list \<Rightarrow> ptr list" where
  "purge_lock_contention lock tab = map (\<lambda>p. if p = lock then NULL else p) tab"

text \<open>The table of semaphores.\<close>

definition track_sem_contention :: "(ptr \<Rightarrow> u32) \<Rightarrow> ptr \<Rightarrow> ptr list \<Rightarrow> ptr list" where
  "track_sem_contention cnt lsem tab =
     (case lock_scan cnt lsem 0 tab None None of
        (Some i, _) \<Rightarrow> tab[i := lsem]
      | (None, Some i) \<Rightarrow> tab[i := lsem]
      | (None, None) \<Rightarrow> tab)"

definition purge_sem_contention :: "ptr \<Rightarrow> ptr list \<Rightarrow> ptr list" where
  "purge_sem_contention lsem tab = map (\<lambda>p. if p = lsem then NULL else p) tab"

text \<open>
  The percentage that \<open>lis_lock_contention_msg\<close> prints for an entry: the product is computed with 32
  bits.
\<close>

definition contention_percent :: "u32 \<Rightarrow> u32 \<Rightarrow> u32" where
  "contention_percent cnt tot = (if tot \<noteq> 0 then (cnt * 100) div tot else 0)"

subsection \<open>Wake-up times\<close>

text \<open>\<open>lis_sem_hist\<close>: the limits of the buckets in micro seconds, closed by a bucket of limit 0.\<close>

definition hist_limits :: "int list" where
  "hist_limits =
     concat (map (\<lambda>d. map (\<lambda>k. k * d) [1, 2, 3, 4, 5, 6, 7, 8, 9])
       [1, 10, 100, 1000, 10000, 100000, 1000000]) @ [0]"

fun hist_find :: "int \<Rightarrow> int list \<Rightarrow> nat" where
  "hist_find interval [] = 0"
| "hist_find interval (l # ls) = (if l = 0 \<or> interval \<le> l then 0 else hist_find interval ls + 1)"

text \<open>A time is a pair of seconds and micro seconds; the difference is cut to an \<open>int\<close>.\<close>

definition track_wakup_time :: "int \<times> int \<Rightarrow> int \<times> int \<Rightarrow> u32 list \<Rightarrow> u32 list" where
  "track_wakup_time now up hist =
     (let interval = c_int ((fst now * 1000000 + snd now) - (fst up * 1000000 + snd up));
          h = hist_find interval hist_limits
      in hist[h := hist ! h + 1])"


subsection \<open>The sorted table\<close>

definition used :: "ptr list \<Rightarrow> ptr list" where
  "used tab = filter (\<lambda>p. p \<noteq> NULL) tab"

lemma used_simps [simp]:
  "used [] = []" "used (p # ps) = (if p = NULL then used ps else p # used ps)"
  by (simp_all add: used_def)

lemma contention_inner_nulls:
  "x \<noteq> NULL \<Longrightarrow> contention_inner cnt x ys = (z, zs) \<Longrightarrow>
     z \<noteq> NULL \<and> map (\<lambda>p. p = NULL) zs = map (\<lambda>p. p = NULL) ys \<and> mset (z # zs) = mset (x # ys)"
  by (induction ys arbitrary: x z zs) (auto split: if_splits prod.splits)

lemma contention_inner_least:
  "contention_inner cnt x ys = (z, zs) \<Longrightarrow> cnt z \<le> cnt x \<and> (\<forall>p \<in> set zs. p \<noteq> NULL \<longrightarrow> cnt z \<le> cnt p)"
  by (induction ys arbitrary: x z zs) (fastforce split: if_splits prod.splits)+

lemma contention_sort_nulls:
  "map (\<lambda>p. p = NULL) (contention_sort cnt tab) = map (\<lambda>p. p = NULL) tab \<and>
   mset (contention_sort cnt tab) = mset tab"
proof (induction cnt tab rule: contention_sort.induct)
  case (3 cnt x y ys)
  show ?case
  proof (cases "x = NULL")
    case False
    obtain z zs where z: "contention_inner cnt x (y # ys) = (z, zs)" by fastforce
    then show ?thesis
      using 3(2)[OF False z[symmetric]] contention_inner_nulls[OF False z] False
      by (simp del: contention_inner.simps)
  qed (use 3(1) in simp)
qed simp_all

lemma used_mset: "mset xs = mset ys \<Longrightarrow> mset (used xs) = mset (used ys)"
  by (simp add: used_def mset_filter)

lemma contention_sort_sorted: "sorted (map cnt (used (contention_sort cnt tab)))"
proof (induction cnt tab rule: contention_sort.induct)
  case (3 cnt x y ys)
  show ?case
  proof (cases "x = NULL")
    case False
    obtain z zs where z: "contention_inner cnt x (y # ys) = (z, zs)" by fastforce
    have "set (contention_sort cnt zs) = set zs"
      using contention_sort_nulls[of cnt zs] mset_eq_setD by blast
    then show ?thesis
      using 3(2)[OF False z[symmetric]] contention_inner_least[OF z] contention_inner_nulls[OF False z] z False
      by (auto simp: used_def simp del: contention_inner.simps)
  qed (use 3(1) in simp)
qed simp_all

text \<open>
  The counts of the sorted table are those of the library's sort; empty slots stay where they are.
\<close>

lemma contention_sort_counts:
  "map cnt (used (contention_sort cnt tab)) = sort (map cnt (used tab))"
proof -
  have "mset (map cnt (used (contention_sort cnt tab))) = mset (map cnt (used tab))"
    using used_mset[of "contention_sort cnt tab" tab] contention_sort_nulls[of cnt tab] by simp
  then show ?thesis
    using properties_for_sort[OF _ contention_sort_sorted] by metis
qed

subsection \<open>Entering a lock\<close>

text \<open>What the scan finds when the lock is not in the table.\<close>

lemma lock_scan_found: "lock \<in> set tab \<Longrightarrow> lock_scan cnt lock i tab r e = (None, None)"
  by (induction tab arbitrary: i r e) auto

definition small :: "(ptr \<Rightarrow> u32) \<Rightarrow> ptr \<Rightarrow> ptr \<Rightarrow> bool" where
  "small cnt lock p \<longleftrightarrow> p \<noteq> NULL \<and> cnt p < cnt lock"

lemma lock_scan_step:
  "p \<noteq> lock \<Longrightarrow> lock_scan cnt lock i (p # ps) r e =
     lock_scan cnt lock (Suc i) ps (if small cnt lock p then Some i else r)
       (if small cnt lock p then None else if p = NULL \<and> e = None then Some i else e)"
  by (simp add: small_def)

lemma lock_scan_replace:
  "lock \<notin> set tab \<Longrightarrow> fst (lock_scan cnt lock i tab r e) = Some k \<Longrightarrow>
     r = Some k \<or> (\<exists>j < length tab. k = i + j \<and> small cnt lock (tab ! j))"
proof (induction tab arbitrary: i r e)
  case (Cons p ps)
  have p: "p \<noteq> lock" "lock \<notin> set ps" using Cons.prems(1) by auto
  consider "(if small cnt lock p then Some i else r) = Some k" | j where "j < length ps" "k = Suc i + j" "small cnt lock (ps ! j)"
    using Cons.IH[OF p(2) Cons.prems(2)[unfolded lock_scan_step[OF p(1)]]] by blast
  then show ?case
  proof cases
    case 1
    then show ?thesis by (auto split: if_splits intro: exI[of _ 0])
  next
    case 2
    then show ?thesis by (intro disjI2 exI[of _ "Suc j"]) simp
  qed
qed simp

lemma lock_scan_none:
  "lock \<notin> set tab \<Longrightarrow> fst (lock_scan cnt lock i tab r e) = None \<Longrightarrow>
     r = None \<and> (\<forall>p \<in> set tab. \<not> small cnt lock p)"
proof (induction tab arbitrary: i r e)
  case (Cons p ps)
  have p: "p \<noteq> lock" "lock \<notin> set ps" using Cons.prems(1) by auto
  show ?case using Cons.IH[OF p(2) Cons.prems(2)[unfolded lock_scan_step[OF p(1)]]]
    by (simp split: if_splits)
qed simp

lemma lock_scan_plug:
  "lock \<notin> set tab \<Longrightarrow> lock_scan cnt lock i tab r e = (None, e') \<Longrightarrow>
     (e \<noteq> None \<longrightarrow> e' = e) \<and>
     (e = None \<longrightarrow> (case e' of None \<Rightarrow> NULL \<notin> set tab | Some k \<Rightarrow> \<exists>j < length tab. k = i + j \<and> tab ! j = NULL))"
proof (induction tab arbitrary: i r e)
  case (Cons p ps)
  have p: "p \<noteq> lock" "lock \<notin> set ps" using Cons.prems(1) by auto
  have "\<not> small cnt lock p" using lock_scan_none[OF Cons.prems(1)] Cons.prems(2) by (metis fst_conv list.set_intros(1))
  then have IH: "(e2 \<noteq> None \<longrightarrow> e' = e2) \<and>
     (e2 = None \<longrightarrow> (case e' of None \<Rightarrow> NULL \<notin> set ps | Some k \<Rightarrow> \<exists>j < length ps. k = Suc i + j \<and> ps ! j = NULL))"
    if "e2 = (if p = NULL \<and> e = None then Some i else e)" for e2
    using Cons.IH[OF p(2), of "Suc i" r e2] Cons.prems(2)[unfolded lock_scan_step[OF p(1)]] that by simp
  have shift: "\<exists>j < length (p # ps). k = i + j \<and> (p # ps) ! j = NULL"
    if "\<exists>j < length ps. k = Suc i + j \<and> ps ! j = NULL" for k
    using that by (metis add_Suc_shift length_Cons not_less_eq nth_Cons_Suc)
  have here: "p = NULL \<Longrightarrow> \<exists>j < length (p # ps). i = i + j \<and> (p # ps) ! j = NULL"
    by (intro exI[of _ 0]) simp
  show ?case using IH[OF refl] shift here by (cases "p = NULL \<and> e = None") (auto split: option.splits)
qed simp

text \<open>
  A lock already in the table leaves it alone; another one takes the place of a lock with a smaller
  count, or if there is none, an empty slot.
\<close>

lemma track_cases:
  obtains (known) "lock \<in> set tab" "track_lock_contention cnt lock tab = tab"
    | (replace) i where "lock \<notin> set tab" "i < length tab" "small cnt lock (tab ! i)"
        "track_lock_contention cnt lock tab = tab[i := lock]"
    | (plug) i where "lock \<notin> set tab" "i < length tab" "tab ! i = NULL" "\<forall>p \<in> set tab. \<not> small cnt lock p"
        "track_lock_contention cnt lock tab = tab[i := lock]"
    | (full) "lock \<notin> set tab" "NULL \<notin> set tab" "\<forall>p \<in> set tab. \<not> small cnt lock p"
        "track_lock_contention cnt lock tab = tab"
proof (cases "lock \<in> set tab")
  case True
  then show ?thesis using known lock_scan_found[OF True] by (simp add: track_lock_contention_def)
next
  case False
  obtain r e where re: "lock_scan cnt lock 0 tab None None = (r, e)" by fastforce
  show ?thesis
  proof (cases r)
    case (Some k)
    then show ?thesis using replace[of k] lock_scan_replace[OF False, of cnt 0 None None k] re False
      by (auto simp: track_lock_contention_def)
  next
    case None
    have "\<forall>p \<in> set tab. \<not> small cnt lock p" using lock_scan_none[OF False, of cnt 0 None None] re None by simp
    then show ?thesis
      using plug full lock_scan_plug[OF False, of cnt 0 None None e] re None False
      by (auto simp: track_lock_contention_def split: option.splits)
  qed
qed

lemma used_update:
  "distinct (used tab) \<Longrightarrow> lock \<notin> set tab \<Longrightarrow> distinct (used (tab[i := lock]))"
proof (induction tab arbitrary: i)
  case (Cons p ps)
  have sub: "set (used (ps[j := lock])) \<subseteq> insert lock (set (used ps))" for j
    using set_update_subset_insert[of ps j lock] unfolding used_def by auto
  have "set (used ps) \<subseteq> set ps" by (auto simp: used_def)
  then show ?case using Cons sub by (cases i) (auto split: if_splits)
qed simp

text \<open>No lock is in the table twice, and the one that was entered last is in it or has been kept out by others.\<close>

lemma track_lock_spec:
  assumes "distinct (used tab)" "lock \<noteq> NULL"
  shows "distinct (used (track_lock_contention cnt lock tab)) \<and>
    (lock \<in> set (track_lock_contention cnt lock tab) \<or>
     NULL \<notin> set tab \<and> (\<forall>p \<in> set tab. cnt lock \<le> cnt p)) \<and>
    (\<exists>lost. set tab \<subseteq> insert lost (set (track_lock_contention cnt lock tab)) \<and> (lost = NULL \<or> cnt lost < cnt lock))"
proof (cases rule: track_cases[of lock tab cnt])
  case known
  then show ?thesis using assms by auto
next
  case (replace i)
  have "set tab \<subseteq> insert (tab ! i) (set (tab[i := lock]))"
    by (metis (no_types) insert_subset list_update_id list_update_overwrite set_update_subset_insert subset_refl insert_mono order_trans)
  then show ?thesis using replace used_update[OF assms(1) replace(1)] set_update_memI[OF replace(2)]
    by (auto simp: small_def)
next
  case (plug i)
  have "set tab \<subseteq> insert (tab ! i) (set (tab[i := lock]))"
    by (metis (no_types) insert_subset list_update_id list_update_overwrite set_update_subset_insert subset_refl insert_mono order_trans)
  then show ?thesis using plug used_update[OF assms(1) plug(1)] set_update_memI[OF plug(2)] by auto
next
  case full
  then have "cnt lock \<le> cnt p" if "p \<in> set tab" for p using that by (auto simp: small_def not_less)
  then show ?thesis using full assms(1) by auto
qed

text \<open>
  The scan goes on after a smaller count, so that the slot replaced is that of the last smaller one,
  not of the smallest: of three contended locks, the second most contended loses its place to the
  first, while the least contended one stays and a slot is free.
\<close>

lemma track_loses_second:
  "\<exists>cnt. track_lock_contention cnt 3 [1, 2, NULL, NULL] = [1, 3, NULL, NULL] \<and> cnt 1 < cnt 2 \<and> cnt 2 < cnt 3"
  by (rule exI[of _ "\<lambda>p. word_of_nat p"]) (simp add: track_lock_contention_def)

lemma purge_lock_spec:
  "lock \<noteq> NULL \<Longrightarrow> lock \<notin> set (purge_lock_contention lock tab) \<and>
     used (purge_lock_contention lock tab) = filter (\<lambda>p. p \<noteq> lock) (used tab)"
  by (induction tab) (auto simp: purge_lock_contention_def)

subsection \<open>Wake-up times\<close>

text \<open>The bucket counted is the first whose limit is not exceeded, or else the last.\<close>

lemma hist_find_spec:
  "0 \<notin> set ls \<Longrightarrow> hist_find t (ls @ [0]) = length (takeWhile (\<lambda>l. l < t) ls)"
  by (induction ls) auto

lemma wakup_bucket:
  assumes "length hist = 64"
  shows "\<exists>h < 64. track_wakup_time now up hist = hist[h := hist ! h + 1] \<and>
    h = length (takeWhile (\<lambda>l. l < c_int ((fst now - fst up) * 1000000 + (snd now - snd up))) (butlast hist_limits))"
proof -
  let ?ls = "butlast hist_limits" and ?t = "c_int ((fst now - fst up) * 1000000 + (snd now - snd up))"
  have t: "c_int ((fst now * 1000000 + snd now) - (fst up * 1000000 + snd up)) = ?t"
    by (rule arg_cong[of _ _ c_int]) simp
  have ls: "hist_limits = ?ls @ [0]" "0 \<notin> set ?ls" "length ?ls = 63" by (simp_all add: hist_limits_def)
  have "hist_find ?t hist_limits = length (takeWhile (\<lambda>l. l < ?t) ?ls)"
    using hist_find_spec[OF ls(2)] ls(1) by metis
  moreover have "length (takeWhile (\<lambda>l. l < ?t) ?ls) < 64"
    using length_takeWhile_le[of "\<lambda>l. l < ?t" ?ls] ls(3) by simp
  ultimately show ?thesis using t by (simp add: track_wakup_time_def Let_def)
qed

end
