(* ===== verification/LiS_HeadOps.thy ===== *)
theory LiS_HeadOps
  imports LiS_Run LiS_QueueMisc
begin

text \<open>
  The stream head, \<open>head/head.c\<close>: its options, the waking of sleepers, pollers and processes that asked
  for signals, with \<open>head/wait.c\<close>.  Signals sent, pollers woken and files detached are recorded in
  order; what other tasks do while a task sleeps is a parameter.  The fields of the structures that
  modules put into messages are read at their offsets on LP64.
\<close>

unbundle bit_operations_syntax

subsection \<open>Flags, events and messages\<close>

abbreviation (input) M_SETOPTS :: u8 where "M_SETOPTS \<equiv> 0x08"
abbreviation (input) M_SIG :: u8 where "M_SIG \<equiv> 0x09"
abbreviation (input) M_IOCTL :: u8 where "M_IOCTL \<equiv> 0x05"
abbreviation (input) M_COPYIN :: u8 where "M_COPYIN \<equiv> 0x0a"
abbreviation (input) M_COPYOUT :: u8 where "M_COPYOUT \<equiv> 0x0b"
abbreviation (input) M_ERROR :: u8 where "M_ERROR \<equiv> 0x0c"
abbreviation (input) M_HANGUP :: u8 where "M_HANGUP \<equiv> 0x0e"
abbreviation (input) M_IOCACK :: u8 where "M_IOCACK \<equiv> 0x0f"
abbreviation (input) M_IOCNAK :: u8 where "M_IOCNAK \<equiv> 0x10"
abbreviation (input) M_IOCDATA :: u8 where "M_IOCDATA \<equiv> 0x11"
abbreviation (input) M_PCSIG :: u8 where "M_PCSIG \<equiv> 0x14"
abbreviation (input) M_READ :: u8 where "M_READ \<equiv> 0x15"

definition IOCWAIT :: u64 where "IOCWAIT = 0x00000008"
definition STRCLOSE :: u64 where "STRCLOSE = 0x00000010"
definition STRATTACH :: u64 where "STRATTACH = 0x00000080"
definition STRHOLD :: u64 where "STRHOLD = 0x00000040"
definition STPLEX :: u64 where "STPLEX = 0x00001000"
definition STRISTTY :: u64 where "STRISTTY = 0x00002000"
definition STRTOSTOP :: u64 where "STRTOSTOP = 0x00004000"
definition STRPRI :: u64 where "STRPRI = 0x00010000"
definition STRDERR :: u64 where "STRDERR = 0x00020000"
definition STWRERR :: u64 where "STWRERR = 0x00040000"
definition STRHUP :: u64 where "STRHUP = 0x00080000"
definition SNDMREAD :: u64 where "SNDMREAD = 0x00100000"
definition OLDNDELAY :: u64 where "OLDNDELAY = 0x00200000"
definition STRDELIM :: u64 where "STRDELIM = 0x00400000"
definition STRSELPND :: u64 where "STRSELPND = 0x00800000"
definition STIOCTMR :: u64 where "STIOCTMR = 0x01000000"
definition STRCLOSEWT :: u64 where "STRCLOSEWT = 0x02000000"
definition STRFLUSHWT :: u64 where "STRFLUSHWT = 0x04000000"
definition STRFROZEN :: u64 where "STRFROZEN = 0x08000000"

lemmas sd_flag_defs = IOCWAIT_def STRCLOSE_def STRATTACH_def STRHOLD_def STPLEX_def STRISTTY_def STRTOSTOP_def
  STRPRI_def STRDERR_def STWRERR_def STRHUP_def SNDMREAD_def OLDNDELAY_def STRDELIM_def STRSELPND_def
  STIOCTMR_def STRCLOSEWT_def STRFLUSHWT_def STRFROZEN_def

text \<open>The events of \<open>I_SETSIG\<close> and the signals (\<open>stropts.h\<close>, \<open>signal.h\<close>).\<close>

abbreviation (input) S_INPUT :: u16 where "S_INPUT \<equiv> 0x0001"
abbreviation (input) S_HIPRI :: u16 where "S_HIPRI \<equiv> 0x0002"
abbreviation (input) S_OUTPUT :: u16 where "S_OUTPUT \<equiv> 0x0004"
abbreviation (input) S_ERROR :: u16 where "S_ERROR \<equiv> 0x0010"
abbreviation (input) S_HANGUP :: u16 where "S_HANGUP \<equiv> 0x0020"
abbreviation (input) S_RDNORM :: u16 where "S_RDNORM \<equiv> 0x0040"
abbreviation (input) S_RDBAND :: u16 where "S_RDBAND \<equiv> 0x0080"
abbreviation (input) S_WRBAND :: u16 where "S_WRBAND \<equiv> 0x0100"
abbreviation (input) S_BANDURG :: u16 where "S_BANDURG \<equiv> 0x0200"
abbreviation (input) SIGURG :: int where "SIGURG \<equiv> 23"
abbreviation (input) SIGPOLL :: int where "SIGPOLL \<equiv> 29"
abbreviation (input) NOERROR :: int where "NOERROR \<equiv> 255"
abbreviation (input) ENOENT :: int where "ENOENT \<equiv> 2"
abbreviation (input) FLUSHR :: u8 where "FLUSHR \<equiv> 0x01"
abbreviation (input) FLUSHW :: u8 where "FLUSHW \<equiv> 0x02"
abbreviation (input) FLUSHBAND :: u8 where "FLUSHBAND \<equiv> 0x04"
abbreviation (input) MSGNOLOOP :: u16 where "MSGNOLOOP \<equiv> 0x02"

text \<open>The sleepers' environment: \<open>h_wait\<close> is the outcome of a wait on a semaphore whose count is 0.\<close>

datatype hsem = Sem_wwrite | Sem_wread | Sem_read | Sem_close_wt | Sem_wioc | Sem_wiocing | Sem_closing | Sem_write | Sem_opening

record henv =
  h_env :: env
  h_wait :: "hsem \<Rightarrow> ptr \<Rightarrow> lis \<Rightarrow> (int \<times> lis) option"

definition upd_hds :: "(hdst \<Rightarrow> hdst) \<Rightarrow> lis \<Rightarrow> lis" where
  "upd_hds f s = s\<lparr>hds := f (hds s)\<rparr>"

text \<open>Numbers in the bytes of a message.\<close>

definition mem_u16 :: "lis \<Rightarrow> ptr \<Rightarrow> u16" where
  "mem_u16 s p = word_of_int (uint (mem s p) + 2 ^ 8 * uint (mem s (p + 1)))"

definition mem_u32 :: "lis \<Rightarrow> ptr \<Rightarrow> u32" where
  "mem_u32 s p = word_of_int (uint (mem_u16 s p) + 2 ^ 16 * uint (mem_u16 s (p + 2)))"

definition mem_u64 :: "lis \<Rightarrow> ptr \<Rightarrow> u64" where
  "mem_u64 s p = word_of_int (uint (mem_u32 s p) + 2 ^ 32 * uint (mem_u32 s (p + 4)))"

definition lis_btype :: "ptr \<Rightarrow> lis \<Rightarrow> u8 option" where
  "lis_btype mp s = do { m \<leftarrow> mb s mp; d \<leftarrow> db s (b_datap m); Some (db_type d) }"

definition set_btype :: "ptr \<Rightarrow> u8 \<Rightarrow> lis \<Rightarrow> lis option" where
  "set_btype mp ty s = do { m \<leftarrow> mb s mp; upd_db (b_datap m) (\<lambda>d. d\<lparr>db_type := ty\<rparr>) s }"

definition SET_SD_FLAG :: "ptr \<Rightarrow> u64 \<Rightarrow> lis \<Rightarrow> lis option" where
  "SET_SD_FLAG hdp msk s = upd_sd hdp (\<lambda>h. h\<lparr>sd_flag := sd_flag h OR msk\<rparr>) s"

definition CLR_SD_FLAG :: "ptr \<Rightarrow> u64 \<Rightarrow> lis \<Rightarrow> lis option" where
  "CLR_SD_FLAG hdp msk s = upd_sd hdp (\<lambda>h. h\<lparr>sd_flag := sd_flag h AND NOT msk\<rparr>) s"

subsection \<open>Read options\<close>

definition RMODEMASK :: u32 where "RMODEMASK = 0x0003"
definition RPROTDAT :: u32 where "RPROTDAT = 0x0004"
definition RPROTDIS :: u32 where "RPROTDIS = 0x0008"
definition RPROTNORM :: u32 where "RPROTNORM = 0x0010"
definition RPROTMASK :: u32 where "RPROTMASK = 0x001C"
definition RNORM :: u32 where "RNORM = 0"
definition RMSGD :: u32 where "RMSGD = 1"
definition RMSGN :: u32 where "RMSGN = 2"

lemmas readopt_defs = RMODEMASK_def RPROTDAT_def RPROTDIS_def RPROTNORM_def RPROTMASK_def RNORM_def
  RMSGD_def RMSGN_def

text \<open>\<open>set_readopt\<close>: the return code and the new value of \<open>*flags\<close>.\<close>

definition set_readopt :: "u32 \<Rightarrow> u32 \<Rightarrow> int \<times> u32" where
  "set_readopt flags rmode =
     (let oflags = flags in
      if rmode AND RMODEMASK \<in> {RNORM, RMSGD, RMSGN}
      then (let flags = (flags AND NOT RMODEMASK) OR (rmode AND RMODEMASK) in
            if rmode AND RPROTMASK \<in> {RPROTNORM, RPROTDAT, RPROTDIS}
            then (0, (flags AND NOT RPROTMASK) OR (rmode AND RPROTMASK))
            else if rmode AND RPROTMASK = 0 then (0, flags)
            else (- EINVAL, oflags))
      else (- EINVAL, oflags))"

subsection \<open>Semaphores of the stream head (\<open>wait.c\<close>)\<close>

fun sem_upd :: "hsem \<Rightarrow> (int \<Rightarrow> int) \<Rightarrow> stdata \<Rightarrow> stdata" where
  "sem_upd Sem_wwrite f h = h\<lparr>sd_wwrite := f (sd_wwrite h)\<rparr>"
| "sem_upd Sem_wread f h = h\<lparr>sd_wread := f (sd_wread h)\<rparr>"
| "sem_upd Sem_read f h = h\<lparr>sd_read_sem := f (sd_read_sem h)\<rparr>"
| "sem_upd Sem_close_wt f h = h\<lparr>sd_close_wt := f (sd_close_wt h)\<rparr>"
| "sem_upd Sem_wioc f h = h\<lparr>sd_wioc := f (sd_wioc h)\<rparr>"
| "sem_upd Sem_wiocing f h = h\<lparr>sd_wiocing := f (sd_wiocing h)\<rparr>"
| "sem_upd Sem_closing f h = h\<lparr>sd_closing := f (sd_closing h)\<rparr>"
| "sem_upd Sem_write f h = h\<lparr>sd_write_sem := f (sd_write_sem h)\<rparr>"
| "sem_upd Sem_opening f h = h\<lparr>sd_opening := f (sd_opening h)\<rparr>"

fun sd_sem_cnt :: "hsem \<Rightarrow> stdata \<Rightarrow> int" where
  "sd_sem_cnt Sem_wwrite h = sd_wwrite h"
| "sd_sem_cnt Sem_wread h = sd_wread h"
| "sd_sem_cnt Sem_read h = sd_read_sem h"
| "sd_sem_cnt Sem_close_wt h = sd_close_wt h"
| "sd_sem_cnt Sem_wioc h = sd_wioc h"
| "sd_sem_cnt Sem_wiocing h = sd_wiocing h"
| "sd_sem_cnt Sem_closing h = sd_closing h"
| "sd_sem_cnt Sem_write h = sd_write_sem h"
| "sd_sem_cnt Sem_opening h = sd_opening h"

definition sd_up :: "hsem \<Rightarrow> ptr \<Rightarrow> lis \<Rightarrow> lis option" where
  "sd_up x hdp s = upd_sd hdp (sem_upd x (\<lambda>n. n + 1)) s"

definition sd_down :: "henv \<Rightarrow> hsem \<Rightarrow> ptr \<Rightarrow> lis \<Rightarrow> (int \<times> lis) option" where
  "sd_down e x hdp s = do {
     h \<leftarrow> sds s hdp;
     if sd_sem_cnt x h > 0 then do { s \<leftarrow> upd_sd hdp (sem_upd x (\<lambda>n. n - 1)) s; Some (0, s) }
     else h_wait e x hdp s }"

definition lis_runqueues :: "lis \<Rightarrow> lis" where
  "lis_runqueues s = (if runq_req_cnt s \<noteq> 0 then lis_setqsched s else s)"

definition lis_wakeup_close_wt :: "ptr \<Rightarrow> lis \<Rightarrow> lis option" where
  "lis_wakeup_close_wt hdp s =
     (if hdp = NULL then Some s
      else do {
        h \<leftarrow> sds s hdp;
        if sd_magic h = STDATA_MAGIC \<and> F_ISSET (sd_flag h) (STRCLOSEWT OR STRFLUSHWT)
        then sd_up Sem_close_wt hdp s else Some s })"

definition lis_sleep_on_close_wt :: "henv \<Rightarrow> ptr \<Rightarrow> lis \<Rightarrow> (int \<times> lis) option" where
  "lis_sleep_on_close_wt e hdp s =
     (if hdp = NULL then Some (- ENOENT, s)
      else do {
        h \<leftarrow> sds s hdp;
        if sd_magic h \<noteq> STDATA_MAGIC then Some (- ENOENT, s)
        else sd_down e Sem_close_wt hdp (lis_runqueues s) })"

definition lis_sleep_on_wioc :: "henv \<Rightarrow> ptr \<Rightarrow> lis \<Rightarrow> (int \<times> lis) option" where
  "lis_sleep_on_wioc e hdp s = sd_down e Sem_wioc hdp (lis_runqueues s)"

definition lis_sleep_on_wiocing :: "henv \<Rightarrow> ptr \<Rightarrow> lis \<Rightarrow> (int \<times> lis) option" where
  "lis_sleep_on_wiocing e hdp s = sd_down e Sem_wiocing hdp (lis_runqueues s)"

definition lis_wake_up_wiocing :: "ptr \<Rightarrow> lis \<Rightarrow> lis option" where
  "lis_wake_up_wiocing hdp s = sd_up Sem_wiocing hdp s"

text \<open>The loops that wake every sleeper.\<close>

partial_function (option) lis_wake_up_all_wwrite :: "ptr \<Rightarrow> lis \<Rightarrow> lis option" where
  "lis_wake_up_all_wwrite hdp s = do {
     h \<leftarrow> sds s hdp;
     if sd_wrcnt h > 0
     then do {
       s \<leftarrow> upd_sd hdp (\<lambda>h. h\<lparr>sd_wrcnt := sd_wrcnt h - 1\<rparr>) s;
       s \<leftarrow> sd_up Sem_wwrite hdp s;
       lis_wake_up_all_wwrite hdp s }
     else Some s }"

partial_function (option) lis_wake_up_all_wread :: "ptr \<Rightarrow> lis \<Rightarrow> lis option" where
  "lis_wake_up_all_wread hdp s = do {
     h \<leftarrow> sds s hdp;
     if sd_rdcnt h > 0
     then do {
       s \<leftarrow> upd_sd hdp (\<lambda>h. h\<lparr>sd_rdcnt := sd_rdcnt h - 1\<rparr>) s;
       s \<leftarrow> sd_up Sem_wread hdp s;
       lis_wake_up_all_wread hdp s }
     else Some s }"

partial_function (option) lis_wake_up_all_read_sem :: "ptr \<Rightarrow> lis \<Rightarrow> lis option" where
  "lis_wake_up_all_read_sem hdp s = do {
     h \<leftarrow> sds s hdp;
     if sd_rdsemcnt h > 0
     then do {
       s \<leftarrow> upd_sd hdp (\<lambda>h. h\<lparr>sd_rdsemcnt := sd_rdsemcnt h - 1\<rparr>) s;
       s \<leftarrow> sd_up Sem_read hdp s;
       lis_wake_up_all_read_sem hdp s }
     else Some s }"

definition lis_sleep_on_read_sem :: "henv \<Rightarrow> ptr \<Rightarrow> lis \<Rightarrow> (int \<times> lis) option" where
  "lis_sleep_on_read_sem e hdp s = do {
     s \<leftarrow> upd_sd hdp (\<lambda>h. h\<lparr>sd_rdsemcnt := sd_rdsemcnt h + 1\<rparr>) s;
     (ret, s) \<leftarrow> sd_down e Sem_read hdp s;
     s \<leftarrow> (if ret < 0 then upd_sd hdp (\<lambda>h. h\<lparr>sd_rdcnt := sd_rdcnt h - 1\<rparr>) s else Some s);
     Some (ret, s) }"

definition lis_wake_up_read_sem :: "ptr \<Rightarrow> lis \<Rightarrow> lis option" where
  "lis_wake_up_read_sem hdp s = do {
     h \<leftarrow> sds s hdp;
     if sd_rdsemcnt h > 0
     then do {
       s \<leftarrow> upd_sd hdp (\<lambda>h. h\<lparr>sd_rdsemcnt := sd_rdsemcnt h - 1\<rparr>) s;
       sd_up Sem_read hdp s }
     else Some s }"

subsection \<open>Signals and polling\<close>

definition lis_kill_proc :: "int \<Rightarrow> int \<Rightarrow> lis \<Rightarrow> lis" where
  "lis_kill_proc pid sig s = upd_hds (\<lambda>x. x\<lparr>sigs := sigs x @ [(pid, sig)]\<rparr>) s"

definition lis_kill_pg :: "int \<Rightarrow> int \<Rightarrow> lis \<Rightarrow> lis" where
  "lis_kill_pg pgrp sig s = upd_hds (\<lambda>x. x\<lparr>pgsigs := pgsigs x @ [(pgrp, sig)]\<rparr>) s"

text \<open>What one node of the list gets for the events \<open>ev\<close>.\<close>

definition kill_one :: "strevent \<Rightarrow> u16 \<Rightarrow> lis \<Rightarrow> lis" where
  "kill_one n ev s =
     (if se_evs n AND ev \<noteq> 0
      then if F_ISSET (se_evs n) S_BANDURG \<and> F_ISSET (se_evs n) S_RDBAND
           then (let s = lis_kill_proc (se_pid n) SIGURG s in
                 if se_evs n AND ev AND NOT S_RDBAND \<noteq> 0 then lis_kill_proc (se_pid n) SIGPOLL s else s)
           else lis_kill_proc (se_pid n) SIGPOLL s
      else s)"

partial_function (option) kill_loop :: "ptr \<Rightarrow> ptr \<Rightarrow> u16 \<Rightarrow> lis \<Rightarrow> lis option" where
  "kill_loop elist ev evs s =
     (if ev = elist then Some s
      else do {
        n \<leftarrow> ev_heap (evl (hds s)) ev;
        kill_loop elist (se_next n) evs (kill_one n evs s) })"

definition kill_procs :: "ptr \<Rightarrow> u16 \<Rightarrow> lis \<Rightarrow> lis option" where
  "kill_procs elist evs s = do {
     n \<leftarrow> ev_heap (evl (hds s)) elist;
     kill_loop elist (se_next n) evs s }"

definition lis_wake_up_poll :: "ptr \<Rightarrow> lis \<Rightarrow> lis" where
  "lis_wake_up_poll hdp s = upd_hds (\<lambda>x. x\<lparr>polled := polled x @ [hdp]\<rparr>) s"

definition wake_pollers :: "ptr \<Rightarrow> lis \<Rightarrow> lis option" where
  "wake_pollers hdp s = do {
     h \<leftarrow> sds s hdp;
     Some (if sd_polling h \<or> F_ISSET (sd_flag h) STRSELPND then lis_wake_up_poll hdp s else s) }"

text \<open>\<open>signalusr\<close>, which passes \<open>SIGPOLL\<close> where \<open>kill_procs\<close> expects a mask of events.\<close>

definition signalusr :: "int \<Rightarrow> ptr \<Rightarrow> lis \<Rightarrow> lis option" where
  "signalusr sig hdp s = do {
     h \<leftarrow> sds s hdp;
     if sig = SIGPOLL then kill_procs (sd_siglist h) (word_of_int SIGPOLL) s
     else if F_ISSET (sd_flag h) STRISTTY then Some (lis_kill_pg (sd_pgrp h) sig s)
     else Some s }"

definition signal_events :: "ptr \<Rightarrow> u16 \<Rightarrow> lis \<Rightarrow> lis option" where
  "signal_events hdp ev s = do {
     h \<leftarrow> sds s hdp;
     if F_ISSET (sd_sigflags h) (ucast ev) then kill_procs (sd_siglist h) ev s else Some s }"

subsection \<open>Errors\<close>

definition lis_stream_error :: "ptr \<Rightarrow> int \<Rightarrow> int \<Rightarrow> lis \<Rightarrow> lis option" where
  "lis_stream_error hdp rderr wrerr s = do {
     s \<leftarrow> (if rderr = 0
          then do { s \<leftarrow> upd_sd hdp (\<lambda>h. h\<lparr>sd_rerror := 0\<rparr>) s; CLR_SD_FLAG hdp STRDERR s }
          else if rderr > 0 \<and> rderr \<noteq> NOERROR
          then do { s \<leftarrow> upd_sd hdp (\<lambda>h. h\<lparr>sd_rerror := rderr\<rparr>) s; SET_SD_FLAG hdp STRDERR s }
          else Some s);
     s \<leftarrow> (if wrerr = 0
          then do { s \<leftarrow> upd_sd hdp (\<lambda>h. h\<lparr>sd_werror := 0\<rparr>) s; CLR_SD_FLAG hdp STWRERR s }
          else if wrerr > 0 \<and> wrerr \<noteq> NOERROR
          then do { s \<leftarrow> upd_sd hdp (\<lambda>h. h\<lparr>sd_werror := wrerr\<rparr>) s; SET_SD_FLAG hdp STWRERR s }
          else Some s);
     s \<leftarrow> signal_events hdp S_ERROR s;
     s \<leftarrow> wake_pollers hdp s;
     s \<leftarrow> lis_wake_up_all_wwrite hdp s;
     s \<leftarrow> lis_wake_up_all_wread hdp s;
     s \<leftarrow> lis_wake_up_all_read_sem hdp s;
     h \<leftarrow> sds s hdp;
     if F_ISSET (sd_flag h) IOCWAIT then lis_wake_up_wiocing hdp s else Some s }"

text \<open>Waking one sleeper, under the lock of the queue.\<close>

definition lis_wake_up_wread :: "henv \<Rightarrow> ptr \<Rightarrow> lis \<Rightarrow> lis option" where
  "lis_wake_up_wread e hdp s = do {
     h \<leftarrow> sds s hdp;
     (err, s) \<leftarrow> lis_lockq (e_cur (h_env e)) (sd_rq h) s;
     if err < 0 then lis_stream_error hdp err err s
     else do {
       h \<leftarrow> sds s hdp;
       if sd_rdcnt h > 0
       then do {
         s \<leftarrow> upd_sd hdp (\<lambda>h. h\<lparr>sd_rdcnt := sd_rdcnt h - 1\<rparr>) s;
         s \<leftarrow> lis_unlockq (e_cur (h_env e)) (sd_rq h) s;
         sd_up Sem_wread hdp s }
       else lis_unlockq (e_cur (h_env e)) (sd_rq h) s } }"

definition lis_wake_up_wwrite :: "henv \<Rightarrow> ptr \<Rightarrow> lis \<Rightarrow> lis option" where
  "lis_wake_up_wwrite e hdp s = do {
     h \<leftarrow> sds s hdp;
     (err, s) \<leftarrow> lis_lockq (e_cur (h_env e)) (sd_wq h) s;
     if err < 0 then lis_stream_error hdp err err s
     else do {
       h \<leftarrow> sds s hdp;
       if sd_wrcnt h > 0
       then do {
         s \<leftarrow> upd_sd hdp (\<lambda>h. h\<lparr>sd_wrcnt := sd_wrcnt h - 1\<rparr>) s;
         s \<leftarrow> lis_unlockq (e_cur (h_env e)) (sd_wq h) s;
         sd_up Sem_wwrite hdp s }
       else lis_unlockq (e_cur (h_env e)) (sd_wq h) s } }"

definition lis_sleep_on_wread :: "henv \<Rightarrow> ptr \<Rightarrow> lis \<Rightarrow> (int \<times> lis) option" where
  "lis_sleep_on_wread e hdp s = do {
     s \<leftarrow> upd_sd hdp (\<lambda>h. h\<lparr>sd_rdcnt := sd_rdcnt h + 1\<rparr>) s;
     h \<leftarrow> sds s hdp;
     s \<leftarrow> lis_unlockq (e_cur (h_env e)) (sd_rq h) s;
     (ret, s) \<leftarrow> sd_down e Sem_wread hdp (lis_runqueues s);
     if ret < 0
     then do { s \<leftarrow> upd_sd hdp (\<lambda>h. h\<lparr>sd_rdcnt := sd_rdcnt h - 1\<rparr>) s; Some (ret, s) }
     else do {
       h \<leftarrow> sds s hdp;
       (ret, s) \<leftarrow> lis_lockq (e_cur (h_env e)) (sd_rq h) s;
       if ret < 0
       then do {
         s \<leftarrow> upd_sd hdp (\<lambda>h. h\<lparr>sd_rdcnt := sd_rdcnt h - 1\<rparr>) s;
         s \<leftarrow> sd_up Sem_wread hdp s;
         Some (ret, s) }
       else Some (ret, s) } }"

definition lis_sleep_on_wwrite :: "henv \<Rightarrow> ptr \<Rightarrow> lis \<Rightarrow> (int \<times> lis) option" where
  "lis_sleep_on_wwrite e hdp s = do {
     s \<leftarrow> upd_sd hdp (\<lambda>h. h\<lparr>sd_wrcnt := sd_wrcnt h + 1\<rparr>) s;
     h \<leftarrow> sds s hdp;
     s \<leftarrow> lis_unlockq (e_cur (h_env e)) (sd_wq h) s;
     (ret, s) \<leftarrow> sd_down e Sem_wwrite hdp (lis_runqueues s);
     if ret < 0
     then do { s \<leftarrow> upd_sd hdp (\<lambda>h. h\<lparr>sd_wrcnt := sd_wrcnt h - 1\<rparr>) s; Some (ret, s) }
     else do {
       h \<leftarrow> sds s hdp;
       (ret, s) \<leftarrow> lis_lockq (e_cur (h_env e)) (sd_wq h) s;
       if ret < 0
       then do {
         s \<leftarrow> upd_sd hdp (\<lambda>h. h\<lparr>sd_wrcnt := sd_wrcnt h - 1\<rparr>) s;
         s \<leftarrow> sd_up Sem_wwrite hdp s;
         Some (ret, s) }
       else Some (ret, s) } }"

end
