(* ===== verification/LiS_HeadRput.thy ===== *)
theory LiS_HeadRput
  imports LiS_HeadOps
begin

text \<open>
  What the stream head does with messages from below, \<open>head/head.c\<close>: the put procedure
  \<open>lis_strrput\<close> queues them, acts at once on flushes and on answers to ioctls; the service procedure
  \<open>lis_strrsrv\<close> processes the others.  \<open>lis_strwsrv\<close> sends what was held back by flow control.
\<close>

unbundle bit_operations_syntax

subsection \<open>Messages sent down\<close>

definition mem_byte :: "ptr \<Rightarrow> u8 \<Rightarrow> lis \<Rightarrow> lis" where
  "mem_byte p b s = s\<lparr>mem := (mem s)(p := b)\<rparr>"

definition mem_put32 :: "ptr \<Rightarrow> u32 \<Rightarrow> lis \<Rightarrow> lis" where
  "mem_put32 p v s =
     mem_byte (p + 3) (ucast (drop_bit 24 v)) (mem_byte (p + 2) (ucast (drop_bit 16 v))
       (mem_byte (p + 1) (ucast (drop_bit 8 v)) (mem_byte p (ucast v) s)))"

definition snd_mread :: "env \<Rightarrow> ptr \<Rightarrow> u32 \<Rightarrow> lis \<Rightarrow> (int \<times> lis) option" where
  "snd_mread e wq ulen s = do {
     (mread, s) \<leftarrow> lis_allocb 4 s;
     if mread = NULL then Some (- ENOMEM, s)
     else do {
       s \<leftarrow> set_btype mread M_READ s;
       m \<leftarrow> mb s mread;
       let s = mem_put32 (b_wptr m) ulen s;
       s \<leftarrow> upd_mb mread (\<lambda>m. m\<lparr>b_wptr := b_wptr m + 4\<rparr>) s;
       s \<leftarrow> lis_safe_putnext e wq mread s;
       Some (0, s) } }"

definition lis_snd_mflush :: "env \<Rightarrow> ptr \<Rightarrow> u8 \<Rightarrow> u8 \<Rightarrow> lis \<Rightarrow> (int \<times> lis) option" where
  "lis_snd_mflush e wq flag band s = do {
     (mf, s) \<leftarrow> lis_allocb 8 s;
     if mf = NULL then Some (- ENOMEM, s)
     else do {
       s \<leftarrow> set_btype mf M_FLUSH s;
       m \<leftarrow> mb s mf;
       let s = mem_byte (b_wptr m) flag s;
       s \<leftarrow> upd_mb mf (\<lambda>m. m\<lparr>b_wptr := b_wptr m + 1\<rparr>) s;
       s \<leftarrow> (if F_ISSET flag FLUSHBAND
            then do {
              m \<leftarrow> mb s mf;
              let s = mem_byte (b_wptr m) band s;
              upd_mb mf (\<lambda>m. m\<lparr>b_wptr := b_wptr m + 1\<rparr>) s }
            else Some s);
       s \<leftarrow> lis_safe_putnext e wq mf s;
       Some (0, s) } }"

text \<open>\<open>ioc_id\<close> is at offset 16, \<open>ioc_error\<close> at 24 of \<open>iocblk_t\<close>; \<open>cq_id\<close> and \<open>cp_id\<close> are at 16, too.\<close>

definition snd_iocnak :: "env \<Rightarrow> ptr \<Rightarrow> ptr \<Rightarrow> u32 \<Rightarrow> lis \<Rightarrow> lis option" where
  "snd_iocnak e wq mp code s = do {
     m \<leftarrow> mb s mp;
     s \<leftarrow> set_btype mp M_IOCNAK s;
     let s = mem_put32 (b_rptr m + 24) code s;
     (dtab, s) \<leftarrow> lis_unlinkb mp s;
     s \<leftarrow> lis_freemsg dtab s;
     lis_safe_putnext e wq mp s }"

definition bad_ioc_seq :: "ptr \<Rightarrow> ptr \<Rightarrow> lis \<Rightarrow> bool option" where
  "bad_ioc_seq mp hdp s = do {
     m \<leftarrow> mb s mp;
     h \<leftarrow> sds s hdp;
     Some (mem_u32 s (b_rptr m + 16) \<noteq> word_of_int (sd_iocseq h)) }"

subsection \<open>Options\<close>

definition so_flag :: "u64 \<Rightarrow> u64 \<Rightarrow> (lis \<Rightarrow> lis option) \<Rightarrow> lis \<Rightarrow> lis option" where
  "so_flag flags opt op s = (if F_ISSET flags opt then op s else Some s)"

text \<open>
  \<open>stroptions_t\<close>: \<open>so_flags\<close> at 0, \<open>so_readopt\<close> at 8, \<open>so_wroff\<close> at 10, \<open>so_minpsz\<close> at 16,
  \<open>so_maxpsz\<close> at 24, \<open>so_hiwat\<close> at 32, \<open>so_lowat\<close> at 40 and \<open>so_band\<close> at 48.  The read options are set
  from \<open>so_flags\<close>, as in the code.
\<close>

definition set_options :: "ptr \<Rightarrow> ptr \<Rightarrow> lis \<Rightarrow> lis option" where
  "set_options hdp so s = do {
     let f = mem_u64 s so;
     s \<leftarrow> so_flag f 0x0040 (SET_SD_FLAG hdp SNDMREAD) s;
     s \<leftarrow> so_flag f 0x0080 (CLR_SD_FLAG hdp SNDMREAD) s;
     s \<leftarrow> so_flag f 0x0100 (SET_SD_FLAG hdp OLDNDELAY) s;
     s \<leftarrow> so_flag f 0x0200 (CLR_SD_FLAG hdp OLDNDELAY) s;
     s \<leftarrow> so_flag f 0x0400 (SET_SD_FLAG hdp STRISTTY) s;
     s \<leftarrow> so_flag f 0x0800 (CLR_SD_FLAG hdp STRISTTY) s;
     s \<leftarrow> so_flag f 0x1000 (SET_SD_FLAG hdp STRTOSTOP) s;
     s \<leftarrow> so_flag f 0x2000 (CLR_SD_FLAG hdp STRTOSTOP) s;
     s \<leftarrow> so_flag f 0x020000 (SET_SD_FLAG hdp STRHOLD) s;
     s \<leftarrow> so_flag f 0x8000 (SET_SD_FLAG hdp STRDELIM) s;
     s \<leftarrow> so_flag f 0x010000 (CLR_SD_FLAG hdp STRDELIM) s;
     s \<leftarrow> so_flag f 0x0001 (upd_sd hdp (\<lambda>h. h\<lparr>sd_rdopt := snd (set_readopt (sd_rdopt h) (ucast f))\<rparr>)) s;
     s \<leftarrow> so_flag f 0x0002 (upd_sd hdp (\<lambda>h. h\<lparr>sd_wroff := mem_u16 s (so + 10)\<rparr>)) s;
     h \<leftarrow> sds s hdp;
     s \<leftarrow> so_flag f 0x0004 (upd_q (sd_rq h) (\<lambda>Q. Q\<lparr>q_minpsz := sint (mem_u64 s (so + 16))\<rparr>)) s;
     s \<leftarrow> so_flag f 0x0008 (upd_q (sd_rq h) (\<lambda>Q. Q\<lparr>q_maxpsz := sint (mem_u64 s (so + 24))\<rparr>)) s;
     if F_ISSET f 0x4000
     then do {
       s \<leftarrow> so_flag f 0x0010 (\<lambda>s. do {
              (_, s) \<leftarrow> lis_strqset (sd_rq h) QHIWAT (mem s (so + 48)) (sint (mem_u64 s (so + 32))) s;
              Some s }) s;
       so_flag f 0x0020 (\<lambda>s. do {
              (_, s) \<leftarrow> lis_strqset (sd_rq h) QLOWAT (mem s (so + 48)) (sint (mem_u64 s (so + 40))) s;
              Some s }) s }
     else do {
       s \<leftarrow> so_flag f 0x0010 (upd_q (sd_rq h) (\<lambda>Q. Q\<lparr>q_hiwat := mem_u64 s (so + 32)\<rparr>)) s;
       so_flag f 0x0020 (upd_q (sd_rq h) (\<lambda>Q. Q\<lparr>q_lowat := mem_u64 s (so + 40)\<rparr>)) s } }"

subsection \<open>Signal messages in the queue\<close>

definition lis_check_m_sig :: "ptr \<Rightarrow> lis \<Rightarrow> lis option" where
  "lis_check_m_sig hdp s = do {
     h \<leftarrow> sds s hdp;
     Q \<leftarrow> qs s (sd_rq h);
     if q_first Q = NULL then Some s
     else do {
       ty \<leftarrow> lis_btype (q_first Q) s;
       if ty \<noteq> M_SIG then Some s
       else do {
         (hdmp, s) \<leftarrow> lis_getq (sd_rq h) s;
         let s = LisDownCount MSGQDSTRHD s;
         m \<leftarrow> mb s hdmp;
         s \<leftarrow> signalusr (uint (mem s (b_rptr m))) hdp s;
         s \<leftarrow> lis_freemsg hdmp s;
         wake_pollers hdp s } } }"

subsection \<open>Flushing\<close>

partial_function (option) flush_rput :: "ptr \<Rightarrow> int \<Rightarrow> lis \<Rightarrow> (int \<times> lis) option" where
  "flush_rput hdp n s = do {
     (xp, s) \<leftarrow> lis_get_rput_q hdp s;
     if xp \<noteq> NULL
     then do { s \<leftarrow> lis_freemsg xp s; flush_rput hdp (c_int (n + 1)) s }
     else Some (n, s) }"

definition flush_side :: "env \<Rightarrow> ptr \<Rightarrow> ptr \<Rightarrow> lis \<Rightarrow> lis option" where
  "flush_side e q mp s = do {
     m \<leftarrow> mb s mp;
     if F_ISSET (mem s (b_rptr m)) FLUSHBAND
     then lis_flushband e q (mem s (b_rptr m + 1)) FLUSHDATA s
     else lis_flushq e q FLUSHDATA s }"

text \<open>The read side: the messages not processed yet, if asked, and the queue.\<close>

definition head_flush_read :: "env \<Rightarrow> ptr \<Rightarrow> ptr \<Rightarrow> ptr \<Rightarrow> bool \<Rightarrow> int \<Rightarrow> lis \<Rightarrow> lis option" where
  "head_flush_read e hdp q mp flush_rputq msgs_before s = do {
     (msgs_before, s) \<leftarrow> (if flush_rputq then flush_rput hdp msgs_before s else Some (msgs_before, s));
     rq \<leftarrow> lis_safe_RD q s;
     s \<leftarrow> flush_side e rq mp s;
     h \<leftarrow> sds s hdp;
     Q \<leftarrow> qs s (sd_rq h);
     hipri \<leftarrow> (if q_first Q = NULL then Some False
              else do { ty \<leftarrow> lis_btype (q_first Q) s; Some (lis_hipri ty) });
     s \<leftarrow> (if \<not> hipri then CLR_SD_FLAG hdp STRPRI s else Some s);
     m \<leftarrow> mb s mp;
     let s = mem_byte (b_rptr m) (mem s (b_rptr m) AND NOT FLUSHR) s;
     n \<leftarrow> lis_qsize q s;
     Some (LisDownCounter MSGQDSTRHD (c_int (msgs_before - n)) s) }"

text \<open>\<open>lis_head_flush\<close>: true when the flush is deferred.\<close>

definition lis_head_flush :: "env \<Rightarrow> ptr \<Rightarrow> ptr \<Rightarrow> ptr \<Rightarrow> bool \<Rightarrow> lis \<Rightarrow> (bool \<times> lis) option" where
  "lis_head_flush e hdp q mp flush_rputq s = do {
     msgs_before \<leftarrow> lis_qsize q s;
     h \<leftarrow> sds s hdp;
     if F_ISSET (sd_flag h) STRFLUSHWT
     then do {
       s \<leftarrow> lis_freemsg mp s;
       s \<leftarrow> CLR_SD_FLAG hdp STRFLUSHWT s;
       s \<leftarrow> lis_wakeup_close_wt hdp s;
       Some (False, s) }
     else do {
       Q \<leftarrow> qs s q;
       if F_ISSET (q_flag Q) QREADING then Some (True, s)
       else do {
         m \<leftarrow> mb s mp;
         s \<leftarrow> (if F_ISSET (mem s (b_rptr m)) FLUSHR
              then head_flush_read e hdp q mp flush_rputq msgs_before s else Some s);
         m \<leftarrow> mb s mp;
         if F_ISSET (mem s (b_rptr m)) FLUSHW
         then do {
           wq \<leftarrow> lis_safe_WR q s;
           s \<leftarrow> flush_side e wq mp s;
           m \<leftarrow> mb s mp;
           if \<not> F_ISSET (b_flag m) MSGNOLOOP
           then do {
             s \<leftarrow> upd_mb mp (\<lambda>m. m\<lparr>b_flag := b_flag m OR MSGNOLOOP\<rparr>) s;
             wq \<leftarrow> lis_safe_WR q s;
             s \<leftarrow> lis_safe_putnext e wq mp s;
             Some (False, s) }
           else do { s \<leftarrow> lis_freemsg mp s; Some (False, s) } }
         else do { s \<leftarrow> lis_freemsg mp s; Some (False, s) } } } }"

subsection \<open>The service procedure\<close>

text \<open>The events of a new message that is first in the queue.\<close>

definition input_events :: "u8 \<Rightarrow> u8 \<Rightarrow> u16" where
  "input_events typ band =
     (if lis_hipri typ then S_HIPRI
      else if band = 0 then S_INPUT OR S_RDNORM else S_INPUT OR S_RDBAND)"

text \<open>\<open>M_DATA\<close>, \<open>M_PROTO\<close>, \<open>M_PCPROTO\<close> and \<open>M_PASSFP\<close>.\<close>

definition rput_data :: "henv \<Rightarrow> ptr \<Rightarrow> ptr \<Rightarrow> ptr \<Rightarrow> u8 \<Rightarrow> lis \<Rightarrow> lis option" where
  "rput_data e hdp q mp typ s = do {
     let s = LisUpCount MSGQDSTRHD s;
     (r, s) \<leftarrow> lis_putq q mp s;
     s \<leftarrow> (if r = 0 then lis_freemsg mp s else Some s);
     h \<leftarrow> sds s hdp;
     if sd_sigflags h = 0 \<and> \<not> sd_polling h \<and> \<not> F_ISSET (sd_flag h) STRSELPND
     then lis_wake_up_wread e hdp s
     else do {
       Q \<leftarrow> qs s q;
       s \<leftarrow> (if typ = M_PCPROTO \<or> mp = q_first Q
            then do {
              band \<leftarrow> (if lis_hipri typ then Some 0 else do { m \<leftarrow> mb s mp; Some (b_band m) });
              let evs = input_events typ band AND ucast (sd_sigflags h);
              s \<leftarrow> (if evs \<noteq> 0 then kill_procs (sd_siglist h) evs s else Some s);
              wake_pollers hdp s }
            else Some s);
       lis_wake_up_wread e hdp s } }"

text \<open>\<open>M_ERROR\<close>: one byte for both sides, one for each, or anything else for \<open>EINVAL\<close>.\<close>

definition rput_error :: "ptr \<Rightarrow> ptr \<Rightarrow> lis \<Rightarrow> lis option" where
  "rput_error hdp mp s = do {
     m \<leftarrow> mb s mp;
     s \<leftarrow> (if int (b_wptr m) - int (b_rptr m) = 2
          then do {
            s \<leftarrow> upd_mb mp (\<lambda>m. m\<lparr>b_rptr := b_rptr m + 2\<rparr>) s;
            lis_stream_error hdp (uint (mem s (b_rptr m))) (uint (mem s (b_rptr m + 1))) s }
          else do {
            s \<leftarrow> (if int (b_wptr m) - int (b_rptr m) = 1 then Some s
                 else do {
                   d \<leftarrow> db s (b_datap m);
                   let s = mem_byte (db_base d) (word_of_int EINVAL) s;
                   upd_mb mp (\<lambda>m. m\<lparr>b_rptr := db_base d, b_wptr := db_base d + 1\<rparr>) s });
            m \<leftarrow> mb s mp;
            let rderr = uint (mem s (b_rptr m));
            s \<leftarrow> upd_mb mp (\<lambda>m. m\<lparr>b_rptr := b_rptr m + 1\<rparr>) s;
            lis_stream_error hdp rderr rderr s });
     lis_freemsg mp s }"

definition rput_hangup :: "ptr \<Rightarrow> ptr \<Rightarrow> lis \<Rightarrow> lis option" where
  "rput_hangup hdp mp s = do {
     s \<leftarrow> lis_freemsg mp s;
     s \<leftarrow> SET_SD_FLAG hdp STRHUP s;
     s \<leftarrow> signal_events hdp S_HANGUP s;
     s \<leftarrow> wake_pollers hdp s;
     h \<leftarrow> sds s hdp;
     let s = (if F_ISSET (sd_flag h) STRATTACH \<and> sd_rfdcnt h = 0
              then upd_hds (\<lambda>x. x\<lparr>fdetached := fdetached x @ [hdp]\<rparr>) s else s);
     s \<leftarrow> lis_wake_up_all_wwrite hdp s;
     s \<leftarrow> lis_wake_up_all_wread hdp s;
     lis_wake_up_all_read_sem hdp s }"

text \<open>Messages for a stream that is closing: true when there is nothing more to do.\<close>

definition rput_closing :: "env \<Rightarrow> ptr \<Rightarrow> ptr \<Rightarrow> u8 \<Rightarrow> lis \<Rightarrow> (bool \<times> lis) option" where
  "rput_closing e hdp mp typ s =
     (if typ \<in> {M_PCPROTO, M_DATA, M_PROTO, M_SIG, M_PCSIG, M_COPYIN, M_COPYOUT, M_ERROR, M_HANGUP, M_FLUSH,
                M_SETOPTS, M_IOCTL, M_READ}
      then do {
        s \<leftarrow> lis_freemsg mp s;
        h \<leftarrow> sds s hdp;
        if typ = M_FLUSH \<and> F_ISSET (sd_flag h) STRFLUSHWT
        then do {
          s \<leftarrow> CLR_SD_FLAG hdp STRFLUSHWT s;
          s \<leftarrow> lis_wakeup_close_wt hdp s;
          Some (True, s) }
        else Some (True, s) }
      else if typ = M_PASSFP then do { s \<leftarrow> e_free_passfp e mp s; Some (True, s) }
      else if typ = M_IOCNAK \<or> typ = M_IOCACK then Some (True, s)
      else Some (False, s))"

definition lis_process_rput :: "henv \<Rightarrow> ptr \<Rightarrow> ptr \<Rightarrow> ptr \<Rightarrow> lis \<Rightarrow> lis option" where
  "lis_process_rput e hdp q mp s = do {
     typ \<leftarrow> lis_btype mp s;
     h \<leftarrow> sds s hdp;
     Q \<leftarrow> qs s q;
     (stop, s) \<leftarrow>
       (if F_ISSET (sd_flag h) STRCLOSE \<or> F_ISSET (q_flag Q) (QCLOSING OR QPROCSOFF)
        then rput_closing (h_env e) hdp mp typ s else Some (False, s));
     if stop then Some s
     else if typ \<in> {M_DATA, M_PCPROTO, M_PROTO, M_PASSFP} then rput_data e hdp q mp typ s
     else if typ = M_ERROR then rput_error hdp mp s
     else if typ = M_HANGUP then rput_hangup hdp mp s
     else if typ = M_FLUSH
     then do {
       (deferred, s) \<leftarrow> lis_head_flush (h_env e) hdp q mp False s;
       if deferred then lis_freemsg mp s else Some s }
     else if typ = M_SIG
     then do {
       (r, s) \<leftarrow> lis_putq q mp s;
       s \<leftarrow> (if r = 0 then lis_freemsg mp s else Some s);
       lis_check_m_sig hdp (LisUpCount MSGQDSTRHD s) }
     else if typ = M_PCSIG
     then do {
       m \<leftarrow> mb s mp;
       s \<leftarrow> signalusr (uint (mem s (b_rptr m))) hdp s;
       s \<leftarrow> wake_pollers hdp s;
       lis_freemsg mp s }
     else if typ \<in> {M_IOCNAK, M_IOCACK, M_COPYIN, M_COPYOUT} then Some s
     else if typ = M_SETOPTS
     then do {
       m \<leftarrow> mb s mp;
       s \<leftarrow> set_options hdp (b_rptr m) s;
       lis_freemsg mp s }
     else if typ = M_IOCTL
     then do {
       wq \<leftarrow> lis_safe_WR q s;
       snd_iocnak (h_env e) wq mp 1 s }
     else lis_freemsg mp s }"

text \<open>Whether \<open>q\<close> is the read queue of a stream head, as both procedures check.\<close>

definition is_head_rq :: "ptr \<Rightarrow> lis \<Rightarrow> bool option" where
  "is_head_rq q s = do {
     ok \<leftarrow> q_magic_ok q s;
     if \<not> ok then Some False
     else do {
       Q \<leftarrow> qs s q;
       if q_str Q = NULL then Some False
       else do { h \<leftarrow> sds s (q_str Q); Some (sd_magic h = STDATA_MAGIC \<and> sd_rq h = q) } } }"

partial_function (option) rsrv_loop :: "henv \<Rightarrow> ptr \<Rightarrow> ptr \<Rightarrow> lis \<Rightarrow> lis option" where
  "rsrv_loop e hdp q s = do {
     (mp, s) \<leftarrow> lis_get_rput_q hdp s;
     if mp \<noteq> NULL
     then do {
       s \<leftarrow> lis_process_rput e hdp q mp (LisDownCount MSGQDSTRHD s);
       rsrv_loop e hdp q s }
     else Some s }"

definition lis_strrsrv :: "henv \<Rightarrow> ptr \<Rightarrow> lis \<Rightarrow> lis option" where
  "lis_strrsrv e q s = do {
     ok \<leftarrow> is_head_rq q s;
     if \<not> ok then Some s
     else do {
       Q \<leftarrow> qs s q;
       let hdp = q_str Q;
       s \<leftarrow> rsrv_loop e hdp q s;
       ok \<leftarrow> q_magic_ok q s;
       if \<not> ok then Some s
       else do {
         s \<leftarrow> upd_q q (\<lambda>Q. Q\<lparr>q_flag := q_flag Q AND NOT QENAB\<rparr>) s;
         h \<leftarrow> sds s hdp;
         if sd_rput_hd h \<noteq> NULL then lis_qenable q s else Some s } } }"

subsection \<open>The put procedure\<close>

definition rput_later :: "ptr \<Rightarrow> ptr \<Rightarrow> lis \<Rightarrow> lis option" where
  "rput_later hdp mp s = do {
     s \<leftarrow> lis_put_rput_q hdp mp s;
     Some (LisUpCount MSGQDSTRHD s) }"

definition lis_strrput :: "env \<Rightarrow> ptr \<Rightarrow> ptr \<Rightarrow> lis \<Rightarrow> lis option" where
  "lis_strrput e q mp s = do {
     ok \<leftarrow> is_head_rq q s;
     if \<not> ok then lis_freemsg mp s
     else do {
       Q \<leftarrow> qs s q;
       let hdp = q_str Q;
       if F_ISSET (q_flag Q) QPROCSOFF then lis_freemsg mp s
       else do {
         s \<leftarrow> upd_mb mp (\<lambda>m. m\<lparr>b_next := NULL\<rparr>) s;
         typ \<leftarrow> lis_btype mp s;
         h \<leftarrow> sds s hdp;
         if typ = M_PCPROTO
         then if F_ISSET (sd_flag h) STRPRI then lis_freemsg mp s
              else do { s \<leftarrow> SET_SD_FLAG hdp STRPRI s; rput_later hdp mp s }
         else if typ = M_FLUSH
         then do {
           (deferred, s) \<leftarrow> lis_head_flush e hdp q mp True s;
           if deferred then rput_later hdp mp s else Some s }
         else if typ \<in> {M_IOCNAK, M_IOCACK, M_COPYIN, M_COPYOUT, M_IOCDATA}
         then do {
           bad \<leftarrow> (if \<not> F_ISSET (sd_flag h) IOCWAIT \<or> sd_iocblk h \<noteq> NULL \<or> F_ISSET (q_flag Q) QCLOSING
                   then Some True else bad_ioc_seq mp hdp s);
           if bad then lis_freemsg mp s
           else do {
             s \<leftarrow> upd_sd hdp (\<lambda>h. h\<lparr>sd_iocblk := mp\<rparr>) s;
             lis_wake_up_wiocing hdp s } }
         else rput_later hdp mp s } } }"

subsection \<open>The write side\<close>

text \<open>\<open>lis_wakeup_close\<close>: \<open>untimeout\<close> is recorded.\<close>

definition lis_wakeup_close :: "ptr \<Rightarrow> lis \<Rightarrow> lis option" where
  "lis_wakeup_close hdp s = do {
     h \<leftarrow> sds s hdp;
     if sd_magic h = STDATA_MAGIC
     then do {
       let s = upd_hds (\<lambda>x. x\<lparr>untimed := untimed x @ [sd_close_timer h]\<rparr>) s;
       s \<leftarrow> upd_sd hdp (\<lambda>h. h\<lparr>sd_close_timer := 0\<rparr>) s;
       sd_up Sem_closing hdp s }
     else Some s }"

definition lis_wakeup_flush :: "ptr \<Rightarrow> lis \<Rightarrow> lis option" where
  "lis_wakeup_flush hdp s = do {
     h \<leftarrow> sds s hdp;
     if sd_magic h = STDATA_MAGIC
     then do {
       let s = upd_hds (\<lambda>x. x\<lparr>untimed := untimed x @ [sd_close_timer h]\<rparr>) s;
       s \<leftarrow> upd_sd hdp (\<lambda>h. h\<lparr>sd_close_timer := 0\<rparr>) s;
       s \<leftarrow> CLR_SD_FLAG hdp STRFLUSHWT s;
       lis_wakeup_close_wt hdp s }
     else Some s }"

text \<open>Sending down what was held back: the result is \<open>couldput\<close>.\<close>

partial_function (option) wsrv_loop :: "env \<Rightarrow> ptr \<Rightarrow> lis \<Rightarrow> (int \<times> lis) option" where
  "wsrv_loop e q s = do {
     (couldput, s) \<leftarrow> lis_bcanputnext q 0 s;
     if couldput = 0 then Some (couldput, s)
     else do {
       (mp, s) \<leftarrow> lis_getq q s;
       if mp = NULL then Some (couldput, s)
       else do { s \<leftarrow> lis_safe_putnext e q mp s; wsrv_loop e q s } } }"

definition wsrv_signal :: "ptr \<Rightarrow> u16 \<Rightarrow> (lis \<Rightarrow> (int \<times> lis) option) \<Rightarrow> lis \<Rightarrow> lis option" where
  "wsrv_signal hdp ev test s = do {
     h \<leftarrow> sds s hdp;
     if F_ISSET (sd_sigflags h) (ucast ev)
     then do {
       (r, s) \<leftarrow> test s;
       if r \<noteq> 0 then kill_procs (sd_siglist h) ev s else Some s }
     else Some s }"

definition lis_strwsrv :: "env \<Rightarrow> ptr \<Rightarrow> lis \<Rightarrow> lis option" where
  "lis_strwsrv e q s = do {
     ok \<leftarrow> q_magic_ok q s;
     if \<not> ok then Some s
     else do {
       Q \<leftarrow> qs s q;
       let hdp = q_str Q;
       if hdp = NULL then Some s
       else do {
         h \<leftarrow> sds s hdp;
         if sd_magic h \<noteq> STDATA_MAGIC \<or> sd_wq h \<noteq> q then Some s
         else do {
           (couldput, s) \<leftarrow> wsrv_loop e q s;
           h \<leftarrow> sds s hdp;
           n \<leftarrow> (if F_ISSET (sd_flag h) STRCLOSE then lis_qcountstrm q s else Some 1);
           s \<leftarrow> (if n = 0 then lis_wakeup_close hdp s else Some s);
           s \<leftarrow> wsrv_signal hdp S_OUTPUT (lis_bcanputnext q 0) s;
           s \<leftarrow> wsrv_signal hdp S_WRBAND (lis_bcanputnext_anyband q) s;
           h \<leftarrow> sds s hdp;
           s \<leftarrow> (if couldput \<noteq> 0 \<and> sd_wrcnt h \<noteq> 0 then lis_wake_up_all_wwrite hdp s else Some s);
           h \<leftarrow> sds s hdp;
           if sd_polling h \<or> F_ISSET (sd_flag h) STRSELPND
           then do {
             (r, s) \<leftarrow> lis_bcanputnext q 0 s;
             Some (if r \<noteq> 0 then lis_wake_up_poll hdp s else s) }
           else Some s } } } }"

subsection \<open>Poll\<close>

abbreviation (input) POLLIN :: u32 where "POLLIN \<equiv> 0x0001"
abbreviation (input) POLLPRI :: u32 where "POLLPRI \<equiv> 0x0002"
abbreviation (input) POLLOUT :: u32 where "POLLOUT \<equiv> 0x0004"
abbreviation (input) POLLERR :: u32 where "POLLERR \<equiv> 0x0008"
abbreviation (input) POLLHUP :: u32 where "POLLHUP \<equiv> 0x0010"
abbreviation (input) POLLNVAL :: u32 where "POLLNVAL \<equiv> 0x0020"
abbreviation (input) POLLRDNORM :: u32 where "POLLRDNORM \<equiv> 0x0040"
abbreviation (input) POLLRDBAND :: u32 where "POLLRDBAND \<equiv> 0x0080"
abbreviation (input) POLLWRNORM :: u32 where "POLLWRNORM \<equiv> POLLOUT"
abbreviation (input) POLLWRBAND :: u32 where "POLLWRBAND \<equiv> 0x0100"
abbreviation (input) POLLMSG :: u32 where "POLLMSG \<equiv> 0x0200"

text \<open>The events of the first message of the read queue.\<close>

definition poll_read_bits :: "ptr \<Rightarrow> lis \<Rightarrow> u32 option" where
  "poll_read_bits mp s =
     (if mp = NULL then Some 0
      else do {
        mtype \<leftarrow> lis_btype mp s;
        m \<leftarrow> mb s mp;
        if lis_hipri mtype then Some POLLPRI
        else if mtype = M_DATA \<or> mtype = M_PROTO
        then Some (POLLIN OR (if b_band m > 0 then POLLRDBAND else POLLRDNORM))
        else if mtype = M_SIG
        then Some (POLLIN OR (if uint (mem s (b_rptr m)) = SIGPOLL then POLLMSG else 0))
        else Some POLLIN })"

definition lis_poll_bits :: "ptr \<Rightarrow> lis \<Rightarrow> (u32 \<times> lis) option" where
  "lis_poll_bits hdp s = do {
     h \<leftarrow> sds s hdp;
     if F_ISSET (sd_flag h) (STRDERR OR STWRERR) then Some (POLLERR, s)
     else if F_ISSET (sd_flag h) (STRHUP OR STRCLOSE) then Some (POLLHUP, s)
     else if F_ISSET (sd_flag h) STPLEX then Some (POLLNVAL, s)
     else do {
       Q \<leftarrow> qs s (sd_rq h);
       rbits \<leftarrow> poll_read_bits (q_first Q) s;
       (r0, s) \<leftarrow> lis_bcanputnext (sd_wq h) 0 s;
       W \<leftarrow> qs s (sd_wq h);
       (r1, s) \<leftarrow> lis_bcanputnext_anyband (q_next W) s;
       Some (rbits OR (if r0 \<noteq> 0 then POLLWRNORM OR POLLOUT else 0) OR (if r1 \<noteq> 0 then POLLWRBAND else 0), s) } }"

end
