(* ===== verification/LiS_HeadRead.thy ===== *)
theory LiS_HeadRead
  imports LiS_HeadRput
begin

text \<open>
  Reading from a stream head, \<open>lis_strread\<close> of \<open>head/head.c\<close>.  The file passes its flags; the buffer is
  in the user's memory, where an access may fail.
\<close>

unbundle bit_operations_syntax

abbreviation (input) READCNT :: nat where "READCNT \<equiv> 26"
abbreviation (input) EINTR :: int where "EINTR \<equiv> 4"
abbreviation (input) EAGAIN :: int where "EAGAIN \<equiv> 11"
abbreviation (input) EFAULT :: int where "EFAULT \<equiv> 14"
abbreviation (input) ENODEV :: int where "ENODEV \<equiv> 19"
abbreviation (input) EBADMSG :: int where "EBADMSG \<equiv> 74"
abbreviation (input) MSGMARK :: u16 where "MSGMARK \<equiv> 0x01"

definition O_NONBLOCK :: u32 where "O_NONBLOCK = 0x800"

subsection \<open>User memory\<close>

definition user_access :: "lis \<Rightarrow> bool \<times> lis" where
  "user_access s =
     (case uacc (hds s) of
        [] \<Rightarrow> (False, s)
      | ok # oks \<Rightarrow> (ok, upd_hds (\<lambda>x. x\<lparr>uacc := oks\<rparr>) s))"

definition lis_check_umem :: "lis \<Rightarrow> int \<times> lis" where
  "lis_check_umem s = (case user_access s of (ok, s) \<Rightarrow> (if ok then 0 else - EFAULT, s))"

text \<open>\<open>lis_copyout\<close> of \<open>len\<close> bytes, and \<open>lis_copyin\<close>.\<close>

definition lis_copyout :: "ptr \<Rightarrow> ptr \<Rightarrow> nat \<Rightarrow> lis \<Rightarrow> int \<times> lis" where
  "lis_copyout kbuf ubuf len s =
     (case user_access s of (ok, s) \<Rightarrow>
        if ok
        then (0, upd_hds (\<lambda>x. x\<lparr>umem := (\<lambda>p. if ubuf \<le> p \<and> p < ubuf + len then mem s (kbuf + (p - ubuf))
                                              else umem x p)\<rparr>) s)
        else (- EFAULT, s))"

definition lis_copyin :: "ptr \<Rightarrow> ptr \<Rightarrow> nat \<Rightarrow> lis \<Rightarrow> int \<times> lis" where
  "lis_copyin kbuf ubuf len s =
     (case user_access s of (ok, s) \<Rightarrow>
        if ok
        then (0, s\<lparr>mem := (\<lambda>p. if kbuf \<le> p \<and> p < kbuf + len then umem (hds s) (ubuf + (p - kbuf)) else mem s p)\<rparr>)
        else (- EFAULT, s))"

subsection \<open>Putting a message back\<close>

definition lis_requeue :: "ptr \<Rightarrow> ptr \<Rightarrow> lis \<Rightarrow> lis option" where
  "lis_requeue hdp mp s = do {
     h \<leftarrow> sds s hdp;
     let hd_rq = sd_rq h;
     typ \<leftarrow> lis_btype mp s;
     s \<leftarrow>
       (if typ = M_PCPROTO
        then do {
          s \<leftarrow> SET_SD_FLAG hdp STRPRI s;
          s \<leftarrow> upd_q hd_rq (\<lambda>Q. Q\<lparr>q_flag := q_flag Q OR QREADING\<rparr>) s;
          Q \<leftarrow> qs s hd_rq;
          first \<leftarrow> (if q_first Q = NULL then Some False
                   else do { ty \<leftarrow> lis_btype (q_first Q) s; Some (ty = M_PCPROTO) });
          s \<leftarrow> (if first
               then do {
                 (hdmp, s) \<leftarrow> lis_getq hd_rq s;
                 s \<leftarrow> lis_freemsg hdmp s;
                 Some (LisDownCount MSGQDSTRHD s) }
               else Some s);
          upd_q hd_rq (\<lambda>Q. Q\<lparr>q_flag := q_flag Q AND NOT QREADING\<rparr>) s }
        else Some s);
     s \<leftarrow> lis_putbqf hd_rq mp s;
     Some (LisUpCount MSGQDSTRHD s) }"

subsection \<open>The return path\<close>

definition clr_reading :: "ptr \<Rightarrow> lis \<Rightarrow> lis option" where
  "clr_reading q s = upd_q q (\<lambda>Q. Q\<lparr>q_flag := q_flag Q AND NOT QREADING\<rparr>) s"

definition set_reading :: "ptr \<Rightarrow> lis \<Rightarrow> lis option" where
  "set_reading q s = upd_q q (\<lambda>Q. Q\<lparr>q_flag := q_flag Q OR QREADING\<rparr>) s"

text \<open>\<open>return_point\<close>: \<open>isr\<close> is \<open>qisrlocked\<close>, \<open>ql\<close> is \<open>qlocked\<close>.\<close>

definition rd_return :: "henv \<Rightarrow> ptr \<Rightarrow> ptr \<Rightarrow> bool \<Rightarrow> bool \<Rightarrow> int \<Rightarrow> lis \<Rightarrow> (int \<times> lis) option" where
  "rd_return e hdp rq isr ql err s = do {
     s \<leftarrow> (if rq \<noteq> NULL \<and> isr then clr_reading rq s else Some s);
     s \<leftarrow> (if rq \<noteq> NULL \<and> ql
          then do { s \<leftarrow> lis_check_m_sig hdp s; lis_unlockq (e_cur (h_env e)) rq s }
          else Some s);
     s \<leftarrow> lis_wake_up_read_sem hdp s;
     (_, s) \<leftarrow> lis_head_put hdp s;
     Some (err, lis_runqueues s) }"

subsection \<open>Waiting for a message\<close>

text \<open>
  The inner loop, entered with the queue locked and \<open>QREADING\<close> set.  The outcome is to go on, or to
  return \<open>err\<close> with the flags of the return path.
\<close>

datatype rdwait = Go | Ret int bool bool

partial_function (option) rd_wait ::
  "henv \<Rightarrow> u32 \<Rightarrow> u32 \<Rightarrow> ptr \<Rightarrow> ptr \<Rightarrow> int \<Rightarrow> bool \<Rightarrow> lis \<Rightarrow> (rdwait \<times> lis) option" where
  "rd_wait e fl ulen hdp rq msgs_read mread_sent s = do {
     Q \<leftarrow> qs s rq;
     h \<leftarrow> sds s hdp;
     if q_first Q \<noteq> NULL \<or> msgs_read \<noteq> 0 then Some (Go, s)
     else if F_ISSET (sd_flag h) STRDERR then Some (Ret (- sd_rerror h) True True, s)
     else if F_ISSET (sd_flag h) (STRHUP OR STRCLOSE) then Some (Ret 0 True True, s)
     else if \<not> mread_sent \<and> F_ISSET (sd_flag h) SNDMREAD
     then do {
       s \<leftarrow> clr_reading rq s;
       s \<leftarrow> lis_unlockq (e_cur (h_env e)) rq s;
       (err, s) \<leftarrow> snd_mread (h_env e) (sd_wq h) ulen s;
       if err < 0 then Some (Ret err False False, s)
       else do {
         (err, s) \<leftarrow> lis_lockq (e_cur (h_env e)) rq s;
         if err < 0 then Some (Ret err False False, s)
         else do {
           s \<leftarrow> set_reading rq s;
           rd_wait e fl ulen hdp rq msgs_read True s } } }
     else if F_ISSET fl O_NONBLOCK then Some (Ret (- EAGAIN) True True, s)
     else do {
       s \<leftarrow> clr_reading rq s;
       (err, s) \<leftarrow> lis_sleep_on_wread e hdp s;
       if err < 0 then Some (Ret err False False, s)
       else do {
         s \<leftarrow> set_reading rq s;
         rd_wait e fl ulen hdp rq msgs_read mread_sent s } } }"

subsection \<open>Copying a message\<close>

text \<open>
  The loop over the blocks of a message.  The result is the error code, the rest of the message, the
  user's pointer, the bytes copied and the length of the message seen.
\<close>

partial_function (option) rd_blocks ::
  "u64 \<Rightarrow> ptr \<Rightarrow> ptr \<Rightarrow> int \<Rightarrow> int \<Rightarrow> lis \<Rightarrow> (int \<times> ptr \<times> ptr \<times> int \<times> int \<times> lis) option" where
  "rd_blocks ulen mp ubuff count msg_lgth s = do {
     typ \<leftarrow> lis_btype mp s;
     m \<leftarrow> mb s mp;
     let nbytes = (if typ \<noteq> M_DATA then -1 else ptrdiff (b_wptr m) (b_rptr m));
     let chunk = nat (min (uint (ulen - word_of_int count)) nbytes);
     (err, s) \<leftarrow> Some (if nbytes > 0 then lis_copyout (b_rptr m) ubuff chunk s else (0, s));
     if err < 0 then Some (err, mp, ubuff, count, msg_lgth, s)
     else do {
       (ubuff, count, msg_lgth, left, s) \<leftarrow>
         (if nbytes > 0
          then do {
            s \<leftarrow> upd_mb mp (\<lambda>m. m\<lparr>b_rptr := b_rptr m + chunk\<rparr>) s;
            Some (ubuff + chunk, c_int (count + int chunk), c_int (msg_lgth + nbytes), nbytes - int chunk,
                  LisUpCount READCNT s) }
          else Some (ubuff, count, msg_lgth, nbytes, s));
       (mp, s) \<leftarrow>
         (if left \<le> 0
          then do {
            (next, s) \<leftarrow> lis_unlinkb mp s;
            s \<leftarrow> lis_freeb mp s;
            Some (next, s) }
          else Some (mp, s));
       if (word_of_int count :: u64) < ulen \<and> mp \<noteq> NULL
       then rd_blocks ulen mp ubuff count msg_lgth s
       else Some (err, mp, ubuff, count, msg_lgth, s) } }"

subsection \<open>One message\<close>

text \<open>What becomes of a message: the next round of the loop with the user's pointer and the count, or
  the return code.\<close>

datatype rdstep = Again ptr int | Done int

definition rd_data :: "ptr \<Rightarrow> u64 \<Rightarrow> ptr \<Rightarrow> ptr \<Rightarrow> int \<Rightarrow> bool \<Rightarrow> lis \<Rightarrow> (rdstep \<times> lis) option" where
  "rd_data hdp ulen mp ubuff count marked s = do {
     (err, mp, ubuff, count, msg_lgth, s) \<leftarrow> rd_blocks ulen mp ubuff count 0 s;
     h \<leftarrow> sds s hdp;
     s \<leftarrow> (if mp \<noteq> NULL
          then if err = 0 \<and> sd_rdopt h AND RMODEMASK = RMSGD then lis_freemsg mp s else lis_requeue hdp mp s
          else Some s);
     if ulen = word_of_int count \<or> sd_rdopt h AND RMODEMASK \<noteq> RNORM \<or> msg_lgth = 0 \<or> marked
     then Some (Done count, s)
     else if err < 0 then Some (Done err, s)
     else Some (Again ubuff count, s) }"

definition rd_proto :: "ptr \<Rightarrow> ptr \<Rightarrow> ptr \<Rightarrow> int \<Rightarrow> lis \<Rightarrow> (rdstep \<times> lis) option" where
  "rd_proto hdp mp ubuff count s = do {
     h \<leftarrow> sds s hdp;
     if F_ISSET (sd_rdopt h) RPROTNORM
     then do {
       s \<leftarrow> (if F_ISSET (sd_rdopt h) RPROTDIS then lis_freemsg mp s else lis_requeue hdp mp s);
       Some (Done (- EBADMSG), s) }
     else if F_ISSET (sd_rdopt h) RPROTDAT
     then do {
       s \<leftarrow> set_btype mp M_DATA s;
       s \<leftarrow> lis_requeue hdp mp s;
       Some (Again ubuff count, s) }
     else if F_ISSET (sd_rdopt h) RPROTDIS
     then do {
       (rest, s) \<leftarrow> lis_unlinkb mp s;
       s \<leftarrow> lis_freeb mp s;
       s \<leftarrow> (if rest \<noteq> NULL then lis_requeue hdp rest s else Some s);
       Some (Again ubuff count, s) }
     else do {
       s \<leftarrow> lis_freemsg mp s;
       Some (Done (- EBADMSG), s) } }"

text \<open>The switch: with the step, the number of messages read.\<close>

definition rd_message ::
  "henv \<Rightarrow> ptr \<Rightarrow> u64 \<Rightarrow> ptr \<Rightarrow> ptr \<Rightarrow> int \<Rightarrow> int \<Rightarrow> lis \<Rightarrow> (rdstep \<times> int \<times> lis) option" where
  "rd_message e hdp ulen mp ubuff count msgs_read s = do {
     m \<leftarrow> mb s mp;
     let marked = F_ISSET (b_flag m) MSGMARK;
     typ \<leftarrow> lis_btype mp s;
     if typ = M_DATA
     then do {
       (st, s) \<leftarrow> rd_data hdp ulen mp ubuff count marked s;
       Some (st, msgs_read + 1, s) }
     else if typ = M_PROTO \<or> typ = M_PCPROTO
     then do {
       s \<leftarrow> (if typ = M_PCPROTO then CLR_SD_FLAG hdp STRPRI s else Some s);
       (st, s) \<leftarrow> rd_proto hdp mp ubuff count s;
       Some (st, msgs_read + 1, s) }
     else if typ = M_READ
     then do { s \<leftarrow> lis_freemsg mp s; Some (Again ubuff count, msgs_read, s) }
     else if typ = M_PASSFP
     then do { s \<leftarrow> e_free_passfp (h_env e) mp s; Some (Done (- EBADMSG), msgs_read, s) }
     else if typ = M_SIG
     then do {
       s \<leftarrow> lis_requeue hdp mp s;
       s \<leftarrow> lis_check_m_sig hdp s;
       Some (Done (- EAGAIN), msgs_read, s) }
     else do { s \<leftarrow> lis_freemsg mp s; Some (Done (- EBADMSG), msgs_read, s) } }"

subsection \<open>The system call\<close>

partial_function (option) rd_loop ::
  "henv \<Rightarrow> u32 \<Rightarrow> u64 \<Rightarrow> ptr \<Rightarrow> ptr \<Rightarrow> ptr \<Rightarrow> int \<Rightarrow> int \<Rightarrow> lis \<Rightarrow> (int \<times> lis) option" where
  "rd_loop e fl ulen hdp rq ubuff count msgs_read s = do {
     (err, s) \<leftarrow> lis_lockq (e_cur (h_env e)) rq s;
     if err < 0 then rd_return e hdp rq False False err s
     else do {
       s \<leftarrow> set_reading rq s;
       (w, s) \<leftarrow> rd_wait e fl (ucast ulen) hdp rq msgs_read False s;
       (case w of
          Ret err isr ql \<Rightarrow> rd_return e hdp rq isr ql err s
        | Go \<Rightarrow> do {
            s \<leftarrow> clr_reading rq s;
            (mp, s) \<leftarrow> lis_getq rq s;
            s \<leftarrow> lis_check_m_sig hdp s;
            s \<leftarrow> lis_unlockq (e_cur (h_env e)) rq s;
            if mp = NULL then rd_return e hdp rq False False count s
            else do {
              (st, msgs_read, s) \<leftarrow> rd_message e hdp ulen mp ubuff count msgs_read (LisDownCount MSGQDSTRHD s);
              (case st of
                 Done err \<Rightarrow> rd_return e hdp rq False False err s
               | Again ubuff count \<Rightarrow> rd_loop e fl ulen hdp rq ubuff count msgs_read s) } }) } }"

definition lis_strread :: "henv \<Rightarrow> u32 \<Rightarrow> ptr \<Rightarrow> ptr \<Rightarrow> u64 \<Rightarrow> lis \<Rightarrow> (int \<times> lis) option" where
  "lis_strread e fl hdp ubuff ulen s =
     (if hdp = NULL then Some (- ENODEV, s)
      else do {
        s \<leftarrow> lis_head_get hdp s;
        (err, s) \<leftarrow> lis_sleep_on_read_sem e hdp s;
        if err < 0 then Some (err, s)
        else do {
          (err, s) \<leftarrow> Some (lis_check_umem s);
          if err < 0 then rd_return e hdp NULL False False err s
          else do {
            h \<leftarrow> sds s hdp;
            if F_ISSET (sd_flag h) STPLEX then rd_return e hdp NULL False False (- EINVAL) s
            else do {
              ok \<leftarrow> q_magic_ok (sd_rq h) s;
              if \<not> ok then rd_return e hdp (sd_rq h) False False (- EINVAL) s
              else rd_loop e fl ulen hdp (sd_rq h) ubuff 0 0 s } } } })"

end
