(* ===== verification/LiS_HeadMsg.thy ===== *)
theory LiS_HeadMsg
  imports LiS_HeadRead LiS_MsgUtl
begin

text \<open>
  Messages between a user and a stream: \<open>lis_strputpmsg\<close> and \<open>lis_strgetpmsg\<close> of \<open>head/head.c\<close>, with the
  copying of their parts.  A \<open>strbuf_t\<close> in the user's memory has \<open>maxlen\<close> at 0, \<open>len\<close> at 4 and \<open>buf\<close> at 8.
\<close>

unbundle bit_operations_syntax

abbreviation (input) EIO :: int where "EIO \<equiv> 5"
abbreviation (input) ERANGE :: int where "ERANGE \<equiv> 34"
abbreviation (input) INFPSZ :: int where "INFPSZ \<equiv> -1"
abbreviation (input) MORECTL :: int where "MORECTL \<equiv> 1"
abbreviation (input) MOREDATA :: int where "MOREDATA \<equiv> 2"
abbreviation (input) WRITECNT :: nat where "WRITECNT \<equiv> 25"


definition STFIFO :: u64 where "STFIFO = 0x00000002"
definition FL_OLDNDELAY :: u32 where "FL_OLDNDELAY = 0x00200000"
definition MSG_HIPRI :: u32 where "MSG_HIPRI = 0x01"
definition MSG_ANY :: u32 where "MSG_ANY = 0x02"
definition MSG_BAND :: u32 where "MSG_BAND = 0x04"
definition RS_HIPRI :: u32 where "RS_HIPRI = 0x01"

lemmas msg_flag_defs = MSG_HIPRI_def MSG_ANY_def MSG_BAND_def RS_HIPRI_def

record strbuf =
  sb_maxlen :: int
  sb_len :: int
  sb_buf :: ptr

subsection \<open>Structures in user memory\<close>

definition umem_u32 :: "lis \<Rightarrow> ptr \<Rightarrow> u32" where
  "umem_u32 s p =
     (let b = (\<lambda>i. uint (umem (hds s) (p + i))) in
      word_of_int (b 0 + 2 ^ 8 * b 1 + 2 ^ 16 * b 2 + 2 ^ 24 * b 3))"

definition umem_ptr :: "lis \<Rightarrow> ptr \<Rightarrow> ptr" where
  "umem_ptr s p = unat (umem_u32 s p) + 2 ^ 32 * unat (umem_u32 s (p + 4))"

fun le_bytes :: "nat \<Rightarrow> nat \<Rightarrow> u8 list" where
  "le_bytes 0 v = []"
| "le_bytes (Suc n) v = of_nat (v mod 256) # le_bytes n (v div 256)"

definition user_put :: "ptr \<Rightarrow> u8 list \<Rightarrow> lis \<Rightarrow> int \<times> lis" where
  "user_put p bs s =
     (case user_access s of (ok, s) \<Rightarrow>
        if ok
        then (0, upd_hds (\<lambda>x. x\<lparr>umem := (\<lambda>a. if p \<le> a \<and> a < p + length bs then bs ! (a - p) else umem x a)\<rparr>) s)
        else (- EFAULT, s))"

definition copyin_u32 :: "ptr \<Rightarrow> lis \<Rightarrow> int \<times> u32 \<times> lis" where
  "copyin_u32 p s = (case user_access s of (ok, s) \<Rightarrow> (if ok then 0 else - EFAULT, umem_u32 s p, s))"

definition copyin_strbuf :: "ptr \<Rightarrow> lis \<Rightarrow> int \<times> strbuf \<times> lis" where
  "copyin_strbuf p s =
     (case user_access s of (ok, s) \<Rightarrow>
        (if ok then 0 else - EFAULT,
         \<lparr>sb_maxlen = sint (umem_u32 s p), sb_len = sint (umem_u32 s (p + 4)), sb_buf = umem_ptr s (p + 8)\<rparr>, s))"

definition u32_nat :: "int \<Rightarrow> nat" where
  "u32_nat n = unat (word_of_int n :: u32)"

definition copyout_strbuf :: "ptr \<Rightarrow> strbuf \<Rightarrow> lis \<Rightarrow> int \<times> lis" where
  "copyout_strbuf p sb s =
     user_put p (le_bytes 4 (u32_nat (sb_maxlen sb)) @ le_bytes 4 (u32_nat (sb_len sb)) @ le_bytes 8 (sb_buf sb)) s"

subsection \<open>From the user\<close>

text \<open>The checks of the size of a part against the queue below; faults are only reported.\<close>

definition part_range :: "ptr \<Rightarrow> int \<Rightarrow> lis \<Rightarrow> bool option" where
  "part_range hdp len s = do {
     h \<leftarrow> sds s hdp;
     if sd_wq h = NULL then Some True
     else do {
       W \<leftarrow> qs s (sd_wq h);
       if q_next W = NULL then Some True
       else do {
         N \<leftarrow> qs s (q_next W);
         Some (\<not> (len < c_int (q_minpsz N) \<or> q_maxpsz N \<noteq> INFPSZ \<and> len > c_int (q_maxpsz N))) } } }"

definition copyin_msgpart :: "ptr \<Rightarrow> ptr \<Rightarrow> int \<Rightarrow> lis \<Rightarrow> (int \<times> ptr \<times> lis) option" where
  "copyin_msgpart hdp sb wroff s = do {
     (err, s) \<leftarrow> Some (lis_check_umem s);
     if err < 0 then Some (err, NULL, s)
     else do {
       (err, kbuf, s) \<leftarrow> Some (copyin_strbuf sb s);
       if err < 0 then Some (err, NULL, s)
       else if sb_len kbuf < 0 \<or> sb_buf kbuf = NULL then Some (0, NULL, s)
       else do {
         h \<leftarrow> sds s hdp;
         if F_ISSET (sd_flag h) (STRHUP OR STRCLOSE) then Some (- EIO, NULL, s)
         else do {
           ok \<leftarrow> part_range hdp (sb_len kbuf) s;
           if \<not> ok then Some (- ERANGE, NULL, s)
           else do {
             (mp, s) \<leftarrow> lis_allocb (c_int (sb_len kbuf + wroff)) s;
             if mp = NULL then Some (- ENOMEM, NULL, s)
             else do {
               s \<leftarrow> upd_mb mp (\<lambda>m. m\<lparr>b_wptr := ptr_add (b_wptr m) wroff, b_rptr := ptr_add (b_wptr m) wroff\<rparr>) s;
               if sb_len kbuf > 0
               then do {
                 (err, s) \<leftarrow> Some (lis_check_umem s);
                 if err < 0 then Some (err, mp, s)
                 else do {
                   m \<leftarrow> mb s mp;
                   (err, s) \<leftarrow> Some (lis_copyin (b_wptr m) (sb_buf kbuf) (nat (sb_len kbuf)) s);
                   if err < 0 then Some (err, mp, s)
                   else do {
                     s \<leftarrow> upd_mb mp (\<lambda>m. m\<lparr>b_wptr := ptr_add (b_wptr m) (sb_len kbuf)\<rparr>) s;
                     Some (0, mp, s) } } }
               else Some (0, mp, s) } } } } } }"

text \<open>The block of a data part that fails is not freed, as in the code.\<close>

definition copyin_msg :: "ptr \<Rightarrow> ptr \<Rightarrow> ptr \<Rightarrow> lis \<Rightarrow> (int \<times> ptr \<times> lis) option" where
  "copyin_msg hdp uctl udat s = do {
     (err, m, s) \<leftarrow> (if uctl \<noteq> NULL then copyin_msgpart hdp uctl 0 s else Some (0, NULL, s));
     if err < 0
     then do { s \<leftarrow> (if m \<noteq> NULL then lis_freeb m s else Some s); Some (err, NULL, s) }
     else do {
       s \<leftarrow> (if m \<noteq> NULL then set_btype m M_PROTO s else Some s);
       h \<leftarrow> sds s hdp;
       (err, aux, s) \<leftarrow> (if udat \<noteq> NULL then copyin_msgpart hdp udat (uint (sd_wroff h)) s else Some (0, NULL, s));
       if err < 0
       then do { s \<leftarrow> (if m \<noteq> NULL then lis_freeb m s else Some s); Some (err, NULL, s) }
       else if m = NULL \<and> aux = NULL then Some (0, NULL, s)
       else if m \<noteq> NULL \<and> aux \<noteq> NULL
       then do { s \<leftarrow> lis_linkb m aux s; Some (0, m, s) }
       else Some (0, if m = NULL then aux else m, s) } }"

text \<open>Which band and flags \<open>putpmsg\<close> and \<open>putmsg\<close> (\<open>band < 0\<close>) accept; the band may become 0.\<close>

definition put_args :: "int \<Rightarrow> u32 \<Rightarrow> int + int" where
  "put_args band flags =
     (if band \<ge> 0
      then if flags AND (MSG_HIPRI OR MSG_BAND) = MSG_HIPRI OR MSG_BAND then Inl (- EINVAL)
           else if flags AND NOT (MSG_HIPRI OR MSG_BAND) \<noteq> 0 then Inl (- EINVAL)
           else if flags = 0 then Inl (- EINVAL)
           else Inr (if F_ISSET flags MSG_HIPRI then 0 else band)
      else if flags AND NOT RS_HIPRI \<noteq> 0 then Inl (- EINVAL)
      else Inr band)"

text \<open>The priority of the message: false when it has been refused and freed.\<close>

definition put_priority :: "int \<Rightarrow> u32 \<Rightarrow> ptr \<Rightarrow> lis \<Rightarrow> (bool \<times> lis) option" where
  "put_priority band flags msg s =
     (if F_ISSET flags (if band \<ge> 0 then MSG_HIPRI else RS_HIPRI)
      then do {
        typ \<leftarrow> lis_btype msg s;
        if typ = M_PROTO
        then do { s \<leftarrow> set_btype msg M_PCPROTO s; Some (True, s) }
        else do { s \<leftarrow> lis_freemsg msg s; Some (False, s) } }
      else if band \<ge> 0 \<and> F_ISSET flags MSG_BAND
      then if band \<le> int LIS_MAX_BAND
           then do { s \<leftarrow> upd_mb msg (\<lambda>m. m\<lparr>b_band := word_of_int band\<rparr>) s; Some (True, s) }
           else do { s \<leftarrow> lis_freemsg msg s; Some (False, s) }
      else Some (True, s))"

text \<open>Waiting for room: the message can be sent, or it has been freed and the code is returned.\<close>

partial_function (option) put_wait :: "henv \<Rightarrow> u32 \<Rightarrow> int \<Rightarrow> ptr \<Rightarrow> ptr \<Rightarrow> lis \<Rightarrow> (bool \<times> int \<times> lis) option" where
  "put_wait e fl band hdp msg s = do {
     h \<leftarrow> sds s hdp;
     if F_ISSET (sd_flag h) STWRERR
     then do { s \<leftarrow> lis_freemsg msg s; Some (False, - sd_werror h, s) }
     else if F_ISSET (sd_flag h) (STRHUP OR STRCLOSE)
     then do { s \<leftarrow> lis_freemsg msg s; Some (False, - ENODEV, s) }
     else do {
       typ \<leftarrow> lis_btype msg s;
       if typ = M_PCPROTO then Some (True, 0, s)
       else do {
         (err, s) \<leftarrow> lis_lockq (e_cur (h_env e)) (sd_wq h) s;
         if err < 0 then do { s \<leftarrow> lis_freemsg msg s; Some (False, err, s) }
         else do {
           (couldput, s) \<leftarrow>
             (if sd_wrcnt h = 0 \<and> \<not> F_ISSET (sd_flag h) STRFROZEN
              then lis_bcanputnext (sd_wq h) (word_of_int (if band < 0 then 0 else band)) s
              else Some (0, s));
           if couldput \<noteq> 0
           then do { s \<leftarrow> lis_unlockq (e_cur (h_env e)) (sd_wq h) s; Some (True, 0, s) }
           else if fl AND (O_NONBLOCK OR FL_OLDNDELAY) = O_NONBLOCK
           then do {
             s \<leftarrow> lis_freemsg msg s;
             s \<leftarrow> lis_unlockq (e_cur (h_env e)) (sd_wq h) s;
             Some (False, - EAGAIN, s) }
           else do {
             (err, s) \<leftarrow> lis_sleep_on_wwrite e hdp s;
             if err < 0 then do { s \<leftarrow> lis_freemsg msg s; Some (False, err, s) }
             else do {
               s \<leftarrow> lis_unlockq (e_cur (h_env e)) (sd_wq h) s;
               put_wait e fl band hdp msg s } } } } } }"

definition put_return :: "ptr \<Rightarrow> int \<Rightarrow> lis \<Rightarrow> (int \<times> lis) option" where
  "put_return hdp err s = do {
     (_, s) \<leftarrow> lis_head_put hdp s;
     Some (err, lis_runqueues s) }"

text \<open>\<open>fifo_sync\<close> is the outcome of \<open>lis_fifo_write_sync\<close>, which looks for readers of a FIFO's inode.\<close>

definition lis_strputpmsg ::
  "henv \<Rightarrow> int \<Rightarrow> u32 \<Rightarrow> ptr \<Rightarrow> ptr \<Rightarrow> ptr \<Rightarrow> int \<Rightarrow> u32 \<Rightarrow> lis \<Rightarrow> (int \<times> lis) option" where
  "lis_strputpmsg e fifo_sync fl hdp ctl dat band flags s =
     (if hdp = NULL then Some (- ENODEV, s)
      else do {
        s \<leftarrow> lis_head_get hdp s;
        h \<leftarrow> sds s hdp;
        if F_ISSET (sd_flag h) STPLEX then put_return hdp (- EINVAL) s
        else if F_ISSET (sd_flag h) STFIFO \<and> fifo_sync < 0 then put_return hdp fifo_sync s
        else
          (case put_args band flags of
             Inl err \<Rightarrow> put_return hdp err s
           | Inr band \<Rightarrow> do {
               (err, msg, s) \<leftarrow> copyin_msg hdp ctl dat s;
               if err < 0
               then do { s \<leftarrow> (if msg \<noteq> NULL then lis_freemsg msg s else Some s); put_return hdp err s }
               else if msg = NULL
               then put_return hdp
                 (if flags AND (if band \<ge> 0 then NOT MSG_BAND else RS_HIPRI) \<noteq> 0 then - EINVAL else 0) s
               else do {
                 (ok, s) \<leftarrow> put_priority band flags msg s;
                 if \<not> ok then put_return hdp (- EINVAL) s
                 else do {
                   (send, err, s) \<leftarrow> put_wait e fl band hdp msg s;
                   if \<not> send then put_return hdp err s
                   else do {
                     h \<leftarrow> sds s hdp;
                     s \<leftarrow> lis_safe_putnext (h_env e) (sd_wq h) msg (LisUpCount WRITECNT s);
                     put_return hdp 0 s } } } }) })"

subsection \<open>To the user\<close>

text \<open>What the loop of \<open>copyout_msgpart\<close> finds out.\<close>

record copied =
  co_err :: int
  co_size :: "int option"
  co_gotsome :: bool
  co_seen :: bool
  co_len :: int

definition co_start :: copied where
  "co_start = \<lparr>co_err = 0, co_size = None, co_gotsome = False, co_seen = False, co_len = 0\<rparr>"

partial_function (option) copyout_loop ::
  "bool \<Rightarrow> bool \<Rightarrow> ptr \<Rightarrow> ptr \<Rightarrow> int \<Rightarrow> copied \<Rightarrow> lis \<Rightarrow> (copied \<times> lis) option" where
  "copyout_loop is_ctl doit m buf maxlen c s =
     (if m = NULL then Some (c, s)
      else do {
        mtype \<leftarrow> lis_btype m s;
        M \<leftarrow> mb s m;
        let right = (is_ctl = (mtype \<noteq> M_DATA));
        let c = c\<lparr>co_seen := True\<rparr>;
        c \<leftarrow> (if co_size c = None \<and> right
             then do { mlen \<leftarrow> lis_xmsgsize m s; Some (c\<lparr>co_size := Some mlen\<rparr>) }
             else Some c);
        if co_size c = None then copyout_loop is_ctl doit (b_cont M) buf maxlen c s
        else if is_ctl \<and> mtype = M_DATA then Some (c, s)
        else if \<not> is_ctl \<and> mtype \<noteq> M_DATA then copyout_loop is_ctl doit (b_cont M) buf maxlen c s
        else do {
          let c = c\<lparr>co_gotsome := True\<rparr>;
          if maxlen < 0 then Some (c, s)
          else do {
            let chunk = c_int (min maxlen (int (b_wptr M) - int (b_rptr M)));
            (err, s) \<leftarrow>
              Some (if chunk > 0 then lis_copyout (b_rptr M) (ptr_add buf (co_len c)) (nat chunk) s else (0, s));
            if err < 0 then Some (c\<lparr>co_err := err\<rparr>, s)
            else do {
              s \<leftarrow> (if doit then do { (_, s) \<leftarrow> lis_adjmsg m chunk s; Some s } else Some s);
              let c = c\<lparr>co_len := co_len c + chunk\<rparr>;
              M \<leftarrow> mb s m;
              if maxlen - chunk \<le> 0 then Some (c, s)
              else copyout_loop is_ctl doit (b_cont M) buf (maxlen - chunk) c s } } } })"

text \<open>The code, the structure as it is afterwards, and the state; without \<open>doit\<close> it is the caller's.\<close>

definition copyout_msgpart :: "bool \<Rightarrow> bool \<Rightarrow> ptr \<Rightarrow> strbuf \<Rightarrow> ptr \<Rightarrow> lis \<Rightarrow> (int \<times> strbuf \<times> lis) option" where
  "copyout_msgpart is_ctl doit m sb usb s = do {
     (err, s) \<leftarrow> Some (if doit \<and> usb \<noteq> NULL then lis_check_umem s else (0, s));
     if err < 0 then Some (err, sb, s)
     else do {
       (err, s) \<leftarrow> Some (if sb_maxlen sb \<ge> 0 then lis_check_umem s else (0, s));
       if err < 0 then Some (err, sb, s)
       else do {
         (c, s) \<leftarrow> copyout_loop is_ctl doit m (sb_buf sb) (sb_maxlen sb) co_start s;
         if co_err c < 0 then Some (co_err c, sb, s)
         else do {
           let sb = (if co_gotsome c then sb\<lparr>sb_len := co_len c\<rparr>
                     else if co_seen c then sb\<lparr>sb_len := -1\<rparr> else sb);
           let rtn = (if co_gotsome c \<and> sb_len sb < the (co_size c)
                      then if is_ctl then MORECTL else MOREDATA else 0);
           (err, s) \<leftarrow> Some (if doit \<and> usb \<noteq> NULL then copyout_strbuf usb sb s else (0, s));
           Some (if err < 0 then err else rtn, sb, s) } } } }"

definition copyout_msg :: "bool \<Rightarrow> ptr \<Rightarrow> strbuf \<Rightarrow> strbuf \<Rightarrow> ptr \<Rightarrow> ptr \<Rightarrow> lis
    \<Rightarrow> (int \<times> strbuf \<times> strbuf \<times> lis) option" where
  "copyout_msg doit m kctl kdta uctl udta s = do {
     (errctl, kctl, s) \<leftarrow> copyout_msgpart True doit m kctl uctl s;
     if errctl < 0 then Some (errctl, kctl, kdta, s)
     else do {
       (errdta, kdta, s) \<leftarrow> copyout_msgpart False doit m kdta udta s;
       Some (if errdta < 0 then errdta else or errctl errdta, kctl, kdta, s) } }"

subsection \<open>Getting a message\<close>

text \<open>The wait of a \<open>getmsg\<close> with the queue locked; the flag tells whether it still is.\<close>

partial_function (option) get_wait :: "henv \<Rightarrow> u32 \<Rightarrow> ptr \<Rightarrow> ptr \<Rightarrow> lis \<Rightarrow> (int \<times> bool \<times> lis) option" where
  "get_wait e fl hdp rdq s = do {
     Q \<leftarrow> qs s rdq;
     h \<leftarrow> sds s hdp;
     if q_first Q = NULL \<and> sd_flag h AND (STRHUP OR STRDERR OR STRCLOSE) = 0
     then if F_ISSET fl O_NONBLOCK then Some (- EAGAIN, True, s)
          else do {
            (err, s) \<leftarrow> lis_sleep_on_wread e hdp s;
            if err < 0 then Some (err, False, s) else get_wait e fl hdp rdq s }
     else Some (0, True, s) }"

text \<open>
  Which message \<open>getmsg\<close> (\<open>bandp\<close> null) and \<open>getpmsg\<close> accept of an ordinary message in band \<open>mband\<close>:
  the flags for the return, or the error.
\<close>

definition get_flags :: "bool \<Rightarrow> u32 \<Rightarrow> int \<Rightarrow> u8 \<Rightarrow> int + u32" where
  "get_flags getpmsg flags band mband =
     (if flags = MSG_HIPRI then Inl (- EBADMSG)
      else if flags = MSG_BAND
      then if \<not> getpmsg then Inl (- EINVAL)
           else if mband < word_of_int band then Inl (- EBADMSG)
           else Inr flags
      else if flags = MSG_ANY
      then if \<not> getpmsg then Inl (- EINVAL) else Inr MSG_BAND
      else if flags \<noteq> 0 \<or> getpmsg then Inl (- EINVAL)
      else Inr flags)"

text \<open>
  The values \<open>getpmsg\<close> works on: the parts, the flags and the band.  For \<open>I_PEEK\<close> (\<open>doit\<close> false) they are
  the caller's, in kernel memory; the other arguments are addresses in user memory.
\<close>

record gmsg =
  g_ctl :: strbuf
  g_dat :: strbuf
  g_flags :: u32
  g_band :: int

record gargs =
  a_doit :: bool
  a_ctl :: ptr
  a_dat :: ptr
  a_bandp :: ptr
  a_flagsp :: ptr

definition no_strbuf :: strbuf where
  "no_strbuf = \<lparr>sb_maxlen = -1, sb_len = -1, sb_buf = NULL\<rparr>"

text \<open>\<open>err_return_point\<close>.\<close>

definition get_err_return ::
  "henv \<Rightarrow> ptr \<Rightarrow> ptr \<Rightarrow> bool \<Rightarrow> bool \<Rightarrow> int \<Rightarrow> gmsg \<Rightarrow> lis \<Rightarrow> (int \<times> gmsg \<times> lis) option" where
  "get_err_return e hdp rdq qreading qlocked ret g s = do {
     s \<leftarrow> (if rdq \<noteq> NULL \<and> qreading then clr_reading rdq s else Some s);
     s \<leftarrow> (if rdq \<noteq> NULL \<and> qlocked then lis_unlockq (e_cur (h_env e)) rdq s else Some s);
     s \<leftarrow> lis_wake_up_read_sem hdp s;
     (_, s) \<leftarrow> lis_head_put hdp s;
     Some (ret, g, lis_runqueues s) }"

text \<open>\<open>return_point\<close>, where the queue is locked.\<close>

definition get_return ::
  "henv \<Rightarrow> gargs \<Rightarrow> ptr \<Rightarrow> ptr \<Rightarrow> bool \<Rightarrow> int \<Rightarrow> int \<Rightarrow> gmsg \<Rightarrow> lis \<Rightarrow> (int \<times> gmsg \<times> lis) option" where
  "get_return e a hdp rdq qreading err rtn g s = do {
     s \<leftarrow> lis_check_m_sig hdp s;
     s \<leftarrow> lis_unlockq (e_cur (h_env e)) rdq s;
     let good = (err = 0 \<and> rtn \<ge> 0);
     let g = (if good \<and> (\<not> a_doit a \<or> a_bandp a = NULL)
              then g\<lparr>g_flags := (if g_flags g = MSG_HIPRI then RS_HIPRI else 0)\<rparr> else g);
     (err, s) \<leftarrow>
       Some (if good \<and> a_doit a
             then (case lis_check_umem s of (err, s) \<Rightarrow>
                     if err = 0 then user_put (a_flagsp a) (le_bytes 4 (unat (g_flags g))) s else (err, s))
             else (err, s));
     (err, s) \<leftarrow>
       Some (if err = 0 \<and> rtn \<ge> 0 \<and> a_doit a \<and> a_bandp a \<noteq> NULL
             then (case lis_check_umem s of (err, s) \<Rightarrow>
                     if err = 0 then user_put (a_bandp a) (le_bytes 4 (u32_nat (g_band g))) s else (err, s))
             else (err, s));
     get_err_return e hdp rdq qreading False (if err \<noteq> 0 then err else rtn) g s }"

text \<open>An empty queue.\<close>

definition get_empty :: "henv \<Rightarrow> gargs \<Rightarrow> ptr \<Rightarrow> ptr \<Rightarrow> gmsg \<Rightarrow> lis \<Rightarrow> (int \<times> gmsg \<times> lis) option" where
  "get_empty e a hdp rdq g s = do {
     h \<leftarrow> sds s hdp;
     let hup = F_ISSET (sd_flag h) (STRHUP OR STRCLOSE);
     let len = (if hup then 0 else -1);
     let err = (if \<not> hup \<and> F_ISSET (sd_flag h) STRDERR then - sd_rerror h else 0);
     (rtn, kctl, kdat, s) \<leftarrow>
       copyout_msg (a_doit a) NULL ((g_ctl g)\<lparr>sb_len := len\<rparr>) ((g_dat g)\<lparr>sb_len := len\<rparr>) (a_ctl a) (a_dat a) s;
     get_return e a hdp rdq True err rtn (g\<lparr>g_ctl := kctl, g_dat := kdat\<rparr>) s }"

text \<open>The end of both calls: the message \<open>mp\<close> is copied out, then put back or freed.\<close>

definition get_copy :: "henv \<Rightarrow> gargs \<Rightarrow> ptr \<Rightarrow> ptr \<Rightarrow> ptr \<Rightarrow> gmsg \<Rightarrow> lis \<Rightarrow> (int \<times> gmsg \<times> lis) option" where
  "get_copy e a hdp rdq mp g s = do {
     (rtn, kctl, kdat, s) \<leftarrow> copyout_msg (a_doit a) mp (g_ctl g) (g_dat g) (a_ctl a) (a_dat a) s;
     let g = g\<lparr>g_ctl := kctl, g_dat := kdat\<rparr>;
     if rtn < 0
     then do { s \<leftarrow> lis_freemsg mp s; get_return e a hdp rdq False 0 rtn g s }
     else if a_doit a
     then do {
       let s = LisUpCount READCNT s;
       s \<leftarrow> (if rtn \<noteq> 0 then lis_requeue hdp mp s else lis_freemsg mp s);
       get_return e a hdp rdq False 0 rtn g s }
     else do {
       let rtn = (if sb_len kctl \<ge> 0 \<or> sb_len kdat \<ge> 0 then 1 else 0);
       s \<leftarrow> lis_freemsg mp s;
       get_return e a hdp rdq False 0 rtn g s } }"

text \<open>\<open>getmsg\<close> and \<open>getpmsg\<close> take the message out of the queue.\<close>

definition get_take ::
  "henv \<Rightarrow> gargs \<Rightarrow> ptr \<Rightarrow> ptr \<Rightarrow> ptr \<Rightarrow> u8 \<Rightarrow> gmsg \<Rightarrow> lis \<Rightarrow> (int \<times> gmsg \<times> lis) option" where
  "get_take e a hdp rdq mp mtype g s = do {
     m \<leftarrow> mb s mp;
     s \<leftarrow> (if lis_hipri mtype then CLR_SD_FLAG hdp STRPRI s else Some s);
     (case (if lis_hipri mtype then Inr MSG_HIPRI
            else get_flags (a_bandp a \<noteq> NULL) (g_flags g) (g_band g) (b_band m)) of
        Inl err \<Rightarrow> get_return e a hdp rdq True err 0 g s
      | Inr fl \<Rightarrow> do {
          let g = g\<lparr>g_flags := fl, g_band := (if lis_hipri mtype then 0 else uint (b_band m))\<rparr>;
          (mp, s) \<leftarrow> lis_getq rdq s;
          if mp = NULL then get_return e a hdp rdq True (- EINVAL) 0 g s
          else do {
            s \<leftarrow> clr_reading rdq s;
            let s = LisDownCount MSGQDSTRHD s;
            if mtype = M_SIG
            then do {
              s \<leftarrow> lis_requeue hdp mp s;
              s \<leftarrow> lis_check_m_sig hdp s;
              get_return e a hdp rdq False (- EAGAIN) 0 g s }
            else get_copy e a hdp rdq mp g s } }) }"

text \<open>\<open>I_PEEK\<close> looks at a duplicate.\<close>

definition get_peek ::
  "henv \<Rightarrow> gargs \<Rightarrow> ptr \<Rightarrow> ptr \<Rightarrow> ptr \<Rightarrow> u8 \<Rightarrow> gmsg \<Rightarrow> lis \<Rightarrow> (int \<times> gmsg \<times> lis) option" where
  "get_peek e a hdp rdq mp mtype g s =
     (if mtype = M_SIG
      then do { s \<leftarrow> lis_check_m_sig hdp s; get_return e a hdp rdq True (- EAGAIN) 0 g s }
      else if \<not> lis_hipri mtype \<and> g_flags g = RS_HIPRI then get_return e a hdp rdq True (- EBADMSG) 0 g s
      else do {
        let g = g\<lparr>g_flags := (if lis_hipri mtype then MSG_HIPRI else MSG_BAND)\<rparr>;
        (mp, s) \<leftarrow> lis_dupmsg mp s;
        if mp = NULL then get_return e a hdp rdq True (- ENOMEM) 0 g s
        else do { s \<leftarrow> clr_reading rdq s; get_copy e a hdp rdq mp g s } })"

text \<open>From the lock of the queue on.\<close>

definition get_locked :: "henv \<Rightarrow> gargs \<Rightarrow> ptr \<Rightarrow> ptr \<Rightarrow> gmsg \<Rightarrow> lis \<Rightarrow> (int \<times> gmsg \<times> lis) option" where
  "get_locked e a hdp rdq g s = do {
     s \<leftarrow> set_reading rdq s;
     Q \<leftarrow> qs s rdq;
     let mp = q_first Q;
     if mp = NULL then get_empty e a hdp rdq g s
     else do {
       mtype \<leftarrow> lis_btype mp s;
       if mtype = M_PASSFP
       then do {
         (mp, s) \<leftarrow> lis_getq rdq s;
         s \<leftarrow> e_free_passfp (h_env e) mp (LisDownCount MSGQDSTRHD s);
         s \<leftarrow> lis_check_m_sig hdp s;
         get_return e a hdp rdq True (- EBADMSG) 0 g s }
       else if mtype \<notin> {M_DATA, M_PROTO, M_PCPROTO, M_SIG} then get_return e a hdp rdq True (- EBADMSG) 0 g s
       else if a_doit a then get_take e a hdp rdq mp mtype g s
       else get_peek e a hdp rdq mp mtype g s } }"

text \<open>The addresses a \<open>getmsg\<close> checks, and the structures it fetches.\<close>

definition check_if :: "bool \<Rightarrow> int \<times> lis \<Rightarrow> int \<times> lis" where
  "check_if c r = (case r of (err, s) \<Rightarrow> if err < 0 \<or> \<not> c then (err, s) else lis_check_umem s)"

definition get_check :: "gargs \<Rightarrow> lis \<Rightarrow> int \<times> lis" where
  "get_check a s =
     (case check_if (a_dat a \<noteq> NULL) (check_if (a_ctl a \<noteq> NULL) (0, s)) of (err, s) \<Rightarrow>
        if err < 0 then (err, s)
        else if a_flagsp a = NULL then (- EFAULT, s)
        else check_if (a_bandp a \<noteq> NULL) (check_if True (0, s)))"

definition get_fetch :: "gargs \<Rightarrow> lis \<Rightarrow> int \<times> gmsg \<times> lis" where
  "get_fetch a s =
     (case (if a_ctl a \<noteq> NULL then copyin_strbuf (a_ctl a) s else (0, no_strbuf, s)) of (err, kctl, s) \<Rightarrow>
      let g = \<lparr>g_ctl = kctl, g_dat = no_strbuf, g_flags = 0, g_band = 0\<rparr> in
      if err < 0 then (err, g, s)
      else (case (if a_dat a \<noteq> NULL then copyin_strbuf (a_dat a) s else (0, no_strbuf, s)) of (err, kdat, s) \<Rightarrow>
      let g = g\<lparr>g_dat := kdat\<rparr> in
      if err < 0 then (err, g, s)
      else (case copyin_u32 (a_flagsp a) s of (err, flags, s) \<Rightarrow>
      let g = g\<lparr>g_flags := flags\<rparr> in
      if err < 0 then (err, g, s)
      else if a_bandp a = NULL then (0, g, s)
      else (case copyin_u32 (a_bandp a) s of (err, band, s) \<Rightarrow> (err, g\<lparr>g_band := sint band\<rparr>, s)))))"

definition lis_strgetpmsg ::
  "henv \<Rightarrow> u32 \<Rightarrow> ptr \<Rightarrow> gargs \<Rightarrow> gmsg \<Rightarrow> lis \<Rightarrow> (int \<times> gmsg \<times> lis) option" where
  "lis_strgetpmsg e fl hdp a g s =
     (if hdp = NULL then Some (- ENODEV, g, s)
      else do {
        s \<leftarrow> lis_head_get hdp s;
        (err, s) \<leftarrow> lis_sleep_on_read_sem e hdp s;
        if err < 0 then Some (err, g, s)
        else do {
          h \<leftarrow> sds s hdp;
          let rdq = sd_rq h;
          if F_ISSET (sd_flag h) STRDERR then get_err_return e hdp NULL False False (- sd_rerror h) g s
          else do {
            (err, s) \<leftarrow> Some (if a_doit a then get_check a s else (0, s));
            if err < 0 then get_err_return e hdp NULL False False err g s
            else if F_ISSET (sd_flag h) STPLEX then get_err_return e hdp NULL False False (- EINVAL) g s
            else do {
              ok \<leftarrow> q_magic_ok rdq s;
              if \<not> ok then get_err_return e hdp rdq False False (- EINVAL) g s
              else do {
                (err, g, s) \<leftarrow> Some (if a_doit a then get_fetch a s else (0, g, s));
                if err < 0 then get_err_return e hdp rdq False False err g s
                else do {
                  let waits = (a_doit a \<and> (sb_maxlen (g_ctl g) \<ge> 0 \<or> sb_maxlen (g_dat g) \<ge> 0));
                  (err, s) \<leftarrow> lis_lockq (e_cur (h_env e)) rdq s;
                  if err < 0 then get_err_return e hdp rdq False False err g s
                  else do {
                    (err, ql, s) \<leftarrow> (if waits then get_wait e fl hdp rdq s else Some (0, True, s));
                    if err < 0 then get_err_return e hdp rdq False ql err g s
                    else get_locked e a hdp rdq g s } } } } } } })"

end
