(* ===== verification/LiS_HeadWrite.thy ===== *)
theory LiS_HeadWrite
  imports LiS_HeadMsg
begin

text \<open>
  Writing to a stream, \<open>lis_strwrite\<close> of \<open>head/head.c\<close>: the data goes down in messages of at most
  \<open>sd_maxpsz\<close> bytes; with \<open>STRHOLD\<close> a message waits in \<open>sd_wmsg\<close> for more data until a timer puts the
  write queue on the scan list.
\<close>

unbundle bit_operations_syntax

abbreviation (input) MSGDELIM :: u16 where "MSGDELIM \<equiv> 0x04"

definition SNDZERO :: u32 where "SNDZERO = 0x001"

text \<open>
  \<open>add_to_scanl\<close>, which the timer calls.
\<close>

definition add_to_scanl :: "ptr \<Rightarrow> lis \<Rightarrow> lis option" where
  "add_to_scanl hdp s = do {
     h \<leftarrow> sds s hdp;
     let q = sd_wq h;
     s \<leftarrow> upd_sd hdp (\<lambda>h. h\<lparr>sd_scantimer := 0\<rparr>) s;
     Q \<leftarrow> qs s q;
     if F_ISSET (q_flag Q) (QSCAN OR QPROCSOFF) then Some s
     else do {
       s \<leftarrow> upd_q q (\<lambda>Q. Q\<lparr>q_flag := q_flag Q OR QSCAN\<rparr>) s;
       s \<leftarrow> lis_head_get hdp s;
       s \<leftarrow> (if scanqtail s \<noteq> NULL then upd_q (scanqtail s) (\<lambda>Q. Q\<lparr>q_scnxt := q\<rparr>) s
            else Some (s\<lparr>scanqhead := q\<rparr>));
       s \<leftarrow> upd_q q (\<lambda>Q. Q\<lparr>q_scnxt := NULL\<rparr>) s;
       Some (s\<lparr>scanqtail := q, runq_req_cnt := runq_req_cnt s + 1\<rparr>) } }"

definition start_scanl_timer :: "ptr \<Rightarrow> lis \<Rightarrow> lis option" where
  "start_scanl_timer hdp s = do {
     h \<leftarrow> sds s hdp;
     if sd_scantimer h = 0
     then do {
       let hnd = (case handles (hds s) of [] \<Rightarrow> - ENOMEM | n # _ \<Rightarrow> n);
       let s = upd_hds (\<lambda>x. x\<lparr>handles := tl (handles x), timed := timed x @ [hdp]\<rparr>) s;
       upd_sd hdp (\<lambda>h. h\<lparr>sd_scantimer := hnd\<rparr>) s }
     else Some s }"

definition stop_scanl_timer :: "ptr \<Rightarrow> lis \<Rightarrow> lis option" where
  "stop_scanl_timer hdp s = do {
     h \<leftarrow> sds s hdp;
     if sd_scantimer h \<noteq> 0
     then upd_sd hdp (\<lambda>h. h\<lparr>sd_scantimer := 0\<rparr>)
            (upd_hds (\<lambda>x. x\<lparr>untimed := untimed x @ [sd_scantimer h]\<rparr>) s)
     else Some s }"

text \<open>Room downstream: a code, or whether the loop goes around again.\<close>

definition write_room :: "henv \<Rightarrow> u32 \<Rightarrow> ptr \<Rightarrow> lis \<Rightarrow> ((int + bool) \<times> lis) option" where
  "write_room e fl hdp s = do {
     h \<leftarrow> sds s hdp;
     if F_ISSET (sd_flag h) STWRERR then Some (Inl (- sd_werror h), s)
     else if F_ISSET (sd_flag h) (STRHUP OR STRCLOSE) then Some (Inl (- ENODEV), s)
     else do {
       (err, s) \<leftarrow> lis_lockq (e_cur (h_env e)) (sd_wq h) s;
       if err < 0 then Some (Inl err, s)
       else do {
         (can, s) \<leftarrow> (if sd_wrcnt h \<noteq> 0 then Some (0, s) else lis_bcanputnext (sd_wq h) 0 s);
         if can = 0 \<or> F_ISSET (sd_flag h) STRFROZEN
         then if fl AND (O_NONBLOCK OR FL_OLDNDELAY) = O_NONBLOCK
              then do { s \<leftarrow> lis_unlockq (e_cur (h_env e)) (sd_wq h) s; Some (Inl (- EAGAIN), s) }
              else do {
                (err, s) \<leftarrow> lis_sleep_on_wwrite e hdp s;
                if err < 0 then Some (Inl err, s)
                else do { s \<leftarrow> lis_unlockq (e_cur (h_env e)) (sd_wq h) s; Some (Inr True, s) } }
         else do { s \<leftarrow> lis_unlockq (e_cur (h_env e)) (sd_wq h) s; Some (Inr False, s) } } } }"

text \<open>A new message, positioned behind the write offset; null if there is no memory.\<close>

definition write_new :: "ptr \<Rightarrow> int \<Rightarrow> lis \<Rightarrow> (ptr \<times> lis) option" where
  "write_new hdp chunk s = do {
     h \<leftarrow> sds s hdp;
     (held, s) \<leftarrow> lis_allocb (c_int (chunk + uint (sd_wroff h))) s;
     s \<leftarrow> upd_sd hdp (\<lambda>h. h\<lparr>sd_wmsg := held\<rparr>) s;
     if held = NULL then Some (NULL, s)
     else do {
       m \<leftarrow> mb s held;
       d \<leftarrow> db s (b_datap m);
       let p = db_base d + unat (sd_wroff h);
       s \<leftarrow> upd_mb held (\<lambda>m. m\<lparr>b_rptr := p, b_wptr := p\<rparr>) s;
       s \<leftarrow> (if F_ISSET (sd_flag h) STRDELIM then upd_mb held (\<lambda>m. m\<lparr>b_flag := b_flag m OR MSGDELIM\<rparr>) s
            else Some s);
       Some (held, s) } }"

text \<open>Sending the held message.\<close>

definition write_send :: "henv \<Rightarrow> ptr \<Rightarrow> lis \<Rightarrow> lis option" where
  "write_send e hdp s = do {
     s \<leftarrow> stop_scanl_timer hdp s;
     h \<leftarrow> sds s hdp;
     s \<leftarrow> lis_safe_putnext (h_env e) (sd_wq h) (sd_wmsg h) (LisUpCount WRITECNT s);
     s \<leftarrow> upd_sd hdp (\<lambda>h. h\<lparr>sd_wmsg := NULL\<rparr>) (lis_runqueues s);
     sd_up Sem_write hdp s }"

text \<open>The part of the loop under \<open>sd_write_sem\<close>: the user's pointer and the bytes written, or the code.\<close>

definition write_chunk ::
  "henv \<Rightarrow> ptr \<Rightarrow> u64 \<Rightarrow> ptr \<Rightarrow> int \<Rightarrow> lis \<Rightarrow> ((int + ptr \<times> int) \<times> lis) option" where
  "write_chunk e hdp ulen ubuff written s = do {
     (_, s) \<leftarrow> sd_down e Sem_write hdp s;
     h \<leftarrow> sds s hdp;
     let chunk = c_int (uint (min (word_of_int (c_int (sd_maxpsz h)) :: u64) (ulen - word_of_int written)));
     let newmsg = (sd_wmsg h = NULL);
     (held, s) \<leftarrow> (if newmsg then write_new hdp chunk s else Some (sd_wmsg h, s));
     if held = NULL
     then do {
       s \<leftarrow> sd_up Sem_write hdp s;
       Some (Inl (if written \<noteq> 0 then written else - ENOMEM), s) }
     else do {
       m \<leftarrow> mb s held;
       d \<leftarrow> db s (b_datap m);
       if int (db_lim d) - int (b_wptr m) \<ge> chunk
       then do {
         (err, s) \<leftarrow> Some (lis_copyin (b_wptr m) ubuff (nat chunk) s);
         if err < 0 then do { s \<leftarrow> sd_up Sem_write hdp s; Some (Inl err, s) }
         else do {
           let written = c_int (written + chunk);
           s \<leftarrow> upd_mb held (\<lambda>m. m\<lparr>b_wptr := ptr_add (b_wptr m) chunk\<rparr>) s;
           if strhold (hds s) \<noteq> 0 \<and> F_ISSET (sd_flag h) STRHOLD
              \<and> int (db_lim d) - (int (b_wptr m) + chunk) > written
           then do {
             s \<leftarrow> (if newmsg then start_scanl_timer hdp s else Some s);
             s \<leftarrow> sd_up Sem_write hdp s;
             Some (Inl written, s) }
           else do { s \<leftarrow> write_send e hdp s; Some (Inr (ptr_add ubuff chunk, written), s) } } }
       else do { s \<leftarrow> write_send e hdp s; Some (Inr (ubuff, written), s) } } }"

partial_function (option) write_loop ::
  "henv \<Rightarrow> u32 \<Rightarrow> ptr \<Rightarrow> u64 \<Rightarrow> ptr \<Rightarrow> int \<Rightarrow> lis \<Rightarrow> (int \<times> lis) option" where
  "write_loop e fl hdp ulen ubuff written s = do {
     (r, s) \<leftarrow> write_room e fl hdp s;
     (st, s) \<leftarrow>
       (case r of
          Inl err \<Rightarrow> Some (Inl err, s)
        | Inr True \<Rightarrow> Some (Inr (ubuff, written), s)
        | Inr False \<Rightarrow> write_chunk e hdp ulen ubuff written s);
     (case st of
        Inl err \<Rightarrow> Some (err, s)
      | Inr (ubuff, written) \<Rightarrow>
          if (word_of_int written :: u64) < ulen then write_loop e fl hdp ulen ubuff written s
          else Some (written, s)) }"

definition lis_strwrite :: "henv \<Rightarrow> int \<Rightarrow> u32 \<Rightarrow> ptr \<Rightarrow> ptr \<Rightarrow> u64 \<Rightarrow> lis \<Rightarrow> (int \<times> lis) option" where
  "lis_strwrite e fifo_sync fl hdp ubuff ulen s =
     (if hdp = NULL then Some (- ENODEV, s)
      else do {
        s \<leftarrow> lis_head_get hdp s;
        h \<leftarrow> sds s hdp;
        if ulen < word_of_int (sd_minpsz h) then put_return hdp (- EINVAL) s
        else if ulen = 0 \<and> \<not> F_ISSET (sd_wropt h) SNDZERO then put_return hdp 0 s
        else if F_ISSET (sd_flag h) STFIFO \<and> fifo_sync < 0 then put_return hdp fifo_sync s
        else do {
          (err, s) \<leftarrow> Some (lis_check_umem s);
          if err < 0 then put_return hdp err s
          else if F_ISSET (sd_flag h) STPLEX then put_return hdp (- EINVAL) s
          else do {
            (err, s) \<leftarrow> write_loop e fl hdp ulen ubuff 0 s;
            put_return hdp err s } } })"

end
