(* ===== verification/LiS_HeadList.thy ===== *)
theory LiS_HeadList
  imports LiS_HeadOps LiS_Events
begin

text \<open>
  The circular list of all stream heads, the numbers of multiplexed streams, and what is done to the
  queues of a whole stream: taking them off the lists of the scheduler before a close, freezing and
  unfreezing (\<open>head/head.c\<close>).
\<close>

unbundle bit_operations_syntax

subsection \<open>The list of stream heads\<close>

definition ins_stdata :: "ptr \<Rightarrow> lis \<Rightarrow> lis option" where
  "ins_stdata head s = do {
     let s = upd_hds (\<lambda>x. x\<lparr>stdata_cnt := stdata_cnt x + 1\<rparr>) s;
     let first = stdata_head (hds s);
     if first = NULL
     then do {
       s \<leftarrow> upd_sd head (\<lambda>h. h\<lparr>sd_next := head, sd_prev := head\<rparr>) s;
       Some (upd_hds (\<lambda>x. x\<lparr>stdata_head := head\<rparr>) s) }
     else do {
       s \<leftarrow> upd_sd head (\<lambda>h. h\<lparr>sd_next := first\<rparr>) s;
       F \<leftarrow> sds s first;
       s \<leftarrow> upd_sd head (\<lambda>h. h\<lparr>sd_prev := sd_prev F\<rparr>) s;
       s \<leftarrow> upd_sd (sd_prev F) (\<lambda>h. h\<lparr>sd_next := head\<rparr>) s;
       upd_sd first (\<lambda>h. h\<lparr>sd_prev := head\<rparr>) s } }"

definition rem_stdata :: "ptr \<Rightarrow> lis \<Rightarrow> lis option" where
  "rem_stdata head s = do {
     h \<leftarrow> sds s head;
     if sd_next h = NULL \<or> sd_prev h = NULL then Some s
     else do {
       let first = stdata_head (hds s);
       s \<leftarrow>
         (if first = NULL then Some s
          else do {
            let first = (if first = head then sd_next h else first);
            if first = head then Some (upd_hds (\<lambda>x. x\<lparr>stdata_head := NULL\<rparr>) s)
            else do {
              s \<leftarrow> upd_sd (sd_prev h) (\<lambda>k. k\<lparr>sd_next := sd_next h\<rparr>) s;
              h \<leftarrow> sds s head;
              s \<leftarrow> upd_sd (sd_next h) (\<lambda>k. k\<lparr>sd_prev := sd_prev h\<rparr>) s;
              Some (upd_hds (\<lambda>x. x\<lparr>stdata_head := first\<rparr>) s) } });
       let s = upd_hds (\<lambda>x. x\<lparr>stdata_cnt := stdata_cnt x - 1\<rparr>) s;
       upd_sd head (\<lambda>h. h\<lparr>sd_next := NULL, sd_prev := NULL\<rparr>) s } }"

subsection \<open>Numbers of multiplexed streams\<close>

definition lis_incr :: "int \<Rightarrow> int" where
  "lis_incr n = c_int (n + 1)"

text \<open>The search of a number in the list: what is left of the count when it stops.\<close>

partial_function (option) muxid_search :: "int \<Rightarrow> ptr \<Rightarrow> int \<Rightarrow> lis \<Rightarrow> int option" where
  "muxid_search my_id hdp n s =
     (if n > 0 \<or> hdp \<noteq> stdata_head (hds s)
      then do {
        h \<leftarrow> sds s hdp;
        if mx_index (sd_mux h) = my_id then Some n else muxid_search my_id (sd_next h) (n - 1) s }
      else Some n)"

partial_function (option) new_muxid :: "lis \<Rightarrow> (int \<times> lis) option" where
  "new_muxid s =
     (let my_id = lis_incr (muxid (hds s)) in
      if my_id < 0 then new_muxid (upd_hds (\<lambda>x. x\<lparr>muxid := 0\<rparr>) s)
      else (let s = upd_hds (\<lambda>x. x\<lparr>muxid := my_id\<rparr>) s in
        if stdata_head (hds s) = NULL then Some (my_id, s)
        else do {
          n \<leftarrow> muxid_search my_id (stdata_head (hds s)) (stdata_cnt (hds s)) s;
          if n = 0 then Some (my_id, s) else new_muxid s }))"

definition str_link_mux :: "ptr \<Rightarrow> ptr \<Rightarrow> int \<Rightarrow> lis \<Rightarrow> (int \<times> lis) option" where
  "str_link_mux hdp muxed cmd s = do {
     s \<leftarrow> upd_sd muxed (\<lambda>h. h\<lparr>sd_mux := (sd_mux h)\<lparr>mx_cmd := cmd\<rparr>\<rparr>) s;
     (n, s) \<leftarrow> new_muxid s;
     s \<leftarrow> upd_sd muxed (\<lambda>h. h\<lparr>sd_mux := (sd_mux h)\<lparr>mx_index := n\<rparr>\<rparr>) s;
     h \<leftarrow> sds s hdp;
     s \<leftarrow> upd_sd muxed (\<lambda>k. k\<lparr>sd_mux := (sd_mux k)\<lparr>mx_next := mx_hd (sd_mux h)\<rparr>\<rparr>) s;
     s \<leftarrow> upd_sd hdp (\<lambda>h. h\<lparr>sd_mux := (sd_mux h)\<lparr>mx_hd := muxed\<rparr>\<rparr>) s;
     m \<leftarrow> sds s muxed;
     Some (mx_index (sd_mux m), s) }"

subsection \<open>Off the lists of the scheduler\<close>

text \<open>The walk over the scan list, with \<open>prev\<close> trailing.\<close>

partial_function (option) descan_loop :: "ptr \<Rightarrow> ptr \<Rightarrow> ptr \<Rightarrow> lis \<Rightarrow> lis option" where
  "descan_loop wq p prev s =
     (if p = NULL then Some s
      else do {
        Q \<leftarrow> qs s p;
        if p = wq
        then if q_magic Q \<noteq> Q_MAGIC then Some s
             else do {
               let s = s\<lparr>runq_req_cnt := runq_req_cnt s - 1\<rparr>;
               s \<leftarrow> (if prev \<noteq> NULL then upd_q prev (\<lambda>P. P\<lparr>q_scnxt := q_scnxt Q\<rparr>) s
                    else Some (s\<lparr>scanqhead := q_scnxt Q\<rparr>));
               let s = (if scanqtail s = p then s\<lparr>scanqtail := prev\<rparr> else s);
               (_, s) \<leftarrow> lis_head_put (q_str Q) s;
               Q \<leftarrow> qs s p;
               descan_loop wq (q_scnxt Q) prev s }
        else descan_loop wq (q_scnxt Q) p s })"

text \<open>The walk over the run list for either queue of the pair.\<close>

partial_function (option) derun_loop :: "ptr \<Rightarrow> ptr \<Rightarrow> ptr \<Rightarrow> ptr \<Rightarrow> lis \<Rightarrow> lis option" where
  "derun_loop rq wq p prev s =
     (if p = NULL then Some s
      else do {
        Q \<leftarrow> qs s p;
        if p = rq \<or> p = wq
        then if q_magic Q \<noteq> Q_MAGIC then Some s
             else do {
               let s = s\<lparr>runq_req_cnt := runq_req_cnt s - 1\<rparr>;
               s \<leftarrow> (if prev \<noteq> NULL then upd_q prev (\<lambda>P. P\<lparr>q_link := q_link Q\<rparr>) s
                    else Some (s\<lparr>qhead := q_link Q\<rparr>));
               let s = (if qtail s = p then s\<lparr>qtail := prev\<rparr> else s);
               let s = LisDownCount QSCHEDS s;
               h \<leftarrow> sds s (q_str Q);
               s \<leftarrow> (if sd_magic h = STDATA_MAGIC \<and> (sd_wq h = p \<or> sd_rq h = p)
                    then do { (_, s) \<leftarrow> lis_head_put (q_str Q) s; Some s }
                    else Some s);
               Q \<leftarrow> qs s p;
               derun_loop rq wq (q_link Q) prev s }
        else derun_loop rq wq (q_link Q) p s })"

definition deschedule :: "ptr \<Rightarrow> lis \<Rightarrow> lis option" where
  "deschedule q s = do {
     rq \<leftarrow> lis_safe_RD q s;
     wq \<leftarrow> lis_safe_WR q s;
     W \<leftarrow> qs s wq;
     s \<leftarrow> (if F_ISSET (q_flag W) QSCAN
          then do {
            s \<leftarrow> descan_loop wq (scanqhead s) NULL s;
            upd_q wq (\<lambda>Q. Q\<lparr>q_scnxt := NULL, q_flag := q_flag Q AND NOT QSCAN\<rparr>) s }
          else Some s);
     W \<leftarrow> qs s wq;
     R \<leftarrow> qs s rq;
     if F_ISSET (q_flag W OR q_flag R) QENAB
     then do {
       s \<leftarrow> derun_loop rq wq (qhead s) NULL s;
       s \<leftarrow> upd_q wq (\<lambda>Q. Q\<lparr>q_link := NULL, q_flag := q_flag Q AND NOT QENAB\<rparr>) s;
       upd_q rq (\<lambda>Q. Q\<lparr>q_link := NULL, q_flag := q_flag Q AND NOT QENAB\<rparr>) s }
     else Some s }"

partial_function (option) mark_closing :: "ptr \<Rightarrow> lis \<Rightarrow> lis option" where
  "mark_closing wq s =
     (if wq = NULL then Some s
      else do {
        rq \<leftarrow> lis_safe_RD wq s;
        s \<leftarrow> upd_q wq (\<lambda>Q. Q\<lparr>q_flag := q_flag Q OR (QNOENB OR QCLOSING)\<rparr>) s;
        s \<leftarrow> upd_q rq (\<lambda>Q. Q\<lparr>q_flag := q_flag Q OR (QNOENB OR QCLOSING)\<rparr>) s;
        s \<leftarrow> deschedule wq s;
        W \<leftarrow> qs s wq;
        same \<leftarrow> (if q_next W \<noteq> NULL then lis_safe_SAMESTR wq s else Some False);
        if same then mark_closing (q_next W) s else Some s })"

subsection \<open>Freezing a stream\<close>

definition unfreeze_q :: "env \<Rightarrow> ptr \<Rightarrow> lis \<Rightarrow> lis option" where
  "unfreeze_q e q s = do {
     s \<leftarrow> upd_q q (\<lambda>Q. Q\<lparr>q_flag := q_flag Q AND NOT (QOPENING OR QFROZEN)\<rparr>) s;
     s \<leftarrow> lis_do_deferred_puts e q s;
     lis_retry_qenable q s }"

partial_function (option) wantenable_loop :: "env \<Rightarrow> ptr \<Rightarrow> lis \<Rightarrow> lis option" where
  "wantenable_loop e q s =
     (if q = NULL then Some s
      else do {
        s \<leftarrow> unfreeze_q e q s;
        oq \<leftarrow> lis_safe_OTHERQ q s;
        s \<leftarrow> (if oq \<noteq> NULL then unfreeze_q e oq s else Some s);
        Q \<leftarrow> qs s q;
        wantenable_loop e (q_next Q) s })"

definition check_for_wantenable :: "env \<Rightarrow> ptr \<Rightarrow> lis \<Rightarrow> lis option" where
  "check_for_wantenable e hdp s = do {
     s \<leftarrow> lis_head_get hdp s;
     h \<leftarrow> sds s hdp;
     s \<leftarrow> wantenable_loop e (sd_wq h) s;
     (_, s) \<leftarrow> lis_head_put hdp s;
     Some s }"

partial_function (option) freeze_loop :: "ptr \<Rightarrow> lis \<Rightarrow> lis option" where
  "freeze_loop q s =
     (if q = NULL then Some s
      else do {
        s \<leftarrow> upd_q q (\<lambda>Q. Q\<lparr>q_flag := q_flag Q OR QFROZEN\<rparr>) s;
        oq \<leftarrow> lis_safe_OTHERQ q s;
        s \<leftarrow> upd_q oq (\<lambda>Q. Q\<lparr>q_flag := q_flag Q OR QFROZEN\<rparr>) s;
        Q \<leftarrow> qs s q;
        freeze_loop (q_next Q) s })"

definition lis_freezestr :: "ptr \<Rightarrow> lis \<Rightarrow> lis option" where
  "lis_freezestr q s =
     (if q = NULL then Some s
      else do {
        Q \<leftarrow> qs s q;
        let hdp = q_str Q;
        if hdp = NULL then Some s
        else do {
          h \<leftarrow> sds s hdp;
          if F_ISSET (sd_flag h) STRFROZEN then Some s
          else do {
            s \<leftarrow> lis_head_get hdp s;
            s \<leftarrow> SET_SD_FLAG hdp STRFROZEN s;
            h \<leftarrow> sds s hdp;
            let peer = sd_peer h;
            s \<leftarrow> (if peer \<noteq> NULL \<and> peer \<noteq> hdp
                 then do {
                   p \<leftarrow> sds s peer;
                   if F_ISSET (sd_flag p) STRFROZEN then Some s
                   else do { s \<leftarrow> SET_SD_FLAG peer STRFROZEN s; lis_head_get peer s } }
                 else Some s);
            freeze_loop (sd_wq h) s } } })"

definition lis_unfreezestr :: "env \<Rightarrow> ptr \<Rightarrow> lis \<Rightarrow> lis option" where
  "lis_unfreezestr e q s =
     (if q = NULL then Some s
      else do {
        Q \<leftarrow> qs s q;
        let hdp = q_str Q;
        if hdp = NULL then Some s
        else do {
          h \<leftarrow> sds s hdp;
          if \<not> F_ISSET (sd_flag h) STRFROZEN then Some s
          else do {
            s \<leftarrow> check_for_wantenable e hdp s;
            s \<leftarrow> CLR_SD_FLAG hdp STRFROZEN s;
            h \<leftarrow> sds s hdp;
            let peer = sd_peer h;
            s \<leftarrow> (if peer \<noteq> NULL \<and> peer \<noteq> hdp
                 then do {
                   p \<leftarrow> sds s peer;
                   if F_ISSET (sd_flag p) STRFROZEN
                   then do {
                     s \<leftarrow> CLR_SD_FLAG peer STRFROZEN s;
                     (_, s) \<leftarrow> lis_head_put peer s;
                     Some s }
                   else Some s }
                 else Some s);
            s \<leftarrow> lis_wake_up_all_wwrite hdp s;
            (_, s) \<leftarrow> lis_head_put hdp s;
            Some s } } })"

end
