(* ===== verification/LiS_HeadSpec.thy ===== *)
theory LiS_HeadSpec
  imports LiS_HeadRput LiS_HeadRead LiS_Events
begin

text \<open>
  What waking, signalling and error reporting at the stream head promise: everyone who sleeps is
  released, the processes on the list of signals get those they asked for, and the answers to ioctls
  reach the one that waits for them.
\<close>

unbundle bit_operations_syntax

subsection \<open>Waking everyone\<close>

text \<open>A change of one stream head.\<close>

definition sd_set :: "ptr \<Rightarrow> stdata \<Rightarrow> lis \<Rightarrow> lis" where
  "sd_set hdp h s = s\<lparr>sds := (sds s)(hdp \<mapsto> h)\<rparr>"

lemma sds_sd_set [simp]: "sds (sd_set hdp h s) = (sds s)(hdp \<mapsto> h)"
  by (simp add: sd_set_def)

lemma sd_set_set [simp]: "sd_set hdp h (sd_set hdp k s) = sd_set hdp h s"
  by (simp add: sd_set_def)

lemma sd_set_id: "sds s hdp = Some h \<Longrightarrow> sd_set hdp h s = s"
  by (simp add: sd_set_def fun_upd_idem)

lemma hds_sd_set [simp]: "hds (sd_set hdp h s) = hds s"
  by (simp add: sd_set_def)

lemma upd_sd_set: "sds s hdp = Some h \<Longrightarrow> upd_sd hdp f s = Some (sd_set hdp (f h) s)"
  by (simp add: upd_sd_def sd_set_def)

lemma sd_flag_set:
  "sds s hdp = Some h \<Longrightarrow> SET_SD_FLAG hdp f s = Some (sd_set hdp (h\<lparr>sd_flag := sd_flag h OR f\<rparr>) s)"
  "sds s hdp = Some h \<Longrightarrow> CLR_SD_FLAG hdp f s = Some (sd_set hdp (h\<lparr>sd_flag := sd_flag h AND NOT f\<rparr>) s)"
  by (simp_all add: SET_SD_FLAG_def CLR_SD_FLAG_def upd_sd_set)

lemma sd_up_set: "sds s hdp = Some h \<Longrightarrow> sd_up x hdp s = Some (sd_set hdp (sem_upd x (\<lambda>n. n + 1) h) s)"
  by (simp add: sd_up_def upd_sd_set)


lemma wake_all_wread:
  "sds s hdp = Some h \<Longrightarrow> lis_wake_up_all_wread hdp s =
     Some (sd_set hdp (h\<lparr>sd_rdcnt := min 0 (sd_rdcnt h), sd_wread := sd_wread h + max 0 (sd_rdcnt h)\<rparr>) s)"
proof (induction "nat (sd_rdcnt h)" arbitrary: h s)
  case 0
  then show ?case by (simp add: lis_wake_up_all_wread.simps sd_set_id)
next
  case (Suc n)
  then have pos: "0 < sd_rdcnt h" by simp
  let ?h = "h\<lparr>sd_rdcnt := sd_rdcnt h - 1, sd_wread := sd_wread h + 1\<rparr>"
  have "lis_wake_up_all_wread hdp s = lis_wake_up_all_wread hdp (sd_set hdp ?h s)"
    using Suc.prems pos by (subst lis_wake_up_all_wread.simps) (simp add: upd_sd_set sd_up_set)
  also have "\<dots> = Some (sd_set hdp (?h\<lparr>sd_rdcnt := min 0 (sd_rdcnt ?h), sd_wread := sd_wread ?h + max 0 (sd_rdcnt ?h)\<rparr>)
      (sd_set hdp ?h s))"
    by (rule Suc.hyps(1)) (use Suc.hyps(2) in simp_all)
  finally show ?case using pos by simp
qed

lemma wake_all_wwrite:
  "sds s hdp = Some h \<Longrightarrow> lis_wake_up_all_wwrite hdp s =
     Some (sd_set hdp (h\<lparr>sd_wrcnt := min 0 (sd_wrcnt h), sd_wwrite := sd_wwrite h + max 0 (sd_wrcnt h)\<rparr>) s)"
proof (induction "nat (sd_wrcnt h)" arbitrary: h s)
  case 0
  then show ?case by (simp add: lis_wake_up_all_wwrite.simps sd_set_id)
next
  case (Suc n)
  then have pos: "0 < sd_wrcnt h" by simp
  let ?h = "h\<lparr>sd_wrcnt := sd_wrcnt h - 1, sd_wwrite := sd_wwrite h + 1\<rparr>"
  have "lis_wake_up_all_wwrite hdp s = lis_wake_up_all_wwrite hdp (sd_set hdp ?h s)"
    using Suc.prems pos by (subst lis_wake_up_all_wwrite.simps) (simp add: upd_sd_set sd_up_set)
  also have "\<dots> = Some (sd_set hdp (?h\<lparr>sd_wrcnt := min 0 (sd_wrcnt ?h), sd_wwrite := sd_wwrite ?h + max 0 (sd_wrcnt ?h)\<rparr>)
      (sd_set hdp ?h s))"
    by (rule Suc.hyps(1)) (use Suc.hyps(2) in simp_all)
  finally show ?case using pos by simp
qed

lemma wake_all_read_sem:
  "sds s hdp = Some h \<Longrightarrow> lis_wake_up_all_read_sem hdp s =
     Some (sd_set hdp (h\<lparr>sd_rdsemcnt := min 0 (sd_rdsemcnt h), sd_read_sem := sd_read_sem h + max 0 (sd_rdsemcnt h)\<rparr>) s)"
proof (induction "nat (sd_rdsemcnt h)" arbitrary: h s)
  case 0
  then show ?case by (simp add: lis_wake_up_all_read_sem.simps sd_set_id)
next
  case (Suc n)
  then have pos: "0 < sd_rdsemcnt h" by simp
  let ?h = "h\<lparr>sd_rdsemcnt := sd_rdsemcnt h - 1, sd_read_sem := sd_read_sem h + 1\<rparr>"
  have "lis_wake_up_all_read_sem hdp s = lis_wake_up_all_read_sem hdp (sd_set hdp ?h s)"
    using Suc.prems pos by (subst lis_wake_up_all_read_sem.simps) (simp add: upd_sd_set sd_up_set)
  also have "\<dots> = Some (sd_set hdp (?h\<lparr>sd_rdsemcnt := min 0 (sd_rdsemcnt ?h),
      sd_read_sem := sd_read_sem ?h + max 0 (sd_rdsemcnt ?h)\<rparr>) (sd_set hdp ?h s))"
    by (rule Suc.hyps(1)) (use Suc.hyps(2) in simp_all)
  finally show ?case using pos by simp
qed

subsection \<open>Signals\<close>

text \<open>The signals a process with mask \<open>evs\<close> gets for the events \<open>e\<close>.\<close>

definition sigs_for :: "int \<Rightarrow> u16 \<Rightarrow> u16 \<Rightarrow> (int \<times> int) list" where
  "sigs_for pid evs e =
     (if evs AND e = 0 then []
      else if evs AND S_BANDURG \<noteq> 0 \<and> evs AND S_RDBAND \<noteq> 0
      then (pid, SIGURG) # (if evs AND e AND NOT S_RDBAND = 0 then [] else [(pid, SIGPOLL)])
      else [(pid, SIGPOLL)])"

definition add_sigs :: "(int \<times> int) list \<Rightarrow> lis \<Rightarrow> lis" where
  "add_sigs xs s = upd_hds (\<lambda>x. x\<lparr>sigs := sigs x @ xs\<rparr>) s"

lemma add_sigs_simps [simp]:
  "add_sigs [] s = s" "add_sigs xs (add_sigs ys s) = add_sigs (ys @ xs) s"
  "evl (hds (add_sigs xs s)) = evl (hds s)" "sds (add_sigs xs s) = sds s"
  "sigs (hds (add_sigs xs s)) = sigs (hds s) @ xs" "sd_set hdp h (add_sigs xs s) = add_sigs xs (sd_set hdp h s)"
  by (simp_all add: add_sigs_def upd_hds_def sd_set_def)

lemma kill_one_sigs: "kill_one n e s = add_sigs (sigs_for (se_pid n) (se_evs n) e) s"
  by (simp add: kill_one_def sigs_for_def lis_kill_proc_def Let_def F_ISSET_def add_sigs_def upd_hds_def and.assoc)

lemma kill_loop_dl:
  "dl (ev_links (evl (hds s))) k p xs l h \<Longrightarrow> h \<notin> set xs \<Longrightarrow>
     kill_loop h p e s =
       Some (add_sigs (concat (map (\<lambda>x. sigs_for (ev_key (evl (hds s)) x) (ev_mask (evl (hds s)) x) e) xs)) s)"
proof (induction xs arbitrary: k p s)
  case Nil
  then show ?case by (simp add: kill_loop.simps)
next
  case (Cons x xs)
  then obtain n where n: "p = x" "ev_links (evl (hds s)) x = Some (n, k)" "dl (ev_links (evl (hds s))) x n xs l h" "h \<noteq> x"
    by auto
  from ev_linksD[OF n(2)] obtain c where c: "ev_heap (evl (hds s)) x = Some c" "se_next c = n" by blast
  have "kill_loop h n e (kill_one c e s) = Some (add_sigs (concat (map (\<lambda>x. sigs_for (ev_key (evl (hds s)) x)
      (ev_mask (evl (hds s)) x) e) xs)) (kill_one c e s))"
    using Cons.IH[of "kill_one c e s" x n] n(3) Cons.prems(2) by (simp add: kill_one_sigs)
  then show ?case using n c
    by (subst kill_loop.simps) (simp add: kill_one_sigs ev_key_def ev_mask_def)
qed

text \<open>Everyone on the list gets what his mask asks for, in the order of the processes.\<close>

lemma kill_procs_spec:
  assumes "elist (evl (hds s)) h xs"
  shows "kill_procs h e s =
    Some (add_sigs (concat (map (\<lambda>x. sigs_for (ev_key (evl (hds s)) x) (ev_mask (evl (hds s)) x) e) xs)) s)"
proof -
  from assms obtain f l where fl: "ev_links (evl (hds s)) h = Some (f, l)" "dl (ev_links (evl (hds s))) h f xs l h"
    "h \<notin> set xs" by (auto simp: elist_def ring_def)
  from ev_linksD[OF fl(1)] obtain c where "ev_heap (evl (hds s)) h = Some c" "se_next c = f" by blast
  then show ?thesis using kill_loop_dl[OF fl(2,3)] by (simp add: kill_procs_def)
qed

text \<open>Who has a node whose mask meets the events is signalled, and nobody else.\<close>

lemma sigs_for_iff: "(\<exists>sig. (pid, sig) \<in> set (sigs_for p evs e)) \<longleftrightarrow> p = pid \<and> evs AND e \<noteq> 0"
  by (auto simp: sigs_for_def)

lemma map_of_distinct:
  "distinct (map k xs) \<Longrightarrow> map_of (map (\<lambda>x. (k x, v x)) xs) a = Some b \<longleftrightarrow> (\<exists>x \<in> set xs. k x = a \<and> v x = b)"
  by (subst map_of_eq_Some_iff) (auto simp: comp_def)

lemma kill_procs_who:
  assumes "elist (evl (hds s)) h xs"
  shows "\<exists>new. kill_procs h e s = Some (add_sigs new s) \<and>
    (\<forall>pid. (\<exists>sig. (pid, sig) \<in> set new) \<longleftrightarrow> (\<exists>m. ev_map (evl (hds s)) xs pid = Some m \<and> m AND e \<noteq> 0))"
proof -
  have "distinct (map (ev_key (evl (hds s))) xs)"
    using assms by (simp add: elist_def strict_sorted_iff)
  then have "(\<exists>sig. (pid, sig) \<in> set (concat (map (\<lambda>x. sigs_for (ev_key (evl (hds s)) x) (ev_mask (evl (hds s)) x) e) xs))) \<longleftrightarrow>
      (\<exists>m. ev_map (evl (hds s)) xs pid = Some m \<and> m AND e \<noteq> 0)" for pid
    using sigs_for_iff[of pid] unfolding ev_map_def by (simp add: map_of_distinct) blast
  then show ?thesis using kill_procs_spec[OF assms, of e] by blast
qed

subsection \<open>Errors\<close>

text \<open>The error codes and flags that \<open>lis_stream_error\<close> sets, and the release of all sleepers.\<close>

definition set_rerror :: "int \<Rightarrow> stdata \<Rightarrow> stdata" where
  "set_rerror r h =
     (if r = 0 then h\<lparr>sd_rerror := 0, sd_flag := sd_flag h AND NOT STRDERR\<rparr>
      else if r > 0 \<and> r \<noteq> NOERROR then h\<lparr>sd_rerror := r, sd_flag := sd_flag h OR STRDERR\<rparr> else h)"

definition set_werror :: "int \<Rightarrow> stdata \<Rightarrow> stdata" where
  "set_werror r h =
     (if r = 0 then h\<lparr>sd_werror := 0, sd_flag := sd_flag h AND NOT STWRERR\<rparr>
      else if r > 0 \<and> r \<noteq> NOERROR then h\<lparr>sd_werror := r, sd_flag := sd_flag h OR STWRERR\<rparr> else h)"

definition all_woken :: "stdata \<Rightarrow> stdata" where
  "all_woken h = h\<lparr>sd_wrcnt := min 0 (sd_wrcnt h), sd_wwrite := sd_wwrite h + max 0 (sd_wrcnt h),
     sd_rdcnt := min 0 (sd_rdcnt h), sd_wread := sd_wread h + max 0 (sd_rdcnt h),
     sd_rdsemcnt := min 0 (sd_rdsemcnt h), sd_read_sem := sd_read_sem h + max 0 (sd_rdsemcnt h)\<rparr>"

definition ioc_woken :: "stdata \<Rightarrow> stdata" where
  "ioc_woken h = (if F_ISSET (sd_flag h) IOCWAIT then h\<lparr>sd_wiocing := sd_wiocing h + 1\<rparr> else h)"

text \<open>Nothing but signals and wake-ups of pollers.\<close>

definition notified :: "lis \<Rightarrow> lis \<Rightarrow> bool" where
  "notified s t \<longleftrightarrow> (\<exists>x y. t = upd_hds (\<lambda>z. z\<lparr>sigs := sigs z @ x, polled := polled z @ y\<rparr>) s)"

lemma sd_set_hds: "sd_set hdp h (upd_hds f s) = upd_hds f (sd_set hdp h s)"
  by (simp add: sd_set_def upd_hds_def)

lemma notified_refl [simp]: "notified s s"
  unfolding notified_def by (intro exI[of _ "[]"]) (simp add: upd_hds_def)

lemma notified_sds: "notified s t \<Longrightarrow> sds t = sds s \<and> evl (hds t) = evl (hds s)"
  by (auto simp: notified_def upd_hds_def)

lemma notified_trans: "notified s t \<Longrightarrow> notified t u \<Longrightarrow> notified s u"
  unfolding notified_def upd_hds_def
proof (elim exE)
  fix x y x' y'
  assume "t = s\<lparr>hds := (hds s)\<lparr>sigs := sigs (hds s) @ x, polled := polled (hds s) @ y\<rparr>\<rparr>"
    "u = t\<lparr>hds := (hds t)\<lparr>sigs := sigs (hds t) @ x', polled := polled (hds t) @ y'\<rparr>\<rparr>"
  then show "\<exists>x y. u = s\<lparr>hds := (hds s)\<lparr>sigs := sigs (hds s) @ x, polled := polled (hds s) @ y\<rparr>\<rparr>"
    by (intro exI[of _ "x @ x'"] exI[of _ "y @ y'"]) simp
qed

lemma notified_set: "notified s t \<Longrightarrow> notified (sd_set hdp h s) (sd_set hdp h t)"
  unfolding notified_def
proof (elim exE)
  fix x y
  assume "t = upd_hds (\<lambda>z. z\<lparr>sigs := sigs z @ x, polled := polled z @ y\<rparr>) s"
  then have "sd_set hdp h t = upd_hds (\<lambda>z. z\<lparr>sigs := sigs z @ x, polled := polled z @ y\<rparr>) (sd_set hdp h s)"
    by (simp only: sd_set_hds)
  then show "\<exists>x y. sd_set hdp h t = upd_hds (\<lambda>z. z\<lparr>sigs := sigs z @ x, polled := polled z @ y\<rparr>) (sd_set hdp h s)"
    by (intro exI)
qed

lemma signal_events_notified:
  assumes "sds s hdp = Some h" "F_ISSET (sd_sigflags h) (ucast ev) \<Longrightarrow> \<exists>xs. elist (evl (hds s)) (sd_siglist h) xs"
  shows "\<exists>t. signal_events hdp ev s = Some t \<and> notified s t"
proof (cases "F_ISSET (sd_sigflags h) (ucast ev)")
  case True
  with assms(2) obtain xs where "elist (evl (hds s)) (sd_siglist h) xs" by blast
  from kill_procs_spec[OF this, of ev] obtain ys where "kill_procs (sd_siglist h) ev s = Some (add_sigs ys s)" by simp
  moreover have "notified s (add_sigs ys s)"
    unfolding notified_def by (rule exI[of _ ys], rule exI[of _ "[]"]) (simp add: add_sigs_def upd_hds_def)
  ultimately show ?thesis using assms(1) True by (simp add: signal_events_def)
qed (use assms(1) in \<open>simp add: signal_events_def\<close>)

lemma wake_pollers_notified:
  assumes "sds s hdp = Some h"
  shows "\<exists>t. wake_pollers hdp s = Some t \<and> notified s t"
proof -
  have "notified s (lis_wake_up_poll hdp s)"
    unfolding notified_def by (rule exI[of _ "[]"], rule exI[of _ "[hdp]"]) (simp add: lis_wake_up_poll_def upd_hds_def)
  then show ?thesis using assms by (simp add: wake_pollers_def)
qed

lemma rerror_run:
  assumes "sds s hdp = Some h"
  shows "(if r = 0
     then do { s \<leftarrow> upd_sd hdp (\<lambda>h. h\<lparr>sd_rerror := 0\<rparr>) s; CLR_SD_FLAG hdp STRDERR s }
     else if r > 0 \<and> r \<noteq> NOERROR
     then do { s \<leftarrow> upd_sd hdp (\<lambda>h. h\<lparr>sd_rerror := r\<rparr>) s; SET_SD_FLAG hdp STRDERR s }
     else Some s) = Some (sd_set hdp (set_rerror r h) s)"
  unfolding set_rerror_def using sd_set_id[OF assms]
  by (simp add: upd_sd_set[OF assms] sd_flag_set)

lemma werror_run:
  assumes "sds s hdp = Some h"
  shows "(if r = 0
     then do { s \<leftarrow> upd_sd hdp (\<lambda>h. h\<lparr>sd_werror := 0\<rparr>) s; CLR_SD_FLAG hdp STWRERR s }
     else if r > 0 \<and> r \<noteq> NOERROR
     then do { s \<leftarrow> upd_sd hdp (\<lambda>h. h\<lparr>sd_werror := r\<rparr>) s; SET_SD_FLAG hdp STWRERR s }
     else Some s) = Some (sd_set hdp (set_werror r h) s)"
  unfolding set_werror_def using sd_set_id[OF assms]
  by (simp add: upd_sd_set[OF assms] sd_flag_set)

lemma stream_error_spec:
  assumes "sds s hdp = Some h" "F_ISSET (sd_sigflags h) (ucast S_ERROR) \<Longrightarrow> \<exists>xs. elist (evl (hds s)) (sd_siglist h) xs"
  shows "\<exists>t. lis_stream_error hdp r w s = Some t \<and>
    notified (sd_set hdp (ioc_woken (all_woken (set_werror w (set_rerror r h)))) s) t"
proof -
  let ?h1 = "set_rerror r h" and ?h2 = "set_werror w (set_rerror r h)"
  let ?s2 = "sd_set hdp ?h2 s"
  have s2: "sds ?s2 hdp = Some ?h2" "sd_sigflags ?h2 = sd_sigflags h" "sd_siglist ?h2 = sd_siglist h"
    by (simp_all add: set_rerror_def set_werror_def)
  obtain t3 where t3: "signal_events hdp S_ERROR ?s2 = Some t3" "notified ?s2 t3"
    using signal_events_notified[OF s2(1), of S_ERROR] assms(2) by (auto simp: s2(2,3))
  have d3: "sds t3 hdp = Some ?h2" using notified_sds[OF t3(2)] by simp
  obtain t4 where t4: "wake_pollers hdp t3 = Some t4" "notified t3 t4" using wake_pollers_notified[OF d3] by blast
  have d4: "sds t4 hdp = Some ?h2" using notified_sds[OF t4(2)] d3 by simp
  have n4: "notified (sd_set hdp k s) (sd_set hdp k t4)" for k
    using notified_set[OF notified_trans[OF t3(2) t4(2)], of hdp k] by simp
  define k1 where "k1 = ?h2\<lparr>sd_wrcnt := min 0 (sd_wrcnt ?h2), sd_wwrite := sd_wwrite ?h2 + max 0 (sd_wrcnt ?h2)\<rparr>"
  define k2 where "k2 = k1\<lparr>sd_rdcnt := min 0 (sd_rdcnt k1), sd_wread := sd_wread k1 + max 0 (sd_rdcnt k1)\<rparr>"
  have w1: "lis_wake_up_all_wwrite hdp t4 = Some (sd_set hdp k1 t4)"
    unfolding k1_def by (rule wake_all_wwrite[OF d4])
  have w2: "lis_wake_up_all_wread hdp (sd_set hdp k1 t4) = Some (sd_set hdp k2 t4)"
    unfolding k2_def using wake_all_wread[of "sd_set hdp k1 t4" hdp k1] by simp
  have w3: "lis_wake_up_all_read_sem hdp (sd_set hdp k2 t4) = Some (sd_set hdp (all_woken ?h2) t4)"
    using wake_all_read_sem[of "sd_set hdp k2 t4" hdp k2] by (simp add: all_woken_def k2_def k1_def)
  have last: "(do { h \<leftarrow> sds v hdp; if F_ISSET (sd_flag h) IOCWAIT then lis_wake_up_wiocing hdp v else Some v }) =
      Some (sd_set hdp (ioc_woken k) v)" if "sds v hdp = Some k" for v k
    using that by (simp add: ioc_woken_def lis_wake_up_wiocing_def sd_up_set sd_set_id)
  have "lis_stream_error hdp r w s = Some (sd_set hdp (ioc_woken (all_woken ?h2)) t4)"
    unfolding lis_stream_error_def using last[of "sd_set hdp (all_woken ?h2) t4" "all_woken ?h2"]
    by (simp add: rerror_run[OF assms(1)] werror_run t3(1) t4(1) w1 w2 w3)
  then show ?thesis using n4 by blast
qed

text \<open>In particular no reader and no writer is counted as asleep any more, and each has been released.\<close>

lemma stream_error_releases:
  assumes "sds s hdp = Some h" "F_ISSET (sd_sigflags h) (ucast S_ERROR) \<Longrightarrow> \<exists>xs. elist (evl (hds s)) (sd_siglist h) xs"
    and "0 \<le> sd_rdcnt h" "0 \<le> sd_wrcnt h"
  shows "\<exists>t k. lis_stream_error hdp r w s = Some t \<and> sds t hdp = Some k \<and>
    sd_rdcnt k = 0 \<and> sd_wrcnt k = 0 \<and>
    sd_wread k = sd_wread h + sd_rdcnt h \<and> sd_wwrite k = sd_wwrite h + sd_wrcnt h"
proof -
  from stream_error_spec[OF assms(1,2), of r w] obtain t where t: "lis_stream_error hdp r w s = Some t"
    "notified (sd_set hdp (ioc_woken (all_woken (set_werror w (set_rerror r h)))) s) t" by blast
  from notified_sds[OF t(2)] have "sds t hdp = Some (ioc_woken (all_woken (set_werror w (set_rerror r h))))" by simp
  then show ?thesis using t(1) assms(3,4)
    by (intro exI conjI) (auto simp: ioc_woken_def all_woken_def set_werror_def set_rerror_def)
qed

subsection \<open>Readers\<close>

text \<open>Entering as a reader when the semaphore is free.\<close>

lemma read_sem_enter:
  assumes "sds s hdp = Some h" "0 < sd_read_sem h"
  shows "lis_sleep_on_read_sem e hdp s =
    Some (0, sd_set hdp (h\<lparr>sd_rdsemcnt := sd_rdsemcnt h + 1, sd_read_sem := sd_read_sem h - 1\<rparr>) s)"
  using assms by (simp add: lis_sleep_on_read_sem_def sd_down_def upd_sd_set)

text \<open>
  \<open>sd_rdsemcnt\<close> counts the reader inside along with those that wait, so the error path releases the
  semaphore for him too: the next reader enters while he is still inside.
\<close>

lemma error_second_reader:
  assumes "sds s hdp = Some h" "sd_read_sem h = 1" "sd_rdsemcnt h = 0"
    and "F_ISSET (sd_sigflags h) (ucast S_ERROR) \<Longrightarrow> \<exists>xs. elist (evl (hds s)) (sd_siglist h) xs"
  shows "\<exists>t u v. lis_sleep_on_read_sem e hdp s = Some (0, t) \<and> lis_stream_error hdp r w t = Some u \<and>
    lis_sleep_on_read_sem e' hdp u = Some (0, v)"
proof -
  let ?h = "h\<lparr>sd_rdsemcnt := 1, sd_read_sem := 0\<rparr>"
  let ?t = "sd_set hdp ?h s"
  have t: "lis_sleep_on_read_sem e hdp s = Some (0, ?t)" using read_sem_enter[OF assms(1)] assms(2,3) by simp
  have "sds ?t hdp = Some ?h" "F_ISSET (sd_sigflags ?h) (ucast S_ERROR) \<Longrightarrow> \<exists>xs. elist (evl (hds ?t)) (sd_siglist ?h) xs"
    using assms(4) by simp_all
  from stream_error_spec[OF this, of r w] obtain u where u: "lis_stream_error hdp r w ?t = Some u"
    "notified (sd_set hdp (ioc_woken (all_woken (set_werror w (set_rerror r ?h)))) ?t) u" by blast
  from notified_sds[OF u(2)] have "sds u hdp = Some (ioc_woken (all_woken (set_werror w (set_rerror r ?h))))" by simp
  moreover have "sd_read_sem (ioc_woken (all_woken (set_werror w (set_rerror r ?h)))) = 1"
    by (simp add: ioc_woken_def all_woken_def set_werror_def set_rerror_def)
  ultimately have "\<exists>v. lis_sleep_on_read_sem e' hdp u = Some (0, v)" using read_sem_enter[of u hdp] by simp
  then show ?thesis using t u(1) by blast
qed

end
