(* ===== verification/LiS_HeadRing.thy ===== *)
theory LiS_HeadRing
  imports LiS_HeadList LiS_HeadSpec
begin

text \<open>
  The list of stream heads as a circular list: what insertion and removal keep, and the search for a
  number of a multiplexed stream, which ends with one that no stream of the list has.
\<close>

subsection \<open>The abstraction\<close>

definition sd_links :: "lis \<Rightarrow> ptr \<Rightarrow> (ptr \<times> ptr) option" where
  "sd_links s p = map_option (\<lambda>h. (sd_next h, sd_prev h)) (sds s p)"

fun circle :: "(ptr \<Rightarrow> (ptr \<times> ptr) option) \<Rightarrow> ptr \<Rightarrow> ptr list \<Rightarrow> bool" where
  "circle L p [] \<longleftrightarrow> p = NULL"
| "circle L p (x # xs) \<longleftrightarrow> p = x \<and> ring L x xs"

text \<open>\<open>xs\<close> are the stream heads from \<open>lis_stdata_head\<close> on; \<open>lis_stdata_cnt\<close> counts them.\<close>

definition sd_list :: "lis \<Rightarrow> ptr list \<Rightarrow> bool" where
  "sd_list s xs \<longleftrightarrow> circle (sd_links s) (stdata_head (hds s)) xs \<and> stdata_cnt (hds s) = int (length xs)"

lemma sd_linksI: "sds s p = Some h \<Longrightarrow> sd_links s p = Some (sd_next h, sd_prev h)"
  by (simp add: sd_links_def)

lemma sd_linksD: "sd_links s p = Some (n, v) \<Longrightarrow> \<exists>h. sds s p = Some h \<and> sd_next h = n \<and> sd_prev h = v"
  by (auto simp: sd_links_def)

text \<open>A ring may be entered at its next member.\<close>

lemma ring_rotate: "ring L x (y # zs) \<Longrightarrow> ring L y (zs @ [x])"
  by (auto simp: ring_def dl_snoc)

lemma circle_distinct: "circle L p xs \<Longrightarrow> distinct xs"
  by (cases xs) (auto simp: ring_def)

lemma circle_cong: "(\<And>x. x \<in> set xs \<Longrightarrow> L x = L' x) \<Longrightarrow> circle L p xs = circle L' p xs"
  by (cases xs) (auto simp: ring_def cong: dl_cong)

lemma circle_dom: "circle L p xs \<Longrightarrow> x \<in> set xs \<Longrightarrow> \<exists>y. L x = Some y"
  by (cases xs) (auto simp: ring_def dest: dl_dom)

lemma ring_cong: "(\<And>y. y \<in> insert x (set xs) \<Longrightarrow> L y = L' y) \<Longrightarrow> ring L x xs = ring L' x xs"
  by (auto simp: ring_def cong: dl_cong)

subsection \<open>Insertion\<close>

text \<open>The links of one stream head, changed.\<close>

lemma sd_links_set [simp]: "sd_links (sd_set p h s) = (sd_links s)(p \<mapsto> (sd_next h, sd_prev h))"
  by (auto simp: sd_links_def fun_eq_iff)

lemma sd_links_hds [simp]:
  "sd_links (upd_hds f s) = sd_links s" "sds (upd_hds f s) = sds s" "hds (upd_hds f s) = f (hds s)"
  by (simp_all add: sd_links_def upd_hds_def fun_eq_iff)

text \<open>Two stream heads differ at most in their links.\<close>

definition same_sd :: "stdata option \<Rightarrow> stdata option \<Rightarrow> bool" where
  "same_sd x y \<longleftrightarrow> map_option (\<lambda>h. h\<lparr>sd_next := NULL, sd_prev := NULL\<rparr>) x = map_option (\<lambda>h. h\<lparr>sd_next := NULL, sd_prev := NULL\<rparr>) y"

lemma same_sd_trans: "same_sd x y \<Longrightarrow> same_sd y z \<Longrightarrow> same_sd x z"
  by (simp add: same_sd_def)

lemma upd_sd_links:
  assumes "sds s p = Some h" "h\<lparr>sd_next := NULL, sd_prev := NULL\<rparr> = (f h)\<lparr>sd_next := NULL, sd_prev := NULL\<rparr>"
  obtains t where "upd_sd p f s = Some t" "sd_links t = (sd_links s)(p \<mapsto> (sd_next (f h), sd_prev (f h)))" "hds t = hds s"
    "\<And>x. same_sd (sds s x) (sds t x)"
proof (rule that)
  show "upd_sd p f s = Some (sd_set p (f h) s)" by (rule upd_sd_set[OF assms(1)])
qed (use assms in \<open>auto simp: same_sd_def\<close>)

lemma ins_stdata_list:
  assumes "sd_list s xs" "sds s x = Some h" "x \<noteq> NULL" "x \<notin> set xs"
  shows "\<exists>t. ins_stdata x s = Some t \<and> sd_list t (xs @ [x]) \<and> (\<forall>p. same_sd (sds s p) (sds t p))"
proof (cases xs)
  case Nil
  then show ?thesis using assms
    by (auto simp: ins_stdata_def upd_sd_set sd_list_def ring_def same_sd_def upd_hds_def sd_links_def sd_set_def)
next
  case (Cons y ys)
  then have r: "ring (sd_links s) y (ys @ [])" "stdata_head (hds s) = y" using assms(1) by (simp_all add: sd_list_def)
  have xy: "x \<notin> set (y # ys @ [])" "x \<noteq> y" using assms(4) Cons by auto
  let ?l = "before y ys"
  obtain n p where L: "sd_links s (at [] y) = Some (n, ?l)" "sd_links s ?l = Some (at [] y, p)"
    "at [] y = ?l \<longrightarrow> n = y \<and> p = y" by (rule ring_neighbours[OF r(1)])
  obtain Y Z where Y: "sds s y = Some Y" "sd_next Y = n" "sd_prev Y = ?l"
      and Z: "sds s ?l = Some Z" "sd_next Z = y" "sd_prev Z = p"
    using sd_linksD[OF L(1)] sd_linksD[OF L(2)] by auto
  have xl: "x \<noteq> ?l" using xy by (cases ys rule: rev_cases) auto
  let ?s0 = "upd_hds (\<lambda>x. x\<lparr>stdata_cnt := stdata_cnt x + 1\<rparr>) s"
  let ?s1 = "sd_set x (h\<lparr>sd_next := y, sd_prev := ?l\<rparr>) ?s0"
  let ?s2 = "sd_set ?l (Z\<lparr>sd_next := x\<rparr>) ?s1"
  define Y' where "Y' = (if ?l = y then Z\<lparr>sd_next := x\<rparr> else Y)"
  define t where "t = sd_set y (Y'\<lparr>sd_prev := x\<rparr>) ?s2"
  have h0: "stdata_head (hds ?s0) = y" "y \<noteq> NULL" using r by (simp_all add: upd_hds_def ring_def)
  have eq: "ins_stdata x s = Some t"
    unfolding ins_stdata_def Let_def h0(1) using h0(2) assms(2) xy(2) xl Y Z
    by (simp add: upd_sd_set Y'_def t_def del: last.simps)
  have same: "same_sd (sds s q) (sds t q)" for q
    using assms(2) Y Z xy(2) xl by (cases "?l = y") (simp_all add: t_def Y'_def same_sd_def del: last.simps)
  have "sd_links t = (if at [] y = ?l then (sd_links s)(x \<mapsto> (y, y), y \<mapsto> (x, x))
      else (sd_links s)(x \<mapsto> (at [] y, ?l), ?l \<mapsto> (x, p), at [] y \<mapsto> (n, x)))"
    using Y Z xy(2) xl by (simp add: t_def Y'_def fun_upd_twist del: last.simps)
  then have "ring (sd_links t) y (ys @ [x])" using ring_insert[OF r(1) assms(3) xy(1) L(1,2)] by simp
  then have "sd_list t (xs @ [x])" using Cons r(2) assms(1) by (simp add: sd_list_def t_def upd_hds_def)
  then show ?thesis using eq same by blast
qed

subsection \<open>Removal\<close>

lemma rem_null:
  "sds s x = Some h \<Longrightarrow> sd_next h = NULL \<or> sd_prev h = NULL \<Longrightarrow> rem_stdata x s = Some s"
  by (simp add: rem_stdata_def)

text \<open>The ring entered so that \<open>x\<close> is not the head: what \<open>rem_stdata\<close> does to the links.\<close>

lemma rem_ring:
  assumes "ring (sd_links s) y (as @ x # bs)" "stdata_head (hds s) = y \<or> stdata_head (hds s) = x \<and> bs = []"
  shows "\<exists>t. rem_stdata x s = Some t \<and> ring (sd_links t) y (as @ bs) \<and> stdata_head (hds t) = y \<and>
    stdata_cnt (hds t) = stdata_cnt (hds s) - 1 \<and> sd_links t x = Some (NULL, NULL) \<and> (\<forall>p. same_sd (sds s p) (sds t p))"
proof -
  let ?l = "before y as" and ?a = "at bs y"
  from ring_remove[OF assms(1)] obtain n p where L: "sd_links s x = Some (?a, ?l)" "sd_links s ?a = Some (n, x)"
    "sd_links s ?l = Some (x, p)" and R: "ring ((if ?a = ?l then (sd_links s)(y \<mapsto> (y, y))
      else (sd_links s)(?l \<mapsto> (?a, p), ?a \<mapsto> (n, ?l)))(x := None)) y (as @ bs)" by blast
  from sd_linksD[OF L(1)] obtain X where X: "sds s x = Some X" "sd_next X = ?a" "sd_prev X = ?l" by blast
  from sd_linksD[OF L(2)] obtain A where A: "sds s ?a = Some A" "sd_next A = n" "sd_prev A = x" by blast
  from sd_linksD[OF L(3)] obtain Z where Z: "sds s ?l = Some Z" "sd_next Z = x" "sd_prev Z = p" by blast
  have ne: "x \<noteq> y" "y \<noteq> NULL" "x \<noteq> ?l" "x \<noteq> ?a" "?a \<noteq> NULL" "?l \<noteq> NULL" "x \<noteq> NULL"
    using assms(1) by (cases as rule: rev_cases; cases bs; auto simp: ring_def dl_snoc dl_mid)+
  have al: "?a = ?l \<longleftrightarrow> as = [] \<and> bs = []"
    using assms(1) by (cases as rule: rev_cases; cases bs) (auto simp: ring_def)
  define A' where "A' = (if ?a = ?l then Z\<lparr>sd_next := ?a\<rparr> else A)"
  define u where "u = sd_set ?a (A'\<lparr>sd_prev := ?l\<rparr>) (sd_set ?l (Z\<lparr>sd_next := ?a\<rparr>) s)"
  define t where "t = sd_set x (X\<lparr>sd_next := NULL, sd_prev := NULL\<rparr>) (upd_hds (\<lambda>x. x\<lparr>stdata_cnt := stdata_cnt x - 1\<rparr>)
    (upd_hds (\<lambda>x. x\<lparr>stdata_head := y\<rparr>) u))"
  have first: "(if stdata_head (hds s) = x then sd_next X else stdata_head (hds s)) = y" "stdata_head (hds s) \<noteq> NULL"
    using assms(2) X(2) ne by auto
  define v where "v = sd_set ?l (Z\<lparr>sd_next := ?a\<rparr>) s"
  have u: "upd_sd ?l (\<lambda>k. k\<lparr>sd_next := ?a\<rparr>) s = Some v" "sds v x = Some X" "sds u x = Some X"
    "upd_sd ?a (\<lambda>k. k\<lparr>sd_prev := ?l\<rparr>) v = Some u"
    using X A Z ne by (simp_all add: upd_sd_set u_def v_def A'_def del: last.simps)
  have eq: "rem_stdata x s = Some t"
    unfolding rem_stdata_def Let_def X(1) bind.bind_lunit X(2,3) first(1)[unfolded X(2)]
    using u ne first(2) X(2,3) by (simp add: t_def upd_sd_set del: last.simps)
  have same: "same_sd (sds s q) (sds t q)" for q
    using X A Z ne by (cases "?a = ?l") (simp_all add: t_def u_def A'_def same_sd_def del: last.simps)
  have "sd_links t q = ((if ?a = ?l then (sd_links s)(y \<mapsto> (y, y))
      else (sd_links s)(?l \<mapsto> (?a, p), ?a \<mapsto> (n, ?l)))(x := None)) q" if "q \<noteq> x" for q
    using X A Z ne al that by (auto simp: t_def u_def A'_def)
  moreover have "x \<notin> insert y (set (as @ bs))" using assms(1) by (auto simp: ring_def)
  ultimately have "ring (sd_links t) y (as @ bs)" using R
    by (subst ring_cong[where L' = "(if ?a = ?l then (sd_links s)(y \<mapsto> (y, y))
      else (sd_links s)(?l \<mapsto> (?a, p), ?a \<mapsto> (n, ?l)))(x := None)"]) metis+
  then show ?thesis using eq same by (intro exI[of _ t]) (simp add: t_def u_def upd_hds_def sd_set_def sd_links_def)
qed

lemma rem_stdata_list:
  assumes "sd_list s xs" "x \<in> set xs"
  shows "\<exists>t. rem_stdata x s = Some t \<and> sd_list t (remove1 x xs) \<and> sd_links t x = Some (NULL, NULL) \<and>
    (\<forall>p. same_sd (sds s p) (sds t p))"
proof -
  obtain y ys where xs: "xs = y # ys" using assms(2) by (cases xs) auto
  have r: "ring (sd_links s) y ys" "stdata_head (hds s) = y" "stdata_cnt (hds s) = int (length ys) + 1"
    using assms(1) xs by (auto simp: sd_list_def)
  consider "x = y" "ys = []" | z zs where "x = y" "ys = z # zs" | as bs where "x \<noteq> y" "ys = as @ x # bs"
  proof (cases "x = y")
    case True
    then show ?thesis using that(1,2) by (cases ys) auto
  next
    case False
    then have "x \<in> set ys" using assms(2) xs by simp
    then show ?thesis using that(3)[OF False] split_list[of x ys] by blast
  qed
  then show ?thesis
  proof cases
    case 1
    then have "sd_links s y = Some (y, y)" "y \<noteq> NULL" using r(1) by (auto simp: ring_def)
    moreover from sd_linksD[OF this(1)] obtain Y where "sds s y = Some Y" "sd_next Y = y" "sd_prev Y = y" by blast
    ultimately show ?thesis using 1 xs r
      by (auto simp: rem_stdata_def sd_list_def upd_sd_set same_sd_def upd_hds_def sd_set_def sd_links_def)
  next
    case 2
    then have "ring (sd_links s) z (zs @ x # [])" using r(1) ring_rotate by simp
    from rem_ring[OF this] r(2) 2(1) obtain t where "rem_stdata x s = Some t" "ring (sd_links t) z zs"
      "stdata_head (hds t) = z" "stdata_cnt (hds t) = stdata_cnt (hds s) - 1" "sd_links t x = Some (NULL, NULL)"
      "\<forall>p. same_sd (sds s p) (sds t p)" by auto
    then show ?thesis using 2 xs r(3) by (intro exI[of _ t]) (simp add: sd_list_def)
  next
    case 3
    then have "ring (sd_links s) y (as @ x # bs)" using r(1) by simp
    from rem_ring[OF this] r(2) obtain t where t: "rem_stdata x s = Some t" "ring (sd_links t) y (as @ bs)"
      "stdata_head (hds t) = y" "stdata_cnt (hds t) = stdata_cnt (hds s) - 1" "sd_links t x = Some (NULL, NULL)"
      "\<forall>p. same_sd (sds s p) (sds t p)" by auto
    have "x \<notin> set as" using r(1) 3(2) by (auto simp: ring_def)
    then have "remove1 x xs = y # as @ bs" using 3 xs by (simp add: remove1_append)
    then show ?thesis using t 3 r(3) by (intro exI[of _ t]) (simp add: sd_list_def)
  qed
qed

subsection \<open>Numbers of multiplexed streams\<close>

definition mux_of :: "lis \<Rightarrow> ptr \<Rightarrow> int" where
  "mux_of s p = (case sds s p of None \<Rightarrow> 0 | Some h \<Rightarrow> mx_index (sd_mux h))"

text \<open>The largest \<open>int\<close>, and the number tried after \<open>m\<close>.\<close>

abbreviation (input) INT_MAX :: int where "INT_MAX \<equiv> 2147483647"

definition next_id :: "int \<Rightarrow> int" where
  "next_id m = (if m < INT_MAX then m + 1 else 1)"

lemma search_dl:
  assumes "dl (sd_links s) k p ys l (stdata_head (hds s))" "stdata_head (hds s) \<notin> set ys"
  shows "\<exists>n. muxid_search i p (int (length ys)) s = Some n \<and> (n = 0 \<longleftrightarrow> i \<notin> mux_of s ` set ys)"
  using assms
proof (induction ys arbitrary: k p)
  case Nil
  then show ?case by (simp add: muxid_search.simps)
next
  case (Cons y ys)
  then obtain n where y: "p = y" "sd_links s y = Some (n, k)" "dl (sd_links s) y n ys l (stdata_head (hds s))" by auto
  from sd_linksD[OF y(2)] obtain h where h: "sds s y = Some h" "sd_next h = n" by blast
  have "muxid_search i p (int (length (y # ys))) s =
      (if mux_of s y = i then Some (int (length (y # ys))) else muxid_search i n (int (length ys)) s)"
    using y(1) h by (subst muxid_search.simps) (simp add: mux_of_def)
  then show ?case using Cons.IH[OF y(3)] Cons.prems(2) by auto
qed

lemma search_list:
  assumes "sd_list s xs" "xs \<noteq> []"
  shows "\<exists>n. muxid_search i (stdata_head (hds s)) (stdata_cnt (hds s)) s = Some n \<and> (n = 0 \<longleftrightarrow> i \<notin> mux_of s ` set xs)"
proof -
  obtain y ys where xs: "xs = y # ys" using assms(2) by (cases xs) auto
  have r: "ring (sd_links s) y ys" "stdata_head (hds s) = y" "stdata_cnt (hds s) = int (length (y # ys))"
    using assms(1) xs by (auto simp: sd_list_def)
  then obtain f l where f: "sd_links s y = Some (f, l)" "dl (sd_links s) y f ys l (stdata_head (hds s))"
    "stdata_head (hds s) \<notin> set ys" by (auto simp: ring_def)
  from sd_linksD[OF f(1)] obtain h where h: "sds s y = Some h" "sd_next h = f" by blast
  have "muxid_search i y (int (length (y # ys))) s =
      (if mux_of s y = i then Some (int (length (y # ys))) else muxid_search i f (int (length ys)) s)"
    using h by (subst muxid_search.simps) (simp add: mux_of_def)
  then show ?thesis using search_dl[OF f(2,3), of i] r xs by auto
qed

text \<open>One attempt.\<close>

definition set_muxid :: "int \<Rightarrow> lis \<Rightarrow> lis" where
  "set_muxid n s = upd_hds (\<lambda>x. x\<lparr>muxid := n\<rparr>) s"

lemma set_muxid_simps [simp]:
  "set_muxid n (set_muxid m s) = set_muxid n s" "sds (set_muxid n s) = sds s" "muxid (hds (set_muxid n s)) = n"
  "sd_list (set_muxid n s) xs = sd_list s xs" "mux_of (set_muxid n s) = mux_of s"
  by (simp_all add: set_muxid_def sd_list_def mux_of_def fun_eq_iff) (simp add: upd_hds_def)

lemma new_muxid_try:
  assumes "sd_list s xs" "0 \<le> muxid (hds s)" "muxid (hds s) < INT_MAX"
  shows "new_muxid s = (let i = muxid (hds s) + 1 in
    if i \<in> mux_of s ` set xs then new_muxid (set_muxid i s) else Some (i, set_muxid i s))"
proof -
  let ?i = "muxid (hds s) + 1"
  have i: "lis_incr (muxid (hds s)) = ?i" using assms(2,3) by (simp add: lis_incr_def c_int_id)
  show ?thesis
  proof (cases "xs = []")
    case True
    then show ?thesis using assms i
      by (subst new_muxid.simps) (simp add: sd_list_def set_muxid_def upd_hds_def)
  next
    case False
    then have "stdata_head (hds s) \<noteq> NULL" using assms(1) by (cases xs) (auto simp: sd_list_def ring_def)
    moreover obtain n where "muxid_search ?i (stdata_head (hds (set_muxid ?i s))) (stdata_cnt (hds (set_muxid ?i s)))
        (set_muxid ?i s) = Some n" "n = 0 \<longleftrightarrow> ?i \<notin> mux_of s ` set xs"
      using search_list[of "set_muxid ?i s" xs ?i] assms(1) False by auto
    ultimately show ?thesis using assms(2) i
      by (subst new_muxid.simps) (simp add: Let_def set_muxid_def upd_hds_def)
  qed
qed

lemma new_muxid_wrap:
  "muxid (hds s) = INT_MAX \<Longrightarrow> new_muxid s = new_muxid (set_muxid 0 s)"
  by (subst new_muxid.simps) (simp add: lis_incr_def c_int_def set_muxid_def)

lemma new_muxid_step:
  assumes "sd_list s xs" "0 \<le> muxid (hds s)" "muxid (hds s) \<le> INT_MAX"
  shows "new_muxid s = (let i = next_id (muxid (hds s)) in
    if i \<in> mux_of s ` set xs then new_muxid (set_muxid i s) else Some (i, set_muxid i s))"
proof (cases "muxid (hds s) = INT_MAX")
  case True
  then show ?thesis using new_muxid_wrap new_muxid_try[of "set_muxid 0 s" xs] assms(1)
    by (simp add: next_id_def Let_def)
next
  case False
  then show ?thesis using new_muxid_try[OF assms(1,2)] assms(3) by (simp add: next_id_def)
qed

lemma mod_small: "\<bar>d\<bar> < (k :: int) \<Longrightarrow> d \<noteq> 0 \<Longrightarrow> d mod k \<noteq> 0"
  by (auto dest: dvd_imp_le_int)

lemma mod_pred:
  assumes "0 < (k :: int)" "x mod k \<noteq> 0"
  shows "(x - 1) mod k = x mod k - 1"
proof -
  have "0 < x mod k" "x mod k < k" using assms pos_mod_sign[of k x] pos_mod_bound[of k x] by linarith+
  then have "(x mod k - 1) mod k = x mod k - 1" by simp
  then show ?thesis by (simp add: mod_diff_left_eq)
qed

text \<open>A number that no stream has is reached: the numbers tried come closer to it.\<close>

lemma next_id_closer:
  assumes "0 \<le> m" "m \<le> INT_MAX" "0 < f" "f \<le> INT_MAX" "next_id m \<noteq> f"
  shows "(f - next_id (next_id m)) mod INT_MAX < (f - next_id m) mod INT_MAX"
proof -
  define k where "k = next_id m"
  have k: "0 < k" "k \<le> INT_MAX" "k \<noteq> f" using assms by (auto simp: k_def next_id_def)
  have "(f - next_id k) mod INT_MAX = (f - k - 1) mod INT_MAX"
  proof (cases "k = INT_MAX")
    case True
    then have "f - next_id k = f - k - 1 + INT_MAX" by (simp add: next_id_def)
    then show ?thesis by (metis mod_add_self2)
  qed (use k in \<open>simp add: next_id_def algebra_simps\<close>)
  moreover have "(f - k) mod INT_MAX \<noteq> 0" using k assms(3,4) by (intro mod_small) auto
  then have "(f - k - 1) mod INT_MAX = (f - k) mod INT_MAX - 1" by (intro mod_pred) auto
  ultimately show ?thesis by (simp add: k_def)
qed

lemma new_muxid_found:
  assumes "sd_list s xs" "0 \<le> muxid (hds s)" "muxid (hds s) \<le> INT_MAX" "0 < f" "f \<le> INT_MAX" "f \<notin> mux_of s ` set xs"
  shows "\<exists>n. new_muxid s = Some (n, set_muxid n s) \<and> 0 < n \<and> n \<le> INT_MAX \<and> n \<notin> mux_of s ` set xs"
  using assms
proof (induction "nat ((f - next_id (muxid (hds s))) mod INT_MAX)" arbitrary: s rule: less_induct)
  case less
  define i where "i = next_id (muxid (hds s))"
  have i: "0 < i" "i \<le> INT_MAX" using less.prems(2,3) by (auto simp: i_def next_id_def)
  note st = new_muxid_step[OF less.prems(1-3), folded i_def, unfolded Let_def]
  show ?case
  proof (cases "i \<in> mux_of s ` set xs")
    case True
    then have "i \<noteq> f" using less.prems(6) by auto
    then have "(f - next_id i) mod INT_MAX < (f - i) mod INT_MAX"
      using next_id_closer[of "muxid (hds s)" f] less.prems by (simp add: i_def)
    then have "nat ((f - next_id (muxid (hds (set_muxid i s)))) mod INT_MAX) < nat ((f - next_id (muxid (hds s))) mod INT_MAX)"
      by (simp add: i_def)
    from less.hyps[OF this] less.prems i show ?thesis using st True by simp
  next
    case False
    then show ?thesis using st i by simp
  qed
qed

lemma new_muxid_fresh:
  assumes "sd_list s xs" "0 \<le> muxid (hds s)" "muxid (hds s) \<le> INT_MAX" "int (length xs) < INT_MAX"
  shows "\<exists>n. new_muxid s = Some (n, set_muxid n s) \<and> 0 < n \<and> n \<le> INT_MAX \<and> n \<notin> mux_of s ` set xs"
proof -
  have "card (mux_of s ` set xs) < card {1..INT_MAX}"
    using card_image_le[of "set xs" "mux_of s"] card_length[of xs] assms(4) by simp
  then have "\<not> {1..INT_MAX} \<subseteq> mux_of s ` set xs"
    by (meson card_mono finite_imageI finite_set leD)
  then obtain f where "f \<in> {1..INT_MAX}" "f \<notin> mux_of s ` set xs" by blast
  then show ?thesis using new_muxid_found[OF assms(1-3), of f] by auto
qed

end
