(* ===== verification/LiS_ReadSpec.thy ===== *)
theory LiS_ReadSpec
  imports LiS_HeadSpec LiS_MsgInv LiS_Chain
begin

text \<open>
  Reading a message: the user's buffer gets its first bytes in order, and what does not fit stays in
  the message.
\<close>

unbundle bit_operations_syntax

subsection \<open>What freeing a block leaves alone\<close>

definition non_msg :: "lis \<Rightarrow> (ptr \<Rightarrow> u8) \<times> hdst \<times> (ptr \<Rightarrow> stdata option) \<times> (ptr \<Rightarrow> queue option) \<times>
    (ptr \<Rightarrow> qband option)" where
  "non_msg s = (mem s, hds s, sds s, qs s, qbands s)"

lemma non_msg_fields:
  "non_msg t = non_msg s \<longleftrightarrow> mem t = mem s \<and> hds t = hds s \<and> sds t = sds s \<and> qs t = qs s \<and> qbands t = qbands s"
  by (simp add: non_msg_def)

lemma non_msg_upd [simp]:
  "non_msg (s\<lparr>mb := x\<rparr>) = non_msg s" "non_msg (s\<lparr>db := y\<rparr>) = non_msg s" "non_msg (kfree p s) = non_msg s"
  "non_msg (s\<lparr>esb_calls := c\<rparr>) = non_msg s" "non_msg (s\<lparr>strcount := n\<rparr>) = non_msg s"
  "non_msg (s\<lparr>msgb_cnt := n\<rparr>) = non_msg s" "non_msg (stats_set f s) = non_msg s"
  by (simp_all add: non_msg_def kfree_def)

lemma non_msg_stats [simp]:
  "non_msg (LisDownCount i s) = non_msg s" "non_msg (LisDownCounter i n s) = non_msg s"
  "non_msg (LisUpCount i s) = non_msg s"
  by (subst stats_set_eq, simp)+

lemma upd_db_non_msg: "upd_db p f s = Some t \<Longrightarrow> non_msg t = non_msg s"
  by (auto simp: upd_db_def elim!: bind_SomeE)

lemma upd_mb_non_msg: "upd_mb p f s = Some t \<Longrightarrow> non_msg t = non_msg s"
  by (auto simp: upd_mb_def elim!: bind_SomeE)

lemma freehdr_non_msg: "freehdr p s = Some t \<Longrightarrow> non_msg t = non_msg s"
  unfolding freehdr_def Let_def by (auto elim!: bind_SomeE)

lemmas msg_op_non_msg = upd_db_non_msg upd_mb_non_msg freehdr_non_msg

lemma freedb_shared_non_msg: "freedb_shared p d b s = Some t \<Longrightarrow> non_msg t = non_msg s"
  unfolding freedb_shared_def Let_def
  by (auto elim!: bind_SomeE split: if_splits dest!: msg_op_non_msg)

lemma freedb_last_non_msg: "freedb_last p d b s = Some t \<Longrightarrow> non_msg t = non_msg s"
  unfolding freedb_last_def Let_def
  by (auto elim!: bind_SomeE split: if_splits option.splits prod.splits dest!: msg_op_non_msg)

lemma freeb_non_msg: "lis_freeb p s = Some t \<Longrightarrow> non_msg t = non_msg s"
  unfolding lis_freeb_def lis_freedb_def Let_def
  by (auto elim!: bind_SomeE split: if_splits dest!: msg_op_non_msg freedb_shared_non_msg freedb_last_non_msg)

subsection \<open>The bytes of a message\<close>

definition blk_bytes :: "lis \<Rightarrow> ptr \<Rightarrow> u8 list" where
  "blk_bytes s p = (case mb s p of None \<Rightarrow> [] | Some m \<Rightarrow> map (mem s) [b_rptr m ..< b_wptr m])"

definition msg_bytes :: "lis \<Rightarrow> ptr list \<Rightarrow> u8 list" where
  "msg_bytes s ps = concat (map (blk_bytes s) ps)"

lemma msg_bytes_simps [simp]:
  "msg_bytes s [] = []" "msg_bytes s (p # ps) = blk_bytes s p @ msg_bytes s ps"
  by (simp_all add: msg_bytes_def)

lemma msg_bytes_cong:
  "mem t = mem s \<Longrightarrow> (\<And>p. p \<in> set ps \<Longrightarrow> mb t p = mb s p) \<Longrightarrow> msg_bytes t ps = msg_bytes s ps"
  by (induction ps) (auto simp: blk_bytes_def split: option.splits)

text \<open>
  A message of data whose blocks are live, in the order of \<open>b_cont\<close>; the lengths are those of an \<open>int\<close>.
\<close>

definition blk_ok :: "lis \<Rightarrow> ptr \<Rightarrow> bool" where
  "blk_ok s p \<longleftrightarrow> (\<exists>m. mb s p = Some m \<and> b_rptr m \<le> b_wptr m \<and> b_wptr m - b_rptr m < 2 ^ 31) \<and>
     blk_type s p = M_DATA"

definition readable :: "ptr set \<Rightarrow> lis \<Rightarrow> ptr \<Rightarrow> ptr list \<Rightarrow> bool" where
  "readable L s mp ps \<longleftrightarrow> msg_inv L s \<and> set ps \<subseteq> L \<and> mchain s mp ps \<and> (\<forall>p \<in> set ps. blk_ok s p)"

lemma readable_null [simp]: "readable L s NULL ps \<longleftrightarrow> ps = [] \<and> msg_inv L s"
  by (auto simp: readable_def)

lemma readable_Cons:
  assumes "readable L s mp (p # ps)"
  obtains m d where "mp = p" "p \<noteq> NULL" "mb s p = Some m" "db s (b_datap m) = Some d" "db_type d = M_DATA"
    "b_rptr m \<le> b_wptr m" "b_wptr m - b_rptr m < 2 ^ 31" "readable L s (b_cont m) ps" "p \<in> L" "p \<notin> set ps"
    "lis_btype p s = Some M_DATA" "length (blk_bytes s p) = b_wptr m - b_rptr m"
proof -
  have c: "mchain s mp (p # ps)" using assms by (simp add: readable_def)
  then obtain m d where m: "mp = p" "p \<noteq> NULL" "mb s p = Some m" "db s (b_datap m) = Some d" "mchain s (b_cont m) ps"
    by (auto simp: mchain_Cons)
  have ok: "blk_ok s p" using assms by (simp add: readable_def)
  then have ty: "db_type d = M_DATA" using m by (simp add: blk_ok_def blk_type_def blk_db_def)
  have "b_rptr m \<le> b_wptr m" "b_wptr m - b_rptr m < 2 ^ 31" using ok m by (auto simp: blk_ok_def)
  moreover have "readable L s (b_cont m) ps" "p \<in> L" using assms m by (auto simp: readable_def)
  moreover have "p \<notin> set ps" using mchain_distinct[OF c] by simp
  ultimately show ?thesis using that[of m d] m ty by (simp add: lis_btype_def blk_bytes_def)
qed

lemma same_data_ok:
  assumes "same_data s t x" "blk_ok s x"
  shows "blk_ok t x"
proof -
  obtain m where m: "mb s x = Some m" "b_rptr m \<le> b_wptr m" "b_wptr m - b_rptr m < 2 ^ 31" "blk_type s x = M_DATA"
    using assms(2) by (auto simp: blk_ok_def)
  obtain d d' where d: "db s (b_datap m) = Some d" "db t (b_datap m) = Some d'" "d' = d\<lparr>db_ref := db_ref d'\<rparr>"
    using assms(1) m(1) by (auto simp: same_data_def datap_def)
  have "db_type d' = db_type d" by (subst d(3)) simp
  then show ?thesis using m d(1,2) assms(1) by (simp add: blk_ok_def blk_type_def blk_db_def same_data_def)
qed

lemma same_data_chain: "\<forall>x \<in> set ps. same_data s t x \<Longrightarrow> mchain s p ps \<Longrightarrow> mchain t p ps"
proof (induction ps arbitrary: p)
  case (Cons x xs)
  then obtain m d where m: "p = x" "x \<noteq> NULL" "mb s x = Some m" "db s (b_datap m) = Some d" "mchain s (b_cont m) xs"
    by (auto simp: mchain_Cons)
  have "mb t x = Some m" "db t (b_datap m) \<noteq> None"
    using Cons.prems(1) m by (auto simp: same_data_def datap_def)
  then show ?case using Cons.IH[of "b_cont m"] Cons.prems(1) m by (auto simp: mchain_Cons)
qed simp

text \<open>Changes of the header of one block that keep its data block.\<close>

lemma msg_inv_upd_mb:
  assumes "msg_inv L s" "mb s p = Some m" "b_datap m' = b_datap m" "mb u = (mb s)(p \<mapsto> m')" "db u = db s"
  shows "msg_inv L u"
proof -
  have dp: "datap u x = datap s x" for x using assms(2,3,4) by (simp add: datap_def)
  then have "refs L u = refs L s" by (simp add: refs_def fun_eq_iff)
  moreover have "dom (mb u) = dom (mb s)" using assms(2,4) by auto
  ultimately have "msg_inv L u \<longleftrightarrow> msg_inv L s" using assms(5) by (simp only: msg_inv_def dp)
  then show ?thesis using assms(1) by simp
qed

text \<open>Unlinking the first block and freeing it.\<close>

lemma drop_block:
  assumes "readable L s p (p # ps)"
  shows "\<exists>t m. mb s p = Some m \<and>
    (do { (next, s) \<leftarrow> lis_unlinkb p s; s \<leftarrow> lis_freeb p s; Some (next, s) }) = Some (b_cont m, t) \<and>
    readable (L - {p}) t (b_cont m) ps \<and> msg_bytes t ps = msg_bytes s ps \<and> non_msg t = non_msg s"
proof -
  from assms obtain m d where m: "p \<noteq> NULL" "mb s p = Some m" "db s (b_datap m) = Some d"
    "readable L s (b_cont m) ps" "p \<in> L" "p \<notin> set ps" by (rule readable_Cons)
  let ?u = "s\<lparr>mb := (mb s)(p \<mapsto> m\<lparr>b_cont := NULL\<rparr>)\<rparr>"
  have inv: "msg_inv L ?u" using msg_inv_upd_mb[of L s p m "m\<lparr>b_cont := NULL\<rparr>"] m assms by (simp add: readable_def)
  obtain t where t: "lis_freeb p ?u = Some t" "msg_inv (L - {p}) t" "\<forall>x \<in> L - {p}. same_data ?u t x"
    using freeb_inv[OF inv m(5)] by blast
  have sd: "same_data s t x" if "x \<in> set ps" for x
  proof -
    have "x \<in> L - {p}" using m(4,6) that by (auto simp: readable_def)
    then have "same_data ?u t x" using t(3) by blast
    then show ?thesis using m(6) that by (auto simp: same_data_def datap_def)
  qed
  have "mchain t (b_cont m) ps" using same_data_chain[of ps s t] sd m(4) by (simp add: readable_def)
  moreover have "\<forall>x \<in> set ps. blk_ok t x" using m(4) by (auto simp: readable_def intro: same_data_ok[OF sd])
  moreover have nm: "non_msg t = non_msg s" using freeb_non_msg[OF t(1)] by simp
  ultimately have "readable (L - {p}) t (b_cont m) ps" "msg_bytes t ps = msg_bytes s ps"
    using t(2) m(4,6) sd by (auto simp: readable_def non_msg_fields same_data_def intro!: msg_bytes_cong)
  then show ?thesis using m nm t(1)
    by (intro exI[of _ t] exI[of _ m]) (simp add: lis_unlinkb_def lis_simps)
qed

subsection \<open>Copying to the user\<close>

definition overlay :: "(ptr \<Rightarrow> u8) \<Rightarrow> ptr \<Rightarrow> u8 list \<Rightarrow> ptr \<Rightarrow> u8" where
  "overlay f ub xs = (\<lambda>p. if ub \<le> p \<and> p < ub + length xs then xs ! (p - ub) else f p)"

lemma overlay_Nil [simp]: "overlay f ub [] = f"
  by (auto simp: overlay_def fun_eq_iff)

lemma overlay_append: "overlay (overlay f ub xs) (ub + length xs) ys = overlay f ub (xs @ ys)"
  by (auto simp: overlay_def fun_eq_iff nth_append)

text \<open>The state after \<open>k\<close> bytes at \<open>b_rptr\<close> went to \<open>ub\<close>.\<close>

definition sent :: "ptr \<Rightarrow> mblk \<Rightarrow> nat \<Rightarrow> ptr \<Rightarrow> lis \<Rightarrow> lis" where
  "sent p m k ub s = LisUpCount READCNT ((upd_hds (\<lambda>x. x\<lparr>uacc := tl (uacc x),
     umem := overlay (umem x) ub (map (mem s) [b_rptr m ..< b_rptr m + k])\<rparr>) s)
       \<lparr>mb := (mb s)(p \<mapsto> m\<lparr>b_rptr := b_rptr m + k\<rparr>)\<rparr>)"

lemma sent_fields [simp]:
  "mb (sent p m k ub s) = (mb s)(p \<mapsto> m\<lparr>b_rptr := b_rptr m + k\<rparr>)" "db (sent p m k ub s) = db s"
  "mem (sent p m k ub s) = mem s" "sds (sent p m k ub s) = sds s" "qs (sent p m k ub s) = qs s"
  "qbands (sent p m k ub s) = qbands s" "uacc (hds (sent p m k ub s)) = tl (uacc (hds s))"
  "umem (hds (sent p m k ub s)) = overlay (umem (hds s)) ub (map (mem s) [b_rptr m ..< b_rptr m + k])"
  by (simp_all add: sent_def upd_hds_def stats_set_eq)

lemma sent_eq:
  assumes "mb s p = Some m" "uacc (hds s) = True # oks"
  shows "(case lis_copyout (b_rptr m) ub k s of (err, u) \<Rightarrow>
      do { v \<leftarrow> upd_mb p (\<lambda>m. m\<lparr>b_rptr := b_rptr m + k\<rparr>) u; Some (err, LisUpCount READCNT v) }) = Some (0, sent p m k ub s)"
proof -
  have "overlay f ub (map (mem s) [b_rptr m ..< b_rptr m + k]) =
      (\<lambda>p. if ub \<le> p \<and> p < ub + k then mem s (b_rptr m + (p - ub)) else f p)" for f
    by (auto simp: overlay_def fun_eq_iff)
  then show ?thesis using assms by (simp add: lis_copyout_def user_access_def upd_hds_def upd_mb_def sent_def cong: if_cong)
qed

lemma sent_readable:
  assumes "readable L s p (p # ps)" "mb s p = Some m" "k \<le> b_wptr m - b_rptr m"
  shows "readable L (sent p m k ub s) p (p # ps)" "blk_bytes (sent p m k ub s) p = drop k (blk_bytes s p)"
    "msg_bytes (sent p m k ub s) ps = msg_bytes s ps"
proof -
  let ?t = "sent p m k ub s"
  from assms(1) obtain d where m: "p \<noteq> NULL" "db s (b_datap m) = Some d" "db_type d = M_DATA" "b_rptr m \<le> b_wptr m"
    "b_wptr m - b_rptr m < 2 ^ 31" "readable L s (b_cont m) ps" "p \<in> L" "p \<notin> set ps"
    using assms(2) by (elim readable_Cons) auto
  have same: "mb ?t x = mb s x" if "x \<in> set ps" for x using that m(8) by auto
  have inv: "msg_inv L ?t"
    using msg_inv_upd_mb[of L s p m "m\<lparr>b_rptr := b_rptr m + k\<rparr>" ?t] assms(1,2) by (simp add: readable_def)
  have "same_data s ?t x" if "x \<in> set ps" for x
  proof (rule same_data_kept)
    show "datap s x \<in> dom (db s)" using m(6) that by (auto simp: readable_def msg_inv_def)
  qed (use same that in simp_all)
  then have c: "mchain ?t (b_cont m) ps" "\<forall>x \<in> set ps. blk_ok ?t x"
    using m(6) same_data_chain[of ps s ?t] same_data_ok[of s ?t] by (auto simp: readable_def)
  have "blk_ok ?t p" using m assms(2,3) by (auto simp: blk_ok_def blk_type_def blk_db_def)
  then show "readable L ?t p (p # ps)"
    using inv c m assms(1,2) by (auto simp: readable_def mchain_Cons)
  show "blk_bytes ?t p = drop k (blk_bytes s p)" using assms(2,3) by (simp add: blk_bytes_def drop_map)
  show "msg_bytes ?t ps = msg_bytes s ps" using same by (intro msg_bytes_cong) simp_all
qed

text \<open>
  The outcome of reading \<open>bs\<close> from state \<open>s\<close> with room for \<open>u - c\<close> bytes: the first \<open>n\<close> go to the user, the
  rest is what the message returned still holds, and nothing but messages and the user's memory changes.
\<close>

definition read_done :: "nat \<Rightarrow> nat \<Rightarrow> ptr \<Rightarrow> u8 list \<Rightarrow> lis \<Rightarrow> (int \<times> ptr \<times> ptr \<times> int \<times> int \<times> lis) option \<Rightarrow> bool" where
  "read_done u c ub bs s r \<longleftrightarrow>
     (\<exists>mp ml t L ps. let n = min (u - c) (length bs) in
        r = Some (0, mp, ub + n, int (c + n), ml, t) \<and>
        umem (hds t) = overlay (umem (hds s)) ub (take n bs) \<and>
        readable L t mp ps \<and> msg_bytes t ps = drop n bs \<and> sds t = sds s \<and> qs t = qs s \<and> mem t = mem s)"

lemma read_done_step:
  assumes "read_done u (c + length xs) (ub + length xs) ys t r" "c + length xs \<le> u"
    "umem (hds t) = overlay (umem (hds s)) ub xs" "sds t = sds s" "qs t = qs s" "mem t = mem s"
  shows "read_done u c ub (xs @ ys) s r"
proof -
  let ?n = "min (u - (c + length xs)) (length ys)"
  have n: "min (u - c) (length (xs @ ys)) = length xs + ?n" using assms(2) by simp
  have tk: "take (length xs + ?n) (xs @ ys) = xs @ take ?n ys" by simp
  from assms(1) obtain mp ml v L ps where r: "r = Some (0, mp, ub + length xs + ?n, int (c + length xs + ?n), ml, v)"
    "umem (hds v) = overlay (umem (hds t)) (ub + length xs) (take ?n ys)"
    "readable L v mp ps" "msg_bytes v ps = drop ?n ys" "sds v = sds t" "qs v = qs t" "mem v = mem t"
    unfolding read_done_def Let_def by blast
  have "umem (hds v) = overlay (umem (hds s)) ub (xs @ take ?n ys)"
    using r(2) assms(3) by (simp add: overlay_append)
  then show ?thesis unfolding read_done_def Let_def n tk
    using r assms(4-6) by (intro exI[of _ mp] exI[of _ ml] exI[of _ v] exI[of _ L] exI[of _ ps]) (simp add: add.assoc)
qed

lemma read_done_stop:
  assumes "readable L s mp ps" "c = u \<or> msg_bytes s ps = []" "c \<le> u"
  shows "read_done u c ub (msg_bytes s ps) s (Some (0, mp, ub, int c, ml, s))"
  unfolding read_done_def Let_def using assms
  by (intro exI[of _ mp] exI[of _ ml] exI[of _ s] exI[of _ L] exI[of _ ps]) auto

lemma word_room: "c \<le> u \<Longrightarrow> u < 2 ^ 31 \<Longrightarrow> uint ((of_nat u :: u64) - of_nat c) = int (u - c)"
  by (simp add: unsigned_of_nat take_bit_int_eq_self take_bit_nat_eq_self flip: of_nat_diff)

lemma word_less: "c \<le> u \<Longrightarrow> u < 2 ^ 31 \<Longrightarrow> ((of_nat c :: u64) < of_nat u) = (c < u)"
  by (simp add: word_less_nat_alt unsigned_of_nat take_bit_nat_eq_self)

text \<open>The user's memory can be reached for the next \<open>n\<close> accesses.\<close>

definition accessible :: "nat \<Rightarrow> lis \<Rightarrow> bool" where
  "accessible n s \<longleftrightarrow> list_all id (uacc (hds s)) \<and> n \<le> length (uacc (hds s))"

text \<open>What a round of the loop copies, and how it goes on.\<close>

definition sent_some :: "ptr \<Rightarrow> mblk \<Rightarrow> nat \<Rightarrow> ptr \<Rightarrow> lis \<Rightarrow> lis" where
  "sent_some p m n ub s = (if b_wptr m - b_rptr m = 0 then s else sent p m n ub s)"

definition rd_cont :: "nat \<Rightarrow> nat \<Rightarrow> ptr \<Rightarrow> int \<Rightarrow> ptr \<times> lis \<Rightarrow> (int \<times> ptr \<times> ptr \<times> int \<times> int \<times> lis) option" where
  "rd_cont u c ub ml = (\<lambda>(next, w). if c < u \<and> next \<noteq> NULL
     then rd_blocks (of_nat u) next ub (int c) ml w else Some (0, next, ub, int c, ml, w))"

lemma sent_some_facts:
  fixes ub
  assumes "readable L s p (p # ps)" "mb s p = Some m" "n = min k (b_wptr m - b_rptr m)"
  defines "v \<equiv> sent_some p m n ub s"
  shows "readable L v p (p # ps)" "blk_bytes v p = drop n (blk_bytes s p)" "msg_bytes v ps = msg_bytes s ps"
      "umem (hds v) = overlay (umem (hds s)) ub (take n (blk_bytes s p))" "sds v = sds s" "qs v = qs s" "mem v = mem s"
      "accessible (Suc j) s \<Longrightarrow> accessible j v"
  using sent_readable[OF assms(1,2), of n] assms(1-3)
  by (auto simp: v_def sent_some_def blk_bytes_def take_map take_upt accessible_def list.pred_set
      dest: list.set_sel(2)[rotated])

lemma rd_blocks_step:
  fixes ub
  assumes "readable L s p (p # ps)" "c < u" "u < 2 ^ 31" "accessible 1 s" "mb s p = Some m"
  defines "len \<equiv> b_wptr m - b_rptr m"
  defines "n \<equiv> min (u - c) len"
  defines "v \<equiv> sent_some p m n ub s"
  shows "rd_blocks (of_nat u) p ub (int c) ml s =
    do { x \<leftarrow> (if n = len then do { (next, w) \<leftarrow> lis_unlinkb p v; w \<leftarrow> lis_freeb p w; Some (next, w) } else Some (p, v));
         rd_cont u (c + n) (ub + n) (if len = 0 then ml else c_int (ml + int len)) x }"
proof -
  have m: "lis_btype p s = Some M_DATA" "b_rptr m \<le> b_wptr m" "len < 2 ^ 31" "mb s p = Some m"
    using readable_Cons[OF assms(1)] assms(5) by (auto simp: len_def)
  have nb: "ptrdiff (b_wptr m) (b_rptr m) = int len"
    using m by (simp add: ptrdiff_def len_def c_int_id of_nat_diff)
  show ?thesis
  proof (cases "len = 0")
    case True
    then show ?thesis using m nb assms(2,3)
      by (subst rd_blocks.simps) (simp add: v_def sent_some_def n_def rd_cont_def word_less len_def split: bind_splits)
  next
    case False
    obtain oks where oks: "uacc (hds s) = True # oks"
      using assms(4) by (cases "uacc (hds s)") (auto simp: accessible_def)
    have ch: "min (uint ((of_nat u :: u64) - word_of_int (int c))) (int len) = int n"
      using assms(2,3) word_room[of c u] by (simp add: n_def of_nat_diff)
    obtain u0 u1 where co: "lis_copyout (b_rptr m) ub n s = (0, u0)"
      "upd_mb p (\<lambda>m. m\<lparr>b_rptr := b_rptr m + n\<rparr>) u0 = Some u1" "LisUpCount READCNT u1 = v"
      using sent_eq[OF m(4) oks, of n ub] False by (auto simp: v_def sent_some_def len_def split: prod.splits bind_splits)
    have "c_int (int c + int n) = int (c + n)" using assms(2,3) by (simp add: n_def c_int_id)
    moreover have "(int len - int n \<le> 0) = (n = len)" by (auto simp: n_def)
    moreover have "((of_nat c + of_nat n :: u64) < of_nat u) = (c + n < u)"
      using word_less[of "c + n" u] assms(2,3) by (simp add: n_def)
    ultimately show ?thesis using m nb ch co False assms(2,3)
      by (cases "n = len"; subst rd_blocks.simps) (simp_all add: rd_cont_def Let_def cong: if_cong)
  qed
qed

lemma rd_blocks_bytes:
  assumes "readable L s mp ps" "ps \<noteq> []" "c < u" "u < 2 ^ 31" "accessible (length ps) s"
  shows "read_done u c ub (msg_bytes s ps) s (rd_blocks (of_nat u) mp ub (int c) ml s)"
  using assms
proof (induction ps arbitrary: L s mp c ub ml)
  case (Cons p ps)
  from Cons.prems(1) obtain m d where m: "mp = p" "mb s p = Some m" "length (blk_bytes s p) = b_wptr m - b_rptr m"
    by (rule readable_Cons)
  have rd: "readable L s p (p # ps)" using Cons.prems(1) m(1) by simp
  define len where "len = b_wptr m - b_rptr m"
  define n where "n = min (u - c) len"
  define v where "v = sent_some p m n ub s"
  define ml' where "ml' = (if len = 0 then ml else c_int (ml + int len))"
  note v = sent_some_facts[OF rd m(2), where ub = ub and n = n and k = "u - c", folded len_def v_def, OF n_def]
  have "accessible 1 s" using Cons.prems(5) by (simp add: accessible_def)
  note eq = rd_blocks_step[OF rd Cons.prems(3,4) this m(2), where ub = ub and ml = ml, folded len_def, folded n_def, folded v_def ml'_def]
  let ?xs = "take n (blk_bytes s p)"
  have lx: "length ?xs = n" "c + n \<le> u" using m(3) Cons.prems(3) by (simp_all add: n_def len_def)
  show ?case
  proof (cases "n = len")
    case True
    obtain t and m' :: mblk where t: "(do { (next, w) \<leftarrow> lis_unlinkb p v; w \<leftarrow> lis_freeb p w; Some (next, w) }) = Some (b_cont m', t)"
      "readable (L - {p}) t (b_cont m') ps" "msg_bytes t ps = msg_bytes v ps" "non_msg t = non_msg v"
      using drop_block[OF v(1)] by blast
    have "read_done u (c + n) (ub + n) (msg_bytes t ps) t (rd_cont u (c + n) (ub + n) ml' (b_cont m', t))"
    proof (cases "c + n < u \<and> b_cont m' \<noteq> NULL")
      case True
      have "ps \<noteq> []" "accessible (length ps) t"
        using True t(2,4) v(8) Cons.prems(5) by (auto simp: readable_def accessible_def non_msg_fields)
      from Cons.IH[OF t(2) this(1) _ Cons.prems(4) this(2), of "c + n"] True show ?thesis by (simp add: rd_cont_def)
    next
      case False
      then have "ps = [] \<or> c + n = u" using t(2) lx(2) by (cases ps) (auto simp: readable_def mchain_Cons)
      then show ?thesis using False lx(2) t(2) read_done_stop[OF t(2), of "c + n" u "ub + n" ml'] by (auto simp: rd_cont_def)
    qed
    then have "read_done u c ub (?xs @ msg_bytes t ps) s (rd_cont u (c + n) (ub + n) ml' (b_cont m', t))"
      by (intro read_done_step[of _ _ _ _ _ t]) (use lx t(4) v in \<open>simp_all add: non_msg_fields\<close>)
    moreover have "?xs = blk_bytes s p" using True m(3) by (simp add: len_def)
    ultimately show ?thesis using m(1) eq True t(1,3) v(3) by simp
  next
    case False
    then have "c + n = u" using Cons.prems(3) by (auto simp: n_def)
    then have "read_done u (c + n) (ub + n) (msg_bytes v (p # ps)) v (rd_cont u (c + n) (ub + n) ml' (p, v))"
      using read_done_stop[OF v(1), of "c + n" u "ub + n" ml'] by (simp add: rd_cont_def)
    then have "read_done u c ub (?xs @ msg_bytes v (p # ps)) s (rd_cont u (c + n) (ub + n) ml' (p, v))"
      by (intro read_done_step[of _ _ _ _ _ v]) (use lx v in simp_all)
    then show ?thesis using m(1) eq False v(2,3) by (simp flip: append_assoc)
  qed
qed simp

end
