(* ===== verification/LiS_HeadIoctl.thy ===== *)
theory LiS_HeadIoctl
  imports LiS_HeadMsg LiS_HeadList
begin

text \<open>
  The exchange of an ioctl with the modules and the driver of a stream, \<open>lis_strdoioctl\<close> of
  \<open>head/head.c\<close>: an \<open>M_IOCTL\<close> goes down, the stream head sleeps, and what \<open>lis_strrput\<close> stores in
  \<open>sd_iocblk\<close> is the end of it or a request to copy, answered by an \<open>M_IOCDATA\<close>.  The layout of the
  structures is that of x86-64, the kernel one after 4.15; not the variant of RHEL 9.
\<close>

unbundle bit_operations_syntax

abbreviation (input) ETIME :: int where "ETIME \<equiv> 62"
abbreviation (input) ENXIO :: int where "ENXIO \<equiv> 6"
abbreviation (input) INFTIM :: int where "INFTIM \<equiv> -1"
abbreviation (input) TRANSPARENT :: int where "TRANSPARENT \<equiv> -1"
abbreviation (input) LIS_DFLT_TIM :: int where "LIS_DFLT_TIM \<equiv> 15"

definition I_STR :: int where "I_STR = 0xdc08"
definition I_LINK :: int where "I_LINK = 0xdc0c"
definition I_UNLINK :: int where "I_UNLINK = 0xdc0d"
definition I_PLINK :: int where "I_PLINK = 0xdc16"
definition I_PUNLINK :: int where "I_PUNLINK = 0xdc17"

record strioctl =
  ic_cmd :: int
  ic_timout :: int
  ic_len :: int
  ic_dp :: ptr

text \<open>Numbers in the bytes of a message.\<close>

definition mem_put64 :: "ptr \<Rightarrow> u64 \<Rightarrow> lis \<Rightarrow> lis" where
  "mem_put64 p v s = mem_put32 (p + 4) (ucast (drop_bit 32 v)) (mem_put32 p (ucast v) s)"

definition mem_int :: "lis \<Rightarrow> ptr \<Rightarrow> int" where
  "mem_int s p = sint (mem_u32 s p)"

definition mem_ptr :: "lis \<Rightarrow> ptr \<Rightarrow> ptr" where
  "mem_ptr s p = unat (mem_u64 s p)"

definition mem_copy :: "ptr \<Rightarrow> ptr \<Rightarrow> nat \<Rightarrow> lis \<Rightarrow> lis" where
  "mem_copy dst src n s = s\<lparr>mem := (\<lambda>p. if dst \<le> p \<and> p < dst + n then mem s (src + (p - dst)) else mem s p)\<rparr>"

subsection \<open>The timer and the wait\<close>

text \<open>\<open>lis_tmout\<close> of the ioctl timer on the stack of the caller, and \<open>lis_untmout\<close>.\<close>

definition ioc_tmout :: "ptr \<Rightarrow> lis \<Rightarrow> lis" where
  "ioc_tmout hdp s = upd_hds (\<lambda>x. x\<lparr>iotimers := hdp # iotimers x\<rparr>) s"

definition ioc_untmout :: "ptr \<Rightarrow> lis \<Rightarrow> lis" where
  "ioc_untmout hdp s = upd_hds (\<lambda>x. x\<lparr>iotimers := remove1 hdp (iotimers x)\<rparr>) s"

definition lis_do_tmout :: "ptr \<Rightarrow> lis \<Rightarrow> lis option" where
  "lis_do_tmout hdp s = do {
     h \<leftarrow> sds s hdp;
     if sd_magic h \<noteq> STDATA_MAGIC then Some s
     else if F_ISSET (sd_flag h) STIOCTMR
     then do {
       s \<leftarrow> CLR_SD_FLAG hdp STIOCTMR s;
       if F_ISSET (sd_flag h) IOCWAIT then lis_wake_up_wiocing hdp s else Some s }
     else Some s }"

definition lis_do_rd_tmout :: "henv \<Rightarrow> ptr \<Rightarrow> lis \<Rightarrow> lis option" where
  "lis_do_rd_tmout e hdp s = do {
     h \<leftarrow> sds s hdp;
     if sd_magic h \<noteq> STDATA_MAGIC then Some s else lis_wake_up_wread e hdp s }"

definition lis_wait_for_wiocing :: "henv \<Rightarrow> ptr \<Rightarrow> int \<Rightarrow> bool \<Rightarrow> lis \<Rightarrow> (int \<times> lis) option" where
  "lis_wait_for_wiocing e hdp tmout ignore_errors s = do {
     let tmout = (if tmout = 0 then LIS_DFLT_TIM else tmout);
     h \<leftarrow> sds s hdp;
     if \<not> ignore_errors \<and> F_ISSET (sd_flag h) (STRDERR OR STWRERR) then Some (- sd_rerror h, s)
     else do {
       s \<leftarrow> SET_SD_FLAG hdp STIOCTMR s;
       let s = (if tmout \<noteq> INFTIM then ioc_tmout hdp s else s);
       (rslt, s) \<leftarrow> lis_sleep_on_wiocing e hdp s;
       h \<leftarrow> sds s hdp;
       if rslt \<ge> 0 \<and> \<not> F_ISSET (sd_flag h) STIOCTMR then Some (- ETIME, s)
       else do {
         s \<leftarrow> CLR_SD_FLAG hdp STIOCTMR (if tmout \<noteq> INFTIM then ioc_untmout hdp s else s);
         Some (if rslt < 0 then rslt else 0, s) } } }"

subsection \<open>Data of the answer\<close>

text \<open>\<open>copyout_blks\<close> frees the blocks it has gone through, copied or not; \<open>count\<close> is a \<open>long\<close>.\<close>

partial_function (option) copyout_blks_loop :: "ptr \<Rightarrow> int \<Rightarrow> ptr \<Rightarrow> int \<Rightarrow> lis \<Rightarrow> (int \<times> lis) option" where
  "copyout_blks_loop ubuff count mp err s =
     (if mp \<noteq> NULL \<and> count > 0
      then do {
        m \<leftarrow> mb s mp;
        s \<leftarrow> upd_mb mp (\<lambda>m. m\<lparr>b_cont := NULL\<rparr>) s;
        let len = c_int (min count (int (b_wptr m) - int (b_rptr m)));
        () \<leftarrow> (if err = 0 \<and> len < 0 then None else Some ());
        (err', s) \<leftarrow> Some (if err = 0 then lis_copyout (b_rptr m) ubuff (nat len) s else (err, s));
        s \<leftarrow> lis_freeb mp s;
        copyout_blks_loop (if err = 0 then ptr_add ubuff len else ubuff) (if err = 0 then count - len else count)
          (b_cont m) err' s }
      else Some (err, s))"

definition copyout_blks :: "ptr \<Rightarrow> int \<Rightarrow> ptr \<Rightarrow> lis \<Rightarrow> (int \<times> lis) option" where
  "copyout_blks ubuff count mp s = do {
     (err, s) \<leftarrow> copyout_blks_loop ubuff count mp 0 s;
     Some (if err < 0 then err else 0, s) }"

subsection \<open>The request\<close>

text \<open>
  The data block of the request.  The results are the code, the block and the state; when the data
  cannot be had the first block \<open>mioc\<close> is freed or left as in the code.
\<close>

definition ioc_data :: "strioctl \<Rightarrow> bool \<Rightarrow> ptr \<Rightarrow> lis \<Rightarrow> (int \<times> lis) option" where
  "ioc_data ioc do_copyin mioc s =
     (if ic_len ioc = 0 then Some (0, s)
      else do {
        (err, s) \<leftarrow> Some (if do_copyin then lis_check_umem s else (0, s));
        if err < 0 then Some (err, s)
        else if do_copyin \<and> ic_len ioc < 0 then None
        else do {
          (mdta, s) \<leftarrow> lis_allocb (if ic_len ioc = TRANSPARENT then 8 else ic_len ioc) s;
          if mdta = NULL
          then do { s \<leftarrow> lis_freemsg mioc s; Some (- ENOMEM, s) }
          else do {
            m \<leftarrow> mb s mdta;
            let len = nat (ic_len ioc);
            (err, s) \<leftarrow>
              Some (if do_copyin then lis_copyin (b_wptr m) (ic_dp ioc) len s
                    else if ic_len ioc \<noteq> TRANSPARENT then (0, mem_copy (b_wptr m) (ic_dp ioc) len s)
                    else (0, mem_put64 (b_wptr m) (of_nat (ic_dp ioc)) s));
            if err < 0
            then do { s \<leftarrow> lis_freemsg mioc s; Some (err, s) }
            else do {
              s \<leftarrow> upd_mb mdta (\<lambda>m. m\<lparr>b_wptr := b_wptr m + (if ic_len ioc = TRANSPARENT then 8 else len)\<rparr>) s;
              s \<leftarrow> lis_linkb mioc mdta s;
              Some (0, s) } } } })"

text \<open>
  The \<open>iocblk_t\<close> of 64 bytes: \<open>ioc_cmd\<close> at 0, \<open>ioc_cr\<close> at 8, \<open>ioc_id\<close> at 16, \<open>ioc_count\<close> at 20, \<open>ioc_error\<close>
  at 24, \<open>ioc_rval\<close> at 28 and \<open>ioc_filler\<close> from 32 on; \<open>ioc_id\<close> is set last.
\<close>

definition ioc_fill :: "strioctl \<Rightarrow> ptr \<Rightarrow> ptr \<Rightarrow> lis \<Rightarrow> (ptr \<times> lis) option" where
  "ioc_fill ioc creds mioc s = do {
     m \<leftarrow> mb s mioc;
     let iocb = b_wptr m;
     s \<leftarrow> upd_mb mioc (\<lambda>m. m\<lparr>b_wptr := b_wptr m + 64\<rparr>) s;
     s \<leftarrow> set_btype mioc M_IOCTL s;
     let s = mem_put32 iocb (word_of_int (ic_cmd ioc)) s;
     let s = mem_put64 (iocb + 8) (of_nat creds) s;
     let s = mem_put32 (iocb + 20) (word_of_int (ic_len ioc)) s;
     let s = mem_put32 (iocb + 24) 0 s;
     let s = mem_put32 (iocb + 28) 0 s;
     let s = mem_put64 (iocb + 32) 0 s;
     let s = mem_put64 (iocb + 40) 0 s;
     let s = mem_put64 (iocb + 48) 0 s;
     let s = mem_put64 (iocb + 56) 0 s;
     Some (iocb, s) }"

subsection \<open>The answers\<close>

text \<open>\<open>return_point\<close>.\<close>

definition ioc_return :: "ptr \<Rightarrow> ptr \<Rightarrow> int \<Rightarrow> strioctl \<Rightarrow> lis \<Rightarrow> (int \<times> strioctl \<times> lis) option" where
  "ioc_return hdp mioc errv ioc s = do {
     s \<leftarrow> (if mioc \<noteq> NULL then lis_freemsg mioc s else Some s);
     (_, s) \<leftarrow> lis_head_put hdp s;
     Some (errv, ioc, s) }"

text \<open>\<open>M_IOCACK\<close>: the value to return.\<close>

definition ioc_ack :: "bool \<Rightarrow> ptr \<Rightarrow> strioctl \<Rightarrow> lis \<Rightarrow> (int \<times> strioctl \<times> lis) option" where
  "ioc_ack do_copyin mioc ioc s = do {
     m \<leftarrow> mb s mioc;
     let err = mem_int s (b_rptr m + 24);
     let rval = mem_int s (b_rptr m + 28);
     let len = mem_int s (b_rptr m + 20);
     if err \<noteq> 0 then Some (c_int (- err), ioc\<lparr>ic_len := 0\<rparr>, s)
     else do {
       (dat, s) \<leftarrow> lis_unlinkb mioc s;
       (rval, dat, ioc, s) \<leftarrow>
         (if do_copyin \<and> len > 0
          then (case lis_check_umem s of (err, s) \<Rightarrow>
            if err < 0 then Some (err, dat, ioc, s)
            else do {
              (_, s) \<leftarrow> copyout_blks (ic_dp ioc) len dat s;
              Some (rval, NULL, ioc\<lparr>ic_len := len\<rparr>, s) })
          else Some (rval, dat, if do_copyin \<and> dat \<noteq> NULL then ioc\<lparr>ic_len := 0\<rparr> else ioc, s));
       s \<leftarrow> (if dat \<noteq> NULL then lis_freemsg dat s else Some s);
       Some (rval, ioc, s) } }"

definition ioc_nak :: "ptr \<Rightarrow> lis \<Rightarrow> int option" where
  "ioc_nak mioc s = do {
     m \<leftarrow> mb s mioc;
     let res = c_int (- mem_int s (b_rptr m + 24));
     Some (if res \<noteq> 0 then res else - EINVAL) }"

text \<open>
  A \<open>copyreq_t\<close> has \<open>cq_addr\<close> at 24 and \<open>cq_size\<close> at 32; the \<open>copyresp_t\<close> of 80 bytes that takes its
  place has \<open>cp_rval\<close> at 24.  The code for a failed copy is stored four pointers behind \<open>cp_rval\<close>.
\<close>

definition ioc_failed :: "ptr \<Rightarrow> int \<Rightarrow> lis \<Rightarrow> lis" where
  "ioc_failed cr err s = mem_put32 (cr + 24 + 4 * 8) (word_of_int (- err)) (mem_put64 (cr + 24) 0 s)"

definition ioc_answer :: "ptr \<Rightarrow> lis \<Rightarrow> lis option" where
  "ioc_answer mioc s = upd_mb mioc (\<lambda>m. m\<lparr>b_wptr := b_rptr m + 80\<rparr>) s"

definition ioc_copyin :: "ptr \<Rightarrow> lis \<Rightarrow> (int \<times> lis) option" where
  "ioc_copyin mioc s = do {
     m \<leftarrow> mb s mioc;
     let cr = b_rptr m;
     let len = mem_u32 s (cr + 32);
     let ubuf = mem_ptr s (cr + 24);
     s \<leftarrow> (if b_cont m \<noteq> NULL
          then do { s \<leftarrow> upd_mb mioc (\<lambda>m. m\<lparr>b_cont := NULL\<rparr>) s; lis_freemsg (b_cont m) s }
          else Some s);
     s \<leftarrow> set_btype mioc M_IOCDATA s;
     (err, s) \<leftarrow> Some (lis_check_umem s);
     (err, s) \<leftarrow>
       (if err < 0 then Some (err, ioc_failed cr err s)
        else do {
          (dat, s) \<leftarrow> lis_allocb (sint len) s;
          if dat = NULL then Some (err, mem_put64 (cr + 24) (word_of_int ENOMEM) s)
          else do {
            d \<leftarrow> mb s dat;
            (err, s) \<leftarrow> Some (lis_copyin (b_wptr d) ubuf (unat len) s);
            if err < 0
            then do { s \<leftarrow> lis_freemsg dat (ioc_failed cr err s); Some (err, s) }
            else do {
              s \<leftarrow> upd_mb dat (\<lambda>m. m\<lparr>b_wptr := b_wptr m + unat len\<rparr>) s;
              s \<leftarrow> lis_linkb mioc dat s;
              Some (err, mem_put64 (cr + 24) 0 s) } } });
     s \<leftarrow> ioc_answer mioc s;
     Some (err, s) }"

definition ioc_copyout :: "ptr \<Rightarrow> lis \<Rightarrow> (int \<times> lis) option" where
  "ioc_copyout mioc s = do {
     m \<leftarrow> mb s mioc;
     let cr = b_rptr m;
     let len = mem_u32 s (cr + 32);
     let ubuf = mem_ptr s (cr + 24);
     s \<leftarrow> set_btype mioc M_IOCDATA s;
     (err, s) \<leftarrow> Some (lis_check_umem s);
     (err, s) \<leftarrow>
       (if err < 0 then Some (err, s)
        else do {
          (dat, s) \<leftarrow> lis_unlinkb mioc s;
          (err, s) \<leftarrow> copyout_blks ubuf (uint len) dat s;
          Some (err, if err < 0 then ioc_failed cr err s else mem_put64 (cr + 24) 0 s) });
     s \<leftarrow> ioc_answer mioc s;
     Some (err, s) }"

subsection \<open>The exchange\<close>

text \<open>From the label \<open>again\<close> on.\<close>

partial_function (option) ioc_again ::
  "henv \<Rightarrow> bool \<Rightarrow> ptr \<Rightarrow> ptr \<Rightarrow> int \<Rightarrow> strioctl \<Rightarrow> lis \<Rightarrow> (int \<times> strioctl \<times> lis) option" where
  "ioc_again e do_copyin hdp mioc err ioc s =
     (if err < 0 then ioc_return hdp mioc err (ioc\<lparr>ic_len := 0\<rparr>) s
      else do {
        s \<leftarrow> SET_SD_FLAG hdp IOCWAIT s;
        h \<leftarrow> sds s hdp;
        s \<leftarrow> lis_safe_putnext (h_env e) (sd_wq h) mioc s;
        (err, s) \<leftarrow> lis_wait_for_wiocing e hdp (ic_timout ioc)
                     (ic_cmd ioc \<in> {I_LINK, I_PLINK, I_UNLINK, I_PUNLINK}) s;
        s \<leftarrow> CLR_SD_FLAG hdp IOCWAIT s;
        h \<leftarrow> sds s hdp;
        let mioc = (if err < 0 then NULL else sd_iocblk h);
        if mioc = NULL
        then ioc_return hdp NULL
          (if sd_werror h \<noteq> 0 then sd_werror h else if sd_rerror h \<noteq> 0 then sd_rerror h else err)
          (ioc\<lparr>ic_len := 0\<rparr>) s
        else do {
          s \<leftarrow> upd_sd hdp (\<lambda>h. h\<lparr>sd_iocblk := NULL\<rparr>) s;
          typ \<leftarrow> lis_btype mioc s;
          if typ = M_IOCACK
          then do { (rval, ioc, s) \<leftarrow> ioc_ack do_copyin mioc ioc s; ioc_return hdp mioc rval ioc s }
          else if typ = M_IOCNAK
          then do { res \<leftarrow> ioc_nak mioc s; ioc_return hdp mioc res (ioc\<lparr>ic_len := 0\<rparr>) s }
          else if typ = M_COPYIN
          then do { (err, s) \<leftarrow> ioc_copyin mioc s; ioc_again e do_copyin hdp mioc err ioc s }
          else if typ = M_COPYOUT
          then do { (err, s) \<leftarrow> ioc_copyout mioc s; ioc_again e do_copyin hdp mioc err ioc s }
          else ioc_return hdp mioc (- EINVAL) (ioc\<lparr>ic_len := 0\<rparr>) s } })"

definition lis_strdoioctl ::
  "henv \<Rightarrow> ptr \<Rightarrow> strioctl \<Rightarrow> ptr \<Rightarrow> bool \<Rightarrow> lis \<Rightarrow> (int \<times> strioctl \<times> lis) option" where
  "lis_strdoioctl e hdp ioc creds do_copyin s =
     (if ic_len ioc \<noteq> TRANSPARENT \<and> (ic_len ioc < 0 \<or> ic_timout ioc < -1)
      then Some (- EINVAL, ioc\<lparr>ic_len := 0\<rparr>, s)
      else do {
        (mioc, s) \<leftarrow> lis_allocb 80 s;
        if mioc = NULL then Some (- ENOMEM, ioc\<lparr>ic_len := 0\<rparr>, s)
        else do {
          (err, s) \<leftarrow> ioc_data ioc do_copyin mioc s;
          if err < 0 then Some (err, ioc\<lparr>ic_len := 0\<rparr>, s)
          else do {
            (iocb, s) \<leftarrow> ioc_fill ioc creds mioc s;
            s \<leftarrow> lis_head_get hdp s;
            let n = lis_incr (iocseq (hds s));
            let s = upd_hds (\<lambda>x. x\<lparr>iocseq := n\<rparr>) s;
            s \<leftarrow> upd_sd hdp (\<lambda>h. h\<lparr>sd_iocseq := n\<rparr>) s;
            ioc_again e do_copyin hdp mioc err ioc (mem_put32 (iocb + 16) (word_of_int n) s) } } })"

end
