(* ===== verification/LiS_IoctlSpec.thy ===== *)
theory LiS_IoctlSpec
  imports LiS_HeadIoctl LiS_ReadSpec
begin

text \<open>
  The exchange of an ioctl: which answers the stream head takes, what an error on the stream gives the
  caller, and to whom an answer goes that comes after its caller has given up.
\<close>

unbundle bit_operations_syntax

subsection \<open>The answer\<close>

definition ioc_answers :: "u8 set" where
  "ioc_answers = {M_IOCNAK, M_IOCACK, M_COPYIN, M_COPYOUT, M_IOCDATA}"

text \<open>The stream head of a read queue, with a message for it.\<close>

definition at_head :: "lis \<Rightarrow> ptr \<Rightarrow> ptr \<Rightarrow> queue \<Rightarrow> stdata \<Rightarrow> mblk \<Rightarrow> bool" where
  "at_head s q mp Q h m \<longleftrightarrow> q \<noteq> NULL \<and> qs s q = Some Q \<and> q_magic Q = Q_MAGIC \<and> q_str Q \<noteq> NULL \<and>
     sds s (q_str Q) = Some h \<and> sd_magic h = STDATA_MAGIC \<and> sd_rq h = q \<and> \<not> F_ISSET (q_flag Q) QPROCSOFF \<and> mb s mp = Some m"

text \<open>
  Of the answers that reach a stream head it takes the one that carries the number of the ioctl it
  waits for, and wakes the caller; all others are freed.
\<close>

lemma strrput_answer:
  assumes "at_head s q mp Q h m" "db s (b_datap m) = Some d" "db_type d \<in> ioc_answers"
  defines "v \<equiv> s\<lparr>mb := (mb s)(mp \<mapsto> m\<lparr>b_next := NULL\<rparr>)\<rparr>"
  shows "lis_strrput e q mp s =
    (if F_ISSET (sd_flag h) IOCWAIT \<and> sd_iocblk h = NULL \<and> \<not> F_ISSET (q_flag Q) QCLOSING \<and>
        mem_u32 s (b_rptr m + 16) = word_of_int (sd_iocseq h)
     then Some (sd_set (q_str Q) (h\<lparr>sd_iocblk := mp, sd_wiocing := sd_wiocing h + 1\<rparr>) v)
     else lis_freemsg mp v)"
proof -
  let ?hd = "q_str Q"
  have h: "is_head_rq q s = Some True"
    using assms(1) by (simp add: at_head_def is_head_rq_def q_magic_ok_def)
  have v: "upd_mb mp (\<lambda>m. m\<lparr>b_next := NULL\<rparr>) s = Some v" "sds v ?hd = Some h" "lis_btype mp v = Some (db_type d)"
    "bad_ioc_seq mp ?hd v = Some (mem_u32 s (b_rptr m + 16) \<noteq> word_of_int (sd_iocseq h))"
    using assms(1,2)
    by (simp_all add: at_head_def upd_mb_def v_def lis_btype_def bad_ioc_seq_def mem_u32_def mem_u16_def)
  have take: "(do { s \<leftarrow> upd_sd ?hd (\<lambda>h. h\<lparr>sd_iocblk := mp\<rparr>) v; lis_wake_up_wiocing ?hd s }) =
      Some (sd_set ?hd (h\<lparr>sd_iocblk := mp, sd_wiocing := sd_wiocing h + 1\<rparr>) v)"
    using v(2) by (simp add: upd_sd_set lis_wake_up_wiocing_def sd_up_set)
  have ty: "db_type d \<noteq> M_PCPROTO" "db_type d \<noteq> M_FLUSH" using assms(3) by (auto simp: ioc_answers_def)
  have Q: "qs s q = Some Q" "\<not> F_ISSET (q_flag Q) QPROCSOFF" using assms(1) by (simp_all add: at_head_def)
  show ?thesis
    unfolding lis_strrput_def h bind.bind_lunit Q(1) Let_def v(1,2,3)
    using Q(2) ty assms(3) take v(4) by (auto simp: ioc_answers_def)
qed

subsection \<open>Errors\<close>

text \<open>What goes down, and the state when the caller starts to wait.\<close>

definition ioc_sent :: "henv \<Rightarrow> ptr \<Rightarrow> ptr \<Rightarrow> lis \<Rightarrow> lis option" where
  "ioc_sent e hdp mioc s = do {
     s \<leftarrow> SET_SD_FLAG hdp IOCWAIT s;
     h \<leftarrow> sds s hdp;
     lis_safe_putnext (h_env e) (sd_wq h) mioc s }"

lemma runqueues_sds [simp]: "sds (lis_runqueues s) = sds s"
  by (simp add: lis_runqueues_def lis_setqsched_def)

definition stream_error :: "ptr \<Rightarrow> lis \<Rightarrow> bool" where
  "stream_error hdp s \<longleftrightarrow> (\<exists>h. sds s hdp = Some h \<and> F_ISSET (sd_flag h) (STRDERR OR STWRERR))"

text \<open>With an error on the stream the caller does not wait, and the code is that of \<open>sd_werror\<close>.\<close>

lemma ioc_error:
  assumes "ioc_sent e hdp mioc s = Some t" "sds t hdp = Some k"
    and "F_ISSET (sd_flag k) (STRDERR OR STWRERR)" "sd_werror k \<noteq> 0" "sd_iocblk k = NULL" "sd_refcnt k \<noteq> 1"
    and "ic_cmd ioc \<notin> {I_LINK, I_PLINK, I_UNLINK, I_PUNLINK}" "hdp \<noteq> NULL"
  shows "\<exists>u. ioc_again e dc hdp mioc 0 ioc s = Some (sd_werror k, ioc\<lparr>ic_len := 0\<rparr>, u)"
proof -
  obtain s1 h1 where s1: "SET_SD_FLAG hdp IOCWAIT s = Some s1" "sds s1 hdp = Some h1"
    "lis_safe_putnext (h_env e) (sd_wq h1) mioc s1 = Some t"
    using assms(1) by (auto simp: ioc_sent_def elim!: bind_SomeE)
  have w: "lis_wait_for_wiocing e hdp (ic_timout ioc) False t = Some (- sd_rerror k, t)"
    using assms(2,3) by (simp add: lis_wait_for_wiocing_def)
  let ?k = "k\<lparr>sd_flag := sd_flag k AND NOT IOCWAIT\<rparr>"
  have c: "CLR_SD_FLAG hdp IOCWAIT t = Some (sd_set hdp ?k t)" by (rule sd_flag_set(2)[OF assms(2)])
  have "lis_head_put hdp (sd_set hdp ?k t) = Some (hdp, sd_set hdp (?k\<lparr>sd_refcnt := sd_refcnt k - 1\<rparr>) t)"
    using assms(6,8) by (simp add: lis_head_put_def upd_sd_set)
  then show ?thesis
    using s1 w c assms(4,5,7) by (subst ioc_again.simps) (simp add: ioc_return_def)
qed

subsection \<open>Answers that come late\<close>

text \<open>A caller whose wait fails leaves the answer, if one has come meanwhile, and the count of the semaphore.\<close>

lemma ioc_gives_up:
  assumes "ioc_sent e hdp mioc s = Some t"
    and "lis_wait_for_wiocing e hdp (ic_timout ioc) (ic_cmd ioc \<in> {I_LINK, I_PLINK, I_UNLINK, I_PUNLINK}) t = Some (err, u)"
    and "err < 0" "sds u hdp = Some k" "sd_refcnt k \<noteq> 1" "hdp \<noteq> NULL"
  shows "\<exists>res v k'. ioc_again e dc hdp mioc 0 ioc s = Some (res, ioc\<lparr>ic_len := 0\<rparr>, v) \<and> sds v hdp = Some k' \<and>
    sd_iocblk k' = sd_iocblk k \<and> sd_wiocing k' = sd_wiocing k"
proof -
  obtain s1 h1 where s1: "SET_SD_FLAG hdp IOCWAIT s = Some s1" "sds s1 hdp = Some h1"
    "lis_safe_putnext (h_env e) (sd_wq h1) mioc s1 = Some t"
    using assms(1) by (auto simp: ioc_sent_def elim!: bind_SomeE)
  let ?k = "k\<lparr>sd_flag := sd_flag k AND NOT IOCWAIT\<rparr>"
  have c: "CLR_SD_FLAG hdp IOCWAIT u = Some (sd_set hdp ?k u)" by (rule sd_flag_set(2)[OF assms(4)])
  have "lis_head_put hdp (sd_set hdp ?k u) = Some (hdp, sd_set hdp (?k\<lparr>sd_refcnt := sd_refcnt k - 1\<rparr>) u)"
    using assms(5,6) by (simp add: lis_head_put_def upd_sd_set)
  then show ?thesis
    using s1 assms(2,3) c by (subst ioc_again.simps) (simp add: ioc_return_def)
qed

text \<open>The next caller takes it, whatever ioctl it answers.\<close>

lemma wait_leftover:
  assumes "sds t hdp = Some k" "\<not> F_ISSET (sd_flag k) (STRDERR OR STWRERR)" "0 < sd_wiocing k"
  shows "\<exists>u k'. lis_wait_for_wiocing e hdp tmout ig t = Some (0, u) \<and> sds u hdp = Some k' \<and>
    sd_iocblk k' = sd_iocblk k \<and> mb u = mb t \<and> db u = db t \<and> mem u = mem t"
proof -
  let ?tm = "if tmout = 0 then LIS_DFLT_TIM else tmout"
  let ?k = "k\<lparr>sd_flag := sd_flag k OR STIOCTMR\<rparr>"
  define v where "v = lis_runqueues (if ?tm \<noteq> INFTIM then ioc_tmout hdp (sd_set hdp ?k t) else sd_set hdp ?k t)"
  have v: "sds v hdp = Some ?k" "mb v = mb t" "db v = db t" "mem v = mem t"
    by (simp_all add: v_def ioc_tmout_def upd_hds_def sd_set_def lis_runqueues_def lis_setqsched_def)
  have sl: "lis_sleep_on_wiocing e hdp (if ?tm \<noteq> INFTIM then ioc_tmout hdp (sd_set hdp ?k t) else sd_set hdp ?k t) =
      Some (0, sd_set hdp (?k\<lparr>sd_wiocing := sd_wiocing k - 1\<rparr>) v)"
    using v(1) assms(3) by (simp add: lis_sleep_on_wiocing_def sd_down_def upd_sd_set flip: v_def)
  have fl: "F_ISSET (sd_flag k OR STIOCTMR) STIOCTMR"
    by (simp add: F_ISSET_def STIOCTMR_def bit.conj_disj_distrib2 and.assoc)
  let ?h = "?k\<lparr>sd_wiocing := sd_wiocing k - 1\<rparr>"
  let ?h' = "?h\<lparr>sd_flag := sd_flag ?h AND NOT STIOCTMR\<rparr>"
  define w where "w = (if ?tm \<noteq> INFTIM then ioc_untmout hdp (sd_set hdp ?h v) else sd_set hdp ?h v)"
  have w: "sds w hdp = Some ?h" "mb w = mb v" "db w = db v" "mem w = mem v"
    by (simp_all add: w_def ioc_untmout_def upd_hds_def sd_set_def)
  have "lis_wait_for_wiocing e hdp tmout ig t = Some (0, sd_set hdp ?h' w)"
    using assms(1,2) sl fl sd_flag_set(1)[OF assms(1)] sd_flag_set(2)[OF w(1)]
    by (simp add: lis_wait_for_wiocing_def Let_def w_def)
  then show ?thesis using w v by (simp add: sd_set_def)
qed

text \<open>The head has an answer \<open>mp\<close>, and \<open>n\<close> counts of its semaphore.\<close>

definition holds_answer :: "ptr \<Rightarrow> ptr \<Rightarrow> int \<Rightarrow> lis \<Rightarrow> bool" where
  "holds_answer hdp mp n s \<longleftrightarrow> (\<exists>k. sds s hdp = Some k \<and> sd_iocblk k = mp \<and> sd_wiocing k = n)"

text \<open>The statement \<open>switch (msgtype)\<close>: what the caller of an ioctl does with the answer \<open>mp\<close>.\<close>

definition ioc_taken :: "henv \<Rightarrow> bool \<Rightarrow> ptr \<Rightarrow> ptr \<Rightarrow> strioctl \<Rightarrow> lis \<Rightarrow> (int \<times> strioctl \<times> lis) option" where
  "ioc_taken e do_copyin hdp mp ioc s = do {
     typ \<leftarrow> lis_btype mp s;
     if typ = M_IOCACK
     then do { (rval, ioc, s) \<leftarrow> ioc_ack do_copyin mp ioc s; ioc_return hdp mp rval ioc s }
     else if typ = M_IOCNAK
     then do { res \<leftarrow> ioc_nak mp s; ioc_return hdp mp res (ioc\<lparr>ic_len := 0\<rparr>) s }
     else if typ = M_COPYIN
     then do { (err, s) \<leftarrow> ioc_copyin mp s; ioc_again e do_copyin hdp mp err ioc s }
     else if typ = M_COPYOUT
     then do { (err, s) \<leftarrow> ioc_copyout mp s; ioc_again e do_copyin hdp mp err ioc s }
     else ioc_return hdp mp (- EINVAL) (ioc\<lparr>ic_len := 0\<rparr>) s }"

lemma ioc_takes:
  assumes "ioc_sent e hdp mioc s = Some t" "holds_answer hdp mp n t" "0 < n" "mp \<noteq> NULL" "\<not> stream_error hdp t"
  shows "\<exists>x. ioc_again e dc hdp mioc 0 ioc s = ioc_taken e dc hdp mp ioc x \<and> mb x = mb t \<and> db x = db t \<and> mem x = mem t \<and>
    map_option sd_iocblk (sds x hdp) = Some NULL"
proof -
  let ?ig = "ic_cmd ioc \<in> {I_LINK, I_PLINK, I_UNLINK, I_PUNLINK}"
  obtain k where k: "sds t hdp = Some k" "sd_iocblk k = mp" "0 < sd_wiocing k" "\<not> F_ISSET (sd_flag k) (STRDERR OR STWRERR)"
    using assms(2,3,5) by (auto simp: holds_answer_def stream_error_def)
  obtain s1 h1 where s1: "SET_SD_FLAG hdp IOCWAIT s = Some s1" "sds s1 hdp = Some h1"
    "lis_safe_putnext (h_env e) (sd_wq h1) mioc s1 = Some t"
    using assms(1) by (auto simp: ioc_sent_def elim!: bind_SomeE)
  obtain u and k1 :: stdata where u: "lis_wait_for_wiocing e hdp (ic_timout ioc) ?ig t = Some (0, u)"
    "sds u hdp = Some k1" "sd_iocblk k1 = mp" "mb u = mb t" "db u = db t" "mem u = mem t"
    using wait_leftover[OF k(1,4,3)] k(2) by blast
  define w where "w = sd_set hdp (k1\<lparr>sd_flag := sd_flag k1 AND NOT IOCWAIT, sd_iocblk := NULL\<rparr>) u"
  have c: "CLR_SD_FLAG hdp IOCWAIT u = Some (sd_set hdp (k1\<lparr>sd_flag := sd_flag k1 AND NOT IOCWAIT\<rparr>) u)"
    by (rule sd_flag_set(2)[OF u(2)])
  have w: "upd_sd hdp (\<lambda>h. h\<lparr>sd_iocblk := NULL\<rparr>) (sd_set hdp (k1\<lparr>sd_flag := sd_flag k1 AND NOT IOCWAIT\<rparr>) u) = Some w"
    "mb w = mb t" "db w = db t" "mem w = mem t" "map_option sd_iocblk (sds w hdp) = Some NULL"
    using u by (simp_all add: upd_sd_def w_def sd_set_def)
  have "ioc_again e dc hdp mioc 0 ioc s = ioc_taken e dc hdp mp ioc w"
    using s1 u(1,3) c w(1) assms(4) by (subst ioc_again.simps) (simp add: ioc_taken_def)
  then show ?thesis using w by blast
qed

text \<open>
  Two calls: the first gives up while its answer is, or comes, in the stream head; the second takes it
  in whatever later state it finds it there.
\<close>

lemma ioc_left_over:
  assumes "ioc_sent e hdp mioc s = Some t"
    and "lis_wait_for_wiocing e hdp (ic_timout ioc) (ic_cmd ioc \<in> {I_LINK, I_PLINK, I_UNLINK, I_PUNLINK}) t = Some (err, u)"
    and "err < 0" "holds_answer hdp mp n u" "0 < n" "mp \<noteq> NULL" "hdp \<noteq> NULL" "map_option sd_refcnt (sds u hdp) \<noteq> Some 1"
  shows "\<exists>res v. ioc_again e dc hdp mioc 0 ioc s = Some (res, ioc\<lparr>ic_len := 0\<rparr>, v) \<and> holds_answer hdp mp n v \<and>
    (\<forall>e' dc' mioc' ioc' s' t'. ioc_sent e' hdp mioc' s' = Some t' \<and> holds_answer hdp mp n t' \<and> \<not> stream_error hdp t' \<longrightarrow>
      (\<exists>x. ioc_again e' dc' hdp mioc' 0 ioc' s' = ioc_taken e' dc' hdp mp ioc' x \<and> mb x = mb t' \<and> db x = db t' \<and> mem x = mem t' \<and>
        map_option sd_iocblk (sds x hdp) = Some NULL))"
proof -
  obtain k where k: "sds u hdp = Some k" "sd_iocblk k = mp" "sd_wiocing k = n" "sd_refcnt k \<noteq> 1"
    using assms(4,8) by (auto simp: holds_answer_def)
  obtain res v k' where "ioc_again e dc hdp mioc 0 ioc s = Some (res, ioc\<lparr>ic_len := 0\<rparr>, v)" "sds v hdp = Some k'"
    "sd_iocblk k' = mp" "sd_wiocing k' = n"
    using ioc_gives_up[OF assms(1-3) k(1,4) assms(7)] k(2,3) by blast
  moreover from this have "holds_answer hdp mp n v" by (simp add: holds_answer_def)
  ultimately show ?thesis using ioc_takes[OF _ _ assms(5,6)] by blast
qed

lemma head_put_Some:
  assumes "sds x hdp = Some k"
  shows "\<exists>p y. lis_head_put hdp x = Some (p, y)"
  unfolding lis_head_put_def by (cases "hdp = NULL"; cases "sd_refcnt k = 1") (simp_all add: assms upd_sd_set)

lemma freemsg_one:
  assumes "lis_freeb mp s = Some t" "mb s mp = Some m" "b_cont m = NULL" "mp \<noteq> NULL"
  shows "lis_freemsg mp s = Some t"
proof -
  have "lis_freemsg NULL t = Some t" by (simp add: lis_freemsg.simps)
  then show ?thesis using assms by (simp add: lis_freemsg.simps[of mp] lis_freeb_def)
qed

text \<open>A message of one block that has its data block for itself.\<close>

definition own_nak :: "lis \<Rightarrow> ptr \<Rightarrow> int \<Rightarrow> bool" where
  "own_nak s mp n \<longleftrightarrow> (\<exists>m d. mb s mp = Some m \<and> b_datap m = mp \<and> b_cont m = NULL \<and> db s mp = Some d \<and>
     0 < unat (db_ref d) \<and> db_type d = M_IOCNAK \<and> mem_int s (b_rptr m + 24) = n)"

text \<open>A refusal in a message of its own: the code is that of the refusal.\<close>

lemma taken_nak:
  assumes "own_nak x mp n" "sds x hdp \<noteq> None"
  shows "\<exists>v. ioc_taken e dc hdp mp ioc x = Some (if c_int (- n) \<noteq> 0 then c_int (- n) else - EINVAL, ioc\<lparr>ic_len := 0\<rparr>, v)"
proof -
  obtain m and d :: datab where md: "mb x mp = Some m" "b_datap m = mp" "b_cont m = NULL" "db x mp = Some d"
    "0 < unat (db_ref d)" "db_type d = M_IOCNAK" "mem_int x (b_rptr m + 24) = n"
    using assms(1) by (auto simp: own_nak_def)
  have ty: "lis_btype mp x = Some M_IOCNAK" using md by (simp add: lis_btype_def)
  have nak: "ioc_nak mp x = Some (if c_int (- n) \<noteq> 0 then c_int (- n) else - EINVAL)"
    using md by (simp add: ioc_nak_def)
  show ?thesis
  proof (cases "mp = NULL")
    case True
    obtain k p y where "sds x hdp = Some k" "lis_head_put hdp x = Some (p, y)" using assms(2) head_put_Some by blast
    then show ?thesis using ty nak True by (simp add: ioc_taken_def ioc_return_def)
  next
    case False
    obtain y where y: "lis_freeb mp x = Some y" using lis_freeb_own[of x mp m d] md False by auto
    have "lis_freemsg mp x = Some y" by (rule freemsg_one[OF y md(1,3) False])
    moreover obtain p z where "lis_head_put hdp y = Some (p, z)"
      using freeb_non_msg[OF y] assms(2) head_put_Some by (fastforce simp: non_msg_def)
    ultimately show ?thesis using ty nak False by (simp add: ioc_taken_def ioc_return_def)
  qed
qed

end
