(* ===== verification/LiS_SamplesHead.thy ===== *)
theory LiS_SamplesHead
  imports LiS_Samples LiS_SamplesRun LiS_HeadRing LiS_ReadSpec LiS_IoctlSpec LiS_Locks
begin

text \<open>
  Concrete stream heads for the witnesses: three of them in the list, one of them with sleepers, a
  message to read, processes to signal and an ioctl in progress.
\<close>

unbundle bit_operations_syntax

subsection \<open>Three stream heads\<close>

definition sdh :: "ptr \<Rightarrow> ptr \<Rightarrow> int \<Rightarrow> stdata" where
  "sdh n p i = stdata_zero\<lparr>sd_next := n, sd_prev := p, sd_mux := (sd_mux stdata_zero)\<lparr>mx_index := i\<rparr>\<rparr>"

text \<open>They use the numbers 1 and 2, and the last number given was the largest.\<close>

definition heads :: lis where
  "heads = lis0\<lparr>sds := [100 \<mapsto> sdh 200 300 1, 200 \<mapsto> sdh 300 100 0, 300 \<mapsto> sdh 100 200 2, 400 \<mapsto> sdh NULL NULL 0],
     hds := hds0\<lparr>stdata_head := 100, stdata_cnt := 3, muxid := 2147483647\<rparr>\<rparr>"

lemma heads_list: "sd_list heads [100, 200, 300]"
  by (simp add: sd_list_def ring_def sd_links_def heads_def sdh_def)

lemma heads_new: "sds heads 400 = Some (sdh NULL NULL 0)" "muxid (hds heads) = 2147483647"
  by (simp_all add: heads_def)

lemma heads_mux: "mux_of heads ` set [100, 200, 300] = {0, 1, 2}"
  by (auto simp: mux_of_def heads_def sdh_def)

subsection \<open>Sleepers\<close>

text \<open>Two readers and a writer are asleep on stream head 100; nobody asks for signals.\<close>

definition sleepers :: lis where
  "sleepers = lis0\<lparr>sds := [100 \<mapsto> stdata_zero\<lparr>sd_rdcnt := 2, sd_wrcnt := 1, sd_read_sem := 1\<rparr>]\<rparr>"

lemma sleepers_sd: "sds sleepers 100 = Some (stdata_zero\<lparr>sd_rdcnt := 2, sd_wrcnt := 1, sd_read_sem := 1\<rparr>)"
  by (simp add: sleepers_def)

lemma sleepers_fields:
  "sd_rdcnt (stdata_zero\<lparr>sd_rdcnt := 2, sd_wrcnt := 1, sd_read_sem := 1\<rparr>) = 2"
  "sd_rdsemcnt (stdata_zero\<lparr>sd_rdcnt := 2, sd_wrcnt := 1, sd_read_sem := 1\<rparr>) = 0"
  "\<not> F_ISSET (sd_sigflags (stdata_zero\<lparr>sd_rdcnt := 2, sd_wrcnt := 1, sd_read_sem := 1\<rparr>)) m"
  by (simp_all add: stdata_zero_def F_ISSET_def)

subsection \<open>Processes to signal\<close>

definition watched :: lis where
  "watched = lis0\<lparr>hds := hds0\<lparr>evl := evs1\<rparr>\<rparr>"

lemma watched_elist: "elist (evl (hds watched)) 100 [110, 120]" "ev_map (evl (hds watched)) [110, 120] = [9 \<mapsto> 4, 5 \<mapsto> 3]"
  using evs1_elist evs1_map by (simp_all add: watched_def hds0_def)

subsection \<open>A message to read\<close>

text \<open>Three bytes, none, and five; the user's memory can be reached three times.\<close>

definition to_read :: lis where
  "to_read = lis0\<lparr>mb := [1000 \<mapsto> (blk 1000 0 3)\<lparr>b_cont := 2000\<rparr>, 2000 \<mapsto> (blk 2000 0 0)\<lparr>b_cont := 3000\<rparr>,
     3000 \<mapsto> blk 3000 0 5], db := [1000 \<mapsto> own_db 1000 0, 2000 \<mapsto> own_db 2000 0, 3000 \<mapsto> own_db 3000 0],
     mem := (\<lambda>p. of_nat p), hds := hds0\<lparr>uacc := [True, True, True]\<rparr>\<rparr>"

lemma refs_own:
  assumes "\<forall>m\<in>L. datap s m = m" "x \<in> L"
  shows "refs L s x = 1"
proof -
  have "{m \<in> L. datap s m = x} = {x}" using assms by auto
  then show ?thesis using assms by (simp add: refs_def)
qed

lemma to_read_inv: "msg_inv {1000, 2000, 3000} to_read"
proof -
  let ?L = "{1000, 2000, 3000} :: nat set"
  have d: "\<forall>m\<in>?L. datap to_read m = m" by (simp add: datap_def to_read_def)
  have live: "h \<in> ?L \<and> unat (db_ref e) = 1" if "db to_read h = Some e" for h e
    using that by (auto simp: to_read_def split: if_splits)
  have cnt: "0 < unat (db_ref e) \<and> unat (db_ref e) = refs ?L to_read h" if "db to_read h = Some e" for h e
    using live[OF that] refs_own[OF d, of h] by simp
  have dm: "dom (mb to_read) = ?L" "dom (db to_read) = ?L" by (auto simp: to_read_def split: if_splits)
  show ?thesis unfolding msg_inv_def dm by (intro conjI) (use d cnt in \<open>blast | simp\<close>)+
qed

lemma to_read_readable: "readable {1000, 2000, 3000} to_read 1000 [1000, 2000, 3000]"
  using to_read_inv
  by (auto simp: readable_def mchain_Cons blk_ok_def blk_type_def blk_db_def) (simp_all add: to_read_def)

lemma to_read_bytes:
  "msg_bytes to_read [1000, 2000, 3000] = map (\<lambda>p. of_nat p) [databuf 1000, databuf 1000 + 1, databuf 1000 + 2,
     databuf 3000, databuf 3000 + 1, databuf 3000 + 2, databuf 3000 + 3, databuf 3000 + 4]"
  by (simp add: blk_bytes_def to_read_def upt_rec)

lemma to_read_access: "accessible (length [1000, 2000, 3000 :: nat]) to_read"
  by (simp add: accessible_def to_read_def)

subsection \<open>An ioctl\<close>

text \<open>
  Stream head 90 over the queues 10 and 20, the driver's queue 30 below; the ioctl with number 8 goes
  down in message 2000.  Message 1000 is a refusal of ioctl 7 with the code 13.
\<close>

definition head2 :: stdata where
  "head2 = head1\<lparr>sd_flag := 0, sd_refcnt := 2, sd_iocseq := 8\<rparr>"

definition ioc_blk :: "ptr \<Rightarrow> u8 \<Rightarrow> datab" where
  "ioc_blk h ty = (own_db h ty)\<lparr>db_lim := databuf h + 80, db_size := 80\<rparr>"

definition ioc1 :: lis where
  "ioc1 = lis0\<lparr>qs := [10 \<mapsto> srvq QUSE NULL, 20 \<mapsto> (srvq QUSE NULL)\<lparr>q_next := 30\<rparr>, 30 \<mapsto> srvq QUSE NULL],
     sds := [90 \<mapsto> head2], mb := [1000 \<mapsto> blk 1000 0 64, 2000 \<mapsto> blk 2000 0 64],
     db := [1000 \<mapsto> ioc_blk 1000 M_IOCNAK, 2000 \<mapsto> ioc_blk 2000 M_IOCTL],
     mem := (\<lambda>_. 0)(databuf 1000 + 16 := 7, databuf 1000 + 24 := 13, databuf 2000 + 16 := 8)\<rparr>"

lemma head2_fields [simp]:
  "sd_flag head2 = 0" "sd_refcnt head2 = 2" "sd_iocseq head2 = 8" "sd_iocblk head2 = NULL" "sd_wiocing head2 = 0"
  "sd_wq head2 = 20" "sd_rq head2 = 10" "sd_magic head2 = STDATA_MAGIC"
  by (simp_all add: head2_def head1_def stdata_zero_def)

lemma ioc1_fields [simp]:
  "qs ioc1 = [10 \<mapsto> srvq QUSE NULL, 20 \<mapsto> (srvq QUSE NULL)\<lparr>q_next := 30\<rparr>, 30 \<mapsto> srvq QUSE NULL]"
  "sds ioc1 = [90 \<mapsto> head2]" "mb ioc1 = [1000 \<mapsto> blk 1000 0 64, 2000 \<mapsto> blk 2000 0 64]"
  "db ioc1 = [1000 \<mapsto> ioc_blk 1000 M_IOCNAK, 2000 \<mapsto> ioc_blk 2000 M_IOCTL]"
  by (simp_all add: ioc1_def)

text \<open>The caller waits for ioctl 7, and for ioctl 8.\<close>

definition waits7 :: stdata where
  "waits7 = head2\<lparr>sd_flag := IOCWAIT, sd_iocseq := 7\<rparr>"

lemma ioc1_number: "mem_u32 ioc1 (databuf 1000 + 16) = 7" "mem_int ioc1 (databuf 1000 + 24) = 13"
  by (simp_all add: ioc1_def mem_u32_def mem_u16_def mem_int_def databuf_def)

lemma ioc1_at_head: "at_head (sd_set 90 waits7 ioc1) 10 1000 (srvq QUSE NULL) waits7 (blk 1000 0 64)"
  by (simp add: at_head_def sd_set_def waits7_def F_ISSET_def QUSE_def QPROCSOFF_def)

text \<open>The refusal of ioctl 7 was left in stream head 90, with the count of its semaphore.\<close>

definition left7 :: stdata where
  "left7 = head2\<lparr>sd_iocblk := 1000, sd_wiocing := 1\<rparr>"

lemma ioc1_sent:
  assumes "sd_flag k = 0" "sd_wq k = 20"
  shows "ioc_sent \<lparr>h_env = env1, h_wait = w\<rparr> 90 2000 (sd_set 90 k ioc1) = Some (sd_set 90 (k\<lparr>sd_flag := IOCWAIT\<rparr>) ioc1)"
proof -
  let ?s = "sd_set 90 (k\<lparr>sd_flag := IOCWAIT\<rparr>) ioc1"
  have f: "SET_SD_FLAG 90 IOCWAIT (sd_set 90 k ioc1) = Some ?s"
    using assms by (simp add: sd_flag_set)
  have q: "qs ?s 20 = Some ((srvq QUSE NULL)\<lparr>q_next := 30\<rparr>)" "qs ?s 30 = Some (srvq QUSE NULL)"
    by (simp_all add: sd_set_def)
  have d: "q_defer_head (srvq f NULL) = NULL" for f by (simp add: srvq_def queue_zero_def)
  have put: "do_putmsg_try env1 30 2000 786432 False ?s = Some (True, ?s)"
    by (subst do_putmsg_try.simps)
      (simp add: q(2) d srv_info_def lis_lockq_def lis_unlockq_def env1_def F_ISSET_def QUSE_def QPROCSOFF_def
        QFROZEN_def QDEFERRING_def QOPENING_def)
  then show ?thesis using f q assms
    by (simp add: ioc_sent_def lis_safe_putnext_def q_magic_ok_def lis_safe_putmsg_def lis_safe_do_putmsg_def
        QDEFERRING_def QOPENING_def put)
qed

text \<open>The caller of ioctl 7 is interrupted while the refusal arrives.\<close>

definition interrupted7 :: henv where
  "interrupted7 = \<lparr>h_env = env1, h_wait = (\<lambda>x hdp s. Some (- 4, sd_set 90 (left7\<lparr>sd_flag := IOCWAIT OR STIOCTMR\<rparr>) ioc1))\<rparr>"

lemma ioc1_sent7:
  "sd_flag k = 0 \<Longrightarrow> sd_wq k = 20 \<Longrightarrow>
    ioc_sent interrupted7 90 2000 (sd_set 90 k ioc1) = Some (sd_set 90 (k\<lparr>sd_flag := IOCWAIT\<rparr>) ioc1)"
  unfolding interrupted7_def by (rule ioc1_sent)

definition ioctl7 :: strioctl where
  "ioctl7 = \<lparr>ic_cmd = 0, ic_timout = -1, ic_len = 0, ic_dp = NULL\<rparr>"

lemma ioc1_interrupted:
  "\<exists>f. lis_wait_for_wiocing interrupted7 90 (- 1) False (sd_set 90 (head2\<lparr>sd_iocseq := 7, sd_flag := IOCWAIT\<rparr>) ioc1) =
    Some (- 4, sd_set 90 (left7\<lparr>sd_flag := f\<rparr>) ioc1)"
  by (rule exI[of _ "(IOCWAIT OR STIOCTMR) AND NOT STIOCTMR"])
    (simp add: lis_wait_for_wiocing_def sd_flag_set sd_set_def F_ISSET_def IOCWAIT_def STRDERR_def STWRERR_def
      lis_sleep_on_wiocing_def sd_down_def lis_runqueues_def lis_setqsched_def interrupted7_def
      SET_SD_FLAG_def CLR_SD_FLAG_def upd_sd_def ioc1_def lis0_def)

end
