(* ===== verification/LiS_HeadPush.thy ===== *)
theory LiS_HeadPush
  imports LiS_HeadMsg LiS_HeadList LiS_ModReg LiS_QueueAlloc
begin

text \<open>
  The queues of a stream: opening and attaching the queue pair of a module or driver, detaching it,
  pushing and popping (\<open>head/head.c\<close>).  What depends on other code is the argument \<open>penv\<close>: the open
  and close procedures of modules and drivers, and what happens until the queue runner releases the
  semaphore of a task that waits for it; and what the rest of the kernel does for a close and a link: the
  synchronisation of a FIFO's ends, the cleaning up of a file, the process, the stream of a file
  descriptor, and the address of a structure on the stack.
\<close>

unbundle bit_operations_syntax

abbreviation (input) ENOPKG :: int where "ENOPKG \<equiv> 65"
abbreviation (input) ENOSR :: int where "ENOSR \<equiv> 63"
abbreviation (input) DRVOPEN :: int where "DRVOPEN \<equiv> 0"
abbreviation (input) MODOPEN :: int where "MODOPEN \<equiv> 1"

text \<open>An open procedure gets a device number and may change it.\<close>

record penv =
  p_head :: henv
  p_open :: "nat \<Rightarrow> ptr \<Rightarrow> nat \<Rightarrow> int \<Rightarrow> int \<Rightarrow> ptr \<Rightarrow> lis \<Rightarrow> (int \<times> nat \<times> lis) option"
  p_close :: "nat \<Rightarrow> ptr \<Rightarrow> int \<Rightarrow> ptr \<Rightarrow> lis \<Rightarrow> lis option"
  p_runner :: "ptr \<Rightarrow> lis \<Rightarrow> (int \<times> lis) option"
  p_fifo_close :: "ptr \<Rightarrow> ptr \<Rightarrow> lis \<Rightarrow> lis option"
  p_file_cleanup :: "ptr \<Rightarrow> ptr \<Rightarrow> lis \<Rightarrow> lis option"
  p_pid :: int
  p_fd2str :: "int \<Rightarrow> lis \<Rightarrow> ptr"
  p_stack :: ptr

abbreviation (input) p_env :: "penv \<Rightarrow> env" where "p_env e \<equiv> h_env (p_head e)"

subsection \<open>Waiting for the queue runner\<close>

text \<open>The address of the semaphore on the stack, which no allocator returns.\<close>

definition wakeup_sem :: ptr where "wakeup_sem = 16"

definition q_busy :: "ptr \<Rightarrow> ptr \<Rightarrow> lis \<Rightarrow> bool option" where
  "q_busy rq wq s = do {
     R \<leftarrow> qs s rq;
     W \<leftarrow> qs s wq;
     Some (F_ISSET (q_flag R OR q_flag W) (QENAB OR QSCAN OR QRUNNING)) }"

definition wakeup_down :: "penv \<Rightarrow> ptr \<Rightarrow> ptr \<Rightarrow> lis \<Rightarrow> (int \<times> lis) option" where
  "wakeup_down e hdp q s = do {
     (rslt, s) \<leftarrow>
       (if sems s wakeup_sem > 0 then Some (0, s\<lparr>sems := (sems s)(wakeup_sem := sems s wakeup_sem - 1)\<rparr>)
        else p_runner e q s);
     Some (if hdp \<noteq> NULL then 0 else rslt, s) }"

partial_function (option) await_loop :: "penv \<Rightarrow> ptr \<Rightarrow> ptr \<Rightarrow> ptr \<Rightarrow> int \<Rightarrow> lis \<Rightarrow> (int \<times> lis) option" where
  "await_loop e hdp rq wq rslt s = do {
     busy \<leftarrow> q_busy rq wq s;
     if busy \<and> rslt = 0
     then do {
       (rslt, s) \<leftarrow> wakeup_down e hdp rq (lis_runqueues s);
       await_loop e hdp rq wq rslt s }
     else Some (rslt, s) }"

definition lis_await_qsched :: "penv \<Rightarrow> ptr \<Rightarrow> ptr \<Rightarrow> lis \<Rightarrow> (int \<times> lis) option" where
  "lis_await_qsched e hdp q s = do {
     wq \<leftarrow> lis_safe_WR q s;
     rq \<leftarrow> lis_safe_RD q s;
     busy \<leftarrow> q_busy rq wq s;
     if \<not> busy then Some (0, s)
     else do {
       let s = s\<lparr>sems := (sems s)(wakeup_sem := 0)\<rparr>;
       s \<leftarrow> upd_q wq (\<lambda>Q. Q\<lparr>q_wakeup_sem := wakeup_sem\<rparr>) s;
       s \<leftarrow> upd_q rq (\<lambda>Q. Q\<lparr>q_wakeup_sem := wakeup_sem, q_flag := q_flag Q OR QWAITING\<rparr>) s;
       s \<leftarrow> upd_q wq (\<lambda>Q. Q\<lparr>q_flag := q_flag Q OR QWAITING\<rparr>) s;
       (rslt, s) \<leftarrow> await_loop e hdp rq wq 0 s;
       s \<leftarrow> upd_q rq (\<lambda>Q. Q\<lparr>q_flag := q_flag Q AND NOT QWAITING\<rparr>) s;
       s \<leftarrow> upd_q wq (\<lambda>Q. Q\<lparr>q_flag := q_flag Q AND NOT QWAITING, q_wakeup_sem := NULL\<rparr>) s;
       s \<leftarrow> upd_q rq (\<lambda>Q. Q\<lparr>q_wakeup_sem := NULL\<rparr>) s;
       Some (rslt, s) } }"

subsection \<open>Linking a queue pair\<close>

text \<open>The pair of \<open>newq\<close> goes below the stream head queues \<open>rq\<close> and \<open>wq\<close> (\<open>lis_qattach\<close>).\<close>

definition link_pair :: "ptr \<Rightarrow> ptr \<Rightarrow> ptr \<Rightarrow> ptr \<Rightarrow> lis \<Rightarrow> lis option" where
  "link_pair rq wq newq newwq s = do {
     s \<leftarrow> upd_q newq (\<lambda>Q. Q\<lparr>q_next := rq\<rparr>) s;
     W \<leftarrow> qs s wq;
     let nxt = (if q_next W = rq then newq else q_next W);
     s \<leftarrow> upd_q newwq (\<lambda>Q. Q\<lparr>q_next := nxt\<rparr>) s;
     s \<leftarrow> (if q_next W \<noteq> NULL
          then do { oq \<leftarrow> lis_safe_OTHERQ nxt s; upd_q oq (\<lambda>Q. Q\<lparr>q_next := newq\<rparr>) s }
          else Some s);
     upd_q wq (\<lambda>Q. Q\<lparr>q_next := newwq\<rparr>) s }"

text \<open>And out again, linking around both queues (\<open>lis_qdetach\<close>).\<close>

definition unlink_pair :: "ptr \<Rightarrow> ptr \<Rightarrow> lis \<Rightarrow> lis option" where
  "unlink_pair rq wq s = do {
     W \<leftarrow> qs s wq;
     R \<leftarrow> qs s rq;
     let prev_q = q_next R;
     let next_q = (if q_next W = rq then prev_q else q_next W);
     s \<leftarrow> (if next_q \<noteq> NULL
          then do { oq \<leftarrow> lis_safe_OTHERQ next_q s; upd_q oq (\<lambda>Q. Q\<lparr>q_next := prev_q\<rparr>) s }
          else Some s);
     if prev_q \<noteq> NULL
     then do { w \<leftarrow> lis_safe_WR prev_q s; upd_q w (\<lambda>Q. Q\<lparr>q_next := next_q\<rparr>) s }
     else Some s }"

subsection \<open>Detaching\<close>

text \<open>The queue through which the rest of the stream is unfrozen.\<close>

definition unfreeze_at :: "ptr \<Rightarrow> ptr \<Rightarrow> lis \<Rightarrow> ptr option" where
  "unfreeze_at rq wq s = do {
     R \<leftarrow> qs s rq;
     W \<leftarrow> qs s wq;
     Some (if q_next R \<noteq> NULL then q_next R else if q_next W = rq then NULL else q_next W) }"

definition qprocs_off :: "penv \<Rightarrow> ptr \<Rightarrow> ptr \<Rightarrow> lis \<Rightarrow> lis option" where
  "qprocs_off e rq wq s = do {
     (wr, s) \<leftarrow> lis_lockq (e_cur (p_env e)) wq s;
     (rr, s) \<leftarrow> lis_lockq (e_cur (p_env e)) rq s;
     s \<leftarrow> upd_q wq (\<lambda>Q. Q\<lparr>q_flag := q_flag Q OR QPROCSOFF\<rparr>) s;
     s \<leftarrow> upd_q rq (\<lambda>Q. Q\<lparr>q_flag := q_flag Q OR QPROCSOFF\<rparr>) s;
     s \<leftarrow> (if rr = 0 then lis_unlockq (e_cur (p_env e)) rq s else Some s);
     if wr = 0 then lis_unlockq (e_cur (p_env e)) wq s else Some s }"

definition call_qclose :: "penv \<Rightarrow> ptr \<Rightarrow> bool \<Rightarrow> int \<Rightarrow> ptr \<Rightarrow> lis \<Rightarrow> lis option" where
  "call_qclose e rq do_close flag creds s = do {
     R \<leftarrow> qs s rq;
     case q_qinfo R of
       None \<Rightarrow> Some s
     | Some qi \<Rightarrow>
         if do_close \<and> qi_qclose qi \<noteq> 0
         then p_close e (qi_qclose qi) rq (if q_next R \<noteq> NULL then 0 else flag) creds (lis_runqueues s)
         else Some s }"

definition unlink_and_free :: "penv \<Rightarrow> ptr \<Rightarrow> ptr \<Rightarrow> lis \<Rightarrow> lis option" where
  "unlink_and_free e rq wq s = do {
     (_, s) \<leftarrow> lis_lockq (e_cur (p_env e)) wq s;
     (_, s) \<leftarrow> lis_lockq (e_cur (p_env e)) rq s;
     s \<leftarrow> lis_flushq (p_env e) wq FLUSHALL s;
     s \<leftarrow> lis_flushq (p_env e) rq FLUSHALL s;
     s \<leftarrow> unlink_pair rq wq s;
     s \<leftarrow> lis_unlockq (e_cur (p_env e)) rq s;
     s \<leftarrow> lis_unlockq (e_cur (p_env e)) wq s;
     lis_freeq rq s }"

definition thaw :: "penv \<Rightarrow> ptr \<Rightarrow> ptr \<Rightarrow> lis \<Rightarrow> lis option" where
  "thaw e uq hdp s =
     (if uq \<noteq> NULL
      then do {
        s \<leftarrow> lis_unfreezestr (p_env e) uq s;
        h \<leftarrow> sds s hdp;
        if F_ISSET (sd_flag h) STRFROZEN
        then do { s \<leftarrow> CLR_SD_FLAG hdp STRFROZEN s; (_, s) \<leftarrow> lis_head_put hdp s; Some s }
        else Some s }
      else do { (_, s) \<leftarrow> lis_head_put hdp s; Some s })"

text \<open>The ends of a pipe forget each other.\<close>

definition untwist :: "ptr \<Rightarrow> ptr \<Rightarrow> lis \<Rightarrow> lis option" where
  "untwist hdp peer s = do {
     p \<leftarrow> sds s peer;
     s \<leftarrow> upd_sd peer (\<lambda>h. h\<lparr>sd_peer := peer, sd_flag := sd_flag h AND NOT STRFROZEN\<rparr>) s;
     (_, s) \<leftarrow> lis_head_put peer s;
     s \<leftarrow> (if F_ISSET (sd_flag p) STRFROZEN then do { (_, s) \<leftarrow> lis_head_put peer s; Some s } else Some s);
     s \<leftarrow> upd_sd hdp (\<lambda>h. h\<lparr>sd_peer := hdp\<rparr>) s;
     (_, s) \<leftarrow> lis_head_put hdp s;
     Some s }"

definition qdetach_pair :: "penv \<Rightarrow> ptr \<Rightarrow> ptr \<Rightarrow> ptr \<Rightarrow> bool \<Rightarrow> int \<Rightarrow> ptr \<Rightarrow> lis \<Rightarrow> lis option" where
  "qdetach_pair e hdp rq wq do_close flag creds s = do {
     s \<leftarrow> lis_freezestr rq s;
     uq \<leftarrow> unfreeze_at rq wq s;
     h \<leftarrow> sds s hdp;
     let peer = sd_peer h;
     let closing_pipe = (rq = sd_rq h \<and> peer \<noteq> NULL \<and> peer \<noteq> hdp);
     s \<leftarrow> qprocs_off e rq wq s;
     rok \<leftarrow> q_magic_ok rq s;
     wok \<leftarrow> q_magic_ok wq s;
     if \<not> rok \<or> \<not> wok then lis_unfreezestr (p_env e) rq s
     else do {
       s \<leftarrow> call_qclose e rq do_close flag creds s;
       s \<leftarrow> deschedule rq s;
       (_, s) \<leftarrow> lis_await_qsched e hdp rq s;
       s \<leftarrow> CLR_SD_FLAG hdp STRFLUSHWT s;
       s \<leftarrow> unlink_and_free e rq wq s;
       s \<leftarrow> thaw e uq hdp s;
       if closing_pipe then untwist hdp peer s else Some s } }"

definition lis_qdetach :: "penv \<Rightarrow> ptr \<Rightarrow> bool \<Rightarrow> int \<Rightarrow> ptr \<Rightarrow> lis \<Rightarrow> lis option" where
  "lis_qdetach e q do_close flag creds s =
     (if q = NULL then Some s
      else do {
        wq \<leftarrow> lis_safe_WR q s;
        rq \<leftarrow> lis_safe_RD q s;
        if rq = NULL \<or> wq = NULL then Some s
        else do {
          Q \<leftarrow> qs s q;
          h \<leftarrow> (if q_str Q = NULL then None else sds s (q_str Q));
          if sd_magic h \<noteq> STDATA_MAGIC then None
          else qdetach_pair e (q_str Q) rq wq do_close flag creds s } })"

subsection \<open>Opening and attaching\<close>

definition lis_qopen :: "penv \<Rightarrow> ptr \<Rightarrow> nat \<Rightarrow> int \<Rightarrow> ptr \<Rightarrow> lis \<Rightarrow> (int \<times> nat \<times> lis) option" where
  "lis_qopen e q dev flag creds s = do {
     rq \<leftarrow> lis_safe_RD q s;
     R \<leftarrow> qs s rq;
     case q_qinfo R of
       None \<Rightarrow> Some (- ENOPKG, dev, s)
     | Some qi \<Rightarrow>
         if qi_qopen qi = 0 then Some (0, dev, s)
         else do {
           wq \<leftarrow> lis_safe_WR rq s;
           W \<leftarrow> qs s wq;
           let sflag = (if q_next W \<noteq> NULL then MODOPEN else DRVOPEN);
           (err, dev, s) \<leftarrow> p_open e (qi_qopen qi) rq dev flag sflag creds s;
           Some (if err \<noteq> 0 then if err < 0 then err else c_int (- err) else 0, dev, s) } }"

definition lis_qattach ::
  "penv \<Rightarrow> ptr \<Rightarrow> streamtab option \<Rightarrow> nat \<Rightarrow> int \<Rightarrow> ptr \<Rightarrow> lis \<Rightarrow> (int \<times> nat \<times> lis) option" where
  "lis_qattach e hdp info dev flags creds s = do {
     rq \<leftarrow> (if hdp = NULL then Some NULL else do { h \<leftarrow> sds s hdp; Some (sd_rq h) });
     if rq = NULL then Some (- EIO, dev, s)
     else do {
       (newq, s) \<leftarrow> lis_allocq s;
       if newq = NULL then Some (- ENOMEM, dev, s)
       else do {
         s \<leftarrow> (case info of None \<Rightarrow> Some s | Some i \<Rightarrow> lis_setq newq (st_rdinit i) (st_wrinit i) s);
         wq \<leftarrow> lis_safe_WR rq s;
         newwq \<leftarrow> lis_safe_WR newq s;
         s \<leftarrow> link_pair rq wq newq newwq s;
         s \<leftarrow> upd_q newwq (\<lambda>Q. Q\<lparr>q_str := hdp\<rparr>) s;
         s \<leftarrow> upd_q newq (\<lambda>Q. Q\<lparr>q_str := hdp, q_flag := q_flag Q OR (QWANTR OR QOPENING)\<rparr>) s;
         s \<leftarrow> upd_q newwq (\<lambda>Q. Q\<lparr>q_flag := q_flag Q OR (QWANTR OR QOPENING)\<rparr>) s;
         (err, dev, s) \<leftarrow> lis_qopen e newq dev flags creds s;
         s \<leftarrow> (if err < 0 then lis_qdetach e newq False 0 creds s else Some s);
         Some (err, dev, s) } } }"

text \<open>Every open procedure of the stream, from the stream head down (\<open>open_mods\<close>).\<close>

partial_function (option) open_mods_loop ::
  "penv \<Rightarrow> nat \<Rightarrow> ptr \<Rightarrow> nat \<Rightarrow> int \<Rightarrow> ptr \<Rightarrow> lis \<Rightarrow> (int \<times> nat \<times> lis) option" where
  "open_mods_loop e odev wq dev flags creds s =
     (if wq = NULL then Some (0, dev, s)
      else do {
        rq \<leftarrow> lis_safe_RD wq s;
        (err, dev, s) \<leftarrow> lis_qopen e rq dev flags creds s;
        if err < 0 then Some (err, dev, s)
        else do {
          same \<leftarrow> lis_safe_SAMESTR wq s;
          if \<not> same \<or> odev \<noteq> dev then Some (0, dev, s)
          else do {
            W \<leftarrow> qs s wq;
            open_mods_loop e odev (q_next W) dev flags creds s } } })"

definition open_mods :: "penv \<Rightarrow> ptr \<Rightarrow> nat \<Rightarrow> int \<Rightarrow> ptr \<Rightarrow> lis \<Rightarrow> (int \<times> nat \<times> lis) option" where
  "open_mods e hdp dev flags creds s = do {
     wq \<leftarrow> (if hdp = NULL then Some NULL else do { h \<leftarrow> sds s hdp; Some (sd_wq h) });
     if wq = NULL then Some (- ENOPKG, dev, s)
     else open_mods_loop e dev wq dev flags creds s }"

subsection \<open>Pushing and popping\<close>

definition upd_fmod :: "nat \<Rightarrow> (fmodsw \<Rightarrow> fmodsw) \<Rightarrow> lis \<Rightarrow> lis option" where
  "upd_fmod i f s = do { m \<leftarrow> upd_mod i f (mods (hds s)); Some (upd_hds (\<lambda>x. x\<lparr>mods := m\<rparr>) s) }"

definition push_wait :: "penv \<Rightarrow> ptr \<Rightarrow> ptr \<Rightarrow> ptr \<Rightarrow> lis \<Rightarrow> (int \<times> lis) option" where
  "push_wait e hdp rq lrq s = do {
     (err, s) \<leftarrow> lis_await_qsched e hdp rq s;
     if err < 0 then Some (err, s) else lis_await_qsched e hdp lrq s }"

text \<open>From the attaching on; the result is what the caller gets.\<close>

definition push_attach ::
  "penv \<Rightarrow> ptr \<Rightarrow> streamtab option \<Rightarrow> nat \<Rightarrow> nat \<Rightarrow> int \<Rightarrow> ptr \<Rightarrow> lis \<Rightarrow> (int \<times> nat \<times> lis) option" where
  "push_attach e hdp info i dev flags creds s = do {
     (err, dev, s) \<leftarrow> lis_qattach e hdp info dev flags creds s;
     if err < 0 then Some (err, dev, s)
     else do {
       h \<leftarrow> sds s hdp;
       W \<leftarrow> qs s (sd_wq h);
       f \<leftarrow> get_mod i (mods (hds s));
       (err, s) \<leftarrow> lis_set_q_sync (q_next W) (f_qlock f) s;
       if err < 0 then Some (err, dev, s)
       else do {
         s \<leftarrow> upd_sd hdp (\<lambda>h. h\<lparr>sd_pushcnt := sd_pushcnt h + 1\<rparr>) s;
         s \<leftarrow> upd_fmod i (\<lambda>f. f\<lparr>f_count := f_count f + 1\<rparr>) s;
         Some (err, dev, s) } } }"

definition push_mod ::
  "penv \<Rightarrow> ptr \<Rightarrow> streamtab option \<Rightarrow> nat \<Rightarrow> nat \<Rightarrow> int \<Rightarrow> ptr \<Rightarrow> lis \<Rightarrow> (int \<times> nat \<times> lis) option" where
  "push_mod e hdp info i dev flags creds s = do {
     h \<leftarrow> sds s hdp;
     if sd_maxpushcnt h \<noteq> 0 \<and> uint (sd_pushcnt h) = sd_maxpushcnt h then Some (- ENOSR, dev, s)
     else do {
       W \<leftarrow> qs s (sd_wq h);
       lrq \<leftarrow> lis_safe_OTHERQ (q_next W) s;
       s \<leftarrow> lis_freezestr (sd_rq h) s;
       (err, s) \<leftarrow> push_wait e hdp (sd_rq h) lrq s;
       (err, dev, s) \<leftarrow> (if err < 0 then Some (err, dev, s) else push_attach e hdp info i dev flags creds s);
       h \<leftarrow> sds s hdp;
       s \<leftarrow> lis_unfreezestr (p_env e) (sd_rq h) s;
       Some (err, dev, s) } }"

text \<open>The queues to wait for: the stream head's, the module's, and the one below.\<close>

definition pop_wait :: "penv \<Rightarrow> ptr \<Rightarrow> ptr \<Rightarrow> lis \<Rightarrow> (int \<times> ptr \<times> ptr \<times> lis) option" where
  "pop_wait e hdp wq s = do {
     (err, s) \<leftarrow> lis_await_qsched e hdp wq s;
     if err < 0 then Some (err, NULL, NULL, s)
     else do {
       W \<leftarrow> qs s wq;
       let wqn = q_next W;
       (err, s) \<leftarrow> lis_await_qsched e hdp wqn s;
       if err < 0 then Some (err, wqn, NULL, s)
       else do {
         N \<leftarrow> qs s wqn;
         (err, s) \<leftarrow> lis_await_qsched e hdp (q_next N) s;
         Some (err, wqn, q_next N, s) } } }"

definition pop_detach :: "penv \<Rightarrow> ptr \<Rightarrow> int \<Rightarrow> ptr \<Rightarrow> lis \<Rightarrow> (int \<times> lis) option" where
  "pop_detach e hdp flags creds s = do {
     h \<leftarrow> sds s hdp;
     s \<leftarrow> lis_freezestr (sd_rq h) s;
     (err, wqn, wqnn, s) \<leftarrow> pop_wait e hdp (sd_wq h) s;
     if err < 0 then do { s \<leftarrow> lis_unfreezestr (p_env e) (sd_rq h) s; Some (err, s) }
     else do {
       rqn \<leftarrow> lis_safe_RD wqn s;
       s \<leftarrow> lis_qdetach e rqn True flags creds s;
       s \<leftarrow> (if wqnn \<noteq> NULL then lis_unfreezestr (p_env e) wqnn s else Some s);
       Some (0, s) } }"

definition pop_mod :: "penv \<Rightarrow> ptr \<Rightarrow> int \<Rightarrow> ptr \<Rightarrow> lis \<Rightarrow> (int \<times> lis) option" where
  "pop_mod e hdp flags creds s = do {
     h \<leftarrow> sds s hdp;
     if sd_pushcnt h = 0 then Some (- EINVAL, s)
     else do {
       s \<leftarrow> upd_sd hdp (\<lambda>h. h\<lparr>sd_pushcnt := sd_pushcnt h - 1\<rparr>) s;
       W \<leftarrow> qs s (sd_wq h);
       name \<leftarrow> (if q_next W = NULL then Some None
               else do { N \<leftarrow> qs s (q_next W); Some (Option.bind (q_qinfo N) mi_idname) });
       case name of
         None \<Rightarrow> Some (- EINVAL, s)
       | Some name \<Rightarrow> do {
           i \<leftarrow> lis_findmod name (mods (hds s));
           s \<leftarrow> (if i > 0 then upd_fmod i (\<lambda>f. f\<lparr>f_count := f_count f - 1\<rparr>) s else Some s);
           same \<leftarrow> lis_safe_SAMESTR (sd_wq h) s;
           if same then pop_detach e hdp flags creds s else Some (0, s) } } }"

end
