(* ===== verification/LiS_HeadClose.thy ===== *)
theory LiS_HeadClose
  imports LiS_HeadPush LiS_HeadIoctl
begin

text \<open>
  The life of a stream head and of a multiplexor (\<open>head/head.c\<close>): allocating and freeing the structure,
  linking a stream below another one and unlinking it, and closing.  A close of a control stream
  unlinks the streams below, which may close them in turn: \<open>lis_doclose\<close> gets a bound on that depth.
  The kernel is one before 6.8, where the open count of a linked stream is raised here.
\<close>

unbundle bit_operations_syntax

abbreviation (input) MODUSE :: nat where "MODUSE \<equiv> 15"
abbreviation (input) FLUSHRW :: u8 where "FLUSHRW \<equiv> 3"
abbreviation (input) S_ALL :: u16 where "S_ALL \<equiv> 0x03ff"
abbreviation (input) LIS_LNTIME :: int where "LIS_LNTIME \<equiv> 15000"
abbreviation (input) MUXID_ALL :: int where "MUXID_ALL \<equiv> -1"

definition STROSEM_HELD :: u64 where "STROSEM_HELD = 0x00000020"

text \<open>The procedures of the stream head have numbers of their own: \<open>lis_strrput\<close>, \<open>lis_strrsrv\<close>, \<open>lis_strwsrv\<close>.\<close>

definition strmhd_rdinit :: qinit where
  "strmhd_rdinit = \<lparr>qi_putp = 1001, qi_srvp = 1002, mi_minpsz = 0, mi_maxpsz = 4096, mi_hiwat = 0xffff,
     mi_lowat = 0xf000, qi_qopen = 0, qi_qclose = 0, mi_idname = Some ''str_rput''\<rparr>"

definition strmhd_wrinit :: qinit where
  "strmhd_wrinit = \<lparr>qi_putp = 0, qi_srvp = 1003, mi_minpsz = 0, mi_maxpsz = 4096, mi_hiwat = 0xffff,
     mi_lowat = 0xf000, qi_qopen = 0, qi_qclose = 0, mi_idname = Some ''str_wput''\<rparr>"

subsection \<open>The structure\<close>

definition stdata_new :: "ptr \<Rightarrow> ptr \<Rightarrow> stdata" where
  "stdata_new rq wq = stdata_zero\<lparr>sd_magic := STDATA_MAGIC, sd_close_wt := 0, sd_wioc := 1, sd_wiocing := 0,
     sd_wread := 0, sd_read_sem := 1, sd_wwrite := 0, sd_write_sem := 1, sd_closing := 0, sd_opening := 1,
     sd_wq := wq, sd_rq := rq\<rparr>"

definition lis_alloc_stdata :: "lis \<Rightarrow> (ptr \<times> lis) option" where
  "lis_alloc_stdata s = do {
     (q, s) \<leftarrow> lis_allocq s;
     if q = NULL then Some (NULL, s)
     else (case kalloc s of (head, s) \<Rightarrow>
       if head = NULL then do { s \<leftarrow> lis_freeq q s; Some (NULL, s) }
       else do {
         wq \<leftarrow> lis_safe_WR q s;
         rq \<leftarrow> lis_safe_RD q s;
         let s = s\<lparr>sds := (sds s)(head \<mapsto> stdata_new rq wq)\<rparr>;
         s \<leftarrow> upd_q wq (\<lambda>Q. Q\<lparr>q_str := head\<rparr>) s;
         s \<leftarrow> upd_q rq (\<lambda>Q. Q\<lparr>q_str := head, q_flag := q_flag Q OR QNOENB\<rparr>) s;
         s \<leftarrow> ins_stdata head (LisUpCount MODUSE s);
         Some (head, s) }) }"

definition free_siglist :: "ptr \<Rightarrow> lis \<Rightarrow> lis option" where
  "free_siglist hdp s = do {
     h \<leftarrow> sds s hdp;
     (p, ev) \<leftarrow> lis_free_elist (sd_siglist h) (evl (hds s));
     upd_sd hdp (\<lambda>h. h\<lparr>sd_siglist := p\<rparr>) (upd_hds (\<lambda>x. x\<lparr>evl := ev\<rparr>) s) }"

partial_function (option) free_rput :: "ptr \<Rightarrow> lis \<Rightarrow> lis option" where
  "free_rput hdp s = do {
     h \<leftarrow> sds s hdp;
     let mp = sd_rput_hd h;
     if mp = NULL then Some s
     else do {
       m \<leftarrow> mb s mp;
       s \<leftarrow> upd_sd hdp (\<lambda>h. h\<lparr>sd_rput_hd := b_next m\<rparr>) s;
       s \<leftarrow> lis_freemsg mp s;
       free_rput hdp (LisDownCount MSGQDSTRHD s) } }"

text \<open>The messages the structure holds.\<close>

definition free_held :: "ptr \<Rightarrow> lis \<Rightarrow> lis option" where
  "free_held hdp s = do {
     h \<leftarrow> sds s hdp;
     s \<leftarrow> (if sd_wmsg h \<noteq> NULL
          then do { s \<leftarrow> lis_freemsg (sd_wmsg h) s; upd_sd hdp (\<lambda>h. h\<lparr>sd_wmsg := NULL\<rparr>) s } else Some s);
     s \<leftarrow> (if sd_iocblk h \<noteq> NULL
          then do { s \<leftarrow> lis_freemsg (sd_iocblk h) s; upd_sd hdp (\<lambda>h. h\<lparr>sd_iocblk := NULL\<rparr>) s } else Some s);
     s \<leftarrow> (if sd_siglist h \<noteq> NULL then free_siglist hdp s else Some s);
     free_rput hdp s }"

definition lis_free_stdata :: "ptr \<Rightarrow> lis \<Rightarrow> lis option" where
  "lis_free_stdata hdp s =
     (if hdp = NULL then Some s
      else do {
        h \<leftarrow> sds s hdp;
        if sd_magic h \<noteq> STDATA_MAGIC then Some s
        else do {
          s \<leftarrow> rem_stdata hdp s;
          let s = lis_runqueues s;
          s \<leftarrow> (if sd_from h \<noteq> NULL
               then upd_sd hdp (\<lambda>h. h\<lparr>sd_from := NULL, sd_mount := NULL\<rparr>)
                      (upd_hds (\<lambda>x. x\<lparr>dputs := dputs x @ (if sd_mount h \<noteq> NULL then [sd_from h, sd_mount h]
                                                           else [sd_from h])\<rparr>) s)
               else Some s);
          let s = (if sd_close_timer h \<noteq> 0
                   then upd_hds (\<lambda>x. x\<lparr>untimed := untimed x @ [sd_close_timer h]\<rparr>) s else s);
          s \<leftarrow> free_held hdp s;
          Some (LisDownCount MODUSE (kfree hdp (s\<lparr>sds := (sds s)(hdp := None)\<rparr>))) } })"

definition lis_tear_down_stream :: "ptr \<Rightarrow> lis \<Rightarrow> lis option" where
  "lis_tear_down_stream hdp s = lis_free_stdata hdp s"

text \<open>The clobbered magic number is gone with the structure.  The queues:\<close>

definition lis_dismantle :: "penv \<Rightarrow> ptr \<Rightarrow> ptr \<Rightarrow> lis \<Rightarrow> lis option" where
  "lis_dismantle e hdp creds s = do {
     h \<leftarrow> sds s hdp;
     if sd_wq h = NULL then Some s
     else do {
       ok \<leftarrow> q_magic_ok (sd_rq h) s;
       if \<not> ok then Some s
       else do {
         n \<leftarrow> lis_qsize (sd_rq h) s;
         s \<leftarrow> lis_qdetach e (sd_rq h) True 0 creds (LisDownCounter MSGQDSTRHD n s);
         upd_sd hdp (\<lambda>h. h\<lparr>sd_wq := NULL, sd_rq := NULL\<rparr>) s } } }"

subsection \<open>Linking\<close>

text \<open>The write queue of the driver of a stream.\<close>

partial_function (option) qtop_loop :: "ptr \<Rightarrow> lis \<Rightarrow> ptr option" where
  "qtop_loop q s =
     (if q = NULL then Some NULL
      else do {
        same \<leftarrow> lis_safe_SAMESTR q s;
        if \<not> same then Some q else do { Q \<leftarrow> qs s q; qtop_loop (q_next Q) s } })"

text \<open>A \<open>linkblk_t\<close> of 64 bytes: \<open>l_qtop\<close> at 0, \<open>l_qbot\<close> at 8, \<open>l_index\<close> at 16.\<close>

definition linkblk :: "ptr \<Rightarrow> ptr \<Rightarrow> ptr \<Rightarrow> int \<Rightarrow> lis \<Rightarrow> lis" where
  "linkblk p qtop qbot i s =
     mem_put32 (p + 16) (word_of_int i) (mem_put64 (p + 8) (of_nat qbot) (mem_put64 p (of_nat qtop) s))"

definition link_ioctl :: "penv \<Rightarrow> ptr \<Rightarrow> int \<Rightarrow> ptr \<Rightarrow> lis \<Rightarrow> (int \<times> lis) option" where
  "link_ioctl e hdp cmd creds s = do {
     (err, _, s) \<leftarrow> lis_strdoioctl (p_head e) hdp
       \<lparr>ic_cmd = cmd, ic_timout = LIS_LNTIME, ic_len = 64, ic_dp = p_stack e\<rparr> creds False s;
     Some (err, s) }"

text \<open>What \<open>lis_i_link\<close> does when it fails (\<open>error_rtn\<close>).\<close>

definition link_undo :: "ptr \<Rightarrow> ptr \<Rightarrow> int \<Rightarrow> lis \<Rightarrow> (int \<times> lis) option" where
  "link_undo hdp muxed err s = do {
     s \<leftarrow> CLR_SD_FLAG muxed STPLEX s;
     h \<leftarrow> sds s hdp;
     m \<leftarrow> sds s muxed;
     st \<leftarrow> sd_strtab h;
     s \<leftarrow> lis_setq (sd_rq m) (st_rdinit st) (st_wrinit st) s;
     s \<leftarrow> upd_sd hdp (\<lambda>h. h\<lparr>sd_mux := (sd_mux h)\<lparr>mx_hd := mx_next (sd_mux m)\<rparr>\<rparr>) s;
     s \<leftarrow> upd_sd muxed (\<lambda>h. h\<lparr>sd_mux := (sd_mux h)\<lparr>mx_next := NULL\<rparr>\<rparr>) s;
     s \<leftarrow> upd_q (sd_rq m) (\<lambda>Q. Q\<lparr>q_flag := q_flag Q OR QNOENB\<rparr>) s;
     (_, s) \<leftarrow> lis_head_put muxed s;
     (_, s) \<leftarrow> lis_head_put hdp s;
     Some (err, s) }"

text \<open>After the driver has agreed.\<close>

definition link_finish :: "penv \<Rightarrow> ptr \<Rightarrow> ptr \<Rightarrow> ptr \<Rightarrow> int \<Rightarrow> lis \<Rightarrow> (int \<times> lis) option" where
  "link_finish e hdp muxed qtop index s = do {
     m \<leftarrow> sds s muxed;
     s \<leftarrow> lis_freezestr (sd_rq m) s;
     T \<leftarrow> qs s qtop;
     (err, s) \<leftarrow> lis_set_q_sync (sd_rq m) (q_qlock_option T) s;
     if err < 0
     then do { s \<leftarrow> lis_unfreezestr (p_env e) (sd_rq m) s; link_undo hdp muxed err s }
     else do {
       s \<leftarrow> lis_set_q_flags QWANTR True [sd_wq m] s;
       s \<leftarrow> (if mx_cmd (sd_mux m) = I_PLINK
            then do {
              s \<leftarrow> lis_head_get hdp s;
              s \<leftarrow> upd_sd hdp (\<lambda>h. h\<lparr>sd_opencnt := sd_opencnt h + 1, sd_linkcnt := sd_linkcnt h + 1\<rparr>) s;
              h \<leftarrow> sds s hdp;
              Some (if sd_inode h \<noteq> NULL
                    then upd_hds (\<lambda>x. x\<lparr>inodes := (inodes x)(sd_inode h := inodes x (sd_inode h) + 1)\<rparr>) s
                    else s) }
            else Some s);
       s \<leftarrow> lis_unfreezestr (p_env e) (sd_rq m) s;
       Some (index, s) } }"

text \<open>The driver is asked; \<open>STPLEX\<close> and the counts are set before.\<close>

definition link_ask :: "penv \<Rightarrow> ptr \<Rightarrow> ptr \<Rightarrow> ptr \<Rightarrow> int \<Rightarrow> ptr \<Rightarrow> lis \<Rightarrow> (int \<times> lis) option" where
  "link_ask e hdp muxed qtop index creds s = do {
     m \<leftarrow> sds s muxed;
     h \<leftarrow> sds s hdp;
     st \<leftarrow> sd_strtab h;
     s \<leftarrow> lis_setq (sd_rq m) (st_muxrinit st) (st_muxwinit st) s;
     s \<leftarrow> SET_SD_FLAG muxed STPLEX s;
     s \<leftarrow> lis_head_get muxed s;
     s \<leftarrow> upd_sd muxed (\<lambda>h. h\<lparr>sd_opencnt := sd_opencnt h + 1, sd_linkcnt := sd_linkcnt h + 1\<rparr>) s;
     link_ioctl e hdp I_LINK creds (linkblk (p_stack e) qtop (sd_wq m) index s) }"

definition link_lower :: "penv \<Rightarrow> ptr \<Rightarrow> ptr \<Rightarrow> ptr \<Rightarrow> int \<Rightarrow> ptr \<Rightarrow> lis \<Rightarrow> (int \<times> lis) option" where
  "link_lower e hdp muxed qtop index creds s = do {
     m \<leftarrow> sds s muxed;
     s \<leftarrow> upd_q (sd_rq m) (\<lambda>Q. Q\<lparr>q_flag := q_flag Q AND NOT QNOENB\<rparr>) s;
     (err, s) \<leftarrow> lis_await_qsched e muxed (sd_rq m) s;
     if err < 0 then link_undo hdp muxed err s
     else do {
       (err, s) \<leftarrow> link_ask e hdp muxed qtop index creds s;
       if err < 0
       then do {
         s \<leftarrow> upd_sd muxed (\<lambda>h. h\<lparr>sd_opencnt := sd_opencnt h - 1, sd_linkcnt := sd_linkcnt h - 1\<rparr>) s;
         link_undo hdp muxed err s }
       else link_finish e hdp muxed qtop index s } }"

definition lis_i_link :: "penv \<Rightarrow> ptr \<Rightarrow> int \<Rightarrow> int \<Rightarrow> ptr \<Rightarrow> lis \<Rightarrow> (int \<times> lis) option" where
  "lis_i_link e hdp muxfd cmd creds s = do {
     let muxed = p_fd2str e muxfd s;
     if muxed = NULL then Some (- EINVAL, s)
     else do {
       s \<leftarrow> lis_head_get hdp s;
       h \<leftarrow> sds s hdp;
       qtop \<leftarrow> qtop_loop (sd_wq h) s;
       (index, s) \<leftarrow> str_link_mux hdp muxed cmd s;
       link_lower e hdp muxed qtop index creds s } }"

subsection \<open>Unlinking\<close>

text \<open>The structure leaves the list of the control stream; \<open>prev\<close> is the one before it.\<close>

definition mux_delink :: "ptr \<Rightarrow> ptr \<Rightarrow> ptr \<Rightarrow> lis \<Rightarrow> lis option" where
  "mux_delink hdp hp prev s = do {
     h \<leftarrow> sds s hdp;
     k \<leftarrow> sds s hp;
     s \<leftarrow> (if mx_hd (sd_mux h) = hp
          then upd_sd hdp (\<lambda>h. h\<lparr>sd_mux := (sd_mux h)\<lparr>mx_hd := mx_next (sd_mux k)\<rparr>\<rparr>) s
          else upd_sd prev (\<lambda>h. h\<lparr>sd_mux := (sd_mux h)\<lparr>mx_next := mx_next (sd_mux k)\<rparr>\<rparr>) s);
     upd_sd hp (\<lambda>h. h\<lparr>sd_mux := (sd_mux h)\<lparr>mx_next := NULL\<rparr>\<rparr>) s }"

text \<open>The queues of the lower stream are those of a stream head again.\<close>

definition mux_restore :: "ptr \<Rightarrow> lis \<Rightarrow> lis option" where
  "mux_restore hp s = do {
     k \<leftarrow> sds s hp;
     s \<leftarrow> lis_setq (sd_rq k) (Some strmhd_rdinit) (Some strmhd_wrinit) s;
     s \<leftarrow> upd_q (sd_wq k) (\<lambda>Q. Q\<lparr>q_str := hp\<rparr>) s;
     upd_q (sd_rq k) (\<lambda>Q. Q\<lparr>q_str := hp, q_flag := q_flag Q OR QNOENB\<rparr>) s }"

text \<open>An \<open>I_PLINK\<close> held the control stream.\<close>

definition mux_unhold :: "ptr \<Rightarrow> ptr \<Rightarrow> lis \<Rightarrow> lis option" where
  "mux_unhold hdp hp s = do {
     h \<leftarrow> sds s hdp;
     k \<leftarrow> sds s hp;
     if mx_cmd (sd_mux k) = I_PLINK \<and> sd_opencnt h > 0
     then do {
       s \<leftarrow> upd_sd hdp (\<lambda>h. h\<lparr>sd_opencnt := sd_opencnt h - 1, sd_linkcnt := sd_linkcnt h - 1\<rparr>) s;
       let s = (if sd_inode h \<noteq> NULL
                then upd_hds (\<lambda>x. x\<lparr>inodes := (inodes x)(sd_inode h := inodes x (sd_inode h) - 1)\<rparr>) s else s);
       (_, s) \<leftarrow> lis_head_put hdp s;
       Some s }
     else Some s }"

definition unlink_one ::
  "penv \<Rightarrow> (ptr \<Rightarrow> ptr \<Rightarrow> lis \<Rightarrow> lis option) \<Rightarrow> ptr \<Rightarrow> ptr \<Rightarrow> ptr \<Rightarrow> ptr \<Rightarrow> int \<Rightarrow> lis \<Rightarrow> (int \<times> lis) option" where
  "unlink_one e cl hdp hp prev creds rtn s = do {
     k \<leftarrow> sds s hp;
     s \<leftarrow> lis_freezestr (sd_rq k) s;
     s \<leftarrow> mux_delink hdp hp prev s;
     s \<leftarrow> mux_restore hp s;
     s \<leftarrow> mux_unhold hdp hp s;
     s \<leftarrow> upd_sd hp (\<lambda>h. h\<lparr>sd_linkcnt := sd_linkcnt h - 1\<rparr>) s;
     s \<leftarrow> CLR_SD_FLAG hp STPLEX s;
     s \<leftarrow> lis_unfreezestr (p_env e) (sd_rq k) s;
     k \<leftarrow> sds s hp;
     (rtn, s) \<leftarrow>
       (if sd_opencnt k = 1 then do { s \<leftarrow> cl hp creds s; Some (rtn, s) }
        else if sd_opencnt k > 1
        then do {
          s \<leftarrow> upd_sd hp (\<lambda>h. h\<lparr>sd_opencnt := sd_opencnt h - 1\<rparr>) s;
          (_, s) \<leftarrow> lis_head_put hp s;
          Some (rtn, s) }
        else Some (- EIO, s));
     (_, s) \<leftarrow> lis_head_put hdp s;
     Some (rtn, s) }"

partial_function (option) unlink_loop ::
  "penv \<Rightarrow> (ptr \<Rightarrow> ptr \<Rightarrow> lis \<Rightarrow> lis option) \<Rightarrow> ptr \<Rightarrow> int \<Rightarrow> int \<Rightarrow> ptr \<Rightarrow> ptr \<Rightarrow> ptr \<Rightarrow> int \<Rightarrow> lis \<Rightarrow> (int \<times> lis) option"
where
  "unlink_loop e cl hdp l_index cmd creds hp prev rtn s =
     (if hp = NULL then Some (rtn, s)
      else do {
        k \<leftarrow> sds s hp;
        let nxt = mx_next (sd_mux k);
        if (l_index \<ge> 0 \<and> mx_index (sd_mux k) \<noteq> l_index) \<or> (cmd = I_UNLINK \<and> mx_cmd (sd_mux k) = I_PLINK)
        then unlink_loop e cl hdp l_index cmd creds nxt hp rtn s
        else do {
          h \<leftarrow> sds s hdp;
          qtop \<leftarrow> qtop_loop (sd_wq h) s;
          let s = linkblk (p_stack e) qtop (sd_wq k) (mx_index (sd_mux k)) s;
          let ucmd = (if mx_cmd (sd_mux k) = I_LINK then I_UNLINK else I_PUNLINK);
          (err, s) \<leftarrow> lis_await_qsched e hp (sd_rq k) s;
          (failed, err, s) \<leftarrow>
            (if err < 0 then Some (True, err, s)
             else do {
               (err, s) \<leftarrow> link_ioctl e hdp ucmd creds s;
               Some (err < 0 \<and> cmd = I_UNLINK, err, s) });
          if failed
          then if l_index < 0 then unlink_loop e cl hdp l_index cmd creds nxt hp err s else Some (err, s)
          else do {
            (rtn, s) \<leftarrow> unlink_one e cl hdp hp prev creds rtn s;
            if l_index \<ge> 0 then Some (rtn, s) else unlink_loop e cl hdp l_index cmd creds nxt prev rtn s } } })"

definition lis_i_unlink ::
  "penv \<Rightarrow> (ptr \<Rightarrow> ptr \<Rightarrow> lis \<Rightarrow> lis option) \<Rightarrow> ptr \<Rightarrow> int \<Rightarrow> int \<Rightarrow> ptr \<Rightarrow> lis \<Rightarrow> (int \<times> lis) option" where
  "lis_i_unlink e cl hdp l_index cmd creds s = do {
     h \<leftarrow> sds s hdp;
     unlink_loop e cl hdp l_index cmd creds (mx_hd (sd_mux h)) NULL 0 s }"

subsection \<open>Closing\<close>

text \<open>The other end of a pipe hangs up.\<close>

definition close_peer :: "ptr \<Rightarrow> lis \<Rightarrow> lis option" where
  "close_peer hdp s = do {
     h \<leftarrow> sds s hdp;
     let peer = sd_peer h;
     if peer = NULL \<or> peer = hdp then Some s
     else do {
       p \<leftarrow> sds s peer;
       if F_ISSET (sd_flag p) (STRHUP OR STRCLOSE) then Some s
       else do {
         s \<leftarrow> upd_sd peer (\<lambda>h. h\<lparr>sd_flag := (sd_flag h OR STRHUP) AND NOT STRFROZEN, sd_peer := peer\<rparr>) s;
         s \<leftarrow> lis_stream_error peer 0 0 s;
         if F_ISSET (sd_flag p) STRFROZEN then do { (_, s) \<leftarrow> lis_head_put peer s; Some s } else Some s } } }"

text \<open>A timer for the stream head, and its end.\<close>

definition start_close_timer :: "ptr \<Rightarrow> lis \<Rightarrow> lis option" where
  "start_close_timer hdp s = do {
     let hnd = (case handles (hds s) of [] \<Rightarrow> - ENOMEM | n # _ \<Rightarrow> n);
     let s = upd_hds (\<lambda>x. x\<lparr>handles := tl (handles x), timed := timed x @ [hdp]\<rparr>) s;
     upd_sd hdp (\<lambda>h. h\<lparr>sd_close_timer := hnd\<rparr>) s }"

definition stop_close_timer :: "ptr \<Rightarrow> lis \<Rightarrow> lis option" where
  "stop_close_timer hdp s = do {
     h \<leftarrow> sds s hdp;
     if sd_close_timer h \<noteq> 0
     then upd_sd hdp (\<lambda>h. h\<lparr>sd_close_timer := 0\<rparr>)
            (upd_hds (\<lambda>x. x\<lparr>untimed := untimed x @ [sd_close_timer h]\<rparr>) s)
     else Some s }"

definition close_drain :: "penv \<Rightarrow> ptr \<Rightarrow> lis \<Rightarrow> lis option" where
  "close_drain e hdp s = do {
     h \<leftarrow> sds s hdp;
     n \<leftarrow> (if sd_closetime h \<noteq> 0 then lis_qcountstrm (sd_wq h) s else Some 0);
     if n = 0 then Some s
     else do {
       same \<leftarrow> lis_safe_SAMESTR (sd_wq h) s;
       W \<leftarrow> qs s (sd_wq h);
       s \<leftarrow> (if same then upd_q (q_next W) (\<lambda>Q. Q\<lparr>q_flag := q_flag Q OR QCLOSEWT\<rparr>) s else Some s);
       s \<leftarrow> start_close_timer hdp s;
       (_, s) \<leftarrow> sd_down (p_head e) Sem_closing hdp (lis_runqueues s);
       stop_close_timer hdp s } }"

text \<open>The wait for the \<open>M_FLUSH\<close> to come back.\<close>

partial_function (option) flush_wait :: "penv \<Rightarrow> ptr \<Rightarrow> int \<Rightarrow> lis \<Rightarrow> lis option" where
  "flush_wait e hdp rslt s = do {
     h \<leftarrow> sds s hdp;
     if F_ISSET (sd_flag h) STRFLUSHWT \<and> rslt = 0
     then do {
       (rslt, s) \<leftarrow> lis_sleep_on_close_wt (p_head e) hdp s;
       if rslt = 0 then flush_wait e hdp rslt s else Some s }
     else Some s }"

definition close_flush :: "penv \<Rightarrow> ptr \<Rightarrow> lis \<Rightarrow> lis option" where
  "close_flush e hdp s = do {
     h \<leftarrow> sds s hdp;
     same \<leftarrow> lis_safe_SAMESTR (sd_wq h) s;
     if \<not> same then Some s
     else do {
       s \<leftarrow> SET_SD_FLAG hdp (STRCLOSEWT OR STRFLUSHWT) s;
       s \<leftarrow> start_close_timer hdp s;
       (_, s) \<leftarrow> lis_snd_mflush (p_env e) (sd_wq h) FLUSHRW 0 s;
       s \<leftarrow> flush_wait e hdp 0 s;
       stop_close_timer hdp s } }"

text \<open>Popping until it fails.\<close>

partial_function (option) pop_all :: "penv \<Rightarrow> ptr \<Rightarrow> ptr \<Rightarrow> lis \<Rightarrow> lis option" where
  "pop_all e hdp creds s = do {
     h \<leftarrow> sds s hdp;
     (r, s) \<leftarrow> pop_mod e hdp (sd_open_flags h) creds s;
     if r = 0 then pop_all e hdp creds s else Some s }"

definition close_queues :: "penv \<Rightarrow> ptr \<Rightarrow> ptr \<Rightarrow> lis \<Rightarrow> lis option" where
  "close_queues e hdp creds s = do {
     s \<leftarrow> pop_all e hdp creds s;
     h \<leftarrow> sds s hdp;
     same \<leftarrow> lis_safe_SAMESTR (sd_wq h) s;
     s \<leftarrow> (if same
          then do {
            W \<leftarrow> qs s (sd_wq h);
            rq \<leftarrow> lis_safe_RD (q_next W) s;
            lis_qdetach e rq True (sd_open_flags h) creds s }
          else Some s);
     lis_dismantle e hdp creds s }"

definition close_action :: "penv \<Rightarrow> (ptr \<Rightarrow> ptr \<Rightarrow> lis \<Rightarrow> lis option) \<Rightarrow> ptr \<Rightarrow> ptr \<Rightarrow> lis \<Rightarrow> lis option" where
  "close_action e cl hdp creds s = do {
     s \<leftarrow> SET_SD_FLAG hdp STRCLOSE s;
     s \<leftarrow> close_peer hdp s;
     s \<leftarrow> close_drain e hdp s;
     s \<leftarrow> lis_stream_error hdp EIO EIO s;
     s \<leftarrow> free_siglist hdp s;
     h \<leftarrow> sds s hdp;
     s \<leftarrow> (if mx_hd (sd_mux h) \<noteq> NULL
          then do { (_, s) \<leftarrow> lis_i_unlink e cl hdp (- 1) I_PUNLINK creds s; Some s }
          else Some s);
     h \<leftarrow> sds s hdp;
     s \<leftarrow> mark_closing (sd_wq h) s;
     s \<leftarrow> close_flush e hdp s;
     close_queues e hdp creds s }"

text \<open>The file and inode of a close by a process, with their reference counts.\<close>

record closing =
  cf_file :: ptr
  cf_inode :: ptr
  cf_fcount :: int
  cf_icount :: int

definition close_detach :: "penv \<Rightarrow> closing \<Rightarrow> ptr \<Rightarrow> lis \<Rightarrow> lis option" where
  "close_detach e c hdp s = do {
     s \<leftarrow> (if cf_fcount c \<le> 0
          then p_file_cleanup e (cf_file c) hdp (upd_hds (\<lambda>x. x\<lparr>file_str := (file_str x)(cf_file c := NULL)\<rparr>) s)
          else Some s);
     Some (if cf_icount c \<le> 1
           then upd_hds (\<lambda>x. x\<lparr>inode_str := (inode_str x)(cf_inode c := NULL)\<rparr>) s else s) }"

definition close_begin :: "penv \<Rightarrow> closing option \<Rightarrow> ptr \<Rightarrow> lis \<Rightarrow> lis option" where
  "close_begin e cf hdp s = do {
     h \<leftarrow> sds s hdp;
     s \<leftarrow> (case cf of
            Some c \<Rightarrow> if F_ISSET (sd_flag h) STFIFO then p_fifo_close e (cf_inode c) (cf_file c) s else Some s
          | None \<Rightarrow> Some s);
     h \<leftarrow> sds s hdp;
     let s = (if sd_flag h AND (STRHUP OR STRATTACH) = (STRHUP OR STRATTACH) \<and> sd_rfdcnt h = 0
              then upd_hds (\<lambda>x. x\<lparr>fdetached := fdetached x @ [hdp]\<rparr>) s else s);
     (_, s) \<leftarrow> sd_down (p_head e) Sem_opening hdp s;
     s \<leftarrow> SET_SD_FLAG hdp STROSEM_HELD s;
     h \<leftarrow> sds s hdp;
     (_, ev) \<leftarrow> lis_del_from_elist (sd_siglist h) (p_pid e) S_ALL (evl (hds s));
     Some (upd_hds (\<lambda>x. x\<lparr>evl := ev\<rparr>) s) }"

definition release_sd_opening_sem :: "ptr \<Rightarrow> lis \<Rightarrow> lis option" where
  "release_sd_opening_sem hdp s = do { s \<leftarrow> CLR_SD_FLAG hdp STROSEM_HELD s; sd_up Sem_opening hdp s }"

primrec lis_doclose :: "nat \<Rightarrow> penv \<Rightarrow> closing option \<Rightarrow> ptr \<Rightarrow> ptr \<Rightarrow> lis \<Rightarrow> (int \<times> lis) option" where
  "lis_doclose 0 e cf hdp creds s = None"
| "lis_doclose (Suc n) e cf hdp creds s =
     (if hdp = NULL then Some (- EINVAL, s)
      else do {
        h \<leftarrow> sds s hdp;
        if sd_magic h \<noteq> STDATA_MAGIC then Some (- EINVAL, s)
        else do {
          s \<leftarrow> close_begin e cf hdp s;
          h \<leftarrow> sds s hdp;
          let opencnt = (if sd_opencnt h > 0 then sd_opencnt h - 1 else sd_opencnt h);
          s \<leftarrow> upd_sd hdp (\<lambda>h. h\<lparr>sd_opencnt := opencnt\<rparr>) s;
          s \<leftarrow> (if sd_linkcnt h \<noteq> 0 \<and> opencnt \<le> uint (sd_linkcnt h) then free_siglist hdp s else Some s);
          s \<leftarrow> (case cf of Some c \<Rightarrow> close_detach e c hdp s | None \<Rightarrow> Some s);
          s \<leftarrow> (if opencnt = 0
               then do {
                 s \<leftarrow> SET_SD_FLAG hdp STRCLOSE s;
                 s \<leftarrow> release_sd_opening_sem hdp s;
                 close_action e (\<lambda>hp creds s. map_option snd (lis_doclose n e None hp creds s)) hdp creds s }
               else release_sd_opening_sem hdp s);
          (_, s) \<leftarrow> lis_head_put hdp s;
          Some (opencnt, s) } })"

end
