(* ===== verification/LiS_PushSpec.thy ===== *)
theory LiS_PushSpec
  imports LiS_HeadClose LiS_HeadSpec
begin

text \<open>
  The queues of a stream while modules come and go: linking a queue pair below the stream head and
  taking it out again, and what the use of a queue after its end means for the last module of a FIFO.
\<close>

unbundle bit_operations_syntax

subsection \<open>Queue pairs\<close>

definition qpair :: "lis \<Rightarrow> ptr \<Rightarrow> ptr \<Rightarrow> bool" where
  "qpair s rq wq \<longleftrightarrow> rq \<noteq> NULL \<and> wq \<noteq> NULL \<and> rq \<noteq> wq \<and> (\<exists>R W. qs s rq = Some R \<and> qs s wq = Some W \<and>
     q_magic R = Q_MAGIC \<and> q_magic W = Q_MAGIC \<and> q_other R = wq \<and> q_other W = rq \<and>
     F_ISSET (q_flag R) QREADR \<and> \<not> F_ISSET (q_flag W) QREADR)"

definition set_next :: "ptr \<Rightarrow> ptr \<Rightarrow> lis \<Rightarrow> lis" where
  "set_next p n s = s\<lparr>qs := (qs s)(p := map_option (\<lambda>Q. Q\<lparr>q_next := n\<rparr>) (qs s p))\<rparr>"

lemma qs_set_next [simp]: "qs (set_next p n s) = (qs s)(p := map_option (\<lambda>Q. Q\<lparr>q_next := n\<rparr>) (qs s p))"
  by (simp add: set_next_def)

lemma upd_next: "qs s p = Some Q \<Longrightarrow> upd_q p (\<lambda>Q. Q\<lparr>q_next := n\<rparr>) s = Some (set_next p n s)"
  by (simp add: upd_q_def set_next_def)

lemma qpair_set_next [simp]: "qpair (set_next p n s) rq wq = qpair s rq wq"
  by (auto simp: qpair_def split: if_splits)

lemma magic_set_next [simp]: "q_magic_ok q (set_next p n s) = q_magic_ok q s"
  by (auto simp: q_magic_ok_def map_option_case split: option.splits)

lemma qs_set_next_bind:
  assumes "\<And>Q. f (Q\<lparr>q_next := n\<rparr>) = f Q"
  shows "qs (set_next p n s) q \<bind> f = qs s q \<bind> f"
  using assms by (cases "qs s q") auto

lemma side_set_next [simp]:
  "lis_safe_OTHERQ q (set_next p n s) = lis_safe_OTHERQ q s"
  "lis_safe_WR q (set_next p n s) = lis_safe_WR q s"
  unfolding lis_safe_OTHERQ_def lis_safe_WR_def by (simp_all add: qs_set_next_bind del: qs_set_next cong: if_cong)

lemma qpair_side:
  assumes "qpair s rq wq"
  shows "lis_safe_OTHERQ rq s = Some wq" "lis_safe_OTHERQ wq s = Some rq" "lis_safe_WR rq s = Some wq"
    "lis_safe_RD wq s = Some rq" "lis_safe_RD rq s = Some rq" "lis_safe_WR wq s = Some wq"
  using assms by (auto simp: qpair_def lis_safe_OTHERQ_def lis_safe_WR_def lis_safe_RD_def q_magic_ok_def)

text \<open>
  What lies below the stream head: nothing yet, its own read queue (a FIFO), or a queue whose partner
  sends up to the stream head (a module, a driver, or the read side at the other end of a pipe).
\<close>

definition below :: "lis \<Rightarrow> ptr \<Rightarrow> ptr \<Rightarrow> ptr \<Rightarrow> bool" where
  "below s rq wq n \<longleftrightarrow> n = NULL \<or> n = rq \<or>
     (\<exists>p. (qpair s n p \<or> qpair s p n) \<and> p \<notin> {rq, wq} \<and> n \<noteq> wq \<and> map_option q_next (qs s p) = Some rq)"

subsection \<open>In and out\<close>

definition linked :: "ptr \<Rightarrow> ptr \<Rightarrow> ptr \<Rightarrow> ptr \<Rightarrow> ptr \<Rightarrow> lis \<Rightarrow> bool" where
  "linked rq wq newq newwq n t \<longleftrightarrow> map_option q_next (qs t wq) = Some newwq \<and> map_option q_next (qs t newq) = Some rq \<and>
     map_option q_next (qs t newwq) = Some (if n = rq then newq else n) \<and>
     (n \<noteq> NULL \<and> n \<noteq> rq \<longrightarrow> (\<exists>p. lis_safe_OTHERQ n t = Some p \<and> map_option q_next (qs t p) = Some newq))"

lemma link_pair_eq:
  assumes "qpair s rq wq" "qpair s newq newwq" "{rq, wq} \<inter> {newq, newwq} = {}" "map_option q_next (qs s wq) = Some n"
    and "n \<noteq> NULL \<Longrightarrow> lis_safe_OTHERQ n s = Some p" "n \<noteq> NULL \<Longrightarrow> n \<noteq> rq \<Longrightarrow> qs s p \<noteq> None"
  shows "link_pair rq wq newq newwq s = Some (set_next wq newwq
    ((if n = NULL then id else if n = rq then set_next newwq newq else set_next p newq)
      (set_next newwq (if n = rq then newq else n) (set_next newq rq s))))"
proof -
  obtain W where W: "qs s wq = Some W" "q_next W = n" using assms(4) by auto
  obtain N M where new: "qs s newq = Some N" "qs s newwq = Some M" "newq \<noteq> newwq" using assms(2) by (auto simp: qpair_def)
  have ne: "wq \<noteq> newq" "wq \<noteq> newwq" "newq \<noteq> NULL" using assms(2,3) by (auto simp: qpair_def)
  let ?nx = "if n = rq then newq else n"
  let ?s1 = "set_next newq rq s" let ?s2 = "set_next newwq ?nx ?s1"
  have 1: "upd_q newq (\<lambda>Q. Q\<lparr>q_next := rq\<rparr>) s = Some ?s1" "qs ?s1 wq = Some W"
    "upd_q newwq (\<lambda>Q. Q\<lparr>q_next := ?nx\<rparr>) ?s1 = Some ?s2"
    using new W ne by (simp_all add: upd_next)
  let ?s3 = "(if n = NULL then id else if n = rq then set_next newwq newq else set_next p newq) ?s2"
  have 2: "(if n \<noteq> NULL then do { oq \<leftarrow> lis_safe_OTHERQ ?nx ?s2; upd_q oq (\<lambda>Q. Q\<lparr>q_next := newq\<rparr>) ?s2 }
            else Some ?s2) = Some ?s3"
  proof (cases "n = NULL")
    case False
    have o: "lis_safe_OTHERQ ?nx ?s2 = Some (if n = rq then newwq else p)"
      using assms(5)[OF False] qpair_side(1)[OF assms(2)] by simp
    obtain Q where "qs ?s2 (if n = rq then newwq else p) = Some Q" using assms(6) False new by fastforce
    from upd_next[OF this, of newq] show ?thesis using False o by (cases "n = rq") (simp_all del: qs_set_next)
  qed simp
  have "\<exists>Q. qs ?s3 wq = Some Q" using W by auto
  then have 3: "upd_q wq (\<lambda>Q. Q\<lparr>q_next := newwq\<rparr>) ?s3 = Some (set_next wq newwq ?s3)" by (auto simp: upd_next)
  show ?thesis unfolding link_pair_def 1(1) bind.bind_lunit 1(2) Let_def W(2) 1(3) 2 3 ..
qed

lemma unlink_pair_eq:
  assumes "qpair t rq wq" "map_option q_next (qs t newq) = Some rq"
    and "map_option q_next (qs t newwq) = Some (if n = rq then newq else n)" "n \<noteq> newq"
    and "n \<noteq> NULL \<Longrightarrow> lis_safe_OTHERQ n t = Some p \<and> qs t p \<noteq> None"
  shows "unlink_pair newq newwq t = Some (set_next wq n (if n = NULL then t else set_next p rq t))"
proof -
  obtain N M where new: "qs t newq = Some N" "q_next N = rq" "qs t newwq = Some M" "q_next M = (if n = rq then newq else n)"
    using assms(2,3) by auto
  have nx: "(if q_next M = newq then rq else q_next M) = n" using new assms(4) by simp
  let ?u = "if n = NULL then t else set_next p rq t"
  have 1: "(if n \<noteq> NULL then do { oq \<leftarrow> lis_safe_OTHERQ n t; upd_q oq (\<lambda>Q. Q\<lparr>q_next := rq\<rparr>) t } else Some t) = Some ?u"
    using assms(5) by (auto simp: upd_next)
  have "qpair ?u rq wq" using assms(1) by simp
  then obtain W where "qs ?u wq = Some W" unfolding qpair_def by blast
  from upd_next[OF this] have 2: "upd_q wq (\<lambda>Q. Q\<lparr>q_next := n\<rparr>) ?u = Some (set_next wq n ?u)" .
  have 3: "lis_safe_WR rq ?u = Some wq" "rq \<noteq> NULL" using assms(1) qpair_side(3)[OF assms(1)] by (auto simp: qpair_def)
  show ?thesis
    unfolding unlink_pair_def new(1,3) bind.bind_lunit Let_def new(2) nx unfolding 1 bind.bind_lunit 3(1) 2 using 3(2) by simp
qed

lemma next_back: "q_next (Q :: queue) = n \<Longrightarrow> Q\<lparr>q_next := m\<rparr>\<lparr>q_next := n\<rparr> = Q"
  by simp

lemma set_next_frame: "(set_next p n s)\<lparr>qs := x\<rparr> = s\<lparr>qs := x\<rparr>"
  by (simp add: set_next_def)

lemma partner_new:
  assumes "qpair s a b" "qpair s newq newwq" "a \<notin> {newq, newwq} \<or> b \<notin> {newq, newwq}"
  shows "a \<notin> {newq, newwq}" "b \<notin> {newq, newwq}"
  using assms by (auto simp: qpair_def)

lemma below_cases:
  assumes "below s rq wq n" "n \<noteq> NULL" "n \<noteq> rq" "qpair s newq newwq" "n \<notin> {newq, newwq}"
  obtains p where "lis_safe_OTHERQ n s = Some p" "p \<notin> {rq, wq, newq, newwq}" "map_option q_next (qs s p) = Some rq" "n \<noteq> wq"
proof -
  obtain p where p: "qpair s n p \<or> qpair s p n" "p \<notin> {rq, wq}" "n \<noteq> wq" "map_option q_next (qs s p) = Some rq"
    using assms(1-3) by (auto simp: below_def)
  moreover have "p \<notin> {newq, newwq}" using p(1) partner_new[OF _ assms(4)] assms(5) by blast
  moreover have "lis_safe_OTHERQ n s = Some p" using p(1) qpair_side(1,2) by blast
  ultimately show ?thesis using that by simp
qed

lemma link_unlink:
  assumes "qpair s rq wq" "qpair s newq newwq" "{rq, wq} \<inter> {newq, newwq} = {}" "map_option q_next (qs s wq) = Some n"
    and "below s rq wq n" "n \<notin> {newq, newwq}"
  shows "\<exists>t u. link_pair rq wq newq newwq s = Some t \<and> linked rq wq newq newwq n t \<and>
    unlink_pair newq newwq t = Some u \<and> (\<forall>x. x \<notin> {newq, newwq} \<longrightarrow> qs u x = qs s x) \<and> u\<lparr>qs := qs s\<rparr> = s"
proof -
  have nn: "newq \<noteq> newwq" "rq \<noteq> wq" "rq \<noteq> NULL" using assms(1,2) by (auto simp: qpair_def)
  obtain p where p: "n \<noteq> NULL \<Longrightarrow> lis_safe_OTHERQ n s = Some p" "p \<notin> {rq, newq, newwq}" "map_option q_next (qs s p) = Some rq \<or> p = wq"
    "n \<noteq> NULL \<Longrightarrow> n \<noteq> rq \<Longrightarrow> p \<noteq> wq \<and> n \<noteq> wq" "n = NULL \<or> n = rq \<Longrightarrow> p = wq"
  proof (cases "n = NULL \<or> n = rq")
    case True
    then show ?thesis using that[of wq] qpair_side(1)[OF assms(1)] nn assms(3) by auto
  next
    case False
    then show ?thesis using below_cases[OF assms(5) _ _ assms(2,6)] that by (metis insert_iff)
  qed
  let ?mid = "if n = NULL then id else if n = rq then set_next newwq newq else set_next p newq"
  define t where "t = set_next wq newwq (?mid (set_next newwq (if n = rq then newq else n) (set_next newq rq s)))"
  have pn: "n \<noteq> NULL \<Longrightarrow> n \<noteq> rq \<Longrightarrow> \<exists>P. qs s p = Some P \<and> q_next P = rq" using p(3,4) by auto
  have l: "link_pair rq wq newq newwq s = Some t"
    unfolding t_def by (rule link_pair_eq[OF assms(1-4) p(1)]) (use pn in auto)
  obtain N M W where q: "qs s newq = Some N" "qs s newwq = Some M" "qs s wq = Some W" "q_next W = n"
    using assms(2,4) by (auto simp: qpair_def)
  have ne: "wq \<noteq> newq" "wq \<noteq> newwq" "newq \<noteq> wq" "newwq \<noteq> wq" "newq \<noteq> newwq" "newwq \<noteq> newq" "p \<noteq> newq" "p \<noteq> newwq"
    "newq \<noteq> p" "newwq \<noteq> p"
    using nn assms(3) p(2) by auto
  have qt: "qs t wq = Some (W\<lparr>q_next := newwq\<rparr>)" "qs t newq = Some (N\<lparr>q_next := rq\<rparr>)"
    "qs t newwq = Some (M\<lparr>q_next := (if n = rq then newq else n)\<rparr>)"
    unfolding t_def using q by (cases "n = NULL"; cases "n = rq"; cases "p = wq"; simp add: ne)+
  then have nx: "map_option q_next (qs t wq) = Some newwq" "map_option q_next (qs t newq) = Some rq"
    "map_option q_next (qs t newwq) = Some (if n = rq then newq else n)"
    by simp_all
  have ot: "lis_safe_OTHERQ x t = lis_safe_OTHERQ x s" for x by (simp add: t_def)
  have qp': "\<exists>P. qs s p = Some P \<and> q_next P = rq \<and> qs t p = Some (P\<lparr>q_next := newq\<rparr>)" "p \<noteq> wq"
    if "n \<noteq> NULL" "n \<noteq> rq"
    using that pn[OF that] p(4)[OF that] by (auto simp: t_def ne)
  have tp: "qs t p \<noteq> None" if "n \<noteq> NULL"
    using qp'(1)[OF that] p(5) qt(1) by (cases "n = rq") auto
  have lk: "linked rq wq newq newwq n t"
    using nx ot p(1) qp' unfolding linked_def by auto
  have qp: "qpair t rq wq" using assms(1) by (simp add: t_def)
  define u where "u = set_next wq n (if n = NULL then t else set_next p rq t)"
  have ul: "unlink_pair newq newwq t = Some u"
    unfolding u_def by (rule unlink_pair_eq[OF qp nx(2,3)]) (use assms(6) ot p(1) tp in auto)
  have other: "qs t x = qs s x" if "x \<notin> {newq, newwq, wq}" "x = p \<Longrightarrow> n = NULL \<or> n = rq" for x
    using that unfolding t_def by (cases "n = NULL"; cases "n = rq") auto
  have W: "map_option (\<lambda>Q. Q\<lparr>q_next := n\<rparr>) (qs t wq) = qs s wq" using next_back[OF q(4)] q(3) qt(1) by simp
  have same: "qs u x = qs s x" if x: "x \<notin> {newq, newwq}" for x
  proof (cases "n = NULL \<or> n = rq")
    case True
    have "qs u = (qs t)(wq := map_option (\<lambda>Q. Q\<lparr>q_next := n\<rparr>) (qs t wq))"
      using True p(5) qt(1) by (auto simp: u_def)
    then show ?thesis using x other[of x] True W by simp
  next
    case False
    then obtain P where P: "qs s p = Some P" "q_next P = rq" "qs t p = Some (P\<lparr>q_next := newq\<rparr>)" "p \<noteq> wq" using qp' by blast
    have "qs u = (qs t)(p := map_option (\<lambda>Q. Q\<lparr>q_next := rq\<rparr>) (qs t p), wq := map_option (\<lambda>Q. Q\<lparr>q_next := n\<rparr>) (qs t wq))"
      using False P(4) by (auto simp: u_def)
    moreover have "map_option (\<lambda>Q. Q\<lparr>q_next := rq\<rparr>) (qs t p) = qs s p" using next_back[OF P(2)] P(1,3) by simp
    ultimately show ?thesis using x other[of x] W by simp
  qed
  have "u\<lparr>qs := qs s\<rparr> = s" by (simp add: u_def t_def set_next_frame)
  then show ?thesis using l lk ul same by blast
qed

subsection \<open>A link that is refused\<close>

text \<open>
  When the driver refuses, the read and write queue of the lower stream head get the procedures of the
  upper side of that driver, not those of a stream head.
\<close>

definition q_init :: "lis \<Rightarrow> ptr \<Rightarrow> qinit option" where
  "q_init s q = Option.bind (qs s q) q_qinfo"

lemma setq_pair:
  assumes "qpair s rq wq"
  shows "\<exists>t. lis_setq rq (Some ri) (Some wi) s = Some t \<and> q_init t rq = Some ri \<and> q_init t wq = Some wi \<and> qpair t rq wq \<and> sds t = sds s \<and> kmem t = kmem s"
proof -
  obtain R W where q: "qs s rq = Some R" "qs s wq = Some W" "q_magic R = Q_MAGIC" "q_magic W = Q_MAGIC" "q_other R = wq"
    "q_other W = rq" "F_ISSET (q_flag R) QREADR" "\<not> F_ISSET (q_flag W) QREADR" "rq \<noteq> wq" "rq \<noteq> NULL" "wq \<noteq> NULL"
    using assms by (auto simp: qpair_def)
  then show ?thesis
    by (simp add: lis_setq_def q_magic_ok_def lis_simps lis_safe_WR_def q_init_def qpair_def)
qed

lemma head_put_some:
  assumes "sds s hdp = Some h" "hdp \<noteq> NULL"
  shows "\<exists>p t. lis_head_put hdp s = Some (p, t) \<and> qs t = qs s \<and> dom (sds t) = dom (sds s)"
  using assms by (auto simp: lis_head_put_def upd_sd_def)

lemma upd_flag_init:
  assumes "qs s q = Some Q"
  shows "\<exists>t. upd_q q (\<lambda>Q. Q\<lparr>q_flag := f (q_flag Q)\<rparr>) s = Some t \<and> q_init t = q_init s \<and> sds t = sds s"
  using assms by (auto simp: upd_q_def q_init_def fun_eq_iff)

lemma q_init_cong: "qs t = qs s \<Longrightarrow> q_init t = q_init s"
  by (simp add: q_init_def fun_eq_iff)

lemma link_undo_procedures:
  assumes "sds s hdp = Some h" "sds s muxed = Some m" "hdp \<noteq> NULL" "muxed \<noteq> NULL" "hdp \<noteq> muxed"
    and "qpair s (sd_rq m) (sd_wq m)" "sd_strtab h = Some st" "st_rdinit st = Some ri" "st_wrinit st = Some wi"
  shows "\<exists>t. link_undo hdp muxed err s = Some (err, t) \<and> q_init t (sd_rq m) = Some ri \<and> q_init t (sd_wq m) = Some wi"
proof -
  let ?m1 = "m\<lparr>sd_flag := sd_flag m AND NOT STPLEX\<rparr>"
  define s1 where "s1 = sd_set muxed ?m1 s"
  have s1: "CLR_SD_FLAG muxed STPLEX s = Some s1" "sds s1 hdp = Some h" "sds s1 muxed = Some ?m1" "qs s1 = qs s"
    using assms(1,2,5) by (simp_all add: s1_def sd_flag_set) (simp add: sd_set_def)
  have "qpair s1 (sd_rq m) (sd_wq m)" using assms(6) s1(4) by (simp add: qpair_def)
  then obtain s2 where s2: "lis_setq (sd_rq m) (Some ri) (Some wi) s1 = Some s2" "q_init s2 (sd_rq m) = Some ri"
    "q_init s2 (sd_wq m) = Some wi" "qpair s2 (sd_rq m) (sd_wq m)" "sds s2 = sds s1"
    using setq_pair by blast
  obtain s3 where s3: "upd_sd hdp (\<lambda>h. h\<lparr>sd_mux := (sd_mux h)\<lparr>mx_hd := mx_next (sd_mux ?m1)\<rparr>\<rparr>) s2 = Some s3"
    "qs s3 = qs s2" "sds s3 muxed = Some ?m1" "sds s3 hdp \<noteq> None"
    using s1 s2(5) assms(5) by (simp add: upd_sd_def)
  obtain s4 where s4: "upd_sd muxed (\<lambda>h. h\<lparr>sd_mux := (sd_mux h)\<lparr>mx_next := NULL\<rparr>\<rparr>) s3 = Some s4"
    "qs s4 = qs s2" "sds s4 muxed \<noteq> None" "sds s4 hdp \<noteq> None"
    using s3 assms(5) by (auto simp: upd_sd_def)
  obtain R where "qs s4 (sd_rq m) = Some R" using s2(4) s4(2) by (auto simp: qpair_def)
  from upd_flag_init[OF this, of "\<lambda>f. f OR QNOENB"]
  obtain s5 where s5: "upd_q (sd_rq m) (\<lambda>Q. Q\<lparr>q_flag := q_flag Q OR QNOENB\<rparr>) s4 = Some s5" "q_init s5 = q_init s2" "sds s5 = sds s4"
    using q_init_cong[OF s4(2)] by auto
  obtain p s6 where s6: "lis_head_put muxed s5 = Some (p, s6)" "qs s6 = qs s5" "dom (sds s6) = dom (sds s5)"
    using head_put_some[of s5 muxed] s4(3) s5(3) assms(4) by auto
  have "sds s6 hdp \<noteq> None" using s6(3) s4(4) s5(3) by (metis domIff)
  then obtain p' s7 where s7: "lis_head_put hdp s6 = Some (p', s7)" "qs s7 = qs s6"
    using head_put_some[of s6 hdp] assms(3) by auto
  have "q_init s7 = q_init s2" using s5(2) q_init_cong[OF s6(2)] q_init_cong[OF s7(2)] by simp
  moreover have "link_undo hdp muxed err s = Some (err, s7)"
    using s1(1,2,3) s2(1) s3(1) s4(1) s5(1) s6(1) s7(1) assms(7-9) by (simp add: link_undo_def)
  ultimately show ?thesis using s2(2,3) by auto
qed

text \<open>The state \<open>t\<close> is the one in which the driver's answer \<open>err\<close> is back.\<close>

lemma link_refused:
  assumes "sds s muxed = Some k" "upd_q (sd_rq k) (\<lambda>Q. Q\<lparr>q_flag := q_flag Q AND NOT QNOENB\<rparr>) s = Some s1"
    and "lis_await_qsched e muxed (sd_rq k) s1 = Some (0, s2)" "link_ask e hdp muxed qtop index creds s2 = Some (err, t)" "err < 0"
    and "sds t hdp = Some h" "sds t muxed = Some m" "hdp \<noteq> NULL" "muxed \<noteq> NULL" "hdp \<noteq> muxed"
    and "qpair t (sd_rq m) (sd_wq m)" "sd_strtab h = Some st" "st_rdinit st = Some ri" "st_wrinit st = Some wi"
  shows "\<exists>u. link_lower e hdp muxed qtop index creds s = Some (err, u) \<and> q_init u (sd_rq m) = Some ri \<and> q_init u (sd_wq m) = Some wi"
proof -
  let ?m = "m\<lparr>sd_opencnt := sd_opencnt m - 1, sd_linkcnt := sd_linkcnt m - 1\<rparr>"
  define v where "v = sd_set muxed ?m t"
  have v: "upd_sd muxed (\<lambda>h. h\<lparr>sd_opencnt := sd_opencnt h - 1, sd_linkcnt := sd_linkcnt h - 1\<rparr>) t = Some v"
    "sds v hdp = Some h" "sds v muxed = Some ?m" "qs v = qs t"
    using assms(6,7,10) by (simp_all add: v_def upd_sd_set) (simp add: sd_set_def)
  have "qpair v (sd_rq ?m) (sd_wq ?m)" using assms(11) v(4) by (simp add: qpair_def)
  from link_undo_procedures[OF v(2,3) assms(8-10) this assms(12-14)]
  obtain u where "link_undo hdp muxed err v = Some (err, u)" "q_init u (sd_rq m) = Some ri" "q_init u (sd_wq m) = Some wi"
    by auto
  then show ?thesis using assms(1-5) v(1) by (simp add: link_lower_def)
qed

end
