(* ===== verification/LiS_SamplesPush.thy ===== *)
theory LiS_SamplesPush
  imports LiS_SamplesHead LiS_PushSpec
begin

text \<open>Streams with a driver below, a queue pair to push, and a stream to link below another, for the witnesses.\<close>

unbundle bit_operations_syntax

definition pq :: "bool \<Rightarrow> ptr \<Rightarrow> ptr \<Rightarrow> ptr \<Rightarrow> queue" where
  "pq rd other nxt str = queue_zero\<lparr>q_flag := (if rd then QUSE OR QREADR else QUSE), q_other := other, q_next := nxt,
     q_str := str, q_magic := Q_MAGIC\<rparr>"

lemma pq_fields [simp]:
  "q_flag (pq rd x n h) = (if rd then QUSE OR QREADR else QUSE)" "q_other (pq rd x n h) = x" "q_next (pq rd x n h) = n"
  "q_str (pq rd x n h) = h" "q_magic (pq rd x n h) = Q_MAGIC" "q_qinfo (pq rd x n h) = None"
  by (simp_all add: pq_def queue_zero_def)

text \<open>
  Stream head 90 with the queues 10 and 20, its driver with 30 and 40, a new pair 50 and 60; stream head
  91 with the queues 110 and 120 and no driver.
\<close>

definition streams :: lis where
  "streams = lis0\<lparr>qs := [10 \<mapsto> pq True 20 NULL 90, 20 \<mapsto> pq False 10 40 90, 30 \<mapsto> pq True 40 10 90, 40 \<mapsto> pq False 30 NULL 90,
     50 \<mapsto> pq True 60 NULL NULL, 60 \<mapsto> pq False 50 NULL NULL, 110 \<mapsto> pq True 120 NULL 91, 120 \<mapsto> pq False 110 NULL 91],
     sds := [90 \<mapsto> stdata_zero\<lparr>sd_magic := STDATA_MAGIC, sd_refcnt := 2, sd_rq := 10, sd_wq := 20,
        sd_strtab := Some \<lparr>st_rdinit = Some srv_info, st_wrinit = Some srv_info, st_muxrinit = Some strmhd_rdinit,
          st_muxwinit = Some strmhd_wrinit\<rparr>\<rparr>,
       91 \<mapsto> stdata_zero\<lparr>sd_magic := STDATA_MAGIC, sd_refcnt := 2, sd_rq := 110, sd_wq := 120\<rparr>]\<rparr>"

lemma streams_qs: "qs streams = [10 \<mapsto> pq True 20 NULL 90, 20 \<mapsto> pq False 10 40 90, 30 \<mapsto> pq True 40 10 90, 40 \<mapsto> pq False 30 NULL 90,
     50 \<mapsto> pq True 60 NULL NULL, 60 \<mapsto> pq False 50 NULL NULL, 110 \<mapsto> pq True 120 NULL 91, 120 \<mapsto> pq False 110 NULL 91]"
  by (simp add: streams_def)

lemma streams_pairs: "qpair streams 10 20" "qpair streams 50 60" "qpair streams 30 40" "qpair streams 110 120"
  by (simp_all add: qpair_def streams_qs F_ISSET_def QUSE_def QREADR_def)

lemma streams_below: "below streams 10 20 40"
  unfolding below_def by (intro disjI2 exI[of _ 30]) (use streams_pairs(3) in \<open>simp add: streams_qs\<close>)

definition penv1 :: penv where
  "penv1 = \<lparr>p_head = \<lparr>h_env = env1, h_wait = (\<lambda>_ _ _. None)\<rparr>, p_open = (\<lambda>_ _ d _ _ _ s. Some (0, d, s)),
     p_close = (\<lambda>_ _ _ _ s. Some s), p_runner = (\<lambda>_ _. None), p_fifo_close = (\<lambda>_ _ s. Some s),
     p_file_cleanup = (\<lambda>_ _ s. Some s), p_pid = 1, p_fd2str = (\<lambda>_ _. 91), p_stack = 8000\<rparr>"

text \<open>There is no memory for the request to the driver of stream 90.\<close>

definition asked :: lis where
  "asked = streams\<lparr>qs := (qs streams)(110 \<mapsto> (pq True 120 NULL 91)\<lparr>q_flag := (QUSE OR QREADR) AND NOT QNOENB\<rparr>)\<rparr>"

lemma asked_clear: "upd_q 110 (\<lambda>Q. Q\<lparr>q_flag := q_flag Q AND NOT QNOENB\<rparr>) streams = Some asked"
  by (simp add: upd_q_def asked_def streams_qs)

lemma asked_idle: "lis_await_qsched penv1 91 110 asked = Some (0, asked)"
  by (simp add: lis_await_qsched_def lis_safe_WR_def lis_safe_RD_def q_magic_ok_def q_busy_def asked_def streams_qs F_ISSET_def
      QUSE_def QREADR_def QNOENB_def QENAB_def QSCAN_def QRUNNING_def)

lemma asked_pair: "qpair asked 110 120"
  by (simp add: qpair_def asked_def streams_qs F_ISSET_def QUSE_def QREADR_def QNOENB_def)

lemma asked_heads: "\<exists>h m. sds asked 90 = Some h \<and> sds asked 91 = Some m \<and> sd_rq m = 110 \<and> sd_wq m = 120 \<and>
    sd_strtab h = Some \<lparr>st_rdinit = Some srv_info, st_wrinit = Some srv_info, st_muxrinit = Some strmhd_rdinit,
      st_muxwinit = Some strmhd_wrinit\<rparr>"
  by (simp add: asked_def streams_def)

lemma srv_not_head: "srv_info \<noteq> strmhd_rdinit"
  by (simp add: srv_info_def strmhd_rdinit_def)

lemma no_memory: "kmem s = [] \<Longrightarrow> lis_allocb n s = Some (NULL, LisUpFailCount HEADERS s)"
  by (simp add: lis_allocb_def allochdr_def kalloc_def)

lemma linkblk_frame:
  "kmem (linkblk p a b i s) = kmem s" "qs (linkblk p a b i s) = qs s" "sds (linkblk p a b i s) = sds s"
  by (simp_all add: linkblk_def mem_put64_def mem_put32_def mem_byte_def)

lemma streams_refused:
  "\<exists>t h m. link_ask penv1 90 91 40 1 0 asked = Some (- ENOMEM, t) \<and> sds t 90 = Some h \<and> sds t 91 = Some m \<and>
    sd_rq m = 110 \<and> sd_wq m = 120 \<and> qpair t 110 120 \<and> sd_strtab h = Some \<lparr>st_rdinit = Some srv_info,
      st_wrinit = Some srv_info, st_muxrinit = Some strmhd_rdinit, st_muxwinit = Some strmhd_wrinit\<rparr>"
proof -
  obtain h m where hm: "sds asked 90 = Some h" "sds asked 91 = Some m" "sd_rq m = 110" "sd_wq m = 120" "sd_strtab h =
     Some \<lparr>st_rdinit = Some srv_info, st_wrinit = Some srv_info, st_muxrinit = Some strmhd_rdinit, st_muxwinit = Some strmhd_wrinit\<rparr>"
    using asked_heads by auto
  obtain s1 where s1: "lis_setq 110 (Some strmhd_rdinit) (Some strmhd_wrinit) asked = Some s1" "qpair s1 110 120" "sds s1 = sds asked" "kmem s1 = kmem asked"
    using setq_pair[OF asked_pair] by blast
  let ?m = "m\<lparr>sd_flag := sd_flag m OR STPLEX, sd_refcnt := sd_refcnt m + 1, sd_opencnt := sd_opencnt m + 1, sd_linkcnt := sd_linkcnt m + 1\<rparr>"
  define s2 where "s2 = linkblk 8000 40 120 1 (sd_set 91 ?m s1)"
  have k: "kmem s2 = []" "qs s2 = qs s1" "sds s2 = (sds s1)(91 \<mapsto> ?m)"
    using s1(4) by (simp_all add: s2_def linkblk_frame sd_set_def asked_def streams_def)
  have "link_ask penv1 90 91 40 1 0 asked = Some (- ENOMEM, LisUpFailCount HEADERS s2)"
    unfolding link_ask_def using hm s1 no_memory[OF k(1)]
    by (simp add: SET_SD_FLAG_def lis_head_get_def upd_sd_set link_ioctl_def lis_strdoioctl_def penv1_def flip: s2_def)
  moreover have "qpair (LisUpFailCount HEADERS s2) 110 120" using s1(2) k(2) by (simp add: qpair_def)
  ultimately show ?thesis using hm k s1(3) by simp
qed

end
