(* ===== verification/LiS_HeadReq.thy ===== *)
theory LiS_HeadReq
  imports LiS_HeadClose
begin

text \<open>
  The requests of \<open>ioctl\<close> (\<open>lis_strioctl\<close> of \<open>head/head.c\<close>), one definition each: their arguments are the
  environment, the stream head and the argument of the call, their result is the code that is returned.
  Each check of user memory and each copy takes one answer of \<open>uacc\<close>.  Further, unlinking all streams
  of a major number, and receiving a file (\<open>head/linux-mdep.c\<close>).  The kernel is one from 3.10 on.
\<close>

unbundle bit_operations_syntax

abbreviation (input) ENFILE :: int where "ENFILE \<equiv> 23"
abbreviation (input) EBADF :: int where "EBADF \<equiv> 9"
abbreviation (input) ENAMETOOLONG :: int where "ENAMETOOLONG \<equiv> 36"
abbreviation (input) ENODATA :: int where "ENODATA \<equiv> 61"
abbreviation (input) ENOSTR :: int where "ENOSTR \<equiv> 60"
abbreviation (input) MSGMEMLIM :: nat where "MSGMEMLIM \<equiv> 14"
abbreviation (input) MEMLIM :: nat where "MEMLIM \<equiv> 13"
abbreviation (input) LOCKCNTS :: nat where "LOCKCNTS \<equiv> 24"
abbreviation (input) LIS_MAX_CLTIME :: u64 where "LIS_MAX_CLTIME \<equiv> 300000"

text \<open>
  The file of the call with its flags, inode and credentials; the loader of modules and what a
  \<open>streamtab\<close> address holds; the outcome of \<open>lis_fifo_write_sync\<close> and of \<open>suser\<close>; what \<open>lis_recvfd\<close>
  does with the copy of a file that was sent to itself; \<open>fattach\<close> and \<open>fdetach\<close>; the counts of the queue
  runners and the reports of \<open>lislocks.c\<close>; the bytes behind the terminator of a module's name.
\<close>

record renv =
  r_push :: penv
  r_menv :: menv
  r_strtab :: "ptr \<Rightarrow> streamtab"
  r_file :: ptr
  r_fl :: u32
  r_dev :: nat
  r_creds :: ptr
  r_suser :: bool
  r_fifo_sync :: int
  r_self_fd :: "ptr \<Rightarrow> lis \<Rightarrow> lis option"
  r_fattach :: "u64 \<Rightarrow> lis \<Rightarrow> (int \<times> lis) option"
  r_fdetach :: "u64 \<Rightarrow> lis \<Rightarrow> (int \<times> lis) option"
  r_qrun_stats :: "lis \<Rightarrow> u8 list"
  r_lock_msg :: "lis \<Rightarrow> (ptr \<times> lis) option"
  r_queue_msg :: "lis \<Rightarrow> (ptr \<times> lis) option"
  r_sem_msg :: "lis \<Rightarrow> (ptr \<times> lis) option"
  r_hist_msg :: "lis \<Rightarrow> (ptr \<times> lis) option"
  r_behind :: "string \<Rightarrow> nat \<Rightarrow> u8"

abbreviation (input) r_head :: "renv \<Rightarrow> henv" where "r_head e \<equiv> p_head (r_push e)"
abbreviation (input) r_env :: "renv \<Rightarrow> env" where "r_env e \<equiv> h_env (r_head e)"
abbreviation (input) r_cur :: "renv \<Rightarrow> ptr" where "r_cur e \<equiv> e_cur (r_env e)"

subsection \<open>User memory\<close>

text \<open>A number of accesses, up to the first that fails.\<close>

primrec user_checks :: "nat \<Rightarrow> lis \<Rightarrow> int \<times> lis" where
  "user_checks 0 s = (0, s)"
| "user_checks (Suc n) s =
     (case user_access s of (ok, s) \<Rightarrow> if ok then user_checks n s else (- EFAULT, s))"

definition copyout_int :: "ptr \<Rightarrow> int \<Rightarrow> lis \<Rightarrow> int \<times> lis" where
  "copyout_int p v s = user_put p (le_bytes 4 (u32_nat v)) s"

definition u64_nat :: "int \<Rightarrow> nat" where
  "u64_nat n = unat (word_of_int n :: u64)"

definition copyout_long :: "ptr \<Rightarrow> int \<Rightarrow> lis \<Rightarrow> int \<times> lis" where
  "copyout_long p v s = user_put p (le_bytes 8 (u64_nat v)) s"

text \<open>The check of an address and the copying of an \<open>int\<close> to it.\<close>

definition put_int :: "u64 \<Rightarrow> int \<Rightarrow> lis \<Rightarrow> int \<times> lis" where
  "put_int arg v s =
     (case lis_check_umem s of (err, s) \<Rightarrow> if err < 0 then (err, s) else copyout_int (unat arg) v s)"

definition user_int :: "lis \<Rightarrow> ptr \<Rightarrow> int" where
  "user_int s p = sint (umem_u32 s p)"

definition user_long :: "lis \<Rightarrow> ptr \<Rightarrow> int" where
  "user_long s p = sint (of_nat (umem_ptr s p) :: u64)"

definition user_strbuf :: "lis \<Rightarrow> ptr \<Rightarrow> strbuf" where
  "user_strbuf s p = \<lparr>sb_maxlen = user_int s p, sb_len = user_int s (p + 4), sb_buf = umem_ptr s (p + 8)\<rparr>"

definition strbuf_bytes :: "strbuf \<Rightarrow> u8 list" where
  "strbuf_bytes b = le_bytes 4 (u32_nat (sb_maxlen b)) @ le_bytes 4 (u32_nat (sb_len b)) @ le_bytes 8 (sb_buf b)"

text \<open>The characters before the terminator, if there is one among the first \<open>n\<close>.\<close>

definition user_str :: "lis \<Rightarrow> ptr \<Rightarrow> nat \<Rightarrow> string" where
  "user_str s p n = map (\<lambda>b. char_of (unat b)) (takeWhile (\<lambda>b. b \<noteq> 0) (map (\<lambda>i. umem (hds s) (p + i)) [0..<n]))"

definition lis_copyin_str :: "ptr \<Rightarrow> nat \<Rightarrow> lis \<Rightarrow> int \<times> ptr \<times> string \<times> lis" where
  "lis_copyin_str p maxb s =
     (case kalloc s of (m, s) \<Rightarrow>
      if m = NULL then (- ENOMEM, NULL, [], s)
      else (case user_access s of (ok, s) \<Rightarrow>
        if \<not> ok then (- EFAULT, NULL, [], kfree m s)
        else if length (user_str s p maxb) \<ge> maxb then (- ENAMETOOLONG, NULL, [], kfree m s)
        else (0, m, user_str s p maxb, s)))"

text \<open>The name of a queue (\<open>strmdbg.c\<close>), and \<open>n\<close> bytes from it.\<close>

definition lis_queue_name :: "ptr \<Rightarrow> lis \<Rightarrow> string option" where
  "lis_queue_name q s = do {
     ok \<leftarrow> q_magic_ok q s;
     if \<not> ok then Some ''(bad)''
     else do {
       Q \<leftarrow> qs s q;
       Some (case Option.bind (q_qinfo Q) mi_idname of Some n \<Rightarrow> n | None \<Rightarrow> ''(unknown)'') } }"

definition name_bytes :: "renv \<Rightarrow> string \<Rightarrow> nat \<Rightarrow> u8 list" where
  "name_bytes e name n =
     map (\<lambda>i. if i < length name then of_nat (of_char (name ! i)) else if i = length name then 0 else r_behind e name i)
       [0..<n]"

subsection \<open>Messages\<close>

definition req_putmsg :: "renv \<Rightarrow> ptr \<Rightarrow> u64 \<Rightarrow> lis \<Rightarrow> (int \<times> lis) option" where
  "req_putmsg e hdp arg s = do {
     let a = unat arg;
     (err, s) \<leftarrow> Some (user_checks 2 s);
     if err \<noteq> 0 then Some (err, s)
     else lis_strputpmsg (r_head e) (r_fifo_sync e) (r_fl e) hdp (umem_ptr s (a + 8)) (umem_ptr s (a + 16))
            (user_int s (a + 24)) (umem_u32 s (a + 28)) s }"

definition no_gmsg :: gmsg where
  "no_gmsg = \<lparr>g_ctl = no_strbuf, g_dat = no_strbuf, g_flags = 0, g_band = 0\<rparr>"

definition req_getmsg :: "renv \<Rightarrow> ptr \<Rightarrow> u64 \<Rightarrow> lis \<Rightarrow> (int \<times> lis) option" where
  "req_getmsg e hdp arg s = do {
     let a = unat arg;
     (err, s) \<leftarrow> Some (user_checks 2 s);
     if err \<noteq> 0 then Some (err, s)
     else do {
       (err, _, s) \<leftarrow> lis_strgetpmsg (r_head e) (r_fl e) hdp
         \<lparr>a_doit = True, a_ctl = umem_ptr s (a + 8), a_dat = umem_ptr s (a + 16), a_bandp = umem_ptr s (a + 24),
          a_flagsp = umem_ptr s (a + 32)\<rparr> no_gmsg s;
       Some (err, s) } }"

definition req_nread :: "renv \<Rightarrow> ptr \<Rightarrow> u64 \<Rightarrow> lis \<Rightarrow> (int \<times> lis) option" where
  "req_nread e hdp arg s = do {
     (err, s) \<leftarrow> Some (lis_check_umem s);
     if err < 0 then Some (err, s)
     else do {
       h \<leftarrow> sds s hdp;
       (err, s) \<leftarrow> lis_lockq (r_cur e) (sd_rq h) s;
       if err < 0 then Some (err, s)
       else do {
         siz \<leftarrow> lis_qsize (sd_rq h) s;
         R \<leftarrow> qs s (sd_rq h);
         bytes \<leftarrow> (if q_first R \<noteq> NULL then lis_msgdsize (q_first R) s else Some 0);
         s \<leftarrow> lis_unlockq (r_cur e) (sd_rq h) s;
         (err, s) \<leftarrow> Some (copyout_int (unat arg) bytes s);
         Some (if err = 0 then siz else err, s) } } }"

text \<open>The addresses of the local variables that \<open>lis_strgetpmsg\<close> gets are only compared with null.\<close>

definition req_peek :: "renv \<Rightarrow> ptr \<Rightarrow> u64 \<Rightarrow> lis \<Rightarrow> (int \<times> lis) option" where
  "req_peek e hdp arg s = do {
     let a = unat arg;
     (err, s) \<leftarrow> Some (user_checks 3 s);
     if err < 0 then Some (err, s)
     else do {
       let stk = p_stack (r_push e);
       (res, g, s) \<leftarrow> lis_strgetpmsg (r_head e) (r_fl e) hdp
         \<lparr>a_doit = False, a_ctl = stk, a_dat = stk, a_bandp = stk, a_flagsp = stk\<rparr>
         \<lparr>g_ctl = user_strbuf s a, g_dat = user_strbuf s (a + 16), g_flags = umem_u32 s (a + 32), g_band = 0\<rparr> s;
       (err, s) \<leftarrow>
         Some (if res \<ge> 0
               then user_put a (strbuf_bytes (g_ctl g) @ strbuf_bytes (g_dat g) @ le_bytes 8 (u64_nat (sint (g_flags g)))) s
               else (0, s));
       Some (if err < 0 then err else res, s) } }"

definition req_str :: "renv \<Rightarrow> ptr \<Rightarrow> u64 \<Rightarrow> lis \<Rightarrow> (int \<times> lis) option" where
  "req_str e hdp arg s = do {
     let a = unat arg;
     h \<leftarrow> sds s hdp;
     if F_ISSET (sd_flag h) (STRHUP OR STRCLOSE) then Some (- ENXIO, s)
     else do {
       (err, s) \<leftarrow> Some (user_checks 3 s);
       if err < 0 then Some (err, s)
       else do {
         let pad = map (\<lambda>i. umem (hds s) (a + 12 + i)) [0..<4];
         (res, ioc, s) \<leftarrow> lis_strdoioctl (r_head e) hdp
           \<lparr>ic_cmd = user_int s a, ic_timout = user_int s (a + 4), ic_len = user_int s (a + 8),
            ic_dp = umem_ptr s (a + 16)\<rparr> (r_creds e) True s;
         Some (if res = 0
               then user_put a (le_bytes 4 (u32_nat (ic_cmd ioc)) @ le_bytes 4 (u32_nat (ic_timout ioc)) @
                      le_bytes 4 (u32_nat (ic_len ioc)) @ pad @ le_bytes 8 (ic_dp ioc)) s
               else (res, s)) } } }"

subsection \<open>Modules\<close>

definition req_push :: "renv \<Rightarrow> ptr \<Rightarrow> u64 \<Rightarrow> lis \<Rightarrow> (int \<times> lis) option" where
  "req_push e hdp arg s = do {
     h \<leftarrow> sds s hdp;
     if F_ISSET (sd_flag h) (STRHUP OR STRCLOSE) then Some (- ENXIO, s)
     else do {
       (err, s) \<leftarrow> Some (lis_check_umem s);
       if err < 0 then Some (err, s)
       else do {
         (err, m, mname, s) \<leftarrow> Some (lis_copyin_str (unat arg) (FMNAMESZ + 1) s);
         if err < 0 then Some (err, s)
         else do {
           (i, ms) \<leftarrow> lis_loadmod (r_menv e) mname (mods (hds s));
           let s = kfree m (upd_hds (\<lambda>x. x\<lparr>mods := ms\<rparr>) s);
           f \<leftarrow> (if i = LIS_NULL_MID then Some None else map_option Some (get_mod i ms));
           (case f of
              None \<Rightarrow> Some (- EINVAL, s)
            | Some f \<Rightarrow>
                if f_str f = NULL then Some (- EINVAL, s)
                else do {
                  (err, _, s) \<leftarrow> push_mod (r_push e) hdp (Some (r_strtab e (f_str f))) i (r_dev e) (uint (r_fl e))
                    (r_creds e) s;
                  Some (err, s) }) } } } }"

definition req_pop :: "renv \<Rightarrow> ptr \<Rightarrow> u64 \<Rightarrow> lis \<Rightarrow> (int \<times> lis) option" where
  "req_pop e hdp arg s = do {
     h \<leftarrow> sds s hdp;
     if F_ISSET (sd_flag h) (STRHUP OR STRCLOSE) then Some (- ENXIO, s)
     else pop_mod (r_push e) hdp (uint (r_fl e)) (r_creds e) s }"

definition next_of_head :: "ptr \<Rightarrow> lis \<Rightarrow> ptr option" where
  "next_of_head hdp s = do { h \<leftarrow> sds s hdp; W \<leftarrow> qs s (sd_wq h); Some (q_next W) }"

definition req_look :: "renv \<Rightarrow> ptr \<Rightarrow> u64 \<Rightarrow> lis \<Rightarrow> (int \<times> lis) option" where
  "req_look e hdp arg s = do {
     (err, s) \<leftarrow> Some (lis_check_umem s);
     if err < 0 then Some (err, s)
     else do {
       h \<leftarrow> sds s hdp;
       if sd_pushcnt h = 0 then Some (- EINVAL, s)
       else do {
         q \<leftarrow> next_of_head hdp s;
         name \<leftarrow> lis_queue_name q s;
         Some (user_put (unat arg) (name_bytes e name (min (length name) FMNAMESZ + 1)) s) } } }"

text \<open>Names are compared up to \<open>FMNAMESZ\<close> characters.\<close>

partial_function (option) find_loop :: "string \<Rightarrow> ptr \<Rightarrow> nat \<Rightarrow> lis \<Rightarrow> int option" where
  "find_loop mname q n s =
     (if q = NULL \<or> n = 0 then Some 0
      else do {
        ok \<leftarrow> q_magic_ok q s;
        if \<not> ok then Some (- EINVAL)
        else do {
          name \<leftarrow> lis_queue_name q s;
          if take FMNAMESZ name = take FMNAMESZ mname then Some 1
          else do {
            same \<leftarrow> lis_safe_SAMESTR q s;
            if \<not> same then Some 0
            else do { Q \<leftarrow> qs s q; find_loop mname (q_next Q) (n - 1) s } } } })"

definition req_find :: "renv \<Rightarrow> ptr \<Rightarrow> u64 \<Rightarrow> lis \<Rightarrow> (int \<times> lis) option" where
  "req_find e hdp arg s = do {
     h \<leftarrow> sds s hdp;
     (err, s) \<leftarrow> Some (lis_check_umem s);
     if err < 0 then Some (err, s)
     else do {
       (err, m, mname, s) \<leftarrow> Some (lis_copyin_str (unat arg) (FMNAMESZ + 1) s);
       if err < 0 then Some (err, s)
       else if mname = [] then Some (- EINVAL, kfree m s)
       else do {
         q \<leftarrow> (if sd_wq h = NULL then Some NULL else next_of_head hdp s);
         r \<leftarrow> find_loop mname q (unat (sd_pushcnt h)) s;
         Some (r, kfree m s) } } }"

text \<open>
  The names of the queues from \<open>q\<close> on go to rows of \<open>FMNAMESZ + 1\<close> bytes at \<open>dst\<close>, \<open>FMNAMESZ\<close> bytes each:
  the code and the number of names.
\<close>

partial_function (option) list_loop :: "renv \<Rightarrow> ptr \<Rightarrow> int \<Rightarrow> ptr \<Rightarrow> int \<Rightarrow> lis \<Rightarrow> (int \<times> int \<times> lis) option" where
  "list_loop e q room dst nmods s =
     (if q = NULL \<or> room = 0 then Some (0, nmods, s)
      else do {
        ok \<leftarrow> q_magic_ok q s;
        if \<not> ok then Some (0, nmods, s)
        else do {
          name \<leftarrow> lis_queue_name q s;
          (err, s) \<leftarrow> Some (user_put dst (name_bytes e name FMNAMESZ) s);
          if err < 0 then Some (err, nmods, s)
          else do {
            same \<leftarrow> lis_safe_SAMESTR q s;
            if \<not> same then Some (0, nmods + 1, s)
            else do {
              Q \<leftarrow> qs s q;
              list_loop e (q_next Q) (room - 1) (dst + FMNAMESZ + 1) (nmods + 1) s } } } })"

definition list_names :: "renv \<Rightarrow> ptr \<Rightarrow> ptr \<Rightarrow> lis \<Rightarrow> (int \<times> lis) option" where
  "list_names e hdp a s = do {
     (err, s) \<leftarrow> Some (user_checks 3 s);
     if err < 0 then Some (err, s)
     else do {
       let n = user_int s a;
       let dst = umem_ptr s (a + 8);
       if n \<le> 0 then Some (- EINVAL, s)
       else do {
         (err, s) \<leftarrow> Some (lis_check_umem s);
         if err < 0 then Some (err, s)
         else do {
           h \<leftarrow> sds s hdp;
           q \<leftarrow> (if sd_wq h = NULL then Some NULL else next_of_head hdp s);
           if q = NULL then Some (0, s)
           else do {
             (err, nmods, s) \<leftarrow> list_loop e q n dst 0 s;
             Some (if err < 0 then (err, s) else copyout_int a nmods s) } } } } }"

definition req_list :: "renv \<Rightarrow> ptr \<Rightarrow> u64 \<Rightarrow> lis \<Rightarrow> (int \<times> lis) option" where
  "req_list e hdp arg s =
     (if arg = 0
      then do {
        h \<leftarrow> sds s hdp;
        Some (uint (sd_pushcnt h) + (if F_ISSET (sd_flag h) STFIFO then 0 else 1), s) }
      else list_names e hdp (unat arg) s)"

subsection \<open>Flushing and signals\<close>

definition req_flush :: "renv \<Rightarrow> ptr \<Rightarrow> u64 \<Rightarrow> u8 \<Rightarrow> lis \<Rightarrow> (int \<times> lis) option" where
  "req_flush e hdp arg pri s = do {
     h \<leftarrow> sds s hdp;
     if F_ISSET (sd_flag h) (STRHUP OR STRCLOSE) then Some (- ENXIO, s)
     else if arg AND 3 = 0 then Some (- EINVAL, s)
     else lis_snd_mflush (r_env e) (sd_wq h) (ucast arg) pri s }"

definition req_flushband :: "renv \<Rightarrow> ptr \<Rightarrow> u64 \<Rightarrow> lis \<Rightarrow> (int \<times> lis) option" where
  "req_flushband e hdp arg s = do {
     (err, s) \<leftarrow> Some (user_checks 2 s);
     if err < 0 then Some (err, s)
     else req_flush e hdp (ucast (umem_u32 s (unat arg + 4) AND 3) OR ucast FLUSHBAND) (umem (hds s) (unat arg)) s }"

definition req_setsig :: "renv \<Rightarrow> ptr \<Rightarrow> u64 \<Rightarrow> lis \<Rightarrow> (int \<times> lis) option" where
  "req_setsig e hdp arg s = do {
     h \<leftarrow> sds s hdp;
     if arg = 0
     then do {
       (r, ev) \<leftarrow> lis_del_from_elist (sd_siglist h) (p_pid (r_push e)) S_ALL (evl (hds s));
       let s = upd_hds (\<lambda>x. x\<lparr>evl := ev\<rparr>) s;
       if r \<noteq> 0 then Some (- EINVAL, s)
       else if sd_siglist h = NULL
       then do { s \<leftarrow> upd_sd hdp (\<lambda>h. h\<lparr>sd_sigflags := 0\<rparr>) s; Some (0, s) }
       else Some (0, s) }
     else do {
       (r, p, ev) \<leftarrow> lis_add_to_elist (sd_siglist h) (p_pid (r_push e)) (ucast arg) (evl (hds s));
       s \<leftarrow> upd_sd hdp (\<lambda>h. h\<lparr>sd_siglist := p\<rparr>) (upd_hds (\<lambda>x. x\<lparr>evl := ev\<rparr>) s);
       if r \<noteq> 0 then Some (- EAGAIN, s)
       else do { s \<leftarrow> upd_sd hdp (\<lambda>h. h\<lparr>sd_sigflags := sd_sigflags h OR ucast arg\<rparr>) s; Some (0, s) } } }"

text \<open>The events are a \<open>short\<close>.\<close>

definition req_getsig :: "renv \<Rightarrow> ptr \<Rightarrow> u64 \<Rightarrow> lis \<Rightarrow> (int \<times> lis) option" where
  "req_getsig e hdp arg s = do {
     (err, s) \<leftarrow> Some (lis_check_umem s);
     if err \<noteq> 0 then Some (err, s)
     else do {
       h \<leftarrow> sds s hdp;
       evs \<leftarrow> lis_get_elist_ent (sd_siglist h) (p_pid (r_push e)) (evl (hds s));
       Some (if evs = 0 then (- EINVAL, s) else copyout_int (unat arg) (sint evs) s) } }"

subsection \<open>Options\<close>

definition req_srdopt :: "renv \<Rightarrow> ptr \<Rightarrow> u64 \<Rightarrow> lis \<Rightarrow> (int \<times> lis) option" where
  "req_srdopt e hdp arg s = do {
     h \<leftarrow> sds s hdp;
     let r = set_readopt (sd_rdopt h) (ucast arg);
     s \<leftarrow> upd_sd hdp (\<lambda>h. h\<lparr>sd_rdopt := snd r\<rparr>) s;
     Some (fst r, s) }"

definition req_grdopt :: "renv \<Rightarrow> ptr \<Rightarrow> u64 \<Rightarrow> lis \<Rightarrow> (int \<times> lis) option" where
  "req_grdopt e hdp arg s = do { h \<leftarrow> sds s hdp; Some (put_int arg (sint (sd_rdopt h)) s) }"

definition req_swropt :: "renv \<Rightarrow> ptr \<Rightarrow> u64 \<Rightarrow> lis \<Rightarrow> (int \<times> lis) option" where
  "req_swropt e hdp arg s = do { s \<leftarrow> upd_sd hdp (\<lambda>h. h\<lparr>sd_wropt := ucast arg\<rparr>) s; Some (0, s) }"

definition req_gwropt :: "renv \<Rightarrow> ptr \<Rightarrow> u64 \<Rightarrow> lis \<Rightarrow> (int \<times> lis) option" where
  "req_gwropt e hdp arg s = do { h \<leftarrow> sds s hdp; Some (put_int arg (sint (sd_wropt h)) s) }"

definition req_setcltime :: "renv \<Rightarrow> ptr \<Rightarrow> u64 \<Rightarrow> lis \<Rightarrow> (int \<times> lis) option" where
  "req_setcltime e hdp arg s =
     (if arg > LIS_MAX_CLTIME then Some (- EINVAL, s)
      else do { s \<leftarrow> upd_sd hdp (\<lambda>h. h\<lparr>sd_closetime := uint arg\<rparr>) s; Some (0, s) })"

definition req_getcltime :: "renv \<Rightarrow> ptr \<Rightarrow> u64 \<Rightarrow> lis \<Rightarrow> (int \<times> lis) option" where
  "req_getcltime e hdp arg s = do { h \<leftarrow> sds s hdp; Some (put_int arg (sd_closetime h) s) }"

subsection \<open>Marks and bands\<close>

partial_function (option) no_mark :: "ptr \<Rightarrow> lis \<Rightarrow> bool option" where
  "no_mark mp s =
     (if mp = NULL then Some True
      else do { m \<leftarrow> mb s mp; if b_flag m AND MSGMARK \<noteq> 0 then Some False else no_mark (b_next m) s })"

definition req_atmark :: "renv \<Rightarrow> ptr \<Rightarrow> u64 \<Rightarrow> lis \<Rightarrow> (int \<times> lis) option" where
  "req_atmark e hdp arg s = do {
     h \<leftarrow> sds s hdp;
     mp \<leftarrow> (if sd_wq h = NULL \<or> sd_rq h = NULL then Some NULL else do { R \<leftarrow> qs s (sd_rq h); Some (q_first R) });
     if mp = NULL then Some (0, s)
     else if arg = 1
     then do { m \<leftarrow> mb s mp; Some (if b_flag m AND MSGMARK \<noteq> 0 then 1 else 0, s) }
     else if arg = 2
     then do {
       m \<leftarrow> mb s mp;
       if b_flag m AND MSGMARK = 0 then Some (0, s)
       else do { last \<leftarrow> no_mark (b_next m) s; Some (if last then 1 else 0, s) } }
     else Some (- EINVAL, s) }"

definition req_ckband :: "renv \<Rightarrow> ptr \<Rightarrow> u64 \<Rightarrow> lis \<Rightarrow> (int \<times> lis) option" where
  "req_ckband e hdp arg s =
     (if arg > of_nat LIS_MAX_BAND then Some (- EINVAL, s)
      else do {
        h \<leftarrow> sds s hdp;
        (err, val, s) \<leftarrow> lis_strqget (sd_rq h) QCOUNT (ucast arg) False s;
        Some (if err \<noteq> 0 then - err else if val = Some 0 \<or> val = None then 0 else 1, s) })"

definition req_getband :: "renv \<Rightarrow> ptr \<Rightarrow> u64 \<Rightarrow> lis \<Rightarrow> (int \<times> lis) option" where
  "req_getband e hdp arg s = do {
     (err, s) \<leftarrow> Some (lis_check_umem s);
     if err < 0 then Some (err, s)
     else do {
       h \<leftarrow> sds s hdp;
       R \<leftarrow> qs s (sd_rq h);
       if q_first R = NULL then Some (- ENODATA, s)
       else do { m \<leftarrow> mb s (q_first R); Some (copyout_int (unat arg) (uint (b_band m)) s) } } }"

definition req_canput :: "renv \<Rightarrow> ptr \<Rightarrow> u64 \<Rightarrow> lis \<Rightarrow> (int \<times> lis) option" where
  "req_canput e hdp arg s =
     (if arg > of_nat LIS_MAX_BAND then Some (- EINVAL, s)
      else do { h \<leftarrow> sds s hdp; lis_bcanputnext (sd_wq h) (ucast arg) s })"

end
