(* ===== verification/LiS_HeadStrioctl.thy ===== *)
theory LiS_HeadStrioctl
  imports LiS_HeadReq
begin

text \<open>
  The requests of \<open>ioctl\<close> that work on other streams and files: inserting a queue into a message
  (\<open>I_FDINSERT\<close>), receiving a file (\<open>I_RECVFD\<close>), linking and unlinking, the requests of LiS itself, and
  \<open>lis_strioctl\<close>, which takes one request of a stream at a time.
\<close>

unbundle bit_operations_syntax

subsection \<open>Inserting a queue\<close>

text \<open>\<open>strfdinsert_t\<close>: \<open>ctlbuf\<close> at 0, \<open>databuf\<close> at 16, \<open>flags\<close> at 32, \<open>fildes\<close> at 40, \<open>offset\<close> at 44.\<close>

record strfdinsert =
  fi_ctl :: strbuf
  fi_dat :: strbuf
  fi_flags :: int
  fi_fildes :: int
  fi_offset :: int

definition user_fdinsert :: "lis \<Rightarrow> ptr \<Rightarrow> strfdinsert" where
  "user_fdinsert s a =
     \<lparr>fi_ctl = user_strbuf s a, fi_dat = user_strbuf s (a + 16), fi_flags = user_long s (a + 32),
      fi_fildes = user_int s (a + 40), fi_offset = user_int s (a + 44)\<rparr>"

text \<open>The length is compared, and the remainder taken, as \<open>unsigned long\<close>.\<close>

definition fdinsert_ok :: "strfdinsert \<Rightarrow> bool" where
  "fdinsert_ok f \<longleftrightarrow> \<not> (fi_offset f < 0 \<or> fi_offset f > 4096 \<or>
     (word_of_int (sb_len (fi_ctl f)) :: u64) < word_of_int (fi_offset f) + 8 \<or>
     fi_offset f mod 8 \<noteq> 0 \<or> fi_fildes f < 0 \<or>
     (word_of_int (fi_flags f) :: u64) AND NOT 1 \<noteq> 0)"

text \<open>The write queue of the driver, null for a queue with a bad magic number.\<close>

partial_function (option) fd_driver :: "ptr \<Rightarrow> lis \<Rightarrow> (bool \<times> ptr) option" where
  "fd_driver q s =
     (if q = NULL then Some (True, NULL)
      else do {
        ok \<leftarrow> q_magic_ok q s;
        if \<not> ok then Some (False, q)
        else do {
          same \<leftarrow> lis_safe_SAMESTR q s;
          if \<not> same then Some (True, q) else do { Q \<leftarrow> qs s q; fd_driver (q_next Q) s } } })"

text \<open>Waiting for room; a failed lock does not free the message.\<close>

partial_function (option) fd_wait :: "renv \<Rightarrow> bool \<Rightarrow> ptr \<Rightarrow> ptr \<Rightarrow> lis \<Rightarrow> (bool \<times> int \<times> lis) option" where
  "fd_wait e hipri hdp msg s = do {
     h \<leftarrow> sds s hdp;
     if F_ISSET (sd_flag h) STWRERR
     then do { s \<leftarrow> lis_freemsg msg s; Some (False, - EINVAL, s) }
     else if F_ISSET (sd_flag h) (STRHUP OR STRCLOSE)
     then do { s \<leftarrow> lis_freemsg msg s; Some (False, - ENODEV, s) }
     else do {
       (err, s) \<leftarrow> lis_lockq (r_cur e) (sd_wq h) s;
       if err < 0 then Some (False, err, s)
       else do {
         (couldput, s) \<leftarrow>
           (if sd_wrcnt h = 0 \<and> \<not> F_ISSET (sd_flag h) STRFROZEN then lis_bcanputnext (sd_wq h) 0 s else Some (0, s));
         if couldput \<noteq> 0
         then do { s \<leftarrow> lis_unlockq (r_cur e) (sd_wq h) s; Some (True, 0, s) }
         else if r_fl e AND (O_NONBLOCK OR FL_OLDNDELAY) = O_NONBLOCK \<or> hipri
         then do {
           s \<leftarrow> lis_unlockq (r_cur e) (sd_wq h) s;
           s \<leftarrow> lis_freemsg msg s;
           Some (False, - EAGAIN, s) }
         else do {
           (err, s) \<leftarrow> lis_sleep_on_wwrite (r_head e) hdp s;
           if err < 0 then do { s \<leftarrow> lis_freemsg msg s; Some (False, err, s) }
           else do {
             s \<leftarrow> lis_unlockq (r_cur e) (sd_wq h) s;
             fd_wait e hipri hdp msg s } } } } }"

text \<open>The message gets its priority and the address of the driver's read queue, and is sent.\<close>

definition fd_send :: "renv \<Rightarrow> ptr \<Rightarrow> strfdinsert \<Rightarrow> ptr \<Rightarrow> ptr \<Rightarrow> lis \<Rightarrow> (int \<times> lis) option" where
  "fd_send e hdp f q msg s = do {
     let hipri = (fi_flags f = 1);
     typ \<leftarrow> lis_btype msg s;
     if hipri \<and> typ \<noteq> M_PROTO then do { s \<leftarrow> lis_freemsg msg s; Some (- EINVAL, s) }
     else do {
       s \<leftarrow> (if hipri then set_btype msg M_PCPROTO s else Some s);
       m \<leftarrow> mb s msg;
       rq \<leftarrow> lis_safe_RD q s;
       (ok, err, s) \<leftarrow> fd_wait e hipri hdp msg (mem_put64 (ptr_add (b_rptr m) (fi_offset f)) (of_nat rq) s);
       if \<not> ok then Some (err, s)
       else do {
         h \<leftarrow> sds s hdp;
         s \<leftarrow> lis_safe_putnext (r_env e) (sd_wq h) msg s;
         Some (0, s) } } }"

text \<open>The structure is fetched again by \<open>copyin_msg\<close>.\<close>

definition fd_message :: "renv \<Rightarrow> ptr \<Rightarrow> ptr \<Rightarrow> strfdinsert \<Rightarrow> ptr \<Rightarrow> lis \<Rightarrow> (int \<times> lis) option" where
  "fd_message e hdp a f q s = do {
     (err, msg, s) \<leftarrow> copyin_msg hdp a (a + 16) s;
     if err < 0 then do { s \<leftarrow> (if msg \<noteq> NULL then lis_freemsg msg s else Some s); Some (err, s) }
     else if msg = NULL then Some (- EINVAL, s)
     else fd_send e hdp f q msg s }"

definition fd_other :: "renv \<Rightarrow> ptr \<Rightarrow> ptr \<Rightarrow> strfdinsert \<Rightarrow> ptr \<Rightarrow> lis \<Rightarrow> (int \<times> lis) option" where
  "fd_other e hdp a f ihd s = do {
     s \<leftarrow> lis_head_get ihd s;
     i \<leftarrow> sds s ihd;
     h \<leftarrow> sds s hdp;
     let len = sb_len (fi_dat f);
     if F_ISSET (sd_flag i) (STRDERR OR STWRERR)
     then do { (_, s) \<leftarrow> lis_head_put ihd s; Some (- EINVAL, s) }
     else if F_ISSET (sd_flag i) STPLEX then Some (- ENXIO, s)
     else if len > 0 \<and> len < sd_minpsz h \<or> sd_maxpsz h \<noteq> INFPSZ \<and> len > sd_maxpsz h
     then do { (_, s) \<leftarrow> lis_head_put ihd s; Some (- ERANGE, s) }
     else do {
       (ok, q) \<leftarrow> fd_driver (sd_wq i) s;
       (_, s) \<leftarrow> lis_head_put ihd s;
       if \<not> ok then Some (- EINVAL, s) else fd_message e hdp a f q s } }"

definition req_fdinsert :: "renv \<Rightarrow> ptr \<Rightarrow> u64 \<Rightarrow> lis \<Rightarrow> (int \<times> lis) option" where
  "req_fdinsert e hdp arg s = do {
     let a = unat arg;
     h \<leftarrow> sds s hdp;
     if F_ISSET (sd_flag h) (STRDERR OR STWRERR) then Some (- EINVAL, s)
     else do {
       nxt \<leftarrow> next_of_head hdp s;
       if nxt = NULL then Some (- ENOSR, s)
       else do {
         (err, s) \<leftarrow> Some (user_checks 2 s);
         if err < 0 then Some (err, s)
         else do {
           let f = user_fdinsert s a;
           if \<not> fdinsert_ok f then Some (- EINVAL, s)
           else do {
             let ihd = p_fd2str (r_push e) (fi_fildes f) s;
             if ihd = NULL then Some (- ENOSTR, s) else fd_other e hdp a f ihd s } } } } }"

subsection \<open>Receiving a file\<close>

definition take_fd :: "lis \<Rightarrow> int \<times> lis" where
  "take_fd s = (case free_fds (hds s) of
     [] \<Rightarrow> (- ENFILE, s)
   | n # ns \<Rightarrow> (n, upd_hds (\<lambda>x. x\<lparr>free_fds := ns\<rparr>) s))"

definition put_back :: "ptr \<Rightarrow> ptr \<Rightarrow> int \<Rightarrow> lis \<Rightarrow> (int \<times> u8 list \<times> lis) option" where
  "put_back q mp err s = do { s \<leftarrow> lis_putbqf q mp s; Some (err, [], s) }"

text \<open>
  \<open>lis_recvfd\<close>: \<open>strrecvfd_t\<close> has the file at 0, \<open>uid\<close> at 8, \<open>gid\<close> at 12, the file to use instead at 16;
  the result are its bytes with the descriptor in place of the file.
\<close>

definition lis_recvfd :: "renv \<Rightarrow> ptr \<Rightarrow> lis \<Rightarrow> (int \<times> u8 list \<times> lis) option" where
  "lis_recvfd e hdp s = do {
     h \<leftarrow> (if hdp = NULL then None else sds s hdp);
     if sd_magic h \<noteq> STDATA_MAGIC then Some (- EBADF, [], s)
     else do {
       (mp, s) \<leftarrow> lis_getq (sd_rq h) s;
       if mp = NULL then Some (- EAGAIN, [], s)
       else do {
         typ \<leftarrow> lis_btype mp s;
         if typ \<noteq> M_PASSFP then put_back (sd_rq h) mp (- EAGAIN) s
         else do {
           s \<leftarrow> upd_sd hdp (\<lambda>h. h\<lparr>sd_rfdcnt := sd_rfdcnt h - 1\<rparr>) s;
           m \<leftarrow> mb s mp;
           if (word_of_int (int (b_wptr m) - int (b_rptr m)) :: u64) < 32 then put_back (sd_rq h) mp (- EAGAIN) s
           else (case take_fd s of (fd, s) \<Rightarrow>
             if fd < 0 then put_back (sd_rq h) mp (- ENFILE) s
             else do {
               let p = b_rptr m;
               let fp = unat (mem_u64 s p);
               let bytes = le_bytes 4 (u32_nat fd) @ replicate 4 0 @ map (\<lambda>i. mem s (p + i)) [8..<16] @ replicate 16 0;
               s \<leftarrow> (if unat (mem_u64 s (p + 16)) \<noteq> NULL \<and> unat (mem_u64 s (p + 16)) = r_file e
                    then do {
                      s \<leftarrow> r_self_fd e fp (upd_hds (\<lambda>x. x\<lparr>installed := installed x @ [(fd, r_file e)]\<rparr>) s);
                      Some (mem_put64 p (of_nat (r_file e)) s) }
                    else Some (upd_hds (\<lambda>x. x\<lparr>installed := installed x @ [(fd, fp)]\<rparr>) s));
               s \<leftarrow> lis_freemsg mp s;
               Some (0, bytes, s) }) } } } }"

definition req_recvfd :: "renv \<Rightarrow> ptr \<Rightarrow> u64 \<Rightarrow> lis \<Rightarrow> (int \<times> lis) option" where
  "req_recvfd e hdp arg s = do {
     (err, s) \<leftarrow> Some (lis_check_umem s);
     if err < 0 then Some (err, s)
     else do {
       h \<leftarrow> sds s hdp;
       (err, s) \<leftarrow> lis_lockq (r_cur e) (sd_rq h) s;
       if err < 0 then Some (err, s)
       else do {
         R \<leftarrow> qs s (sd_rq h);
         (rslt, s) \<leftarrow>
           (if q_first R = NULL
            then do {
              (rslt, s) \<leftarrow> lis_sleep_on_wread (r_head e) hdp (ioc_tmout hdp s);
              Some (rslt, ioc_untmout hdp s) }
            else Some (0, s));
         if rslt < 0 then Some (rslt, s)
         else do {
           (err, bytes, s) \<leftarrow> lis_recvfd e hdp s;
           s \<leftarrow> lis_unlockq (r_cur e) (sd_rq h) s;
           Some (if err < 0 then (err, s) else user_put (unat arg) bytes s) } } } }"

subsection \<open>Linking\<close>

definition req_link :: "renv \<Rightarrow> int \<Rightarrow> ptr \<Rightarrow> u64 \<Rightarrow> lis \<Rightarrow> (int \<times> lis) option" where
  "req_link e cmd hdp arg s = do {
     h \<leftarrow> sds s hdp;
     if F_ISSET (sd_flag h) (STRDERR OR STWRERR) then Some (- EINVAL, s)
     else if F_ISSET (sd_flag h) (STRHUP OR STRCLOSE) then Some (- ENXIO, s)
     else do {
       st \<leftarrow> sd_strtab h;
       if st_muxrinit st = None \<or> st_muxwinit st = None then Some (- EINVAL, s)
       else lis_i_link (r_push e) hdp (sint (ucast arg :: u32)) cmd (r_creds e) s } }"

definition unlink_close :: "nat \<Rightarrow> penv \<Rightarrow> ptr \<Rightarrow> ptr \<Rightarrow> lis \<Rightarrow> lis option" where
  "unlink_close n e hp creds s = map_option snd (lis_doclose n e None hp creds s)"

text \<open>
  Every control stream of the major number is opened, unlinked and closed, and the walk starts again, at
  most 100 times; then it goes on from a stream head that may be gone.
\<close>

partial_function (option) unlink_all_loop ::
  "nat \<Rightarrow> penv \<Rightarrow> nat \<Rightarrow> ptr \<Rightarrow> ptr \<Rightarrow> bool \<Rightarrow> nat \<Rightarrow> int \<Rightarrow> lis \<Rightarrow> (int \<times> lis) option" where
  "unlink_all_loop n e maj creds hdp first again rtn s =
     (if \<not> first \<and> hdp = stdata_head (hds s) then Some (rtn, s)
      else do {
        h \<leftarrow> sds s hdp;
        if sd_dev h div 2 ^ 20 \<noteq> maj \<or> mx_hd (sd_mux h) = NULL
        then unlink_all_loop n e maj creds (sd_next h) False again rtn s
        else do {
          s \<leftarrow> upd_sd hdp (\<lambda>h. h\<lparr>sd_opencnt := sd_opencnt h + 1\<rparr>) s;
          s \<leftarrow> lis_head_get hdp s;
          (r, s) \<leftarrow> lis_i_unlink e (unlink_close n e) hdp MUXID_ALL I_PUNLINK creds s;
          let rtn = (if r < 0 then r else rtn);
          s \<leftarrow> upd_sd hdp (\<lambda>h. h\<lparr>sd_mux := (sd_mux h)\<lparr>mx_hd := NULL\<rparr>\<rparr>) s;
          s \<leftarrow> unlink_close n e hdp creds s;
          if again < 100
          then if stdata_head (hds s) = NULL then Some (rtn, s)
               else unlink_all_loop n e maj creds (stdata_head (hds s)) True (again + 1) rtn s
          else do {
            h \<leftarrow> sds s hdp;
            unlink_all_loop n e maj creds (sd_next h) False (again + 1) rtn s } } })"

definition lis_unlink_all :: "nat \<Rightarrow> penv \<Rightarrow> ptr \<Rightarrow> ptr \<Rightarrow> lis \<Rightarrow> (int \<times> lis) option" where
  "lis_unlink_all n e hdp creds s = do {
     h \<leftarrow> sds s hdp;
     if stdata_head (hds s) = NULL then Some (0, s)
     else unlink_all_loop n e (sd_dev h div 2 ^ 20) creds (stdata_head (hds s)) True 0 0 s }"

definition req_unlink :: "nat \<Rightarrow> renv \<Rightarrow> int \<Rightarrow> ptr \<Rightarrow> u64 \<Rightarrow> lis \<Rightarrow> (int \<times> lis) option" where
  "req_unlink n e cmd hdp arg s = do {
     h \<leftarrow> sds s hdp;
     if F_ISSET (sd_flag h) (STRHUP OR STRCLOSE) then Some (- ENXIO, s)
     else if sint arg < -1 then Some (- EINVAL, s)
     else if cmd = I_PUNLINK \<and> sint arg = MUXID_ALL then lis_unlink_all n (r_push e) hdp (r_creds e) s
     else lis_i_unlink (r_push e) (unlink_close n (r_push e)) hdp (sint (ucast arg :: u32)) cmd (r_creds e) s }"

subsection \<open>Requests of LiS\<close>

definition req_qrun_stats :: "renv \<Rightarrow> ptr \<Rightarrow> u64 \<Rightarrow> lis \<Rightarrow> (int \<times> lis) option" where
  "req_qrun_stats e hdp arg s = do {
     (err, s) \<leftarrow> Some (lis_check_umem s);
     if err < 0 then Some (err, s)
     else (case kalloc s of (m, s) \<Rightarrow>
       if m = NULL then Some (- ENOMEM, s)
       else (case user_put (unat arg) (r_qrun_stats e s) s of (err, s) \<Rightarrow> Some (err, kfree m s))) }"

definition put_stat :: "nat \<Rightarrow> nat \<Rightarrow> int \<Rightarrow> lis \<Rightarrow> lis" where
  "put_stat i j v s = s\<lparr>strstats := (strstats s)(i := (strstats s i)(j := v))\<rparr>"

text \<open>The table has 27 rows of four counts.\<close>

definition stats_bytes :: "lis \<Rightarrow> u8 list" where
  "stats_bytes s = concat (map (\<lambda>i. concat (map (\<lambda>j. le_bytes 4 (u32_nat (strstats s i j))) [0..<4])) [0..<27])"

definition req_getstats :: "renv \<Rightarrow> ptr \<Rightarrow> u64 \<Rightarrow> lis \<Rightarrow> (int \<times> lis) option" where
  "req_getstats e hdp arg s = do {
     (err, s) \<leftarrow> Some (lis_check_umem s);
     if err < 0 then Some (err, s)
     else do {
       let s = put_stat LOCKCNTS TOTAL (lock_count (hds s)) s;
       let s = put_stat LOCKCNTS FAILURES (contention_count (hds s)) s;
       Some (user_put (unat arg) (stats_bytes s) s) } }"

text \<open>A block of a report is copied to \<open>dst\<close>.\<close>

definition put_block :: "ptr \<Rightarrow> ptr \<Rightarrow> lis \<Rightarrow> (int \<times> lis) option" where
  "put_block mp dst s = do {
     m \<leftarrow> mb s mp;
     Some (lis_copyout (b_rptr m) dst (nat (c_int (int (b_wptr m) - int (b_rptr m)))) s) }"

definition block_size :: "ptr \<Rightarrow> lis \<Rightarrow> nat option" where
  "block_size mp s = do { m \<leftarrow> mb s mp; Some (nat (c_int (int (b_wptr m) - int (b_rptr m)))) }"

text \<open>
  The blocks of the reports on spin locks, queues and semaphores, one behind the other; the test of the
  third follows the pointer to the second without a test.  On an error the message is lost.
\<close>

definition put_reports :: "ptr \<Rightarrow> ptr \<Rightarrow> lis \<Rightarrow> (int \<times> lis) option" where
  "put_reports mp dst s = do {
     (err, s) \<leftarrow> Some (lis_check_umem s);
     if err < 0 then Some (err, s)
     else do {
       m \<leftarrow> mb s mp;
       n1 \<leftarrow> block_size mp s;
       (err, s) \<leftarrow> put_block mp dst s;
       if err < 0 then Some (err, s)
       else do {
         let c = b_cont m;
         n2 \<leftarrow> (if c \<noteq> NULL then block_size c s else Some 0);
         (err, s) \<leftarrow> (if c \<noteq> NULL then put_block c (dst + n1) s else Some (0, s));
         if err < 0 then Some (err, s)
         else do {
           k \<leftarrow> mb s c;
           if b_cont k \<noteq> NULL then put_block (b_cont k) (dst + n1 + n2) s else Some (0, s) } } } }"

definition req_locks :: "renv \<Rightarrow> ptr \<Rightarrow> u64 \<Rightarrow> lis \<Rightarrow> (int \<times> lis) option" where
  "req_locks e hdp arg s = do {
     (mp, s) \<leftarrow> r_lock_msg e s;
     if mp = NULL then Some (- ENOMEM, s)
     else do {
       (q, s) \<leftarrow> r_queue_msg e s;
       s \<leftarrow> upd_mb mp (\<lambda>m. m\<lparr>b_cont := q\<rparr>) s;
       (sm, s) \<leftarrow> r_sem_msg e s;
       s \<leftarrow> upd_mb (if q \<noteq> NULL then q else mp) (\<lambda>m. m\<lparr>b_cont := sm\<rparr>) s;
       _ \<leftarrow> lis_msgdsize mp s;
       (err, s) \<leftarrow> put_reports mp (unat arg) s;
       if err < 0 then Some (err, s)
       else do { s \<leftarrow> lis_freemsg mp s; Some (err, s) } } }"

definition req_semtime :: "renv \<Rightarrow> ptr \<Rightarrow> u64 \<Rightarrow> lis \<Rightarrow> (int \<times> lis) option" where
  "req_semtime e hdp arg s = do {
     (mp, s) \<leftarrow> r_hist_msg e s;
     if mp = NULL then Some (- ENOMEM, s)
     else do {
       _ \<leftarrow> lis_msgdsize mp s;
       (err, s) \<leftarrow> Some (lis_check_umem s);
       (err, s) \<leftarrow> (if err < 0 then Some (err, s) else put_block mp (unat arg) s);
       if err < 0 then Some (err, s)
       else do { s \<leftarrow> lis_freemsg mp s; Some (err, s) } } }"

definition req_get_maxmsgmem :: "renv \<Rightarrow> ptr \<Rightarrow> u64 \<Rightarrow> lis \<Rightarrow> (int \<times> lis) option" where
  "req_get_maxmsgmem e hdp arg s = do {
     (err, s) \<leftarrow> Some (lis_check_umem s);
     Some (if err < 0 then (err, s) else copyout_long (unat arg) (max_msg_mem s) s) }"

definition req_set_maxmsgmem :: "renv \<Rightarrow> ptr \<Rightarrow> u64 \<Rightarrow> lis \<Rightarrow> (int \<times> lis) option" where
  "req_set_maxmsgmem e hdp arg s =
     (if \<not> r_suser e then Some (- EINVAL, s)
      else Some (0, put_stat MSGMEMLIM MAXIMUM (c_int (sint arg)) (s\<lparr>max_msg_mem := sint arg\<rparr>)))"

definition req_get_maxmem :: "renv \<Rightarrow> ptr \<Rightarrow> u64 \<Rightarrow> lis \<Rightarrow> (int \<times> lis) option" where
  "req_get_maxmem e hdp arg s = do {
     (err, s) \<leftarrow> Some (lis_check_umem s);
     Some (if err < 0 then (err, s) else copyout_long (unat arg) (max_mem (hds s)) s) }"

definition req_set_maxmem :: "renv \<Rightarrow> ptr \<Rightarrow> u64 \<Rightarrow> lis \<Rightarrow> (int \<times> lis) option" where
  "req_set_maxmem e hdp arg s =
     (if \<not> r_suser e then Some (- EINVAL, s)
      else Some (0, put_stat MEMLIM MAXIMUM (c_int (sint arg)) (upd_hds (\<lambda>x. x\<lparr>max_mem := sint arg\<rparr>) s)))"

text \<open>Anything else goes down the stream; its data are the argument itself.\<close>

definition req_transparent :: "renv \<Rightarrow> int \<Rightarrow> ptr \<Rightarrow> u64 \<Rightarrow> lis \<Rightarrow> (int \<times> lis) option" where
  "req_transparent e cmd hdp arg s = do {
     (res, _, s) \<leftarrow> lis_strdoioctl (r_head e) hdp
       \<lparr>ic_cmd = cmd, ic_timout = LIS_LNTIME, ic_len = TRANSPARENT, ic_dp = unat arg\<rparr> (r_creds e) False s;
     Some (res, s) }"

subsection \<open>The call\<close>

text \<open>\<open>__SID | n\<close>.\<close>

definition sid :: "int \<Rightarrow> int" where
  "sid n = 0xdc00 + n"

text \<open>The requests below 128, the first cases of the \<open>switch\<close>; \<^term>\<open>None\<close> for a number that is not among them.\<close>

definition req_streams :: "nat \<Rightarrow> renv \<Rightarrow> int \<Rightarrow> (ptr \<Rightarrow> u64 \<Rightarrow> lis \<Rightarrow> (int \<times> lis) option) option" where
  "req_streams n e cmd =
     map_of [(sid 1, req_nread e), (sid 2, req_push e), (sid 3, req_pop e), (sid 4, req_look e),
       (sid 5, \<lambda>hdp arg. req_flush e hdp arg 0), (sid 6, req_srdopt e), (sid 7, req_grdopt e), (sid 8, req_str e),
       (sid 9, req_setsig e), (sid 10, req_getsig e), (sid 11, req_find e), (sid 12, req_link e I_LINK),
       (sid 13, req_unlink n e I_UNLINK), (sid 14, req_recvfd e), (sid 15, req_peek e), (sid 16, req_fdinsert e),
       (sid 18, req_recvfd e), (sid 19, req_swropt e), (sid 20, req_gwropt e), (sid 21, req_list e),
       (sid 22, req_link e I_PLINK), (sid 23, req_unlink n e I_PUNLINK), (sid 28, req_flushband e),
       (sid 29, req_ckband e), (sid 30, req_getband e), (sid 31, req_atmark e), (sid 32, req_setcltime e),
       (sid 33, req_getcltime e), (sid 34, req_canput e)] cmd"

definition no_req :: "ptr \<Rightarrow> u64 \<Rightarrow> lis \<Rightarrow> (int \<times> lis) option" where
  "no_req hdp arg s = Some (0, s)"

text \<open>The requests of LiS; those that print have no effect here.\<close>

definition req_lis :: "renv \<Rightarrow> int \<Rightarrow> (ptr \<Rightarrow> u64 \<Rightarrow> lis \<Rightarrow> (int \<times> lis) option) option" where
  "req_lis e cmd =
     map_of [(sid 237, req_getmsg e), (sid 238, req_putmsg e), (sid 239, req_semtime e), (sid 240, req_locks e),
       (sid 241, \<lambda>_ arg s. Some (0, upd_hds (\<lambda>x. x\<lparr>debug_mask2 := arg\<rparr>) s)), (sid 242, req_qrun_stats e),
       (sid 244, \<lambda>_ arg. r_fattach e arg), (sid 245, \<lambda>_ arg. r_fdetach e arg), (sid 246, no_req), (sid 247, no_req),
       (sid 248, req_get_maxmsgmem e), (sid 249, req_set_maxmsgmem e), (sid 250, req_get_maxmem e),
       (sid 251, req_set_maxmem e), (sid 252, req_getstats e), (sid 253, no_req), (sid 254, no_req),
       (sid 255, \<lambda>_ arg s. Some (0, upd_hds (\<lambda>x. x\<lparr>debug_mask := arg\<rparr>) s))] cmd"

definition strioctl_switch :: "nat \<Rightarrow> renv \<Rightarrow> int \<Rightarrow> ptr \<Rightarrow> u64 \<Rightarrow> lis \<Rightarrow> (int \<times> lis) option" where
  "strioctl_switch n e cmd =
     (case req_streams n e cmd of
        Some r \<Rightarrow> r
      | None \<Rightarrow> (case req_lis e cmd of Some r \<Rightarrow> r | None \<Rightarrow> req_transparent e cmd))"

definition strioctl_return :: "ptr \<Rightarrow> int \<Rightarrow> lis \<Rightarrow> (int \<times> lis) option" where
  "strioctl_return hdp err s = do {
     (_, s) \<leftarrow> lis_head_put hdp s;
     Some (err, lis_runqueues s) }"

definition lis_strioctl :: "nat \<Rightarrow> renv \<Rightarrow> int \<Rightarrow> u64 \<Rightarrow> lis \<Rightarrow> (int \<times> lis) option" where
  "lis_strioctl n e cmd arg s =
     (let hdp = file_str (hds s) (r_file e) in
      if hdp = NULL then Some (- ENODEV, s)
      else do {
        s \<leftarrow> lis_head_get hdp s;
        h \<leftarrow> sds s hdp;
        if F_ISSET (sd_flag h) STPLEX then strioctl_return hdp (- EINVAL) s
        else do {
          (err, s) \<leftarrow> lis_sleep_on_wioc (r_head e) hdp s;
          if err < 0 then strioctl_return hdp err s
          else do {
            (err, s) \<leftarrow> strioctl_switch n e cmd hdp arg s;
            s \<leftarrow> sd_up Sem_wioc hdp s;
            strioctl_return hdp err s } } })"

end
