(* ===== verification/LiS_ReqSpec.thy ===== *)
theory LiS_ReqSpec
  imports LiS_HeadStrioctl LiS_IoctlSpec LiS_QueueSpec LiS_Events
begin

text \<open>
  What requests of \<open>ioctl\<close> do: receiving a file when no descriptor is free, the events of \<open>I_SETSIG\<close>, and
  the checks of \<open>I_FDINSERT\<close>.
\<close>

unbundle bit_operations_syntax

subsection \<open>What queue operations leave of the stream heads\<close>

text \<open>Stream heads but for their reference counts, and the rest of the state of the head.\<close>

definition outer :: "lis \<Rightarrow> (ptr \<Rightarrow> stdata option) \<times> hdst" where
  "outer s = (\<lambda>p. map_option (\<lambda>h. h\<lparr>sd_refcnt := 0\<rparr>) (sds s p), hds s)"

named_theorems outer_ops

lemma outer_upd [simp]:
  "outer (s\<lparr>mb := x\<rparr>) = outer s" "outer (s\<lparr>db := y\<rparr>) = outer s" "outer (s\<lparr>qs := z\<rparr>) = outer s"
  "outer (s\<lparr>qbands := w\<rparr>) = outer s" "outer (s\<lparr>kmem := k\<rparr>) = outer s" "outer (s\<lparr>qband_cnt := n\<rparr>) = outer s"
  "outer (s\<lparr>qhead := p\<rparr>) = outer s" "outer (s\<lparr>qtail := p\<rparr>) = outer s" "outer (s\<lparr>runq_req_cnt := n\<rparr>) = outer s"
  "outer (s\<lparr>setqsched_calls := c\<rparr>) = outer s" "outer (stats_set f s) = outer s"
  by (simp_all add: outer_def stats_set_def)

lemma outer_stats [simp]:
  "outer (LisDownCount i s) = outer s" "outer (LisUpCount i s) = outer s" "outer (LisDownCounter i n s) = outer s"
  by (subst stats_set_eq, simp)+

lemma outer_upd_ops [outer_ops]:
  "upd_q p f s = Some t \<Longrightarrow> outer t = outer s" "upd_mb p g s = Some t \<Longrightarrow> outer t = outer s"
  "upd_qb p k s = Some t \<Longrightarrow> outer t = outer s"
  by (auto simp: upd_q_def upd_mb_def upd_qb_def elim!: bind_SomeE)

lemma outer_head_get [outer_ops]: "lis_head_get p s = Some t \<Longrightarrow> outer t = outer s"
  by (auto simp: lis_head_get_def upd_sd_def outer_def fun_eq_iff elim!: bind_SomeE split: if_splits)

lemma outer_hold [outer_ops]: "qenable_hold q p s = Some t \<Longrightarrow> outer t = outer s"
  unfolding qenable_hold_def by (auto elim!: bind_SomeE split: if_splits dest!: outer_ops)

lemma outer_qenable [outer_ops]: "lis_qenable q s = Some t \<Longrightarrow> outer t = outer s"
  unfolding lis_qenable_def lis_setqsched_def Let_def
  by (auto elim!: bind_SomeE split: if_splits option.splits dest!: outer_ops)

lemma outer_chk_band [outer_ops]: "chk_band q qp s = Some t \<Longrightarrow> outer t = outer s"
  unfolding chk_band_def by (auto elim!: bind_SomeE split: if_splits dest!: outer_ops)

lemma outer_band_drop [outer_ops]:
  "band_drop_first qp mp s = Some t \<Longrightarrow> outer t = outer s" "band_drop_last qp mp s = Some t \<Longrightarrow> outer t = outer s"
  unfolding band_drop_first_def band_drop_last_def by (auto elim!: bind_SomeE split: if_splits dest!: outer_ops)

lemma outer_count [outer_ops]:
  "uncount_queue q n s = Some t \<Longrightarrow> outer t = outer s" "count_in_queue q n s = Some t \<Longrightarrow> outer t = outer s"
  "count_in_band qp mp n b s = Some t \<Longrightarrow> outer t = outer s"
  unfolding uncount_queue_def count_in_queue_def count_in_band_def
  by (auto elim!: bind_SomeE split: if_splits dest!: outer_ops)

lemma outer_find_qband [outer_ops]: "find_qband q c s = Some (p, t) \<Longrightarrow> outer t = outer s"
  unfolding find_qband_def qband_alloc_def kalloc_def Let_def
  by (auto elim!: bind_SomeE split: if_splits list.splits dest!: outer_ops)

lemma outer_rmv [outer_ops]: "rmv_msg q mp s = Some (p, t) \<Longrightarrow> outer t = outer s"
  unfolding rmv_msg_def adjust_q_count_def unlink_msg_def
  by (auto elim!: bind_SomeE split: if_splits prod.splits dest!: outer_ops)

lemma outer_backenable_loop [outer_ops]:
  assumes "backenable_loop q s = Some t"
  shows "outer t = outer s"
proof (rule backenable_loop.raw_induct[OF _ assms, where P = "\<lambda>q s t. outer t = outer s"])
  fix f :: "ptr \<Rightarrow> lis \<Rightarrow> lis option" and q s t
  assume IH: "\<And>q s t. f q s = Some t \<Longrightarrow> outer t = outer s"
  assume "do {
     q \<leftarrow> lis_backq q s;
     if q = NULL then Some s
     else do {
       ok \<leftarrow> q_magic_ok q s;
       Q \<leftarrow> qs s q;
       if \<not> ok \<or> F_ISSET (q_flag Q) (QPROCSOFF OR QCLOSING) then Some s
       else do {
         can \<leftarrow> (if has_srvp Q then lis_safe_canenable q s else Some False);
         if can
         then do {
           s \<leftarrow> lis_qenable q s;
           Q \<leftarrow> qs s q;
           if \<not> F_ISSET (q_flag Q) QCLOSEWT \<or> q_count Q \<noteq> 0 then Some s else f q s }
         else f q s } } } = Some t"
  then show "outer t = outer s"
    by (auto elim!: bind_SomeE split: if_splits dest!: outer_ops) (metis IH)+
qed

lemma outer_getq [outer_ops]: "lis_getq q s = Some (p, t) \<Longrightarrow> outer t = outer s"
  unfolding lis_getq_def lis_backenable_def
  by (auto elim!: bind_SomeE split: if_splits prod.splits dest!: outer_ops)

lemma outer_place [outer_ops]:
  "clear_band mp ty s = Some t \<Longrightarrow> outer t = outer s" "ins_before q b mp s = Some t \<Longrightarrow> outer t = outer s"
  unfolding clear_band_def ins_before_def Let_def by (auto elim!: bind_SomeE split: if_splits dest!: outer_ops)

lemma outer_spot [outer_ops]: "find_q_spot_head q mp s = Some (p, t) \<Longrightarrow> outer t = outer s"
  unfolding find_q_spot_head_def Let_def by (auto elim!: bind_SomeE split: if_splits dest!: outer_ops)

lemma outer_updatequeue [outer_ops]: "updatequeue q mp i b s = Some t \<Longrightarrow> outer t = outer s"
  unfolding updatequeue_def Let_def by (auto elim!: bind_SomeE split: if_splits prod.splits dest!: outer_ops)

lemma outer_putbq [outer_ops]: "lis_putbq q mp s = Some (r, t) \<Longrightarrow> outer t = outer s"
  unfolding lis_putbq_def by (auto elim!: bind_SomeE split: if_splits prod.splits dest!: outer_ops)


subsection \<open>Queues and stream heads\<close>

lemma queue_sds [simp]:
  "hipri (t\<lparr>sds := d\<rparr>) = hipri t" "mband (t\<lparr>sds := d\<rparr>) = mband t" "mlink (t\<lparr>sds := d\<rparr>) = mlink t"
  "body_eq t (t\<lparr>sds := d\<rparr>)" "route_eq t (t\<lparr>sds := d\<rparr>)" "q_shut q (t\<lparr>sds := d\<rparr>) = q_shut q t"
  by (simp_all add: fun_eq_iff hipri_def blk_type_def blk_db_def mband_def mlink_def body_eq_def route_eq_def q_shut_def q_magic_ok_def)

lemma queue_ok_sds:
  assumes "queue_ok t q xs bs"
  shows "queue_ok (t\<lparr>sds := d\<rparr>) q xs bs"
proof -
  let ?u = "t\<lparr>sds := d\<rparr>"
  obtain Q where Q: "q \<noteq> NULL" "qs t q = Some Q" "q_magic Q = Q_MAGIC" "qlist t Q xs" "desc t xs" "fits t xs"
    "bandlist (qbands t) (q_bandp Q) bs" "binv t (qbands t) xs bs" "qacct t Q xs"
    using assms by (auto simp: queue_ok_def)
  have be: "body_eq t ?u" by simp
  have m: "\<forall>x\<in>set xs. msg_ok t x" using Q(4) by (simp add: qlist_def)
  have "qlist ?u Q xs" using Q(4) by (simp add: qlist_def body_eq_msg_ok[OF be])
  then show ?thesis
    unfolding queue_ok_def using Q
    by (simp add: body_eq_desc[OF be] body_eq_fits[OF be m] body_eq_binv[OF be m] body_eq_qacct[OF be m])
qed


text \<open>A queue whose first message was taken takes it back, whatever happened to the stream heads between.\<close>

lemma take_put_back:
  assumes h: "q_holds q s (x # xs)" and g: "lis_getq q s = Some (x, t)" and d: "dom d = dom (sds t)"
  shows "\<exists>u. lis_putbqf q x (t\<lparr>sds := d\<rparr>) = Some u \<and> q_holds q u (x # xs) \<and> outer u = outer (t\<lparr>sds := d\<rparr>)"
proof -
  let ?t = "t\<lparr>sds := d\<rparr>"
  obtain bs where t: "queue_ok s q (x # xs) bs" "removed s q x xs bs t" "q_holds q t xs"
    using q_get_law[OF h] g by auto
  have be: "body_eq s t" and ok: "queue_ok t q xs bs" "sched_ok t" "q_shut q t = Some False"
    using t(2,3) by (auto simp: removed_def q_holds_def)
  have be': "body_eq s ?t" using body_eq_trans[OF be queue_sds(4)] by blast
  have s: "\<forall>y\<in>set (x # xs). msg_ok s y" "fits s (x # xs)" "distinct (x # xs)"
    using t(1) by (auto simp: queue_ok_st elim!: queue_stE)
  have "sched_ok ?t" using ok(2) d by (auto simp: sched_ok_def dom_def)
  have rt: "room ?t xs bs x"
    using room_after_removal[OF t(1,2)] body_eq_fields(3,5)[OF queue_sds(4)[of t d]]
    by (simp add: room_def cls_def bfree_def qb_fresh_def split: list.splits)
  have "fits ?t (x # xs)" "msg_ok ?t x" "x \<notin> set xs"
    using s body_eq_fits[OF be', of "x # xs"] by (simp_all add: body_eq_msg_ok[OF be'])
  moreover have "q_shut q ?t = Some False" using ok(3) by simp
  ultimately obtain u where u: "lis_putbq q x ?t = Some (1, u)" "inserted ?t q x (ins_first (qkey ?t) x xs) bs u"
    using putq_spec(2)[OF queue_ok_sds[OF ok(1)] _ _ _ _ rt \<open>sched_ok ?t\<close>] by blast
  then obtain bs' where u': "queue_ok u q (ins_first (qkey ?t) x xs) bs'" "sched_ok u" "route_eq ?t u"
    by (auto simp: inserted_def)
  have "route_eq s u"
    using t(2) route_eq_trans[OF _ u'(3)] route_eq_trans[OF _ queue_sds(5)] unfolding removed_def by blast
  then have "q_holds q u (ins_first (qkey ?t) x xs)" using q_holds_step[OF h u'(1,2)] by blast
  moreover have "ins_first (qkey ?t) x xs = x # xs"
    using lrq.holds_desc[OF h] body_eq_fields(6)[OF be'] by (cases xs) (auto simp: ins_first_def)
  moreover have "outer u = outer ?t" by (rule outer_putbq[OF u(1)])
  ultimately show ?thesis using u(1) by (simp add: lis_putbqf_def)
qed

subsection \<open>Receiving a file without a free descriptor\<close>

lemma outer_head:
  assumes "outer t = outer s" "sds s p = Some h"
  obtains k where "sds t p = Some k" "k\<lparr>sd_refcnt := 0\<rparr> = h\<lparr>sd_refcnt := 0\<rparr>" "sd_rfdcnt k = sd_rfdcnt h"
proof -
  have "map_option (\<lambda>h. h\<lparr>sd_refcnt := 0\<rparr>) (sds t p) = Some (h\<lparr>sd_refcnt := 0\<rparr>)"
    using assms by (simp add: outer_def fun_eq_iff)
  then obtain k where k: "sds t p = Some k" "k\<lparr>sd_refcnt := 0\<rparr> = h\<lparr>sd_refcnt := 0\<rparr>" by auto
  from arg_cong[OF k(2), of sd_rfdcnt] have "sd_rfdcnt k = sd_rfdcnt h" by simp
  with k that show ?thesis by blast
qed

lemma outer_hds: "outer t = outer s \<Longrightarrow> hds t = hds s"
  by (simp add: outer_def)

lemma body_sel:
  assumes "body_eq s t" "\<And>m. f (mbody m) = f m"
  shows "map_option f (mb t x) = map_option f (mb s x)"
proof -
  have "map_option mbody (mb t x) = map_option mbody (mb s x)" using assms(1) by (simp add: body_eq_def)
  from arg_cong[OF this, of "map_option f"] show ?thesis by (simp add: option.map_comp comp_def assms(2))
qed

lemma body_block:
  assumes "body_eq s t" "mb s x = Some m"
  obtains k where "mb t x = Some k" "b_rptr k = b_rptr m" "b_wptr k = b_wptr m" "b_datap k = b_datap m"
proof -
  have "map_option (\<lambda>m. (b_rptr m, b_wptr m, b_datap m)) (mb t x) = Some (b_rptr m, b_wptr m, b_datap m)"
    using body_sel[OF assms(1), of "\<lambda>m. (b_rptr m, b_wptr m, b_datap m)" x] assms(2) by (simp add: mbody_def)
  then show ?thesis using that by auto
qed

lemma recvfd_no_descriptor:
  assumes "sds s hdp = Some h" "hdp \<noteq> NULL" "sd_magic h = STDATA_MAGIC" "q_holds (sd_rq h) s (x # xs)"
    and "lis_btype x s = Some M_PASSFP" "mb s x = Some m" "32 \<le> int (b_wptr m) - int (b_rptr m)"
    and "b_wptr m < 2 ^ 64" "free_fds (hds s) = []"
  shows "\<exists>t k. lis_recvfd e hdp s = Some (- ENFILE, [], t) \<and> q_holds (sd_rq h) t (x # xs) \<and>
    sds t hdp = Some k \<and> sd_rfdcnt k = sd_rfdcnt h - 1"
proof -
  obtain t bs where t: "lis_getq (sd_rq h) s = Some (x, t)" "removed s (sd_rq h) x xs bs t"
    using q_get_law[OF assms(4)] by blast
  have be: "body_eq s t" using t(2) by (simp add: removed_def)
  have o: "outer t = outer s" by (rule outer_getq[OF t(1)])
  obtain k where k: "sds t hdp = Some k" "sd_rfdcnt k = sd_rfdcnt h" using outer_head[OF o assms(1)] by blast
  let ?d = "(sds t)(hdp \<mapsto> k\<lparr>sd_rfdcnt := sd_rfdcnt k - 1\<rparr>)"
  let ?u = "t\<lparr>sds := ?d\<rparr>"
  have "dom ?d = dom (sds t)" using k(1) by (auto simp: dom_def)
  from take_put_back[OF assms(4) t(1) this]
  obtain u where u: "lis_putbqf (sd_rq h) x ?u = Some u" "q_holds (sd_rq h) u (x # xs)" "outer u = outer ?u" by blast
  have "sds ?u hdp = Some (k\<lparr>sd_rfdcnt := sd_rfdcnt k - 1\<rparr>)" by simp
  from outer_head[OF u(3) this]
  obtain k' where k': "sds u hdp = Some k'" "sd_rfdcnt k' = sd_rfdcnt h - 1" using k(2) by auto
  obtain m' where m': "mb t x = Some m'" "b_rptr m' = b_rptr m" "b_wptr m' = b_wptr m" "b_datap m' = b_datap m"
    by (rule body_block[OF be assms(6)])
  have "lis_btype x t = Some M_PASSFP" using assms(5,6) m'(1,4) be by (simp add: lis_btype_def body_eq_def)
  have x: "x \<noteq> NULL" using assms(4) by (auto simp: q_holds_def queue_ok_def qlist_def msg_ok_def)
  have big: "\<not> (word_of_int (int (b_wptr m') - int (b_rptr m')) :: u64) < 32"
  proof -
    have "uint (word_of_int (int (b_wptr m') - int (b_rptr m')) :: u64) = int (b_wptr m') - int (b_rptr m')"
      using assms(7,8) m'(2,3) by (intro word_of_int_inverse[OF refl]) auto
    then show ?thesis using assms(7) m'(2,3) by (simp add: word_less_def)
  qed
  have "free_fds (hds ?u) = []" using outer_hds[OF o] assms(9) by simp
  then have "lis_recvfd e hdp s = Some (- ENFILE, [], u)"
    unfolding lis_recvfd_def using assms(1-3) t(1) x k(1) m'(1) big u(1) \<open>lis_btype x t = Some M_PASSFP\<close>
    by (simp add: upd_sd_def take_fd_def put_back_def)
  then show ?thesis using u(2) k' by blast
qed

subsection \<open>Events\<close>

text \<open>
  A process that gives up its events has none any more, but the flags of the stream head stay: the list
  keeps its first element and is never null again.
\<close>

lemma setsig_zero:
  assumes "sds s hdp = Some h" "ev_holds (sd_siglist h) (evl (hds s)) M" "M (p_pid (r_push e)) \<noteq> None"
  shows "\<exists>t. req_setsig e hdp 0 s = Some (0, t) \<and> sds t = sds s \<and>
    ev_holds (sd_siglist h) (evl (hds t)) (del_events M (p_pid (r_push e)) S_ALL)"
proof -
  obtain ev where ev: "lis_del_from_elist (sd_siglist h) (p_pid (r_push e)) S_ALL (evl (hds s)) = Some (0, ev)"
    "ev_holds (sd_siglist h) ev (del_events M (p_pid (r_push e)) S_ALL)"
    using ltab.del_law[OF assms(2), of "p_pid (r_push e)" S_ALL] assms(3) by auto
  have "sd_siglist h \<noteq> NULL"
  proof
    assume "sd_siglist h = NULL"
    with ev(1) show False by (simp add: lis_del_from_elist_def)
  qed
  then show ?thesis using assms(1) ev by (simp add: req_setsig_def upd_hds_def)
qed

subsection \<open>Inserting a queue behind the message\<close>

text \<open>A negative length of the control part is a large \<open>unsigned long\<close>.\<close>

lemma fdinsert_ok_negative:
  assumes "sb_len (fi_ctl f) < 0" "- (2 ^ 31) \<le> sb_len (fi_ctl f)" "fi_offset f = 8 * int k" "k \<le> 512" "fi_flags f = 0"
    and "0 \<le> fi_fildes f"
  shows "fdinsert_ok f"
proof -
  let ?n = "sb_len (fi_ctl f)"
  have "uint (word_of_int ?n :: u64) = (?n + 2 ^ 64) mod 2 ^ 64" by (simp add: uint_word_of_int)
  also have "\<dots> = ?n + 2 ^ 64" using assms(1,2) by (intro mod_pos_pos_trivial) auto
  finally have u: "uint (word_of_int ?n :: u64) = ?n + 2 ^ 64" .
  have v: "(word_of_int (8 * int k) + 8 :: u64) = word_of_int (8 * int k + 8)" by simp
  have "uint (word_of_int (8 * int k + 8) :: u64) = 8 * int k + 8"
    by (rule word_of_int_inverse[OF refl]) (use assms(4) in auto)
  then have "\<not> (word_of_int ?n :: u64) < word_of_int (8 * int k) + 8"
    unfolding v word_less_def u using assms(1,2,4) by simp
  then show ?thesis using assms by (simp add: fdinsert_ok_def)
qed

lemma mem_put_frame:
  "mb (mem_put64 p v s) = mb s" "db (mem_put64 p v s) = db s" "sds (mem_put64 p v s) = sds s"
  "qs (mem_put64 p v s) = qs s" "hds (mem_put64 p v s) = hds s"
  by (simp_all add: mem_put64_def mem_put32_def mem_byte_def)

lemma freemsg_block:
  assumes "msg_inv L s" "msg \<in> L" "mb s msg = Some m" "b_cont m = NULL"
  shows "\<exists>t. lis_freemsg msg s = Some t \<and> mem t = mem s"
proof -
  obtain t where t: "lis_freeb msg s = Some t" using freeb_inv[OF assms(1,2)] by blast
  have "msg \<noteq> NULL" using assms(1,2) by (auto simp: msg_inv_def)
  from freemsg_one[OF t assms(3,4) this] show ?thesis using freeb_non_msg[OF t] by (simp add: non_msg_fields)
qed

lemma fdinsert_outside:
  assumes "fi_flags f = 0" "fi_offset f = 8 * int k" "mb s msg = Some m" "lis_btype msg s = Some ty" "lis_safe_RD q s = Some rq"
    and "msg_inv L s" "msg \<in> L" "b_cont m = NULL" "sds s hdp = Some h" "qs s (sd_wq h) = Some W" "q_qsp W = NULL" "sd_wq h \<noteq> NULL"
    and "\<not> F_ISSET (sd_flag h) STWRERR" "\<not> F_ISSET (sd_flag h) (STRHUP OR STRCLOSE)" "sd_wrcnt h \<noteq> 0"
    and "r_fl e AND (O_NONBLOCK OR FL_OLDNDELAY) = O_NONBLOCK"
  shows "\<exists>t. fd_send e hdp f q msg s = Some (- EAGAIN, t) \<and> mem t = mem (mem_put64 (b_rptr m + 8 * k) (of_nat rq) s)"
proof -
  let ?u = "mem_put64 (b_rptr m + 8 * k) (of_nat rq) s"
  have d: "datap ?u = datap s" by (simp add: fun_eq_iff datap_def mem_put_frame)
  have r: "refs L ?u = refs L s" by (simp add: fun_eq_iff refs_def d)
  have "msg_inv L ?u" using assms(6) unfolding msg_inv_def mem_put_frame d r .
  then obtain t where t: "lis_freemsg msg ?u = Some t" "mem t = mem ?u"
    using freemsg_block[of L ?u msg m] assms(3,7,8) by (auto simp: mem_put_frame)
  have "lis_lockq (r_cur e) (sd_wq h) ?u = Some (0, ?u)" "lis_unlockq (r_cur e) (sd_wq h) ?u = Some ?u"
    using assms(10-12) by (simp_all add: lis_lockq_def lis_unlockq_def mem_put_frame)
  then have "fd_wait e False hdp msg ?u = Some (False, - EAGAIN, t)"
    using assms(9,13-16) t(1) by (subst fd_wait.simps) (simp add: mem_put_frame)
  then have "fd_send e hdp f q msg s = Some (- EAGAIN, t)"
    using assms(1-5) by (simp add: fd_send_def ptr_add_def nat_add_distrib nat_mult_distrib)
  then show ?thesis using t(2) by blast
qed

end
