(* ===== verification/LiS_SamplesReq.thy ===== *)
theory LiS_SamplesReq
  imports LiS_SamplesPush LiS_ReqSpec LiS_SamplesMod
begin

text \<open>States for the requests of \<open>ioctl\<close>: a file that waits in a queue, a message into which a queue is inserted.\<close>

unbundle bit_operations_syntax

definition renv1 :: renv where
  "renv1 = \<lparr>r_push = penv1, r_menv = \<lparr>me_modules = [], me_drivers = [], me_objnames = [], me_apush = [],
       me_request = (\<lambda>_ s. Some (-1, s)), me_chrdev = (\<lambda>_ _. 0), me_delay = (\<lambda>s. s)\<rparr>,
     r_strtab = (\<lambda>_. \<lparr>st_rdinit = None, st_wrinit = None, st_muxrinit = None, st_muxwinit = None\<rparr>),
     r_file = 500, r_fl = O_NONBLOCK, r_dev = 0, r_creds = 0, r_suser = False, r_fifo_sync = 0,
     r_self_fd = (\<lambda>_ s. Some s), r_fattach = (\<lambda>_ s. Some (0, s)), r_fdetach = (\<lambda>_ s. Some (0, s)),
     r_qrun_stats = (\<lambda>_. []), r_lock_msg = (\<lambda>s. Some (NULL, s)), r_queue_msg = (\<lambda>s. Some (NULL, s)),
     r_sem_msg = (\<lambda>s. Some (NULL, s)), r_hist_msg = (\<lambda>s. Some (NULL, s)), r_behind = (\<lambda>_ _. 0)\<rparr>"

subsection \<open>A file in the queue\<close>

definition fileq :: queue where
  "fileq = rdq\<lparr>q_first := 1000, q_last := 1000, q_count := 32, q_bandp := NULL\<rparr>"

definition passed :: lis where
  "passed = lis0\<lparr>mb := [1000 \<mapsto> blk 1000 0 32],
     db := [1000 \<mapsto> (own_db 1000 M_PASSFP)\<lparr>db_lim := databuf 1000 + 32, db_size := 32\<rparr>],
     qs := [10 \<mapsto> fileq, 20 \<mapsto> wrq],
     sds := [90 \<mapsto> stdata_zero\<lparr>sd_magic := STDATA_MAGIC, sd_rq := 10, sd_wq := 20, sd_rfdcnt := 1\<rparr>]\<rparr>"

lemma passed_holds: "q_holds 10 passed [1000]"
proof -
  have q: "qs passed 10 = Some fileq" "q_first fileq = 1000" "q_last fileq = 1000" "q_count fileq = 32" "q_bandp fileq = NULL"
    "q_magic fileq = Q_MAGIC" "q_hiwat fileq = 100" "q_str fileq = NULL" "q_flag fileq = QREADR OR QUSE OR QWANTR"
    "q_other fileq = 20"
    by (simp_all add: passed_def fileq_def)
  have ch: "mchain passed 1000 [1000]" by (simp add: mchain_Cons passed_def)
  have "buf_len passed 1000 = 32" by (simp add: buf_len_def blk_db_def passed_def)
  then have ms: "msize passed 1000 = 32" by (simp add: msize_def lis_msgsize_chain[OF ch] c_sum_def c_int_id)
  have k: "\<not> hipri passed 1000" "mband passed 1000 = 0"
    by (simp_all add: hipri_def lis_hipri_def blk_type_def blk_db_def mband_def passed_def)
  have "qlist passed fileq [1000]" using ch q by (auto simp: qlist_def mlink_def msg_ok_def passed_def)
  then have "queue_ok passed 10 [1000] []"
    using q ms k by (simp add: queue_ok_def desc_def fits_def bandlist_def binv_def cls_def qacct_def main_def tot_def)
  moreover have "sched_ok passed" by (auto simp: sched_ok_def passed_def fileq_def)
  moreover have "q_shut 10 passed = Some False" using q by (simp add: q_shut_def q_magic_ok_def F_ISSET_def q_flag_defs)
  moreover have "backpath passed 10 []" using q by (simp add: lis_backq_def lis_safe_OTHERQ_def q_magic_ok_def passed_def)
  ultimately show ?thesis unfolding q_holds_def by blast
qed

subsection \<open>A message of three bytes\<close>

definition short_msg :: lis where
  "short_msg = lis0\<lparr>mb := [1000 \<mapsto> blk 1000 0 3], db := [1000 \<mapsto> own_db 1000 0],
     qs := [10 \<mapsto> pq True 20 NULL 90, 20 \<mapsto> pq False 10 40 90, 30 \<mapsto> pq True 40 10 90, 40 \<mapsto> pq False 30 NULL 90],
     sds := [90 \<mapsto> stdata_zero\<lparr>sd_magic := STDATA_MAGIC, sd_rq := 10, sd_wq := 20, sd_wrcnt := 1\<rparr>]\<rparr>"

lemma short_msg_inv: "msg_inv {1000} short_msg"
proof -
  have d: "datap short_msg 1000 = 1000" by (simp add: datap_def short_msg_def)
  have "{m \<in> {1000}. datap short_msg m = 1000} = {1000}" using d by auto
  then have "refs {1000} short_msg 1000 = 1" using d by (simp add: refs_def)
  then show ?thesis using d by (auto simp: msg_inv_def short_msg_def split: if_splits)
qed

definition insert16 :: strfdinsert where
  "insert16 = \<lparr>fi_ctl = no_strbuf, fi_dat = \<lparr>sb_maxlen = 0, sb_len = 3, sb_buf = 70000\<rparr>, fi_flags = 0, fi_fildes = 5,
     fi_offset = 16\<rparr>"

lemma insert16_fields: "sb_len (fi_ctl insert16) = -1" "fi_flags insert16 = 0" "fi_offset insert16 = 8 * int 2" "fi_fildes insert16 = 5"
  by (simp_all add: insert16_def no_strbuf_def)

subsection \<open>A process with events\<close>

definition listens :: lis where
  "listens = lis0\<lparr>sds := [90 \<mapsto> stdata_zero\<lparr>sd_magic := STDATA_MAGIC, sd_siglist := 100, sd_sigflags := 7\<rparr>],
     hds := hds0\<lparr>evl := evs1\<rparr>\<rparr>"

end
