(* ===== verification/LiS_Drivers.thy ===== *)
theory LiS_Drivers
  imports LiS_HeadReq LiS_Timers
begin

text \<open>
  Modules and drivers of \<open>drivers/str\<close>: the module \<open>relay\<close>, the module \<open>pipemod\<close> for the middle of a pipe,
  the driver \<open>clone\<close> that opens another one, and the driver \<open>nullstrm\<close>.  A driver has its own state
  beside that of the subsystem: its table of devices, and the \<open>q_ptr\<close> fields of its queues as a map.
  What the put procedures above and below a driver do is the argument \<open>env\<close>; they work on the state of
  the subsystem only.  The use counts of kernel modules and what is printed are left out.
\<close>

unbundle bit_operations_syntax

abbreviation (input) CLONEOPEN :: int where "CLONEOPEN \<equiv> 2"
abbreviation (input) OPENFAIL :: int where "OPENFAIL \<equiv> -1"
abbreviation (input) ENOENT :: int where "ENOENT \<equiv> 2"
abbreviation (input) EBUSY :: int where "EBUSY \<equiv> 16"

text \<open>A device number has 20 bits of minor number.\<close>

definition dev_minor :: "nat \<Rightarrow> nat" where "dev_minor dev = dev mod 2 ^ 20"
definition dev_major :: "nat \<Rightarrow> nat" where "dev_major dev = dev div 2 ^ 20"
definition makedevice :: "nat \<Rightarrow> nat \<Rightarrow> nat" where "makedevice major minor = (major * 2 ^ 20 + minor mod 2 ^ 20) mod 2 ^ 32"

text \<open>\<open>bcanputnext\<close>, a macro for drivers.\<close>

definition drv_bcanputnext :: "ptr \<Rightarrow> u8 \<Rightarrow> lis \<Rightarrow> (int \<times> lis) option" where
  "drv_bcanputnext q band s = do { Q \<leftarrow> qs s q; lis_bcanput (q_next Q) band s }"

subsection \<open>\<open>relay\<close>\<close>

definition relay_open :: "int \<Rightarrow> int" where
  "relay_open sflag = (if sflag = CLONEOPEN then EINVAL else 0)"

definition relay_wput :: "env \<Rightarrow> ptr \<Rightarrow> ptr \<Rightarrow> lis \<Rightarrow> lis option" where
  "relay_wput e q mp s = lis_safe_putnext e q mp s"

definition relay_rput :: "env \<Rightarrow> ptr \<Rightarrow> ptr \<Rightarrow> lis \<Rightarrow> lis option" where
  "relay_rput e q mp s = lis_safe_putnext e q mp s"

subsection \<open>\<open>pipemod\<close>\<close>

text \<open>The queues count their opens in \<open>q_ptr\<close>.\<close>

definition pipemod_open :: "env \<Rightarrow> ptr \<Rightarrow> (ptr \<Rightarrow> nat) \<Rightarrow> lis \<Rightarrow> (int \<times> (ptr \<Rightarrow> nat) \<times> lis) option" where
  "pipemod_open e q qptr s = do {
     rq \<leftarrow> lis_safe_RD q s;
     wq \<leftarrow> lis_safe_WR q s;
     let n = qptr rq + 1;
     s \<leftarrow> lis_qprocson e q s;
     Some (0, qptr(rq := n, wq := n), s) }"

definition pipemod_close :: "ptr \<Rightarrow> (ptr \<Rightarrow> nat) \<Rightarrow> lis \<Rightarrow> (int \<times> (ptr \<Rightarrow> nat) \<times> lis) option" where
  "pipemod_close q qptr s = do {
     rq \<leftarrow> lis_safe_RD q s;
     wq \<leftarrow> lis_safe_WR q s;
     s \<leftarrow> lis_qprocsoff q s;
     Some (0, qptr(rq := 0, wq := 0), s) }"

text \<open>
  A flush of one side.  The arguments of \<open>flushband\<close> are those of the code: the flag in the place of the
  band, and the band in the place of the flag.
\<close>

definition pipe_flush_side :: "env \<Rightarrow> ptr \<Rightarrow> u8 \<Rightarrow> u8 \<Rightarrow> ptr \<Rightarrow> lis \<Rightarrow> lis option" where
  "pipe_flush_side e q side how p s =
     (if how AND side = 0 then Some s
      else if how AND FLUSHBAND \<noteq> 0 then lis_flushband e q (word_of_int FLUSHDATA) (uint (mem s (p + 1))) s
      else lis_flushq e q FLUSHDATA s)"

definition flush_module :: "env \<Rightarrow> ptr \<Rightarrow> ptr \<Rightarrow> lis \<Rightarrow> lis option" where
  "flush_module e q mp s = do {
     rq \<leftarrow> lis_safe_RD q s;
     wq \<leftarrow> lis_safe_WR q s;
     m \<leftarrow> mb s mp;
     let p = b_rptr m;
     s \<leftarrow> pipe_flush_side e wq FLUSHW (mem s p) p s;
     s \<leftarrow> pipe_flush_side e rq FLUSHR (mem s p) p s;
     same \<leftarrow> lis_safe_SAMESTR q s;
     let flush = mem s p AND FLUSHRW;
     let s = (if \<not> same \<and> (flush = FLUSHR \<or> flush = FLUSHW)
              then mem_byte p ((flush AND NOT FLUSHRW) OR (flush XOR FLUSHRW)) s else s);
     lis_safe_putnext e q mp s }"

definition pipemod_put :: "env \<Rightarrow> ptr \<Rightarrow> ptr \<Rightarrow> lis \<Rightarrow> lis option" where
  "pipemod_put e q mp s = do {
     typ \<leftarrow> lis_btype mp s;
     if typ = M_FLUSH then flush_module e q mp s else lis_safe_putnext e q mp s }"

subsection \<open>\<open>clone\<close>\<close>

text \<open>The minor number is the major number of the driver to open.\<close>

definition clone_open :: "renv \<Rightarrow> ptr \<Rightarrow> nat \<Rightarrow> int \<Rightarrow> int \<Rightarrow> ptr \<Rightarrow> lis \<Rightarrow> (int \<times> nat \<times> lis) option" where
  "clone_open e q dev flag sflag creds s =
     (if sflag = CLONEOPEN then Some (OPENFAIL, dev, s)
      else do {
        let major_dev = dev_minor dev;
        (st, ms) \<leftarrow> lis_find_strdev (r_menv e) major_dev (mods (hds s));
        let s = upd_hds (\<lambda>x. x\<lparr>mods := ms\<rparr>) s;
        if st = NULL then Some (ENOENT, dev, s)
        else do {
          let dev = makedevice major_dev 0;
          ri \<leftarrow> st_rdinit (r_strtab e st);
          if qi_qopen ri = 0 then Some (OPENFAIL, dev, s)
          else do {
            s \<leftarrow> lis_setq q (st_rdinit (r_strtab e st)) (st_wrinit (r_strtab e st)) s;
            p_open (r_push e) (qi_qopen ri) q dev flag CLONEOPEN creds s } } })"

subsection \<open>\<open>nullstrm\<close>\<close>

record nulldev =
  nd_rdq :: ptr
  nd_wrq :: ptr
  nd_read_size :: int
  nd_timr_hndl :: int
  nd_minor_nr :: int

record nullst =
  nu_lis :: lis
  nu_dki :: dki
  nu_devs :: "nat \<Rightarrow> nulldev"
  nu_ptr :: "ptr \<Rightarrow> nat option"

definition NDEVS :: nat where "NDEVS = 8"
definition NULL_READ_SIZE :: int where "NULL_READ_SIZE = 0x6e01"
definition NULL_GET_DEV :: int where "NULL_GET_DEV = 0x6e02"

definition upd_null :: "nat \<Rightarrow> (nulldev \<Rightarrow> nulldev) \<Rightarrow> nullst \<Rightarrow> nullst" where
  "upd_null i f st = st\<lparr>nu_devs := (nu_devs st)(i := f (nu_devs st i))\<rparr>"

text \<open>The first free minor number, or the number of devices.\<close>

definition null_free :: "nullst \<Rightarrow> nat" where
  "null_free st = (case find (\<lambda>d. nd_rdq (nu_devs st d) = NULL) [1..<NDEVS] of Some d \<Rightarrow> d | None \<Rightarrow> NDEVS)"

definition null_open :: "ptr \<Rightarrow> nat \<Rightarrow> int \<Rightarrow> nullst \<Rightarrow> (int \<times> nat \<times> nullst) option" where
  "null_open q devp sflag st =
     (let dev = (if sflag = CLONEOPEN then null_free st else dev_minor devp) in
      if dev \<ge> NDEVS then Some (OPENFAIL, devp, st)
      else let devp = makedevice (dev_major devp) dev in
        if nu_ptr st q \<noteq> None then Some (0, devp, st)
        else do {
          wq \<leftarrow> lis_safe_WR q (nu_lis st);
          rq \<leftarrow> lis_safe_RD q (nu_lis st);
          let st = st\<lparr>nu_ptr := (nu_ptr st)(wq \<mapsto> dev, q \<mapsto> dev)\<rparr>;
          let st = upd_null dev (\<lambda>d. d\<lparr>nd_wrq := wq, nd_rdq := rq, nd_read_size := 10, nd_minor_nr := int dev\<rparr>) st;
          s \<leftarrow> lis_qenable rq (nu_lis st);
          Some (0, devp, st\<lparr>nu_lis := s\<rparr>) })"

text \<open>\<open>enableok\<close> and \<open>qenable\<close>, the procedure of a buffer call.\<close>

definition null_bufcall :: "ptr \<Rightarrow> lis \<Rightarrow> lis option" where
  "null_bufcall q s = do { s \<leftarrow> lis_safe_enableok q s; lis_qenable q s }"

definition null_timeout :: "nat \<Rightarrow> nullst \<Rightarrow> nullst option" where
  "null_timeout i st =
     (let rdq = nd_rdq (nu_devs st i) in
      if rdq \<noteq> NULL then do { s \<leftarrow> null_bufcall rdq (nu_lis st); Some (st\<lparr>nu_lis := s\<rparr>) } else Some st)"

text \<open>A negative or positive end of an ioctl, with the structure \<open>iocblk\<close> at \<open>b_rptr\<close>.\<close>

definition ioc_nak_up :: "env \<Rightarrow> ptr \<Rightarrow> ptr \<Rightarrow> int \<Rightarrow> lis \<Rightarrow> lis option" where
  "ioc_nak_up e q mp error s = do {
     m \<leftarrow> mb s mp;
     s \<leftarrow> set_btype mp M_IOCNAK s;
     lis_safe_qreply e q mp (mem_put32 (b_rptr m + 24) (word_of_int error) s) }"

definition ioc_ack_up :: "env \<Rightarrow> ptr \<Rightarrow> ptr \<Rightarrow> int \<Rightarrow> lis \<Rightarrow> lis option" where
  "ioc_ack_up e q mp count s = do {
     m \<leftarrow> mb s mp;
     s \<leftarrow> set_btype mp M_IOCACK s;
     lis_safe_qreply e q mp (mem_put32 (b_rptr m + 20) (word_of_int count) s) }"

text \<open>The integer at the start of the data of an ioctl; there must be a block.\<close>

definition ioc_int :: "ptr \<Rightarrow> lis \<Rightarrow> int option" where
  "ioc_int mp s = do {
     m \<leftarrow> mb s mp;
     if b_cont m = NULL then None else do { d \<leftarrow> mb s (b_cont m); Some (mem_int s (b_rptr d)) } }"

text \<open>A flush that has reached the lower end of the stream.\<close>

definition drv_flush :: "env \<Rightarrow> ptr \<Rightarrow> ptr \<Rightarrow> lis \<Rightarrow> lis option" where
  "drv_flush e q mp s = do {
     m \<leftarrow> mb s mp;
     let p = b_rptr m;
     s \<leftarrow> (if mem s p AND FLUSHW \<noteq> 0 then lis_flushq e q FLUSHDATA s else Some s);
     if mem s p AND FLUSHR \<noteq> 0
     then do {
       rq \<leftarrow> lis_safe_RD q s;
       s \<leftarrow> lis_flushq e rq FLUSHDATA s;
       lis_safe_qreply e q mp (mem_byte p (mem s p AND NOT FLUSHW) s) }
     else lis_freemsg mp s }"

definition null_ioctl :: "env \<Rightarrow> ptr \<Rightarrow> nat \<Rightarrow> ptr \<Rightarrow> nullst \<Rightarrow> nullst option" where
  "null_ioctl e q i mp st = do {
     let s = nu_lis st;
     m \<leftarrow> mb s mp;
     let cmd = mem_int s (b_rptr m);
     if cmd = NULL_READ_SIZE
     then do {
       n \<leftarrow> ioc_int mp s;
       s \<leftarrow> ioc_ack_up e q mp 0 s;
       Some (upd_null i (\<lambda>d. d\<lparr>nd_read_size := n\<rparr>) (st\<lparr>nu_lis := s\<rparr>)) }
     else if cmd = NULL_GET_DEV
     then if mem_u32 s (b_rptr m + 20) \<noteq> 4
          then do { s \<leftarrow> ioc_nak_up e q mp EINVAL s; Some (st\<lparr>nu_lis := s\<rparr>) }
          else do {
            d \<leftarrow> (if b_cont m = NULL then None else mb s (b_cont m));
            s \<leftarrow> ioc_ack_up e q mp 4 (mem_put32 (b_rptr d) (word_of_int (nd_minor_nr (nu_devs st i))) s);
            Some (st\<lparr>nu_lis := s\<rparr>) }
     else do { s \<leftarrow> ioc_nak_up e q mp EINVAL s; Some (st\<lparr>nu_lis := s\<rparr>) } }"

definition null_wput :: "env \<Rightarrow> ptr \<Rightarrow> ptr \<Rightarrow> nullst \<Rightarrow> nullst option" where
  "null_wput e q mp st = do {
     i \<leftarrow> nu_ptr st q;
     typ \<leftarrow> lis_btype mp (nu_lis st);
     if typ = M_IOCTL then null_ioctl e q i mp st
     else do {
       s \<leftarrow> (if typ = M_FLUSH then drv_flush e q mp (nu_lis st) else lis_freemsg mp (nu_lis st));
       Some (st\<lparr>nu_lis := s\<rparr>) } }"

partial_function (option) null_send :: "env \<Rightarrow> ptr \<Rightarrow> ptr \<Rightarrow> int \<Rightarrow> lis \<Rightarrow> lis option" where
  "null_send e q rdq sz s = do {
     (can, s) \<leftarrow> drv_bcanputnext rdq 0 s;
     if can = 0 then Some s
     else do {
       (mp, s) \<leftarrow> lis_allocb sz s;
       if mp = NULL then Some s
       else do {
         s \<leftarrow> upd_mb mp (\<lambda>m. m\<lparr>b_wptr := ptr_add (b_wptr m) sz\<rparr>) s;
         s \<leftarrow> lis_safe_putnext e q mp s;
         null_send e q rdq sz s } } }"

definition null_rsrv :: "env \<Rightarrow> ptr \<Rightarrow> nullst \<Rightarrow> nullst option" where
  "null_rsrv e q st = do {
     i \<leftarrow> nu_ptr st q;
     let d = nu_devs st i;
     if nd_rdq d = NULL then Some st
     else do { s \<leftarrow> null_send e q (nd_rdq d) (nd_read_size d) (nu_lis st); Some (st\<lparr>nu_lis := s\<rparr>) } }"

definition null_close :: "env \<Rightarrow> ptr \<Rightarrow> nullst \<Rightarrow> nullst option" where
  "null_close e q st = do {
     i \<leftarrow> nu_ptr st q;
     let hndl = nd_timr_hndl (nu_devs st i);
     let st = upd_null i (\<lambda>d. d\<lparr>nd_rdq := NULL, nd_wrq := NULL, nd_timr_hndl := 0\<rparr>) st;
     d \<leftarrow> (if hndl \<noteq> 0 then lis_untimeout hndl (nu_dki st) else Some (nu_dki st));
     s \<leftarrow> lis_flushq e q FLUSHALL (nu_lis st);
     wq \<leftarrow> lis_safe_WR q s;
     s \<leftarrow> lis_flushq e wq FLUSHALL s;
     Some (st\<lparr>nu_lis := s, nu_dki := d\<rparr>) }"

end
