(* ===== verification/LiS_Sad.thy ===== *)
theory LiS_Sad
  imports LiS_Drivers
begin

text \<open>
  The administrative driver \<open>drivers/str/sad.c\<close>: transparent ioctls that set and get autopush entries and
  check a list of module names.  Each of them is a dialogue with the stream head, whose progress is kept
  in the \<open>ioc_state\<close> of the minor device.  A failed assertion prints; what follows it runs on.
\<close>

unbundle bit_operations_syntax

abbreviation (input) EACCES :: int where "EACCES \<equiv> 13"
abbreviation (input) ST_NONE :: nat where "ST_NONE \<equiv> 0"
abbreviation (input) ST_SAP_IN :: nat where "ST_SAP_IN \<equiv> 1"
abbreviation (input) ST_GAP_IN :: nat where "ST_GAP_IN \<equiv> 2"
abbreviation (input) ST_GAP_OUT :: nat where "ST_GAP_OUT \<equiv> 3"
abbreviation (input) ST_VML_IN1 :: nat where "ST_VML_IN1 \<equiv> 4"
abbreviation (input) ST_VML_IN2 :: nat where "ST_VML_IN2 \<equiv> 5"

definition SAD_N_MINOR :: nat where "SAD_N_MINOR = 4"
definition SAD_SAP :: int where "SAD_SAP = 0x4401"
definition SAD_GAP :: int where "SAD_GAP = 0x4402"
definition SAD_VML :: int where "SAD_VML = 0x4403"

record priv =
  pv_rq :: ptr
  pv_uaddr :: ptr
  pv_state :: nat
  pv_nmods :: int
  pv_modlist :: ptr

record sadst =
  sa_lis :: lis
  sa_sad :: "nat \<Rightarrow> priv"
  sa_ptr :: "ptr \<Rightarrow> nat option"

text \<open>The put procedures, the loader of modules and the user number of credentials.\<close>

record sadenv =
  sx_env :: env
  sx_menv :: menv
  sx_uid :: "ptr \<Rightarrow> nat"

definition upd_priv :: "nat \<Rightarrow> (priv \<Rightarrow> priv) \<Rightarrow> sadst \<Rightarrow> sadst" where
  "upd_priv i f st = st\<lparr>sa_sad := (sa_sad st)(i := f (sa_sad st i))\<rparr>"

definition sad_state :: "nat \<Rightarrow> nat \<Rightarrow> sadst \<Rightarrow> sadst" where
  "sad_state i n st = upd_priv i (\<lambda>p. p\<lparr>pv_state := n\<rparr>) st"

subsection \<open>Structures in messages\<close>

text \<open>
  A \<open>strapush\<close> of 92 bytes: \<open>sap_cmd\<close>, \<open>sap_major\<close>, \<open>sap_minor\<close>, \<open>sap_lastminor\<close> and \<open>sap_npush\<close>, four bytes
  each, and the list of 8 rows of 9 characters.
\<close>

definition STRAPUSH_SIZE :: int where "STRAPUSH_SIZE = 92"

definition mem_chars :: "lis \<Rightarrow> ptr \<Rightarrow> nat \<Rightarrow> string" where
  "mem_chars s p n = map (\<lambda>i. char_of (unat (mem s (p + i)))) [0..<n]"

definition get_strapush :: "lis \<Rightarrow> ptr \<Rightarrow> strapush" where
  "get_strapush s p =
     \<lparr>sap_cmd = unat (mem_u32 s p), sap_major = unat (mem_u32 s (p + 4)), sap_minor = unat (mem_u32 s (p + 8)),
      sap_lastminor = unat (mem_u32 s (p + 12)), sap_npush = unat (mem_u32 s (p + 16)),
      sap_list = mem_chars s (p + 20) (MAXAPUSH * (FMNAMESZ + 1))\<rparr>"

definition put_chars :: "ptr \<Rightarrow> string \<Rightarrow> lis \<Rightarrow> lis" where
  "put_chars p cs s =
     s\<lparr>mem := (\<lambda>x. if p \<le> x \<and> x < p + length cs then of_nat (of_char (cs ! (x - p))) else mem s x)\<rparr>"

definition put_strapush :: "ptr \<Rightarrow> strapush \<Rightarrow> lis \<Rightarrow> lis" where
  "put_strapush p a s =
     put_chars (p + 20) (sap_list a)
       (mem_put32 (p + 16) (of_nat (sap_npush a)) (mem_put32 (p + 12) (of_nat (sap_lastminor a))
         (mem_put32 p (of_nat (sap_cmd a)) s)))"

text \<open>A string of the memory, up to its terminator.\<close>

partial_function (option) mem_str :: "lis \<Rightarrow> ptr \<Rightarrow> string option" where
  "mem_str s p =
     (if mem s p = 0 then Some []
      else do { r \<leftarrow> mem_str s (p + 1); Some (char_of (unat (mem s p)) # r) })"

fun mem_strs :: "nat \<Rightarrow> ptr \<Rightarrow> lis \<Rightarrow> string list option" where
  "mem_strs 0 p s = Some []"
| "mem_strs (Suc n) p s = do { x \<leftarrow> mem_str s p; r \<leftarrow> mem_strs n (p + FMNAMESZ + 1) s; Some (x # r) }"

definition blk_size :: "ptr \<Rightarrow> lis \<Rightarrow> int option" where
  "blk_size bp s = do { b \<leftarrow> (if bp = NULL then None else mb s bp); Some (int (b_wptr b) - int (b_rptr b)) }"

subsection \<open>The dialogue\<close>

text \<open>A request to copy \<open>sz\<close> bytes, of 80 bytes itself.\<close>

definition sad_copyio :: "sadenv \<Rightarrow> nat \<Rightarrow> ptr \<Rightarrow> u8 \<Rightarrow> ptr \<Rightarrow> int \<Rightarrow> sadst \<Rightarrow> sadst option" where
  "sad_copyio e i mp type uaddr sz st = do {
     s \<leftarrow> set_btype mp type (sa_lis st);
     s \<leftarrow> upd_mb mp (\<lambda>m. m\<lparr>b_wptr := b_rptr m + 80\<rparr>) s;
     m \<leftarrow> mb s mp;
     let req = b_rptr m;
     let s = mem_put64 (req + 24) (of_nat uaddr) s;
     let s = mem_put32 (req + 32) (word_of_int sz) s;
     let s = mem_put32 (req + 36) 0 s;
     s \<leftarrow> lis_safe_putnext (sx_env e) (pv_rq (sa_sad st i)) mp s;
     Some (st\<lparr>sa_lis := s\<rparr>) }"

text \<open>The label \<open>ioctl_done\<close>.\<close>

definition sad_done :: "sadenv \<Rightarrow> nat \<Rightarrow> ptr \<Rightarrow> int \<Rightarrow> int \<Rightarrow> sadst \<Rightarrow> sadst option" where
  "sad_done e i mp err ret st = do {
     m \<leftarrow> mb (sa_lis st) mp;
     s \<leftarrow> set_btype mp (if err < 0 then M_IOCNAK else M_IOCACK) (sa_lis st);
     let s = mem_put32 (b_rptr m + 20) 0 s;
     let s = mem_put32 (b_rptr m + 24) (word_of_int (- err)) s;
     let s = mem_put32 (b_rptr m + 28) (word_of_int ret) s;
     s \<leftarrow> lis_safe_putnext (sx_env e) (pv_rq (sa_sad st i)) mp s;
     Some (st\<lparr>sa_lis := s\<rparr>) }"

text \<open>The answers to the copy requests, one definition per state.\<close>

definition sad_sap_in :: "sadenv \<Rightarrow> nat \<Rightarrow> ptr \<Rightarrow> ptr \<Rightarrow> sadst \<Rightarrow> sadst option" where
  "sad_sap_in e i mp bp st = do {
     let st = sad_state i ST_NONE st;
     let s = sa_lis st;
     n \<leftarrow> blk_size bp s;
     b \<leftarrow> mb s bp;
     if n = STRAPUSH_SIZE
     then do {
       (err, ms) \<leftarrow> lis_apush_set (sx_menv e) (get_strapush s (b_rptr b)) (mods (hds s));
       sad_done e i mp err 0 (st\<lparr>sa_lis := upd_hds (\<lambda>x. x\<lparr>mods := ms\<rparr>) s\<rparr>) }
     else sad_done e i mp (- EINVAL) (-1) st }"

definition sad_gap_in :: "sadenv \<Rightarrow> nat \<Rightarrow> ptr \<Rightarrow> ptr \<Rightarrow> sadst \<Rightarrow> sadst option" where
  "sad_gap_in e i mp bp st = do {
     let st = sad_state i ST_GAP_OUT st;
     let s = sa_lis st;
     n \<leftarrow> blk_size bp s;
     b \<leftarrow> mb s bp;
     if n = STRAPUSH_SIZE
     then do {
       (err, ap) \<leftarrow> lis_apush_get (sx_menv e) (get_strapush s (b_rptr b)) (mods (hds s));
       if err < 0 then sad_done e i mp err 0 (sad_state i ST_NONE st)
       else sad_copyio e i mp M_COPYOUT (pv_uaddr (sa_sad st i)) STRAPUSH_SIZE
              (st\<lparr>sa_lis := put_strapush (b_rptr b) ap s\<rparr>) }
     else sad_done e i mp (- EINVAL) (-1) (sad_state i ST_NONE st) }"

text \<open>\<open>str_list_t\<close>: the number of modules at 0 and the address of the list at 8.\<close>

definition sad_vml_in1 :: "sadenv \<Rightarrow> nat \<Rightarrow> ptr \<Rightarrow> ptr \<Rightarrow> sadst \<Rightarrow> sadst option" where
  "sad_vml_in1 e i mp bp st = do {
     let s = sa_lis st;
     n \<leftarrow> blk_size bp s;
     b \<leftarrow> mb s bp;
     if n \<noteq> 16 then sad_done e i mp (- EINVAL) (-1) (sad_state i ST_NONE st)
     else do {
       let nmods = mem_int s (b_rptr b);
       let st = upd_priv i (\<lambda>p. p\<lparr>pv_nmods := nmods\<rparr>) st;
       if nmods \<le> 0 then sad_done e i mp (- EINVAL) (-1) (sad_state i ST_NONE st)
       else sad_copyio e i mp M_COPYIN (mem_ptr s (b_rptr b + 8)) (nmods * 9) (sad_state i ST_VML_IN2 st) } }"

text \<open>A block of the wrong size is noticed, and then used; \<open>err\<close> is cleared.\<close>

definition sad_vml_in2 :: "sadenv \<Rightarrow> nat \<Rightarrow> ptr \<Rightarrow> ptr \<Rightarrow> sadst \<Rightarrow> sadst option" where
  "sad_vml_in2 e i mp bp st = do {
     let s = sa_lis st;
     _ \<leftarrow> blk_size bp s;
     b \<leftarrow> mb s bp;
     let st = upd_priv i (\<lambda>p. p\<lparr>pv_state := ST_NONE, pv_modlist := b_rptr b\<rparr>) st;
     let nmods = pv_nmods (sa_sad st i);
     names \<leftarrow> mem_strs (nat nmods) (b_rptr b) s;
     ret \<leftarrow> lis_valid_mod_list nmods names (mods (hds s));
     sad_done e i mp 0 ret st }"

definition sad_iocdata :: "sadenv \<Rightarrow> nat \<Rightarrow> ptr \<Rightarrow> sadst \<Rightarrow> sadst option" where
  "sad_iocdata e i mp st = do {
     let s = sa_lis st;
     m \<leftarrow> mb s mp;
     let bp = b_cont m;
     let rval = mem_u64 s (b_rptr m + 24);
     if rval \<noteq> 0 then sad_done e i mp (c_int (- sint rval)) (-1) st
     else if pv_state (sa_sad st i) = ST_SAP_IN then sad_sap_in e i mp bp st
     else if pv_state (sa_sad st i) = ST_GAP_IN then sad_gap_in e i mp bp st
     else if pv_state (sa_sad st i) = ST_GAP_OUT then sad_done e i mp 0 0 (sad_state i ST_NONE st)
     else if pv_state (sa_sad st i) = ST_VML_IN1 then sad_vml_in1 e i mp bp st
     else if pv_state (sa_sad st i) = ST_VML_IN2 then sad_vml_in2 e i mp bp st
     else sad_done e i mp (- EINVAL) (-1) st }"

text \<open>The label \<open>nak_it\<close>.\<close>

definition sad_nak :: "sadenv \<Rightarrow> nat \<Rightarrow> ptr \<Rightarrow> int \<Rightarrow> sadst \<Rightarrow> sadst option" where
  "sad_nak e i mp err st = do {
     m \<leftarrow> mb (sa_lis st) mp;
     s \<leftarrow> set_btype mp M_IOCNAK (sa_lis st);
     s \<leftarrow> lis_safe_putnext (sx_env e) (pv_rq (sa_sad st i)) mp (mem_put32 (b_rptr m + 24) (word_of_int (- err)) s);
     Some (st\<lparr>sa_lis := s\<rparr>) }"

definition sad_do_ioctl :: "sadenv \<Rightarrow> nat \<Rightarrow> ptr \<Rightarrow> sadst \<Rightarrow> sadst option" where
  "sad_do_ioctl e i mp st = do {
     let s = sa_lis st;
     m \<leftarrow> mb s mp;
     let iocp = b_rptr m;
     if mem_int s (iocp + 20) \<noteq> TRANSPARENT then sad_nak e i mp (- EINVAL) st
     else if pv_state (sa_sad st i) \<noteq> ST_NONE then sad_nak e i mp (- EINVAL) st
     else do {
       d \<leftarrow> (if b_cont m = NULL then None else mb s (b_cont m));
       let uaddr = mem_ptr s (b_rptr d);
       let st = upd_priv i (\<lambda>p. p\<lparr>pv_uaddr := uaddr\<rparr>) st;
       let cmd = mem_int s iocp;
       if cmd = SAD_SAP
       then if sx_uid e (mem_ptr s (iocp + 8)) \<noteq> 0 then sad_nak e i mp (- EACCES) st
            else sad_copyio e i mp M_COPYIN uaddr STRAPUSH_SIZE (sad_state i ST_SAP_IN st)
       else if cmd = SAD_GAP then sad_copyio e i mp M_COPYIN uaddr STRAPUSH_SIZE (sad_state i ST_GAP_IN st)
       else if cmd = SAD_VML then sad_copyio e i mp M_COPYIN uaddr 16 (sad_state i ST_VML_IN1 st)
       else sad_nak e i mp (- EINVAL) st } }"

subsection \<open>The driver\<close>

definition sad_free :: "sadst \<Rightarrow> nat" where
  "sad_free st = (case find (\<lambda>d. pv_rq (sa_sad st d) = NULL) [1..<SAD_N_MINOR] of Some d \<Rightarrow> d | None \<Rightarrow> SAD_N_MINOR)"

definition sad_open :: "ptr \<Rightarrow> nat \<Rightarrow> int \<Rightarrow> sadst \<Rightarrow> (int \<times> nat \<times> sadst) option" where
  "sad_open q devp sflag st =
     (let i = (if sflag = CLONEOPEN then sad_free st else dev_minor devp) in
      if sflag = CLONEOPEN \<and> i = SAD_N_MINOR then Some (ENXIO, devp, st)
      else if sflag \<noteq> CLONEOPEN \<and> i \<ge> SAD_N_MINOR then Some (EBUSY, devp, st)
      else do {
        wq \<leftarrow> lis_safe_WR q (sa_lis st);
        Some (0, makedevice (dev_major devp) i,
          upd_priv i (\<lambda>p. p\<lparr>pv_rq := q, pv_state := ST_NONE\<rparr>) (st\<lparr>sa_ptr := (sa_ptr st)(wq \<mapsto> i, q \<mapsto> i)\<rparr>)) })"

definition sad_close :: "ptr \<Rightarrow> sadst \<Rightarrow> (int \<times> sadst) option" where
  "sad_close q st = do {
     i \<leftarrow> sa_ptr st q;
     wq \<leftarrow> lis_safe_WR q (sa_lis st);
     Some (0, upd_priv i (\<lambda>p. p\<lparr>pv_rq := NULL\<rparr>) (st\<lparr>sa_ptr := (sa_ptr st)(wq := None, q := None)\<rparr>)) }"

text \<open>A flush that reaches the driver; the byte is read again after each flush.\<close>

definition sad_flush :: "env \<Rightarrow> ptr \<Rightarrow> ptr \<Rightarrow> lis \<Rightarrow> lis option" where
  "sad_flush e q mp s = do {
     m \<leftarrow> mb s mp;
     let p = b_rptr m;
     s \<leftarrow> (if mem s p AND FLUSHW \<noteq> 0
          then do { s \<leftarrow> lis_flushq e q FLUSHALL s; Some (mem_byte p (mem s p AND NOT FLUSHW) s) }
          else Some s);
     if mem s p AND FLUSHR \<noteq> 0
     then do {
       rq \<leftarrow> lis_safe_RD q s;
       s \<leftarrow> lis_flushq e rq FLUSHALL s;
       lis_safe_qreply e q mp s }
     else lis_freemsg mp s }"

definition sad_wput :: "sadenv \<Rightarrow> ptr \<Rightarrow> ptr \<Rightarrow> sadst \<Rightarrow> sadst option" where
  "sad_wput e q mp st = do {
     typ \<leftarrow> lis_btype mp (sa_lis st);
     if typ = M_FLUSH
     then do { s \<leftarrow> sad_flush (sx_env e) q mp (sa_lis st); Some (st\<lparr>sa_lis := s\<rparr>) }
     else if typ = M_IOCTL then do { i \<leftarrow> sa_ptr st q; sad_do_ioctl e i mp st }
     else if typ = M_IOCDATA then do { i \<leftarrow> sa_ptr st q; sad_iocdata e i mp st }
     else do { s \<leftarrow> lis_freemsg mp (sa_lis st); Some (st\<lparr>sa_lis := s\<rparr>) } }"

end
