(* ===== verification/LiS_Loop.thy ===== *)
theory LiS_Loop
  imports LiS_Sad
begin

text \<open>
  The loop-around driver \<open>drivers/str/loop.c\<close>: two of its streams are connected with the ioctl \<open>LOOP_SET\<close>,
  after which what is written to one comes up on the other, at once, by the service procedure, by a buffer
  call or by a timer, as ioctls have it.  The table of devices is a function; a \<open>struct loop\<close> has an
  address (\<open>lx_addr\<close>), which is passed to the stream head and back as private data.
\<close>

unbundle bit_operations_syntax

record loop =
  lo_qptr :: ptr
  lo_oqptr :: ptr
  lo_use_putnext :: int
  lo_use_bufcall :: int
  lo_msglvl :: int
  lo_msgcnt :: int
  lo_timr :: int
  lo_timr_hndl :: int
  lo_mark :: int
  lo_minor_nr :: int
  lo_catlvl :: int
  lo_copy_bfr :: int
  lo_saved_msg :: ptr
  lo_copy_buf :: ptr
  lo_copy_buf_size :: int
  lo_xp_i_arg :: int
  lo_xp_p_arg :: ptr
  lo_deny_2nd_open :: int
  lo_burst :: int

definition loop_zero :: loop where
  "loop_zero = \<lparr>lo_qptr = NULL, lo_oqptr = NULL, lo_use_putnext = 0, lo_use_bufcall = 0, lo_msglvl = 0, lo_msgcnt = 0,
     lo_timr = 0, lo_timr_hndl = 0, lo_mark = 0, lo_minor_nr = 0, lo_catlvl = 0, lo_copy_bfr = 0, lo_saved_msg = NULL,
     lo_copy_buf = NULL, lo_copy_buf_size = 0, lo_xp_i_arg = 0, lo_xp_p_arg = NULL, lo_deny_2nd_open = 0, lo_burst = 0\<rparr>"

record loopst =
  lp_lis :: lis
  lp_dki :: dki
  lp_loop :: "nat \<Rightarrow> loop"
  lp_ptr :: "ptr \<Rightarrow> nat option"

text \<open>The put procedures; the numbers of \<open>loop_timeout\<close> and \<open>loop_bufcall\<close>; the addresses of the table and back.\<close>

record loopenv =
  lx_env :: env
  lx_timeout :: nat
  lx_bufcall :: nat
  lx_addr :: "nat \<Rightarrow> ptr"
  lx_at :: "ptr \<Rightarrow> nat option"

definition NLOOP :: nat where "NLOOP = 21"
definition LOOP_SET :: int where "LOOP_SET = 0x6c01"
definition LOOP_PUTNXT :: int where "LOOP_PUTNXT = 0x6c02"
definition LOOP_MSGLVL :: int where "LOOP_MSGLVL = 0x6c03"
definition LOOP_TIMR :: int where "LOOP_TIMR = 0x6c04"
definition LOOP_MARK :: int where "LOOP_MARK = 0x6c05"
definition LOOP_GET_DEV :: int where "LOOP_GET_DEV = 0x6c06"
definition LOOP_BUFCALL :: int where "LOOP_BUFCALL = 0x6c07"
definition LOOP_CONCAT :: int where "LOOP_CONCAT = 0x6c08"
definition LOOP_COPY :: int where "LOOP_COPY = 0x6c09"
definition LOOP_DENY_OPEN :: int where "LOOP_DENY_OPEN = 0x6c0a"
definition LOOP_BURST :: int where "LOOP_BURST = 0x6c0b"
definition LOOP_FLUSH :: int where "LOOP_FLUSH = 0x6c0c"
definition LOOP_XPARENT_COPYIN :: int where "LOOP_XPARENT_COPYIN = 101"
definition LOOP_XPARENT_COPYOUT :: int where "LOOP_XPARENT_COPYOUT = 102"

definition upd_loop :: "nat \<Rightarrow> (loop \<Rightarrow> loop) \<Rightarrow> loopst \<Rightarrow> loopst" where
  "upd_loop i f st = st\<lparr>lp_loop := (lp_loop st)(i := f (lp_loop st i))\<rparr>"

definition set_lis :: "lis \<Rightarrow> loopst \<Rightarrow> loopst" where
  "set_lis s st = st\<lparr>lp_lis := s\<rparr>"

subsection \<open>Open and close\<close>

definition loop_free :: "loopst \<Rightarrow> nat" where
  "loop_free st = (case find (\<lambda>d. lo_qptr (lp_loop st d) = NULL) [1..<NLOOP] of Some d \<Rightarrow> d | None \<Rightarrow> NLOOP)"

definition loop_open :: "ptr \<Rightarrow> nat \<Rightarrow> int \<Rightarrow> loopst \<Rightarrow> (int \<times> nat \<times> loopst) option" where
  "loop_open q devp sflag st =
     (let dev = (if sflag = CLONEOPEN then loop_free st else dev_minor devp) in
      if dev \<ge> NLOOP then Some (- ENODEV, devp, st)
      else let devp = makedevice (dev_major devp) dev in
        if lp_ptr st q \<noteq> None
        then Some (if lo_deny_2nd_open (lp_loop st dev) \<noteq> 0 then - EBUSY else 0, devp, st)
        else do {
          wq \<leftarrow> lis_safe_WR q (lp_lis st);
          Some (0, devp, upd_loop dev (\<lambda>_. loop_zero\<lparr>lo_qptr := wq, lo_minor_nr := int dev\<rparr>)
            (st\<lparr>lp_ptr := (lp_ptr st)(wq \<mapsto> dev, q \<mapsto> dev)\<rparr>)) })"

definition loop_bufcall :: "ptr \<Rightarrow> lis \<Rightarrow> lis option" where
  "loop_bufcall q s = do { s \<leftarrow> lis_safe_enableok q s; lis_qenable q s }"

definition loop_timeout :: "nat \<Rightarrow> loopst \<Rightarrow> loopst option" where
  "loop_timeout i st =
     (if lo_qptr (lp_loop st i) \<noteq> NULL
      then do {
        wq \<leftarrow> lis_safe_WR (lo_qptr (lp_loop st i)) (lp_lis st);
        s \<leftarrow> loop_bufcall wq (lp_lis st);
        Some (set_lis s st) }
      else Some st)"

text \<open>The timer of a device is stopped.\<close>

definition loop_untimeout :: "nat \<Rightarrow> loopst \<Rightarrow> loopst option" where
  "loop_untimeout i st =
     (if lo_timr_hndl (lp_loop st i) \<noteq> 0
      then do {
        d \<leftarrow> lis_untimeout (lo_timr_hndl (lp_loop st i)) (lp_dki st);
        Some (upd_loop i (\<lambda>l. l\<lparr>lo_timr_hndl := 0\<rparr>) (st\<lparr>lp_dki := d\<rparr>)) }
      else Some st)"

text \<open>The other side gets a hang-up, and both of its pointers are cleared.\<close>

definition loop_disconnect :: "loopenv \<Rightarrow> nat \<Rightarrow> loopst \<Rightarrow> loopst option" where
  "loop_disconnect e i st =
     (let oq = lo_oqptr (lp_loop st i) in
      if oq = NULL then Some st
      else do {
        j \<leftarrow> lp_ptr st oq;
        let st = upd_loop j (\<lambda>l. l\<lparr>lo_qptr := NULL, lo_oqptr := NULL\<rparr>) st;
        O' \<leftarrow> qs (lp_lis st) oq;
        (_, s) \<leftarrow> lis_putctl (lx_env e) (q_next O') (uint M_HANGUP) (lp_lis st);
        Some (upd_loop i (\<lambda>l. l\<lparr>lo_oqptr := NULL\<rparr>) (set_lis s st)) })"

text \<open>The structure is cleared, \<open>q_ptr\<close> of the queues keeps pointing to it.\<close>

definition loop_close :: "loopenv \<Rightarrow> ptr \<Rightarrow> loopst \<Rightarrow> (int \<times> loopst) option" where
  "loop_close e q st = do {
     i \<leftarrow> lp_ptr st q;
     let st = upd_loop i (\<lambda>l. l\<lparr>lo_qptr := NULL\<rparr>) st;
     st \<leftarrow> loop_untimeout i st;
     st \<leftarrow> loop_disconnect e i st;
     s \<leftarrow> lis_flushq (lx_env e) q FLUSHALL (lp_lis st);
     wq \<leftarrow> lis_safe_WR q s;
     s \<leftarrow> lis_flushq (lx_env e) wq FLUSHALL s;
     let l = lp_loop st i;
     s \<leftarrow> (if lo_saved_msg l \<noteq> NULL then lis_freemsg (lo_saved_msg l) s else Some s);
     let s = (if lo_copy_buf l \<noteq> NULL then kfree (lo_copy_buf l) s else s);
     Some (0, upd_loop i (\<lambda>_. loop_zero) (set_lis s st)) }"

subsection \<open>Transparent ioctls\<close>

definition loop_request_copyio :: "loopenv \<Rightarrow> ptr \<Rightarrow> nat \<Rightarrow> ptr \<Rightarrow> u8 \<Rightarrow> ptr \<Rightarrow> int \<Rightarrow> lis \<Rightarrow> lis option" where
  "loop_request_copyio e wq i mp type uptr nbytes s = do {
     m \<leftarrow> mb s mp;
     let rq = b_rptr m;
     s \<leftarrow> upd_mb mp (\<lambda>m. m\<lparr>b_wptr := rq + 80\<rparr>) s;
     let s = mem_put64 (rq + 24) (of_nat uptr) s;
     let s = mem_put32 (rq + 32) (word_of_int nbytes) s;
     let s = mem_put32 (rq + 36) 0 s;
     let s = mem_put64 (rq + 40) (of_nat (lx_addr e i)) s;
     s \<leftarrow> (if b_cont m \<noteq> NULL \<and> type = M_COPYIN
          then do { s \<leftarrow> upd_mb mp (\<lambda>m. m\<lparr>b_cont := NULL\<rparr>) s; lis_freemsg (b_cont m) s }
          else Some s);
     s \<leftarrow> set_btype mp type s;
     lis_safe_qreply (lx_env e) wq mp s }"

text \<open>The data block of an answer, if the copy succeeded and it has data.\<close>

definition resp_data :: "ptr \<Rightarrow> lis \<Rightarrow> ptr option option" where
  "resp_data mp s = do {
     m \<leftarrow> mb s mp;
     if mem_u64 s (b_rptr m + 24) \<noteq> 0 \<or> b_cont m = NULL then Some None
     else do { typ \<leftarrow> lis_btype (b_cont m) s; Some (if typ = M_DATA then Some (b_cont m) else None) } }"

text \<open>The answer with the structure \<open>loop_xparent_t\<close>: \<open>i_arg\<close> at 4, \<open>p_arg\<close> at 8.\<close>

definition xp_copyout :: "loopenv \<Rightarrow> ptr \<Rightarrow> nat \<Rightarrow> ptr \<Rightarrow> int \<Rightarrow> loopst \<Rightarrow> (int \<times> loopst) option" where
  "xp_copyout e wq i mp cmd st = do {
     let l = lp_loop st i;
     if lo_copy_buf l = NULL then Some (- EINVAL, st)
     else do {
       let n = (if lo_copy_buf_size l < lo_xp_i_arg l then lo_copy_buf_size l else lo_xp_i_arg l);
       let st = upd_loop i (\<lambda>l. l\<lparr>lo_xp_i_arg := n\<rparr>) st;
       (dp, s) \<leftarrow> lis_allocb n (lp_lis st);
       if dp = NULL then Some (- ENOMEM, set_lis s st)
       else do {
         d \<leftarrow> (if n < 0 then None else mb s dp);
         m \<leftarrow> mb s mp;
         s \<leftarrow> upd_mb dp (\<lambda>m. m\<lparr>b_wptr := b_wptr m + nat n\<rparr>) (mem_copy (b_wptr d) (lo_copy_buf l) (nat n) s);
         s \<leftarrow> lis_linkb mp dp s;
         s \<leftarrow> loop_request_copyio e wq i mp M_COPYOUT (lo_xp_p_arg l) n
                (mem_put32 (b_rptr m) (word_of_int cmd OR 0xf00) s);
         Some (1, set_lis s st) } } }"

definition xp_request :: "loopenv \<Rightarrow> ptr \<Rightarrow> nat \<Rightarrow> ptr \<Rightarrow> int \<Rightarrow> loopst \<Rightarrow> (int \<times> loopst) option" where
  "xp_request e wq i mp cmd st = do {
     let s = lp_lis st;
     r \<leftarrow> resp_data mp s;
     (case r of
        None \<Rightarrow> Some (- EINVAL, st)
      | Some dp \<Rightarrow> do {
          n \<leftarrow> lis_msgdsize dp s;
          if n \<noteq> 16 then Some (- EINVAL, st)
          else do {
            m \<leftarrow> mb s mp;
            d \<leftarrow> mb s dp;
            let x = mem_int s (b_rptr d + 4);
            let p = mem_ptr s (b_rptr d + 8);
            let st = upd_loop i (\<lambda>l. l\<lparr>lo_xp_i_arg := x, lo_xp_p_arg := p\<rparr>) st;
            s \<leftarrow> upd_mb mp (\<lambda>m. m\<lparr>b_cont := NULL\<rparr>) s;
            s \<leftarrow> lis_freemsg dp s;
            if cmd = LOOP_XPARENT_COPYIN
            then do {
              s \<leftarrow> loop_request_copyio e wq i mp M_COPYIN p x (mem_put32 (b_rptr m) (word_of_int cmd OR 0xf00) s);
              Some (1, set_lis s st) }
            else xp_copyout e wq i mp cmd (set_lis s st) } }) }"

text \<open>The data that were copied in are kept.\<close>

definition xp_keep :: "nat \<Rightarrow> ptr \<Rightarrow> loopst \<Rightarrow> (int \<times> loopst) option" where
  "xp_keep i mp st = do {
     let s = lp_lis st;
     r \<leftarrow> resp_data mp s;
     (case r of
        None \<Rightarrow> Some (- EINVAL, st)
      | Some dp \<Rightarrow> do {
          n \<leftarrow> lis_msgdsize dp s;
          let l = lp_loop st i;
          if n \<noteq> lo_xp_i_arg l then Some (-1, st)
          else do {
            d \<leftarrow> mb s dp;
            let s = (if lo_copy_buf l \<noteq> NULL then kfree (lo_copy_buf l) s else s);
            (case kalloc s of (buf, s) \<Rightarrow>
              let st = set_lis s (upd_loop i (\<lambda>l. l\<lparr>lo_copy_buf := buf\<rparr>) st) in
              if buf = NULL then Some (- ENOMEM, st)
              else Some (0, set_lis (mem_copy buf (b_rptr d) (nat n) s) (upd_loop i (\<lambda>l. l\<lparr>lo_copy_buf_size := n\<rparr>) st))) } }) }"

definition loop_iocdata :: "loopenv \<Rightarrow> ptr \<Rightarrow> ptr \<Rightarrow> loopst \<Rightarrow> (int \<times> loopst) option" where
  "loop_iocdata e wq mp st = do {
     let s = lp_lis st;
     m \<leftarrow> mb s mp;
     let cmd = mem_int s (b_rptr m);
     if cmd \<in> {LOOP_XPARENT_COPYIN, LOOP_XPARENT_COPYOUT}
     then do { i \<leftarrow> lx_at e (mem_ptr s (b_rptr m + 40)); xp_request e wq i mp cmd st }
     else if cmd = 0xf65
     then do { i \<leftarrow> lx_at e (mem_ptr s (b_rptr m + 40)); xp_keep i mp st }
     else if cmd = 0xf66 then Some (if mem_u64 s (b_rptr m + 24) \<noteq> 0 then - EINVAL else 0, st)
     else Some (- EINVAL, st) }"

subsection \<open>Other ioctls\<close>

definition loop_nak :: "loopenv \<Rightarrow> ptr \<Rightarrow> ptr \<Rightarrow> int \<Rightarrow> loopst \<Rightarrow> loopst option" where
  "loop_nak e q mp error st = do { s \<leftarrow> ioc_nak_up (lx_env e) q mp error (lp_lis st); Some (set_lis s st) }"

definition loop_ack :: "loopenv \<Rightarrow> ptr \<Rightarrow> ptr \<Rightarrow> int \<Rightarrow> loopst \<Rightarrow> loopst option" where
  "loop_ack e q mp count st = do { s \<leftarrow> ioc_ack_up (lx_env e) q mp count (lp_lis st); Some (set_lis s st) }"

text \<open>Connecting with the device whose number is in the data.\<close>

definition loop_set :: "loopenv \<Rightarrow> ptr \<Rightarrow> nat \<Rightarrow> ptr \<Rightarrow> loopst \<Rightarrow> loopst option" where
  "loop_set e q i mp st = do {
     let s = lp_lis st;
     m \<leftarrow> mb s mp;
     if mem_u32 s (b_rptr m + 20) \<noteq> 4 then loop_nak e q mp EINVAL st
     else do {
       to \<leftarrow> ioc_int mp s;
       if to \<ge> int NLOOP \<or> to < 0 \<or> lo_qptr (lp_loop st (nat to)) = NULL then loop_nak e q mp ENXIO st
       else if lo_oqptr (lp_loop st i) \<noteq> NULL \<or> lo_oqptr (lp_loop st (nat to)) \<noteq> NULL then loop_nak e q mp EBUSY st
       else do {
         orq \<leftarrow> lis_safe_RD (lo_qptr (lp_loop st (nat to))) s;
         rq \<leftarrow> lis_safe_RD q s;
         loop_ack e q mp 0
           (upd_loop (nat to) (\<lambda>l. l\<lparr>lo_oqptr := rq\<rparr>) (upd_loop i (\<lambda>l. l\<lparr>lo_oqptr := orq\<rparr>) st)) } } }"

text \<open>A parameter from the data of the ioctl, which may be missing.\<close>

definition loop_param ::
  "loopenv \<Rightarrow> ptr \<Rightarrow> nat \<Rightarrow> ptr \<Rightarrow> (int \<Rightarrow> loop \<Rightarrow> loop) \<Rightarrow> loopst \<Rightarrow> loopst option" where
  "loop_param e q i mp f st = do {
     m \<leftarrow> mb (lp_lis st) mp;
     if b_cont m = NULL then loop_nak e q mp EINVAL st
     else do { n \<leftarrow> ioc_int mp (lp_lis st); loop_ack e q mp 0 (upd_loop i (f n) st) } }"

definition loop_get_dev :: "loopenv \<Rightarrow> ptr \<Rightarrow> nat \<Rightarrow> ptr \<Rightarrow> loopst \<Rightarrow> loopst option" where
  "loop_get_dev e q i mp st = do {
     let s = lp_lis st;
     m \<leftarrow> mb s mp;
     if mem_u32 s (b_rptr m + 20) \<noteq> 4 \<or> b_cont m = NULL then loop_nak e q mp EINVAL st
     else do {
       d \<leftarrow> mb s (b_cont m);
       loop_ack e q mp 4 (set_lis (mem_put32 (b_rptr d) (word_of_int (lo_minor_nr (lp_loop st i))) s) st) } }"

definition loop_xparent :: "loopenv \<Rightarrow> ptr \<Rightarrow> nat \<Rightarrow> ptr \<Rightarrow> loopst \<Rightarrow> loopst option" where
  "loop_xparent e q i mp st = do {
     let s = lp_lis st;
     m \<leftarrow> mb s mp;
     if b_cont m = NULL then loop_nak e q mp EINVAL st
     else do {
       d \<leftarrow> mb s (b_cont m);
       s \<leftarrow> loop_request_copyio e q i mp M_COPYIN (mem_ptr s (b_rptr d)) 16 s;
       Some (set_lis s st) } }"

text \<open>A flush for the other side, and the data behind it.\<close>

definition loop_flush :: "loopenv \<Rightarrow> ptr \<Rightarrow> nat \<Rightarrow> ptr \<Rightarrow> loopst \<Rightarrow> loopst option" where
  "loop_flush e q i mp st =
     (let oq = lo_oqptr (lp_loop st i) in
      if oq = NULL then loop_nak e q mp EINVAL st
      else do {
        (fmp, s) \<leftarrow> lis_allocb 4 (lp_lis st);
        if fmp = NULL then loop_nak e q mp ENOMEM (set_lis s st)
        else do {
          s \<leftarrow> set_btype fmp M_FLUSH s;
          f \<leftarrow> mb s fmp;
          s \<leftarrow> upd_mb fmp (\<lambda>m. m\<lparr>b_wptr := b_wptr m + 1\<rparr>) (mem_byte (b_wptr f) FLUSHR s);
          s \<leftarrow> lis_safe_putnext (lx_env e) oq fmp s;
          m \<leftarrow> mb s mp;
          s \<leftarrow> (if b_cont m \<noteq> NULL
               then do {
                 s \<leftarrow> upd_mb mp (\<lambda>m. m\<lparr>b_cont := NULL\<rparr>) s;
                 lis_safe_putnext (lx_env e) oq (b_cont m) s }
               else Some s);
          loop_ack e q mp 0 (set_lis s st) } })"

definition loop_ioctl :: "loopenv \<Rightarrow> ptr \<Rightarrow> nat \<Rightarrow> ptr \<Rightarrow> loopst \<Rightarrow> loopst option" where
  "loop_ioctl e q i mp st = do {
     m \<leftarrow> mb (lp_lis st) mp;
     let cmd = mem_int (lp_lis st) (b_rptr m);
     if cmd = LOOP_SET then loop_set e q i mp st
     else if cmd = LOOP_PUTNXT then loop_ack e q mp 0 (upd_loop i (\<lambda>l. l\<lparr>lo_use_putnext := 1\<rparr>) st)
     else if cmd = LOOP_MSGLVL then loop_param e q i mp (\<lambda>n l. l\<lparr>lo_msglvl := n\<rparr>) st
     else if cmd = LOOP_CONCAT then loop_param e q i mp (\<lambda>n l. l\<lparr>lo_catlvl := n\<rparr>) st
     else if cmd = LOOP_TIMR then loop_param e q i mp (\<lambda>n l. l\<lparr>lo_timr := n\<rparr>) st
     else if cmd = LOOP_MARK then loop_ack e q mp 0 (upd_loop i (\<lambda>l. l\<lparr>lo_mark := c_int (lo_mark l + 1)\<rparr>) st)
     else if cmd = LOOP_GET_DEV then loop_get_dev e q i mp st
     else if cmd = LOOP_BUFCALL
     then loop_ack e q mp 0 (upd_loop i (\<lambda>l. l\<lparr>lo_use_bufcall := c_int (lo_use_bufcall l + 1)\<rparr>) st)
     else if cmd = LOOP_COPY then loop_ack e q mp 0 (upd_loop i (\<lambda>l. l\<lparr>lo_copy_bfr := 1\<rparr>) st)
     else if cmd = LOOP_BURST
     then do { n \<leftarrow> ioc_int mp (lp_lis st); loop_ack e q mp 0 (upd_loop i (\<lambda>l. l\<lparr>lo_burst := n\<rparr>) st) }
     else if cmd \<in> {LOOP_XPARENT_COPYIN, LOOP_XPARENT_COPYOUT} then loop_xparent e q i mp st
     else if cmd = LOOP_DENY_OPEN
     then loop_ack e q mp 0 (upd_loop i (\<lambda>l. l\<lparr>lo_deny_2nd_open := lo_deny_2nd_open l XOR 1\<rparr>) st)
     else if cmd = LOOP_FLUSH then loop_flush e q i mp st
     else loop_nak e q mp EINVAL st }"

subsection \<open>Data\<close>

partial_function (option) burst_loop :: "loopenv \<Rightarrow> nat \<Rightarrow> ptr \<Rightarrow> loopst \<Rightarrow> loopst option" where
  "burst_loop e i mp st =
     (if lo_burst (lp_loop st i) \<le> 0 then Some st
      else do {
        (new, s) \<leftarrow> lis_copymsg mp (lp_lis st);
        if new = NULL then Some (set_lis s st)
        else do {
          s \<leftarrow> lis_safe_putnext (lx_env e) (lo_oqptr (lp_loop st i)) new s;
          burst_loop e i mp (upd_loop i (\<lambda>l. l\<lparr>lo_burst := lo_burst l - 1\<rparr>) (set_lis s st)) } })"

text \<open>Copies: several to be sent before the message, or one in its place.\<close>

definition loop_copies :: "loopenv \<Rightarrow> nat \<Rightarrow> ptr \<Rightarrow> loopst \<Rightarrow> (ptr \<times> loopst) option" where
  "loop_copies e i mp st =
     (if lo_burst (lp_loop st i) \<noteq> 0
      then do {
        st \<leftarrow> burst_loop e i mp (upd_loop i (\<lambda>l. l\<lparr>lo_burst := c_int (lo_burst l - 1)\<rparr>) st);
        Some (mp, st) }
      else if lo_copy_bfr (lp_loop st i) \<noteq> 0
      then do {
        (new, s) \<leftarrow> lis_copymsg mp (lp_lis st);
        if new = NULL then Some (mp, set_lis s st)
        else do { s \<leftarrow> lis_freemsg mp s; Some (new, set_lis s st) } }
      else Some (mp, st))"

partial_function (option) last_blk :: "ptr \<Rightarrow> lis \<Rightarrow> ptr option" where
  "last_blk p s = do { m \<leftarrow> mb s p; if b_cont m \<noteq> NULL then last_blk (b_cont m) s else Some p }"

definition loop_concat :: "nat \<Rightarrow> ptr \<Rightarrow> loopst \<Rightarrow> (ptr \<times> loopst) option" where
  "loop_concat i mp st =
     (let saved = lo_saved_msg (lp_loop st i) in
      if saved = NULL then Some (mp, upd_loop i (\<lambda>l. l\<lparr>lo_saved_msg := mp\<rparr>) st)
      else do {
        p \<leftarrow> last_blk saved (lp_lis st);
        s \<leftarrow> upd_mb p (\<lambda>m. m\<lparr>b_cont := mp\<rparr>) (lp_lis st);
        Some (saved, upd_loop i (\<lambda>l. l\<lparr>lo_saved_msg := NULL\<rparr>) (set_lis s st)) })"

text \<open>To the write queue, to be sent by the service procedure.\<close>

definition loop_enqueue :: "loopenv \<Rightarrow> ptr \<Rightarrow> nat \<Rightarrow> ptr \<Rightarrow> loopst \<Rightarrow> loopst option" where
  "loop_enqueue e q i mp st = do {
     let st = upd_loop i (\<lambda>l. l\<lparr>lo_msgcnt := c_int (lo_msgcnt l + 1)\<rparr>) st;
     let l = lp_loop st i;
     s \<leftarrow> (if lo_msglvl l > 0 \<or> lo_timr l \<noteq> 0 then lis_safe_noenable q (lp_lis st) else Some (lp_lis st));
     (h, d) \<leftarrow>
       (if lo_timr l \<noteq> 0 \<and> lo_timr_hndl l = 0
        then lis_timeout (lx_timeout e) (int (lx_addr e i)) (lo_timr l) (lp_dki st)
        else Some (lo_timr_hndl l, lp_dki st));
     s \<leftarrow> lis_putqf q mp s;
     s \<leftarrow> (if h = 0 \<and> lo_msgcnt l > lo_msglvl l then lis_qenable q s else Some s);
     Some (upd_loop i (\<lambda>l. l\<lparr>lo_timr_hndl := h\<rparr>) (set_lis s (st\<lparr>lp_dki := d\<rparr>))) }"

definition loop_send :: "loopenv \<Rightarrow> ptr \<Rightarrow> nat \<Rightarrow> ptr \<Rightarrow> loopst \<Rightarrow> loopst option" where
  "loop_send e q i mp st = do {
     let l = lp_loop st i;
     m \<leftarrow> mb (lp_lis st) mp;
     (can, s) \<leftarrow> (if lo_use_putnext l \<noteq> 0 then drv_bcanputnext (lo_oqptr l) (b_band m) (lp_lis st) else Some (0, lp_lis st));
     if can \<noteq> 0 then do { s \<leftarrow> lis_safe_putnext (lx_env e) (lo_oqptr l) mp s; Some (set_lis s st) }
     else if lo_use_bufcall l \<noteq> 0
     then do {
       s \<leftarrow> lis_safe_noenable q s;
       s \<leftarrow> lis_putqf q mp s;
       (_, s) \<leftarrow> lis_bufcall 0 (lx_bufcall e) (int q) s;
       Some (set_lis s st) }
     else loop_enqueue e q i mp (set_lis s st) }"

definition loop_data :: "loopenv \<Rightarrow> ptr \<Rightarrow> nat \<Rightarrow> ptr \<Rightarrow> loopst \<Rightarrow> loopst option" where
  "loop_data e q i mp st =
     (if lo_oqptr (lp_loop st i) = NULL
      then do {
        rq \<leftarrow> lis_safe_RD q (lp_lis st);
        R \<leftarrow> qs (lp_lis st) rq;
        (_, s) \<leftarrow> lis_putctl1 (lx_env e) (q_next R) (uint M_ERROR) ENXIO (lp_lis st);
        s \<leftarrow> lis_freemsg mp s;
        Some (set_lis s st) }
      else do {
        (mp, st) \<leftarrow> loop_copies e i mp st;
        st \<leftarrow> (if lo_mark (lp_loop st i) \<noteq> 0
              then do {
                s \<leftarrow> upd_mb mp (\<lambda>m. m\<lparr>b_flag := b_flag m OR MSGMARK\<rparr>) (lp_lis st);
                Some (upd_loop i (\<lambda>l. l\<lparr>lo_mark := c_int (lo_mark l - 1)\<rparr>) (set_lis s st)) }
              else Some st);
        if lo_catlvl (lp_loop st i) > 0
        then do {
          (mp, st) \<leftarrow> loop_concat i mp st;
          let st = upd_loop i (\<lambda>l. l\<lparr>lo_catlvl := lo_catlvl l - 1\<rparr>) st;
          if lo_catlvl (lp_loop st i) > 0 then Some (upd_loop i (\<lambda>l. l\<lparr>lo_saved_msg := mp\<rparr>) st)
          else loop_send e q i mp st }
        else loop_send e q i mp st })"

text \<open>The end of a transparent ioctl: the command gets its number back.\<close>

definition loop_iocdone :: "loopenv \<Rightarrow> ptr \<Rightarrow> ptr \<Rightarrow> int \<Rightarrow> loopst \<Rightarrow> loopst option" where
  "loop_iocdone e q mp err st = do {
     s \<leftarrow> set_btype mp (if err < 0 then M_IOCNAK else M_IOCACK) (lp_lis st);
     m \<leftarrow> mb s mp;
     let p = b_rptr m;
     let s = mem_put32 p (mem_u32 s p AND 0xff) s;
     let s = mem_put32 (p + 20) 0 s;
     let s = mem_put32 (p + 24) (word_of_int (- err)) s;
     s \<leftarrow> upd_mb mp (\<lambda>m. m\<lparr>b_wptr := p + 64\<rparr>) s;
     s \<leftarrow> lis_safe_qreply (lx_env e) q mp s;
     Some (set_lis s st) }"

definition loop_wput :: "loopenv \<Rightarrow> ptr \<Rightarrow> ptr \<Rightarrow> loopst \<Rightarrow> loopst option" where
  "loop_wput e q mp st = do {
     i \<leftarrow> lp_ptr st q;
     typ \<leftarrow> lis_btype mp (lp_lis st);
     if typ = M_IOCTL then loop_ioctl e q i mp st
     else if typ = M_IOCDATA
     then do {
       (err, st) \<leftarrow> loop_iocdata e q mp st;
       if err > 0 then Some st else loop_iocdone e q mp err st }
     else if typ = M_FLUSH then do { s \<leftarrow> drv_flush (lx_env e) q mp (lp_lis st); Some (set_lis s st) }
     else loop_data e q i mp st }"

subsection \<open>Service procedures\<close>

partial_function (option) loop_wsrv_run :: "loopenv \<Rightarrow> ptr \<Rightarrow> nat \<Rightarrow> loopst \<Rightarrow> loopst option" where
  "loop_wsrv_run e q i st = do {
     (mp, s) \<leftarrow> lis_getq q (lp_lis st);
     let l = lp_loop st i;
     if mp = NULL then Some (set_lis s st)
     else if lo_oqptr l = NULL
     then do {
       s \<leftarrow> lis_freemsg mp s;
       s \<leftarrow> lis_flushq (lx_env e) q FLUSHALL s;
       Some (set_lis s st) }
     else do {
       typ \<leftarrow> lis_btype mp s;
       m \<leftarrow> mb s mp;
       (can, s) \<leftarrow> (if typ \<le> QPCTL then drv_bcanputnext (lo_oqptr l) (b_band m) s else Some (1, s));
       if can = 0
       then do {
         s \<leftarrow> lis_putbqf q mp s;
         s \<leftarrow> (if lo_use_bufcall l \<noteq> 0 then map_option snd (lis_bufcall 0 (lx_bufcall e) (int q) s) else Some s);
         Some (set_lis s st) }
       else do {
         s \<leftarrow> lis_safe_putnext (lx_env e) (lo_oqptr l) mp s;
         let st = upd_loop i (\<lambda>l. l\<lparr>lo_use_bufcall := (if lo_use_bufcall l \<noteq> 0 then lo_use_bufcall l - 1 else 0),
                    lo_msgcnt := c_int (lo_msgcnt l - 1)\<rparr>) (set_lis s st);
         if lo_msgcnt (lp_loop st i) \<le> lo_msglvl (lp_loop st i) then Some st else loop_wsrv_run e q i st } } }"

definition loop_wsrv :: "loopenv \<Rightarrow> ptr \<Rightarrow> loopst \<Rightarrow> loopst option" where
  "loop_wsrv e q st = do {
     i \<leftarrow> lp_ptr st q;
     let l = lp_loop st i;
     if lo_use_bufcall l = 0 \<and> lo_timr_hndl l = 0 \<and> lo_msgcnt l \<le> lo_msglvl l then Some st
     else do { st \<leftarrow> loop_untimeout i st; loop_wsrv_run e q i st } }"

definition loop_rsrv :: "ptr \<Rightarrow> loopst \<Rightarrow> loopst option" where
  "loop_rsrv q st = do {
     i \<leftarrow> lp_ptr st q;
     let oq = lo_oqptr (lp_loop st i);
     if oq = NULL then Some st
     else do {
       wq \<leftarrow> lis_safe_WR oq (lp_lis st);
       s \<leftarrow> lis_qenable wq (lp_lis st);
       Some (set_lis s st) } }"

end
