(* ===== verification/LiS_Minimux.thy ===== *)
theory LiS_Minimux
  imports LiS_Loop
begin

text \<open>
  The multiplexor \<open>drivers/str/minimux.c\<close>.  Upper streams and the lower streams that are linked to it have
  an entry each in one list; the entry's \<open>othermux\<close> says where messages of its stream are sent.
\<close>

unbundle bit_operations_syntax

record mux_tbl =
  mu_list :: ptr
  mu_outq :: ptr
  mu_othermux :: ptr
  mu_ctl_strm :: ptr
  mu_muxid :: int
  mu_minor_dev :: int

text \<open>The entries, the head of their list, the minor numbers in use, and the \<open>q_ptr\<close> fields of the queues.\<close>

record muxst =
  xs_lis :: lis
  xs_tbl :: "ptr \<Rightarrow> mux_tbl option"
  xs_head :: ptr
  xs_minors :: "nat \<Rightarrow> int"
  xs_ptr :: "ptr \<Rightarrow> ptr"

definition MAXMUX :: nat where "MAXMUX = 100"
definition MINIMUX_DOWN :: int where "MINIMUX_DOWN = 0x6d01"
definition MINIMUX_UP :: int where "MINIMUX_UP = 0x6d02"

definition set_xs :: "lis \<Rightarrow> muxst \<Rightarrow> muxst" where
  "set_xs s st = st\<lparr>xs_lis := s\<rparr>"

definition upd_mux :: "ptr \<Rightarrow> (mux_tbl \<Rightarrow> mux_tbl) \<Rightarrow> muxst \<Rightarrow> muxst option" where
  "upd_mux p f st = do { x \<leftarrow> xs_tbl st p; Some (st\<lparr>xs_tbl := (xs_tbl st)(p \<mapsto> f x)\<rparr>) }"

text \<open>\<open>RD(q)->q_ptr\<close> and \<open>WR(q)->q_ptr\<close> are set.\<close>

definition set_ptrs :: "ptr \<Rightarrow> ptr \<Rightarrow> muxst \<Rightarrow> muxst option" where
  "set_ptrs q v st = do {
     rq \<leftarrow> lis_safe_RD q (xs_lis st);
     wq \<leftarrow> lis_safe_WR q (xs_lis st);
     if rq = NULL \<or> wq = NULL then None else Some (st\<lparr>xs_ptr := (xs_ptr st)(rq := v, wq := v)\<rparr>) }"

definition new_mux :: "muxst \<Rightarrow> ptr \<times> muxst" where
  "new_mux st =
     (case kalloc (xs_lis st) of (p, s) \<Rightarrow>
      let st = set_xs s st in
      if p = NULL then (NULL, st)
      else (p, st\<lparr>xs_tbl := (xs_tbl st)(p \<mapsto> \<lparr>mu_list = xs_head st, mu_outq = NULL, mu_othermux = NULL, mu_ctl_strm = NULL,
                     mu_muxid = 0, mu_minor_dev = 0\<rparr>), xs_head := p\<rparr>))"

definition mux_free_minor :: "muxst \<Rightarrow> nat" where
  "mux_free_minor st = (case find (\<lambda>d. xs_minors st d = 0) [1..<MAXMUX] of Some d \<Rightarrow> d | None \<Rightarrow> MAXMUX)"

definition mux_open :: "ptr \<Rightarrow> nat \<Rightarrow> int \<Rightarrow> muxst \<Rightarrow> (int \<times> nat \<times> muxst) option" where
  "mux_open q devp sflag st =
     (let dev = (if sflag = CLONEOPEN then mux_free_minor st else dev_minor devp) in
      if dev \<ge> MAXMUX then Some (OPENFAIL, devp, st)
      else let st = st\<lparr>xs_minors := (xs_minors st)(dev := 1)\<rparr>; devp = makedevice (dev_major devp) dev in
        if xs_ptr st q \<noteq> NULL then Some (0, devp, st)
        else case new_mux st of (p, st) \<Rightarrow>
          if p = NULL then Some (ENOMEM, devp, st)
          else do {
            rq \<leftarrow> lis_safe_RD q (xs_lis st);
            st \<leftarrow> upd_mux p (\<lambda>m. m\<lparr>mu_outq := rq, mu_minor_dev := int dev\<rparr>) st;
            st \<leftarrow> set_ptrs q p st;
            Some (0, devp, st) })"

subsection \<open>Ioctls\<close>

definition mux_reply :: "env \<Rightarrow> ptr \<Rightarrow> ptr \<Rightarrow> u8 \<Rightarrow> lis \<Rightarrow> lis option" where
  "mux_reply e outq mp type s = do {
     m \<leftarrow> mb s mp;
     s \<leftarrow> set_btype mp type s;
     lis_safe_putnext e outq mp (mem_put32 (b_rptr m + 20) 0 s) }"

definition mux_nak :: "env \<Rightarrow> ptr \<Rightarrow> ptr \<Rightarrow> int \<Rightarrow> muxst \<Rightarrow> muxst option" where
  "mux_nak e muxp mp error st = do {
     x \<leftarrow> xs_tbl st muxp;
     m \<leftarrow> mb (xs_lis st) mp;
     s \<leftarrow> mux_reply e (mu_outq x) mp M_IOCNAK (mem_put32 (b_rptr m + 24) (word_of_int error) (xs_lis st));
     Some (set_xs s st) }"

definition mux_ack :: "env \<Rightarrow> ptr \<Rightarrow> ptr \<Rightarrow> muxst \<Rightarrow> muxst option" where
  "mux_ack e muxp mp st = do {
     x \<leftarrow> xs_tbl st muxp;
     s \<leftarrow> mux_reply e (mu_outq x) mp M_IOCACK (xs_lis st);
     Some (set_xs s st) }"

text \<open>The entry of the lower stream \<open>idx\<close> of a control stream, and the entry before it in the list.\<close>

partial_function (option) mux_find :: "ptr \<Rightarrow> int \<Rightarrow> ptr \<Rightarrow> ptr \<Rightarrow> muxst \<Rightarrow> (ptr \<times> ptr) option" where
  "mux_find muxp idx prev p st =
     (if p = NULL then Some (prev, NULL)
      else do {
        x \<leftarrow> xs_tbl st p;
        if mu_ctl_strm x = muxp \<and> mu_muxid x = idx then Some (prev, p) else mux_find muxp idx p (mu_list x) st })"

definition mux_unlist :: "ptr \<Rightarrow> ptr \<Rightarrow> muxst \<Rightarrow> muxst option" where
  "mux_unlist prev p st = do {
     x \<leftarrow> xs_tbl st p;
     if prev = NULL then Some (st\<lparr>xs_head := mu_list x\<rparr>) else upd_mux prev (\<lambda>y. y\<lparr>mu_list := mu_list x\<rparr>) st }"

text \<open>The partner of \<open>p\<close> loses its pointer back, if it has one.\<close>

definition mux_detach :: "ptr \<Rightarrow> muxst \<Rightarrow> muxst option" where
  "mux_detach p st = do {
     x \<leftarrow> xs_tbl st p;
     if mu_othermux x = NULL then Some st
     else do {
       y \<leftarrow> xs_tbl st (mu_othermux x);
       if mu_othermux y = p then upd_mux (mu_othermux x) (\<lambda>y. y\<lparr>mu_othermux := NULL\<rparr>) st else Some st } }"

definition mux_drop :: "ptr \<Rightarrow> muxst \<Rightarrow> muxst" where
  "mux_drop p st = st\<lparr>xs_tbl := (xs_tbl st)(p := None), xs_lis := kfree p (xs_lis st)\<rparr>"

text \<open>\<open>struct linkblk\<close>: \<open>l_qbot\<close> at 8, \<open>l_index\<close> at 16.\<close>

definition mux_link :: "env \<Rightarrow> ptr \<Rightarrow> ptr \<Rightarrow> ptr \<Rightarrow> muxst \<Rightarrow> muxst option" where
  "mux_link e muxp mp lk st =
     (case new_mux st of (lwr, st) \<Rightarrow>
      if lwr = NULL then mux_nak e muxp mp ENOMEM st
      else do {
        let q = mem_ptr (xs_lis st) (lk + 8);
        let idx = mem_int (xs_lis st) (lk + 16);
        st \<leftarrow> upd_mux muxp (\<lambda>m. m\<lparr>mu_othermux := lwr\<rparr>) st;
        st \<leftarrow> upd_mux lwr (\<lambda>m. m\<lparr>mu_ctl_strm := muxp, mu_othermux := muxp, mu_muxid := idx, mu_outq := q\<rparr>) st;
        st \<leftarrow> set_ptrs q lwr st;
        rq \<leftarrow> lis_safe_RD q (xs_lis st);
        s \<leftarrow> lis_qenable rq (xs_lis st);
        mux_ack e muxp mp (set_xs s st) })"

definition mux_unlink :: "env \<Rightarrow> ptr \<Rightarrow> ptr \<Rightarrow> ptr \<Rightarrow> muxst \<Rightarrow> muxst option" where
  "mux_unlink e muxp mp lk st = do {
     (prev, lwr) \<leftarrow> mux_find muxp (mem_int (xs_lis st) (lk + 16)) NULL (xs_head st) st;
     if lwr = NULL then mux_nak e muxp mp EINVAL st
     else do {
       st \<leftarrow> mux_unlist prev lwr st;
       st \<leftarrow> mux_detach lwr st;
       x \<leftarrow> xs_tbl st muxp;
       st \<leftarrow> (if mu_othermux x = lwr then upd_mux muxp (\<lambda>m. m\<lparr>mu_othermux := NULL\<rparr>) st else Some st);
       l \<leftarrow> xs_tbl st lwr;
       st \<leftarrow> set_ptrs (mu_outq l) NULL st;
       mux_ack e muxp mp (mux_drop lwr st) } }"

text \<open>\<open>MINIMUX_UP\<close> points the lower stream to this one, \<open>MINIMUX_DOWN\<close> this one to the lower stream.\<close>

definition mux_point :: "env \<Rightarrow> bool \<Rightarrow> ptr \<Rightarrow> ptr \<Rightarrow> muxst \<Rightarrow> muxst option" where
  "mux_point e up muxp mp st = do {
     let s = xs_lis st;
     m \<leftarrow> mb s mp;
     if mem_u32 s (b_rptr m + 20) \<noteq> 4 then mux_nak e muxp mp EINVAL st
     else do {
       idx \<leftarrow> ioc_int mp s;
       (_, lwr) \<leftarrow> mux_find muxp idx NULL (xs_head st) st;
       if lwr = NULL then mux_nak e muxp mp EINVAL st
       else do {
         st \<leftarrow> (if up then upd_mux lwr (\<lambda>y. y\<lparr>mu_othermux := muxp\<rparr>) st
               else upd_mux muxp (\<lambda>y. y\<lparr>mu_othermux := lwr\<rparr>) st);
         mux_ack e muxp mp st } } }"

definition mux_ioctl :: "env \<Rightarrow> ptr \<Rightarrow> ptr \<Rightarrow> muxst \<Rightarrow> muxst option" where
  "mux_ioctl e muxp mp st = do {
     let s = xs_lis st;
     m \<leftarrow> mb s mp;
     let cmd = mem_int s (b_rptr m);
     if cmd \<in> {I_LINK, I_PLINK, I_UNLINK, I_PUNLINK}
     then if b_cont m = NULL then mux_nak e muxp mp EINVAL st
          else do {
            d \<leftarrow> mb s (b_cont m);
            if cmd \<in> {I_LINK, I_PLINK} then mux_link e muxp mp (b_rptr d) st else mux_unlink e muxp mp (b_rptr d) st }
     else if cmd = MINIMUX_UP then mux_point e True muxp mp st
     else if cmd = MINIMUX_DOWN then mux_point e False muxp mp st
     else mux_nak e muxp mp EINVAL st }"

subsection \<open>Messages\<close>

text \<open>The queue to which an entry forwards, its partner's or its own.\<close>

definition mux_fwdq :: "ptr \<Rightarrow> muxst \<Rightarrow> ptr option" where
  "mux_fwdq p st = do {
     x \<leftarrow> xs_tbl st p;
     if mu_othermux x \<noteq> NULL then map_option mu_outq (xs_tbl st (mu_othermux x)) else Some (mu_outq x) }"

definition mux_forward :: "env \<Rightarrow> ptr \<Rightarrow> ptr \<Rightarrow> lis \<Rightarrow> lis option" where
  "mux_forward e fwdq mp s = do {
     (can, s) \<leftarrow> drv_bcanputnext fwdq 0 s;
     if can \<noteq> 0 then lis_safe_putnext e fwdq mp s else lis_putqf fwdq mp s }"

text \<open>
  A flush goes on to the partner, or is turned back; \<open>near\<close> is the flag for the queue \<open>q\<close> it came to, \<open>far\<close>
  the one for the queue \<open>oq\<close> beside it.
\<close>

definition mux_flush :: "env \<Rightarrow> ptr \<Rightarrow> ptr \<Rightarrow> ptr \<Rightarrow> u8 \<Rightarrow> u8 \<Rightarrow> ptr \<Rightarrow> muxst \<Rightarrow> lis option" where
  "mux_flush e muxp q oq near far mp st = do {
     x \<leftarrow> xs_tbl st muxp;
     m \<leftarrow> mb (xs_lis st) mp;
     let p = b_rptr m;
     s \<leftarrow> (if mem (xs_lis st) p AND near \<noteq> 0 then lis_flushq e q FLUSHDATA (xs_lis st) else Some (xs_lis st));
     out \<leftarrow> (if mu_othermux x = NULL then Some NULL else map_option mu_outq (xs_tbl st (mu_othermux x)));
     if out \<noteq> NULL
     then do { s \<leftarrow> lis_flushq e out FLUSHDATA s; lis_safe_putnext e out mp s }
     else if mem s p AND far \<noteq> 0
     then do {
       s \<leftarrow> lis_flushq e oq FLUSHDATA s;
       lis_safe_qreply e q mp (mem_byte p (mem s p AND NOT near) s) }
     else lis_freemsg mp s }"

text \<open>Messages of other types are dropped without being freed.\<close>

definition mux_wput :: "env \<Rightarrow> ptr \<Rightarrow> ptr \<Rightarrow> muxst \<Rightarrow> muxst option" where
  "mux_wput e q mp st = do {
     let muxp = xs_ptr st q;
     if muxp = NULL then do { s \<leftarrow> lis_freemsg mp (xs_lis st); Some (set_xs s st) }
     else do {
       fwdq \<leftarrow> mux_fwdq muxp st;
       typ \<leftarrow> lis_btype mp (xs_lis st);
       if typ \<in> {M_DATA, M_PROTO, M_PCPROTO}
       then do { s \<leftarrow> mux_forward e fwdq mp (xs_lis st); Some (set_xs s st) }
       else if typ = M_IOCTL then mux_ioctl e muxp mp st
       else if typ = M_FLUSH
       then do {
         rq \<leftarrow> lis_safe_RD q (xs_lis st);
         s \<leftarrow> mux_flush e muxp q rq FLUSHW FLUSHR mp st;
         Some (set_xs s st) }
       else Some st } }"

definition mux_lrput :: "env \<Rightarrow> ptr \<Rightarrow> ptr \<Rightarrow> muxst \<Rightarrow> muxst option" where
  "mux_lrput e q mp st = do {
     let muxp = xs_ptr st q;
     if muxp = NULL then do { s \<leftarrow> lis_freemsg mp (xs_lis st); Some (set_xs s st) }
     else do {
       fwdq \<leftarrow> mux_fwdq muxp st;
       typ \<leftarrow> lis_btype mp (xs_lis st);
       s \<leftarrow> (if typ \<in> {M_DATA, M_PROTO, M_PCPROTO} then mux_forward e fwdq mp (xs_lis st)
            else if typ = M_FLUSH
            then do { wq \<leftarrow> lis_safe_WR q (xs_lis st); mux_flush e muxp q wq FLUSHR FLUSHW mp st }
            else lis_freemsg mp (xs_lis st));
       Some (set_xs s st) } }"

partial_function (option) mux_messenger_service :: "env \<Rightarrow> ptr \<Rightarrow> lis \<Rightarrow> lis option" where
  "mux_messenger_service e q s = do {
     (mp, s) \<leftarrow> lis_getq q s;
     if mp = NULL then Some s
     else do {
       typ \<leftarrow> lis_btype mp s;
       (can, s) \<leftarrow> (if typ \<le> QPCTL then drv_bcanputnext q 0 s else Some (1, s));
       if can = 0 then lis_putbqf q mp s
       else do { s \<leftarrow> lis_safe_putnext e q mp s; mux_messenger_service e q s } } }"

subsection \<open>Close\<close>

partial_function (option) mux_search :: "ptr \<Rightarrow> ptr \<Rightarrow> ptr \<Rightarrow> muxst \<Rightarrow> (ptr \<times> ptr) option" where
  "mux_search a prev p st =
     (if p = NULL then Some (prev, NULL)
      else if p = a then Some (prev, p)
      else do { x \<leftarrow> xs_tbl st p; mux_search a p (mu_list x) st })"

definition mux_close :: "ptr \<Rightarrow> muxst \<Rightarrow> (int \<times> muxst) option" where
  "mux_close q st =
     (if xs_ptr st q = NULL then Some (0, st)
      else do {
        (prev, p) \<leftarrow> mux_search (xs_ptr st q) NULL (xs_head st) st;
        if p = NULL then Some (0, st)
        else do {
          st \<leftarrow> mux_unlist prev p st;
          st \<leftarrow> mux_detach p st;
          x \<leftarrow> xs_tbl st p;
          st \<leftarrow> set_ptrs (mu_outq x) NULL st;
          let st = st\<lparr>xs_ptr := (xs_ptr st)(q := NULL), xs_minors := (xs_minors st)(nat (mu_minor_dev x) := 0)\<rparr>;
          Some (0, mux_drop p st) } })"

end
