(* ===== verification/LiS_Fifo.thy ===== *)
theory LiS_Fifo
  imports LiS_Minimux
begin

text \<open>
  The pseudo-driver \<open>drivers/str/fifo.c\<close>: its open procedure gives a FIFO a unit, the one asked for or, by a
  clone open or the first unit of a major number, any free one.  The list of free units, linked through
  \<open>list_head\<close>, is a list of indices, added to at its end.  The number of units and the major numbers are
  configured.  The semaphore around open and close is held throughout: they are single steps here.
\<close>

unbundle bit_operations_syntax

abbreviation (input) EMFILE :: int where "EMFILE \<equiv> 24"

definition FIFO_CLONABLE :: u16 where "FIFO_CLONABLE = 1"
definition FIFO_ALLOCATED :: u16 where "FIFO_ALLOCATED = 2"

record fifocfg =
  fc_units :: nat
  fc_majors :: "nat list"

record fifost =
  ff_lis :: lis
  ff_flags :: "nat \<Rightarrow> u16"
  ff_free :: "nat list"
  ff_ptr :: "ptr \<Rightarrow> nat option"
  ff_inited :: int

text \<open>\<open>FIFO_MAX_MINOR + 1\<close>.\<close>

definition fifo_minors :: "fifocfg \<Rightarrow> nat" where
  "fifo_minors c = fc_units c div length (fc_majors c)"

definition fifo_major_index :: "fifocfg \<Rightarrow> nat \<Rightarrow> int" where
  "fifo_major_index c maj =
     (case find (\<lambda>i. fc_majors c ! i = maj) [0..<length (fc_majors c)] of Some i \<Rightarrow> int i | None \<Rightarrow> - ENOENT)"

definition fifo_unit_index :: "fifocfg \<Rightarrow> nat \<Rightarrow> int" where
  "fifo_unit_index c dev =
     (let idx = fifo_major_index c (dev_major dev) in
      if idx < 0 then idx
      else let idx = idx * int (fifo_minors c) + int (dev_minor dev) in
        if idx \<ge> int (fc_units c) then - ENXIO else idx)"

definition fifo_mkdev :: "fifocfg \<Rightarrow> nat \<Rightarrow> nat option" where
  "fifo_mkdev c i =
     (if fifo_minors c = 0 \<or> i div fifo_minors c \<ge> length (fc_majors c) then None
      else Some (makedevice (fc_majors c ! (i div fifo_minors c)) (i mod fifo_minors c)))"

text \<open>The unit at index \<open>fc_units\<close> passes the test, but is none.\<close>

definition fifo_alloc :: "fifocfg \<Rightarrow> int \<Rightarrow> fifost \<Rightarrow> (int \<times> fifost) option" where
  "fifo_alloc c idx st =
     (if idx > int (fc_units c) then Some (- ENXIO, st)
      else if ff_free st = [] then Some (- EMFILE, st)
      else let i = (if idx < 0 then hd (ff_free st) else nat idx) in
        if i \<ge> fc_units c then None
        else if ff_flags st i AND FIFO_ALLOCATED \<noteq> 0 then Some (- EBUSY, st)
        else Some (int i, st\<lparr>ff_flags := (ff_flags st)(i := ff_flags st i OR FIFO_ALLOCATED),
                            ff_free := remove1 i (ff_free st)\<rparr>))"

definition fifo_free :: "fifocfg \<Rightarrow> int \<Rightarrow> fifost \<Rightarrow> fifost" where
  "fifo_free c idx st =
     (let i = nat idx in
      if idx < 0 \<or> idx \<ge> int (fc_units c) \<or> ff_flags st i AND FIFO_ALLOCATED = 0 then st
      else st\<lparr>ff_flags := (ff_flags st)(i := ff_flags st i AND NOT FIFO_ALLOCATED), ff_free := ff_free st @ [i]\<rparr>)"

text \<open>The unit for an open: any free one, or the one asked for unless the queue has one.\<close>

definition fifo_choose :: "fifocfg \<Rightarrow> ptr \<Rightarrow> int \<Rightarrow> fifost \<Rightarrow> (int \<times> fifost) option" where
  "fifo_choose c q m st =
     (if ff_flags st (nat m) AND FIFO_CLONABLE \<noteq> 0 then fifo_alloc c (-1) st
      else if ff_ptr st q = None then fifo_alloc c m st
      else Some (m, st))"

definition fifo_attach :: "env \<Rightarrow> ptr \<Rightarrow> nat \<Rightarrow> fifost \<Rightarrow> fifost option" where
  "fifo_attach e q m st =
     (if ff_ptr st q \<noteq> None then Some st
      else do {
        rq \<leftarrow> lis_safe_RD q (ff_lis st);
        wq \<leftarrow> lis_safe_WR q (ff_lis st);
        s \<leftarrow> upd_q wq (\<lambda>Q. Q\<lparr>q_next := rq\<rparr>) (ff_lis st);
        s \<leftarrow> lis_qprocson e q s;
        Some (st\<lparr>ff_ptr := (ff_ptr st)(rq \<mapsto> m, wq \<mapsto> m), ff_lis := s\<rparr>) })"

definition fifo_open :: "fifocfg \<Rightarrow> env \<Rightarrow> ptr \<Rightarrow> nat \<Rightarrow> int \<Rightarrow> fifost \<Rightarrow> (int \<times> nat \<times> fifost) option" where
  "fifo_open c e q devp sflag st =
     (let m = (if sflag = CLONEOPEN then 0 else fifo_unit_index c devp) in
      if m < 0 then Some (m, devp, st)
      else do {
        (m, st) \<leftarrow> fifo_choose c q m st;
        if m < 0 then Some (m, devp, st)
        else do {
          st \<leftarrow> fifo_attach e q (nat m) st;
          dev \<leftarrow> fifo_mkdev c (nat m);
          Some (0, dev, st) } })"

definition fifo_close :: "fifocfg \<Rightarrow> ptr \<Rightarrow> fifost \<Rightarrow> (int \<times> fifost) option" where
  "fifo_close c q st =
     (case ff_ptr st q of
        None \<Rightarrow> Some (0, st)
      | Some i \<Rightarrow> do {
          let st = fifo_free c (int i) st;
          rq \<leftarrow> lis_safe_RD q (ff_lis st);
          wq \<leftarrow> lis_safe_WR q (ff_lis st);
          s \<leftarrow> lis_qprocsoff q (ff_lis st);
          Some (0, st\<lparr>ff_ptr := (ff_ptr st)(rq := None, wq := None), ff_lis := s\<rparr>) })"

text \<open>The first time, every unit is set up; the flags of the major numbers in the driver table are left out.\<close>

definition fifo_init :: "fifocfg \<Rightarrow> fifost \<Rightarrow> fifost" where
  "fifo_init c st =
     (if ff_inited st \<noteq> 0 then st\<lparr>ff_inited := ff_inited st + 1\<rparr>
      else st\<lparr>ff_inited := 1,
        ff_flags := (\<lambda>i. if i < fc_units c then (if i mod fifo_minors c \<noteq> 0 then 0 else FIFO_CLONABLE) else ff_flags st i),
        ff_free := ff_free st @ filter (\<lambda>i. i mod fifo_minors c \<noteq> 0) [0..<fc_units c]\<rparr>)"

definition fifo_term :: "fifost \<Rightarrow> fifost" where
  "fifo_term st = st\<lparr>ff_inited := ff_inited st - 1\<rparr>"

subsection \<open>Which units are free\<close>

definition fifo_inv :: "fifocfg \<Rightarrow> fifost \<Rightarrow> bool" where
  "fifo_inv c st \<longleftrightarrow> distinct (ff_free st) \<and>
     (\<forall>i < fc_units c. i \<in> set (ff_free st) \<longleftrightarrow> ff_flags st i AND (FIFO_ALLOCATED OR FIFO_CLONABLE) = 0) \<and>
     (\<forall>i \<in> set (ff_free st). i < fc_units c)"

lemma fifo_bits:
  "(x :: u16) AND (FIFO_ALLOCATED OR FIFO_CLONABLE) = 0 \<longleftrightarrow> x AND FIFO_ALLOCATED = 0 \<and> x AND FIFO_CLONABLE = 0"
  "((x :: u16) OR FIFO_ALLOCATED) AND FIFO_ALLOCATED \<noteq> 0" "(x AND NOT FIFO_ALLOCATED) AND FIFO_ALLOCATED = 0"
  "(x AND NOT FIFO_ALLOCATED) AND FIFO_CLONABLE = x AND FIFO_CLONABLE"
proof -
  show "x AND (FIFO_ALLOCATED OR FIFO_CLONABLE) = 0 \<longleftrightarrow> x AND FIFO_ALLOCATED = 0 \<and> x AND FIFO_CLONABLE = 0"
    by (simp add: bit.conj_disj_distrib or_eq_0_iff)
  show "(x OR FIFO_ALLOCATED) AND FIFO_ALLOCATED \<noteq> 0" by (simp add: FIFO_ALLOCATED_def bit.conj_disj_distrib2)
  show "(x AND NOT FIFO_ALLOCATED) AND FIFO_ALLOCATED = 0" by (simp add: and.assoc)
  show "(x AND NOT FIFO_ALLOCATED) AND FIFO_CLONABLE = x AND FIFO_CLONABLE"
    by (simp add: and.assoc FIFO_ALLOCATED_def FIFO_CLONABLE_def)
qed

lemma fifo_init_inv:
  assumes "ff_inited st = 0" "ff_free st = []"
  shows "fifo_inv c (fifo_init c st)"
  using assms by (auto simp: fifo_inv_def fifo_init_def fifo_bits(1) FIFO_ALLOCATED_def FIFO_CLONABLE_def)

lemma fifo_alloc_inv:
  assumes "fifo_inv c st" "idx < int (fc_units c)" "0 \<le> idx \<longrightarrow> ff_flags st (nat idx) AND FIFO_CLONABLE = 0"
  shows "\<exists>r t. fifo_alloc c idx st = Some (r, t) \<and> fifo_inv c t \<and>
    (if r < 0 then t = st
     else nat r \<in> set (ff_free st) \<and> (0 \<le> idx \<longrightarrow> r = idx) \<and> ff_free t = remove1 (nat r) (ff_free st))"
proof (cases "ff_free st = []")
  case True
  then show ?thesis using assms(1,2) by (simp add: fifo_alloc_def)
next
  case False
  let ?i = "if idx < 0 then hd (ff_free st) else nat idx"
  have hd: "hd (ff_free st) \<in> set (ff_free st)" using False by simp
  have i: "?i < fc_units c" using assms(1,2) hd by (auto simp: fifo_inv_def)
  show ?thesis
  proof (cases "ff_flags st ?i AND FIFO_ALLOCATED = 0")
    case f: True
    have m: "?i \<in> set (ff_free st)"
      using assms(1,3) i f hd by (cases "idx < 0") (auto simp: fifo_inv_def fifo_bits(1))
    let ?t = "st\<lparr>ff_flags := (ff_flags st)(?i := ff_flags st ?i OR FIFO_ALLOCATED), ff_free := remove1 ?i (ff_free st)\<rparr>"
    have "fifo_alloc c idx st = Some (int ?i, ?t)"
      using False assms(2) i f by (simp add: fifo_alloc_def Let_def)
    moreover have "fifo_inv c ?t"
      using assms(1) fifo_bits(2)[of "ff_flags st ?i"] unfolding fifo_inv_def fifo_bits(1) by auto
    ultimately show ?thesis using m by auto
  next
    case f: False
    then have "fifo_alloc c idx st = Some (- EBUSY, st)"
      using False assms(2) i by (simp add: fifo_alloc_def Let_def)
    then show ?thesis using assms(1) by simp
  qed
qed

lemma fifo_free_inv:
  assumes "fifo_inv c st" "i < fc_units c" "ff_flags st i AND FIFO_ALLOCATED \<noteq> 0" "ff_flags st i AND FIFO_CLONABLE = 0"
  shows "fifo_inv c (fifo_free c (int i) st) \<and> ff_free (fifo_free c (int i) st) = ff_free st @ [i]"
proof -
  let ?t = "st\<lparr>ff_flags := (ff_flags st)(i := ff_flags st i AND NOT FIFO_ALLOCATED), ff_free := ff_free st @ [i]\<rparr>"
  have t: "fifo_free c (int i) st = ?t" using assms(2,3) by (simp add: fifo_free_def)
  have "i \<notin> set (ff_free st)" using assms(1-3) by (auto simp: fifo_inv_def fifo_bits(1))
  then have "fifo_inv c ?t"
    using assms fifo_bits(3,4)[of "ff_flags st i"] unfolding fifo_inv_def fifo_bits(1) by auto
  then show ?thesis unfolding t by simp
qed

end
