(* ===== verification/LiS_DriversSpec.thy ===== *)
theory LiS_DriversSpec
  imports LiS_Fifo LiS_ReqSpec
begin

text \<open>What the drivers do: band flushes in a pipe, dialogues of \<open>sad\<close>, devices of \<open>loop\<close>, entries of \<open>minimux\<close>.\<close>

unbundle bit_operations_syntax

subsection \<open>\<open>pipemod\<close>\<close>

text \<open>
  A flush of one band that crosses the middle of a pipe: the band is not the one flushed, which is band 0,
  and the flush goes on as a flush of the whole queue.
\<close>

lemma pipemod_band_flush:
  assumes "mb s mp = Some m" "lis_btype mp s = Some M_FLUSH" "mem s (b_rptr m) = FLUSHR OR FLUSHBAND"
    and "lis_safe_RD q s = Some rq" "lis_safe_WR q s = Some wq"
    and "lis_flushband e rq 0 (uint (mem s (b_rptr m + 1))) s = Some t" "mem t (b_rptr m) = FLUSHR OR FLUSHBAND"
    and "lis_safe_SAMESTR q t = Some False"
  shows "pipemod_put e q mp s = lis_safe_putnext e q mp (mem_byte (b_rptr m) FLUSHW t)"
  using assms by (simp add: pipemod_put_def flush_module_def pipe_flush_side_def)

subsection \<open>\<open>sad\<close>\<close>

lemma sad_done_keeps: "sad_done e i mp err ret st = Some t \<Longrightarrow> sa_sad t = sa_sad st"
  by (auto simp: sad_done_def elim!: bind_SomeE)

text \<open>The copy that the message \<open>mp\<close> answers was made: \<open>cp_rval\<close> is null.\<close>

definition copied :: "ptr \<Rightarrow> lis \<Rightarrow> bool" where
  "copied mp s \<longleftrightarrow> (\<exists>m. mb s mp = Some m \<and> mem_u64 s (b_rptr m + 24) = 0)"

text \<open>
  The states later than \<open>st\<close>, while no copy for minor device \<open>i\<close> succeeds and it is not opened: messages to
  the driver, opening and closing, and any change outside of its own state.
\<close>

inductive sad_later :: "sadenv \<Rightarrow> nat \<Rightarrow> sadst \<Rightarrow> sadst \<Rightarrow> bool" for e i st where
  now: "sad_later e i st st"
| put: "sad_later e i st t \<Longrightarrow> sad_wput e q mp t = Some u \<Longrightarrow>
    \<not> (lis_btype mp (sa_lis t) = Some M_IOCDATA \<and> sa_ptr t q = Some i \<and> copied mp (sa_lis t)) \<Longrightarrow> sad_later e i st u"
| opened: "sad_later e i st t \<Longrightarrow> sad_open q devp sflag t = Some (r, dev, u) \<Longrightarrow>
    (if sflag = CLONEOPEN then sad_free t else dev_minor devp) \<noteq> i \<Longrightarrow> sad_later e i st u"
| closed: "sad_later e i st t \<Longrightarrow> sad_close q t = Some (r, u) \<Longrightarrow> sad_later e i st u"
| outside: "sad_later e i st t \<Longrightarrow> sad_later e i st (t\<lparr>sa_lis := s\<rparr>)"

lemma upd_priv_sel [simp]:
  "sa_sad (upd_priv i f st) = (sa_sad st)(i := f (sa_sad st i))" "sa_lis (upd_priv i f st) = sa_lis st"
  by (simp_all add: upd_priv_def)

lemma sad_copyio_keeps: "sad_copyio e i mp ty p n st = Some t \<Longrightarrow> sa_sad t = sa_sad st"
  by (auto simp: sad_copyio_def Let_def elim!: bind_SomeE)

lemma sad_nak_keeps: "sad_nak e i mp err st = Some t \<Longrightarrow> sa_sad t = sa_sad st"
  by (auto simp: sad_nak_def elim!: bind_SomeE)

text \<open>A dialogue that is under way refuses, and an answer without the data leaves it where it is.\<close>

lemma sad_refused:
  assumes "pv_state (sa_sad st i) \<noteq> ST_NONE"
  shows "sad_do_ioctl e i mp st = sad_nak e i mp (- EINVAL) st"
  using assms by (cases "mb (sa_lis st) mp") (simp_all add: sad_do_ioctl_def sad_nak_def Let_def)

lemma sad_failed_copy:
  assumes "sad_iocdata e i mp st = Some t" "\<not> copied mp (sa_lis st)"
  shows "sa_sad t = sa_sad st"
proof -
  obtain m where m: "mb (sa_lis st) mp = Some m" using assms(1) by (auto simp: sad_iocdata_def Let_def elim!: bind_SomeE)
  then have "mem_u64 (sa_lis st) (b_rptr m + 24) \<noteq> 0" using assms(2) by (simp add: copied_def)
  then show ?thesis using assms(1) m sad_done_keeps by (auto simp: sad_iocdata_def Let_def)
qed

text \<open>A message for another minor device leaves this one alone.\<close>

lemma sad_other_ioctl:
  assumes "sad_do_ioctl e j mp st = Some t" "i \<noteq> j"
  shows "sa_sad t i = sa_sad st i"
  using assms by (auto simp: sad_do_ioctl_def Let_def sad_state_def elim!: bind_SomeE
      dest!: sad_nak_keeps sad_copyio_keeps split: if_splits)

lemma sad_other_iocdata:
  assumes "sad_iocdata e j mp st = Some t" "i \<noteq> j"
  shows "sa_sad t i = sa_sad st i"
proof -
  have "sa_sad t i = sa_sad st i" if "sad_sap_in e j mp bp st = Some t" for bp
    using that assms(2) by (auto simp: sad_sap_in_def sad_state_def Let_def elim!: bind_SomeE dest!: sad_done_keeps split: if_splits)
  moreover have "sa_sad t i = sa_sad st i" if "sad_gap_in e j mp bp st = Some t" for bp
    using that assms(2) by (auto simp: sad_gap_in_def sad_state_def Let_def elim!: bind_SomeE
        dest!: sad_done_keeps sad_copyio_keeps split: if_splits)
  moreover have "sa_sad t i = sa_sad st i" if "sad_vml_in1 e j mp bp st = Some t" for bp
    using that assms(2) by (auto simp: sad_vml_in1_def sad_state_def Let_def elim!: bind_SomeE
        dest!: sad_done_keeps sad_copyio_keeps split: if_splits)
  moreover have "sa_sad t i = sa_sad st i" if "sad_vml_in2 e j mp bp st = Some t" for bp
    using that assms(2) by (auto simp: sad_vml_in2_def Let_def elim!: bind_SomeE dest!: sad_done_keeps)
  moreover have "sa_sad t i = sa_sad st i" if "sad_done e j mp err r st = Some t" for err r
    using that sad_done_keeps by metis
  moreover have "sa_sad t i = sa_sad st i" if "sad_done e j mp err r (sad_state j n st) = Some t" for err r n
    using sad_done_keeps[OF that] assms(2) by (simp add: sad_state_def)
  ultimately show ?thesis using assms(1)
    by (auto simp: sad_iocdata_def Let_def elim!: bind_SomeE split: if_splits)
qed

lemma sad_later_stuck:
  assumes "sad_later e i st t" "pv_state (sa_sad st i) \<noteq> ST_NONE"
  shows "pv_state (sa_sad t i) = pv_state (sa_sad st i)"
  using assms(1)
proof induction
  case (put t q mp u)
  show ?case
  proof (cases "sa_ptr t q = Some i")
    case True
    then show ?thesis using put assms(2) sad_refused[of t i] sad_nak_keeps sad_failed_copy
      by (auto simp: sad_wput_def elim!: bind_SomeE split: if_splits)
  next
    case False
    then show ?thesis using put sad_other_ioctl[of e _ mp t u i] sad_other_iocdata[of e _ mp t u i]
      by (auto simp: sad_wput_def elim!: bind_SomeE split: if_splits)
  qed
qed (auto simp: sad_open_def sad_close_def Let_def elim!: bind_SomeE split: if_splits)

lemma sad_stuck:
  assumes "pv_state (sa_sad st i) \<noteq> ST_NONE" "mb (sa_lis st) mp = Some m" "mem_u64 (sa_lis st) (b_rptr m + 24) \<noteq> 0"
    and "sad_iocdata e i mp st = Some t" "sad_later e i t u"
  shows "sa_sad t = sa_sad st \<and> pv_state (sa_sad u i) = pv_state (sa_sad st i) \<and>
    (\<forall>mp'. sad_do_ioctl e i mp' u = sad_nak e i mp' (- EINVAL) u)"
proof -
  have t: "sa_sad t = sa_sad st" using sad_failed_copy[OF assms(4)] assms(2,3) by (simp add: copied_def)
  then have "pv_state (sa_sad u i) = pv_state (sa_sad st i)" using sad_later_stuck[OF assms(5)] assms(1) by simp
  with t assms(1) show ?thesis by (simp add: sad_refused)
qed

subsection \<open>\<open>loop\<close>\<close>

lemma upd_loop_frame [simp]:
  "lp_ptr (upd_loop i f st) = lp_ptr st" "lp_ptr (set_lis s st) = lp_ptr st" "lp_loop (set_lis s st) = lp_loop st"
  "lp_loop (upd_loop i f st) = (lp_loop st)(i := f (lp_loop st i))" "lp_lis (set_lis s st) = s"
  by (simp_all add: upd_loop_def set_lis_def)

lemma loop_untimeout_frame:
  assumes "loop_untimeout i st = Some t"
  obtains h where "lp_ptr t = lp_ptr st" "lp_loop t = (lp_loop st)(i := (lp_loop st i)\<lparr>lo_timr_hndl := h\<rparr>)"
proof (cases "lo_timr_hndl (lp_loop st i) = 0")
  case True
  then have "t = st" using assms by (simp add: loop_untimeout_def)
  then have "lp_ptr t = lp_ptr st" "lp_loop t = (lp_loop st)(i := (lp_loop st i)\<lparr>lo_timr_hndl := lo_timr_hndl (lp_loop st i)\<rparr>)"
    by simp_all
  then show ?thesis by (rule that)
next
  case False
  then have "lp_ptr t = lp_ptr st" "lp_loop t = (lp_loop st)(i := (lp_loop st i)\<lparr>lo_timr_hndl := 0\<rparr>)"
    using assms by (auto simp: loop_untimeout_def elim!: bind_SomeE)
  then show ?thesis by (rule that)
qed

lemma loop_disconnect_frame:
  assumes "loop_disconnect e i st = Some t" "lo_oqptr (lp_loop st i) = oq" "oq \<noteq> NULL" "lp_ptr st oq = Some j" "j \<noteq> i"
  shows "lp_ptr t = lp_ptr st \<and>
    lp_loop t = (lp_loop st)(j := (lp_loop st j)\<lparr>lo_qptr := NULL, lo_oqptr := NULL\<rparr>, i := (lp_loop st i)\<lparr>lo_oqptr := NULL\<rparr>)"
  using assms by (auto simp: loop_disconnect_def Let_def elim!: bind_SomeE)

text \<open>Closing one end clears the slot of the other end, which is still open.\<close>

lemma loop_close_frame:
  assumes "loop_close e q st = Some (r, t)" "lp_ptr st q = Some i" "lo_oqptr (lp_loop st i) \<noteq> NULL"
    and "lp_ptr st (lo_oqptr (lp_loop st i)) = Some j" "j \<noteq> i"
  shows "r = 0 \<and> lp_ptr t = lp_ptr st \<and>
    lp_loop t = (lp_loop st)(i := loop_zero, j := (lp_loop st j)\<lparr>lo_qptr := NULL, lo_oqptr := NULL\<rparr>)"
proof -
  let ?s = "upd_loop i (\<lambda>l. l\<lparr>lo_qptr := NULL\<rparr>) st"
  obtain u v w where u: "loop_untimeout i ?s = Some u" "loop_disconnect e i u = Some v"
    "r = 0" "t = upd_loop i (\<lambda>_. loop_zero) (set_lis w v)"
    using assms(1,2) by (auto simp: loop_close_def Let_def elim!: bind_SomeE)
  obtain h where h: "lp_ptr u = lp_ptr st"
    "lp_loop u = (lp_loop st)(i := (lp_loop st i)\<lparr>lo_qptr := NULL, lo_timr_hndl := h\<rparr>)"
    by (rule loop_untimeout_frame[OF u(1)]) simp
  have "lp_ptr v = lp_ptr u \<and> lp_loop v =
      (lp_loop u)(j := (lp_loop u j)\<lparr>lo_qptr := NULL, lo_oqptr := NULL\<rparr>, i := (lp_loop u i)\<lparr>lo_oqptr := NULL\<rparr>)"
    by (rule loop_disconnect_frame[OF u(2) refl]) (use h assms(3-5) in simp_all)
  then show ?thesis using u(3,4) h assms(5) by (auto simp: fun_upd_twist)
qed

lemma find_first:
  assumes "P j" "j < n" "m \<le> j" "\<And>d. m \<le> d \<Longrightarrow> d < j \<Longrightarrow> \<not> P d"
  shows "find P [m..<n] = Some j"
proof -
  have "[m..<n] = [m..<j] @ j # [Suc j..<n]"
    using assms(2,3) by (metis le_Suc_ex less_or_eq_imp_le upt_add_eq_append upt_conv_Cons)
  moreover have "find P ([m..<j] @ j # [Suc j..<n]) = Some j"
  proof -
    have "find P (xs @ j # ys) = Some j" if "\<forall>d \<in> set xs. \<not> P d" for xs ys
      using that assms(1) by (induction xs) auto
    then show ?thesis using assms(4) by simp
  qed
  ultimately show ?thesis by simp
qed

lemma loop_open_takes:
  assumes "lo_qptr (lp_loop u j) = NULL" "1 \<le> j" "j < NLOOP" "\<forall>d. 1 \<le> d \<and> d < j \<longrightarrow> lo_qptr (lp_loop u d) \<noteq> NULL"
    and "lp_ptr u q' = None" "lis_safe_WR q' (lp_lis u) = Some wq'" "lp_ptr u oq = Some j"
  shows "\<exists>v. loop_open q' devp CLONEOPEN u = Some (0, makedevice (dev_major devp) j, v) \<and>
    lp_ptr v q' = Some j \<and> lp_ptr v oq = Some j \<and> lo_qptr (lp_loop v j) = wq'"
proof -
  have "find (\<lambda>d. lo_qptr (lp_loop u d) = NULL) [1..<NLOOP] = Some j"
    by (rule find_first) (use assms in auto)
  then have f: "loop_free u = j" by (simp add: loop_free_def)
  then show ?thesis using assms(3,5-7) by (auto simp: loop_open_def f Let_def)
qed

lemma loop_slot_shared:
  assumes "loop_close e q st = Some (r, t)" "lp_ptr st q = Some i" "lo_oqptr (lp_loop st i) = oq" "oq \<noteq> NULL"
    and "lp_ptr st oq = Some j" "j \<noteq> i" "1 \<le> j" "j < NLOOP"
  shows "lp_ptr t oq = Some j \<and> lo_qptr (lp_loop t j) = NULL \<and>
    (\<forall>u q' wq' devp. lp_ptr u oq = Some j \<and> lo_qptr (lp_loop u j) = NULL \<and>
        (\<forall>d. 1 \<le> d \<and> d < j \<longrightarrow> lo_qptr (lp_loop u d) \<noteq> NULL) \<and> lp_ptr u q' = None \<and> lis_safe_WR q' (lp_lis u) = Some wq' \<longrightarrow>
      (\<exists>v. loop_open q' devp CLONEOPEN u = Some (0, makedevice (dev_major devp) j, v) \<and>
        lp_ptr v q' = Some j \<and> lp_ptr v oq = Some j \<and> lo_qptr (lp_loop v j) = wq'))"
proof -
  have "lp_ptr t oq = Some j \<and> lo_qptr (lp_loop t j) = NULL"
    using loop_close_frame[OF assms(1,2), of j] assms(3-6) by auto
  then show ?thesis using loop_open_takes assms(7,8) by blast
qed

text \<open>A message that completes a group of one is sent, and stays saved.\<close>

lemma concat_one_stays:
  assumes "lo_oqptr (lp_loop st i) \<noteq> NULL" "lo_burst (lp_loop st i) = 0" "lo_copy_bfr (lp_loop st i) = 0"
    and "lo_mark (lp_loop st i) = 0" "lo_catlvl (lp_loop st i) = 1" "lo_saved_msg (lp_loop st i) = NULL"
  shows "loop_data e q i mp st = loop_send e q i mp (upd_loop i (\<lambda>l. l\<lparr>lo_saved_msg := mp, lo_catlvl := 0\<rparr>) st)"
  using assms by (simp add: loop_data_def loop_copies_def loop_concat_def upd_loop_def Let_def)

subsection \<open>\<open>minimux\<close>\<close>

lemma upd_mux_SomeE:
  assumes "upd_mux p f st = Some t"
  obtains x where "xs_tbl st p = Some x" "t = st\<lparr>xs_tbl := (xs_tbl st)(p \<mapsto> f x)\<rparr>"
  using assms by (auto simp: upd_mux_def elim!: bind_SomeE)

text \<open>Parts of a close change neither the pointer of a third entry to its partner nor the queues.\<close>

abbreviation (input) outq_at :: "muxst \<Rightarrow> ptr \<Rightarrow> ptr option" where "outq_at st p \<equiv> map_option mu_outq (xs_tbl st p)"
abbreviation (input) other_at :: "muxst \<Rightarrow> ptr \<Rightarrow> ptr option" where "other_at st p \<equiv> map_option mu_othermux (xs_tbl st p)"

lemma mux_unlist_frame:
  assumes "mux_unlist prev p st = Some t"
  shows "xs_ptr t = xs_ptr st" "xs_lis t = xs_lis st" "outq_at t l = outq_at st l" "other_at t l = other_at st l"
  using assms by (auto simp: mux_unlist_def elim!: bind_SomeE upd_mux_SomeE split: if_splits)

lemma mux_detach_frame:
  assumes "mux_detach p st = Some t"
  shows "xs_ptr t = xs_ptr st" "xs_lis t = xs_lis st" "outq_at t l = outq_at st l"
    "other_at st p \<noteq> Some l \<Longrightarrow> other_at t l = other_at st l"
  using assms by (auto simp: mux_detach_def elim!: bind_SomeE upd_mux_SomeE split: if_splits)

lemma mux_close_dangles:
  assumes "mux_close q st = Some (r, t)" "xs_ptr st q = p" "p \<noteq> NULL" "mux_search p NULL (xs_head st) st = Some (prev, p)"
    and "outq_at st p = Some oq" "other_at st l = Some p" "other_at st p \<noteq> Some l" "l \<noteq> p" "l \<noteq> NULL"
    and "xs_ptr st lq = l" "lq \<noteq> q" "lis_safe_RD oq (xs_lis st) \<noteq> Some lq" "lis_safe_WR oq (xs_lis st) \<noteq> Some lq"
  shows "mux_lrput e lq mp t = None"
proof -
  obtain u v x w where u: "mux_unlist prev p st = Some u" "mux_detach p u = Some v" "xs_tbl v p = Some x"
    "set_ptrs (mu_outq x) NULL v = Some w" "xs_ptr t = (xs_ptr w)(q := NULL)" "xs_tbl t = (xs_tbl w)(p := None)"
    using assms(1-4) by (auto simp: mux_close_def mux_drop_def Let_def elim!: bind_SomeE)
  have "outq_at v p = Some oq" using mux_detach_frame(3)[OF u(2)] mux_unlist_frame(3)[OF u(1)] assms(5) by simp
  then have x: "mu_outq x = oq" using u(3) by simp
  have v: "xs_ptr v = xs_ptr st" "xs_lis v = xs_lis st"
    using mux_detach_frame(1,2)[OF u(2)] mux_unlist_frame(1,2)[OF u(1)] by simp_all
  have "xs_ptr w lq = l" "xs_tbl w = xs_tbl v"
    using u(4) assms(10,12,13) unfolding x set_ptrs_def v by (auto elim!: bind_SomeE split: if_splits)
  moreover have "other_at v l = Some p"
    using mux_detach_frame(4)[OF u(2)] mux_unlist_frame(4)[OF u(1)] assms(6,7) by simp
  ultimately have "xs_ptr t lq = l" "other_at t l = Some p" "xs_tbl t p = None"
    using u(5,6) assms(8,11) by simp_all
  then show ?thesis using assms(3,9) by (auto simp: mux_lrput_def mux_fwdq_def)
qed

subsection \<open>\<open>fifo\<close>\<close>

lemma fifo_alloc_flags:
  assumes "fifo_alloc c idx st = Some (r, t)" "0 \<le> r"
  shows "ff_flags t (nat r) = ff_flags st (nat r) OR FIFO_ALLOCATED"
  using assms by (auto simp: fifo_alloc_def Let_def split: if_splits)

text \<open>A unit that is given was free and is given once; giving it back makes it free again.\<close>

lemma fifo_alloc_free:
  assumes "fifo_inv c st" "idx < int (fc_units c)" "0 \<le> idx \<longrightarrow> ff_flags st (nat idx) AND FIFO_CLONABLE = 0"
  shows "\<exists>r t. fifo_alloc c idx st = Some (r, t) \<and> fifo_inv c t \<and>
    (if r < 0 then t = st
     else nat r \<in> set (ff_free st) \<and> nat r \<notin> set (ff_free t) \<and> (0 \<le> idx \<longrightarrow> r = idx) \<and>
       fifo_inv c (fifo_free c r t) \<and> set (ff_free (fifo_free c r t)) = set (ff_free st))"
proof -
  obtain r t where t: "fifo_alloc c idx st = Some (r, t)" "fifo_inv c t"
    "if r < 0 then t = st
     else nat r \<in> set (ff_free st) \<and> (0 \<le> idx \<longrightarrow> r = idx) \<and> ff_free t = remove1 (nat r) (ff_free st)"
    using fifo_alloc_inv[OF assms] by blast
  show ?thesis
  proof (cases "r < 0")
    case True
    then show ?thesis using t by auto
  next
    case False
    then have r: "nat r \<in> set (ff_free st)" "0 \<le> idx \<longrightarrow> r = idx" "ff_free t = remove1 (nat r) (ff_free st)"
      using t(3) by simp_all
    have u: "nat r < fc_units c" "distinct (ff_free st)" "ff_flags st (nat r) AND (FIFO_ALLOCATED OR FIFO_CLONABLE) = 0"
      using assms(1) r(1) by (auto simp: fifo_inv_def)
    have f: "ff_flags t (nat r) = ff_flags st (nat r) OR FIFO_ALLOCATED"
      using fifo_alloc_flags[OF t(1)] False by simp
    have "ff_flags t (nat r) AND FIFO_ALLOCATED \<noteq> 0" unfolding f by (rule fifo_bits(2))
    moreover have "ff_flags t (nat r) AND FIFO_CLONABLE = 0"
      using u(3) unfolding f fifo_bits(1) by (simp add: bit.conj_disj_distrib2 FIFO_ALLOCATED_def FIFO_CLONABLE_def)
    ultimately have "fifo_inv c (fifo_free c r t)" "ff_free (fifo_free c r t) = ff_free t @ [nat r]"
      using fifo_free_inv[OF t(2) u(1)] False by auto
    then show ?thesis using t(1,2) r u(2) False by auto
  qed
qed

end
