(* ===== verification/LiS_SamplesDrv.thy ===== *)
theory LiS_SamplesDrv
  imports LiS_DriversSpec LiS_SamplesReq
begin

text \<open>States for the drivers.\<close>

unbundle bit_operations_syntax

subsection \<open>\<open>sad\<close>: an answer without memory for the data\<close>

definition rejected :: lis where
  "rejected = short_msg\<lparr>mem := (mem short_msg)(databuf 1000 + 24 := 12)\<rparr>"

definition sad1 :: sadst where
  "sad1 = \<lparr>sa_lis = rejected, sa_sad = (\<lambda>_. \<lparr>pv_rq = 10, pv_uaddr = 70000, pv_state = ST_GAP_IN, pv_nmods = 0, pv_modlist = NULL\<rparr>),
     sa_ptr = [10 \<mapsto> 1, 20 \<mapsto> 1]\<rparr>"

definition sadenv1 :: sadenv where
  "sadenv1 = \<lparr>sx_env = env1, sx_menv = r_menv renv1, sx_uid = (\<lambda>_. 0)\<rparr>"

lemma rejected_inv: "msg_inv {1000} (rejected\<lparr>db := [1000 \<mapsto> own_db 1000 ty], mem := m\<rparr>)"
proof -
  let ?s = "rejected\<lparr>db := [1000 \<mapsto> own_db 1000 ty], mem := m\<rparr>"
  have d: "datap ?s 1000 = 1000" by (simp add: datap_def rejected_def short_msg_def)
  have "{m \<in> {1000}. datap ?s m = 1000} = {1000}" using d by auto
  then have "refs {1000} ?s 1000 = 1" using d by (simp add: refs_def)
  then show ?thesis using d by (auto simp: msg_inv_def rejected_def short_msg_def split: if_splits)
qed

lemma own_db_type: "own_db h a\<lparr>db_type := ty\<rparr> = own_db h ty"
  by (rule datab.equality) (simp_all add: own_db_def)

lemma rejected_type: "set_btype 1000 ty rejected = Some (rejected\<lparr>db := [1000 \<mapsto> own_db 1000 ty]\<rparr>)"
  by (simp add: set_btype_def upd_db_def rejected_def short_msg_def own_db_type)

lemma rejected_free: "\<exists>t. lis_freemsg 1000 (rejected\<lparr>db := [1000 \<mapsto> own_db 1000 ty], mem := m\<rparr>) = Some t"
proof -
  let ?s = "rejected\<lparr>db := [1000 \<mapsto> own_db 1000 ty], mem := m\<rparr>"
  have "mb ?s 1000 = Some (blk 1000 0 3)" by (simp add: rejected_def short_msg_def)
  from freemsg_block[OF rejected_inv _ this] show ?thesis by auto
qed

lemma sad1_refused: "\<exists>t. sad_iocdata sadenv1 1 1000 sad1 = Some t"
proof -
  have m: "mb rejected 1000 = Some (blk 1000 0 3)" by (simp add: rejected_def short_msg_def)
  have v: "mem_u64 rejected (databuf 1000 + 24) = 12"
    by (simp add: mem_u64_def mem_u32_def mem_u16_def rejected_def short_msg_def lis0_def)
  let ?s = "rejected\<lparr>db := [1000 \<mapsto> own_db 1000 M_IOCNAK]\<rparr>"
  let ?w = "\<lambda>err. mem_put32 (databuf 1000 + 28) (word_of_int (-1)) (mem_put32 (databuf 1000 + 24) (word_of_int (- err))
     (mem_put32 (databuf 1000 + 20) 0 ?s))"
  have w: "?w err = rejected\<lparr>db := [1000 \<mapsto> own_db 1000 M_IOCNAK], mem := mem (?w err)\<rparr>" for err
    by (simp add: mem_put32_def mem_byte_def)
  obtain t where t: "lis_freemsg 1000 (?w (-12)) = Some t" using rejected_free[where ty = M_IOCNAK and m = "mem (?w (-12))"] w[of "-12"] by metis
  have q: "qs (?w err) 10 = Some (pq True 20 NULL 90)" for err
    by (subst w) (simp add: rejected_def short_msg_def)
  have "lis_safe_putnext env1 10 1000 (?w (-12)) = Some t"
    using t q[of "-12"] by (simp add: lis_safe_putnext_def q_magic_ok_def)
  then show ?thesis
    using m v rejected_type[of M_IOCNAK]
    by (simp add: sad_iocdata_def sad_done_def sad1_def sadenv1_def c_int_id Let_def)
qed

text \<open>Three queue pairs of the driver; the first opens minor device 2.\<close>

definition pairs :: lis where
  "pairs = lis0\<lparr>qs := [10 \<mapsto> pq True 20 NULL NULL, 20 \<mapsto> pq False 10 NULL NULL, 30 \<mapsto> pq True 40 NULL NULL,
       40 \<mapsto> pq False 30 NULL NULL, 50 \<mapsto> pq True 60 NULL NULL, 60 \<mapsto> pq False 50 NULL NULL]\<rparr>"

lemma sad_opens: "\<exists>u. sad_open 10 2 0 (t\<lparr>sa_lis := pairs\<rparr>) = Some (0, 2, u)"
proof -
  have "lis_safe_WR 10 pairs = Some 20"
    by (simp add: lis_safe_WR_def q_magic_ok_def pairs_def F_ISSET_def q_flag_defs)
  then show ?thesis by (simp add: sad_open_def SAD_N_MINOR_def dev_minor_def dev_major_def makedevice_def Let_def)
qed

subsection \<open>\<open>loop\<close>: two devices that are connected\<close>

text \<open>Device 1 on queues 30 and 40, device 2 on 10 and 20, which are being closed; 50 and 60 are to be opened.\<close>

definition shut :: "queue \<Rightarrow> queue" where
  "shut Q = Q\<lparr>q_flag := q_flag Q OR QPROCSOFF\<rparr>"

definition loops_lis :: lis where
  "loops_lis = lis0\<lparr>qs := [10 \<mapsto> shut (pq True 20 NULL NULL), 20 \<mapsto> shut (pq False 10 NULL NULL),
     30 \<mapsto> pq True 40 NULL NULL, 40 \<mapsto> pq False 30 NULL NULL, 50 \<mapsto> pq True 60 NULL NULL, 60 \<mapsto> pq False 50 NULL NULL]\<rparr>"

definition dki0 :: dki where
  "dki0 = tm1"

definition loops :: loopst where
  "loops = \<lparr>lp_lis = loops_lis, lp_dki = dki0,
     lp_loop = (\<lambda>d. if d = 1 then loop_zero\<lparr>lo_qptr := 40, lo_oqptr := 10, lo_minor_nr := 1\<rparr>
                    else if d = 2 then loop_zero\<lparr>lo_qptr := 20, lo_oqptr := 30, lo_minor_nr := 2\<rparr> else loop_zero),
     lp_ptr = [10 \<mapsto> 2, 20 \<mapsto> 2, 30 \<mapsto> 1, 40 \<mapsto> 1]\<rparr>"

definition loopenv1 :: loopenv where
  "loopenv1 = \<lparr>lx_env = env1, lx_timeout = 1, lx_bufcall = 2, lx_addr = (\<lambda>i. 9000 + i), lx_at = (\<lambda>p. Some (p - 9000))\<rparr>"

definition emptied :: "queue \<Rightarrow> queue" where
  "emptied Q = Q\<lparr>q_first := NULL, q_last := NULL, q_count := 0, q_defer_head := NULL, q_defer_tail := NULL,
     q_flag := q_flag Q AND NOT (QFULL OR QWASFULL OR QWANTR OR QWANTW) OR QWANTR\<rparr>"

lemma pq_zero [simp]:
  "q_first (pq rd x n h) = NULL" "q_bandp (pq rd x n h) = NULL" "q_defer_head (pq rd x n h) = NULL" "q_count (pq rd x n h) = 0"
  by (simp_all add: pq_def queue_zero_def)

lemma flush_shut:
  assumes "qs s q = Some (shut (pq rd x NULL NULL))" "q \<noteq> NULL"
  shows "lis_flushq e q FLUSHALL s = Some (s\<lparr>qs := (qs s)(q \<mapsto> emptied (shut (pq rd x NULL NULL)))\<rparr>)"
  using assms unfolding lis_flushq_def flush_worker_def flush_take_def
  by (cases rd) (simp_all add: q_magic_ok_def upd_q_Some bands_clear.simps bands_check.simps flush_list.simps shut_def
      emptied_def q_flag_defs F_ISSET_def)

lemma loops_closed:
  "\<exists>t. loop_close loopenv1 10 loops = Some (0, t) \<and> lis_safe_WR 50 (lp_lis t) = Some 60 \<and> lp_ptr t 50 = None"
proof -
  let ?a = "loops_lis\<lparr>qs := (qs loops_lis)(10 \<mapsto> emptied (shut (pq True 20 NULL NULL)))\<rparr>"
  let ?b = "?a\<lparr>qs := (qs ?a)(20 \<mapsto> emptied (shut (pq False 10 NULL NULL)))\<rparr>"
  have q: "qs loops_lis 10 = Some (shut (pq True 20 NULL NULL))" "qs ?a 20 = Some (shut (pq False 10 NULL NULL))"
    "qs loops_lis 30 = Some (pq True 40 NULL NULL)"
    by (simp_all add: loops_lis_def)
  have f: "lis_flushq env1 10 FLUSHALL loops_lis = Some ?a" "lis_flushq env1 20 FLUSHALL ?a = Some ?b"
    using flush_shut[OF q(1)] flush_shut[OF q(2)] by simp_all
  have w: "lis_safe_WR 10 ?a = Some 20" "lis_safe_WR 50 ?b = Some 60"
    by (simp_all add: lis_safe_WR_def q_magic_ok_def loops_lis_def emptied_def shut_def F_ISSET_def q_flag_defs)
  show ?thesis
    using f w q(3)
    by (simp add: loop_close_def loops_def loopenv1_def upd_loop_def set_lis_def loop_untimeout_def loop_disconnect_def
        loop_zero_def lis_putctl_def Let_def)
qed

subsection \<open>\<open>minimux\<close>: one upper stream with two lower ones that send to it\<close>

text \<open>The upper stream on queues 10 and 20 is entry 100; entries 110 and 120 are the lower streams on 30, 40 and 50, 60.\<close>

definition muxes :: muxst where
  "muxes = \<lparr>xs_lis = pairs,
     xs_tbl = [100 \<mapsto> \<lparr>mu_list = NULL, mu_outq = 10, mu_othermux = 120, mu_ctl_strm = NULL, mu_muxid = 0, mu_minor_dev = 1\<rparr>,
       110 \<mapsto> \<lparr>mu_list = 100, mu_outq = 40, mu_othermux = 100, mu_ctl_strm = 100, mu_muxid = 1, mu_minor_dev = 0\<rparr>,
       120 \<mapsto> \<lparr>mu_list = 110, mu_outq = 60, mu_othermux = 100, mu_ctl_strm = 100, mu_muxid = 2, mu_minor_dev = 0\<rparr>],
     xs_head = 120, xs_minors = (\<lambda>d. if d = 1 then 1 else 0),
     xs_ptr = (\<lambda>q. if q \<in> {10, 20} then 100 else if q \<in> {30, 40} then 110 else if q \<in> {50, 60} then 120 else NULL)\<rparr>"

lemma muxes_search: "mux_search 100 NULL 120 muxes = Some (110, 100)"
  by (simp add: mux_search.simps muxes_def)

lemma muxes_partner: "lis_safe_RD 10 (xs_lis muxes) = Some 10" "lis_safe_WR 10 (xs_lis muxes) = Some 20"
  by (simp_all add: lis_safe_RD_def lis_safe_WR_def q_magic_ok_def muxes_def pairs_def F_ISSET_def q_flag_defs)

lemma muxes_closed: "\<exists>t. mux_close 10 muxes = Some (0, t)"
proof -
  have h: "xs_head muxes = 120" "xs_ptr muxes 10 = 100" by (simp_all add: muxes_def)
  obtain u where u: "mux_unlist 110 100 muxes = Some u" by (simp add: mux_unlist_def upd_mux_def muxes_def)
  obtain v where v: "mux_detach 100 u = Some v"
    using u by (auto simp: mux_detach_def mux_unlist_def upd_mux_def muxes_def)
  have "outq_at v 100 = Some 10" "xs_lis v = xs_lis muxes"
    using mux_detach_frame(2,3)[OF v] mux_unlist_frame(2,3)[OF u] by (simp_all add: muxes_def)
  then obtain x where "xs_tbl v 100 = Some x" "mu_outq x = 10" by auto
  then show ?thesis using h u v muxes_search muxes_partner \<open>xs_lis v = xs_lis muxes\<close>
    by (simp add: mux_close_def set_ptrs_def Let_def)
qed

subsection \<open>\<open>fifo\<close>: two major numbers with two units each\<close>

definition fifocfg1 :: fifocfg where
  "fifocfg1 = \<lparr>fc_units = 4, fc_majors = [40, 41]\<rparr>"

definition fifos :: fifost where
  "fifos = fifo_init fifocfg1 \<lparr>ff_lis = lis0, ff_flags = (\<lambda>_. 0), ff_free = [], ff_ptr = Map.empty, ff_inited = 0\<rparr>"

lemma fifos_free: "fifo_inv fifocfg1 fifos" "ff_free fifos = [1, 3]"
proof -
  show "fifo_inv fifocfg1 fifos" unfolding fifos_def by (rule fifo_init_inv) simp_all
  have "[0..<4] = [0, 1, 2, 3::nat]" by (simp add: upt_rec)
  moreover have "fifo_minors fifocfg1 = 2" by (simp add: fifocfg1_def fifo_minors_def flip: numeral_2_eq_2)
  ultimately show "ff_free fifos = [1, 3]" by (simp add: fifos_def fifo_init_def) (simp add: fifocfg1_def)
qed

end
