(* ===== verification/Spec2Isabelle.thy ===== *)
theory Spec2Isabelle
  imports LiS_MsgInv LiS_Chain LiS_MsgUtl LiS_Sched LiS_Queue LiS_QueueBand LiS_QueueSpec LiS_Put
    LiS_QueueMisc LiS_QueueAlloc LiS_Bufcall LiS_Run LiS_RunLoop LiS_Events LiS_Timers LiS_ModSpec LiS_Samples LiS_SamplesRun LiS_SamplesMod LiS_Contention LiS_HeadMsg
    LiS_HeadWrite LiS_HeadRing LiS_ReadSpec LiS_HeadIoctl LiS_IoctlSpec LiS_SamplesHead LiS_HeadPush LiS_HeadClose
    LiS_PushSpec LiS_SamplesPush LiS_HeadReq LiS_HeadStrioctl LiS_ReqSpec LiS_SamplesReq LiS_Drivers LiS_Sad
    LiS_Loop LiS_Minimux LiS_Fifo LiS_DriversSpec LiS_SamplesDrv
begin

text \<open>
  A verification development of LiS, the portable STREAMS subsystem (C, directories \<open>head/\<close>
  and \<open>drivers/str/\<close> of the sources).  It models the core of the subsystem, statement by statement: message blocks, queues, flow
  control, scheduling, the stream head with its put and service procedures and its read and write
  calls, buffer calls, event lists, timers, the tables of modules and drivers, locks, and the modules and
  drivers that come with the subsystem; and it proves what they promise, or how they fail to.

  The program.  A stream is a chain of queue pairs between a stream head and a driver.  A queue
  (\<open>queue_t\<close>) holds messages in descending order of priority: high-priority messages first, then the
  bands 255 to 1, then the ordinary ones.  A message (\<open>mblk_t\<close>) is a list of blocks linked by
  \<open>b_cont\<close>; blocks point to reference counted data blocks (\<open>dblk_t\<close>).  Queues that have something to
  do are put on the run list (\<open>lis_qenable\<close>), from which \<open>queuerun\<close> takes them to call their service
  procedures.  The stream head (\<open>stdata_t\<close>) is the end of a stream at the system calls: messages that
  come up to \<open>lis_strrput\<close> are listed and processed by the service procedure \<open>lis_strrsrv\<close>, which puts
  them into the read queue, wakes readers and pollers and signals the processes of an event list;
  \<open>lis_strread\<close> and \<open>lis_strgetpmsg\<close> take them from there, \<open>lis_strwrite\<close> and \<open>lis_strputpmsg\<close> send
  messages down and wait for room.

  The state.  The record \<open>lis\<close> (theory \<open>LiS_State\<close>) is the memory of the subsystem: one heap per type
  of structure, a map from addresses to records with the fields of the C structures, null being 0;
  the buffers as a map from addresses to bytes; the globals of the scheduler, of the buffer calls and
  the statistics.  Operations are functions from the state to an optional result.  The result \<open>None\<close>
  stands for an access through a dangling or null pointer, for a loop that does not end, and for
  waiting for a lock that another task holds; that an operation has a result is part of each theorem.
  Integers that wrap are words (\<open>u64\<close> queue counts and flags, \<open>u8\<close> bands, types and reference
  counts), or integers brought into range with \<open>c_int\<close>.  The kernel's allocators are sequences of
  answers to come (\<open>kmem\<close>, \<open>ev_mem\<close>, \<open>tl_mem\<close>), in which a null pointer is a refusal; put and service
  procedures, callbacks and the current task are the argument \<open>env\<close>.

  The theories, in the order of the code:
    \<open>LiS_Prelude\<close> null pointers, 32-bit results, singly and doubly linked segments of a heap
      (\<open>sseg\<close>, \<open>dl\<close>) and lists split at a predicate;
    \<open>LiS_State\<close> the structures of \<open>msg.h\<close>, \<open>queue.h\<close>, \<open>buffcall.h\<close>, the state, the statistics of
      \<open>stats.c\<close>;
    \<open>LiS_Msg\<close> \<open>msg.c\<close>: allocation, duplication and freeing; \<open>LiS_MsgInv\<close>: the reference counts are
      the numbers of live users, and freeing keeps this;
    \<open>LiS_MsgUtl\<close> \<open>msgutl.c\<close>: sizes, copying, linking, trimming and pulling up; \<open>LiS_Chain\<close>: sizes as
      sums over the blocks;
    \<open>LiS_QueueOps\<close>, \<open>LiS_Queue\<close>, \<open>LiS_QueueMisc\<close>, \<open>LiS_QueueAlloc\<close> \<open>queue.c\<close>: bands, ordered
      insertion, removal, flow control, flushing, put deferral, creation and destruction;
      \<open>LiS_Put\<close> the wrappers of \<open>safe.c\<close>;
    \<open>LiS_QueueAbs\<close> to \<open>LiS_QueueGet\<close> the abstraction \<open>queue_ok s q xs bs\<close>: queue \<open>q\<close> holds the list
      \<open>xs\<close> and the bands \<open>bs\<close>, with links, counts, band structures and full flags in agreement, and
      that each operation is the corresponding operation on \<open>xs\<close>: the place of insertion
      (\<open>LiS_QueuePlace\<close>), the accounting (\<open>LiS_QueueAcct\<close>, \<open>LiS_QueueBand\<close>, \<open>LiS_QueueUpd\<close>), \<open>putq\<close>,
      \<open>putbq\<close>, \<open>insq\<close> (\<open>LiS_QueuePut\<close>), \<open>getq\<close>, \<open>rmvq\<close> and the back-enabling of the queue behind
      (\<open>LiS_QueueGet\<close>);
    \<open>LiS_QueueSpec\<close> insertion at a given place (\<open>insq\<close>), and the interface of a message queue as the locale \<open>message_queue\<close> (and
      \<open>returning_queue\<close> with \<open>putbq\<close>), interpreted on the code's model as \<open>lq\<close> and \<open>lrq\<close>: it is a
      stable priority queue;
    \<open>LiS_Sched\<close>, \<open>LiS_RunList\<close>, \<open>LiS_Run\<close>, \<open>LiS_RunLoop\<close> \<open>lis_qenable\<close>, the run list, \<open>queuerun\<close> of
      \<open>stream.c\<close>, and that running it ends;
    \<open>LiS_Bufcall\<close> \<open>buffcall.c\<close>;
    \<open>LiS_EventOps\<close>, \<open>LiS_Events\<close> \<open>events.c\<close> with the locale \<open>event_table\<close>, interpreted as \<open>ltab\<close>;
    \<open>LiS_Timers\<close> \<open>dki.c\<close>;
    \<open>LiS_Mod\<close>, \<open>LiS_ModReg\<close>, \<open>LiS_Autopush\<close>, \<open>LiS_ModSpec\<close> \<open>mod.c\<close>: the tables of modules and drivers,
      their registration and loading, and the autopush lists with their reference counts;
    \<open>LiS_Locks\<close> the spin locks of \<open>lislocks.c\<close> as a system of tasks that take the statements of
      \<open>lock\<close>, \<open>unlock\<close> and \<open>trylock\<close> one at a time, with the invariant \<open>owned\<close>; \<open>LiS_Contention\<close> its
      contention tables and histogram;
    \<open>LiS_HeadOps\<close> flags, waits and wake-ups of the stream head (\<open>wait.c\<close>), signals, errors;
      \<open>LiS_HeadRput\<close> its put and service procedures, flushes and poll bits; \<open>LiS_HeadRead\<close>,
      \<open>LiS_HeadMsg\<close>, \<open>LiS_HeadWrite\<close> read, getmsg and putmsg, write; \<open>LiS_HeadList\<close> the list of stream
      heads, multiplexor numbers, descheduling and freezing; \<open>LiS_HeadIoctl\<close> an ioctl that goes down the
      stream, its time-out and answers; \<open>LiS_HeadPush\<close> linking queue pairs, opening and closing modules,
      pushing and popping, allocation of stream heads; \<open>LiS_HeadClose\<close> linking streams below a
      multiplexor, unlinking, and closing; \<open>LiS_HeadReq\<close>, \<open>LiS_HeadStrioctl\<close> the requests of ioctl, one
      definition each, and \<open>lis_strioctl\<close> (all \<open>head.c\<close>), with \<open>lis_recvfd\<close> and \<open>lis_copyin_str\<close> of
      \<open>linux-mdep.c\<close>;
    \<open>LiS_HeadSpec\<close> what waking, signalling and errors do, \<open>LiS_ReadSpec\<close> the bytes a read delivers,
      \<open>LiS_HeadRing\<close> the list of stream heads as a circular list, \<open>LiS_IoctlSpec\<close> which answer an ioctl takes, and to whom one goes whose caller gave up, \<open>LiS_PushSpec\<close>
      that unlinking a module undoes linking it and what a refused link leaves behind, \<open>LiS_ReqSpec\<close> requests
      that receive a file, give up events or insert a queue pointer;
    \<open>LiS_Drivers\<close> the modules and drivers \<open>relay.c\<close>, \<open>pipemod.c\<close>, \<open>clone.c\<close>, \<open>nullstrm.c\<close>;
      \<open>LiS_Sad\<close> the administrative driver \<open>sad.c\<close>; \<open>LiS_Loop\<close> the loop-around driver \<open>loop.c\<close>;
      \<open>LiS_Minimux\<close> the multiplexor \<open>minimux.c\<close>; \<open>LiS_Fifo\<close> the units of \<open>fifo.c\<close> (all
      \<open>drivers/str/\<close>); \<open>LiS_DriversSpec\<close> the free units as an invariant, and what a failed copy, a
      close of a connected device or of an upper stream leave behind;
    \<open>LiS_Samples\<close>, \<open>LiS_SamplesRun\<close>, \<open>LiS_SamplesMod\<close>, \<open>LiS_SamplesHead\<close>, \<open>LiS_SamplesPush\<close>, \<open>LiS_SamplesReq\<close>,
      \<open>LiS_SamplesDrv\<close> the concrete states on which the witnesses evaluate the theorems.

  A driver keeps its own state beside that of the subsystem: a record with the field of type \<open>lis\<close>, its
  table of minor devices and the private pointers \<open>q_ptr\<close> of its queues.  The put procedures of the queues
  above and below it are in \<open>env\<close> and work on \<open>lis\<close> only: they do not come back to the driver.

  User memory is a map of bytes (\<open>umem\<close>) with the sequence of answers of the accesses to come (\<open>uacc\<close>).
  A wait of a system call on a semaphore that is free takes it; what a wait on a semaphore that is taken
  ends with is the argument \<open>henv\<close> of the call (\<open>h_wait\<close>): any state and code, so that nothing is
  assumed about what other tasks do meanwhile.

  Atomicity.  An operation runs in one step: the queue and scheduler locks are modelled as the fields
  they change, and a \<open>down\<close> on a semaphore that is not free has no result.  The interleavings that
  the code allows between its critical sections are shown where a theorem is about them.

  Bounds.  There is no fuel: loops over linked structures are partial functions, and the theorems
  show that they return.  Only closing, which closes the streams linked below a multiplexor and may
  come back to itself, has a bound on its depth as its first argument (\<open>lis_doclose\<close>, and \<open>lis_strioctl\<close>
  for unlinking); the streams linked one below another on a path, and one more, are
  enough of it, unless a stream is linked below itself; no theorem rests on a value of it.
  Sizes are assumed to fit 32 bits where a theorem needs it (\<open>fits\<close>).

  Not modelled: opening a stream, with its inodes, dentries and the search for the device (\<open>lis_stropen\<close>);
  pipes and \<open>fattach\<close> (the two requests are parameters of \<open>renv\<close>); the requests and branches of kernels
  older than 3.10 and of RHEL 9 (\<open>I_SENDFD\<close>, \<open>I_LIS_PIPE\<close>, \<open>I_STR32\<close>); the glue to the kernel and its
  port to user processes, which keep no state of a stream; debug printing and lock tracing, the
  configuration generator, the drivers that print what they get (\<open>log.c\<close>, \<open>printk.c\<close>, \<open>putst.c\<close>), the
  registration of drivers as kernel modules, and the test programs.
\<close>

unbundle bit_operations_syntax

subsection \<open>Message queues\<close>

text \<open>C1: \<open>putq\<close>.  On a queue in order that holds the messages \<open>xs\<close>, in descending order of
  priority, putting a message succeeds, inserts it behind every message of at least its priority, and
  leaves the queue in order: links, byte counts, band structures and full flags all agree with the
  new list of messages.  Other messages, other queues and their bands are left alone.\<close>

theorem putq_inserts_by_priority:
  assumes "queue_ok s q xs bs" "q_shut q s = Some False" "msg_ok s mp" "mp \<notin> set xs"
    and "fits s (mp # xs)" "room s xs bs mp" "sched_ok s"
  shows "\<exists>t. lis_putq q mp s = Some (1, t) \<and> inserted s q mp (ins_after (qkey s) mp xs) bs t"
  by (rule putq_spec(1)[OF assms])

lemma putq_inserts_by_priority_witness:
  "\<exists>t. lis_putq 10 4000 sq = Some (1, t) \<and> inserted sq 10 4000 [1000, 2000, 4000, 3000] [50] t"
  using putq_inserts_by_priority[OF sq_queue_ok sq_open _ _ _ sq_room sq_sched, of 4000] sq_msgs
  by (simp add: sq_keys fits_def)

text \<open>C2: \<open>getq\<close>.  From a queue in order that holds \<open>x # xs\<close>, \<open>getq\<close> takes the first message \<open>x\<close>,
  with its links cleared, and leaves a queue in order that holds \<open>xs\<close>.\<close>

theorem getq_takes_first:
  assumes "queue_ok s q (x # xs) bs" "q_shut q s = Some False" "sched_ok s" "backpath s q ps"
  shows "\<exists>t. lis_getq q s = Some (x, t) \<and> removed s q x xs bs t"
  by (rule getq_spec[OF assms])

lemma getq_takes_first_witness:
  "\<exists>t. lis_getq 10 sq = Some (1000, t) \<and> removed sq 10 1000 [2000, 3000] [50] t"
  by (rule getq_takes_first[OF sq_queue_ok sq_open sq_sched sq_path])

text \<open>C3: Any sequence of \<open>putq\<close> calls on an empty queue followed by as many \<open>getq\<close> calls gives the
  messages back sorted by descending priority, in the order of arrival among equals, and leaves the
  queue empty.\<close>

theorem putq_getq_priority_fifo:
  assumes "q_holds q s []" "q_ready s [] ms"
  shows "\<exists>t u. puts (q_put q) ms s = Some t \<and>
     gets (lis_getq q) (length ms) t = Some (by_prio (qkey s) ms, u) \<and> q_holds q u []"
  by (rule lq.puts_gets[OF assms])

lemma putq_getq_priority_fifo_witness:
  "\<exists>t u. puts (q_put 20) [4000, 5000, 6000] sq = Some t \<and>
     gets (lis_getq 20) 3 t = Some ([6000, 5000, 4000], u) \<and> q_holds 20 u []"
  using putq_getq_priority_fifo[OF sq_wr_holds sq_wr_ready] unfolding sq_wr_prio length_three .

text \<open>C4: \<open>putbq\<close> undoes \<open>getq\<close>: the message just taken can always be put back, without any memory,
  and the queue holds the same list again.\<close>

theorem getq_putbq_restores:
  assumes "q_holds q s (x # xs)"
  shows "\<exists>t u. lis_getq q s = Some (x, t) \<and> q_unget q x t = Some u \<and> q_holds q u (x # xs) \<and> qkey u = qkey s"
  by (rule lrq.get_unget[OF assms])

lemma getq_putbq_restores_witness:
  "\<exists>t u. lis_getq 10 sq = Some (1000, t) \<and> q_unget 10 1000 t = Some u \<and>
     q_holds 10 u [1000, 2000, 3000] \<and> qkey u = qkey sq"
  by (rule getq_putbq_restores[OF sq_holds])

text \<open>C5: \<open>putbq\<close> puts a message back in front of the messages of its own band, behind those of
  higher priority, and leaves the queue in order.\<close>

theorem putbq_inserts_first_of_band:
  assumes "queue_ok s q xs bs" "q_shut q s = Some False" "msg_ok s mp" "mp \<notin> set xs"
    and "fits s (mp # xs)" "room s xs bs mp" "sched_ok s"
  shows "\<exists>t. lis_putbq q mp s = Some (1, t) \<and> inserted s q mp (ins_first (qkey s) mp xs) bs t"
  by (rule putq_spec(2)[OF assms])

lemma putbq_inserts_first_of_band_witness:
  "\<exists>t. lis_putbq 10 4000 sq = Some (1, t) \<and> inserted sq 10 4000 [1000, 4000, 2000, 3000] [50] t"
  using putbq_inserts_first_of_band[OF sq_queue_ok sq_open _ _ _ sq_room sq_sched, of 4000] sq_msgs
  by (simp add: sq_keys fits_def ins_first_def)

text \<open>On an empty queue \<open>getq\<close> returns no message, changes no message, and leaves the mark
  \<open>QWANTR\<close> by which the next \<open>putq\<close> schedules the service procedure.\<close>

theorem getq_empty_wants_service:
  assumes "queue_ok s q [] bs" "q_shut q s = Some False" "sched_ok s" "backpath s q ps"
  shows "\<exists>t Q. lis_getq q s = Some (NULL, t) \<and> queue_ok t q [] bs \<and> sched_ok t \<and> mb t = mb s \<and>
     op_frame s q bs t \<and> route_eq s t \<and> qs t q = Some Q \<and> F_ISSET (q_flag Q) QWANTR"
  by (rule getq_empty_spec[OF assms])

lemma getq_empty_wants_service_witness:
  "\<exists>t Q. lis_getq 20 sq = Some (NULL, t) \<and> queue_ok t 20 [] [] \<and> sched_ok t \<and> mb t = mb sq \<and>
     op_frame sq 20 [] t \<and> route_eq sq t \<and> qs t 20 = Some Q \<and> F_ISSET (q_flag Q) QWANTR"
  by (rule getq_empty_wants_service[OF sq_wr_ok sq_wr_open sq_sched sq_wr_path])

text \<open>C7: \<open>rmvq\<close> takes one given message out of the middle of a queue in order and leaves the others
  as they were, in order.\<close>

theorem rmvq_removes_message:
  assumes "queue_ok s q (as @ x # xs) bs" "q_shut q s = Some False" "sched_ok s" "backpath s q ps"
  shows "\<exists>t. lis_rmvq q x s = Some t \<and> removed s q x (as @ xs) bs t"
  by (rule rmvq_spec[OF assms])

lemma rmvq_removes_message_witness:
  "\<exists>t. lis_rmvq 10 2000 sq = Some t \<and> removed sq 10 2000 [1000, 3000] [50] t"
  using rmvq_removes_message[of sq 10 "[1000]" 2000 "[3000]", OF _ sq_open sq_sched sq_path] sq_queue_ok
  by simp

text \<open>C8: \<open>insq\<close> of any message before the first of \<open>bs\<close>, which stands behind the messages \<open>as\<close>, or at the end
  (\<open>bs\<close> empty, \<open>emp\<close> null).  An ordinary message that is to go before another is refused, the failure counted
  and nothing else changed, unless that one is ordinary and its band, and the band of the message before
  it, allow it.  Every other message is inserted at the place given.  If the place is in order, the queue
  stays in order.  If it is not, which the code does not test for a high-priority message nor for the
  end of the queue, the insertion succeeds all the same and the queue is out of order.\<close>

theorem insq_places_or_refuses:
  assumes "queue_ok s q (as @ bs) bnds" "q_shut q s = Some False"
    and "msg_ok s mp" "mp \<notin> set (as @ bs)"
    and "fits s (mp # as @ bs)" "room s (as @ bs) bnds mp" "sched_ok s"
  shows "if insq_refuses s as bs mp then lis_insq q (hd0 bs) mp s = Some (0, LisUpFailCount MSGSQD s)
    else \<exists>t. lis_insq q (hd0 bs) mp s = Some (1, t) \<and>
      (if desc s (as @ mp # bs) then inserted s q mp (as @ mp # bs) bnds t
       else (\<exists>Q. qs t q = Some Q \<and> qlist t Q (as @ mp # bs)) \<and> \<not> desc t (as @ mp # bs))"
  by (rule insq_spec[OF assms])

lemma insq_places_or_refuses_witness:
  "(\<exists>t. lis_insq 10 3000 4000 sq = Some (1, t) \<and> inserted sq 10 4000 [1000, 2000, 4000, 3000] [50] t) \<and>
   lis_insq 10 3000 5000 sq = Some (0, LisUpFailCount MSGSQD sq) \<and>
   lis_insq 10 2000 5000 sq = Some (0, LisUpFailCount MSGSQD sq) \<and> desc sq [1000, 5000, 2000, 3000] \<and>
   (\<exists>t. lis_insq 10 2000 6000 sq = Some (1, t) \<and> inserted sq 10 6000 [1000, 6000, 2000, 3000] [50] t) \<and>
   (\<exists>t. lis_insq 10 3000 6000 sq = Some (1, t) \<and> \<not> desc t [1000, 2000, 6000, 3000]) \<and>
   (\<exists>t. lis_insq 10 NULL 5000 sq = Some (1, t) \<and> \<not> desc t [1000, 2000, 3000, 5000])"
proof -
  note insq = insq_places_or_refuses[of sq 10 _ _ "[50]", OF _ sq_open _ _ _ sq_room sq_sched]
  note ev = sq_kinds sq_keys fits_def insq_refuses_def insq_fits_def desc_def word_le_nat_alt
  show ?thesis
    using insq[of "[1000, 2000]" "[3000]" 4000] insq[of "[1000, 2000]" "[3000]" 5000] insq[of "[1000]" "[2000, 3000]" 5000]
      insq[of "[1000]" "[2000, 3000]" 6000] insq[of "[1000, 2000]" "[3000]" 6000] insq[of "[1000, 2000, 3000]" "[]" 5000]
      sq_queue_ok sq_msgs
    by (simp add: ev) blast
qed

subsection \<open>Message blocks\<close>

text \<open>C9: The reference counts of the data blocks stay the numbers of the live messages that use them
  when one live message is freed with \<open>freeb\<close>: a block shared with another message survives with its
  data untouched, and the last user gives it back.\<close>

theorem freeb_keeps_live_messages:
  assumes "msg_inv L s" "m \<in> L"
  shows "\<exists>t. lis_freeb m s = Some t \<and> msg_inv (L - {m}) t \<and> (\<forall>x\<in>L - {m}. same_data s t x)"
  by (rule freeb_inv[OF assms])

lemma freeb_keeps_live_messages_witness:
  "\<exists>t. lis_freeb 1000 two_msgs = Some t \<and> msg_inv ({1000, 2000} - {1000}) t \<and>
     (\<forall>x\<in>{1000, 2000} - {1000}. same_data two_msgs t x)"
  by (rule freeb_keeps_live_messages[OF msg_inv_two_msgs]) simp

text \<open>C10: The sizes of a message, the list of blocks linked by \<open>b_cont\<close>: \<open>msgsize\<close> is the sum of
  the buffer sizes, \<open>msgdsize\<close> the sum of the bytes held by the data blocks, \<open>xmsgsize\<close> the sum of
  the bytes held by the leading blocks of the type of the first, each as a 32-bit int.\<close>

theorem message_sizes:
  assumes "mchain s p cs"
  shows "lis_msgsize p s = Some (c_sum (buf_len s) cs) \<and>
     lis_msgdsize p s = Some (c_sum (pos_len s) (filter (\<lambda>c. blk_type s c = M_DATA) cs)) \<and>
     lis_xmsgsize p s = Some (c_sum (pos_len s) (same_type s cs))"
  by (intro conjI lis_msgsize_chain[OF assms] lis_msgdsize_chain[OF assms] lis_xmsgsize_chain[OF assms])

lemma message_sizes_witness:
  "lis_msgsize 1000 cs1 = Some 24 \<and> lis_msgdsize 1000 cs1 = Some 5 \<and> lis_xmsgsize 1000 cs1 = Some 5"
  using message_sizes[OF cs1_chain] by (simp add: c_sum_def c_int_id same_type_def cs1_lens)

subsection \<open>Scheduling\<close>

text \<open>C11: \<open>qenable\<close>.  With the run list \<open>xs\<close>, a queue that has a service procedure and is neither
  scheduled nor held up is appended; otherwise the list stays, and the request for a queue that is
  scheduled, running or held up is remembered in its flag \<open>QWANTENAB\<close>.  Nothing but scheduling fields
  changes.\<close>

theorem qenable_appends_or_remembers:
  assumes "sched_ok s" "runlist s xs R" "qs s q = Some Q" "q \<noteq> NULL"
  shows "\<exists>t. lis_qenable q s = Some t \<and> sched_eq s t \<and> sched_ok t \<and>
    runlist t (if schedules Q then xs @ [q] else xs) R \<and>
    (\<forall>p. flagged QWANTENAB t p \<longleftrightarrow> flagged QWANTENAB s p \<or>
       p = q \<and> can_run Q \<and> F_ISSET (q_flag Q) Q_INH_ENABLE \<and> F_ISSET (q_flag Q) Q_DEFER_ENABLE)"
  by (rule lis_qenable_runlist[OF assms])

lemma qenable_appends_or_remembers_witness:
  "\<exists>t. lis_qenable 30 rs = Some t \<and> runlist t [10, 20, 30] {}"
  using qenable_appends_or_remembers[OF rs_sched rs_runlist rs_30] srvq_schedules by auto



subsection \<open>Event lists\<close>

text \<open>\<open>lis_add_to_elist\<close> on a list that stands for the finite map \<open>ev_map\<close> from processes to masks
  adds the events to the mask of the process, keeps the list sorted and properly linked, and leaves
  the other processes alone.\<close>

theorem add_to_elist_adds:
  assumes "elist s h xs" "ev_map s xs pid \<noteq> None \<or> ev_fresh s"
  shows "\<exists>t ys. lis_add_to_elist h pid events s = Some (0, h, t) \<and> elist t h ys \<and>
    ev_map t ys = (ev_map s xs)(pid \<mapsto> mask0 (ev_map s xs pid) OR events)"
  by (rule add_elist_spec[OF assms])

lemma add_to_elist_adds_witness:
  "\<exists>t ys. lis_add_to_elist 100 7 8 evs1 = Some (0, 100, t) \<and> elist t 100 ys \<and>
    ev_map t ys = [9 \<mapsto> 4, 5 \<mapsto> 3, 7 \<mapsto> 8]"
  using add_to_elist_adds[OF evs1_elist, of 7 8] evs1_fresh unfolding evs1_map
  by (simp add: mask0_def)

text \<open>\<open>lis_del_from_elist\<close> takes the events from the mask of the process, unlinks its node when no
  event is left, and returns 1 when there was none.\<close>

theorem del_from_elist_removes:
  assumes "elist s h xs"
  shows "\<exists>t ys. lis_del_from_elist h pid events s = Some (if ev_map s xs pid = None then 1 else 0, t) \<and>
    elist t h ys \<and> ev_map t ys = del_events (ev_map s xs) pid events"
  by (rule del_elist_spec[OF assms])

lemma del_from_elist_removes_witness:
  "\<exists>t ys. lis_del_from_elist 100 9 4 evs1 = Some (0, t) \<and> elist t 100 ys \<and> ev_map t ys = [5 \<mapsto> 3]"
  using del_from_elist_removes[OF evs1_elist, of 9 4] unfolding evs1_map
  by (simp add: del_events_def fun_upd_twist)

text \<open>Adding events and deleting them again leaves a process with the other events it had, and
  every other process unchanged.\<close>

theorem add_del_get_events:
  assumes "ev_holds h s M" "M pid \<noteq> None \<or> ev_fresh s"
  shows "\<exists>t u. ev_add h pid e s = Some (0, t) \<and> lis_del_from_elist h pid e t = Some (0, u) \<and>
    lis_get_elist_ent h pid u = Some (mask0 (M pid) AND NOT e) \<and>
    (\<forall>p. p \<noteq> pid \<longrightarrow> lis_get_elist_ent h p u = lis_get_elist_ent h p s)"
  by (rule ltab.add_del_get[OF assms])

lemma add_del_get_events_witness:
  "\<exists>t u. ev_add 100 5 8 evs1 = Some (0, t) \<and> lis_del_from_elist 100 5 8 t = Some (0, u) \<and>
    lis_get_elist_ent 100 5 u = Some 3"
  using add_del_get_events[OF evs1_holds, of 5 8] by (auto simp: mask0_def)

text \<open>C16: The list of events decides who is signalled: \<open>kill_procs\<close> sends a signal to a process exactly
  when the mask that \<open>lis_add_to_elist\<close> and \<open>lis_del_from_elist\<close> keep for it meets the events, and does
  nothing else.\<close>

theorem kill_procs_signals_registered:
  assumes "elist (evl (hds s)) h xs"
  shows "\<exists>new. kill_procs h e s = Some (add_sigs new s) \<and>
    (\<forall>pid. (\<exists>sig. (pid, sig) \<in> set new) \<longleftrightarrow> (\<exists>m. ev_map (evl (hds s)) xs pid = Some m \<and> m AND e \<noteq> 0))"
  by (rule kill_procs_who[OF assms])

lemma kill_procs_signals_registered_witness:
  "\<exists>new. kill_procs 100 1 watched = Some (add_sigs new watched) \<and> (\<exists>sig. (5, sig) \<in> set new) \<and> \<not> (\<exists>sig. (9, sig) \<in> set new)"
proof -
  obtain new where new: "kill_procs 100 1 watched = Some (add_sigs new watched)"
    "\<forall>pid. (\<exists>sig. (pid, sig) \<in> set new) \<longleftrightarrow> (\<exists>m. ev_map (evl (hds watched)) [110, 120] pid = Some m \<and> m AND 1 \<noteq> 0)"
    using kill_procs_signals_registered[OF watched_elist(1), of 1] by blast
  then show ?thesis by (intro exI[of _ new] conjI) (simp_all only: new, simp_all add: watched_elist(2))
qed

text \<open>\<open>lis_free_elist\<close> gives back every node of the list, the dummy head too, each once, and
  leaves the list pointer null.\<close>

theorem free_elist_frees_all:
  assumes "elist s h xs"
  shows "lis_free_elist h s =
    Some (NULL, s\<lparr>ev_heap := (ev_heap s) |` (- set (h # xs)), ev_freed := rev (h # xs) @ ev_freed s\<rparr>)"
  by (rule free_elist_spec[OF assms])

lemma free_elist_frees_all_witness: "\<exists>t. lis_free_elist 100 evs1 = Some (NULL, t) \<and> ev_freed t = [120, 110, 100]"
  using free_elist_frees_all[OF evs1_elist] by (simp add: evs1_def)

subsection \<open>Timers\<close>

text \<open>C18: \<open>lis_timeout\<close> returns a positive handle that was not in use, makes the call pending under
  this handle, arms its timer, and leaves the other pending timeouts alone.\<close>

theorem timeout_pends:
  assumes "tinv s L" "timer_room s L" "unused s L g"
  shows "\<exists>h t L'. lis_timeout fcn arg ticks s = Some (h, t) \<and> 0 < h \<and> pend s L h = None \<and> tinv t L' \<and>
    pend t L' = (pend s L)(h \<mapsto> (fcn, arg)) \<and> armed t (timer_of t L' h) = Some ticks \<and>
    (L 0 \<noteq> [] \<longrightarrow> timer_of t L' h = hd (L 0))"
  by (rule timeout_spec[OF assms])

lemma timeout_pends_witness:
  "\<exists>h t L'. lis_timeout 8 80 50 tm1 = Some (h, t) \<and> tinv t L' \<and> pend t L' h = Some (8, 80)"
proof -
  obtain h t L' where "lis_timeout 8 80 50 tm1 = Some (h, t)" "tinv t L'" "pend t L' = (pend tm1 tm1_lists)(h \<mapsto> (8, 80))"
    using timeout_pends[OF tm1_inv tm1_room tm1_unused, of 8 80 50] by blast
  then show ?thesis by (intro exI[of _ h] exI[of _ t] exI[of _ L']) simp
qed

text \<open>C19: \<open>lis_untimeout\<close> removes the timeout with the given handle, if it is pending, stops its timer
  and frees its structure; nothing else changes.\<close>

theorem untimeout_cancels:
  assumes "tinv s L" "0 < h"
  shows "\<exists>t L'. lis_untimeout h s = Some t \<and> tinv t L' \<and> pend t L' = (pend s L)(h := None) \<and>
    (pend s L h \<noteq> None \<longrightarrow> armed t (timer_of s L h) = None \<and> L' 0 = timer_of s L h # L 0)"
  by (rule untimeout_spec[OF assms])

lemma untimeout_cancels_witness:
  "\<exists>t L'. lis_untimeout 4 tm1 = Some t \<and> tinv t L' \<and> pend t L' = (pend tm1 tm1_lists)(4 := None) \<and> L' 0 = [11, 12]"
  using untimeout_cancels[OF tm1_inv, of 4] by (auto simp: tm1_pend tm1_lists_def)

text \<open>When the timer of a pending timeout expires, the timeout is removed and its procedure is
  called with its argument, in the state without it.\<close>

theorem expiry_calls_procedure:
  assumes "tinv s L" "p \<in> set (L i)" "i \<noteq> 0" "payload s p = (fcn, arg)" "fcn \<noteq> 0"
  shows "\<exists>t L'. tinv t L' \<and> pend t L' = (pend s L)(hndl s p := None) \<and>
    (\<forall>call. sys_timeout_fcn call p s = call fcn arg t)"
  by (rule expire_spec[OF assms])

lemma expiry_calls_procedure_witness:
  "\<exists>t L'. tinv t L' \<and> pend t L' = (pend tm1 tm1_lists)(4 := None) \<and>
    (\<forall>call. sys_timeout_fcn call 11 tm1 = call 7 70 t)"
  using expiry_calls_procedure[OF tm1_inv, of 11 4 7 70]
  by (simp add: tm1_lists_def tm1_def payload_def hndl_def)

text \<open>The expiry of a timer whose structure is free calls nothing and changes no pending timeout.\<close>

theorem late_expiry_harmless:
  assumes "tinv s L" "p \<in> set (L 0)"
  shows "\<exists>t L'. tinv t L' \<and> pend t L' = pend s L \<and> (\<forall>call. sys_timeout_fcn call p s = Some t)"
  by (rule late_expire_spec[OF assms])

lemma late_expiry_harmless_witness:
  "\<exists>t L'. tinv t L' \<and> pend t L' = pend tm1 tm1_lists \<and> (\<forall>call. sys_timeout_fcn call 12 tm1 = Some t)"
  using late_expiry_harmless[OF tm1_inv, of 12] by (simp add: tm1_lists_def)

text \<open>C22: But when the timer of a timeout has fired before \<open>untimeout\<close> and its expiry gets the lock only
  after the next \<open>timeout\<close>, it finds the new timeout in the structure: the new procedure runs at once
  and its timeout is gone.\<close>

theorem late_expiry_runs_new_timeout:
  assumes "tinv s L" "pend s L h \<noteq> None" "0 < h" "unused s L g" "fcn \<noteq> 0"
  shows "\<exists>t h' u v M. lis_untimeout h s = Some t \<and> lis_timeout fcn arg ticks t = Some (h', u) \<and>
    (\<forall>call. sys_timeout_fcn call (timer_of s L h) u = call fcn arg v) \<and> tinv v M \<and> pend v M h' = None"
  by (rule late_expiry_reused[OF assms])

lemma late_expiry_runs_new_timeout_witness:
  "\<exists>t h' u v. lis_untimeout 4 tm1 = Some t \<and> lis_timeout 8 80 50 t = Some (h', u) \<and>
    (\<forall>call. sys_timeout_fcn call 11 u = call 8 80 v)"
  using late_expiry_runs_new_timeout[OF tm1_inv _ _ tm1_unused, of 4 8 80 50] unfolding tm1_pend by auto

text \<open>C23: \<open>lis_terminate_dki\<close> frees every timer structure, pending or free, once, and leaves all lists
  empty.\<close>

theorem terminate_dki_frees_all:
  assumes "tinv s L" "\<forall>i\<ge>THASH. L i = []"
  shows "\<exists>t. lis_terminate_dki s = Some t \<and> tinv t (\<lambda>_. []) \<and>
    tl_freed t = rev (concat (map L [0..<THASH])) @ tl_freed s"
  by (rule terminate_dki_spec[OF assms])

lemma terminate_dki_frees_all_witness:
  "\<exists>t. lis_terminate_dki tm1 = Some t \<and> tinv t (\<lambda>_. []) \<and> tl_freed t = [11, 12]"
  using terminate_dki_frees_all[OF tm1_inv tm1_high] unfolding tm1_freed by (simp add: tm1_def)

subsection \<open>Modules and autopush\<close>

text \<open>C24: An autopush request (\<open>apush_conf\<close>) always returns.  If it fails nothing changes.  Whether it
  adds or clears an entry, the chains stay sorted and disjoint, the reference count of each module
  stays the number of its occurrences in all the lists, and the chains of other majors stay.\<close>

theorem apush_conf_keeps_table:
  assumes "apush_inv s" "nref_ok a"
  shows "\<exists>r t. apush_conf e major a s = Some (r, t) \<and> r \<le> 0 \<and> (r < 0 \<longrightarrow> t = s) \<and> apush_inv t \<and> conf_frame major s t"
  by (rule apush_conf_inv[OF assms])

lemma apush_conf_keeps_table_witness:
  "\<exists>r t. apush_conf menv0 5 (sap_entry sap1 40 [2, 1]) mods1 = Some (r, t) \<and> r \<le> 0 \<and> apush_inv t"
  using apush_conf_keeps_table[OF mods1_inv, of "sap_entry sap1 40 [2, 1]" menv0 5]
  by (auto simp: nref_ok_def sap_entry_def MAX_STRMOD_def)





text \<open>C27: A module registered under a new name gets a positive number, under which it is found by its
  streamtab and by its name; the other modules keep theirs, and the table's semaphore is free again.\<close>

theorem register_then_find:
  assumes "reg_free s" "0 < fmodcnt s" "fmodcnt s < MAX_STRMOD - 1"
    and "strtab \<noteq> NULL" "\<forall>j. 0 < j \<and> j \<le> fmodcnt s \<longrightarrow> f_str (fmod_sw s j) \<noteq> strtab"
    and "name \<noteq> []" "length name \<le> LIS_NAMESZ" "\<forall>j. 0 < j \<and> j \<le> fmodcnt s + 1 \<longrightarrow> f_name (fmod_sw s j) \<noteq> name"
  shows "\<exists>i t. lis_register_strmod strtab (Some name) s = Some (i, t) \<and> 0 < i \<and>
    lis_findmod_strtab strtab t = Some (i, t) \<and> lis_findmod name t = Some i \<and>
    (\<forall>j. j \<noteq> i \<longrightarrow> fmod_sw t j = fmod_sw s j) \<and> f_state (fmod_sw t i) = MODSTATE_LOADED OR MODSTATE_INITED \<and> reg_free t"
  by (rule register_find_spec[OF assms])

lemma register_then_find_witness:
  "\<exists>i t. lis_register_strmod 900 (Some ''timod'') mods1 = Some (i, t) \<and> 0 < i \<and> lis_findmod ''timod'' t = Some i"
proof -
  have "(900::nat) \<noteq> NULL" "''timod'' \<noteq> []" "length ''timod'' \<le> LIS_NAMESZ" by (simp_all add: LIS_NAMESZ_def)
  with register_then_find[OF mods1_free mods1_linked(3,5), of 900 "''timod''"] mods1_new(1,2) show ?thesis by blast
qed



text \<open>\<open>lis_apush_get\<close> for an entry with two modules or more writes behind the \<open>strapush\<close> structure
  of its caller: it copies 65 bytes for each name into rows of 9.\<close>

theorem apush_get_writes_outside:
  assumes "sap_major ap < MAX_STRDEV" "f_str (fstr_sw s (sap_major ap)) \<noteq> NULL"
    and "length (sap_list ap) = MAXAPUSH * (FMNAMESZ + 1)"
    and "find_apush_entry (sap_major ap) (sap_minor ap) s = Some a" "ap_push a = x # y # ms"
  shows "lis_apush_get e ap s = None"
  by (rule apush_get_overflow[OF assms])

lemma apush_get_writes_outside_witness: "lis_apush_get menv0 (ask 6) mods1 = None"
  by (rule apush_get_writes_outside[of _ _ range6 1 2 "[]"])
    (simp_all add: MAX_STRDEV_def MAXAPUSH_def FMNAMESZ_def find_apush_entry_def)

text \<open>The entry of a range, alone on its major, is found for its first minor and for those from its
  last minor on; for the minors inside the range nothing is found.\<close>

theorem range_lookup_misses_inside:
  assumes "apush_chain s major = [a]" "ap_cmd a = SAP_RANGE" "ap_minor a < ap_lastminor a"
  shows "find_apush_entry major m s = (if m = ap_minor a \<or> ap_lastminor a \<le> m then Some a else None)"
  by (rule range_lookup[OF assms])

lemma range_lookup_misses_inside_witness:
  "find_apush_entry 6 5 mods1 = None \<and> find_apush_entry 6 100 mods1 = Some range6"
  using range_lookup_misses_inside[of mods1 6 range6] by simp

text \<open>A module in state \<open>LINKED\<close> that is unregistered and registered again gets back the number of
  its dead slot: the slot is not initialised, and the module is not found by its name.\<close>

theorem register_again_gets_dead_slot:
  assumes "reg_free s" "0 < i" "i < fmodcnt s" "fmodcnt s < MAX_STRMOD" "idle (fmod_sw s i)"
    and "f_state (fmod_sw s i) AND MODSTATE_MASK = MODSTATE_LINKED"
    and "strtab \<noteq> NULL" "f_str (fmod_sw s i) = strtab" "\<forall>j. 0 < j \<and> j \<le> fmodcnt s \<and> j \<noteq> i \<longrightarrow> f_str (fmod_sw s j) \<noteq> strtab"
    and "name \<noteq> []" "\<forall>j. 0 < j \<and> j \<le> fmodcnt s \<and> j \<noteq> i \<longrightarrow> f_name (fmod_sw s j) \<noteq> name"
  shows "\<exists>t. lis_unregister_strmod strtab s = Some (0, t) \<and> lis_register_strmod strtab (Some name) t = Some (i, t) \<and>
    f_state (fmod_sw t i) AND MODSTATE_INITED = 0 \<and> lis_findmod name t = Some LIS_NULL_MID"
  by (rule register_again_dead[OF assms])

lemma register_again_gets_dead_slot_witness:
  "\<exists>t. lis_unregister_strmod 500 mods1 = Some (0, t) \<and> lis_register_strmod 500 (Some ''relay'') t = Some (1, t) \<and>
    lis_findmod ''relay'' t = Some LIS_NULL_MID"
proof -
  note d = register_again_gets_dead_slot[OF mods1_free _ mods1_linked(4,6) mods1_idle(1) mods1_linked(1) _ mods1_linked(2)]
  show ?thesis using d[of "''relay''"] mods1_new(3,4) by fastforce
qed

text \<open>When a signal ends the wait for the table's semaphore, \<open>lis_register_strmod\<close> returns the
  module number 65532, the error code as an unsigned short, and the table is as it was.\<close>

theorem register_interrupted_number:
  assumes "sem_ok (mod_reg s)" "sem_cnt (mod_reg s) \<le> 0" "mod_sig s" "strtab \<noteq> NULL"
  shows "lis_register_strmod strtab (Some name) s = Some (65532, s)"
  by (rule register_interrupted[OF assms])

lemma register_interrupted_number_witness:
  "\<exists>s. lis_register_strmod 900 (Some ''timod'') s = Some (65532, s)"
  using register_interrupted_number[of "mods1\<lparr>mod_reg := sem_init 0, mod_sig := True\<rparr>" 900 "''timod''"]
  by (auto simp: sem_init_def)

subsection \<open>Locks\<close>

text \<open>C33: In every interleaving of the statements of \<open>lis_spin_lock\<close> and \<open>lis_spin_unlock\<close> by any number
  of tasks, where a task unlocks only what it has locked: at most one task is inside, it holds the
  kernel's lock, and \<open>nest\<close> is the number of its acquisitions.\<close>

theorem spin_lock_excludes:
  assumes "lock_reachable False s" "0 < depth s t"
  shows "(\<forall>u. 0 < depth s u \<longrightarrow> u = t) \<and> lk_held s \<and> lk_nest s = int (depth s t)"
  by (rule mutual_exclusion[OF assms])

lemma spin_lock_excludes_witness:
  "\<exists>s. lock_reachable False s \<and> depth s 1 = 1 \<and> lk_held s \<and> lk_nest s = 1"
proof -
  define s where "s = acquired 1 (lock_init\<lparr>lk_held := True, lk_taskp := 1, lk_nest := lk_nest lock_init + 1\<rparr>)"
  have s: "lock_reachable False s" unfolding s_def by (rule lock_run) (simp_all add: lock_init_def)
  have d: "depth s 1 = 1" by (simp add: s_def acquired_def lock_init_def)
  show ?thesis using spin_lock_excludes[OF s, of 1] s d by auto
qed

text \<open>C34: With \<open>lis_spin_trylock\<close> this fails for any two tasks: an owner that succeeds with it is not
  counted, and its first unlock lets another task in while it is still inside.\<close>

theorem trylock_lets_second_in:
  assumes "t \<noteq> NULL" "u \<noteq> NULL" "t \<noteq> u"
  shows "\<exists>s. lock_reachable True s \<and> 0 < depth s t \<and> 0 < depth s u"
  by (rule trylock_breaks_exclusion[OF assms])

lemma trylock_lets_second_in_witness: "\<exists>s. lock_reachable True s \<and> 0 < depth s 1 \<and> 0 < depth s 2"
  using trylock_lets_second_in[of 1 2] by simp

text \<open>C35: The exchange sort of the contention tables, which steps over empty slots, sorts the contention
  counts of the entries as HOL's \<open>sort\<close> does, keeps the entries, and leaves the empty slots in
  place.\<close>

theorem contention_sort_is_sort:
  "map cnt (filter (\<lambda>p. p \<noteq> NULL) (contention_sort cnt tab)) = sort (map cnt (filter (\<lambda>p. p \<noteq> NULL) tab)) \<and>
   mset (contention_sort cnt tab) = mset tab \<and>
   map (\<lambda>p. p = NULL) (contention_sort cnt tab) = map (\<lambda>p. p = NULL) tab"
  using contention_sort_counts[of cnt tab] contention_sort_nulls[of cnt tab] by (simp add: used_def)

subsection \<open>The stream head\<close>

text \<open>C36: \<open>lis_stream_error\<close> returns, and afterwards no reader and no writer of the stream counts as
  asleep: the semaphore of each kind was released once for every sleeper.\<close>

theorem stream_error_wakes_sleepers:
  assumes "sds s hdp = Some h" "F_ISSET (sd_sigflags h) (ucast S_ERROR) \<Longrightarrow> \<exists>xs. elist (evl (hds s)) (sd_siglist h) xs"
    and "0 \<le> sd_rdcnt h" "0 \<le> sd_wrcnt h"
  shows "\<exists>t k. lis_stream_error hdp r w s = Some t \<and> sds t hdp = Some k \<and> sd_rdcnt k = 0 \<and> sd_wrcnt k = 0 \<and>
    sd_wread k = sd_wread h + sd_rdcnt h \<and> sd_wwrite k = sd_wwrite h + sd_wrcnt h"
  by (rule stream_error_releases[OF assms])

lemma stream_error_wakes_sleepers_witness:
  "\<exists>t k. lis_stream_error 100 5 0 sleepers = Some t \<and> sds t 100 = Some k \<and> sd_rdcnt k = 0 \<and> sd_wread k = 2 \<and> sd_wwrite k = 1"
  using stream_error_wakes_sleepers[OF sleepers_sd, of 5 0] sleepers_fields(3) by (auto simp: stdata_zero_def)

text \<open>C37: Readers exclude each other by \<open>sd_read_sem\<close>.  But an error on the stream releases the
  semaphore for the reader inside too, who is counted like those that wait: the next reader enters
  at once while the first is still inside.\<close>

theorem stream_error_admits_second_reader:
  assumes "sds s hdp = Some h" "sd_read_sem h = 1" "sd_rdsemcnt h = 0"
    and "F_ISSET (sd_sigflags h) (ucast S_ERROR) \<Longrightarrow> \<exists>xs. elist (evl (hds s)) (sd_siglist h) xs"
  shows "\<exists>t u v. lis_sleep_on_read_sem e hdp s = Some (0, t) \<and> lis_stream_error hdp r w t = Some u \<and>
    lis_sleep_on_read_sem e' hdp u = Some (0, v)"
  by (rule error_second_reader[OF assms])

lemma stream_error_admits_second_reader_witness:
  "\<forall>e e'. \<exists>t u v. lis_sleep_on_read_sem e 100 sleepers = Some (0, t) \<and> lis_stream_error 100 5 5 t = Some u \<and>
    lis_sleep_on_read_sem e' 100 u = Some (0, v)"
  using stream_error_admits_second_reader[OF sleepers_sd _ sleepers_fields(2)] sleepers_fields(3) by simp

text \<open>C38: Reading a message of data blocks with room for \<open>u - c\<close> more bytes (the copying loop of
  \<open>lis_strread\<close>): it ends, the user's buffer gets the first bytes of the message in order and nothing
  else of the user's memory changes, the message that remains holds exactly the other bytes, its
  reference counts agree, and streams, queues and data buffers are untouched.\<close>

theorem read_copies_message:
  assumes "readable L s mp ps" "ps \<noteq> []" "c < u" "u < 2 ^ 31" "accessible (length ps) s"
  shows "\<exists>mp' ml' t L' qs'. let n = min (u - c) (length (msg_bytes s ps)) in
    rd_blocks (of_nat u) mp ub (int c) ml s = Some (0, mp', ub + n, int (c + n), ml', t) \<and>
    umem (hds t) = overlay (umem (hds s)) ub (take n (msg_bytes s ps)) \<and>
    readable L' t mp' qs' \<and> msg_bytes t qs' = drop n (msg_bytes s ps) \<and> sds t = sds s \<and> qs t = qs s \<and> mem t = mem s"
  using rd_blocks_bytes[OF assms] by (simp only: read_done_def)

lemma read_copies_message_witness:
  "\<exists>mp' ml' t. rd_blocks 6 1000 70 0 0 to_read = Some (0, mp', 76, 6, ml', t) \<and>
    umem (hds t) = overlay (umem (hds to_read)) 70 (take 6 (msg_bytes to_read [1000, 2000, 3000]))"
  using read_copies_message[OF to_read_readable _ _ _ to_read_access, of 0 6 70 0]
  unfolding to_read_bytes Let_def by auto

text \<open>C39: The circular list of the stream heads: \<open>ins_stdata\<close> adds a stream head at its end, after which
  \<open>rem_stdata\<close> takes any stream head out of it; links in both directions, the head of the list and the
  count always agree with the list, and of the stream heads nothing but the links changes.\<close>

theorem stdata_list_kept:
  assumes "sd_list s xs" "sds s x = Some h" "x \<noteq> NULL" "x \<notin> set xs"
  shows "\<exists>t. ins_stdata x s = Some t \<and> sd_list t (xs @ [x]) \<and> (\<forall>p. same_sd (sds s p) (sds t p)) \<and>
    (\<forall>y\<in>set (xs @ [x]). \<exists>u. rem_stdata y t = Some u \<and> sd_list u (remove1 y (xs @ [x])) \<and>
       sd_links u y = Some (NULL, NULL) \<and> (\<forall>p. same_sd (sds t p) (sds u p)))"
  using ins_stdata_list[OF assms] rem_stdata_list by blast

lemma stdata_list_kept_witness:
  "\<exists>t u. ins_stdata 400 heads = Some t \<and> rem_stdata 100 t = Some u \<and> sd_list u [200, 300, 400]"
  using stdata_list_kept[OF heads_list heads_new(1)] by auto

text \<open>C40: The search for a number of a multiplexed stream ends, as long as there are fewer streams than
  positive numbers: it gives a positive \<open>int\<close> that no stream of the list has, wrapping around behind
  the largest, and remembers it.\<close>

theorem new_muxid_unused:
  assumes "sd_list s xs" "0 \<le> muxid (hds s)" "muxid (hds s) \<le> 2147483647" "int (length xs) < 2147483647"
  shows "\<exists>n. new_muxid s = Some (n, set_muxid n s) \<and> 0 < n \<and> n \<le> 2147483647 \<and> n \<notin> mux_of s ` set xs"
  by (rule new_muxid_fresh[OF assms])

lemma new_muxid_unused_witness:
  "\<exists>n. new_muxid heads = Some (n, set_muxid n heads) \<and> 0 < n \<and> n \<notin> {0, 1, 2}"
  using new_muxid_unused[OF heads_list] unfolding heads_new(2) heads_mux by auto

text \<open>C17: An answer to an ioctl that arrives at a stream head (\<open>lis_strrput\<close>) is given to the caller and wakes
  him exactly when he waits, has no other answer yet, and the answer carries the number of his ioctl;
  otherwise it is freed and the stream head stays as it was.\<close>

theorem ioctl_answer_matched:
  assumes "at_head s q mp Q h m" "db s (b_datap m) = Some d" "db_type d \<in> ioc_answers"
  shows "lis_strrput e q mp s =
    (if F_ISSET (sd_flag h) IOCWAIT \<and> sd_iocblk h = NULL \<and> \<not> F_ISSET (q_flag Q) QCLOSING \<and>
        mem_u32 s (b_rptr m + 16) = word_of_int (sd_iocseq h)
     then Some (sd_set (q_str Q) (h\<lparr>sd_iocblk := mp, sd_wiocing := sd_wiocing h + 1\<rparr>)
            (s\<lparr>mb := (mb s)(mp \<mapsto> m\<lparr>b_next := NULL\<rparr>)\<rparr>))
     else lis_freemsg mp (s\<lparr>mb := (mb s)(mp \<mapsto> m\<lparr>b_next := NULL\<rparr>)\<rparr>))"
  by (rule strrput_answer[OF assms])

lemma ioctl_answer_matched_witness:
  "\<forall>e. \<exists>t h. lis_strrput e 10 1000 (sd_set 90 waits7 ioc1) = Some t \<and> sds t 90 = Some h \<and> sd_iocblk h = 1000 \<and>
    sd_wiocing h = 1"
proof -
  have "mem_u32 (sd_set 90 waits7 ioc1) (databuf 1000 + 16) = 7"
    using ioc1_number(1) by (simp add: sd_set_def mem_u32_def mem_u16_def)
  then show ?thesis
    using ioctl_answer_matched[OF ioc1_at_head, of "ioc_blk 1000 M_IOCNAK"]
    by (simp add: sd_set_def ioc_blk_def ioc_answers_def waits7_def F_ISSET_def QUSE_def QCLOSING_def IOCWAIT_def)
qed

text \<open>C21: A caller whose wait fails (signal, time-out) while an answer is in the stream head leaves it there,
  with the count of the semaphore.  Any later ioctl that is sent down the stream and finds it there, with no error
  on the stream, does not wait: it takes it as its own answer, whatever its number and its type
  (\<open>ioc_taken\<close>: an acknowledgement, a refusal or a request to copy data of the other caller).\<close>

theorem ioctl_takes_left_over:
  assumes "ioc_sent e hdp mioc s = Some t"
    and "lis_wait_for_wiocing e hdp (ic_timout ioc) (ic_cmd ioc \<in> {I_LINK, I_PLINK, I_UNLINK, I_PUNLINK}) t = Some (err, u)"
    and "err < 0" "holds_answer hdp mp n u" "0 < n" "mp \<noteq> NULL" "hdp \<noteq> NULL" "map_option sd_refcnt (sds u hdp) \<noteq> Some 1"
  shows "\<exists>res v. ioc_again e dc hdp mioc 0 ioc s = Some (res, ioc\<lparr>ic_len := 0\<rparr>, v) \<and> holds_answer hdp mp n v \<and>
    (\<forall>e' dc' mioc' ioc' s' t'. ioc_sent e' hdp mioc' s' = Some t' \<and> holds_answer hdp mp n t' \<and> \<not> stream_error hdp t' \<longrightarrow>
      (\<exists>x. ioc_again e' dc' hdp mioc' 0 ioc' s' = ioc_taken e' dc' hdp mp ioc' x \<and> mb x = mb t' \<and> db x = db t' \<and> mem x = mem t' \<and>
        map_option sd_iocblk (sds x hdp) = Some NULL))"
  by (rule ioc_left_over[OF assms])

lemma ioctl_takes_left_over_witness:
  "sd_iocseq left7 = 8 \<and> mem_u32 ioc1 (databuf 1000 + 16) = 7 \<and>
   (\<exists>res v. ioc_again interrupted7 True 90 2000 0 ioctl7 (sd_set 90 (head2\<lparr>sd_iocseq := 7\<rparr>) ioc1) = Some (res, ioctl7, v) \<and>
      holds_answer 90 1000 1 v) \<and>
   (\<exists>v. ioc_again interrupted7 True 90 2000 0 ioctl7 (sd_set 90 left7 ioc1) = Some (- 13, ioctl7, v))"
proof -
  let ?A = "sd_set 90 (head2\<lparr>sd_iocseq := 7, sd_flag := IOCWAIT\<rparr>) ioc1" and ?B = "sd_set 90 (left7\<lparr>sd_flag := IOCWAIT\<rparr>) ioc1"
  have sent: "ioc_sent interrupted7 90 2000 (sd_set 90 (head2\<lparr>sd_iocseq := 7\<rparr>) ioc1) = Some ?A"
    by (rule ioc1_sent7[of "head2\<lparr>sd_iocseq := 7\<rparr>", simplified])
  obtain f where f: "lis_wait_for_wiocing interrupted7 90 (- 1) False ?A = Some (- 4, sd_set 90 (left7\<lparr>sd_flag := f\<rparr>) ioc1)"
    using ioc1_interrupted by blast
  have B: "ioc_sent interrupted7 90 2000 (sd_set 90 left7 ioc1) = Some ?B"
    by (rule ioc1_sent7) (simp_all add: left7_def)
  have held: "holds_answer 90 1000 1 ?B" "\<not> stream_error 90 ?B"
    by (simp_all add: holds_answer_def stream_error_def sd_set_def left7_def F_ISSET_def IOCWAIT_def STRDERR_def STWRERR_def)
  have len: "ioctl7\<lparr>ic_len := 0\<rparr> = ioctl7" by (simp add: ioctl7_def)
  have "\<exists>res v. ioc_again interrupted7 True 90 2000 0 ioctl7 (sd_set 90 (head2\<lparr>sd_iocseq := 7\<rparr>) ioc1) = Some (res, ioctl7\<lparr>ic_len := 0\<rparr>, v) \<and>
    holds_answer 90 1000 1 v \<and>
    (\<forall>e' dc' mioc' ioc' s' t'. ioc_sent e' 90 mioc' s' = Some t' \<and> holds_answer 90 1000 1 t' \<and> \<not> stream_error 90 t' \<longrightarrow>
      (\<exists>x. ioc_again e' dc' 90 mioc' 0 ioc' s' = ioc_taken e' dc' 90 1000 ioc' x \<and> mb x = mb t' \<and> db x = db t' \<and> mem x = mem t' \<and>
        map_option sd_iocblk (sds x 90) = Some NULL))"
    by (rule ioctl_takes_left_over[OF sent, where err = "- 4" and u = "sd_set 90 (left7\<lparr>sd_flag := f\<rparr>) ioc1"])
      (use f in \<open>simp_all add: ioctl7_def holds_answer_def sd_set_def left7_def I_LINK_def I_PLINK_def I_UNLINK_def I_PUNLINK_def\<close>)
  then obtain res v x where 1: "ioc_again interrupted7 True 90 2000 0 ioctl7 (sd_set 90 (head2\<lparr>sd_iocseq := 7\<rparr>) ioc1) = Some (res, ioctl7, v)"
      "holds_answer 90 1000 1 v"
    and x: "ioc_again interrupted7 True 90 2000 0 ioctl7 (sd_set 90 left7 ioc1) =
      ioc_taken interrupted7 True 90 1000 ioctl7 x" "mb x = mb ?B" "db x = db ?B" "mem x = mem ?B" "map_option sd_iocblk (sds x 90) = Some NULL"
    using B held unfolding len by blast
  have "own_nak x 1000 13"
    using ioc1_number(2) x(2-4) by (simp add: own_nak_def sd_set_def ioc_blk_def mem_int_def mem_u32_def mem_u16_def)
  moreover have "sds x 90 \<noteq> None" using x(5) by auto
  ultimately have "\<exists>v. ioc_taken interrupted7 True 90 1000 ioctl7 x = Some (- 13, ioctl7, v)"
    using taken_nak[of x 1000 13 90 interrupted7 True ioctl7] by (simp add: c_int_id len)
  then show ?thesis using 1 x(1) ioc1_number(1) by (auto simp: left7_def)
qed

text \<open>C15: Linking the queue pair of a module under a stream head (\<open>lis_qattach\<close>) and unlinking it again
  (\<open>lis_qdetach\<close>) leaves every other queue, and the rest of the state, as it was, whatever is below the
  stream head: nothing, the stream head itself (a FIFO), a module or driver, or the other end of a pipe.
  In between, the pair stands between the stream head and what was below it, in both directions.\<close>

theorem module_link_unlink:
  assumes "qpair s rq wq" "qpair s newq newwq" "{rq, wq} \<inter> {newq, newwq} = {}"
    and "map_option q_next (qs s wq) = Some n" "below s rq wq n" "n \<notin> {newq, newwq}"
  shows "\<exists>t u. link_pair rq wq newq newwq s = Some t \<and> linked rq wq newq newwq n t \<and>
    unlink_pair newq newwq t = Some u \<and> (\<forall>x. x \<notin> {newq, newwq} \<longrightarrow> qs u x = qs s x) \<and> u\<lparr>qs := qs s\<rparr> = s"
  by (rule link_unlink[OF assms])

lemma module_link_unlink_witness:
  "\<exists>t u. link_pair 10 20 50 60 streams = Some t \<and> linked 10 20 50 60 40 t \<and> unlink_pair 50 60 t = Some u \<and>
    qs u 20 = Some (pq False 10 40 90) \<and> qs u 30 = Some (pq True 40 10 90)"
proof -
  have "map_option q_next (qs streams 20) = Some 40" by (simp add: streams_qs)
  from module_link_unlink[OF streams_pairs(1,2) _ this streams_below] show ?thesis by (auto simp: streams_qs)
qed

text \<open>C32: When the driver refuses to link a stream below it (I_LINK), the error is returned, but the queues of
  the stream that was to be linked are left with the procedures that the driver's streamtab has for its
  own queues, and not with those of a stream head, which they had before.\<close>

theorem refused_link_breaks_stream:
  assumes "sds s muxed = Some k" "upd_q (sd_rq k) (\<lambda>Q. Q\<lparr>q_flag := q_flag Q AND NOT QNOENB\<rparr>) s = Some s1"
    and "lis_await_qsched e muxed (sd_rq k) s1 = Some (0, s2)" "link_ask e hdp muxed qtop index creds s2 = Some (err, t)" "err < 0"
    and "sds t hdp = Some h" "sds t muxed = Some m" "hdp \<noteq> NULL" "muxed \<noteq> NULL" "hdp \<noteq> muxed"
    and "qpair t (sd_rq m) (sd_wq m)" "sd_strtab h = Some st" "st_rdinit st = Some ri" "st_wrinit st = Some wi"
  shows "\<exists>u. link_lower e hdp muxed qtop index creds s = Some (err, u) \<and> q_init u (sd_rq m) = Some ri \<and> q_init u (sd_wq m) = Some wi"
  by (rule link_refused[OF assms])

lemma refused_link_breaks_stream_witness:
  "\<exists>u. link_lower penv1 90 91 40 1 0 streams = Some (- ENOMEM, u) \<and> q_init u 110 = Some srv_info \<and> srv_info \<noteq> strmhd_rdinit"
proof -
  obtain t h m where t: "link_ask penv1 90 91 40 1 0 asked = Some (- ENOMEM, t)" "sds t 90 = Some h" "sds t 91 = Some m"
    "sd_rq m = 110" "sd_wq m = 120" "qpair t 110 120" "sd_strtab h = Some \<lparr>st_rdinit = Some srv_info, st_wrinit = Some srv_info,
      st_muxrinit = Some strmhd_rdinit, st_muxwinit = Some strmhd_wrinit\<rparr>"
    using streams_refused by blast
  obtain k where k: "sds streams 91 = Some k" "sd_rq k = 110" by (simp add: streams_def)
  have "\<exists>u. link_lower penv1 90 91 40 1 0 streams = Some (- ENOMEM, u) \<and> q_init u (sd_rq m) = Some srv_info \<and>
      q_init u (sd_wq m) = Some srv_info"
    by (rule refused_link_breaks_stream[OF k(1) _ _ t(1) _ t(2,3) _ _ _ _ t(7)])
      (use asked_clear asked_idle k(2) t(4-6) in simp_all)
  then show ?thesis using t(4) srv_not_head by auto
qed

text \<open>C6: \<open>I_FDINSERT\<close> with a negative length of the control part (as \<open>putmsg\<close> has it for "no control part")
  passes the check that the queue pointer fits into the control part, with any aligned offset.  The pointer
  is then written that far from the start of the message, whatever the length of its buffer, and the bytes
  stay changed when the request ends without having sent anything.\<close>

theorem fdinsert_writes_outside:
  assumes "sb_len (fi_ctl f) < 0" "- (2 ^ 31) \<le> sb_len (fi_ctl f)" "fi_offset f = 8 * int k" "k \<le> 512" "fi_flags f = 0"
    and "0 \<le> fi_fildes f" "mb s msg = Some m" "lis_btype msg s = Some ty" "lis_safe_RD q s = Some rq"
    and "msg_inv L s" "msg \<in> L" "b_cont m = NULL" "sds s hdp = Some h" "qs s (sd_wq h) = Some W" "q_qsp W = NULL" "sd_wq h \<noteq> NULL"
    and "\<not> F_ISSET (sd_flag h) STWRERR" "\<not> F_ISSET (sd_flag h) (STRHUP OR STRCLOSE)" "sd_wrcnt h \<noteq> 0"
    and "r_fl e AND (O_NONBLOCK OR FL_OLDNDELAY) = O_NONBLOCK"
  shows "fdinsert_ok f \<and> (\<exists>t. fd_send e hdp f q msg s = Some (- EAGAIN, t) \<and>
    mem t = mem (mem_put64 (b_rptr m + 8 * k) (of_nat rq) s))"
  using fdinsert_ok_negative[OF assms(1-6)] fdinsert_outside[OF assms(5,3,7-20)] by (rule conjI)

lemma fdinsert_writes_outside_witness:
  "fdinsert_ok insert16 \<and> db_lim (own_db 1000 0) \<le> databuf 1000 + 16 \<and>
   (\<exists>t. fd_send renv1 90 insert16 40 1000 short_msg = Some (- EAGAIN, t) \<and>
      mem t = mem (mem_put64 (databuf 1000 + 16) 30 short_msg))"
proof -
  have rd: "lis_safe_RD 40 short_msg = Some 30" by (simp add: lis_safe_RD_def q_magic_ok_def short_msg_def F_ISSET_def QREADR_def QUSE_def)
  have "fdinsert_ok insert16 \<and> (\<exists>t. fd_send renv1 90 insert16 40 1000 short_msg = Some (- EAGAIN, t) \<and>
      mem t = mem (mem_put64 (b_rptr (blk 1000 0 3) + 8 * 2) (of_nat 30) short_msg))"
    by (rule fdinsert_writes_outside[OF _ _ insert16_fields(3) _ insert16_fields(2) _ _ _ rd short_msg_inv,
        where ty = 0 and h = "stdata_zero\<lparr>sd_magic := STDATA_MAGIC, sd_rq := 10, sd_wq := 20, sd_wrcnt := 1\<rparr>"
          and W = "pq False 10 40 90"])
      (simp_all add: insert16_fields(1,4) short_msg_def lis_btype_def renv1_def F_ISSET_def O_NONBLOCK_def FL_OLDNDELAY_def pq_def stdata_zero_def queue_zero_def)
  then show ?thesis by simp
qed

text \<open>C14: \<open>I_SETSIG\<close> with no events takes the process out of the list of events.  The stream head stays
  as it was, with the flags of all events any process ever asked for: they are never cleared.\<close>

theorem setsig_zero_keeps_flags:
  assumes "sds s hdp = Some h" "ev_holds (sd_siglist h) (evl (hds s)) M" "M (p_pid (r_push e)) \<noteq> None"
  shows "\<exists>t. req_setsig e hdp 0 s = Some (0, t) \<and> sds t = sds s \<and>
    ev_holds (sd_siglist h) (evl (hds t)) (del_events M (p_pid (r_push e)) S_ALL)"
  by (rule setsig_zero[OF assms])

lemma setsig_zero_keeps_flags_witness:
  "\<exists>t k. req_setsig (renv1\<lparr>r_push := penv1\<lparr>p_pid := 5\<rparr>\<rparr>) 90 0 listens = Some (0, t) \<and> sds t 90 = Some k \<and>
    sd_sigflags k = 7 \<and> ev_holds 100 (evl (hds t)) [9 \<mapsto> 4]"
proof -
  have h: "sds listens 90 = Some (stdata_zero\<lparr>sd_magic := STDATA_MAGIC, sd_siglist := 100, sd_sigflags := 7\<rparr>)"
    by (simp add: listens_def)
  have "ev_holds 100 (evl (hds listens)) [9 \<mapsto> 4, 5 \<mapsto> 3]" using evs1_holds by (simp add: listens_def)
  then show ?thesis using setsig_zero_keeps_flags[OF h, of "[9 \<mapsto> 4, 5 \<mapsto> 3]" "renv1\<lparr>r_push := penv1\<lparr>p_pid := 5\<rparr>\<rparr>"] h
    by (auto simp: del_events_def fun_upd_twist)
qed

text \<open>C20: \<open>I_RECVFD\<close> when no descriptor is free fails with \<open>ENFILE\<close>, and the file is put back: the queue holds
  the messages it held.  But the count of files that wait on the stream head is one less than before.\<close>

theorem recvfd_loses_count:
  assumes "sds s hdp = Some h" "hdp \<noteq> NULL" "sd_magic h = STDATA_MAGIC" "q_holds (sd_rq h) s (x # xs)"
    and "lis_btype x s = Some M_PASSFP" "mb s x = Some m" "32 \<le> int (b_wptr m) - int (b_rptr m)"
    and "b_wptr m < 2 ^ 64" "free_fds (hds s) = []"
  shows "\<exists>t k. lis_recvfd e hdp s = Some (- ENFILE, [], t) \<and> q_holds (sd_rq h) t (x # xs) \<and>
    sds t hdp = Some k \<and> sd_rfdcnt k = sd_rfdcnt h - 1"
  by (rule recvfd_no_descriptor[OF assms])

lemma recvfd_loses_count_witness:
  "\<exists>t k. lis_recvfd renv1 90 passed = Some (- ENFILE, [], t) \<and> q_holds 10 t [1000] \<and> sds t 90 = Some k \<and> sd_rfdcnt k = 0"
proof -
  have h: "sds passed 90 = Some (stdata_zero\<lparr>sd_magic := STDATA_MAGIC, sd_rq := 10, sd_wq := 20, sd_rfdcnt := 1\<rparr>)"
    by (simp add: passed_def)
  have "q_holds (sd_rq (stdata_zero\<lparr>sd_magic := STDATA_MAGIC, sd_rq := 10, sd_wq := 20, sd_rfdcnt := 1\<rparr>)) passed (1000 # [])"
    using passed_holds by simp
  from recvfd_loses_count[OF h _ _ this, of "blk 1000 0 32" renv1] show ?thesis
    by (simp add: passed_def lis_btype_def hds0_def databuf_def HDRSZ_def)
qed

subsection \<open>Drivers\<close>

text \<open>C13: The units of the FIFO driver: the list of free units holds, once each, exactly the units that are
  neither given nor kept for clone opens.  A unit that \<open>fifo_alloc\<close> gives was free and is not given again,
  a unit asked for is the one given, a refusal changes nothing, and \<open>fifo_free\<close> makes the unit free again.\<close>

theorem fifo_units_kept:
  assumes "fifo_inv c st" "idx < int (fc_units c)" "0 \<le> idx \<longrightarrow> ff_flags st (nat idx) AND FIFO_CLONABLE = 0"
  shows "\<exists>r t. fifo_alloc c idx st = Some (r, t) \<and> fifo_inv c t \<and>
    (if r < 0 then t = st
     else nat r \<in> set (ff_free st) \<and> nat r \<notin> set (ff_free t) \<and> (0 \<le> idx \<longrightarrow> r = idx) \<and>
       fifo_inv c (fifo_free c r t) \<and> set (ff_free (fifo_free c r t)) = set (ff_free st))"
  by (rule fifo_alloc_free[OF assms])

lemma fifo_units_kept_witness: "\<exists>r t. fifo_alloc fifocfg1 (-1) fifos = Some (r, t) \<and> fifo_inv fifocfg1 t \<and> r \<in> {1, 3} \<union> {..<0}"
  using fifo_units_kept[OF fifos_free(1), of "-1"] fifos_free(2) by (fastforce simp: fifocfg1_def split: if_splits)

text \<open>C29: The administrative driver: when the stream head cannot copy the data for a request, the dialogue
  stays in its state.  From then on every request of that minor device is refused with \<open>EINVAL\<close>, whatever
  it asks: in every state that is reached by any messages to the driver, but for a copy for this device that
  succeeds, by opening other minor devices, by closing any, and by any changes outside of the driver.\<close>

theorem sad_refuses_for_good:
  assumes "pv_state (sa_sad st i) \<noteq> ST_NONE" "mb (sa_lis st) mp = Some m" "mem_u64 (sa_lis st) (b_rptr m + 24) \<noteq> 0"
    and "sad_iocdata e i mp st = Some t" "sad_later e i t u"
  shows "sa_sad t = sa_sad st \<and> pv_state (sa_sad u i) = pv_state (sa_sad st i) \<and>
    (\<forall>mp'. sad_do_ioctl e i mp' u = sad_nak e i mp' (- EINVAL) u)"
  by (rule sad_stuck[OF assms])

lemma sad_refuses_for_good_witness:
  "\<exists>t u. sad_iocdata sadenv1 1 1000 sad1 = Some t \<and> sad_open 10 2 0 (t\<lparr>sa_lis := pairs\<rparr>) = Some (0, 2, u) \<and>
    (\<forall>mp'. sad_do_ioctl sadenv1 1 mp' u = sad_nak sadenv1 1 mp' (- EINVAL) u)"
proof -
  obtain t where t: "sad_iocdata sadenv1 1 1000 sad1 = Some t" using sad1_refused by blast
  obtain u where u: "sad_open 10 2 0 (t\<lparr>sa_lis := pairs\<rparr>) = Some (0, 2, u)" using sad_opens by blast
  have "sad_later sadenv1 1 t (t\<lparr>sa_lis := pairs\<rparr>)" by (rule sad_later.outside[OF sad_later.now])
  from sad_later.opened[OF this u] have later: "sad_later sadenv1 1 t u" by (simp add: dev_minor_def)
  have "mb (sa_lis sad1) 1000 = Some (blk 1000 0 3)" by (simp add: sad1_def rejected_def short_msg_def)
  moreover have "mem_u64 (sa_lis sad1) (b_rptr (blk 1000 0 3) + 24) \<noteq> 0"
    by (simp add: sad1_def mem_u64_def mem_u32_def mem_u16_def rejected_def short_msg_def lis0_def)
  ultimately show ?thesis using sad_refuses_for_good[of sad1 1 1000 _ sadenv1 t u] t u later by (auto simp: sad1_def)
qed

text \<open>C30: The loop-around driver: when one of two connected devices is closed, the slot of the other, which is
  still open, counts as free.  In every later state in which this is still so, a clone open that finds no
  free slot with a lower number takes it: the two streams share one structure from then on, and it points
  to the write queue of the new one.\<close>

theorem loop_slot_taken_over:
  assumes "loop_close e q st = Some (r, t)" "lp_ptr st q = Some i" "lo_oqptr (lp_loop st i) = oq" "oq \<noteq> NULL"
    and "lp_ptr st oq = Some j" "j \<noteq> i" "1 \<le> j" "j < NLOOP"
  shows "lp_ptr t oq = Some j \<and> lo_qptr (lp_loop t j) = NULL \<and>
    (\<forall>u q' wq' devp. lp_ptr u oq = Some j \<and> lo_qptr (lp_loop u j) = NULL \<and>
        (\<forall>d. 1 \<le> d \<and> d < j \<longrightarrow> lo_qptr (lp_loop u d) \<noteq> NULL) \<and> lp_ptr u q' = None \<and> lis_safe_WR q' (lp_lis u) = Some wq' \<longrightarrow>
      (\<exists>v. loop_open q' devp CLONEOPEN u = Some (0, makedevice (dev_major devp) j, v) \<and>
        lp_ptr v q' = Some j \<and> lp_ptr v oq = Some j \<and> lo_qptr (lp_loop v j) = wq'))"
  by (rule loop_slot_shared[OF assms])

lemma loop_slot_taken_over_witness:
  "\<exists>t u. loop_close loopenv1 10 loops = Some (0, t) \<and> loop_open 50 0 CLONEOPEN t = Some (0, makedevice 0 1, u) \<and>
    lp_ptr u 50 = Some 1 \<and> lp_ptr u 30 = Some 1 \<and> lo_qptr (lp_loop u 1) = 60"
proof -
  obtain t where t: "loop_close loopenv1 10 loops = Some (0, t)" "lis_safe_WR 50 (lp_lis t) = Some 60" "lp_ptr t 50 = None"
    using loops_closed by blast
  have T: "lp_ptr t 30 = Some 1 \<and> lo_qptr (lp_loop t 1) = NULL \<and>
    (\<forall>u q' wq' devp. lp_ptr u 30 = Some 1 \<and> lo_qptr (lp_loop u 1) = NULL \<and>
        (\<forall>d. 1 \<le> d \<and> d < (1 :: nat) \<longrightarrow> lo_qptr (lp_loop u d) \<noteq> NULL) \<and> lp_ptr u q' = None \<and> lis_safe_WR q' (lp_lis u) = Some wq' \<longrightarrow>
      (\<exists>v. loop_open q' devp CLONEOPEN u = Some (0, makedevice (dev_major devp) 1, v) \<and>
        lp_ptr v q' = Some 1 \<and> lp_ptr v 30 = Some 1 \<and> lo_qptr (lp_loop v 1) = wq'))"
    by (rule loop_slot_taken_over[OF t(1), where i = 2]) (simp_all add: loops_def NLOOP_def)
  from conjunct2[OF conjunct2[OF T]] obtain u where "loop_open 50 0 CLONEOPEN t = Some (0, makedevice (dev_major 0) 1, u)"
    "lp_ptr u 50 = Some 1" "lp_ptr u 30 = Some 1" "lo_qptr (lp_loop u 1) = 60"
    using T t by (metis linorder_not_le)
  then show ?thesis using t(1) by (simp add: dev_major_def)
qed

text \<open>C31: The multiplexor: an upper stream \<open>q\<close> with entry \<open>p\<close> is closed while a lower stream sends to it that is
  not its own partner (two lower streams can have the same upper one).  The lower stream keeps its pointer
  to the entry, which is freed; the next message from below is an access through the dangling pointer.\<close>

theorem mux_close_leaves_dangling:
  assumes "mux_close q st = Some (r, t)" "xs_ptr st q = p" "p \<noteq> NULL" "mux_search p NULL (xs_head st) st = Some (prev, p)"
    and "outq_at st p = Some oq" "other_at st l = Some p" "other_at st p \<noteq> Some l" "l \<noteq> p" "l \<noteq> NULL"
    and "xs_ptr st lq = l" "lq \<noteq> q" "lis_safe_RD oq (xs_lis st) \<noteq> Some lq" "lis_safe_WR oq (xs_lis st) \<noteq> Some lq"
  shows "mux_lrput e lq mp t = None"
  by (rule mux_close_dangles[OF assms])

lemma mux_close_leaves_dangling_witness: "\<exists>t. mux_close 10 muxes = Some (0, t) \<and> mux_lrput env1 30 1000 t = None"
proof -
  obtain t where t: "mux_close 10 muxes = Some (0, t)" using muxes_closed by blast
  have m: "mux_search 100 NULL (xs_head muxes) muxes = Some (110, 100)" using muxes_search by (simp add: muxes_def)
  have "mux_lrput env1 30 1000 t = None"
    by (rule mux_close_leaves_dangling[OF t _ _ m, where l = 110 and oq = 10])
      (use muxes_partner in \<open>simp_all add: muxes_def\<close>)
  with t show ?thesis by blast
qed

end
